(* ===== verification/Basics.thy ===== *)
theory Basics
  imports Main
begin

text \<open>
  Shared ground of the development: the error values the services throw, JavaScript's BigInt
  division, the decimal rendering used in idempotency keys, JSON metadata, the sequencing of
  fallible steps, and generic lemmas on lists that the component theories use.

  Conventions. A TypeScript \<open>bigint\<close> is an \<open>int\<close>; a \<open>number\<close> that the code uses as a whole number
  is an \<open>int\<close> as well. A function that may throw returns \<open>error + 'a\<close>, where \<open>Inl\<close> is the thrown
  error. Database identifiers (UUIDs, cuids) are natural numbers drawn from a counter, and
  \<open>show_nat\<close> is their text. The human-readable message of an \<open>AppError\<close> is not kept; its status,
  code and details are.
\<close>

section \<open>Collections of simplification facts\<close>

named_theorems money_simps "arithmetic of shares, fees and draws"
named_theorems step_simps "unfolding of fallible steps"
named_theorems frame_simps "which tables and wallets an operation leaves alone"

section \<open>Decimal text of numbers\<close>

definition digit :: "nat \<Rightarrow> char" where
  "digit d = ''0123456789'' ! d"

fun show_nat :: "nat \<Rightarrow> string" where
  "show_nat n = (if n < 10 then [digit n] else show_nat (n div 10) @ [digit (n mod 10)])"

declare show_nat.simps [simp del]

definition show_int :: "int \<Rightarrow> string" where
  "show_int i = (if i < 0 then ''-'' @ show_nat (nat (- i)) else show_nat (nat i))"

text \<open>Reading the decimal text back, used to show that the rendering is injective.\<close>

definition read_nat :: "string \<Rightarrow> nat" where
  "read_nat s = foldl (\<lambda>a c. 10 * a + (of_char c - 48)) 0 s"

lemma digit_mem: "d < 10 \<Longrightarrow> digit d \<in> set ''0123456789''"
  unfolding digit_def by (rule nth_mem) simp

lemma less_ten_cases:
  "d < (10::nat) \<Longrightarrow> d = 0 \<or> d = 1 \<or> d = 2 \<or> d = 3 \<or> d = 4 \<or> d = 5 \<or> d = 6 \<or> d = 7 \<or> d = 8 \<or> d = 9"
  by arith

lemma of_char_digit [simp]: "d < 10 \<Longrightarrow> of_char (digit d) = (48 + d :: nat)"
  by (drule less_ten_cases) (elim disjE; simp add: digit_def)

lemma read_show_nat [simp]: "read_nat (show_nat n) = n"
proof (induction n rule: show_nat.induct)
  case (1 n)
  show ?case
  proof (cases "n < 10")
    case True
    then show ?thesis by (simp add: show_nat.simps [of n] read_nat_def)
  next
    case False
    with "1.IH" have ih: "read_nat (show_nat (n div 10)) = n div 10" by simp
    from False show ?thesis
      using ih by (simp add: show_nat.simps [of n] read_nat_def)
  qed
qed

lemma show_nat_inject [simp]: "show_nat a = show_nat b \<longleftrightarrow> a = b"
  by (metis read_show_nat)

lemma digit_neq_dash: "d < 10 \<Longrightarrow> digit d \<noteq> CHR ''-''"
proof
  assume d: "d < 10" and "digit d = CHR ''-''"
  then have "of_char (digit d) = (of_char (CHR ''-'') :: nat)" by simp
  with d show False by simp
qed

lemma show_nat_no_dash: "CHR ''-'' \<notin> set (show_nat n)"
proof (induction n rule: show_nat.induct)
  case (1 n)
  have "CHR ''-'' \<noteq> digit m" if "m < 10" for m
    using digit_neq_dash [OF that] by simp
  then show ?case
    using 1 by (subst show_nat.simps) auto
qed

lemma show_nat_dash_split:
  assumes "show_nat a @ CHR ''-'' # x = show_nat b @ CHR ''-'' # y"
  shows "a = b \<and> x = y"
proof -
  have "takeWhile (\<lambda>c. c \<noteq> CHR ''-'') (show_nat n @ CHR ''-'' # z) = show_nat n" for n z
    using show_nat_no_dash [of n] by (subst takeWhile_append2) auto
  from this [of a x] this [of b y] assms have "show_nat a = show_nat b" by simp
  with assms show ?thesis by simp
qed

section \<open>JSON values and errors\<close>

datatype json =
    JNull
  | JBool bool
  | JNum int
  | JStr string
  | JArr "json list"
  | JObj "(string \<times> json) list"

text \<open>Property access \<open>obj.key\<close> on a value that is an object; \<open>undefined\<close> is \<open>None\<close>.\<close>

definition json_field :: "json option \<Rightarrow> string \<Rightarrow> json option" where
  "json_field j k = (case j of Some (JObj kvs) \<Rightarrow> map_of kvs k | _ \<Rightarrow> None)"

datatype error =
    AppError nat string "(string \<times> json) list"
  | UniqueViolation
  | LuckyWeightsError
  | RangeError
  | OtherError string

text \<open>\<open>BigInt.toString()\<close> in the details of an error.\<close>

abbreviation JBig :: "int \<Rightarrow> json" where
  "JBig i \<equiv> JStr (show_int i)"

section \<open>Fallible steps\<close>

definition andThen :: "error + 'a \<Rightarrow> ('a \<Rightarrow> error + 'b) \<Rightarrow> error + 'b" where
  "andThen r f = (case r of Inl e \<Rightarrow> Inl e | Inr x \<Rightarrow> f x)"

lemma andThen_simps [simp]:
  "andThen (Inl e) f = Inl e"
  "andThen (Inr x) f = f x"
  by (simp_all add: andThen_def)

lemma andThen_Inr_iff:
  "andThen r f = Inr y \<longleftrightarrow> (\<exists>x. r = Inr x \<and> f x = Inr y)"
  by (cases r) auto

lemma andThen_Inl_iff:
  "andThen r f = Inl e \<longleftrightarrow> r = Inl e \<or> (\<exists>x. r = Inr x \<and> f x = Inl e)"
  by (cases r) auto

text \<open>
  A service call that commits several transactions: it answers with a value or an error and with the
  state after what was committed. A transaction that fails leaves the state it found.
\<close>

definition transact :: "('s \<Rightarrow> error + 'a \<times> 's) \<Rightarrow> 's \<Rightarrow> (error + 'a) \<times> 's" where
  "transact f s = (case f s of Inl e \<Rightarrow> (Inl e, s) | Inr (x, s') \<Rightarrow> (Inr x, s'))"

definition afterwards :: "(error + 'a) \<times> 's \<Rightarrow> ('a \<Rightarrow> 's \<Rightarrow> (error + 'b) \<times> 's) \<Rightarrow> (error + 'b) \<times> 's" where
  "afterwards r f = (case r of (Inl e, s) \<Rightarrow> (Inl e, s) | (Inr x, s) \<Rightarrow> f x s)"

lemma afterwards_simps [simp]:
  "afterwards (Inl e, s) f = (Inl e, s)" "afterwards (Inr x, s) f = f x s"
  by (simp_all add: afterwards_def)

definition require :: "bool \<Rightarrow> error \<Rightarrow> error + unit" where
  "require b e = (if b then Inr () else Inl e)"

lemma require_simps [simp]:
  "require True e = Inr ()"
  "require False e = Inl e"
  "require b e = Inr u \<longleftrightarrow> b"
  by (simp_all add: require_def)

section \<open>BigInt division\<close>

text \<open>
  BigInt's \<open>/\<close> truncates towards zero and throws a RangeError on a zero divisor. \<open>bdiv\<close> is the
  quotient; the callers that can see a zero divisor check it before.
\<close>

definition bdiv :: "int \<Rightarrow> int \<Rightarrow> int" where
  "bdiv a b = sgn a * sgn b * (\<bar>a\<bar> div \<bar>b\<bar>)"

lemma bdiv_nonneg [money_simps]: "0 \<le> a \<Longrightarrow> 0 < b \<Longrightarrow> bdiv a b = a div b"
  by (cases "a = 0") (auto simp: bdiv_def)

lemma bdiv_ge_0: "0 \<le> a \<Longrightarrow> 0 < b \<Longrightarrow> 0 \<le> bdiv a b"
  by (simp add: bdiv_nonneg pos_imp_zdiv_nonneg_iff)

lemma div_bp_le:
  fixes a r :: int
  assumes "0 \<le> a" "0 \<le> r" "r \<le> 10000"
  shows "a * r div 10000 \<le> a"
proof -
  have "a * r \<le> a * 10000" using assms by (intro mult_left_mono) auto
  then have "a * r div 10000 \<le> a * 10000 div 10000" by (rule zdiv_mono1) simp
  then show ?thesis by simp
qed

lemma int_div_less_iff:
  fixes x p m :: int
  assumes "0 < p"
  shows "x div p < m \<longleftrightarrow> x < m * p"
proof
  assume lt: "x div p < m"
  show "x < m * p"
  proof (rule ccontr)
    assume "\<not> x < m * p"
    then have "m * p div p \<le> x div p" using assms by (intro zdiv_mono1) auto
    with lt assms show False by simp
  qed
next
  assume lt: "x < m * p"
  have "x div p * p \<le> x" using assms by (metis mult.commute mult_div_mod_eq pos_mod_sign le_add_same_cancel1)
  with lt have "x div p * p < m * p" by simp
  with assms show "x div p < m" by simp
qed

lemma ceil_div_bounds:
  fixes a d :: int
  assumes "0 < d"
  shows "a \<le> d * ((a + d - 1) div d)" "d * ((a + d - 1) div d) < a + d"
proof -
  have "d * ((a + d - 1) div d) = (a + d - 1) - (a + d - 1) mod d"
    by (simp add: minus_mod_eq_mult_div)
  moreover have "0 \<le> (a + d - 1) mod d" "(a + d - 1) mod d < d"
    using assms by simp_all
  ultimately show "a \<le> d * ((a + d - 1) div d)" "d * ((a + d - 1) div d) < a + d"
    by simp_all
qed

section \<open>Lists\<close>

lemma find_Some_mem: "find P xs = Some x \<Longrightarrow> x \<in> set xs \<and> P x"
  by (auto simp: find_Some_iff)

lemma find_append: "find P (xs @ ys) = (case find P xs of None \<Rightarrow> find P ys | Some x \<Rightarrow> Some x)"
  by (induction xs) auto

lemma find_None_set: "find P xs = None \<longleftrightarrow> (\<forall>x\<in>set xs. \<not> P x)"
  by (auto simp: find_None_iff)

lemma sum_list_append_int: "sum_list (xs @ ys) = sum_list xs + (sum_list ys :: int)"
  by simp

lemma sum_list_nonneg_int: "(\<forall>x\<in>set xs. (0::int) \<le> x) \<Longrightarrow> 0 \<le> sum_list xs"
  by (induction xs) auto

text \<open>\<open>text.startsWith(p)\<close>\<close>

definition startsWith :: "string \<Rightarrow> string \<Rightarrow> bool" where
  "startsWith p s \<longleftrightarrow> take (length p) s = p"

end
