(* ===== verification/Revenue.thy ===== *)
theory Revenue
  imports Basics Complex_Main
begin

text \<open>
  Revenue shares, amount steps and payroll fees: \<open>src/src/config/host-revenue-shares.ts\<close>,
  \<open>src/src/utils/transaction-amount-steps.ts\<close>, \<open>src/src/utils/payroll-fee.ts\<close> and
  \<open>src/src/config/payroll-fee-tiers.defaults.ts\<close>. All of it is integer arithmetic in basis points;
  the lemmas say who gains the rounding and that the fee ladder is total and deterministic.
\<close>

section \<open>Host revenue shares\<close>

record HostRevenueShares =
  giftReceiveBp :: int
  subscriptionBp :: int
  guardianPurchaseBp :: int
  videoCallHostShareBp :: int
  luckyHostShareBp :: int
  luckyTargetRtpBp :: int
  luckyWaterAgencyCommission :: bool

definition DEFAULT_HOST_REVENUE_SHARES :: HostRevenueShares where
  "DEFAULT_HOST_REVENUE_SHARES =
     \<lparr> giftReceiveBp = 6000, subscriptionBp = 7500, guardianPurchaseBp = 7500,
       videoCallHostShareBp = 6000, luckyHostShareBp = 400, luckyTargetRtpBp = 9200,
       luckyWaterAgencyCommission = False \<rparr>"

definition hostPointsFromGift :: "int \<Rightarrow> int \<Rightarrow> int" where
  "hostPointsFromGift coinCost bp = (if coinCost \<le> 0 then 0 else bdiv (coinCost * bp) 10000)"

definition hostPointsFromSubscription :: "int \<Rightarrow> int \<Rightarrow> int" where
  "hostPointsFromSubscription coinCost bp = (if coinCost \<le> 0 then 0 else bdiv (coinCost * bp) 10000)"

definition hostPointsFromGuardian :: "int \<Rightarrow> int \<Rightarrow> int" where
  "hostPointsFromGuardian coinCost bp = (if coinCost \<le> 0 then 0 else bdiv (coinCost * bp) 10000)"

text \<open>A zero share makes the BigInt division throw.\<close>

definition callerCoinDebitForCall :: "int \<Rightarrow> int \<Rightarrow> error + int" where
  "callerCoinDebitForCall hostPricePerMin hostShareBp =
     (if hostPricePerMin \<le> 0 then Inr 0
      else if hostShareBp = 0 then Inl RangeError
      else Inr (bdiv (hostPricePerMin * 10000 + hostShareBp - 1) hostShareBp))"

lemma hostPointsFromGift_bounds:
  assumes "0 \<le> bp" "bp \<le> 10000" "0 \<le> coinCost"
  shows "0 \<le> hostPointsFromGift coinCost bp" "hostPointsFromGift coinCost bp \<le> coinCost"
  using assms div_bp_le [of coinCost bp]
  by (auto simp: hostPointsFromGift_def bdiv_nonneg pos_imp_zdiv_nonneg_iff)

lemma callerCoinDebit_ok:
  assumes "0 < p" "0 < bp"
  shows "callerCoinDebitForCall p bp = Inr ((p * 10000 + bp - 1) div bp)"
proof -
  have "0 < p * 10000" using assms by simp
  then show ?thesis using assms by (simp add: callerCoinDebitForCall_def bdiv_nonneg)
qed

text \<open>
  The caller of a video call is charged the least whole number of coins whose host share
  covers the host's price: with share \<open>bp\<close> in (0, 10000], the charge \<open>c\<close> satisfies
  \<open>c * bp \<ge> price * 10000\<close>, one coin less would not, and the charge is at least the price, so the
  platform never pays the host more than the caller paid.
\<close>

theorem callerCoinDebit_least_cover:
  assumes "0 < p" "0 < bp" "bp \<le> 10000"
  shows "\<exists>c. callerCoinDebitForCall p bp = Inr c \<and> p * 10000 \<le> c * bp
           \<and> (c - 1) * bp < p * 10000 \<and> p \<le> c"
proof -
  define c where "c = (p * 10000 + bp - 1) div bp"
  have eq: "callerCoinDebitForCall p bp = Inr c"
    using callerCoinDebit_ok [OF assms(1,2)] by (simp add: c_def)
  have lo: "p * 10000 \<le> bp * c" and hi: "bp * c < p * 10000 + bp"
    using ceil_div_bounds [OF assms(2), of "p * 10000"] by (simp_all add: c_def)
  have "p \<le> c"
  proof (rule ccontr)
    assume "\<not> p \<le> c"
    then have "bp * c < bp * p" using assms(2) by simp
    also have "\<dots> \<le> 10000 * p" using assms by (intro mult_right_mono) auto
    finally show False using lo by simp
  qed
  moreover have "(c - 1) * bp < p * 10000" using hi by (simp add: algebra_simps)
  ultimately show ?thesis using eq lo by (auto simp: algebra_simps)
qed

theorem callerCoinDebit_least_cover_witness:
  "(0::int) < 1800 \<and> (0::int) < 6000 \<and> (6000::int) \<le> 10000
   \<and> (\<exists>c. callerCoinDebitForCall 1800 6000 = Inr c \<and> 1800 * 10000 \<le> c * 6000
        \<and> (c - 1) * 6000 < 1800 * 10000 \<and> 1800 \<le> c)"
  using callerCoinDebit_least_cover [of 1800 6000] by simp

section \<open>Amount checks\<close>

definition POINTS_EXCHANGE_STEP :: int where "POINTS_EXCHANGE_STEP = 10000"
definition TRADING_COIN_TRANSFER_STEP :: int where "TRADING_COIN_TRANSFER_STEP = 100"
definition AGENT_POINT_TRANSFER_STEP :: int where "AGENT_POINT_TRANSFER_STEP = 100000"

definition assertPositiveAmount :: "int \<Rightarrow> error + unit" where
  "assertPositiveAmount amount =
     require (0 < amount) (AppError 400 ''INVALID_AMOUNT'' [(''amount'', JBig amount)])"

definition assertPositiveAmountMultiple :: "int \<Rightarrow> int \<Rightarrow> string \<Rightarrow> error + unit" where
  "assertPositiveAmountMultiple amount step belowMinCode =
     (if amount < step then
        Inl (AppError 400 belowMinCode [(''step'', JBig step), (''minimum'', JBig step)])
      else if step = 0 then Inl RangeError
      else if amount - step * bdiv amount step \<noteq> 0 then
        Inl (AppError 400 ''INVALID_AMOUNT_STEP'' [(''step'', JBig step), (''amount'', JBig amount)])
      else Inr ())"

lemma assertPositiveAmount_iff [simp]: "assertPositiveAmount a = Inr u \<longleftrightarrow> 0 < a"
  by (simp add: assertPositiveAmount_def)

lemma assertPositiveAmount_pos [simp]: "0 < a \<Longrightarrow> assertPositiveAmount a = Inr ()"
  by simp

lemma assertPositiveAmountMultiple_iff:
  assumes "0 < step"
  shows "assertPositiveAmountMultiple a step c = Inr () \<longleftrightarrow> step \<le> a \<and> step dvd a"
proof (cases "a < step")
  case False
  with assms have "bdiv a step = a div step" by (simp add: bdiv_nonneg)
  moreover have "a - step * (a div step) = a mod step"
    by (simp add: minus_mult_div_eq_mod)
  ultimately show ?thesis
    using False assms by (simp add: assertPositiveAmountMultiple_def dvd_eq_mod_eq_0)
qed (use assms in \<open>auto simp: assertPositiveAmountMultiple_def\<close>)

section \<open>Payroll fees\<close>

definition MIN_PAYROLL_POINTS :: int where "MIN_PAYROLL_POINTS = 100000"
definition POINTS_PER_USD :: int where "POINTS_PER_USD = 10000"

record PayrollFeeTierRates =
  minPoints :: int
  maxPoints :: "int option"
  platformFeeRateBp :: int
  agentRewardRateBp :: int

record PayrollFeeTierDto =
  dtoMinPoints :: string
  dtoMaxPoints :: "string option"
  dtoMinUsd :: rat
  dtoMaxUsd :: "rat option"
  dtoPlatformFeeRateBp :: int
  dtoAgentRewardRateBp :: int
  dtoSortOrder :: int

definition DEFAULT_PAYROLL_FEE_TIERS :: "PayrollFeeTierRates list" where
  "DEFAULT_PAYROLL_FEE_TIERS =
     [\<lparr> minPoints = 0, maxPoints = Some 200000, platformFeeRateBp = 500, agentRewardRateBp = 6000 \<rparr>,
      \<lparr> minPoints = 200000, maxPoints = Some 1000000, platformFeeRateBp = 300, agentRewardRateBp = 6000 \<rparr>,
      \<lparr> minPoints = 1000000, maxPoints = None, platformFeeRateBp = 200, agentRewardRateBp = 6000 \<rparr>]"

text \<open>
  \<open>Math.round\<close> rounds half up. The USD amount is a rational here; the source multiplies it as a
  double, which agrees for amounts in whole cents up to the precision of a double.
\<close>

definition pointsToUsdNumber :: "int \<Rightarrow> rat" where
  "pointsToUsdNumber points = of_int points / of_int POINTS_PER_USD"

definition usdToPoints :: "rat \<Rightarrow> int" where
  "usdToPoints usd = \<lfloor>usd * of_int POINTS_PER_USD + 1 / 2\<rfloor>"

definition serviceFeeUsdToPoints :: "rat \<Rightarrow> int" where
  "serviceFeeUsdToPoints fee = (if fee \<le> 0 then 0 else usdToPoints fee)"

definition withdrawalHostPayoutPoints :: "int \<Rightarrow> int option \<Rightarrow> int option \<Rightarrow> int" where
  "withdrawalHostPayoutPoints amountPoints platformFee serviceFee =
     amountPoints - (case platformFee of None \<Rightarrow> 0 | Some f \<Rightarrow> f)
                  - (case serviceFee of None \<Rightarrow> 0 | Some f \<Rightarrow> f)"

text \<open>
  \<open>BigInt(text)\<close> on the decimal texts the tier rows carry (an optional sign and digits, the empty
  text being 0); any other text is a SyntaxError. The white space and radix prefixes that BigInt
  accepts as well do not occur in \<open>toString()\<close> output.
\<close>

definition BigInt_of :: "string \<Rightarrow> error + int" where
  "BigInt_of s =
     (let neg = take 1 s = ''-''; body = (if neg then drop 1 s else s) in
      if \<not> list_all (\<lambda>c. c \<in> set ''0123456789'') body \<or> neg \<and> body = [] then
        Inl (OtherError ''SyntaxError'')
      else if neg then Inr (- int (read_nat body))
      else Inr (int (read_nat body)))"

definition formatPayrollFeeTierDto :: "PayrollFeeTierRates \<Rightarrow> int \<Rightarrow> PayrollFeeTierDto" where
  "formatPayrollFeeTierDto row sortOrder =
     \<lparr> dtoMinPoints = show_int (minPoints row),
       dtoMaxPoints = map_option show_int (maxPoints row),
       dtoMinUsd = pointsToUsdNumber (minPoints row),
       dtoMaxUsd = map_option pointsToUsdNumber (maxPoints row),
       dtoPlatformFeeRateBp = platformFeeRateBp row,
       dtoAgentRewardRateBp = agentRewardRateBp row,
       dtoSortOrder = sortOrder \<rparr>"

definition defaultPayrollFeeTierDtos :: "PayrollFeeTierDto list" where
  "defaultPayrollFeeTierDtos =
     map (\<lambda>(i, t). formatPayrollFeeTierDto t (int i + 1)) (List.enumerate 0 DEFAULT_PAYROLL_FEE_TIERS)"

definition parsePayrollFeeTier :: "PayrollFeeTierDto \<Rightarrow> error + PayrollFeeTierRates" where
  "parsePayrollFeeTier t =
     andThen (BigInt_of (dtoMinPoints t)) (\<lambda>lo.
     andThen (case dtoMaxPoints t of
                None \<Rightarrow> Inr None
              | Some s \<Rightarrow> (if s = '''' then Inr None else map_sum id Some (BigInt_of s))) (\<lambda>hi.
     Inr \<lparr> minPoints = lo, maxPoints = hi, platformFeeRateBp = dtoPlatformFeeRateBp t,
           agentRewardRateBp = dtoAgentRewardRateBp t \<rparr>))"

fun parsePayrollFeeTiers :: "PayrollFeeTierDto list \<Rightarrow> error + PayrollFeeTierRates list" where
  "parsePayrollFeeTiers [] = Inr []"
| "parsePayrollFeeTiers (t # ts) =
     andThen (parsePayrollFeeTier t) (\<lambda>r.
     andThen (parsePayrollFeeTiers ts) (\<lambda>rs. Inr (r # rs)))"

definition tierMatches :: "int \<Rightarrow> PayrollFeeTierRates \<Rightarrow> bool" where
  "tierMatches gross t \<longleftrightarrow>
     \<not> gross < minPoints t \<and> \<not> (case maxPoints t of None \<Rightarrow> False | Some m \<Rightarrow> m \<le> gross)"

text \<open>
  The comparator answers -1 or 1 only; the engine's sort is stable, so equal minima keep their
  order, which is \<open>sort_key\<close>. The loop is the first matching tier; without one, the last.
\<close>

definition matchPayrollFeeTier :: "int \<Rightarrow> PayrollFeeTierRates list \<Rightarrow> PayrollFeeTierRates" where
  "matchPayrollFeeTier gross tiers =
     (let sorted = sort_key minPoints tiers in
      case find (tierMatches gross) sorted of
        Some t \<Rightarrow> t
      | None \<Rightarrow> (if sorted = [] then last DEFAULT_PAYROLL_FEE_TIERS else last sorted))"

definition resolveDefaultPlatformFeeRateBp :: "int \<Rightarrow> int" where
  "resolveDefaultPlatformFeeRateBp gross =
     platformFeeRateBp (matchPayrollFeeTier gross DEFAULT_PAYROLL_FEE_TIERS)"

definition resolvePayrollFeeRates ::
  "int \<Rightarrow> PayrollFeeTierDto list \<Rightarrow> int option \<Rightarrow> error + int \<times> int" where
  "resolvePayrollFeeRates gross feeTiers fallback =
     andThen (parsePayrollFeeTiers feeTiers) (\<lambda>parsed.
     if parsed \<noteq> [] then
       (let t = matchPayrollFeeTier gross parsed in Inr (platformFeeRateBp t, agentRewardRateBp t))
     else Inr (resolveDefaultPlatformFeeRateBp gross,
               case fallback of None \<Rightarrow> 6000 | Some f \<Rightarrow> f))"

definition calculateTieredPlatformFee :: "int \<Rightarrow> PayrollFeeTierDto list \<Rightarrow> error + int" where
  "calculateTieredPlatformFee gross feeTiers =
     andThen (resolvePayrollFeeRates gross feeTiers None) (\<lambda>(rateBp, _).
     Inr (bdiv (gross * rateBp) 10000))"

subsection \<open>Texts and numbers\<close>

lemma show_nat_digits: "list_all (\<lambda>c. c \<in> set ''0123456789'') (show_nat n)"
proof (induction n rule: show_nat.induct)
  case (1 n)
  show ?case
  proof (cases "n < 10")
    case True
    then show ?thesis using digit_mem [of n] by (subst show_nat.simps) (simp del: list.set)
  next
    case False
    then show ?thesis
      using 1 digit_mem [of "n mod 10"] by (subst show_nat.simps) (simp del: list.set)
  qed
qed

lemma show_nat_nonempty [simp]: "show_nat n \<noteq> []"
  by (subst show_nat.simps) simp

lemma show_int_nonempty [simp]: "show_int i \<noteq> []"
  by (simp add: show_int_def)

lemma BigInt_of_show_int [simp]: "BigInt_of (show_int i) = Inr i"
proof (cases "i < 0")
  case True
  then have "show_int i = CHR ''-'' # show_nat (nat (- i))"
    by (simp add: show_int_def)
  then show ?thesis
    using True show_nat_digits [of "nat (- i)"] by (simp add: BigInt_of_def Let_def)
next
  case False
  then have eq: "show_int i = show_nat (nat i)" by (simp add: show_int_def)
  obtain c cs where cs: "show_nat (nat i) = c # cs"
    by (cases "show_nat (nat i)") auto
  with show_nat_no_dash [of "nat i"] have "take 1 (show_nat (nat i)) \<noteq> ''-''" by auto
  then show ?thesis
    using False eq show_nat_digits [of "nat i"] by (simp add: BigInt_of_def Let_def)
qed

text \<open>
  Formatting fee tiers for the config DTO and parsing them back gives the same tiers: the
  text round trip of the bounds loses nothing, an open upper bound included.
\<close>

theorem payroll_fee_tiers_roundtrip:
  "parsePayrollFeeTiers (map (\<lambda>(r, i). formatPayrollFeeTierDto r i) rs) = Inr (map fst rs)"
proof (induction rs)
  case Nil
  then show ?case by simp
next
  case (Cons x rs)
  obtain r i where x: "x = (r, i)" by (cases x)
  have "parsePayrollFeeTier (formatPayrollFeeTierDto r i) = Inr r"
    by (cases "maxPoints r")
       (simp_all add: parsePayrollFeeTier_def formatPayrollFeeTierDto_def)
  with Cons x show ?case by simp
qed

subsection \<open>The default fee ladder\<close>

lemma default_rate:
  "resolveDefaultPlatformFeeRateBp g =
     (if g < 0 then 200 else if g < 200000 then 500 else if g < 1000000 then 300 else 200)"
  by (simp add: resolveDefaultPlatformFeeRateBp_def matchPayrollFeeTier_def
        DEFAULT_PAYROLL_FEE_TIERS_def tierMatches_def Let_def)

lemma calculate_default:
  "calculateTieredPlatformFee g [] = Inr (bdiv (g * resolveDefaultPlatformFeeRateBp g) 10000)"
  by (simp add: calculateTieredPlatformFee_def resolvePayrollFeeRates_def)

definition default_net :: "int \<Rightarrow> int" where
  "default_net g = g - g * resolveDefaultPlatformFeeRateBp g div 10000"

lemma default_net_tier_mono:
  fixes a b r :: int
  assumes "a \<le> b" "0 \<le> r" "r \<le> 10000"
  shows "a - a * r div 10000 \<le> b - b * r div 10000"
proof -
  have "b * r = a * r + (b - a) * r" by (simp add: algebra_simps)
  also have "(b - a) * r \<le> (b - a) * 10000" using assms by (intro mult_left_mono) auto
  finally have "b * r \<le> a * r + (b - a) * 10000" by simp
  then have "b * r div 10000 \<le> (a * r + (b - a) * 10000) div 10000" by (rule zdiv_mono1) simp
  also have "\<dots> = a * r div 10000 + (b - a)" by simp
  finally show ?thesis by simp
qed

lemma default_net_mono:
  assumes "0 \<le> a" "a \<le> b"
  shows "default_net a \<le> default_net b"
proof -
  define ra rb where "ra = resolveDefaultPlatformFeeRateBp a" and "rb = resolveDefaultPlatformFeeRateBp b"
  have rates: "rb \<le> ra" "0 \<le> rb" "rb \<le> 10000"
    using assms by (simp_all add: ra_def rb_def default_rate)
  have "a * rb \<le> a * ra" using rates(1) assms(1) by (rule mult_left_mono)
  then have "a * rb div 10000 \<le> a * ra div 10000" by (rule zdiv_mono1) simp
  then have "a - a * ra div 10000 \<le> a - a * rb div 10000" by (rule diff_left_mono)
  also have "\<dots> \<le> b - b * rb div 10000" by (rule default_net_tier_mono [OF assms(2) rates(2,3)])
  finally show ?thesis by (simp only: default_net_def ra_def rb_def)
qed

text \<open>
  With the default fee ladder (5%, 3% from 200,000 points, 2% from 1,000,000) a host that
  withdraws more never receives less: for \<open>0 \<le> a \<le> b\<close> the payout after the platform fee is
  monotone, also across a tier boundary, and the fee stays between 0 and the amount.
\<close>

theorem payroll_payout_monotone:
  assumes "0 \<le> a" "a \<le> b"
  shows "\<exists>fa fb. calculateTieredPlatformFee a [] = Inr fa \<and> calculateTieredPlatformFee b [] = Inr fb
           \<and> 0 \<le> fa \<and> fa \<le> a
           \<and> withdrawalHostPayoutPoints a (Some fa) None \<le> withdrawalHostPayoutPoints b (Some fb) None"
proof -
  let ?f = "\<lambda>g. g * resolveDefaultPlatformFeeRateBp g div 10000"
  have r: "0 \<le> resolveDefaultPlatformFeeRateBp g \<and> resolveDefaultPlatformFeeRateBp g \<le> 10000" for g
    by (simp add: default_rate)
  have fee: "calculateTieredPlatformFee g [] = Inr (?f g)" if "0 \<le> g" for g
    using that r [of g] by (simp add: calculate_default bdiv_nonneg)
  have bounds: "0 \<le> ?f a" "?f a \<le> a"
    using assms(1) r [of a] div_bp_le [of a "resolveDefaultPlatformFeeRateBp a"]
    by (auto simp: pos_imp_zdiv_nonneg_iff)
  have "withdrawalHostPayoutPoints a (Some (?f a)) None \<le> withdrawalHostPayoutPoints b (Some (?f b)) None"
    using default_net_mono [OF assms] by (simp add: withdrawalHostPayoutPoints_def default_net_def)
  then show ?thesis
    using fee [of a] fee [of b] assms bounds by auto
qed

theorem payroll_payout_monotone_witness:
  "(0::int) \<le> 199999 \<and> (199999::int) \<le> 200000 \<and>
   (\<exists>fa fb. calculateTieredPlatformFee 199999 [] = Inr fa \<and> calculateTieredPlatformFee 200000 [] = Inr fb
      \<and> 0 \<le> fa \<and> fa \<le> 199999
      \<and> withdrawalHostPayoutPoints 199999 (Some fa) None \<le> withdrawalHostPayoutPoints 200000 (Some fb) None)"
  using payroll_payout_monotone [of 199999 200000] by simp

end
