(* ===== verification/LuckyWeights.thy ===== *)
theory LuckyWeights
  imports Basics Revenue
begin

text \<open>
  Band weight tables and economics guards of the water-level lucky tiers:
  \<open>src/src/services/luckyWater/bandWeights.ts\<close>, \<open>f2Econ.ts\<close>, \<open>enforceGate.ts\<close> and
  \<open>validateActiveTiersF2.ts\<close>. Weights arrive as JSON numbers, so they are rationals here and
  \<open>Number.isInteger\<close> is a real test. The multipliers are multiples of 5000, so every expected
  value is a multiple of one half and exact as a double; the guard's share term is exact in the
  rationals, where the source rounds to a double.
\<close>

section \<open>Tables\<close>

datatype LuckyTierId = T100 | T500 | T2K | T10K | T50K

datatype LuckyBand = Critical | Low | Normal | High

datatype LuckyOutcome = Miss | Half | Equal | Medium | Jackpot

definition LUCKY_TIER_IDS :: "LuckyTierId list" where
  "LUCKY_TIER_IDS = [T100, T500, T2K, T10K, T50K]"

definition LUCKY_BANDS :: "LuckyBand list" where
  "LUCKY_BANDS = [Critical, Low, Normal, High]"

definition LUCKY_OUTCOMES :: "LuckyOutcome list" where
  "LUCKY_OUTCOMES = [Miss, Half, Equal, Medium, Jackpot]"

type_synonym BandWeights = "LuckyOutcome \<Rightarrow> rat"
type_synonym BandWeightsByBand = "LuckyBand \<Rightarrow> BandWeights"

definition BP :: rat where "BP = 10000"

fun OUTCOME_MULTIPLIER_BP :: "LuckyOutcome \<Rightarrow> rat" where
  "OUTCOME_MULTIPLIER_BP Miss = 0"
| "OUTCOME_MULTIPLIER_BP Half = 5000"
| "OUTCOME_MULTIPLIER_BP Equal = 10000"
| "OUTCOME_MULTIPLIER_BP Medium = 25000"
| "OUTCOME_MULTIPLIER_BP Jackpot = 100000"

definition bandOf :: "rat \<Rightarrow> rat \<Rightarrow> rat \<Rightarrow> rat \<Rightarrow> rat \<Rightarrow> BandWeights" where
  "bandOf a b c d e = (\<lambda>k. case k of Miss \<Rightarrow> a | Half \<Rightarrow> b | Equal \<Rightarrow> c | Medium \<Rightarrow> d | Jackpot \<Rightarrow> e)"

fun DEFAULT_BAND_WEIGHTS_V1 :: BandWeightsByBand where
  "DEFAULT_BAND_WEIGHTS_V1 Critical = bandOf 3000 3000 4000 0 0"
| "DEFAULT_BAND_WEIGHTS_V1 Low = bandOf 3400 2800 2400 1400 0"
| "DEFAULT_BAND_WEIGHTS_V1 Normal = bandOf 4000 2600 1850 1250 300"
| "DEFAULT_BAND_WEIGHTS_V1 High = bandOf 5200 2100 1400 800 500"

record LuckyTierDefaults =
  tdTierId :: LuckyTierId
  tdPriceMin :: int
  tdPriceMax :: "int option"
  tdL0 :: int
  tdFloor :: int

definition DEFAULT_TIERS_V1 :: "LuckyTierDefaults list" where
  "DEFAULT_TIERS_V1 =
     [\<lparr> tdTierId = T100, tdPriceMin = 1, tdPriceMax = Some 199, tdL0 = 100000, tdFloor = 20000 \<rparr>,
      \<lparr> tdTierId = T500, tdPriceMin = 200, tdPriceMax = Some 999, tdL0 = 250000, tdFloor = 50000 \<rparr>,
      \<lparr> tdTierId = T2K, tdPriceMin = 1000, tdPriceMax = Some 4999, tdL0 = 1000000, tdFloor = 200000 \<rparr>,
      \<lparr> tdTierId = T10K, tdPriceMin = 5000, tdPriceMax = Some 49999, tdL0 = 5000000, tdFloor = 1000000 \<rparr>,
      \<lparr> tdTierId = T50K, tdPriceMin = 50000, tdPriceMax = None, tdL0 = 25000000, tdFloor = 5000000 \<rparr>]"

record LuckyEcon =
  rBp :: int
  hBp :: int
  aBp :: int
  vMaxBp :: int
  safetyMarginBp :: int
  minGapBp :: int

definition DEFAULT_ECONOMICS_V1 :: LuckyEcon where
  "DEFAULT_ECONOMICS_V1 =
     \<lparr> rBp = 9200, hBp = 400, aBp = 0, vMaxBp = 10000, safetyMarginBp = 100, minGapBp = 50 \<rparr>"

section \<open>Sums, expected values, guards\<close>

definition sumBandWeights :: "BandWeights \<Rightarrow> rat" where
  "sumBandWeights w = foldl (\<lambda>acc k. acc + w k) 0 LUCKY_OUTCOMES"

definition computeBandEvBp :: "BandWeights \<Rightarrow> rat" where
  "computeBandEvBp w = foldl (\<lambda>num k. num + w k * OUTCOME_MULTIPLIER_BP k) 0 LUCKY_OUTCOMES / BP"

definition computeAllBandEvBp :: "BandWeightsByBand \<Rightarrow> LuckyBand \<Rightarrow> rat" where
  "computeAllBandEvBp weights = (\<lambda>b. computeBandEvBp (weights b))"

definition selfGiftGuardMarginBp :: "rat \<Rightarrow> LuckyEcon \<Rightarrow> rat" where
  "selfGiftGuardMarginBp evHigh econ =
     (let lhs = evHigh + of_int ((hBp econ + aBp econ) * vMaxBp econ) / BP;
          rhs = BP - of_int (safetyMarginBp econ)
      in rhs - lhs)"

definition assertSelfGiftGuard :: "rat \<Rightarrow> LuckyEcon \<Rightarrow> error + unit" where
  "assertSelfGiftGuard evHigh econ = require (0 < selfGiftGuardMarginBp evHigh econ) LuckyWeightsError"

definition isInteger :: "rat \<Rightarrow> bool" where
  "isInteger v \<longleftrightarrow> of_int \<lfloor>v\<rfloor> = v"

definition assertBandWeightsShape :: "BandWeights \<Rightarrow> error + unit" where
  "assertBandWeightsShape w =
     (if list_ex (\<lambda>k. \<not> isInteger (w k) \<or> w k < 0) LUCKY_OUTCOMES then Inl LuckyWeightsError
      else if sumBandWeights w \<noteq> BP then Inl LuckyWeightsError
      else Inr ())"

fun assertAllShapes :: "BandWeightsByBand \<Rightarrow> LuckyBand list \<Rightarrow> error + unit" where
  "assertAllShapes weights [] = Inr ()"
| "assertAllShapes weights (b # bs) =
     andThen (assertBandWeightsShape (weights b)) (\<lambda>_. assertAllShapes weights bs)"

definition validateBandWeights :: "BandWeightsByBand \<Rightarrow> LuckyEcon \<Rightarrow> error + (LuckyBand \<Rightarrow> rat)" where
  "validateBandWeights weights econ =
     andThen (assertAllShapes weights LUCKY_BANDS) (\<lambda>_.
     if weights Critical Medium \<noteq> 0 \<or> weights Critical Jackpot \<noteq> 0 then Inl LuckyWeightsError
     else if weights Low Jackpot \<noteq> 0 then Inl LuckyWeightsError
     else
       (let ev = computeAllBandEvBp weights; r = of_int (rBp econ) in
        if \<not> ev Critical < ev Low then Inl LuckyWeightsError
        else if \<not> ev Low < r then Inl LuckyWeightsError
        else if \<not> r < ev Normal then Inl LuckyWeightsError
        else if ev Normal - r < of_int (minGapBp econ) then Inl LuckyWeightsError
        else if \<not> ev Normal < ev High then Inl LuckyWeightsError
        else andThen (assertSelfGiftGuard (ev High) econ) (\<lambda>_. Inr ev)))"

section \<open>Agency share in the guard, mode gate\<close>

definition agencyShareBpOfSpend :: "int \<Rightarrow> int \<Rightarrow> int" where
  "agencyShareBpOfSpend hostShareBp agencyRateOnHostBp = (hostShareBp * agencyRateOnHostBp) div 10000"

text \<open>The commission levels as pairs of live rate and match/chat rate.\<close>

definition maxAgencyRateOnHostBp :: "(int \<times> int) list \<Rightarrow> int" where
  "maxAgencyRateOnHostBp levels =
     (if levels = [] then 0
      else foldr max (map (\<lambda>(live, chat). max live chat) (tl levels))
             (max (fst (hd levels)) (snd (hd levels))))"

record LuckyTierEconRow =
  teR :: int
  teVMax :: int
  teSafety :: int
  teMinGap :: int
  teVersion :: int
  teWeights :: BandWeightsByBand

definition buildLuckyF2Econ ::
  "(int \<times> int) list \<Rightarrow> HostRevenueShares \<Rightarrow> LuckyTierEconRow \<Rightarrow> LuckyEcon" where
  "buildLuckyF2Econ levels shares tier =
     \<lparr> rBp = teR tier, hBp = luckyHostShareBp shares,
       aBp = (if luckyWaterAgencyCommission shares
              then agencyShareBpOfSpend (luckyHostShareBp shares) (maxAgencyRateOnHostBp levels)
              else 0),
       vMaxBp = teVMax tier, safetyMarginBp = teSafety tier, minGapBp = teMinGap tier \<rparr>"

text \<open>
  \<open>assertShadowEnforceTiersPassF2\<close>: the mode table and the latest configuration of each tier are
  arguments. The errors of the tiers are collected over the loop before one error is thrown.
\<close>

definition f2Violations ::
  "(int \<times> int) list \<Rightarrow> (LuckyTierId \<rightharpoonup> string) \<Rightarrow> (LuckyTierId \<rightharpoonup> LuckyTierEconRow) \<Rightarrow> HostRevenueShares
     \<Rightarrow> LuckyTierId list" where
  "f2Violations levels modes latest shares =
     filter (\<lambda>t. case modes t of
                None \<Rightarrow> False
              | Some m \<Rightarrow> (m = ''shadow'' \<or> m = ''enforce'') \<and>
                  (case latest t of
                     None \<Rightarrow> False
                   | Some row \<Rightarrow>
                       isl (validateBandWeights (teWeights row) (buildLuckyF2Econ levels shares row))))
       LUCKY_TIER_IDS"

fun tierName :: "LuckyTierId \<Rightarrow> string" where
  "tierName T100 = ''T100''"
| "tierName T500 = ''T500''"
| "tierName T2K = ''T2K''"
| "tierName T10K = ''T10K''"
| "tierName T50K = ''T50K''"

text \<open>The text of one violation, without the message of the underlying error.\<close>

definition violationText ::
  "(LuckyTierId \<rightharpoonup> string) \<Rightarrow> (LuckyTierId \<rightharpoonup> LuckyTierEconRow) \<Rightarrow> LuckyTierId \<Rightarrow> string" where
  "violationText modes latest t =
     tierName t @ '' v'' @ (case latest t of None \<Rightarrow> [] | Some row \<Rightarrow> show_int (teVersion row))
       @ '' ('' @ (case modes t of None \<Rightarrow> [] | Some m \<Rightarrow> m) @ '')''"

definition assertShadowEnforceTiersPassF2 ::
  "(int \<times> int) list \<Rightarrow> (LuckyTierId \<rightharpoonup> string) \<Rightarrow> (LuckyTierId \<rightharpoonup> LuckyTierEconRow) \<Rightarrow> HostRevenueShares
     \<Rightarrow> error + unit" where
  "assertShadowEnforceTiersPassF2 levels modes latest shares =
     (if f2Violations levels modes latest shares \<noteq> []
      then Inl (AppError 422 ''LUCKY_TIER_F2_VIOLATION''
                  [(''violations'', JArr (map (JStr \<circ> violationText modes latest)
                                            (f2Violations levels modes latest shares)))])
      else Inr ())"

definition assertEnforceF10Gate :: "bool \<Rightarrow> bool \<Rightarrow> bool \<Rightarrow> string option \<Rightarrow> error + unit" where
  "assertEnforceF10Gate hasSeedDecision hadShadowConfig hadShadowAudit overrideReason =
     (if \<not> hasSeedDecision then Inl (AppError 422 ''LUCKY_TIER_ENFORCE_NO_SEED'' [])
      else if \<not> hadShadowConfig \<and> \<not> hadShadowAudit \<and> (overrideReason = None \<or> overrideReason = Some []) then
        Inl (AppError 422 ''LUCKY_TIER_ENFORCE_SHADOW_GATE'' [])
      else Inr ())"

section \<open>Facts\<close>

lemma all_outcomes: "set LUCKY_OUTCOMES = UNIV"
proof -
  have "k \<in> set LUCKY_OUTCOMES" for k by (cases k) (simp_all add: LUCKY_OUTCOMES_def)
  then show ?thesis by blast
qed

lemma all_bands: "b \<in> set LUCKY_BANDS"
  by (cases b) (simp_all add: LUCKY_BANDS_def)

lemma sumBandWeights_sum: "sumBandWeights w = w Miss + w Half + w Equal + w Medium + w Jackpot"
  by (simp add: sumBandWeights_def LUCKY_OUTCOMES_def)

lemma computeBandEvBp_eq:
  "computeBandEvBp w = w Half / 2 + w Equal + w Medium * 5 / 2 + w Jackpot * 10"
  by (simp add: computeBandEvBp_def LUCKY_OUTCOMES_def BP_def field_simps)

lemma isInteger_nonneg: "isInteger v \<and> 0 \<le> v \<longleftrightarrow> v = of_nat (nat \<lfloor>v\<rfloor>)"
proof
  assume "isInteger v \<and> 0 \<le> v"
  then obtain n where "v = of_int n" "0 \<le> v" unfolding isInteger_def by metis
  then show "v = of_nat (nat \<lfloor>v\<rfloor>)" by (simp add: of_nat_nat)
next
  assume v: "v = of_nat (nat \<lfloor>v\<rfloor>)"
  then have "0 \<le> v" by (metis of_nat_0_le_iff)
  moreover from this v have "of_int \<lfloor>v\<rfloor> = v" by (metis floor_of_nat of_int_of_nat_eq)
  ultimately show "isInteger v \<and> 0 \<le> v" by (simp add: isInteger_def)
qed

lemma shape_iff:
  "assertBandWeightsShape w = Inr () \<longleftrightarrow>
     (\<forall>k. w k = of_nat (nat \<lfloor>w k\<rfloor>)) \<and> (\<Sum>k\<leftarrow>LUCKY_OUTCOMES. nat \<lfloor>w k\<rfloor>) = 10000"
proof -
  have ok: "\<not> list_ex (\<lambda>k. \<not> isInteger (w k) \<or> w k < 0) LUCKY_OUTCOMES
            \<longleftrightarrow> (\<forall>k. w k = of_nat (nat \<lfloor>w k\<rfloor>))"
    using all_outcomes isInteger_nonneg by (auto simp: list_ex_iff not_less)
  have "sumBandWeights w = BP \<longleftrightarrow> (\<Sum>k\<leftarrow>LUCKY_OUTCOMES. nat \<lfloor>w k\<rfloor>) = 10000"
    if "\<forall>k. w k = of_nat (nat \<lfloor>w k\<rfloor>)"
  proof -
    have "sumBandWeights w = of_nat (\<Sum>k\<leftarrow>LUCKY_OUTCOMES. nat \<lfloor>w k\<rfloor>)"
      using that by (simp add: sumBandWeights_sum LUCKY_OUTCOMES_def)
    moreover have "BP = of_nat 10000" by (simp add: BP_def)
    ultimately have "sumBandWeights w = BP
        \<longleftrightarrow> (of_nat (\<Sum>k\<leftarrow>LUCKY_OUTCOMES. nat \<lfloor>w k\<rfloor>) :: rat) = of_nat 10000" by simp
    then show ?thesis by (simp only: of_nat_eq_iff)
  qed
  with ok show ?thesis by (auto simp: assertBandWeightsShape_def)
qed

lemma assertAllShapes_iff:
  "assertAllShapes weights bs = Inr u \<longleftrightarrow> (\<forall>b\<in>set bs. assertBandWeightsShape (weights b) = Inr ())"
  by (induction bs) (auto simp: andThen_Inr_iff)

lemma selfGift_pos:
  "0 < selfGiftGuardMarginBp ev econ \<longleftrightarrow>
     ev + of_int ((hBp econ + aBp econ) * vMaxBp econ) / 10000 < 10000 - of_int (safetyMarginBp econ)"
  by (simp add: selfGiftGuardMarginBp_def BP_def)

lemma default_shape: "assertBandWeightsShape (DEFAULT_BAND_WEIGHTS_V1 b) = Inr ()"
  by (cases b)
     (simp_all add: assertBandWeightsShape_def LUCKY_OUTCOMES_def isInteger_def bandOf_def
        sumBandWeights_sum BP_def)

lemma default_ev:
  "computeAllBandEvBp DEFAULT_BAND_WEIGHTS_V1
     = (\<lambda>b. case b of Critical \<Rightarrow> 5500 | Low \<Rightarrow> 7300 | Normal \<Rightarrow> 9275 | High \<Rightarrow> 9450)"
proof
  fix b
  show "computeAllBandEvBp DEFAULT_BAND_WEIGHTS_V1 b
      = (case b of Critical \<Rightarrow> 5500 | Low \<Rightarrow> 7300 | Normal \<Rightarrow> 9275 | High \<Rightarrow> 9450)"
    by (cases b) (simp_all add: computeAllBandEvBp_def computeBandEvBp_eq bandOf_def)
qed

lemma default_validates:
  "validateBandWeights DEFAULT_BAND_WEIGHTS_V1 DEFAULT_ECONOMICS_V1
     = Inr (computeAllBandEvBp DEFAULT_BAND_WEIGHTS_V1)"
proof -
  have "assertAllShapes DEFAULT_BAND_WEIGHTS_V1 LUCKY_BANDS = Inr ()"
    by (simp add: assertAllShapes_iff default_shape del: DEFAULT_BAND_WEIGHTS_V1.simps)
  then show ?thesis
    by (simp add: validateBandWeights_def default_ev bandOf_def
          assertSelfGiftGuard_def selfGift_pos DEFAULT_ECONOMICS_V1_def)
qed

lemma validate_iff:
  "validateBandWeights weights econ = Inr ev \<longleftrightarrow>
     (\<forall>b. assertBandWeightsShape (weights b) = Inr ())
     \<and> weights Critical Medium = 0 \<and> weights Critical Jackpot = 0 \<and> weights Low Jackpot = 0
     \<and> ev = computeAllBandEvBp weights
     \<and> ev Critical < ev Low \<and> ev Low < of_int (rBp econ) \<and> of_int (rBp econ) < ev Normal
     \<and> of_int (minGapBp econ) \<le> ev Normal - of_int (rBp econ) \<and> ev Normal < ev High
     \<and> ev High + of_int ((hBp econ + aBp econ) * vMaxBp econ) / 10000
         < 10000 - of_int (safetyMarginBp econ)"
proof -
  have shapes: "assertAllShapes weights LUCKY_BANDS = Inr u
                \<longleftrightarrow> (\<forall>b. assertBandWeightsShape (weights b) = Inr ())" for u
    using all_bands by (auto simp: assertAllShapes_iff)
  show ?thesis
    unfolding validateBandWeights_def assertSelfGiftGuard_def andThen_Inr_iff shapes Let_def
    by (auto simp: selfGift_pos andThen_Inr_iff not_less split: if_splits)
qed

text \<open>
  What a weight table must satisfy to be accepted, exactly: every band is a distribution of
  10,000 basis points over the outcomes, the critical band has no medium or jackpot mass and the
  low band no jackpot, the expected values climb critical < low < r < normal < high with the
  configured gap above r, and the self-gift guard F2 holds strictly on the best band.
\<close>

theorem validateBandWeights_iff:
  "validateBandWeights weights econ = Inr ev \<longleftrightarrow>
     (\<forall>b. assertBandWeightsShape (weights b) = Inr ())
     \<and> weights Critical Medium = 0 \<and> weights Critical Jackpot = 0 \<and> weights Low Jackpot = 0
     \<and> ev = computeAllBandEvBp weights
     \<and> ev Critical < ev Low \<and> ev Low < of_int (rBp econ) \<and> of_int (rBp econ) < ev Normal
     \<and> of_int (minGapBp econ) \<le> ev Normal - of_int (rBp econ) \<and> ev Normal < ev High
     \<and> ev High + of_int ((hBp econ + aBp econ) * vMaxBp econ) / 10000
         < 10000 - of_int (safetyMarginBp econ)"
  by (rule validate_iff)

text \<open>
  The shipped table is accepted by the shipped economics, and its expected return per band is
  55%, 73%, 92.75% and 94.5% of the price.
\<close>

theorem default_weights_valid:
  "validateBandWeights DEFAULT_BAND_WEIGHTS_V1 DEFAULT_ECONOMICS_V1
     = Inr (\<lambda>b. case b of Critical \<Rightarrow> 5500 | Low \<Rightarrow> 7300 | Normal \<Rightarrow> 9275 | High \<Rightarrow> 9450)"
  by (simp add: default_validates default_ev)

text \<open>
  Saving new host shares is refused exactly when some tier in shadow or enforce mode, with a
  configuration, would fail validation under the new economics; tiers that are off are ignored.
\<close>

theorem assertShadowEnforceTiersPassF2_iff:
  "assertShadowEnforceTiersPassF2 levels modes latest shares = Inr () \<longleftrightarrow>
     (\<forall>t m row. modes t = Some m \<longrightarrow> m = ''shadow'' \<or> m = ''enforce'' \<longrightarrow> latest t = Some row \<longrightarrow>
        (\<exists>ev. validateBandWeights (teWeights row) (buildLuckyF2Econ levels shares row) = Inr ev))"
proof -
  let ?ok = "\<lambda>row. \<exists>ev. validateBandWeights (teWeights row) (buildLuckyF2Econ levels shares row) = Inr ev"
  have tiers: "set LUCKY_TIER_IDS = UNIV"
  proof -
    have "t \<in> set LUCKY_TIER_IDS" for t by (cases t) (simp_all add: LUCKY_TIER_IDS_def)
    then show ?thesis by blast
  qed
  have isl: "isl (validateBandWeights (teWeights row) (buildLuckyF2Econ levels shares row)) \<longleftrightarrow> \<not> ?ok row" for row
    by (cases "validateBandWeights (teWeights row) (buildLuckyF2Econ levels shares row)") auto
  have "assertShadowEnforceTiersPassF2 levels modes latest shares = Inr ()
        \<longleftrightarrow> f2Violations levels modes latest shares = []"
    by (simp add: assertShadowEnforceTiersPassF2_def)
  also have "\<dots> \<longleftrightarrow> (\<forall>t. \<not> (case modes t of
                None \<Rightarrow> False
              | Some m \<Rightarrow> (m = ''shadow'' \<or> m = ''enforce'') \<and>
                  (case latest t of None \<Rightarrow> False | Some row \<Rightarrow> \<not> ?ok row)))"
    unfolding f2Violations_def isl by (simp add: filter_empty_conv tiers)
  also have "\<dots> \<longleftrightarrow> (\<forall>t m row. modes t = Some m \<longrightarrow> m = ''shadow'' \<or> m = ''enforce'' \<longrightarrow>
                latest t = Some row \<longrightarrow> ?ok row)"
    by (intro iff_allI) (simp split: option.split, blast)
  finally show ?thesis .
qed

theorem assertShadowEnforceTiersPassF2_witness:
  "assertShadowEnforceTiersPassF2 [] (\<lambda>t. if t = T100 then Some ''enforce'' else None)
     (\<lambda>t. Some \<lparr> teR = 9200, teVMax = 10000, teSafety = 100, teMinGap = 50, teVersion = 1,
               teWeights = DEFAULT_BAND_WEIGHTS_V1 \<rparr>) DEFAULT_HOST_REVENUE_SHARES = Inr ()"
proof -
  have "buildLuckyF2Econ [] DEFAULT_HOST_REVENUE_SHARES
      \<lparr> teR = 9200, teVMax = 10000, teSafety = 100, teMinGap = 50, teVersion = 1,
        teWeights = DEFAULT_BAND_WEIGHTS_V1 \<rparr> = DEFAULT_ECONOMICS_V1"
    by (simp add: buildLuckyF2Econ_def DEFAULT_HOST_REVENUE_SHARES_def DEFAULT_ECONOMICS_V1_def)
  then show ?thesis
    unfolding assertShadowEnforceTiersPassF2_iff by (auto simp: default_validates)
qed

end
