(* ===== verification/LuckyEngine.thy ===== *)
theory LuckyEngine
  imports LuckyWeights
begin

text \<open>
  The water_v1 draw engine and its category labels:
  \<open>src/src/services/luckyWater/waterEngine.ts\<close> and \<open>categoryMap.ts\<close>. The engine is pure; its only
  input from outside is \<open>randomInt\<close>, here a function from the index of the call to the number it
  returned, of which the code relies on \<open>0 \<le> roll < 10000\<close>. Money is \<open>int\<close>, as BigInt is.
\<close>

section \<open>Definitions\<close>

fun OUTCOME_FRACTION :: "LuckyOutcome \<Rightarrow> int \<times> int" where
  "OUTCOME_FRACTION Miss = (0, 1)"
| "OUTCOME_FRACTION Half = (1, 2)"
| "OUTCOME_FRACTION Equal = (1, 1)"
| "OUTCOME_FRACTION Medium = (5, 2)"
| "OUTCOME_FRACTION Jackpot = (10, 1)"

definition BIG_WIN_MULTIPLE :: int where "BIG_WIN_MULTIPLE = 10"

datatype DrawDowngrade = POOL_FLOOR | USER_CAP

record LambdaThresholds =
  criticalMaxBp :: int
  lowMaxBp :: int
  normalMaxBp :: int

record UnitDraw =
  ud_i :: int
  ud_band :: LuckyBand
  ud_roll :: int
  ud_rollMax :: int
  ud_outcome :: LuckyOutcome
  ud_mNum :: int
  ud_mDen :: int
  ud_rRaw :: int
  ud_rPaid :: int
  ud_downgrade :: "DrawDowngrade option"

record DrawUnitsParams =
  unitPrice :: int
  dcount :: int
  weights :: BandWeightsByBand
  thresholds :: LambdaThresholds
  l0 :: int
  pfloor :: int
  mMax :: int
  startingWater :: int
  dailyWinCapCoins :: int
  priorDailyWon :: int
  coolDownActive :: bool
  randomInt :: "nat \<Rightarrow> int"

record DrawUnitsResult =
  units :: "UnitDraw list"
  rewards :: "int list"
  totalPaid :: int
  finalWater :: int
  bigWin :: bool

definition lambdaBp :: "int \<Rightarrow> int \<Rightarrow> int" where
  "lambdaBp w l = (if l \<le> 0 then 0 else bdiv (w * 10000) l)"

definition bandForWater :: "int \<Rightarrow> int \<Rightarrow> LambdaThresholds \<Rightarrow> LuckyBand" where
  "bandForWater w l t =
     (let lam = lambdaBp w l in
      if lam < criticalMaxBp t then Critical
      else if lam < lowMaxBp t then Low
      else if lam < normalMaxBp t then Normal
      else High)"

fun outcomeLoop :: "BandWeights \<Rightarrow> int \<Rightarrow> rat \<Rightarrow> LuckyOutcome list \<Rightarrow> LuckyOutcome" where
  "outcomeLoop w roll acc [] = Miss"
| "outcomeLoop w roll acc (k # ks) =
     (let acc' = acc + w k in if of_int roll < acc' then k else outcomeLoop w roll acc' ks)"

definition outcomeFromRoll :: "BandWeights \<Rightarrow> int \<Rightarrow> LuckyOutcome" where
  "outcomeFromRoll w roll = outcomeLoop w roll 0 LUCKY_OUTCOMES"

definition unitInflowOk :: "int \<Rightarrow> int \<Rightarrow> bool" where
  "unitInflowOk price r \<longleftrightarrow> 10000 \<le> price * r"

definition computeInflow :: "int \<Rightarrow> int \<Rightarrow> int" where
  "computeInflow spend r = bdiv (spend * r) 10000"

definition rawReward :: "int \<Rightarrow> LuckyOutcome \<Rightarrow> int" where
  "rawReward price outcome =
     (let (num, den) = OUTCOME_FRACTION outcome in if num = 0 then 0 else bdiv (price * num) den)"

text \<open>The variables of the loop of \<open>drawUnits\<close>, and one pass through its body.\<close>

record DrawState =
  d_w :: int
  d_capRemaining :: int
  d_totalPaid :: int
  d_bigWin :: bool
  d_units :: "UnitDraw list"
  d_rewards :: "int list"

definition unitPayout :: "DrawUnitsParams \<Rightarrow> DrawState \<Rightarrow> int \<Rightarrow> int \<times> DrawDowngrade option" where
  "unitPayout p st rRaw =
     (let mMaxCapAmount = unitPrice p * mMax p;
          capOn = 0 < dailyWinCapCoins p;
          rCap = (if mMaxCapAmount < rRaw then mMaxCapAmount else rRaw)
      in if 0 < rCap then
           if coolDownActive p then (0, Some USER_CAP)
           else if capOn \<and> d_capRemaining st < rCap then (0, Some USER_CAP)
           else if d_w st - pfloor p < rCap then (0, Some POOL_FLOOR)
           else (rCap, None)
         else (rCap, None))"

definition drawUnit :: "DrawUnitsParams \<Rightarrow> nat \<Rightarrow> DrawState \<Rightarrow> DrawState" where
  "drawUnit p i st =
     (let bigWinAmount = unitPrice p * BIG_WIN_MULTIPLE;
          capOn = 0 < dailyWinCapCoins p;
          band = bandForWater (d_w st) (l0 p) (thresholds p);
          roll = randomInt p i;
          outcome = outcomeFromRoll (weights p band) roll;
          rRaw = rawReward (unitPrice p) outcome;
          (rPaid, downgrade) = unitPayout p st rRaw
      in \<lparr> d_w = d_w st - rPaid,
           d_capRemaining = (if capOn then d_capRemaining st - rPaid else d_capRemaining st),
           d_totalPaid = d_totalPaid st + rPaid,
           d_bigWin = (d_bigWin st \<or> bigWinAmount \<le> rPaid \<and> 0 < rPaid),
           d_units = d_units st @
             [\<lparr> ud_i = int i, ud_band = band, ud_roll = roll, ud_rollMax = 10000, ud_outcome = outcome,
                ud_mNum = fst (OUTCOME_FRACTION outcome), ud_mDen = snd (OUTCOME_FRACTION outcome),
                ud_rRaw = rRaw, ud_rPaid = rPaid, ud_downgrade = downgrade \<rparr>],
           d_rewards = d_rewards st @ [rPaid] \<rparr>)"

fun drawLoop :: "DrawUnitsParams \<Rightarrow> nat \<Rightarrow> nat \<Rightarrow> DrawState \<Rightarrow> DrawState" where
  "drawLoop p i 0 st = st"
| "drawLoop p i (Suc n) st = drawLoop p (Suc i) n (drawUnit p i st)"

definition drawInit :: "DrawUnitsParams \<Rightarrow> DrawState" where
  "drawInit p =
     \<lparr> d_w = startingWater p,
       d_capRemaining = (if 0 < dailyWinCapCoins p then dailyWinCapCoins p - priorDailyWon p else 0),
       d_totalPaid = 0, d_bigWin = False, d_units = [], d_rewards = [] \<rparr>"

definition drawUnits :: "DrawUnitsParams \<Rightarrow> DrawUnitsResult" where
  "drawUnits p =
     (let st = drawLoop p 0 (nat (dcount p)) (drawInit p) in
      \<lparr> units = d_units st, rewards = d_rewards st, totalPaid = d_totalPaid st,
        finalWater = d_w st, bigWin = d_bigWin st \<rparr>)"

text \<open>
  \<open>collapseBreakdown\<close>: group \<open>g\<close> takes \<open>base\<close> units, one more when \<open>g < extra\<close>; the running index
  into the array is the remaining suffix of the list.
\<close>

fun collapseLoop :: "nat \<Rightarrow> nat \<Rightarrow> nat \<Rightarrow> nat \<Rightarrow> int list \<Rightarrow> int list" where
  "collapseLoop base extra g 0 rest = []"
| "collapseLoop base extra g (Suc n) rest =
     (let size = base + (if g < extra then 1 else 0) in
      sum_list (take size rest) # collapseLoop base extra (Suc g) n (drop size rest))"

definition collapseBreakdown :: "int list \<Rightarrow> nat \<Rightarrow> int list" where
  "collapseBreakdown perUnit maxGroups =
     (let n = length perUnit in
      if n \<le> maxGroups then perUnit
      else collapseLoop (n div maxGroups) (n mod maxGroups) 0 maxGroups perUnit)"

section \<open>Categories\<close>

datatype LuckyCategory =
    MISS | SMALL | EQUAL | MEDIUM | JACKPOT | UNLUCKY | NORMAL | BREAK_EVEN | WINNER

definition singleCategory :: "int \<Rightarrow> int \<Rightarrow> LuckyCategory" where
  "singleCategory price paidReward =
     (if paidReward \<le> 0 then MISS
      else
        (let bp = (if 0 < price then bdiv (paidReward * 10000) price else 0) in
         if bp < 7500 then SMALL
         else if bp < 17500 then EQUAL
         else if bp < 62500 then MEDIUM
         else JACKPOT))"

definition comboCategory :: "int \<Rightarrow> int \<Rightarrow> LuckyCategory" where
  "comboCategory paid spend =
     (let bp = (if 0 < spend then bdiv (paid * 10000) spend else 0) in
      if bp = 0 then MISS
      else if bp < 7500 then UNLUCKY
      else if bp < 9500 then NORMAL
      else if bp < 12500 then BREAK_EVEN
      else WINNER)"

definition resolveCategory :: "int \<Rightarrow> int \<Rightarrow> int \<Rightarrow> LuckyCategory" where
  "resolveCategory count price paid =
     (if count \<le> 1 then singleCategory price paid else comboCategory paid (price * count))"

section \<open>One unit\<close>

lemma rawReward_simps [money_simps]:
  assumes "0 \<le> price"
  shows "rawReward price Miss = 0" "rawReward price Half = price div 2"
    "rawReward price Equal = price" "rawReward price Medium = price * 5 div 2"
    "rawReward price Jackpot = price * 10"
  using assms by (simp_all add: rawReward_def bdiv_nonneg)

lemma rawReward_bounds:
  assumes "0 \<le> price"
  shows "0 \<le> rawReward price k" "rawReward price k \<le> price * 10"
  using assms by (cases k; simp add: money_simps)+

text \<open>What one pass of the loop can do: it pays nothing, or a positive amount within every cap.\<close>

definition paidWithin :: "DrawUnitsParams \<Rightarrow> DrawState \<Rightarrow> int \<Rightarrow> bool" where
  "paidWithin p st r \<longleftrightarrow> r = 0 \<or>
     (0 < r \<and> \<not> coolDownActive p \<and> (0 < dailyWinCapCoins p \<longrightarrow> r \<le> d_capRemaining st)
      \<and> pfloor p \<le> d_w st - r \<and> r \<le> unitPrice p * mMax p \<and> r \<le> unitPrice p * 10)"

lemma unitPayout_within:
  assumes "0 \<le> unitPrice p" "0 \<le> mMax p" "0 \<le> raw" "raw \<le> unitPrice p * 10"
  shows "paidWithin p st (fst (unitPayout p st raw))"
proof -
  define cap where "cap = (if unitPrice p * mMax p < raw then unitPrice p * mMax p else raw)"
  have "0 \<le> unitPrice p * mMax p" using assms by simp
  with assms(3,4) have "0 \<le> cap" "cap \<le> unitPrice p * mMax p" "cap \<le> unitPrice p * 10"
    unfolding cap_def by (split if_split, linarith)+
  then show ?thesis
    unfolding unitPayout_def Let_def cap_def [symmetric] by (auto simp: paidWithin_def)
qed

lemma drawUnit_effect:
  assumes "0 \<le> unitPrice p" "0 \<le> mMax p"
  obtains r where
    "d_w (drawUnit p i st) = d_w st - r"
    "d_capRemaining (drawUnit p i st) =
       (if 0 < dailyWinCapCoins p then d_capRemaining st - r else d_capRemaining st)"
    "d_totalPaid (drawUnit p i st) = d_totalPaid st + r"
    "d_bigWin (drawUnit p i st) \<longleftrightarrow> d_bigWin st \<or> unitPrice p * 10 \<le> r \<and> 0 < r"
    "d_rewards (drawUnit p i st) = d_rewards st @ [r]"
    "paidWithin p st r"
proof -
  define raw where "raw = rawReward (unitPrice p)
     (outcomeFromRoll (weights p (bandForWater (d_w st) (l0 p) (thresholds p))) (randomInt p i))"
  have "paidWithin p st (fst (unitPayout p st raw))"
    by (rule unitPayout_within [OF assms])
       (use rawReward_bounds [OF assms(1)] in \<open>simp_all add: raw_def\<close>)
  then show thesis
    by (intro that [of "fst (unitPayout p st raw)"])
       (simp_all add: drawUnit_def Let_def split_def raw_def BIG_WIN_MULTIPLE_def)
qed

section \<open>The whole loop\<close>

lemma drawLoop_inv:
  assumes "\<And>i st. I st \<Longrightarrow> I (drawUnit p i st)" and "I st"
  shows "I (drawLoop p i n st)"
  using assms(2)
proof (induction n arbitrary: i st)
  case 0
  then show ?case by simp
next
  case (Suc n)
  then show ?case using assms(1) by simp
qed

lemma drawLoop_lengths:
  "length (d_rewards (drawLoop p i n st)) = length (d_rewards st) + n \<and>
   length (d_units (drawLoop p i n st)) = length (d_units st) + n"
proof (induction n arbitrary: i st)
  case 0
  then show ?case by simp
next
  case (Suc n)
  have "length (d_rewards (drawUnit p i st)) = Suc (length (d_rewards st))"
    "length (d_units (drawUnit p i st)) = Suc (length (d_units st))"
    by (simp_all add: drawUnit_def Let_def split_def)
  with Suc [of "Suc i" "drawUnit p i st"] show ?case by simp
qed

text \<open>The invariant of the loop, over the start values in \<open>p\<close>.\<close>

definition drawInv :: "DrawUnitsParams \<Rightarrow> DrawState \<Rightarrow> bool" where
  "drawInv p st \<longleftrightarrow>
     d_w st + d_totalPaid st = startingWater p
     \<and> d_totalPaid st = sum_list (d_rewards st)
     \<and> (\<forall>r\<in>set (d_rewards st). 0 \<le> r \<and> r \<le> unitPrice p * mMax p \<and> r \<le> unitPrice p * 10)
     \<and> (0 < d_totalPaid st \<longrightarrow> pfloor p \<le> d_w st \<and> \<not> coolDownActive p)
     \<and> (0 < dailyWinCapCoins p \<longrightarrow>
          d_capRemaining st = dailyWinCapCoins p - priorDailyWon p - d_totalPaid st
          \<and> (0 < d_totalPaid st \<longrightarrow> 0 \<le> d_capRemaining st))
     \<and> (d_bigWin st \<longleftrightarrow> (\<exists>r\<in>set (d_rewards st). unitPrice p * 10 \<le> r \<and> 0 < r))"

lemma drawInv_total_nonneg: "drawInv p st \<Longrightarrow> 0 \<le> d_totalPaid st"
  using sum_list_nonneg_int [of "d_rewards st"] by (auto simp: drawInv_def)

lemma drawInv_init: "drawInv p (drawInit p)"
  by (simp add: drawInv_def drawInit_def)

lemma drawInv_step:
  assumes "0 \<le> unitPrice p" "0 \<le> mMax p" "drawInv p st"
  shows "drawInv p (drawUnit p i st)"
proof -
  obtain r where eff: "d_w (drawUnit p i st) = d_w st - r"
    "d_capRemaining (drawUnit p i st) =
       (if 0 < dailyWinCapCoins p then d_capRemaining st - r else d_capRemaining st)"
    "d_totalPaid (drawUnit p i st) = d_totalPaid st + r"
    "d_bigWin (drawUnit p i st) \<longleftrightarrow> d_bigWin st \<or> unitPrice p * 10 \<le> r \<and> 0 < r"
    "d_rewards (drawUnit p i st) = d_rewards st @ [r]" "paidWithin p st r"
    using drawUnit_effect [OF assms(1,2)] by blast
  have "0 \<le> unitPrice p * mMax p" "0 \<le> unitPrice p * 10" using assms by simp_all
  then have r: "0 \<le> r" "r \<le> unitPrice p * mMax p" "r \<le> unitPrice p * 10"
    and pos: "0 < r \<Longrightarrow> \<not> coolDownActive p \<and> (0 < dailyWinCapCoins p \<longrightarrow> r \<le> d_capRemaining st)
                \<and> pfloor p \<le> d_w st - r"
    using eff(6) by (auto simp: paidWithin_def)
  have inv: "d_w st + d_totalPaid st = startingWater p" "d_totalPaid st = sum_list (d_rewards st)"
    "0 < d_totalPaid st \<longrightarrow> pfloor p \<le> d_w st \<and> \<not> coolDownActive p"
    "0 < dailyWinCapCoins p \<longrightarrow> d_capRemaining st = dailyWinCapCoins p - priorDailyWon p - d_totalPaid st
          \<and> (0 < d_totalPaid st \<longrightarrow> 0 \<le> d_capRemaining st)"
    and all: "\<forall>r\<in>set (d_rewards st). 0 \<le> r \<and> r \<le> unitPrice p * mMax p \<and> r \<le> unitPrice p * 10"
    and big: "d_bigWin st \<longleftrightarrow> (\<exists>r\<in>set (d_rewards st). unitPrice p * 10 \<le> r \<and> 0 < r)"
    using assms(3) by (auto simp: drawInv_def)
  have floor: "0 < d_totalPaid st + r \<longrightarrow> pfloor p \<le> d_w st - r \<and> \<not> coolDownActive p"
    using inv(3) pos r(1) by (cases "r = 0") auto
  have cap: "0 < dailyWinCapCoins p \<longrightarrow> 0 < d_totalPaid st + r \<longrightarrow> 0 \<le> d_capRemaining st - r"
    using inv(4) pos r(1) by (cases "r = 0") auto
  show ?thesis
    unfolding drawInv_def eff(1-5)
    using inv(1,2,4) floor cap all big r by auto
qed

lemma drawUnits_inv:
  assumes "0 \<le> unitPrice p" "0 \<le> mMax p"
  shows "drawInv p (drawLoop p 0 (nat (dcount p)) (drawInit p))"
  by (rule drawLoop_inv [where I = "drawInv p"])
     (use drawInv_step [OF assms] drawInv_init in blast)+

lemma drawUnits_sel:
  "rewards (drawUnits p) = d_rewards (drawLoop p 0 (nat (dcount p)) (drawInit p))"
  "totalPaid (drawUnits p) = d_totalPaid (drawLoop p 0 (nat (dcount p)) (drawInit p))"
  "finalWater (drawUnits p) = d_w (drawLoop p 0 (nat (dcount p)) (drawInit p))"
  "bigWin (drawUnits p) = d_bigWin (drawLoop p 0 (nat (dcount p)) (drawInit p))"
  "units (drawUnits p) = d_units (drawLoop p 0 (nat (dcount p)) (drawInit p))"
  by (simp_all add: drawUnits_def Let_def)

lemmas drawUnits_facts = drawUnits_inv [unfolded drawInv_def drawUnits_sel [symmetric]]

section \<open>Guarantees of a draw\<close>

text \<open>
  C12. Bounded loss of the pool: whatever the rolls, the water that leaves the pool is exactly what
  the units pay, one reward is recorded per unit, and if anything was paid the pool is still at or
  above its floor.
\<close>

theorem drawUnits_bounded_loss:
  assumes "0 \<le> unitPrice p" "0 \<le> mMax p"
  shows "finalWater (drawUnits p) + totalPaid (drawUnits p) = startingWater p
    \<and> totalPaid (drawUnits p) = sum_list (rewards (drawUnits p))
    \<and> length (rewards (drawUnits p)) = nat (dcount p) \<and> length (units (drawUnits p)) = nat (dcount p)
    \<and> 0 \<le> totalPaid (drawUnits p)
    \<and> (0 < totalPaid (drawUnits p) \<longrightarrow> pfloor p \<le> finalWater (drawUnits p))"
proof -
  have "0 \<le> totalPaid (drawUnits p)"
    using drawInv_total_nonneg [OF drawUnits_inv [OF assms]] by (simp add: drawUnits_sel)
  moreover have "length (rewards (drawUnits p)) = nat (dcount p)"
    "length (units (drawUnits p)) = nat (dcount p)"
    using drawLoop_lengths [of p 0 "nat (dcount p)" "drawInit p"]
    by (simp_all add: drawUnits_sel drawInit_def)
  ultimately show ?thesis using drawUnits_facts [OF assms] by simp
qed

text \<open>A small tier used by the witnesses: price 100, three units, rolls 9999, 0 and 5000.\<close>

definition sampleParams :: DrawUnitsParams where
  "sampleParams =
     \<lparr> unitPrice = 100, dcount = 3, weights = DEFAULT_BAND_WEIGHTS_V1,
       thresholds = \<lparr> criticalMaxBp = 3000, lowMaxBp = 7000, normalMaxBp = 13000 \<rparr>,
       l0 = 100000, pfloor = 20000, mMax = 10, startingWater = 100276,
       dailyWinCapCoins = 1200, priorDailyWon = 100, coolDownActive = False,
       randomInt = (\<lambda>i. if i = 0 then 9999 else if i = 1 then 0 else 5000) \<rparr>"

lemma sample_run: "totalPaid (drawUnits sampleParams) = 1050"
  by code_simp

theorem drawUnits_bounded_loss_witness:
  "0 \<le> unitPrice sampleParams \<and> 0 \<le> mMax sampleParams
   \<and> totalPaid (drawUnits sampleParams) = 1050 \<and> finalWater (drawUnits sampleParams) = 99226
   \<and> pfloor sampleParams \<le> finalWater (drawUnits sampleParams)"
  using drawUnits_bounded_loss [of sampleParams] sample_run by (simp add: sampleParams_def)

text \<open>
  C22. The per-user caps hold for every sequence of rolls: no unit pays more than \<open>m_max\<close> times, nor
  more than ten times, its price; a user in cool-down is paid nothing; with the daily cap on, what
  the user won before plus this draw never passes the cap (unless it was passed before, and then
  nothing is paid); and a big win is flagged exactly when a unit paid ten times its price.
\<close>

theorem drawUnits_user_caps:
  assumes "0 \<le> unitPrice p" "0 \<le> mMax p"
  shows "(\<forall>r\<in>set (rewards (drawUnits p)). 0 \<le> r \<and> r \<le> unitPrice p * mMax p \<and> r \<le> unitPrice p * 10)
    \<and> (coolDownActive p \<longrightarrow> totalPaid (drawUnits p) = 0)
    \<and> (0 < dailyWinCapCoins p \<longrightarrow>
        priorDailyWon p + totalPaid (drawUnits p) \<le> max (dailyWinCapCoins p) (priorDailyWon p))
    \<and> (bigWin (drawUnits p)
         \<longleftrightarrow> (\<exists>r\<in>set (rewards (drawUnits p)). unitPrice p * 10 \<le> r \<and> 0 < r))"
proof -
  have nonneg: "0 \<le> totalPaid (drawUnits p)"
    using drawInv_total_nonneg [OF drawUnits_inv [OF assms]] by (simp add: drawUnits_sel)
  note facts = drawUnits_facts [OF assms]
  have "coolDownActive p \<longrightarrow> totalPaid (drawUnits p) = 0"
    using facts nonneg by (cases "totalPaid (drawUnits p) = 0") auto
  moreover have "0 < dailyWinCapCoins p \<longrightarrow>
        priorDailyWon p + totalPaid (drawUnits p) \<le> max (dailyWinCapCoins p) (priorDailyWon p)"
    using facts nonneg by (cases "totalPaid (drawUnits p) = 0") auto
  ultimately show ?thesis using facts by blast
qed

theorem drawUnits_user_caps_witness:
  "0 \<le> unitPrice sampleParams \<and> 0 \<le> mMax sampleParams
   \<and> priorDailyWon sampleParams + totalPaid (drawUnits sampleParams) \<le> 1200"
  using drawUnits_user_caps [of sampleParams] by (simp add: sampleParams_def)

section \<open>The distribution of one roll\<close>

definition weightCount :: "BandWeights \<Rightarrow> LuckyOutcome \<Rightarrow> int" where
  "weightCount w k = int (nat \<lfloor>w k\<rfloor>)"

lemma weightCount_nonneg [simp]: "0 \<le> weightCount w k"
  by (simp add: weightCount_def)

lemma weight_of_count: "assertBandWeightsShape w = Inr () \<Longrightarrow> w k = of_int (weightCount w k)"
  unfolding shape_iff weightCount_def by (metis of_int_of_nat_eq)

lemma weightCount_sum:
  assumes "assertBandWeightsShape w = Inr ()"
  shows "weightCount w Miss + weightCount w Half + weightCount w Equal + weightCount w Medium
           + weightCount w Jackpot = 10000"
proof -
  have "int (\<Sum>k\<leftarrow>LUCKY_OUTCOMES. nat \<lfloor>w k\<rfloor>) = 10000"
    using assms unfolding shape_iff by simp
  then show ?thesis
    unfolding weightCount_def LUCKY_OUTCOMES_def list.map sum_list.Cons sum_list.Nil by linarith
qed

lemma outcomeFromRoll_intervals:
  assumes "assertBandWeightsShape w = Inr ()" "roll < 10000"
  defines "n \<equiv> weightCount w"
  shows "outcomeFromRoll w roll =
    (if roll < n Miss then Miss
     else if roll < n Miss + n Half then Half
     else if roll < n Miss + n Half + n Equal then Equal
     else if roll < n Miss + n Half + n Equal + n Medium then Medium
     else Jackpot)"
proof -
  have w: "w k = of_int (n k)" for k
    using weight_of_count [OF assms(1)] by (simp add: n_def)
  have lt: "(of_int roll < (of_int m :: rat)) \<longleftrightarrow> roll < m" for m by simp
  have "roll < n Miss + n Half + n Equal + n Medium + n Jackpot"
    using weightCount_sum [OF assms(1)] assms(2) by (simp add: n_def)
  then show ?thesis
    by (simp add: outcomeFromRoll_def LUCKY_OUTCOMES_def w Let_def lt add.assoc flip: of_int_add)
qed

lemma rolls_of_outcome:
  assumes "assertBandWeightsShape w = Inr ()"
  shows "card {roll \<in> {0..<10000}. outcomeFromRoll w roll = k} = nat (weightCount w k)"
proof -
  define n where "n = weightCount w"
  define a where "a = (case k of Miss \<Rightarrow> 0 | Half \<Rightarrow> n Miss | Equal \<Rightarrow> n Miss + n Half
      | Medium \<Rightarrow> n Miss + n Half + n Equal | Jackpot \<Rightarrow> n Miss + n Half + n Equal + n Medium)"
  have nonneg: "0 \<le> n j" for j by (simp add: n_def)
  have "{roll \<in> {0..<10000}. outcomeFromRoll w roll = k} = {a ..< a + n k}"
    using outcomeFromRoll_intervals [OF assms, folded n_def] weightCount_sum [OF assms, folded n_def]
      nonneg [of Miss] nonneg [of Half] nonneg [of Equal] nonneg [of Medium] nonneg [of Jackpot]
    by (cases k) (auto simp: a_def split: if_splits)
  then show ?thesis by (simp add: n_def)
qed

text \<open>
  The draw is fair to its table: of the 10,000 equally likely rolls, exactly as many give an
  outcome as the band's weight of that outcome says.
\<close>

theorem outcomeFromRoll_distribution:
  assumes "assertBandWeightsShape w = Inr ()"
  shows "of_nat (card {roll \<in> {0..<10000}. outcomeFromRoll w roll = k}) = w k"
  using rolls_of_outcome [OF assms, of k] weight_of_count [OF assms, of k]
  by (simp add: of_nat_nat)

theorem outcomeFromRoll_distribution_witness:
  "assertBandWeightsShape (DEFAULT_BAND_WEIGHTS_V1 High) = Inr ()
   \<and> of_nat (card {roll \<in> {0..<10000}.
        outcomeFromRoll (DEFAULT_BAND_WEIGHTS_V1 High) roll = Jackpot}) = (500 :: rat)"
  using outcomeFromRoll_distribution [OF default_shape [of High], of Jackpot] default_shape [of High]
  by (simp add: bandOf_def)

section \<open>The house edge\<close>

lemma expected_payout_sum:
  assumes "assertBandWeightsShape w = Inr ()"
  shows "(\<Sum>roll\<in>{0..<10000}. rawReward price (outcomeFromRoll w roll))
           = (\<Sum>k\<in>UNIV. weightCount w k * rawReward price k)"
proof -
  have fin: "finite (UNIV :: LuckyOutcome set)"
    by (metis all_outcomes List.finite_set)
  have "(\<Sum>roll\<in>{0..<10000}. rawReward price (outcomeFromRoll w roll))
      = (\<Sum>k\<in>UNIV. \<Sum>roll\<in>{roll\<in>{0..<10000}. outcomeFromRoll w roll = k}.
           rawReward price (outcomeFromRoll w roll))"
    by (rule sum.group [symmetric]) (use fin in auto)
  also have "\<dots> = (\<Sum>k\<in>UNIV. weightCount w k * rawReward price k)"
  proof (rule sum.cong [OF refl])
    fix k
    have "(\<Sum>roll\<in>{roll\<in>{0..<10000}. outcomeFromRoll w roll = k}. rawReward price (outcomeFromRoll w roll))
        = (\<Sum>roll\<in>{roll\<in>{0..<10000}. outcomeFromRoll w roll = k}. rawReward price k)"
      by (rule sum.cong) auto
    also have "\<dots> = weightCount w k * rawReward price k"
      using rolls_of_outcome [OF assms, of k] by simp
    finally show "(\<Sum>roll\<in>{roll\<in>{0..<10000}. outcomeFromRoll w roll = k}.
        rawReward price (outcomeFromRoll w roll)) = weightCount w k * rawReward price k" .
  qed
  finally show ?thesis .
qed

lemma UNIV_outcomes: "(UNIV :: LuckyOutcome set) = {Miss, Half, Equal, Medium, Jackpot}"
  using all_outcomes by (simp add: LUCKY_OUTCOMES_def)

lemma expected_payout_le:
  assumes "assertBandWeightsShape w = Inr ()" "0 \<le> price"
  shows "of_int (\<Sum>roll\<in>{0..<10000}. rawReward price (outcomeFromRoll w roll))
           \<le> of_int price * computeBandEvBp w"
proof -
  have half: "2 * (price div 2) \<le> price" and med: "2 * (price * 5 div 2) \<le> price * 5" by simp_all
  have "2 * (\<Sum>k\<in>UNIV. weightCount w k * rawReward price k)
      = weightCount w Half * (2 * (price div 2)) + 2 * weightCount w Equal * price
        + weightCount w Medium * (2 * (price * 5 div 2)) + 20 * weightCount w Jackpot * price"
    by (simp add: UNIV_outcomes rawReward_simps [OF assms(2)] algebra_simps)
  also have "\<dots> \<le> weightCount w Half * price + 2 * weightCount w Equal * price
        + weightCount w Medium * (price * 5) + 20 * weightCount w Jackpot * price"
    using mult_left_mono [OF half, of "weightCount w Half"]
      mult_left_mono [OF med, of "weightCount w Medium"] by simp
  finally have le: "2 * (\<Sum>k\<in>UNIV. weightCount w k * rawReward price k)
      \<le> weightCount w Half * price + 2 * weightCount w Equal * price
        + weightCount w Medium * (price * 5) + 20 * weightCount w Jackpot * price" .
  have "of_int (2 * (\<Sum>k\<in>UNIV. weightCount w k * rawReward price k))
      \<le> (of_int (weightCount w Half * price + 2 * weightCount w Equal * price
        + weightCount w Medium * (price * 5) + 20 * weightCount w Jackpot * price) :: rat)"
    using le by (simp only: of_int_le_iff)
  also have "\<dots> = 2 * (of_int price * computeBandEvBp w)"
    unfolding computeBandEvBp_eq
    by (simp add: weight_of_count [OF assms(1)] algebra_simps)
  finally show ?thesis
    by (simp add: expected_payout_sum [OF assms(1)])
qed

text \<open>
  C23. Self-gifting never pays: with a weight table the admin validation accepted, in every band the
  expected reward of one unit over the 10,000 rolls, plus the host and agency points valued at the
  highest rate, stays strictly below the price less the safety margin.
\<close>

theorem validated_self_gift_never_profits:
  assumes "validateBandWeights ws econ = Inr ev" "0 < price"
  shows "of_int (\<Sum>roll\<in>{0..<10000}. rawReward price (outcomeFromRoll (ws b) roll)) / 10000
           + of_int price * of_int ((hBp econ + aBp econ) * vMaxBp econ) / 10000 / 10000
         < (of_int price * (10000 - of_int (safetyMarginBp econ)) / 10000 :: rat)"
proof -
  have v: "assertBandWeightsShape (ws b) = Inr ()" "ev = computeAllBandEvBp ws"
    "ev Critical < ev Low" "ev Low < of_int (rBp econ)" "of_int (rBp econ) < ev Normal"
    "ev Normal < ev High"
    "ev High + of_int ((hBp econ + aBp econ) * vMaxBp econ) / 10000 < 10000 - of_int (safetyMarginBp econ)"
    using assms(1) unfolding validate_iff by auto
  have "ev b \<le> ev High" using v(3-6) by (cases b) auto
  then have "ev b + of_int ((hBp econ + aBp econ) * vMaxBp econ) / 10000
      < 10000 - of_int (safetyMarginBp econ)" using v(7) by simp
  then have "of_int price * (ev b + of_int ((hBp econ + aBp econ) * vMaxBp econ) / 10000)
      < of_int price * (10000 - of_int (safetyMarginBp econ))"
    using assms(2) by simp
  moreover have "of_int (\<Sum>roll\<in>{0..<10000}. rawReward price (outcomeFromRoll (ws b) roll))
      \<le> of_int price * ev b"
    using expected_payout_le [OF v(1), of price] assms(2) by (simp add: v(2) computeAllBandEvBp_def)
  ultimately show ?thesis by (simp add: field_simps)
qed

theorem validated_self_gift_never_profits_witness:
  "validateBandWeights DEFAULT_BAND_WEIGHTS_V1 DEFAULT_ECONOMICS_V1
     = Inr (computeAllBandEvBp DEFAULT_BAND_WEIGHTS_V1) \<and> (0::int) < 100
   \<and> of_int (\<Sum>roll\<in>{0..<10000}. rawReward 100 (outcomeFromRoll (DEFAULT_BAND_WEIGHTS_V1 High) roll)) / 10000
       + (4 :: rat) < 99"
  using validated_self_gift_never_profits [OF default_validates, of 100 High] default_validates
  by (simp add: DEFAULT_ECONOMICS_V1_def del: DEFAULT_BAND_WEIGHTS_V1.simps)

section \<open>Breakdown and categories\<close>

lemma collapseLoop_length: "length (collapseLoop base extra g n rest) = n"
  by (induction n arbitrary: g rest) (simp_all add: Let_def)

lemma collapseLoop_sum:
  "length rest = n * base + (extra - g) \<Longrightarrow> extra - g \<le> n
     \<Longrightarrow> sum_list (collapseLoop base extra g n rest) = sum_list rest"
proof (induction n arbitrary: g rest)
  case 0
  then show ?case by simp
next
  case (Suc n)
  define size where "size = base + (if g < extra then 1 else 0)"
  have "length (drop size rest) = n * base + (extra - Suc g)" "extra - Suc g \<le> n"
    using Suc.prems by (auto simp: size_def)
  then have "sum_list (collapseLoop base extra (Suc g) n (drop size rest)) = sum_list (drop size rest)"
    by (rule Suc.IH)
  moreover have "sum_list (take size rest) + sum_list (drop size rest) = sum_list rest"
    by (metis append_take_drop_id sum_list_append)
  ultimately show ?case by (simp add: Let_def size_def)
qed

text \<open>
  The combo animation adds up: collapsing the rewards of a send into at most \<open>maxGroups\<close>
  entries keeps the total paid, gives one entry per unit for short sends and exactly \<open>maxGroups\<close>
  entries for longer ones.
\<close>

theorem collapseBreakdown_total:
  assumes "0 < maxGroups"
  shows "sum_list (collapseBreakdown xs maxGroups) = sum_list xs
    \<and> length (collapseBreakdown xs maxGroups) = min (length xs) maxGroups"
proof (cases "length xs \<le> maxGroups")
  case True
  then show ?thesis by (simp add: collapseBreakdown_def)
next
  case False
  have "length xs = maxGroups * (length xs div maxGroups) + (length xs mod maxGroups - 0)" by simp
  moreover have "length xs mod maxGroups - 0 \<le> maxGroups"
    using mod_less_divisor [OF assms] by (simp add: less_imp_le)
  ultimately show ?thesis
    using False collapseLoop_sum [of xs maxGroups "length xs div maxGroups" "length xs mod maxGroups" 0]
    by (simp add: collapseBreakdown_def Let_def collapseLoop_length)
qed

theorem collapseBreakdown_total_witness:
  "(0::nat) < 10 \<and> sum_list (collapseBreakdown [5, 0, 0, 7, 1, 1, 1, 1, 1, 1, 2, 30] 10) = 50
   \<and> length (collapseBreakdown [5, 0, 0, 7, 1, 1, 1, 1, 1, 1, 2, 30] 10) = 10"
  using collapseBreakdown_total [of 10 "[5, 0, 0, 7, 1, 1, 1, 1, 1, 1, 2, 30]"] by simp

fun categoryOf :: "LuckyOutcome \<Rightarrow> LuckyCategory" where
  "categoryOf Miss = MISS"
| "categoryOf Half = SMALL"
| "categoryOf Equal = EQUAL"
| "categoryOf Medium = MEDIUM"
| "categoryOf Jackpot = JACKPOT"

lemma bp_lt:
  fixes a p m :: int
  assumes "0 < p" "0 \<le> a"
  shows "bdiv (a * 10000) p < m \<longleftrightarrow> a * 10000 < m * p"
  using assms by (simp add: bdiv_nonneg int_div_less_iff)

text \<open>
  A single send is labelled by the outcome that was drawn: for every price of at least 2 coins
  an uncapped reward is classified as its own outcome, in spite of the integer floor on odd prices.
  At the price of 1 coin a half reward rounds to nothing and is labelled a miss.
\<close>

theorem single_category_matches_outcome:
  assumes "2 \<le> price"
  shows "resolveCategory 1 price (rawReward price k) = categoryOf k \<and>
         resolveCategory 1 1 (rawReward 1 Half) = MISS"
proof -
  have pos: "0 < price" using assms by simp
  have half: "0 < price div 2" "price div 2 * 10000 < 7500 * price" using assms by simp_all
  have med: "0 < price * 5 div 2" "\<not> price * 5 div 2 * 10000 < 17500 * price"
    "price * 5 div 2 * 10000 < 62500 * price" using assms by simp_all
  have jack: "bdiv (price * 100000) price = 100000" using pos by (simp add: bdiv_nonneg)
  have "resolveCategory 1 price (rawReward price k) = categoryOf k"
    using pos half med jack
    by (cases k)
       (simp_all add: resolveCategory_def singleCategory_def Let_def rawReward_simps bp_lt
          mult.commute [of 100000])
  moreover have "resolveCategory 1 1 (rawReward 1 Half) = MISS"
    by (simp add: resolveCategory_def singleCategory_def rawReward_simps)
  ultimately show ?thesis by simp
qed

theorem single_category_matches_outcome_witness:
  "(2::int) \<le> 199 \<and> resolveCategory 1 199 (rawReward 199 Half) = SMALL"
  using single_category_matches_outcome [of 199 Half] by simp

end
