(* ===== verification/World.thy ===== *)
theory World
  imports Revenue LuckyEngine
begin

text \<open>
  The state the money services share: the Postgres tables they read and write, as far as those
  services use them (column types and unique keys from \<open>src/prisma/schema.prisma\<close>), the Redis
  balance caches and idempotency keys, the message queue, and the clock. A table with a primary or
  unique key that is only looked up by it is a map; the two ledgers keep their rows in insertion
  order.

  A database transaction is a function from a world to \<open>error + 'a \<times> world\<close>: an error leaves the
  caller with the world it had, which is the rollback. Row locks (\<open>SELECT ... FOR UPDATE\<close>) are
  recorded in \<open>locks\<close> in the order in which a transaction takes them. UUIDs are drawn from the
  counter \<open>nextId\<close>; identifiers that callers choose (gift transactions, sessions, keys) are strings.
  \<open>clock\<close> is the time of the current transaction in milliseconds since the epoch.
\<close>

section \<open>Enumerations\<close>

type_synonym uid = nat
type_synonym wid = nat

datatype WalletCurrencyType = COIN | POINT | TRADING_COIN | DIAMOND

datatype LedgerDirection = CREDIT | DEBIT

datatype LevelType = WEALTH | LIVESTREAM

datatype RankingBoard = HOST | GIFT | RICH | AGENCY

datatype CoinTxType =
    C_TOPUP | C_TRADING_TOPUP | C_GIFT_SEND | C_GIFT_REFUND | C_TRANSFER_OUT | C_TRANSFER_IN
  | C_TRADING_TRANSFER_OUT | C_TRADING_TRANSFER_IN | C_TRADING_EXCHANGE_FROM_POINTS
  | C_TRADING_TRANSFER_REVERSAL | C_VIP_PURCHASE | C_VIP_REWARD | C_DAILY_LOGIN | C_WEEKLY_TOPUP
  | C_PLATFORM_REWARD | C_EXPIRE | C_ADJUSTMENT | C_VIDEO_CALL | C_USERNAME_CHANGE
  | C_CREATOR_SUBSCRIPTION | C_GUARDIAN_PURCHASE | C_STORE_ITEM_PURCHASE | C_GLOBAL_MESSAGE
  | C_VIP_MEMBERSHIP_PURCHASE | C_POINT_EXCHANGE_TO_COINS | C_CUSTOM_GIFT_REQUEST
  | C_CUSTOM_GIFT_REFUND | C_DIAMOND_PURCHASE_OUT | C_DIAMOND_PURCHASE_IN | C_DIAMOND_REDEEM_OUT
  | C_DIAMOND_REDEEM_IN | C_GAME_WAGER_OUT | C_GAME_WAGER_IN | C_GAME_RESULT_OUT
  | C_GAME_RESULT_IN | C_GAME_REFUND_OUT | C_GAME_REFUND_IN | C_GAME_ADJUSTMENT

datatype PointTxType =
    P_LIVESTREAM_GIFT | P_SUBSCRIPTION | P_GUARDIAN_PURCHASE | P_COMMISSION | P_TRANSFER_IN
  | P_TRANSFER_OUT | P_PLATFORM_REWARD | P_WITHDRAWAL | P_WITHDRAWAL_REFUND | P_ADJUSTMENT
  | P_VIDEO_CALL | P_GIFT_RECEIVE | P_AGENCY_FORCE_EXIT_PENALTY | P_AGENT_COMMISSION
  | P_AGENT_POINT_TRANSFER | P_PAYROLL_PROCESSING_REWARD | P_WITHDRAWAL_ESCROW
  | P_WITHDRAWAL_ESCROW_SETTLED | P_PAYROLL_HOST_PAYOUT | P_LIVESTREAM_STREAK_REWARD
  | P_PAYROLL_TAKEOVER_INVENTORY | P_ROYAL_HOST_REWARD | P_NORMAL_HOST_REWARD
  | P_NORMAL_HOST_BASIC_REWARD

fun pointTxName :: "PointTxType \<Rightarrow> string" where
  "pointTxName P_LIVESTREAM_GIFT = ''LIVESTREAM_GIFT''"
| "pointTxName P_SUBSCRIPTION = ''SUBSCRIPTION''"
| "pointTxName P_GUARDIAN_PURCHASE = ''GUARDIAN_PURCHASE''"
| "pointTxName P_COMMISSION = ''COMMISSION''"
| "pointTxName P_TRANSFER_IN = ''TRANSFER_IN''"
| "pointTxName P_TRANSFER_OUT = ''TRANSFER_OUT''"
| "pointTxName P_PLATFORM_REWARD = ''PLATFORM_REWARD''"
| "pointTxName P_WITHDRAWAL = ''WITHDRAWAL''"
| "pointTxName P_WITHDRAWAL_REFUND = ''WITHDRAWAL_REFUND''"
| "pointTxName P_ADJUSTMENT = ''ADJUSTMENT''"
| "pointTxName P_VIDEO_CALL = ''VIDEO_CALL''"
| "pointTxName P_GIFT_RECEIVE = ''GIFT_RECEIVE''"
| "pointTxName P_AGENCY_FORCE_EXIT_PENALTY = ''AGENCY_FORCE_EXIT_PENALTY''"
| "pointTxName P_AGENT_COMMISSION = ''AGENT_COMMISSION''"
| "pointTxName P_AGENT_POINT_TRANSFER = ''AGENT_POINT_TRANSFER''"
| "pointTxName P_PAYROLL_PROCESSING_REWARD = ''PAYROLL_PROCESSING_REWARD''"
| "pointTxName P_WITHDRAWAL_ESCROW = ''WITHDRAWAL_ESCROW''"
| "pointTxName P_WITHDRAWAL_ESCROW_SETTLED = ''WITHDRAWAL_ESCROW_SETTLED''"
| "pointTxName P_PAYROLL_HOST_PAYOUT = ''PAYROLL_HOST_PAYOUT''"
| "pointTxName P_LIVESTREAM_STREAK_REWARD = ''LIVESTREAM_STREAK_REWARD''"
| "pointTxName P_PAYROLL_TAKEOVER_INVENTORY = ''PAYROLL_TAKEOVER_INVENTORY''"
| "pointTxName P_ROYAL_HOST_REWARD = ''ROYAL_HOST_REWARD''"
| "pointTxName P_NORMAL_HOST_REWARD = ''NORMAL_HOST_REWARD''"
| "pointTxName P_NORMAL_HOST_BASIC_REWARD = ''NORMAL_HOST_BASIC_REWARD''"

section \<open>Rows\<close>

record user_row =
  firstName :: string
  lastName :: "string option"
  country :: "string option"
  currentAgencyId :: "uid option"
  personalCoinsFrozen :: bool
  tradingCoinsFrozen :: bool
  pointsFrozen :: bool
  usernameUpdatedAt :: "int option"

record wallet_row =
  wallet_id :: wid
  wallet_user :: uid
  wallet_currency :: WalletCurrencyType
  wallet_version :: int
  unconfirmedPoints :: int

record 't ledger_entry =
  entry_id :: nat
  walletId :: wid
  direction :: LedgerDirection
  txType :: 't
  amount :: int
  balanceAfter :: int
  refId :: "string option"
  counterpartyId :: "uid option"
  description :: "string option"
  metadata :: "json option"
  idempotencyKey :: string
  createdAt :: int

record agency_row =
  agency_level :: string
  agency_pausedAt :: "int option"
  agency_pausedUntil :: "int option"

record gift_row =
  gift_id :: string
  gift_name :: string
  gift_coinCost :: int
  gift_isActive :: bool
  gift_isLucky :: bool
  gift_category :: "(string \<times> string) option"

record gift_tx_row =
  gt_id :: string
  gt_sender :: uid
  gt_receiver :: uid
  gt_giftId :: string
  gt_coinCost :: int
  gt_quantity :: int
  gt_pointsAwarded :: int
  gt_context :: string
  gt_createdAt :: int

record session_row =
  session_caller :: uid
  session_creator :: uid
  livekitRoom :: string
  pricePerMin :: int
  session_status :: string
  minsCharged :: int
  coinsDeducted :: int
  pointsAwarded :: int
  startedAt :: int
  endedAt :: "int option"
  endReason :: "string option"

record lucky_config_row =
  lc_id :: nat
  lc_tierId :: string
  lc_version :: int
  lc_mode :: string
  lc_priceMin :: int
  lc_priceMax :: "int option"
  lc_rBp :: int
  lc_jBp :: int
  lc_l0 :: int
  lc_floor :: int
  lc_criticalMaxBp :: int
  lc_lowMaxBp :: int
  lc_normalMaxBp :: int
  lc_bandWeights :: BandWeightsByBand
  lc_weightTableId :: string
  lc_mMax :: int
  lc_vMaxBp :: int
  lc_safetyMarginBp :: int
  lc_minGapBp :: int
  lc_dailyWinCapCoins :: int
  lc_coolDownSeconds :: int

record lucky_seed_row =
  seed_id :: nat
  seed_tierId :: string
  seed_amount :: int
  seed_adminId :: uid
  seed_reason :: "string option"
  seed_choice :: string

text \<open>The record of a draw in \<open>lucky_draw_audit.drawn_json\<close>.\<close>

record drawn_json =
  dj_weightTableId :: string
  dj_wBefore :: int
  dj_inflow :: int
  dj_wFinal :: int
  dj_l0 :: int
  dj_floor :: int
  dj_rBp :: int
  dj_bigWin :: bool
  dj_units :: "UnitDraw list"

record lucky_audit_row =
  la_key :: string
  la_fingerprint :: "string option"
  la_engine :: string
  la_mode :: string
  la_tierId :: "string option"
  la_sender :: "uid option"
  la_giftTransactionId :: "string option"
  la_drawn :: drawn_json
  la_breakdown :: "int list"
  la_category :: LuckyCategory
  la_paidReward :: int
  la_senderBalanceAfter :: "int option"
  la_configVersion :: "int option"
  la_createdAt :: int

text \<open>Decimal strings of bigints in the snapshots (cumulative totals, thresholds) are kept as integers.\<close>

record LevelSnapshot =
  snap_currentLevel :: int
  snap_cumulativeTotal :: int
  snap_nextLevelThreshold :: "int option"
  snap_distanceToUpgrade :: "int option"
  snap_progressNumerator :: int
  snap_progressDenominator :: "int option"
  snap_leveledUp :: bool
  snap_previousLevel :: int

record RichTierLadderRow =
  rung_tier :: int
  minRechargeCoins :: int
  displayName :: string

record rich_tier_row =
  currentTier :: int
  evaluatedFromYear :: int
  evaluatedFromMonth :: int
  evaluatedRechargeCoins :: int
  carryoverCoins :: int
  lastRolledOverAt :: "int option"

record rich_history_row =
  hist_tier :: int
  totalProgressCoins :: int
  carryoverApplied :: int
  pureRechargeCoins :: int

record RichStateCached =
  state_tier :: int
  state_displayName :: "string option"
  state_evaluatedFromYear :: int
  state_evaluatedFromMonth :: int
  currentMonthRechargeCoins :: int
  currentMonthCarryoverCoins :: int
  currentMonthProgressCoins :: int
  nextTierThreshold :: "int option"
  nextTierLackingCoins :: "int option"

record package_row =
  package_coins :: int
  package_priceCents :: int
  package_isActive :: bool

record topup_order_row =
  order_user :: uid
  order_package :: string
  order_coins :: int
  order_priceCents :: int
  order_status :: string
  order_gatewayRef :: "string option"
  order_ledgerEntryId :: "nat option"

datatype lock =
    SessionLock string
  | WalletLock wid
  | LevelLock LevelType uid
  | PoolLock string

datatype idem_state = Processing | Resolved json

section \<open>The world\<close>

record world =
  users :: "uid \<rightharpoonup> user_row"
  wallets :: "wallet_row list"
  coinLedger :: "CoinTxType ledger_entry list"
  pointLedger :: "PointTxType ledger_entry list"
  userLevels :: "uid \<times> LevelType \<rightharpoonup> int \<times> int"
  legacyLevels :: "uid \<times> LevelType \<rightharpoonup> int \<times> int"
  levelConfigs :: "LevelType \<Rightarrow> (int \<times> int) list"
  levelConfigCache :: "LevelType \<rightharpoonup> (int \<times> int) list"
  levelCache :: "uid \<times> LevelType \<rightharpoonup> LevelSnapshot"
  richTierConfigs :: "RichTierLadderRow list"
  richConfigCache :: "RichTierLadderRow list option"
  monthlyRecharge :: "uid \<times> int \<times> int \<rightharpoonup> int \<times> int"
  userRichTier :: "uid \<rightharpoonup> rich_tier_row"
  richTierHistory :: "uid \<times> int \<times> int \<rightharpoonup> rich_history_row"
  richStateCache :: "uid \<rightharpoonup> RichStateCached"
  richProgressCache :: "uid \<times> int \<times> int \<rightharpoonup> int"
  coinPackages :: "string \<rightharpoonup> package_row"
  topupOrders :: "nat \<rightharpoonup> topup_order_row"
  agencies :: "uid \<rightharpoonup> agency_row"
  commissionLevels :: "string \<rightharpoonup> int \<times> int"
  commissionProcessed :: "nat list"
  dailyEarnings :: "uid \<times> uid \<times> int \<rightharpoonup> int \<times> int"
  rankingScores :: "RankingBoard \<times> uid \<times> int \<rightharpoonup> int \<times> string option"
  rankingEpochs :: "RankingBoard \<Rightarrow> int"
  gifts :: "string \<rightharpoonup> gift_row"
  giftTransactions :: "gift_tx_row list"
  sessions :: "string \<rightharpoonup> session_row"
  shares :: HostRevenueShares
  reservePool :: "nat \<rightharpoonup> int \<times> int \<times> rat"
  luckyConfigs :: "lucky_config_row list"
  luckyModes :: "string \<rightharpoonup> string"
  luckySeeds :: "lucky_seed_row list"
  luckyPools :: "string \<rightharpoonup> int \<times> int"
  luckyShadowPools :: "string \<rightharpoonup> int \<times> int"
  luckyShadowCursor :: "(int option \<times> string option) option"
  luckyAudits :: "lucky_audit_row list"
  messageQueue :: "(string \<times> nat) list"
  coinCache :: "uid \<rightharpoonup> int"
  pointCache :: "uid \<rightharpoonup> int"
  unconfirmedCache :: "uid \<rightharpoonup> int"
  idemKeys :: "string \<rightharpoonup> idem_state"
  redisUp :: bool
  locks :: "lock list"
  nextId :: nat
  clock :: int

text \<open>The UTC day of an instant, as the number of days since the epoch.\<close>

definition utcDayFromTimestamp :: "int \<Rightarrow> int" where
  "utcDayFromTimestamp ms = ms div 86400000"

text \<open>
  The tables that only the administration of rates and lucky tiers writes stay as they are, and
  generated ids are not handed out again.
\<close>

definition adminTables :: "world \<Rightarrow> world \<Rightarrow> bool" where
  "adminTables w w' \<longleftrightarrow> luckyConfigs w' = luckyConfigs w \<and> luckyModes w' = luckyModes w \<and> luckySeeds w' = luckySeeds w
     \<and> shares w' = shares w \<and> commissionLevels w' = commissionLevels w \<and> nextId w \<le> nextId w'"

lemma adminTables_refl [simp]: "adminTables w w"
  by (simp add: adminTables_def)

lemma adminTables_trans: "adminTables a b \<Longrightarrow> adminTables b c \<Longrightarrow> adminTables a c"
  by (simp add: adminTables_def)

text \<open>An empty database, used by the witnesses.\<close>

definition emptyWorld :: world where
  "emptyWorld =
     \<lparr> users = Map.empty, wallets = [], coinLedger = [], pointLedger = [], userLevels = Map.empty,
       legacyLevels = Map.empty, levelConfigs = (\<lambda>_. []),
       levelConfigCache = Map.empty, levelCache = Map.empty, richTierConfigs = [],
       richConfigCache = None, monthlyRecharge = Map.empty, userRichTier = Map.empty,
       richTierHistory = Map.empty, richStateCache = Map.empty, richProgressCache = Map.empty,
       coinPackages = Map.empty, topupOrders = Map.empty, agencies = Map.empty,
       commissionLevels = Map.empty, commissionProcessed = [], dailyEarnings = Map.empty,
       rankingScores = Map.empty, rankingEpochs = (\<lambda>_. 0), gifts = Map.empty, giftTransactions = [],
       sessions = Map.empty, shares = DEFAULT_HOST_REVENUE_SHARES, reservePool = Map.empty,
       luckyConfigs = [], luckyModes = Map.empty, luckySeeds = [], luckyPools = Map.empty,
       luckyShadowPools = Map.empty, luckyShadowCursor = None,
       luckyAudits = [], messageQueue = [], coinCache = Map.empty, pointCache = Map.empty,
       unconfirmedCache = Map.empty, idemKeys = Map.empty, redisUp = True, locks = [],
       nextId = 0, clock = 0 \<rparr>"

end
