(* ===== verification/Ledger.thy ===== *)
theory Ledger
  imports World
begin

text \<open>
  The wallet and ledger repositories and the freeze checks:
  \<open>src/src/repositories/wallet.repository.ts\<close>, \<open>coin-ledger.repository.ts\<close>,
  \<open>point-ledger.repository.ts\<close>, \<open>src/src/services/wallet-freeze.service.ts\<close> and
  \<open>src/src/utils/wallet-lock-order.ts\<close>; the invariant of the ledgers; and the abstract accounts
  (\<open>balanceOf\<close>) that the services are specified against.
\<close>

section \<open>Repositories\<close>

definition findWallet :: "world \<Rightarrow> uid \<Rightarrow> WalletCurrencyType \<Rightarrow> wallet_row option" where
  "findWallet w u c = find (\<lambda>wl. wallet_user wl = u \<and> wallet_currency wl = c) (wallets w)"

text \<open>Prisma's upsert on the unique key (user, currency) with an empty update.\<close>

definition getOrCreate :: "uid \<Rightarrow> WalletCurrencyType \<Rightarrow> world \<Rightarrow> wallet_row \<times> world" where
  "getOrCreate u c w =
     (case findWallet w u c of
        Some wl \<Rightarrow> (wl, w)
      | None \<Rightarrow>
          (let wl = \<lparr> wallet_id = nextId w, wallet_user = u, wallet_currency = c,
                      wallet_version = 0, unconfirmedPoints = 0 \<rparr>
           in (wl, w\<lparr>wallets := wallets w @ [wl], nextId := Suc (nextId w)\<rparr>)))"

definition lockForUpdate :: "wid \<Rightarrow> world \<Rightarrow> int option \<times> world" where
  "lockForUpdate i w =
     (map_option wallet_version (find (\<lambda>wl. wallet_id wl = i) (wallets w)),
      w\<lparr>locks := locks w @ [WalletLock i]\<rparr>)"

definition bumpVersion :: "wid \<Rightarrow> world \<Rightarrow> world" where
  "bumpVersion i w =
     w\<lparr>wallets := map (\<lambda>wl. if wallet_id wl = i then wl\<lparr>wallet_version := wallet_version wl + 1\<rparr> else wl)
                    (wallets w)\<rparr>"

text \<open>A row to be inserted; the id and the creation time are filled in by the insert.\<close>

definition newEntry ::
  "wid \<Rightarrow> LedgerDirection \<Rightarrow> 't \<Rightarrow> int \<Rightarrow> int \<Rightarrow> string \<Rightarrow> 't ledger_entry" where
  "newEntry wal dir tt amt bal key =
     \<lparr> entry_id = 0, walletId = wal, direction = dir, txType = tt, amount = amt, balanceAfter = bal,
       refId = None, counterpartyId = None, description = None, metadata = None,
       idempotencyKey = key, createdAt = 0 \<rparr>"

definition findByIdempotencyKey :: "'t ledger_entry list \<Rightarrow> string \<Rightarrow> 't ledger_entry option" where
  "findByIdempotencyKey rows key = find (\<lambda>r. idempotencyKey r = key) rows"

definition insertRow ::
  "'t ledger_entry list \<Rightarrow> 't ledger_entry \<Rightarrow> world \<Rightarrow> error + 't ledger_entry \<times> 't ledger_entry list" where
  "insertRow rows d w =
     andThen (assertPositiveAmount (amount d)) (\<lambda>_.
     if findByIdempotencyKey rows (idempotencyKey d) \<noteq> None then Inl UniqueViolation
     else (let e = d\<lparr>entry_id := nextId w, createdAt := clock w\<rparr> in Inr (e, rows @ [e])))"

definition coinInsert :: "CoinTxType ledger_entry \<Rightarrow> world \<Rightarrow> error + CoinTxType ledger_entry \<times> world" where
  "coinInsert d w =
     andThen (insertRow (coinLedger w) d w) (\<lambda>(e, rows).
     Inr (e, w\<lparr>coinLedger := rows, nextId := Suc (nextId w)\<rparr>))"

definition pointInsert :: "PointTxType ledger_entry \<Rightarrow> world \<Rightarrow> error + PointTxType ledger_entry \<times> world" where
  "pointInsert d w =
     andThen (insertRow (pointLedger w) d w) (\<lambda>(e, rows).
     Inr (e, w\<lparr>pointLedger := rows, nextId := Suc (nextId w)\<rparr>))"

text \<open>
  \<open>findFirst({ where: { walletId }, orderBy: { createdAt: 'desc' } })\<close>: a row with the greatest
  creation time. Postgres leaves the order of equal times open; the later insert is taken here.
\<close>

fun latestRow :: "'t ledger_entry list \<Rightarrow> 't ledger_entry option" where
  "latestRow [] = None"
| "latestRow (r # rs) =
     (case latestRow rs of
        None \<Rightarrow> Some r
      | Some m \<Rightarrow> if createdAt r \<le> createdAt m then Some m else Some r)"

abbreviation rowsOf :: "'t ledger_entry list \<Rightarrow> wid \<Rightarrow> 't ledger_entry list" where
  "rowsOf rows i \<equiv> filter (\<lambda>r. walletId r = i) rows"

definition latestBalance :: "'t ledger_entry list \<Rightarrow> wid \<Rightarrow> int" where
  "latestBalance rows i = (case latestRow (rowsOf rows i) of None \<Rightarrow> 0 | Some r \<Rightarrow> balanceAfter r)"

definition latestCoinBalance :: "world \<Rightarrow> wid \<Rightarrow> int" where
  "latestCoinBalance w i = latestBalance (coinLedger w) i"

definition latestPointBalance :: "world \<Rightarrow> wid \<Rightarrow> int" where
  "latestPointBalance w i = latestBalance (pointLedger w) i"

section \<open>Freeze checks and lock order\<close>

definition getUserWalletFreezeFlags :: "uid \<Rightarrow> world \<Rightarrow> error + user_row" where
  "getUserWalletFreezeFlags u w =
     (case users w u of None \<Rightarrow> Inl (AppError 404 ''USER_NOT_FOUND'' []) | Some r \<Rightarrow> Inr r)"

definition throwIfCoinFrozen :: "user_row \<Rightarrow> WalletCurrencyType \<Rightarrow> error + unit" where
  "throwIfCoinFrozen flags c =
     (if c = COIN \<and> personalCoinsFrozen flags then Inl (AppError 403 ''PERSONAL_COINS_FROZEN'' [])
      else if c = TRADING_COIN \<and> tradingCoinsFrozen flags then Inl (AppError 403 ''TRADING_COINS_FROZEN'' [])
      else Inr ())"

definition assertCoinDebitAllowed :: "uid \<Rightarrow> WalletCurrencyType \<Rightarrow> world \<Rightarrow> error + unit" where
  "assertCoinDebitAllowed u c w =
     andThen (getUserWalletFreezeFlags u w) (\<lambda>flags. throwIfCoinFrozen flags c)"

definition assertPointsDebitAllowed :: "uid \<Rightarrow> world \<Rightarrow> error + unit" where
  "assertPointsDebitAllowed u w =
     andThen (getUserWalletFreezeFlags u w) (\<lambda>flags.
     require (\<not> pointsFrozen flags) (AppError 403 ''POINTS_FROZEN'' []))"

fun dedupe :: "wid list \<Rightarrow> wid list \<Rightarrow> wid list" where
  "dedupe seen [] = []"
| "dedupe seen (i # is) = (if i \<in> set seen then dedupe seen is else i # dedupe (i # seen) is)"

definition lockWalletsInOrder :: "wid list \<Rightarrow> world \<Rightarrow> world" where
  "lockWalletsInOrder ws w = foldl (\<lambda>w i. snd (lockForUpdate i w)) w (sort (dedupe [] ws))"

section \<open>Abstract accounts\<close>

text \<open>
  What a user owns in a currency: the tail of the ledger of the wallet of that currency, 0 without a
  wallet. Coin, trading-coin and diamond wallets keep their rows in the coin ledger.
\<close>

definition walletBalance :: "world \<Rightarrow> wallet_row \<Rightarrow> int" where
  "walletBalance w wl =
     (if wallet_currency wl = POINT then latestPointBalance w (wallet_id wl)
      else latestCoinBalance w (wallet_id wl))"

definition balanceOf :: "world \<Rightarrow> uid \<times> WalletCurrencyType \<Rightarrow> int" where
  "balanceOf w a = (case findWallet w (fst a) (snd a) of None \<Rightarrow> 0 | Some wl \<Rightarrow> walletBalance w wl)"

section \<open>The ledger invariant\<close>

text \<open>
  How much a row moves the balance. An escrow mark of a withdrawal moves nothing: it is carried in
  \<open>unconfirmedPoints\<close> until it is settled.
\<close>

definition coinDelta :: "CoinTxType ledger_entry \<Rightarrow> int" where
  "coinDelta r = (case direction r of CREDIT \<Rightarrow> amount r | DEBIT \<Rightarrow> - amount r)"

definition pointDelta :: "PointTxType ledger_entry \<Rightarrow> int" where
  "pointDelta r =
     (if txType r = P_WITHDRAWAL_ESCROW then 0
      else case direction r of CREDIT \<Rightarrow> amount r | DEBIT \<Rightarrow> - amount r)"

fun chain :: "('t ledger_entry \<Rightarrow> int) \<Rightarrow> int \<Rightarrow> 't ledger_entry list \<Rightarrow> bool" where
  "chain delta b [] = True"
| "chain delta b (r # rs) \<longleftrightarrow> balanceAfter r = b + delta r \<and> chain delta (balanceAfter r) rs"

definition ledgerInv ::
  "('t ledger_entry \<Rightarrow> int) \<Rightarrow> 't ledger_entry list \<Rightarrow> nat \<Rightarrow> int \<Rightarrow> bool" where
  "ledgerInv delta rows next now \<longleftrightarrow>
     sorted (map createdAt rows) \<and> (\<forall>r\<in>set rows. createdAt r \<le> now)
     \<and> distinct (map idempotencyKey rows)
     \<and> distinct (map entry_id rows) \<and> (\<forall>r\<in>set rows. entry_id r < next \<and> walletId r < next)
     \<and> (\<forall>r\<in>set rows. 0 < amount r \<and> 0 \<le> balanceAfter r)
     \<and> (\<forall>i. chain delta 0 (rowsOf rows i))"

definition walletsInv :: "wallet_row list \<Rightarrow> nat \<Rightarrow> bool" where
  "walletsInv ws next \<longleftrightarrow>
     distinct (map (\<lambda>wl. (wallet_user wl, wallet_currency wl)) ws) \<and> distinct (map wallet_id ws)
     \<and> (\<forall>wl\<in>set ws. wallet_id wl < next \<and> 0 \<le> unconfirmedPoints wl)"

definition wf :: "world \<Rightarrow> bool" where
  "wf w \<longleftrightarrow> walletsInv (wallets w) (nextId w)
     \<and> ledgerInv coinDelta (coinLedger w) (nextId w) (clock w)
     \<and> ledgerInv pointDelta (pointLedger w) (nextId w) (clock w)"

lemma wf_empty: "wf emptyWorld"
  by (simp add: wf_def emptyWorld_def walletsInv_def ledgerInv_def)

section \<open>The tail of a ledger\<close>

lemma latestRow_append:
  "latestRow (rs @ [r]) = (case latestRow rs of
      None \<Rightarrow> Some r | Some m \<Rightarrow> if createdAt m \<le> createdAt r then Some r else Some m)"
  by (induction rs) (auto split: option.splits)

lemma latestRow_last:
  "sorted (map createdAt rs) \<Longrightarrow> rs \<noteq> [] \<Longrightarrow> latestRow rs = Some (last rs)"
proof (induction rs rule: rev_induct)
  case Nil
  then show ?case by simp
next
  case (snoc r rs)
  show ?case
  proof (cases "rs = []")
    case False
    moreover have "sorted (map createdAt rs)" "createdAt (last rs) \<le> createdAt r"
      using snoc.prems False by (auto simp: sorted_append)
    ultimately show ?thesis using snoc.IH by (simp add: latestRow_append)
  qed simp
qed

lemma sorted_rowsOf: "sorted (map createdAt rows) \<Longrightarrow> sorted (map createdAt (rowsOf rows i))"
  by (rule sorted_filter)

lemma chain_append: "chain delta b (rs @ [r]) \<longleftrightarrow>
    chain delta b rs \<and> balanceAfter r = (if rs = [] then b else balanceAfter (last rs)) + delta r"
  by (induction rs arbitrary: b) auto

lemma chain_last: "chain delta b rs \<Longrightarrow> rs \<noteq> [] \<Longrightarrow> balanceAfter (last rs) = b + sum_list (map delta rs)"
  by (induction rs arbitrary: b) (auto split: if_splits)

text \<open>
  The contract a ledger table keeps towards the services that read its tail: rows are in order of
  time and every row continues the running balance of its wallet.
\<close>

locale tail_ledger =
  fixes rows :: "'w \<Rightarrow> 't ledger_entry list"
    and delta :: "'t ledger_entry \<Rightarrow> int"
    and inv :: "'w \<Rightarrow> bool"
  assumes in_order: "inv w \<Longrightarrow> sorted (map createdAt (rows w))"
    and running: "inv w \<Longrightarrow> chain delta 0 (rowsOf (rows w) i)"
    and nonneg: "inv w \<Longrightarrow> r \<in> set (rows w) \<Longrightarrow> 0 \<le> balanceAfter r"
begin

lemma latest_is_last:
  "inv w \<Longrightarrow> rowsOf (rows w) i \<noteq> [] \<Longrightarrow> latestRow (rowsOf (rows w) i) = Some (last (rowsOf (rows w) i))"
  by (rule latestRow_last) (auto intro: sorted_rowsOf in_order)

lemma tail_is_sum: "inv w \<Longrightarrow> latestBalance (rows w) i = sum_list (map delta (rowsOf (rows w) i))"
  using latest_is_last [of w i] chain_last [OF running [of w i]]
  by (cases "rowsOf (rows w) i = []") (auto simp: latestBalance_def)

lemma tail_nonneg: "inv w \<Longrightarrow> 0 \<le> latestBalance (rows w) i"
proof (cases "rowsOf (rows w) i = []")
  case False
  assume inv: "inv w"
  have "last (rowsOf (rows w) i) \<in> set (rowsOf (rows w) i)" using False by (rule last_in_set)
  then show ?thesis
    using latest_is_last [OF inv False] nonneg [OF inv] by (simp add: latestBalance_def)
qed (simp add: latestBalance_def)

end

interpretation coin_ledger: tail_ledger coinLedger coinDelta wf
  by unfold_locales (auto simp: wf_def ledgerInv_def)

interpretation point_ledger: tail_ledger pointLedger pointDelta wf
  by unfold_locales (auto simp: wf_def ledgerInv_def)

section \<open>Appending a row\<close>

lemma latestBalance_append:
  assumes "\<forall>x\<in>set rows. createdAt x \<le> createdAt r"
  shows "latestBalance (rows @ [r]) i = (if walletId r = i then balanceAfter r else latestBalance rows i)"
proof -
  have "createdAt m \<le> createdAt r" if "latestRow (rowsOf rows i) = Some m" for m
  proof -
    have "latestRow rs = Some m \<Longrightarrow> m \<in> set rs" for rs :: "'a ledger_entry list"
      by (induction rs) (auto split: option.splits if_splits)
    with that assms show ?thesis by fastforce
  qed
  then show ?thesis
    by (auto simp: latestBalance_def latestRow_append split: option.splits)
qed

lemma ledgerInv_append:
  assumes inv: "ledgerInv delta rows next now"
    and key: "findByIdempotencyKey rows (idempotencyKey r) = None"
    and pos: "0 < amount r" and nonneg: "0 \<le> balanceAfter r"
    and bal: "balanceAfter r = latestBalance rows (walletId r) + delta r"
    and wal: "walletId r < next" and id: "entry_id r = next" and at: "createdAt r = now"
  shows "ledgerInv delta (rows @ [r]) (Suc next) now"
proof -
  have "chain delta 0 (rowsOf (rows @ [r]) i)" for i
  proof (cases "walletId r = i")
    case False
    then show ?thesis using inv by (simp add: ledgerInv_def)
  next
    case True
    have srt: "sorted (map createdAt (rowsOf rows i))"
      using inv by (auto simp: ledgerInv_def intro: sorted_rowsOf)
    have "latestBalance rows i
        = (if rowsOf rows i = [] then 0 else balanceAfter (last (rowsOf rows i)))"
      using latestRow_last [OF srt] by (simp add: latestBalance_def)
    then show ?thesis
      using True inv bal by (simp add: ledgerInv_def chain_append)
  qed
  moreover have "\<forall>x\<in>set rows. entry_id x < Suc next \<and> walletId x < Suc next"
    using inv by (auto simp: ledgerInv_def less_Suc_eq)
  moreover have "entry_id r \<notin> entry_id ` set rows"
    using inv id by (auto simp: ledgerInv_def)
  moreover have "idempotencyKey r \<notin> idempotencyKey ` set rows"
    using key by (auto simp: findByIdempotencyKey_def find_None_set)
  ultimately show ?thesis
    using inv pos nonneg wal id at by (simp add: ledgerInv_def sorted_append)
qed

lemma ledgerInv_next: "ledgerInv delta rows n now \<Longrightarrow> n \<le> m \<Longrightarrow> ledgerInv delta rows m now"
  by (fastforce simp: ledgerInv_def)

lemma walletsInv_next: "walletsInv ws n \<Longrightarrow> n \<le> m \<Longrightarrow> walletsInv ws m"
  by (fastforce simp: walletsInv_def)

section \<open>Movements of money\<close>

text \<open>
  \<open>moved w w' d\<close>: from a well-formed world the step keeps well-formedness and changes every account
  by \<open>d\<close>, accounts outside the support of \<open>d\<close> not at all. \<open>moving a v\<close> moves one account.
\<close>

definition moving :: "uid \<times> WalletCurrencyType \<Rightarrow> int \<Rightarrow> uid \<times> WalletCurrencyType \<Rightarrow> int" where
  "moving a v = (\<lambda>b. if b = a then v else 0)"

definition moved :: "world \<Rightarrow> world \<Rightarrow> (uid \<times> WalletCurrencyType \<Rightarrow> int) \<Rightarrow> bool" where
  "moved w w' d \<longleftrightarrow> (wf w \<longrightarrow> wf w' \<and> (\<forall>a. balanceOf w' a = balanceOf w a + d a))"

abbreviation still :: "uid \<times> WalletCurrencyType \<Rightarrow> int" where
  "still \<equiv> (\<lambda>_. 0)"

lemma moving_zero [simp]: "moving a 0 = still"
  by (auto simp: moving_def)

lemma moved_refl [intro, simp]: "moved w w still"
  by (simp add: moved_def)

lemma moved_wf: "moved w w' d \<Longrightarrow> wf w \<Longrightarrow> wf w'"
  by (simp add: moved_def)

lemma moved_bal: "moved w w' d \<Longrightarrow> wf w \<Longrightarrow> balanceOf w' a = balanceOf w a + d a"
  unfolding moved_def by blast

lemma moved_trans: "moved w w1 d1 \<Longrightarrow> moved w1 w2 d2 \<Longrightarrow> moved w w2 (\<lambda>a. d1 a + d2 a)"
  by (simp add: moved_def)

lemma moved_still: "moved w w1 d \<Longrightarrow> moved w1 w2 still \<Longrightarrow> moved w w2 d"
  using moved_trans [of w w1 d w2 still] by simp

lemma still_moved: "moved w w1 still \<Longrightarrow> moved w1 w2 d \<Longrightarrow> moved w w2 d"
  using moved_trans [of w w1 still w2 d] by simp

lemma moved_frame:
  assumes "wallets w' = wallets w" "coinLedger w' = coinLedger w" "pointLedger w' = pointLedger w"
    "nextId w \<le> nextId w'" "clock w' = clock w"
  shows "moved w w' still"
proof -
  have "walletBalance w' = walletBalance w"
    using assms(2,3) by (simp add: fun_eq_iff walletBalance_def latestCoinBalance_def latestPointBalance_def)
  then have "balanceOf w' a = balanceOf w a" for a
    using assms(1) by (simp add: balanceOf_def findWallet_def split: option.split)
  then show ?thesis
    using assms by (auto simp: moved_def wf_def intro: ledgerInv_next walletsInv_next)
qed

lemma wallet_unique:
  assumes "wf w" "wl \<in> set (wallets w)"
  shows "findWallet w (wallet_user wl) (wallet_currency wl) = Some wl"
proof -
  have "distinct (map (\<lambda>wl. (wallet_user wl, wallet_currency wl)) ws) \<Longrightarrow> wl \<in> set ws \<Longrightarrow>
        find (\<lambda>x. wallet_user x = wallet_user wl \<and> wallet_currency x = wallet_currency wl) ws = Some wl" for ws
    by (induction ws) force+
  then show ?thesis using assms by (simp add: wf_def walletsInv_def findWallet_def)
qed

lemma findWallet_Some:
  "findWallet w u c = Some wl \<Longrightarrow> wl \<in> set (wallets w) \<and> wallet_user wl = u \<and> wallet_currency wl = c"
  by (auto simp: findWallet_def dest: find_Some_mem)

lemma balanceOf_wallet:
  "wf w \<Longrightarrow> wl \<in> set (wallets w) \<Longrightarrow> balanceOf w (wallet_user wl, wallet_currency wl) = walletBalance w wl"
  by (simp add: balanceOf_def wallet_unique)

lemma wallet_id_inj:
  "wf w \<Longrightarrow> wl \<in> set (wallets w) \<Longrightarrow> wl' \<in> set (wallets w) \<Longrightarrow> wallet_id wl = wallet_id wl' \<Longrightarrow> wl = wl'"
  by (auto simp: wf_def walletsInv_def distinct_map inj_on_def)

lemma balanceOf_nonneg: "wf w \<Longrightarrow> 0 \<le> balanceOf w a"
  using coin_ledger.tail_nonneg point_ledger.tail_nonneg
  by (auto simp: balanceOf_def walletBalance_def latestCoinBalance_def latestPointBalance_def
      split: option.split)

section \<open>Effect of the repository operations\<close>

lemma getOrCreate_wallet:
  "getOrCreate u c w = (wl, w') \<Longrightarrow> wl \<in> set (wallets w') \<and> wallet_user wl = u \<and> wallet_currency wl = c"
  by (auto simp: getOrCreate_def Let_def dest: findWallet_Some split: option.splits)

lemma getOrCreate_moved:
  assumes "getOrCreate u c w = (wl, w')"
  shows "moved w w' still"
proof (cases "findWallet w u c")
  case (Some x)
  then show ?thesis using assms by (simp add: getOrCreate_def)
next
  case None
  let ?new = "\<lparr> wallet_id = nextId w, wallet_user = u, wallet_currency = c,
                wallet_version = 0, unconfirmedPoints = 0 \<rparr>"
  have w': "w' = w\<lparr>wallets := wallets w @ [?new], nextId := Suc (nextId w)\<rparr>"
    using assms None by (auto simp: getOrCreate_def Let_def)
  show ?thesis
    unfolding moved_def
  proof (intro impI conjI allI)
    assume wf: "wf w"
    have "walletsInv (wallets w @ [?new]) (Suc (nextId w))"
      using wf None by (fastforce simp: wf_def walletsInv_def findWallet_def find_None_set)
    then show "wf w'"
      using wf by (auto simp: wf_def w' intro: ledgerInv_next)
    have noRows: "rowsOf (coinLedger w) (nextId w) = []" "rowsOf (pointLedger w) (nextId w) = []"
      using wf by (auto simp: wf_def ledgerInv_def filter_empty_conv)
    show "balanceOf w' a = balanceOf w a + 0" for a
      using noRows None
      by (auto simp: balanceOf_def findWallet_def find_append walletBalance_def latestBalance_def
          latestCoinBalance_def latestPointBalance_def w' split: option.splits)
  qed
qed

lemma lockForUpdate_moved: "moved w (snd (lockForUpdate i w)) still"
  by (rule moved_frame) (simp_all add: lockForUpdate_def)

lemma lockForUpdate_frame [simp]:
  "wallets (snd (lockForUpdate i w)) = wallets w"
  "users (snd (lockForUpdate i w)) = users w"
  "coinLedger (snd (lockForUpdate i w)) = coinLedger w"
  "pointLedger (snd (lockForUpdate i w)) = pointLedger w"
  by (simp_all add: lockForUpdate_def)

lemma bumpVersion_moved: "moved w (bumpVersion i w) still"
proof -
  let ?f = "\<lambda>wl. if wallet_id wl = i then wl\<lparr>wallet_version := wallet_version wl + 1\<rparr> else wl"
  have f: "wallet_user (?f wl) = wallet_user wl" "wallet_currency (?f wl) = wallet_currency wl"
    "wallet_id (?f wl) = wallet_id wl" "unconfirmedPoints (?f wl) = unconfirmedPoints wl" for wl by simp_all
  have fnd: "find P (map ?f ws) = map_option ?f (find P ws)" if "\<And>wl. P (?f wl) = P wl" for P ws
    using that by (induction ws) auto
  have "walletsInv (map ?f ws) n \<longleftrightarrow> walletsInv ws n" for ws n
    unfolding walletsInv_def map_map comp_def set_map ball_simps f ..
  moreover have "balanceOf (bumpVersion i w) a = balanceOf w a" for a
    by (simp add: balanceOf_def findWallet_def bumpVersion_def fnd walletBalance_def
        latestCoinBalance_def latestPointBalance_def split: option.split)
  ultimately show ?thesis by (simp add: moved_def wf_def bumpVersion_def)
qed

lemma bumpVersion_frame [simp]:
  "coinLedger (bumpVersion i w) = coinLedger w" "pointLedger (bumpVersion i w) = pointLedger w"
  "users (bumpVersion i w) = users w" "nextId (bumpVersion i w) = nextId w" "clock (bumpVersion i w) = clock w"
  by (simp_all add: bumpVersion_def)

lemma coinInsert_Inr:
  "coinInsert d w = Inr (e, w') \<longleftrightarrow>
     0 < amount d \<and> findByIdempotencyKey (coinLedger w) (idempotencyKey d) = None
     \<and> e = d\<lparr>entry_id := nextId w, createdAt := clock w\<rparr>
     \<and> w' = w\<lparr>coinLedger := coinLedger w @ [e], nextId := Suc (nextId w)\<rparr>"
  by (auto simp: coinInsert_def insertRow_def andThen_Inr_iff Let_def split: if_splits)

lemma pointInsert_Inr:
  "pointInsert d w = Inr (e, w') \<longleftrightarrow>
     0 < amount d \<and> findByIdempotencyKey (pointLedger w) (idempotencyKey d) = None
     \<and> e = d\<lparr>entry_id := nextId w, createdAt := clock w\<rparr>
     \<and> w' = w\<lparr>pointLedger := pointLedger w @ [e], nextId := Suc (nextId w)\<rparr>"
  by (auto simp: pointInsert_def insertRow_def andThen_Inr_iff Let_def split: if_splits)

lemma delta_stamp [simp]:
  "coinDelta (d\<lparr>entry_id := i, createdAt := t\<rparr>) = coinDelta d"
  "pointDelta (p\<lparr>entry_id := i, createdAt := t\<rparr>) = pointDelta p"
  by (cases "direction d"; simp add: coinDelta_def) (cases "direction p"; simp add: pointDelta_def)

text \<open>
  Posting a row: when the row continues the tail of the wallet it names and does not take it below
  zero, the insert moves the account of that wallet by the row's delta and nothing else.
\<close>

lemma walletBalance_post:
  assumes wf: "wf w" and wl: "wl \<in> set (wallets w)" "wallet_id wl = i"
    and acc: "findWallet w' = findWallet w"
    and same: "\<And>x. x \<in> set (wallets w) \<Longrightarrow> wallet_id x \<noteq> i \<Longrightarrow> walletBalance w' x = walletBalance w x"
    and post: "walletBalance w' wl = walletBalance w wl + v"
  shows "balanceOf w' a = balanceOf w a + moving (wallet_user wl, wallet_currency wl) v a"
proof (cases "findWallet w (fst a) (snd a)")
  case None
  then have "a \<noteq> (wallet_user wl, wallet_currency wl)"
    using wallet_unique [OF wf wl(1)] by auto
  then show ?thesis using None acc by (simp add: balanceOf_def moving_def)
next
  case (Some x)
  then have x: "x \<in> set (wallets w)" "a = (wallet_user x, wallet_currency x)"
    using findWallet_Some by fastforce+
  show ?thesis
  proof (cases "wallet_id x = i")
    case True
    then have "x = wl" using wallet_id_inj [OF wf x(1) wl(1)] wl(2) by simp
    then show ?thesis using Some acc post x(2) by (simp add: balanceOf_def moving_def)
  next
    case False
    then have "a \<noteq> (wallet_user wl, wallet_currency wl)"
      using wallet_unique [OF wf wl(1)] Some wl(2) by auto
    then show ?thesis using False Some acc same [OF x(1)] by (simp add: balanceOf_def moving_def)
  qed
qed

lemma coinInsert_moved:
  assumes ins: "coinInsert d w = Inr (e, w')"
    and wl: "wl \<in> set (wallets w)" "wallet_id wl = walletId d" "wallet_currency wl \<noteq> POINT"
    and bal: "balanceAfter d = latestCoinBalance w (walletId d) + coinDelta d"
    and nonneg: "0 \<le> coinDelta d \<or> 0 \<le> balanceAfter d"
  shows "moved w w' (moving (wallet_user wl, wallet_currency wl) (coinDelta d))"
  unfolding moved_def
proof (intro impI conjI allI)
  assume wf: "wf w"
  have e: "e = d\<lparr>entry_id := nextId w, createdAt := clock w\<rparr>"
    and w': "w' = w\<lparr>coinLedger := coinLedger w @ [e], nextId := Suc (nextId w)\<rparr>"
    and pos: "0 < amount d" and key: "findByIdempotencyKey (coinLedger w) (idempotencyKey d) = None"
    using ins by (auto simp: coinInsert_Inr)
  have ge: "0 \<le> balanceAfter d"
    using nonneg bal coin_ledger.tail_nonneg [OF wf] by (auto simp: latestCoinBalance_def)
  have "ledgerInv coinDelta (coinLedger w @ [e]) (Suc (nextId w)) (clock w)"
    using wf wl pos key ge bal
    by (intro ledgerInv_append)
      (auto simp: wf_def walletsInv_def e latestCoinBalance_def)
  then show "wf w'"
    using wf by (auto simp: wf_def w' intro: ledgerInv_next walletsInv_next)
  have late: "\<forall>x\<in>set (coinLedger w). createdAt x \<le> createdAt e"
    using wf by (auto simp: wf_def ledgerInv_def e)
  show "balanceOf w' a = balanceOf w a + moving (wallet_user wl, wallet_currency wl) (coinDelta d) a" for a
    using wl bal late
    by (intro walletBalance_post [OF wf])
      (auto simp: fun_eq_iff findWallet_def walletBalance_def latestCoinBalance_def
        latestPointBalance_def latestBalance_append w' e)
qed

lemma pointInsert_moved:
  assumes ins: "pointInsert d w = Inr (e, w')"
    and wl: "wl \<in> set (wallets w)" "wallet_id wl = walletId d" "wallet_currency wl = POINT"
    and bal: "balanceAfter d = latestPointBalance w (walletId d) + pointDelta d"
    and nonneg: "0 \<le> pointDelta d \<or> 0 \<le> balanceAfter d"
  shows "moved w w' (moving (wallet_user wl, POINT) (pointDelta d))"
  unfolding moved_def
proof (intro impI conjI allI)
  assume wf: "wf w"
  have e: "e = d\<lparr>entry_id := nextId w, createdAt := clock w\<rparr>"
    and w': "w' = w\<lparr>pointLedger := pointLedger w @ [e], nextId := Suc (nextId w)\<rparr>"
    and pos: "0 < amount d" and key: "findByIdempotencyKey (pointLedger w) (idempotencyKey d) = None"
    using ins by (auto simp: pointInsert_Inr)
  have ge: "0 \<le> balanceAfter d"
    using nonneg bal point_ledger.tail_nonneg [OF wf] by (auto simp: latestPointBalance_def)
  have "ledgerInv pointDelta (pointLedger w @ [e]) (Suc (nextId w)) (clock w)"
    using wf wl pos key ge bal
    by (intro ledgerInv_append)
      (auto simp: wf_def walletsInv_def e latestPointBalance_def)
  then show "wf w'"
    using wf by (auto simp: wf_def w' intro: ledgerInv_next walletsInv_next)
  have late: "\<forall>x\<in>set (pointLedger w). createdAt x \<le> createdAt e"
    using wf by (auto simp: wf_def ledgerInv_def e)
  have "balanceOf w' a = balanceOf w a + moving (wallet_user wl, wallet_currency wl) (pointDelta d) a" for a
    using wl bal late
    by (intro walletBalance_post [OF wf])
      (auto simp: fun_eq_iff findWallet_def walletBalance_def latestCoinBalance_def
        latestPointBalance_def latestBalance_append w' e)
  then show "balanceOf w' a = balanceOf w a + moving (wallet_user wl, POINT) (pointDelta d) a" for a
    using wl(3) by simp
qed

section \<open>Locking several wallets\<close>

lemma lockWalletsInOrder_eq:
  "lockWalletsInOrder ws w = w\<lparr>locks := locks w @ map WalletLock (sort (dedupe [] ws))\<rparr>"
proof -
  have "foldl (\<lambda>w i. snd (lockForUpdate i w)) w is = w\<lparr>locks := locks w @ map WalletLock is\<rparr>" for "is" w
    by (induction "is" arbitrary: w) (simp_all add: lockForUpdate_def)
  then show ?thesis by (simp add: lockWalletsInOrder_def)
qed

lemma set_dedupe: "set (dedupe seen is) = set is - set seen"
  by (induction seen "is" rule: dedupe.induct) auto

lemma distinct_dedupe: "distinct (dedupe seen is)"
  by (induction seen "is" rule: dedupe.induct) (auto simp: set_dedupe)

end
