(* ===== verification/Levels.thy ===== *)
theory Levels
  imports Ledger
begin

text \<open>
  User levels: \<open>src/src/services/user-level.service.ts\<close> and
  \<open>src/src/repositories/wallet-user-level.repository.ts\<close>. A level row holds the current level and
  the cumulative experience of a user for one level type; levels follow from the configured
  thresholds. Redis holds the thresholds and a snapshot per user and type.
\<close>

section \<open>Repository\<close>

text \<open>\<open>INSERT ... ON CONFLICT DO NOTHING\<close> of level 1 with no experience.\<close>

definition ensureRow :: "uid \<Rightarrow> LevelType \<Rightarrow> world \<Rightarrow> world" where
  "ensureRow u lt w =
     (case userLevels w (u, lt) of
        None \<Rightarrow> w\<lparr>userLevels := (userLevels w)((u, lt) \<mapsto> (1, 0))\<rparr>
      | Some _ \<Rightarrow> w)"

definition findRow :: "uid \<Rightarrow> LevelType \<Rightarrow> bool \<Rightarrow> world \<Rightarrow> error + (int \<times> int) \<times> world" where
  "findRow u lt lck w =
     (case userLevels w (u, lt) of
        None \<Rightarrow> Inl (OtherError ''wallet_user_levels missing after ensure'')
      | Some r \<Rightarrow> Inr (r, if lck then w\<lparr>locks := locks w @ [LevelLock lt u]\<rparr> else w))"

definition levelGetOrCreate :: "uid \<Rightarrow> LevelType \<Rightarrow> bool \<Rightarrow> world \<Rightarrow> error + (int \<times> int) \<times> world" where
  "levelGetOrCreate u lt lck w = findRow u lt lck (ensureRow u lt w)"

text \<open>\<open>tx.walletUserLevel.update\<close> on an existing row.\<close>

definition levelUpdate :: "uid \<Rightarrow> LevelType \<Rightarrow> int \<Rightarrow> int \<Rightarrow> world \<Rightarrow> world" where
  "levelUpdate u lt level cumulative w =
     w\<lparr>userLevels := (userLevels w)((u, lt) \<mapsto> (level, cumulative))\<rparr>"

section \<open>Thresholds and snapshots\<close>

text \<open>A threshold is a pair of a level and the experience it needs.\<close>

type_synonym thresholds = "(int \<times> int) list"

definition getThresholds :: "LevelType \<Rightarrow> world \<Rightarrow> thresholds \<times> world" where
  "getThresholds lt w =
     (case (if redisUp w then levelConfigCache w lt else None) of
        Some ts \<Rightarrow> (ts, w)
      | None \<Rightarrow>
          (let ts = levelConfigs w lt
           in (ts, if redisUp w then w\<lparr>levelConfigCache := (levelConfigCache w)(lt \<mapsto> ts)\<rparr> else w)))"

fun computeLevelLoop :: "int \<Rightarrow> int \<Rightarrow> thresholds \<Rightarrow> int" where
  "computeLevelLoop xp level [] = level"
| "computeLevelLoop xp level ((l, t) # ts) =
     (if t \<le> xp then computeLevelLoop xp l ts else level)"

definition computeLevel :: "int \<Rightarrow> thresholds \<Rightarrow> int" where
  "computeLevel cumulativeTotal ts = computeLevelLoop cumulativeTotal 1 ts"

definition thresholdOf :: "int \<Rightarrow> thresholds \<Rightarrow> int option" where
  "thresholdOf level ts = map_option snd (find (\<lambda>t. fst t = level) ts)"

definition buildSnapshot :: "int \<Rightarrow> int \<Rightarrow> int \<Rightarrow> thresholds \<Rightarrow> LevelSnapshot" where
  "buildSnapshot cumulativeTotal currentLevel previousLevel ts =
     (let currentThreshold = (case thresholdOf currentLevel ts of None \<Rightarrow> 0 | Some t \<Rightarrow> t);
          nextThreshold = thresholdOf (currentLevel + 1) ts
      in \<lparr> snap_currentLevel = currentLevel,
           snap_cumulativeTotal = cumulativeTotal,
           snap_nextLevelThreshold = nextThreshold,
           snap_distanceToUpgrade = map_option (\<lambda>n. n - cumulativeTotal) nextThreshold,
           snap_progressNumerator = cumulativeTotal - currentThreshold,
           snap_progressDenominator = map_option (\<lambda>n. n - currentThreshold) nextThreshold,
           snap_leveledUp = (currentLevel > previousLevel),
           snap_previousLevel = previousLevel \<rparr>)"

section \<open>The service\<close>

record LevelApplyResult =
  newLevel :: int
  previousLevel :: int
  newCumulative :: int

definition invalidateCache :: "uid \<Rightarrow> LevelType \<Rightarrow> world \<Rightarrow> world" where
  "invalidateCache u lt w = (if redisUp w then w\<lparr>levelCache := (levelCache w)((u, lt) := None)\<rparr> else w)"

definition invalidateConfigCache :: "world \<Rightarrow> world" where
  "invalidateConfigCache w = (if redisUp w then w\<lparr>levelConfigCache := Map.empty\<rparr> else w)"

definition getSnapshot :: "uid \<Rightarrow> LevelType \<Rightarrow> world \<Rightarrow> error + LevelSnapshot \<times> world" where
  "getSnapshot u lt w =
     (case (if redisUp w then levelCache w (u, lt) else None) of
        Some snap \<Rightarrow> Inr (snap, w)
      | None \<Rightarrow>
          andThen (levelGetOrCreate u lt False w) (\<lambda>(record, w1).
          let (ts, w2) = getThresholds lt w1;
              snap = (buildSnapshot (snd record) (fst record) (fst record) ts)\<lparr>snap_leveledUp := False\<rparr>;
              w3 = (if redisUp w2 then w2\<lparr>levelCache := (levelCache w2)((u, lt) \<mapsto> snap)\<rparr> else w2)
          in Inr (snap, w3)))"

definition applyCredit :: "uid \<Rightarrow> LevelType \<Rightarrow> int \<Rightarrow> world \<Rightarrow> error + LevelApplyResult \<times> world" where
  "applyCredit u lt increment w =
     andThen (levelGetOrCreate u lt True w) (\<lambda>(current, w1).
     let newCum = snd current + increment;
         (ts, w2) = getThresholds lt w1;
         newLev = computeLevel newCum ts
     in Inr (\<lparr> newLevel = newLev, previousLevel = fst current, newCumulative = newCum \<rparr>,
             levelUpdate u lt newLev newCum w2))"

definition applyDebit :: "uid \<Rightarrow> LevelType \<Rightarrow> int \<Rightarrow> world \<Rightarrow> error + LevelApplyResult \<times> world" where
  "applyDebit u lt decrement w =
     (if decrement \<le> 0 then
        andThen (levelGetOrCreate u lt True w) (\<lambda>(current, w1).
        Inr (\<lparr> newLevel = fst current, previousLevel = fst current, newCumulative = snd current \<rparr>, w1))
      else
        andThen (levelGetOrCreate u lt True w) (\<lambda>(current, w1).
        let newCum = (if snd current > decrement then snd current - decrement else 0);
            (ts, w2) = getThresholds lt w1;
            newLev = computeLevel newCum ts
        in Inr (\<lparr> newLevel = newLev, previousLevel = fst current, newCumulative = newCum \<rparr>,
                levelUpdate u lt newLev newCum w2)))"

definition refreshCache ::
  "uid \<Rightarrow> LevelType \<Rightarrow> int \<Rightarrow> int \<Rightarrow> int \<Rightarrow> world \<Rightarrow> LevelSnapshot \<times> world" where
  "refreshCache u lt newCum newLev prevLev w =
     (let (ts, w1) = getThresholds lt w
      in (buildSnapshot newCum newLev prevLev ts, invalidateCache u lt w1))"

definition syncLevelCacheFromApplyResult ::
  "uid \<Rightarrow> LevelType \<Rightarrow> LevelApplyResult option \<Rightarrow> world \<Rightarrow> world" where
  "syncLevelCacheFromApplyResult u lt result w =
     (case result of
        None \<Rightarrow> w
      | Some r \<Rightarrow> snd (refreshCache u lt (newCumulative r) (newLevel r) (previousLevel r) w))"

text \<open>The write of \<open>setLevel\<close>: the body of its transaction.\<close>

definition setLevelTx ::
  "uid \<Rightarrow> LevelType \<Rightarrow> int \<Rightarrow> thresholds \<Rightarrow> world \<Rightarrow> error + LevelApplyResult \<times> world" where
  "setLevelTx u lt targetThreshold ts w =
     andThen (levelGetOrCreate u lt True w) (\<lambda>(current, w1).
     if snd current = targetThreshold then Inl (AppError 400 ''LEVEL_ALREADY_AT_TARGET'' [])
     else
       (let newLev = computeLevel targetThreshold ts
        in Inr (\<lparr> newLevel = newLev, previousLevel = fst current, newCumulative = targetThreshold \<rparr>,
                levelUpdate u lt newLev targetThreshold w1)))"

text \<open>A target that is not an integer is refused by the same check; here it is an integer by type.\<close>

definition setLevel ::
  "uid \<Rightarrow> LevelType \<Rightarrow> int \<Rightarrow> world \<Rightarrow> error + (LevelApplyResult \<times> LevelSnapshot) \<times> world" where
  "setLevel u lt targetLevel w =
     (let (ts, w1) = getThresholds lt w in
      if ts = [] then Inl (AppError 500 ''CONFIG_ERROR'' [])
      else if targetLevel < 1 \<or> targetLevel > fst (last ts) then
        Inl (AppError 400 ''INVALID_TARGET_LEVEL'' [])
      else
        (case thresholdOf targetLevel ts of
           None \<Rightarrow> Inl (AppError 400 ''INVALID_TARGET_LEVEL'' [])
         | Some targetThreshold \<Rightarrow>
             andThen (setLevelTx u lt targetThreshold ts w1) (\<lambda>(r, w2).
             let (snap, w3) = refreshCache u lt (newCumulative r) (newLevel r) (previousLevel r) w2
             in Inr ((r, snap), w3))))"

section \<open>Batch display\<close>

text \<open>The snapshot a user without cache entries gets, default level 1 without creating a row.\<close>

definition displaySnapshot :: "(int \<times> int) option \<Rightarrow> thresholds \<Rightarrow> LevelSnapshot" where
  "displaySnapshot row ts =
     (let cum = (case row of None \<Rightarrow> 0 | Some r \<Rightarrow> snd r);
          lev = (case row of None \<Rightarrow> 1 | Some r \<Rightarrow> fst r)
      in (buildSnapshot cum lev lev ts)\<lparr>snap_leveledUp := False\<rparr>)"

definition cachedDisplay :: "world \<Rightarrow> uid \<Rightarrow> (int \<times> int) option" where
  "cachedDisplay w u =
     (if redisUp w then
        (case (levelCache w (u, WEALTH), levelCache w (u, LIVESTREAM)) of
           (Some wl, Some ls) \<Rightarrow> Some (snap_currentLevel wl, snap_currentLevel ls)
         | _ \<Rightarrow> None)
      else None)"

definition loadDisplay :: "thresholds \<Rightarrow> thresholds \<Rightarrow> uid \<Rightarrow> world \<Rightarrow> (int \<times> int) \<times> world" where
  "loadDisplay wts sts u w =
     (let wSnap = displaySnapshot (userLevels w (u, WEALTH)) wts;
          sSnap = displaySnapshot (userLevels w (u, LIVESTREAM)) sts
      in ((snap_currentLevel wSnap, snap_currentLevel sSnap),
          if redisUp w
          then w\<lparr>levelCache := (levelCache w)((u, WEALTH) \<mapsto> wSnap, (u, LIVESTREAM) \<mapsto> sSnap)\<rparr>
          else w))"

fun loadDisplays ::
  "thresholds \<Rightarrow> thresholds \<Rightarrow> uid list \<Rightarrow> world \<Rightarrow> (uid \<times> int \<times> int) list \<times> world" where
  "loadDisplays wts sts [] w = ([], w)"
| "loadDisplays wts sts (u # us) w =
     (let (d, w1) = loadDisplay wts sts u w; (ds, w2) = loadDisplays wts sts us w1
      in ((u, d) # ds, w2))"

text \<open>
  The result is a map from users to (wealth level, livestream level): first the users both of whose
  snapshots are cached, then the others, loaded from the table and cached.
\<close>

definition getDisplayLevelsForUsers :: "uid list \<Rightarrow> world \<Rightarrow> (uid \<rightharpoonup> int \<times> int) \<times> world" where
  "getDisplayLevelsForUsers userIds w =
     (let unique = remdups userIds;
          missing = filter (\<lambda>u. cachedDisplay w u = None) unique;
          hits = List.map_filter (\<lambda>u. map_option (Pair u) (cachedDisplay w u)) unique
      in if missing = [] then (map_of hits, w)
         else
           (let (wts, w1) = getThresholds WEALTH w;
                (sts, w2) = getThresholds LIVESTREAM w1;
                (loaded, w3) = loadDisplays wts sts missing w2
            in (map_of hits ++ map_of loaded, w3)))"

section \<open>Highest level reached\<close>

lemma computeLevelLoop_eq:
  "sorted (map snd ts) \<Longrightarrow>
   computeLevelLoop xp level ts =
     (let reached = filter (\<lambda>t. snd t \<le> xp) ts in if reached = [] then level else fst (last reached))"
proof (induction xp level ts rule: computeLevelLoop.induct)
  case (2 xp level l t ts)
  show ?case
  proof (cases "t \<le> xp")
    case True
    then show ?thesis using 2 by (simp add: Let_def)
  next
    case False
    then have "filter (\<lambda>t. snd t \<le> xp) ((l, t) # ts) = []"
      using "2.prems" by (force simp: filter_empty_conv)
    then show ?thesis using False by (simp add: Let_def)
  qed
qed simp

text \<open>
  For thresholds in ascending order of level and of experience, \<open>computeLevel\<close> returns the
  highest level whose threshold is at most the cumulative total, and level 1 when no threshold is
  reached. More experience never lowers the level.
\<close>

theorem computeLevel_highest:
  assumes "sorted (map fst ts)" "sorted (map snd ts)"
  shows "(\<forall>(l, t) \<in> set ts. t \<le> xp \<longrightarrow> l \<le> computeLevel xp ts)
    \<and> (if \<exists>(l, t) \<in> set ts. t \<le> xp then \<exists>t \<le> xp. (computeLevel xp ts, t) \<in> set ts
       else computeLevel xp ts = 1)"
proof -
  let ?q = "filter (\<lambda>t. snd t \<le> xp) ts"
  have eq: "computeLevel xp ts = (if ?q = [] then 1 else fst (last ?q))"
    using computeLevelLoop_eq [OF assms(2)] by (simp add: computeLevel_def Let_def)
  have srt: "sorted (map fst ?q)" using assms(1) by (rule sorted_filter)
  have le: "l \<le> fst (last ?q)" if "(l, t) \<in> set ts" "t \<le> xp" for l t
  proof -
    have "(l, t) \<in> set ?q" using that by simp
    then obtain xs ys where q: "?q = xs @ (l, t) # ys" by (meson split_list)
    show ?thesis using srt unfolding q by (cases ys rule: rev_cases) (auto simp: sorted_append)
  qed
  have mem: "last ?q \<in> set ts \<and> snd (last ?q) \<le> xp" if "?q \<noteq> []"
    using last_in_set [OF that] by simp
  have "?q = [] \<longleftrightarrow> \<not> (\<exists>(l, t) \<in> set ts. t \<le> xp)"
    by (auto simp: filter_empty_conv)
  moreover have "\<exists>t \<le> xp. (fst (last ?q), t) \<in> set ts" if "?q \<noteq> []"
    using mem [OF that] by (intro exI [of _ "snd (last ?q)"]) simp
  ultimately show ?thesis
    using le eq by (auto simp: split_beta)
qed

definition sampleThresholds :: thresholds where
  "sampleThresholds = [(1, 0), (2, 100), (3, 500), (4, 2000)]"

theorem computeLevel_highest_witness:
  "computeLevel 750 sampleThresholds = 3 \<and> \<not> 4 \<le> computeLevel 750 sampleThresholds
   \<and> (\<exists>t \<le> 750. (computeLevel 750 sampleThresholds, t) \<in> set sampleThresholds)"
  using computeLevel_highest [of sampleThresholds 750]
  by (simp add: sampleThresholds_def computeLevel_def)

section \<open>Progress within a level\<close>

text \<open>A ladder: levels 1, 2, ..., n with strictly rising thresholds that start at 0.\<close>

definition ladder :: "thresholds \<Rightarrow> bool" where
  "ladder ts \<longleftrightarrow> ts \<noteq> [] \<and> map fst ts = [1..int (length ts)] \<and> snd (hd ts) = 0
     \<and> sorted_wrt (<) (map snd ts)"

lemma ladder_nth: "ladder ts \<Longrightarrow> i < length ts \<Longrightarrow> fst (ts ! i) = int i + 1"
proof -
  assume l: "ladder ts" and i: "i < length ts"
  then have "fst (ts ! i) = map fst ts ! i" by simp
  also have "\<dots> = [1..int (length ts)] ! i" using l by (simp add: ladder_def)
  finally show ?thesis using i by simp
qed

lemma ladder_thresholdOf:
  assumes "ladder ts"
  shows "thresholdOf lev ts =
    (if 1 \<le> lev \<and> lev \<le> int (length ts) then Some (snd (ts ! nat (lev - 1))) else None)"
proof (cases "1 \<le> lev \<and> lev \<le> int (length ts)")
  case True
  let ?i = "nat (lev - 1)"
  have i: "?i < length ts" and "fst (ts ! ?i) = lev"
    using True ladder_nth [OF assms, of ?i] by auto
  moreover have "fst (ts ! j) \<noteq> lev" if "j < ?i" for j
    using that i ladder_nth [OF assms, of j] True by auto
  ultimately have "find (\<lambda>t. fst t = lev) ts = Some (ts ! ?i)"
    unfolding find_Some_iff by (intro exI [of _ ?i]) auto
  then show ?thesis using True by (simp add: thresholdOf_def)
next
  case False
  have "find (\<lambda>t. fst t = lev) ts = None"
    using False ladder_nth [OF assms] by (force simp: find_None_set in_set_conv_nth)
  then show ?thesis using False by (simp add: thresholdOf_def)
qed

lemma ladder_sorted: "ladder ts \<Longrightarrow> sorted (map fst ts) \<and> sorted (map snd ts)"
  by (auto simp: ladder_def strict_sorted_imp_sorted)

lemma ladder_less: "ladder ts \<Longrightarrow> i < j \<Longrightarrow> j < length ts \<Longrightarrow> snd (ts ! i) < snd (ts ! j)"
  by (auto simp: ladder_def sorted_wrt_nth_less sorted_wrt_iff_nth_less)

lemma ladder_computeLevel:
  assumes lad: "ladder ts" and i: "i < length ts"
    and here: "snd (ts ! i) \<le> xp" and above: "Suc i < length ts \<Longrightarrow> xp < snd (ts ! Suc i)"
  shows "computeLevel xp ts = int i + 1"
proof -
  have reached: "snd (ts ! j) \<le> xp \<longleftrightarrow> j \<le> i" if "j < length ts" for j
  proof
    assume "snd (ts ! j) \<le> xp"
    then show "j \<le> i"
      using above ladder_less [OF lad, of "Suc i" j] that by (cases "Suc i = j") force+
  next
    assume "j \<le> i"
    then show "snd (ts ! j) \<le> xp"
      using here ladder_less [OF lad, of j i] i by (cases "j = i") auto
  qed
  have "filter (\<lambda>t. snd t \<le> xp) ts = take (Suc i) ts"
  proof -
    have "filter (\<lambda>t. snd t \<le> xp) (take (Suc i) ts) = take (Suc i) ts"
      unfolding filter_id_conv
    proof
      fix t assume "t \<in> set (take (Suc i) ts)"
      then obtain j where "j \<le> i" "t = ts ! j" using i by (auto simp: in_set_conv_nth less_Suc_eq_le)
      then show "snd t \<le> xp" using reached [of j] i by simp
    qed
    moreover have "filter (\<lambda>t. snd t \<le> xp) (drop (Suc i) ts) = []"
      unfolding filter_empty_conv
    proof
      fix t assume "t \<in> set (drop (Suc i) ts)"
      then obtain k where "k < length ts - Suc i" "t = ts ! (Suc i + k)" by (auto simp: in_set_conv_nth)
      then show "\<not> snd t \<le> xp" using reached [of "Suc i + k"] by simp
    qed
    ultimately show ?thesis by (metis append_Nil2 append_take_drop_id filter_append)
  qed
  then show ?thesis
    using computeLevelLoop_eq [of ts xp 1] ladder_sorted [OF lad] i ladder_nth [OF lad i]
    by (simp add: computeLevel_def Let_def take_Suc_conv_app_nth)
qed

lemma ladder_position:
  assumes "ladder ts" "0 \<le> xp"
  obtains i where "i < length ts" "snd (ts ! i) \<le> xp" "Suc i < length ts \<Longrightarrow> xp < snd (ts ! Suc i)"
proof -
  let ?P = "\<lambda>i. i < length ts \<and> snd (ts ! i) \<le> xp"
  have "?P 0" using assms by (cases ts) (auto simp: ladder_def)
  then have "?P (GREATEST i. ?P i)"
    by (rule GreatestI_nat [where b = "length ts"]) simp
  moreover have "\<not> ?P (Suc (GREATEST i. ?P i))"
    using Greatest_le_nat [where P = ?P and b = "length ts" and k = "Suc (GREATEST i. ?P i)"] by auto
  ultimately show thesis using that by force
qed

text \<open>
  On a ladder, the snapshot of a user with total experience \<open>xp\<close> and the level computed from
  it shows progress from 0 up to, but excluding, the size of the level; the missing experience is
  positive and completes the progress, and reaching it gives exactly the next level.
\<close>

theorem snapshot_progress:
  assumes lad: "ladder ts" and xp: "0 \<le> xp"
  shows "(let s = buildSnapshot xp (computeLevel xp ts) p ts in
     0 \<le> snap_progressNumerator s
     \<and> (case snap_distanceToUpgrade s of
          None \<Rightarrow> snap_currentLevel s = int (length ts) \<and> snap_progressDenominator s = None
        | Some d \<Rightarrow> 0 < d \<and> snap_progressDenominator s = Some (snap_progressNumerator s + d)
            \<and> computeLevel (xp + d) ts = snap_currentLevel s + 1))"
proof -
  obtain i where i: "i < length ts" "snd (ts ! i) \<le> xp"
      "Suc i < length ts \<Longrightarrow> xp < snd (ts ! Suc i)"
    using ladder_position [OF lad xp] by blast
  have lev: "computeLevel xp ts = int i + 1" using ladder_computeLevel [OF lad i] .
  show ?thesis
  proof (cases "Suc i < length ts")
    case True
    have "computeLevel (snd (ts ! Suc i)) ts = int (Suc i) + 1"
      using ladder_computeLevel [OF lad True] ladder_less [OF lad] by simp
    then show ?thesis
      using i True lev by (simp add: buildSnapshot_def Let_def ladder_thresholdOf [OF lad] nat_add_distrib)
  next
    case False
    then show ?thesis
      using i lev by (simp add: buildSnapshot_def Let_def ladder_thresholdOf [OF lad])
  qed
qed

theorem snapshot_progress_witness:
  "ladder sampleThresholds
   \<and> (let s = buildSnapshot 750 (computeLevel 750 sampleThresholds) 2 sampleThresholds in
      snap_currentLevel s = 3 \<and> snap_progressNumerator s = 250 \<and> snap_distanceToUpgrade s = Some 1250
      \<and> snap_progressDenominator s = Some (250 + 1250)
      \<and> computeLevel (750 + 1250) sampleThresholds = 3 + 1)"
proof -
  have "ladder sampleThresholds" by (simp add: ladder_def sampleThresholds_def upto.simps)
  then show ?thesis
    using snapshot_progress [of sampleThresholds 750 2]
    by (simp add: sampleThresholds_def computeLevel_def buildSnapshot_def thresholdOf_def Let_def)
qed

section \<open>Effect of the operations\<close>

definition currentRow :: "world \<Rightarrow> uid \<Rightarrow> LevelType \<Rightarrow> int \<times> int" where
  "currentRow w u lt = (case userLevels w (u, lt) of None \<Rightarrow> (1, 0) | Some r \<Rightarrow> r)"

definition activeThresholds :: "world \<Rightarrow> LevelType \<Rightarrow> thresholds" where
  "activeThresholds w lt = fst (getThresholds lt w)"

text \<open>What a level operation leaves alone: everything but level rows, level caches and locks.\<close>

definition levelFrame :: "world \<Rightarrow> world \<Rightarrow> bool" where
  "levelFrame w w' \<longleftrightarrow> (\<exists>rows cc lc ls.
     w' = w\<lparr>userLevels := rows, levelConfigCache := cc, levelCache := lc, locks := ls\<rparr>)"

lemma levelFrame_I [intro]:
  "w' = w\<lparr>userLevels := rows, levelConfigCache := cc, levelCache := lc, locks := ls\<rparr> \<Longrightarrow> levelFrame w w'"
  by (auto simp: levelFrame_def)

lemma levelFrame_refl: "levelFrame w w"
  by (rule levelFrame_I [where rows = "userLevels w" and cc = "levelConfigCache w" and lc = "levelCache w" and ls = "locks w"]) simp

lemma levelFrame_trans: "levelFrame a b \<Longrightarrow> levelFrame b c \<Longrightarrow> levelFrame a c"
  by (force simp: levelFrame_def)

lemma levelFrame_moved: "levelFrame w w' \<Longrightarrow> moved w w' still"
  by (rule moved_frame) (auto simp: levelFrame_def)

lemma levelFrame_keeps:
  assumes "levelFrame w w'"
  shows "wallets w' = wallets w" "coinLedger w' = coinLedger w" "pointLedger w' = pointLedger w"
    "users w' = users w" "clock w' = clock w" "nextId w' = nextId w" "redisUp w' = redisUp w"
    "coinCache w' = coinCache w" "pointCache w' = pointCache w" "levelConfigs w' = levelConfigs w"
  using assms by (auto simp: levelFrame_def)

lemma getThresholds_frame: "getThresholds lt w = (ts, w') \<Longrightarrow> levelFrame w w' \<and> userLevels w' = userLevels w
    \<and> locks w' = locks w \<and> levelCache w' = levelCache w \<and> activeThresholds w' = activeThresholds w"
proof -
  assume g: "getThresholds lt w = (ts, w')"
  then have w': "w' = w \<or> redisUp w \<and> levelConfigCache w lt = None
      \<and> w' = w\<lparr>levelConfigCache := (levelConfigCache w)(lt \<mapsto> levelConfigs w lt)\<rparr>"
    by (auto simp: getThresholds_def Let_def split: option.splits if_splits)
  have "levelFrame w w'"
    by (rule levelFrame_I [where rows = "userLevels w" and cc = "levelConfigCache w'" and lc = "levelCache w" and ls = "locks w"])
      (use w' in auto)
  moreover have "activeThresholds w' = activeThresholds w"
    using w' by (auto simp: fun_eq_iff activeThresholds_def getThresholds_def Let_def
        split: option.split if_splits)
  ultimately show ?thesis using w' by auto
qed

lemma levelGetOrCreate_eq:
  "levelGetOrCreate u lt lck w =
     Inr (currentRow w u lt,
       w\<lparr>userLevels := (userLevels w)((u, lt) \<mapsto> currentRow w u lt),
         locks := locks w @ (if lck then [LevelLock lt u] else [])\<rparr>)"
  by (auto simp: levelGetOrCreate_def ensureRow_def findRow_def currentRow_def fun_upd_idem split: option.split)

lemma activeThresholds_indep [simp]:
  "activeThresholds (w\<lparr>userLevels := x\<rparr>) = activeThresholds w"
  "activeThresholds (w\<lparr>locks := l\<rparr>) = activeThresholds w"
  "activeThresholds (w\<lparr>levelCache := lc\<rparr>) = activeThresholds w"
  by (auto simp: fun_eq_iff activeThresholds_def getThresholds_def Let_def split: option.split)

lemma level_write:
  assumes "getThresholds lt (w\<lparr>userLevels := (userLevels w)((u, lt) \<mapsto> row), locks := ls\<rparr>) = (ts, w2)"
  shows "ts = activeThresholds w lt"
    and "levelFrame w (levelUpdate u lt lev cum w2)"
    and "userLevels (levelUpdate u lt lev cum w2) = (userLevels w)((u, lt) \<mapsto> (lev, cum))"
    and "locks (levelUpdate u lt lev cum w2) = ls"
    and "activeThresholds (levelUpdate u lt lev cum w2) = activeThresholds w"
proof -
  let ?w1 = "w\<lparr>userLevels := (userLevels w)((u, lt) \<mapsto> row), locks := ls\<rparr>"
  note f = getThresholds_frame [OF assms]
  have "ts = activeThresholds ?w1 lt" using assms unfolding activeThresholds_def by simp
  then show "ts = activeThresholds w lt" by simp
  have "levelFrame w ?w1"
    by (rule levelFrame_I [where cc = "levelConfigCache w" and lc = "levelCache w"]) simp
  moreover have "levelFrame w2 (levelUpdate u lt lev cum w2)"
    by (rule levelFrame_I [where cc = "levelConfigCache w2" and lc = "levelCache w2" and ls = "locks w2"])
      (simp add: levelUpdate_def)
  ultimately show "levelFrame w (levelUpdate u lt lev cum w2)"
    using f levelFrame_trans by blast
  show "userLevels (levelUpdate u lt lev cum w2) = (userLevels w)((u, lt) \<mapsto> (lev, cum))"
    "locks (levelUpdate u lt lev cum w2) = ls"
    "activeThresholds (levelUpdate u lt lev cum w2) = activeThresholds w"
    using f by (simp_all add: levelUpdate_def)
qed

text \<open>Every level operation inside a transaction succeeds, locks the row, and writes only that row.\<close>

lemma applyCredit_effect:
  obtains w' where
    "applyCredit u lt inc w =
       Inr (\<lparr> newLevel = computeLevel (snd (currentRow w u lt) + inc) (activeThresholds w lt),
             previousLevel = fst (currentRow w u lt),
             newCumulative = snd (currentRow w u lt) + inc \<rparr>, w')"
    "levelFrame w w'"
    "userLevels w' = (userLevels w)((u, lt) \<mapsto>
       (computeLevel (snd (currentRow w u lt) + inc) (activeThresholds w lt), snd (currentRow w u lt) + inc))"
    "locks w' = locks w @ [LevelLock lt u]"
    "activeThresholds w' = activeThresholds w"
proof -
  let ?w1 = "w\<lparr>userLevels := (userLevels w)((u, lt) \<mapsto> currentRow w u lt), locks := locks w @ [LevelLock lt u]\<rparr>"
  obtain ts w2 where g: "getThresholds lt ?w1 = (ts, w2)" by fastforce
  from level_write [OF g] show thesis
    using that by (simp add: applyCredit_def levelGetOrCreate_eq Let_def g)
qed

lemma applyDebit_effect:
  assumes "0 < decr"
  obtains w' where
    "applyDebit u lt decr w =
       Inr (\<lparr> newLevel = computeLevel (max 0 (snd (currentRow w u lt) - decr)) (activeThresholds w lt),
             previousLevel = fst (currentRow w u lt),
             newCumulative = max 0 (snd (currentRow w u lt) - decr) \<rparr>, w')"
    "levelFrame w w'"
    "userLevels w' = (userLevels w)((u, lt) \<mapsto>
       (computeLevel (max 0 (snd (currentRow w u lt) - decr)) (activeThresholds w lt),
        max 0 (snd (currentRow w u lt) - decr)))"
    "locks w' = locks w @ [LevelLock lt u]"
    "activeThresholds w' = activeThresholds w"
proof -
  let ?w1 = "w\<lparr>userLevels := (userLevels w)((u, lt) \<mapsto> currentRow w u lt), locks := locks w @ [LevelLock lt u]\<rparr>"
  obtain ts w2 where g: "getThresholds lt ?w1 = (ts, w2)" by fastforce
  have m: "(if snd (currentRow w u lt) > decr then snd (currentRow w u lt) - decr else 0)
      = max 0 (snd (currentRow w u lt) - decr)" by auto
  from level_write [OF g] show thesis
    using that assms by (simp add: applyDebit_def levelGetOrCreate_eq Let_def g m)
qed

lemma applyCredit_levelFrame: "applyCredit u lt inc w = Inr (r, w') \<Longrightarrow> levelFrame w w'"
  by (rule applyCredit_effect [of u lt inc w]) simp

lemma applyCredit_locks: "applyCredit u lt inc w = Inr (r, w') \<Longrightarrow> locks w' = locks w @ [LevelLock lt u]"
  by (rule applyCredit_effect [of u lt inc w]) simp

section \<open>Properties\<close>

text \<open>
  C28. Experience added by \<open>applyCredit\<close> is taken back exactly by \<open>applyDebit\<close> of the same amount:
  the user's row (level and cumulative total) is the one before, whenever that row was consistent
  with the thresholds. Both operations succeed, and leave the two ledgers and every other level row
  alone.
\<close>

theorem applyDebit_undoes_applyCredit:
  assumes row: "userLevels w (u, lt) = Some (computeLevel c (activeThresholds w lt), c)"
    and c: "0 \<le> c" and amt: "0 < amt"
  shows "\<exists>r1 w1 r2 w2. applyCredit u lt amt w = Inr (r1, w1) \<and> applyDebit u lt amt w1 = Inr (r2, w2)
    \<and> newCumulative r1 = c + amt \<and> newLevel r2 = previousLevel r1
    \<and> userLevels w2 = userLevels w \<and> coinLedger w2 = coinLedger w \<and> pointLedger w2 = pointLedger w"
proof -
  have cur: "currentRow w u lt = (computeLevel c (activeThresholds w lt), c)"
    using row by (simp add: currentRow_def)
  obtain r1 w1 where
    a: "applyCredit u lt amt w = Inr (r1, w1)" "newCumulative r1 = c + amt"
       "previousLevel r1 = computeLevel c (activeThresholds w lt)" "levelFrame w w1"
       "activeThresholds w1 = activeThresholds w"
       "userLevels w1 = (userLevels w)((u, lt) \<mapsto> (computeLevel (c + amt) (activeThresholds w lt), c + amt))"
    by (rule applyCredit_effect [of u lt amt w]) (auto simp: cur)
  have cur1: "snd (currentRow w1 u lt) = c + amt" by (simp add: currentRow_def a(6))
  obtain r2 w2 where
    b: "applyDebit u lt amt w1 = Inr (r2, w2)" "newLevel r2 = computeLevel c (activeThresholds w lt)"
       "levelFrame w1 w2"
       "userLevels w2 = (userLevels w1)((u, lt) \<mapsto> (computeLevel c (activeThresholds w lt), c))"
    by (rule applyDebit_effect [OF amt, of u lt w1]) (use c in \<open>auto simp: cur1 a(5)\<close>)
  have "userLevels w2 = userLevels w" using row by (simp add: b(4) a(6) fun_eq_iff)
  then show ?thesis
    using a b levelFrame_keeps [OF a(4)] levelFrame_keeps [OF b(3)] by auto
qed

definition sampleLevelWorld :: world where
  "sampleLevelWorld = emptyWorld\<lparr>
     levelConfigs := (\<lambda>_. sampleThresholds), userLevels := [(7, WEALTH) \<mapsto> (2, 120)]\<rparr>"

theorem applyDebit_undoes_applyCredit_witness:
  "\<exists>r1 w1 r2 w2. applyCredit 7 WEALTH 400 sampleLevelWorld = Inr (r1, w1)
    \<and> applyDebit 7 WEALTH 400 w1 = Inr (r2, w2) \<and> newCumulative r1 = 120 + 400
    \<and> newLevel r2 = previousLevel r1
    \<and> userLevels w2 = userLevels sampleLevelWorld \<and> coinLedger w2 = coinLedger sampleLevelWorld
    \<and> pointLedger w2 = pointLedger sampleLevelWorld"
  by (rule applyDebit_undoes_applyCredit)
    (simp_all add: sampleLevelWorld_def activeThresholds_def getThresholds_def emptyWorld_def
      sampleThresholds_def computeLevel_def Let_def)

lemma ladder_last: "ladder ts \<Longrightarrow> fst (last ts) = int (length ts)"
  using ladder_nth [of ts "length ts - 1"]
  by (cases ts rule: rev_cases) (auto simp: ladder_def last_conv_nth)

lemma setLevelTx_eq:
  "setLevelTx u lt th ts w =
     (if snd (currentRow w u lt) = th then Inl (AppError 400 ''LEVEL_ALREADY_AT_TARGET'' [])
      else Inr (\<lparr> newLevel = computeLevel th ts, previousLevel = fst (currentRow w u lt), newCumulative = th \<rparr>,
        w\<lparr>userLevels := (userLevels w)((u, lt) \<mapsto> (computeLevel th ts, th)),
          locks := locks w @ [LevelLock lt u]\<rparr>))"
  by (simp add: setLevelTx_def levelGetOrCreate_eq levelUpdate_def Let_def)

text \<open>
  On a ladder the admin operation \<open>setLevel\<close> succeeds exactly for the levels 1 to n that the user
  is not at the start of already; the user then stands at the start of exactly the target level,
  and the cached snapshot is gone, so that the next read reloads the row.
\<close>

theorem setLevel_reaches_target:
  assumes lad: "ladder (activeThresholds w lt)"
  shows "if 1 \<le> lev \<and> lev \<le> int (length (activeThresholds w lt)) then
      (let th = snd (activeThresholds w lt ! nat (lev - 1)) in
       if snd (currentRow w u lt) = th then setLevel u lt lev w = Inl (AppError 400 ''LEVEL_ALREADY_AT_TARGET'' [])
       else \<exists>r snap w'. setLevel u lt lev w = Inr ((r, snap), w') \<and> newLevel r = lev
         \<and> userLevels w' = (userLevels w)((u, lt) \<mapsto> (lev, th))
         \<and> snap_currentLevel snap = lev \<and> snap_progressNumerator snap = 0
         \<and> (redisUp w \<longrightarrow> levelCache w' (u, lt) = None))
    else setLevel u lt lev w = Inl (AppError 400 ''INVALID_TARGET_LEVEL'' [])"
proof -
  let ?ts = "activeThresholds w lt" let ?i = "nat (lev - 1)"
  obtain w1 where g: "getThresholds lt w = (?ts, w1)"
    by (cases "getThresholds lt w") (simp add: activeThresholds_def)
  note f = getThresholds_frame [OF g]
  have cur: "currentRow w1 u lt = currentRow w u lt" using f by (simp add: currentRow_def)
  note unf = setLevel_def Let_def g ladder_last [OF lad] ladder_thresholdOf [OF lad] setLevelTx_eq cur
  have ne: "?ts \<noteq> []" using lad by (simp add: ladder_def)
  show ?thesis
  proof (cases "1 \<le> lev \<and> lev \<le> int (length ?ts)")
    case False
    then show ?thesis using ne by (auto simp: unf)
  next
    case True
    show ?thesis
    proof (cases "snd (currentRow w u lt) = snd (?ts ! ?i)")
      case yes: True
      then show ?thesis using True ne by (simp add: unf)
    next
      case no: False
      let ?th = "snd (?ts ! ?i)"
      have lev: "computeLevel ?th ?ts = lev"
        using ladder_computeLevel [OF lad, of ?i ?th] ladder_less [OF lad, of ?i "Suc ?i"] True by auto
      let ?w2 = "w1\<lparr>userLevels := (userLevels w)((u, lt) \<mapsto> (lev, ?th)), locks := locks w @ [LevelLock lt u]\<rparr>"
      obtain ts3 w3 where g3: "getThresholds lt ?w2 = (ts3, w3)" by fastforce
      note f3 = getThresholds_frame [OF g3]
      have "ts3 = activeThresholds ?w2 lt" using g3 unfolding activeThresholds_def by simp
      then have ts3: "ts3 = ?ts" using f by simp
      have "redisUp w3 = redisUp w" using f f3 levelFrame_keeps(7) by fastforce
      then show ?thesis
        using True no ne lev f f3
        by (auto simp: unf refreshCache_def g3 ts3 buildSnapshot_def invalidateCache_def)
    qed
  qed
qed

theorem setLevel_reaches_target_witness:
  "\<exists>r snap w'. setLevel 7 WEALTH 4 sampleLevelWorld = Inr ((r, snap), w') \<and> newLevel r = 4
     \<and> userLevels w' = (userLevels sampleLevelWorld)((7, WEALTH) \<mapsto> (4, 2000))
     \<and> snap_currentLevel snap = 4 \<and> snap_progressNumerator snap = 0 \<and> levelCache w' (7, WEALTH) = None"
proof -
  have ts: "activeThresholds sampleLevelWorld WEALTH = sampleThresholds"
    by (simp add: sampleLevelWorld_def activeThresholds_def getThresholds_def emptyWorld_def Let_def)
  have "ladder sampleThresholds" by (simp add: ladder_def sampleThresholds_def upto.simps)
  then show ?thesis
    using setLevel_reaches_target [of sampleLevelWorld WEALTH 4 7] unfolding ts
    by (simp add: sampleThresholds_def currentRow_def sampleLevelWorld_def emptyWorld_def Let_def)
qed

end
