(* ===== verification/WalletService.thy ===== *)
theory WalletService
  imports Levels
begin

text \<open>
  The balance caches and the Redis idempotency keys of \<open>src/src/services/wallet.service.ts\<close>, over
  the repositories of \<open>Ledger\<close>. Redis calls that fail are swallowed where the code swallows them
  (the caches) and thrown where it does not (the idempotency keys).
\<close>

section \<open>Balances\<close>

definition coinComputeBalance :: "wid \<Rightarrow> world \<Rightarrow> int" where
  "coinComputeBalance i w = latestBalance (coinLedger w) i"

definition pointComputeBalance :: "wid \<Rightarrow> world \<Rightarrow> int" where
  "pointComputeBalance i w = latestBalance (pointLedger w) i"

definition getCoinBalance :: "uid \<Rightarrow> world \<Rightarrow> int \<times> world" where
  "getCoinBalance u w =
     (case (if redisUp w then coinCache w u else None) of
        Some b \<Rightarrow> (b, w)
      | None \<Rightarrow>
          (let (wl, w1) = getOrCreate u COIN w;
               balance = coinComputeBalance (wallet_id wl) w1
           in (balance, if redisUp w1 then w1\<lparr>coinCache := (coinCache w1)(u \<mapsto> balance)\<rparr> else w1)))"

definition getPointBalance :: "uid \<Rightarrow> world \<Rightarrow> int \<times> world" where
  "getPointBalance u w =
     (case (if redisUp w then pointCache w u else None) of
        Some b \<Rightarrow> (b, w)
      | None \<Rightarrow>
          (let (wl, w1) = getOrCreate u POINT w;
               balance = pointComputeBalance (wallet_id wl) w1
           in (balance, if redisUp w1 then w1\<lparr>pointCache := (pointCache w1)(u \<mapsto> balance)\<rparr> else w1)))"

definition writeCoinBalanceCache :: "uid \<Rightarrow> int \<Rightarrow> world \<Rightarrow> world" where
  "writeCoinBalanceCache u absolute w =
     (if redisUp w then w\<lparr>coinCache := (coinCache w)(u \<mapsto> absolute)\<rparr> else w)"

definition writePointBalanceCache :: "uid \<Rightarrow> int \<Rightarrow> world \<Rightarrow> world" where
  "writePointBalanceCache u absolute w =
     (if redisUp w then w\<lparr>pointCache := (pointCache w)(u \<mapsto> absolute)\<rparr> else w)"

text \<open>The delta is not used: without an absolute balance the key is dropped.\<close>

definition adjustCoinBalanceCache :: "uid \<Rightarrow> int \<Rightarrow> int option \<Rightarrow> world \<Rightarrow> world" where
  "adjustCoinBalanceCache u delta absolute w =
     (case absolute of
        Some b \<Rightarrow> writeCoinBalanceCache u b w
      | None \<Rightarrow> if redisUp w then w\<lparr>coinCache := (coinCache w)(u := None)\<rparr> else w)"

definition adjustPointBalanceCache :: "uid \<Rightarrow> int \<Rightarrow> int option \<Rightarrow> world \<Rightarrow> world" where
  "adjustPointBalanceCache u delta absolute w =
     (case absolute of
        Some b \<Rightarrow> writePointBalanceCache u b w
      | None \<Rightarrow> if redisUp w then w\<lparr>pointCache := (pointCache w)(u := None)\<rparr> else w)"

definition bustUnconfirmedCache :: "uid \<Rightarrow> world \<Rightarrow> world" where
  "bustUnconfirmedCache u w =
     (if redisUp w then w\<lparr>unconfirmedCache := (unconfirmedCache w)(u := None)\<rparr> else w)"

section \<open>Idempotency keys\<close>

definition redisError :: error where
  "redisError = OtherError ''redis unavailable''"

definition acquireIdemKey :: "string \<Rightarrow> world \<Rightarrow> error + bool \<times> world" where
  "acquireIdemKey key w =
     (if \<not> redisUp w then Inl redisError
      else case idemKeys w key of
        Some _ \<Rightarrow> Inr (False, w)
      | None \<Rightarrow> Inr (True, w\<lparr>idemKeys := (idemKeys w)(key \<mapsto> Processing)\<rparr>))"

definition resolveIdemKey :: "string \<Rightarrow> json \<Rightarrow> world \<Rightarrow> error + unit \<times> world" where
  "resolveIdemKey key response w =
     (if \<not> redisUp w then Inl redisError
      else Inr ((), w\<lparr>idemKeys := (idemKeys w)(key \<mapsto> Resolved response)\<rparr>))"

definition getCachedIdemResponse :: "string \<Rightarrow> world \<Rightarrow> error + json option" where
  "getCachedIdemResponse key w =
     (if \<not> redisUp w then Inl redisError
      else Inr (case idemKeys w key of Some (Resolved j) \<Rightarrow> Some j | _ \<Rightarrow> None))"

section \<open>The tail read is the sum\<close>

text \<open>
  C8. In every well-formed world the tail read of \<open>computeBalance\<close> equals the direction-adjusted sum
  of the rows of the wallet, for coins, and for points the same sum with the escrow marks of
  withdrawals left out; no balance is negative.
\<close>

theorem computeBalance_is_sum:
  assumes "Ledger.wf w"
  shows "coinComputeBalance i w =
      (\<Sum>r\<leftarrow>rowsOf (coinLedger w) i. if direction r = CREDIT then amount r else - amount r)
    \<and> pointComputeBalance i w =
      (\<Sum>r\<leftarrow>filter (\<lambda>r. txType r \<noteq> P_WITHDRAWAL_ESCROW) (rowsOf (pointLedger w) i).
         if direction r = CREDIT then amount r else - amount r)
    \<and> 0 \<le> coinComputeBalance i w \<and> 0 \<le> pointComputeBalance i w"
proof -
  have "coinDelta = (\<lambda>r. if direction r = CREDIT then amount r else - amount r)"
    by (auto simp: fun_eq_iff coinDelta_def split: LedgerDirection.split)
  moreover have "(\<Sum>r\<leftarrow>rs. pointDelta r) = (\<Sum>r\<leftarrow>filter (\<lambda>r. txType r \<noteq> P_WITHDRAWAL_ESCROW) rs.
         if direction r = CREDIT then amount r else - amount r)" for rs
    by (induction rs) (auto simp: pointDelta_def split: LedgerDirection.split)
  ultimately show ?thesis
    using coin_ledger.tail_is_sum [OF assms] point_ledger.tail_is_sum [OF assms]
      coin_ledger.tail_nonneg [OF assms] point_ledger.tail_nonneg [OF assms]
    by (simp add: coinComputeBalance_def pointComputeBalance_def)
qed

definition sampleLedgerWorld :: world where
  "sampleLedgerWorld = emptyWorld\<lparr>
     wallets := [\<lparr>wallet_id = 0, wallet_user = 7, wallet_currency = COIN, wallet_version = 2,
                  unconfirmedPoints = 0\<rparr>,
                 \<lparr>wallet_id = 1, wallet_user = 7, wallet_currency = POINT, wallet_version = 2,
                  unconfirmedPoints = 30\<rparr>],
     coinLedger := [(newEntry 0 CREDIT C_TOPUP 500 500 ''a'')\<lparr>entry_id := 2, createdAt := 10\<rparr>,
                    (newEntry 0 DEBIT C_GIFT_SEND 120 380 ''b'')\<lparr>entry_id := 3, createdAt := 20\<rparr>],
     pointLedger := [(newEntry 1 CREDIT P_GIFT_RECEIVE 70 70 ''c'')\<lparr>entry_id := 4, createdAt := 10\<rparr>,
                     (newEntry 1 DEBIT P_WITHDRAWAL_ESCROW 30 70 ''d'')\<lparr>entry_id := 5, createdAt := 15\<rparr>],
     nextId := 6, clock := 30\<rparr>"

lemma sampleLedgerWorld_wf: "Ledger.wf sampleLedgerWorld"
  by (simp add: Ledger.wf_def sampleLedgerWorld_def emptyWorld_def walletsInv_def ledgerInv_def
      newEntry_def coinDelta_def pointDelta_def)

theorem computeBalance_is_sum_witness:
  "coinComputeBalance 0 sampleLedgerWorld = 380 \<and> pointComputeBalance 1 sampleLedgerWorld = 70"
  using computeBalance_is_sum [OF sampleLedgerWorld_wf, of 0] computeBalance_is_sum [OF sampleLedgerWorld_wf, of 1]
  by (simp add: sampleLedgerWorld_def emptyWorld_def newEntry_def)

section \<open>Cache reads\<close>

text \<open>A cached coin balance is coherent when it is the balance of the ledger.\<close>

definition coinCacheCoherent :: "world \<Rightarrow> bool" where
  "coinCacheCoherent w \<longleftrightarrow> (\<forall>u b. coinCache w u = Some b \<longrightarrow> b = balanceOf w (u, COIN))"

lemma computeBalance_balanceOf:
  "Ledger.wf w \<Longrightarrow> wl \<in> set (wallets w) \<Longrightarrow> wallet_currency wl \<noteq> POINT \<Longrightarrow>
     coinComputeBalance (wallet_id wl) w = balanceOf w (wallet_user wl, wallet_currency wl)"
  by (simp add: balanceOf_wallet coinComputeBalance_def walletBalance_def latestCoinBalance_def)

lemma pointComputeBalance_balanceOf:
  "Ledger.wf w \<Longrightarrow> wl \<in> set (wallets w) \<Longrightarrow> wallet_currency wl = POINT \<Longrightarrow>
     pointComputeBalance (wallet_id wl) w = balanceOf w (wallet_user wl, POINT)"
  using balanceOf_wallet [of w wl] by (simp add: pointComputeBalance_def walletBalance_def latestPointBalance_def)

text \<open>
  C27. With a coherent cache \<open>getCoinBalance\<close> returns the balance of the ledger, with Redis up or down,
  on a hit and on a miss; it moves no money and leaves the cache coherent.
\<close>

theorem getCoinBalance_coherent:
  assumes wf: "Ledger.wf w" and coh: "coinCacheCoherent w"
    and get: "getCoinBalance u w = (b, w')"
  shows "b = balanceOf w (u, COIN) \<and> Ledger.wf w' \<and> coinCacheCoherent w'
    \<and> (\<forall>a. balanceOf w' a = balanceOf w a)"
proof (cases "if redisUp w then coinCache w u else None")
  case (Some x)
  then show ?thesis using assms by (auto simp: getCoinBalance_def coinCacheCoherent_def split: if_splits)
next
  case None
  obtain wl w1 where g: "getOrCreate u COIN w = (wl, w1)" by fastforce
  have wf1: "Ledger.wf w1" and same: "balanceOf w1 a = balanceOf w a" for a
    using moved_wf [OF getOrCreate_moved [OF g] wf] moved_bal [OF getOrCreate_moved [OF g] wf] by simp_all
  have b: "coinComputeBalance (wallet_id wl) w1 = balanceOf w (u, COIN)"
    using computeBalance_balanceOf [OF wf1, of wl] getOrCreate_wallet [OF g] same by simp
  let ?w2 = "w1\<lparr>coinCache := (coinCache w1)(u \<mapsto> balanceOf w (u, COIN))\<rparr>"
  have m: "moved w1 ?w2 still" by (rule moved_frame) simp_all
  have c1: "coinCache w1 = coinCache w"
    using g by (auto simp: getOrCreate_def Let_def split: option.splits)
  have "w' = (if redisUp w1 then ?w2 else w1)" "b = balanceOf w (u, COIN)"
    using get None b g by (auto simp: getCoinBalance_def Let_def split: if_splits)
  then show ?thesis
    using moved_wf [OF m wf1] moved_bal [OF m wf1] wf1 same c1 coh by (auto simp: coinCacheCoherent_def)
qed

theorem getCoinBalance_coherent_witness:
  "fst (getCoinBalance 7 sampleLedgerWorld) = balanceOf sampleLedgerWorld (7, COIN)
   \<and> balanceOf sampleLedgerWorld (7, COIN) = 380"
proof -
  have "coinCacheCoherent sampleLedgerWorld"
    by (simp add: coinCacheCoherent_def sampleLedgerWorld_def emptyWorld_def)
  from getCoinBalance_coherent [OF sampleLedgerWorld_wf this,
      of 7 "fst (getCoinBalance 7 sampleLedgerWorld)" "snd (getCoinBalance 7 sampleLedgerWorld)"]
  show ?thesis
    by (simp add: balanceOf_def findWallet_def walletBalance_def latestCoinBalance_def latestBalance_def
        sampleLedgerWorld_def emptyWorld_def newEntry_def)
qed

end
