(* ===== verification/CoinWallet.thy ===== *)
theory CoinWallet
  imports WalletService
begin

text \<open>
  Spending and receiving coins: \<open>src/src/services/coin-wallet.service.ts\<close>. \<open>debit\<close> and \<open>credit\<close> are
  the generic operations, idempotent on their key; the four purchase debits (creator subscription,
  guardian, store item, rare ID) share one body and differ in what they record. A purchase called
  without an outer transaction commits and then drops the balance and level caches.
\<close>

section \<open>Operations\<close>

definition USERNAME_CHANGE_COIN_COST :: int where
  "USERNAME_CHANGE_COIN_COST = 10000"

definition isDiamondLedgerMovement :: "WalletCurrencyType \<Rightarrow> CoinTxType \<Rightarrow> bool" where
  "isDiamondLedgerMovement c tt \<longleftrightarrow> c = DIAMOND \<or> tt \<in> {C_DIAMOND_PURCHASE_OUT, C_DIAMOND_REDEEM_IN}"

definition enqueuePlatformLedgerMessage :: "string \<Rightarrow> nat \<Rightarrow> world \<Rightarrow> world" where
  "enqueuePlatformLedgerMessage kind i w = w\<lparr>messageQueue := messageQueue w @ [(kind, i)]\<rparr>"

definition applyWealthSpendXp :: "uid \<Rightarrow> int \<Rightarrow> bool \<Rightarrow> world \<Rightarrow> error + LevelApplyResult option \<times> world" where
  "applyWealthSpendXp u amt applyWealthXp w =
     (if \<not> applyWealthXp then Inr (None, w)
      else andThen (applyCredit u WEALTH amt w) (\<lambda>(r, w1). Inr (Some r, w1)))"

definition insufficientCoins :: "int \<Rightarrow> int \<Rightarrow> error" where
  "insufficientCoins required balance =
     AppError 402 ''INSUFFICIENT_COINS'' [(''required'', JBig required), (''balance'', JBig balance)]"

record coin_options =
  o_idempotencyKey :: string
  o_description :: "string option"
  o_metadata :: "json option"
  o_counterpartyId :: "uid option"
  o_currencyType :: "WalletCurrencyType option"
  o_applyWealth :: bool
  o_freezeCheck :: bool

abbreviation currencyOf :: "coin_options \<Rightarrow> WalletCurrencyType" where
  "currencyOf opts \<equiv> (case o_currencyType opts of None \<Rightarrow> COIN | Some c \<Rightarrow> c)"

record coin_result =
  ledgerEntryId :: nat
  res_balanceAfter :: int
  levelResult :: "LevelApplyResult option"

definition debit ::
  "uid \<Rightarrow> int \<Rightarrow> CoinTxType \<Rightarrow> coin_options \<Rightarrow> world \<Rightarrow> error + coin_result \<times> world" where
  "debit u amt tt opts w =
     andThen (assertPositiveAmount amt) (\<lambda>_.
     case findByIdempotencyKey (coinLedger w) (o_idempotencyKey opts) of
       Some e \<Rightarrow> Inr (\<lparr> ledgerEntryId = entry_id e, res_balanceAfter = balanceAfter e, levelResult = None \<rparr>, w)
     | None \<Rightarrow>
         (let c = currencyOf opts; (wl, w1) = getOrCreate u c w in
          andThen (require (\<not> (c = COIN \<and> wallet_currency wl = TRADING_COIN))
             (AppError 403 ''TRADING_COIN_NOT_SPENDABLE'' [])) (\<lambda>_.
          let w2 = snd (lockForUpdate (wallet_id wl) w1) in
          andThen (if o_freezeCheck opts then assertCoinDebitAllowed u c w2 else Inr ()) (\<lambda>_.
          let balance = latestCoinBalance w2 (wallet_id wl) in
          andThen (require (\<not> balance < amt) (insufficientCoins amt balance)) (\<lambda>_.
          andThen (coinInsert
             ((newEntry (wallet_id wl) DEBIT tt amt (balance - amt) (o_idempotencyKey opts))
                \<lparr>counterpartyId := o_counterpartyId opts, description := o_description opts,
                 metadata := o_metadata opts\<rparr>) w2) (\<lambda>(e, w3).
          let w4 = bumpVersion (wallet_id wl) w3 in
          andThen (applyWealthSpendXp u amt (o_applyWealth opts \<and> c = COIN) w4) (\<lambda>(lr, w5).
          Inr (\<lparr> ledgerEntryId = entry_id e, res_balanceAfter = balanceAfter e, levelResult = lr \<rparr>,
               if isDiamondLedgerMovement c tt then w5
               else enqueuePlatformLedgerMessage ''coin'' (entry_id e) w5))))))))"

definition credit ::
  "uid \<Rightarrow> int \<Rightarrow> CoinTxType \<Rightarrow> coin_options \<Rightarrow> world \<Rightarrow> error + coin_result \<times> world" where
  "credit u amt tt opts w =
     andThen (assertPositiveAmount amt) (\<lambda>_.
     case findByIdempotencyKey (coinLedger w) (o_idempotencyKey opts) of
       Some e \<Rightarrow> Inr (\<lparr> ledgerEntryId = entry_id e, res_balanceAfter = balanceAfter e, levelResult = None \<rparr>, w)
     | None \<Rightarrow>
         (let c = currencyOf opts; (wl, w1) = getOrCreate u c w;
              w2 = snd (lockForUpdate (wallet_id wl) w1);
              newBalance = latestCoinBalance w2 (wallet_id wl) + amt in
          andThen (applyWealthSpendXp u amt (o_applyWealth opts \<and> c = COIN) w2) (\<lambda>(lr, w3).
          andThen (coinInsert
             ((newEntry (wallet_id wl) CREDIT tt amt newBalance (o_idempotencyKey opts))
                \<lparr>counterpartyId := o_counterpartyId opts, description := o_description opts,
                 metadata := o_metadata opts\<rparr>) w3) (\<lambda>(e, w4).
          let w5 = bumpVersion (wallet_id wl) w4 in
          Inr (\<lparr> ledgerEntryId = entry_id e, res_balanceAfter = balanceAfter e, levelResult = lr \<rparr>,
               if isDiamondLedgerMovement c tt then w5
               else enqueuePlatformLedgerMessage ''coin'' (entry_id e) w5)))))"

subsection \<open>Purchases\<close>

text \<open>
  The body that \<open>debitForCreatorSubscription\<close>, \<open>debitForGuardianPurchase\<close>,
  \<open>debitForStoreItemPurchase\<close> and \<open>debitForVipPurchase\<close> share (their local function \<open>run\<close>).
\<close>

definition purchaseRun ::
  "uid \<Rightarrow> int \<Rightarrow> CoinTxType \<Rightarrow> coin_options \<Rightarrow> world \<Rightarrow> error + LevelApplyResult option \<times> world" where
  "purchaseRun u amt tt opts w =
     (let (wl, w1) = getOrCreate u COIN w;
          w2 = snd (lockForUpdate (wallet_id wl) w1);
          balance = latestCoinBalance w2 (wallet_id wl) in
      andThen (require (\<not> balance < amt) (insufficientCoins amt balance)) (\<lambda>_.
      andThen (coinInsert
         ((newEntry (wallet_id wl) DEBIT tt amt (balance - amt) (o_idempotencyKey opts))
            \<lparr>counterpartyId := o_counterpartyId opts, description := o_description opts,
             metadata := o_metadata opts\<rparr>) w2) (\<lambda>(e, w3).
      applyWealthSpendXp u amt (o_applyWealth opts) (bumpVersion (wallet_id wl) w3))))"

text \<open>\<open>inTx\<close>: the caller passed its own transaction and takes care of the caches.\<close>

definition purchase ::
  "bool \<Rightarrow> uid \<Rightarrow> int \<Rightarrow> CoinTxType \<Rightarrow> coin_options \<Rightarrow> world \<Rightarrow> error + LevelApplyResult option \<times> world" where
  "purchase inTx u amt tt opts w =
     andThen (assertCoinDebitAllowed u COIN w) (\<lambda>_.
     andThen (purchaseRun u amt tt opts w) (\<lambda>(lr, w1).
     if inTx then Inr (lr, w1)
     else Inr (lr, syncLevelCacheFromApplyResult u WEALTH lr (adjustCoinBalanceCache u amt None w1))))"

definition purchaseOptions ::
  "string \<Rightarrow> string \<Rightarrow> string option \<Rightarrow> json \<Rightarrow> uid \<Rightarrow> bool \<Rightarrow> coin_options" where
  "purchaseOptions key dflt descr meta other xp =
     \<lparr> o_idempotencyKey = key, o_description = Some (case descr of None \<Rightarrow> dflt | Some d \<Rightarrow> d),
       o_metadata = Some meta, o_counterpartyId = Some other, o_currencyType = None,
       o_applyWealth = xp, o_freezeCheck = True \<rparr>"

definition debitForCreatorSubscription ::
  "bool \<Rightarrow> uid \<Rightarrow> int \<Rightarrow> uid \<Rightarrow> string \<Rightarrow> string \<Rightarrow> string option \<Rightarrow> bool \<Rightarrow> world
     \<Rightarrow> error + LevelApplyResult option \<times> world" where
  "debitForCreatorSubscription inTx u amt creatorId subscriptionId key descr xp w =
     purchase inTx u amt C_CREATOR_SUBSCRIPTION
       (purchaseOptions key ''Creator subscription'' descr
          (JObj [(''creatorId'', JStr (show_nat creatorId)), (''subscriptionId'', JStr subscriptionId)])
          creatorId xp) w"

definition debitForGuardianPurchase ::
  "bool \<Rightarrow> uid \<Rightarrow> int \<Rightarrow> uid \<Rightarrow> string \<Rightarrow> string option \<Rightarrow> bool \<Rightarrow> world
     \<Rightarrow> error + LevelApplyResult option \<times> world" where
  "debitForGuardianPurchase inTx u amt targetUserId key descr xp w =
     purchase inTx u amt C_GUARDIAN_PURCHASE
       (purchaseOptions key ''Guardian purchase'' descr
          (JObj [(''targetUserId'', JStr (show_nat targetUserId))]) targetUserId xp) w"

definition debitForStoreItemPurchase ::
  "bool \<Rightarrow> uid \<Rightarrow> int \<Rightarrow> uid \<Rightarrow> string \<Rightarrow> string \<Rightarrow> string option \<Rightarrow> bool \<Rightarrow> world
     \<Rightarrow> error + LevelApplyResult option \<times> world" where
  "debitForStoreItemPurchase inTx u amt recipientId storeItemId key descr xp w =
     purchase inTx u amt C_STORE_ITEM_PURCHASE
       (purchaseOptions key ''Store item purchase'' descr
          (JObj [(''recipientId'', JStr (show_nat recipientId)), (''storeItemId'', JStr storeItemId)])
          recipientId xp) w"

definition debitForVipPurchase ::
  "bool \<Rightarrow> uid \<Rightarrow> int \<Rightarrow> uid \<Rightarrow> string \<Rightarrow> string \<Rightarrow> string option \<Rightarrow> bool \<Rightarrow> world
     \<Rightarrow> error + LevelApplyResult option \<times> world" where
  "debitForVipPurchase inTx u amt recipientId publicId key descr xp w =
     purchase inTx u amt C_VIP_PURCHASE
       (purchaseOptions key ''Rare ID purchase'' descr
          (JObj [(''recipientId'', JStr (show_nat recipientId)), (''publicId'', JStr publicId)])
          recipientId xp) w"

subsection \<open>Display name change\<close>

text \<open>
  \<open>nameAllowed\<close> stands for the two checks on the name before any money moves (restricted words and
  uniqueness); \<open>uuid\<close> is the random part of the key.
\<close>

definition debitForDisplayNameChange ::
  "(string \<Rightarrow> string option \<Rightarrow> uid \<Rightarrow> world \<Rightarrow> error + unit) \<Rightarrow> string \<Rightarrow> uid \<Rightarrow> string \<Rightarrow> string option
     \<Rightarrow> world \<Rightarrow> error + unit \<times> world" where
  "debitForDisplayNameChange nameAllowed uuid u firstN lastN w =
     andThen (nameAllowed firstN lastN u w) (\<lambda>_.
     andThen (assertCoinDebitAllowed u COIN w) (\<lambda>_.
     let (wl, w1) = getOrCreate u COIN w;
         key = ''username-change:'' @ show_nat u @ '':'' @ uuid;
         w2 = snd (lockForUpdate (wallet_id wl) w1);
         balance = latestCoinBalance w2 (wallet_id wl) in
     andThen (require (\<not> balance < USERNAME_CHANGE_COIN_COST)
        (insufficientCoins USERNAME_CHANGE_COIN_COST balance)) (\<lambda>_.
     andThen (coinInsert
        ((newEntry (wallet_id wl) DEBIT C_USERNAME_CHANGE USERNAME_CHANGE_COIN_COST
            (balance - USERNAME_CHANGE_COIN_COST) key)
           \<lparr>description := Some ''Display name change'',
            metadata := Some (JObj [(''firstName'', JStr firstN),
              (''lastName'', case lastN of None \<Rightarrow> JNull | Some l \<Rightarrow> JStr l)])\<rparr>) w2) (\<lambda>(e, w3).
     let w4 = bumpVersion (wallet_id wl) w3;
         w5 = w4\<lparr>users := (users w4)(u := map_option (\<lambda>r. r\<lparr>firstName := firstN, lastName := lastN,
                usernameUpdatedAt := Some (clock w4)\<rparr>) (users w4 u))\<rparr>
     in Inr ((), adjustCoinBalanceCache u USERNAME_CHANGE_COIN_COST None w5)))))"

section \<open>Posting on the wallet of a user\<close>

lemma getOrCreate_keeps:
  assumes "getOrCreate u c w = (wl, w1)"
  shows "coinLedger w1 = coinLedger w" "pointLedger w1 = pointLedger w" "users w1 = users w"
    "clock w1 = clock w" "redisUp w1 = redisUp w" "coinCache w1 = coinCache w" "locks w1 = locks w"
    "userLevels w1 = userLevels w" "pointCache w1 = pointCache w"
  using assms by (auto simp: getOrCreate_def Let_def split: option.splits)

lemma locked_coin_balance:
  assumes wf: "Ledger.wf w" and g: "getOrCreate u c w = (wl, w1)" and c: "c \<noteq> POINT"
  shows "latestCoinBalance (snd (lockForUpdate i w1)) (wallet_id wl) = balanceOf w (u, c)"
proof -
  have "Ledger.wf w1" "balanceOf w1 (u, c) = balanceOf w (u, c)"
    using moved_wf [OF getOrCreate_moved [OF g] wf] moved_bal [OF getOrCreate_moved [OF g] wf] by simp_all
  then show ?thesis
    using getOrCreate_wallet [OF g] c computeBalance_balanceOf [of w1 wl]
    by (simp add: coinComputeBalance_def latestCoinBalance_def)
qed

lemma coin_post_moved:
  assumes g: "getOrCreate u c w = (wl, w1)" and c: "c \<noteq> POINT"
    and frame: "levelFrame (snd (lockForUpdate i w1)) w2"
    and ins: "coinInsert d w2 = Inr (e, w3)" and wal: "walletId d = wallet_id wl"
    and bal: "balanceAfter d = latestCoinBalance (snd (lockForUpdate i w1)) (wallet_id wl) + coinDelta d"
    and nonneg: "0 \<le> coinDelta d \<or> 0 \<le> balanceAfter d"
  shows "moved w w3 (moving (u, c) (coinDelta d))"
proof -
  note wl = getOrCreate_wallet [OF g]
  have "moved w w2 still"
    using getOrCreate_moved [OF g] lockForUpdate_moved levelFrame_moved [OF frame] by (blast intro: moved_still)
  moreover have "moved w2 w3 (moving (wallet_user wl, wallet_currency wl) (coinDelta d))"
    using wl c wal bal levelFrame_keeps [OF frame]
    by (intro coinInsert_moved [OF ins _ _ _ _ nonneg]) (simp_all add: latestCoinBalance_def)
  ultimately show ?thesis using wl by (auto intro: still_moved)
qed

lemma findByIdempotencyKey_append:
  "findByIdempotencyKey rows (idempotencyKey e) = None \<Longrightarrow>
   findByIdempotencyKey (rows @ [e]) (idempotencyKey e) = Some e"
  by (simp add: findByIdempotencyKey_def find_append)

lemma coinInsert_found:
  "coinInsert d w = Inr (e, w') \<Longrightarrow> findByIdempotencyKey (coinLedger w') (idempotencyKey d) = Some e"
  using findByIdempotencyKey_append [of "coinLedger w" e] by (auto simp: coinInsert_Inr)

lemma coinInsert_total:
  assumes "0 < amount d" "findByIdempotencyKey (coinLedger w) (idempotencyKey d) = None"
  shows "\<exists>e w'. coinInsert d w = Inr (e, w') \<and> balanceAfter e = balanceAfter d"
  using assms by (simp add: coinInsert_Inr)

lemma applyWealthSpendXp_total:
  "\<exists>lr w'. applyWealthSpendXp u amt b w = Inr (lr, w') \<and> levelFrame w w'"
  by (rule applyCredit_effect [of u WEALTH amt w]) (cases b; simp add: applyWealthSpendXp_def levelFrame_refl)

lemma applyWealthSpendXp_frame: "applyWealthSpendXp u amt b w = Inr (lr, w') \<Longrightarrow> levelFrame w w'"
  using applyWealthSpendXp_total [of u amt b w] by auto

lemma enqueue_moved: "moved w (enqueuePlatformLedgerMessage k i w) still"
  by (rule moved_frame) (simp_all add: enqueuePlatformLedgerMessage_def)

lemma enqueue_keeps [simp]:
  "coinLedger (enqueuePlatformLedgerMessage k i w) = coinLedger w"
  "pointLedger (enqueuePlatformLedgerMessage k i w) = pointLedger w"
  "users (enqueuePlatformLedgerMessage k i w) = users w"
  "wallets (enqueuePlatformLedgerMessage k i w) = wallets w"
  "coinCache (enqueuePlatformLedgerMessage k i w) = coinCache w"
  "pointCache (enqueuePlatformLedgerMessage k i w) = pointCache w"
  "locks (enqueuePlatformLedgerMessage k i w) = locks w"
  "clock (enqueuePlatformLedgerMessage k i w) = clock w"
  by (simp_all add: enqueuePlatformLedgerMessage_def)

lemma post_finish:
  assumes "moved w w3 d" "levelFrame (bumpVersion i w3) w5"
  shows "moved w (if b then w5 else enqueuePlatformLedgerMessage k j w5) d"
proof -
  have "moved w w5 d"
    using moved_still [OF moved_still [OF assms(1) bumpVersion_moved] levelFrame_moved [OF assms(2)]] .
  then show ?thesis using moved_still [OF _ enqueue_moved] by simp
qed

lemma delta_newEntry [simp]:
  "coinDelta ((newEntry i dir tt amt bal key)\<lparr>counterpartyId := x, description := y, metadata := z\<rparr>)
     = (case dir of CREDIT \<Rightarrow> amt | DEBIT \<Rightarrow> - amt)"
  by (cases dir) (simp_all add: coinDelta_def newEntry_def)

lemma newEntry_fields [simp]:
  "walletId (newEntry i dir tt amt bal key) = i" "amount (newEntry i dir tt amt bal key) = amt"
  "balanceAfter (newEntry i dir tt amt bal key) = bal" "idempotencyKey (newEntry i dir tt amt bal key) = key"
  "direction (newEntry i dir tt amt bal key) = dir" "txType (newEntry i dir tt amt bal key) = tt"
  by (simp_all add: newEntry_def)

section \<open>Debit\<close>

lemma assertCoinDebitAllowed_users: "users w' = users w \<Longrightarrow> assertCoinDebitAllowed u c w' = assertCoinDebitAllowed u c w"
  by (simp add: assertCoinDebitAllowed_def getUserWalletFreezeFlags_def)

text \<open>
  C9. What a coin debit does, on every branch: a non-positive amount is refused; a key that was used
  before returns the recorded row and changes nothing; a frozen (or unknown) user is refused; a
  balance below the amount is refused with both numbers; otherwise the debit succeeds, exactly the
  account of the user in the chosen currency falls by the amount, the reported balance is the new
  balance, and the row is on record under the key. The world stays well-formed.
\<close>

theorem debit_outcome:
  assumes wf: "Ledger.wf w" and c: "currencyOf opts = c" "c \<noteq> POINT"
  shows "let key = o_idempotencyKey opts; bal = balanceOf w (u, c);
             frozen = (if o_freezeCheck opts then assertCoinDebitAllowed u c w else Inr ()) in
    if amt \<le> 0 then debit u amt tt opts w = Inl (AppError 400 ''INVALID_AMOUNT'' [(''amount'', JBig amt)])
    else case findByIdempotencyKey (coinLedger w) key of
      Some e \<Rightarrow> debit u amt tt opts w =
        Inr (\<lparr>ledgerEntryId = entry_id e, res_balanceAfter = balanceAfter e, levelResult = None\<rparr>, w)
    | None \<Rightarrow>
        (case frozen of
           Inl err \<Rightarrow> debit u amt tt opts w = Inl err
         | Inr _ \<Rightarrow>
             if bal < amt then debit u amt tt opts w = Inl (insufficientCoins amt bal)
             else \<exists>r w' e. debit u amt tt opts w = Inr (r, w') \<and> Ledger.wf w'
               \<and> (\<forall>a. balanceOf w' a = balanceOf w a + moving (u, c) (- amt) a)
               \<and> res_balanceAfter r = bal - amt
               \<and> findByIdempotencyKey (coinLedger w') key = Some e \<and> entry_id e = ledgerEntryId r
               \<and> direction e = DEBIT \<and> amount e = amt \<and> txType e = tt)"
proof (cases "0 < amt \<and> findByIdempotencyKey (coinLedger w) (o_idempotencyKey opts) = None
    \<and> (o_freezeCheck opts \<longrightarrow> assertCoinDebitAllowed u c w = Inr ()) \<and> \<not> balanceOf w (u, c) < amt")
  case True
  obtain wl w1 where g: "getOrCreate u c w = (wl, w1)" by fastforce
  let ?w2 = "snd (lockForUpdate (wallet_id wl) w1)"
  let ?d = "(newEntry (wallet_id wl) DEBIT tt amt (balanceOf w (u, c) - amt) (o_idempotencyKey opts))
     \<lparr>counterpartyId := o_counterpartyId opts, description := o_description opts, metadata := o_metadata opts\<rparr>"
  note k = getOrCreate_keeps [OF g]
  have fr: "assertCoinDebitAllowed u c ?w2 = assertCoinDebitAllowed u c w"
    by (rule assertCoinDebitAllowed_users) (simp add: k)
  obtain e w3 where ins: "coinInsert ?d ?w2 = Inr (e, w3)" and be: "balanceAfter e = balanceOf w (u, c) - amt"
    using True coinInsert_total [of ?d ?w2] by (fastforce simp: k)
  obtain lr w5 where xp: "applyWealthSpendXp u amt (o_applyWealth opts \<and> c = COIN) (bumpVersion (wallet_id wl) w3)
      = Inr (lr, w5)" and xpf: "levelFrame (bumpVersion (wallet_id wl) w3) w5"
    using applyWealthSpendXp_total by blast
  let ?w6 = "if isDiamondLedgerMovement c tt then w5 else enqueuePlatformLedgerMessage ''coin'' (entry_id e) w5"
  have run: "debit u amt tt opts w
      = Inr (\<lparr>ledgerEntryId = entry_id e, res_balanceAfter = balanceAfter e, levelResult = lr\<rparr>, ?w6)"
    using True c fr ins xp getOrCreate_wallet [OF g]
    by (simp add: debit_def Let_def g locked_coin_balance [OF wf g c(2)])
  have "moved w w3 (moving (u, c) (- amt))"
    using coin_post_moved [OF g c(2) levelFrame_refl ins] True locked_coin_balance [OF wf g c(2)]
    by simp
  then have mv: "moved w ?w6 (moving (u, c) (- amt))"
    by (rule post_finish [OF _ xpf])
  have "coinLedger ?w6 = coinLedger w3" using levelFrame_keeps [OF xpf] by simp
  then have "findByIdempotencyKey (coinLedger ?w6) (o_idempotencyKey opts) = Some e"
    using coinInsert_found [OF ins] by simp
  then show ?thesis
    using True run be ins moved_wf [OF mv wf] moved_bal [OF mv wf]
    by (auto simp: Let_def coinInsert_Inr)
next
  case False
  obtain wl w1 where g: "getOrCreate u c w = (wl, w1)" by fastforce
  have fr: "assertCoinDebitAllowed u c (snd (lockForUpdate (wallet_id wl) w1)) = assertCoinDebitAllowed u c w"
    by (rule assertCoinDebitAllowed_users) (simp add: getOrCreate_keeps [OF g])
  show ?thesis
    using False c fr getOrCreate_wallet [OF g] locked_coin_balance [OF wf g c(2), of "wallet_id wl"]
    by (auto simp: debit_def Let_def g assertPositiveAmount_def require_def split: option.split sum.split)
qed

definition sampleUser :: user_row where
  "sampleUser = \<lparr> firstName = ''A'', lastName = None, country = Some ''IN'', currentAgencyId = None,
     personalCoinsFrozen = False, tradingCoinsFrozen = False, pointsFrozen = False,
     usernameUpdatedAt = None \<rparr>"

definition sampleCoinWorld :: world where
  "sampleCoinWorld = sampleLedgerWorld\<lparr>users := [7 \<mapsto> sampleUser, 8 \<mapsto> sampleUser]\<rparr>"

definition sampleOptions :: "string \<Rightarrow> coin_options" where
  "sampleOptions key =
     \<lparr> o_idempotencyKey = key, o_description = None, o_metadata = None, o_counterpartyId = None,
       o_currencyType = None, o_applyWealth = True, o_freezeCheck = True \<rparr>"

lemma sampleCoinWorld_wf: "Ledger.wf sampleCoinWorld"
  using sampleLedgerWorld_wf by (simp add: sampleCoinWorld_def Ledger.wf_def)

lemma sampleCoinWorld_facts:
  "balanceOf sampleCoinWorld (7, COIN) = 380"
  "findByIdempotencyKey (coinLedger sampleCoinWorld) ''k'' = None"
  "assertCoinDebitAllowed 7 COIN sampleCoinWorld = Inr ()"
  by (simp_all add: sampleCoinWorld_def sampleLedgerWorld_def balanceOf_def findWallet_def walletBalance_def
      latestCoinBalance_def latestBalance_def emptyWorld_def newEntry_def findByIdempotencyKey_def
      assertCoinDebitAllowed_def getUserWalletFreezeFlags_def throwIfCoinFrozen_def sampleUser_def)

theorem debit_outcome_witness:
  "(\<exists>r w'. debit 7 100 C_GIFT_SEND (sampleOptions ''k'') sampleCoinWorld = Inr (r, w')
     \<and> res_balanceAfter r = 280 \<and> balanceOf w' (7, COIN) = 280)
   \<and> debit 7 381 C_GIFT_SEND (sampleOptions ''k'') sampleCoinWorld = Inl (insufficientCoins 381 380)"
proof -
  have o: "currencyOf (sampleOptions ''k'') = COIN" "o_idempotencyKey (sampleOptions ''k'') = ''k''"
    "o_freezeCheck (sampleOptions ''k'')"
    by (simp_all add: sampleOptions_def)
  note out = debit_outcome [OF sampleCoinWorld_wf o(1), of 7 _ C_GIFT_SEND, simplified o sampleCoinWorld_facts Let_def]
  show ?thesis
  proof
    show "\<exists>r w'. debit 7 100 C_GIFT_SEND (sampleOptions ''k'') sampleCoinWorld = Inr (r, w')
     \<and> res_balanceAfter r = 280 \<and> balanceOf w' (7, COIN) = 280"
      using out [of 100] by (fastforce simp: moving_def sampleCoinWorld_facts)
    show "debit 7 381 C_GIFT_SEND (sampleOptions ''k'') sampleCoinWorld = Inl (insufficientCoins 381 380)"
      using out [of 381] by (simp add: sampleCoinWorld_facts)
  qed
qed

text \<open>The facts about a successful debit that other components use.\<close>

lemma debit_posts:
  assumes run: "debit u amt tt opts w = Inr (r, w')" and fresh: "findByIdempotencyKey (coinLedger w) (o_idempotencyKey opts) = None"
    and c: "currencyOf opts = c" "c \<noteq> POINT"
  shows "0 < amt" "moved w w' (moving (u, c) (- amt))"
    "\<exists>e. findByIdempotencyKey (coinLedger w') (o_idempotencyKey opts) = Some e \<and> entry_id e = ledgerEntryId r
       \<and> balanceAfter e = res_balanceAfter r \<and> coinLedger w' = coinLedger w @ [e] \<and> txType e = tt \<and> amount e = amt"
    "o_freezeCheck opts \<Longrightarrow> assertCoinDebitAllowed u c w = Inr ()"
proof -
  obtain wl w1 where g: "getOrCreate u c w = (wl, w1)" by fastforce
  let ?w2 = "snd (lockForUpdate (wallet_id wl) w1)"
  let ?b = "latestCoinBalance ?w2 (wallet_id wl)"
  let ?d = "(newEntry (wallet_id wl) DEBIT tt amt (?b - amt) (o_idempotencyKey opts))
     \<lparr>counterpartyId := o_counterpartyId opts, description := o_description opts, metadata := o_metadata opts\<rparr>"
  note k = getOrCreate_keeps [OF g]
  from run fresh c obtain e w3 lr w5 where pos: "0 < amt" and enough: "amt \<le> ?b"
    and fr: "o_freezeCheck opts \<Longrightarrow> assertCoinDebitAllowed u c ?w2 = Inr ()"
    and ins: "coinInsert ?d ?w2 = Inr (e, w3)"
    and xp: "applyWealthSpendXp u amt (o_applyWealth opts \<and> c = COIN) (bumpVersion (wallet_id wl) w3) = Inr (lr, w5)"
    and r: "r = \<lparr>ledgerEntryId = entry_id e, res_balanceAfter = balanceAfter e, levelResult = lr\<rparr>"
    and w': "w' = (if isDiamondLedgerMovement c tt then w5 else enqueuePlatformLedgerMessage ''coin'' (entry_id e) w5)"
    by (auto simp: debit_def Let_def g andThen_Inr_iff split: if_splits)
  note xpf = applyWealthSpendXp_frame [OF xp]
  show "0 < amt" by (fact pos)
  have "moved w w3 (moving (u, c) (- amt))"
    using coin_post_moved [OF g c(2) levelFrame_refl ins] enough by simp
  then show "moved w w' (moving (u, c) (- amt))"
    unfolding w' by (rule post_finish [OF _ xpf])
  have "coinLedger w' = coinLedger w3" using levelFrame_keeps [OF xpf] by (simp add: w')
  then show "\<exists>e. findByIdempotencyKey (coinLedger w') (o_idempotencyKey opts) = Some e \<and> entry_id e = ledgerEntryId r
       \<and> balanceAfter e = res_balanceAfter r \<and> coinLedger w' = coinLedger w @ [e] \<and> txType e = tt \<and> amount e = amt"
    using coinInsert_found [OF ins] ins by (auto simp: r coinInsert_Inr k intro!: exI [of _ e])
  show "assertCoinDebitAllowed u c w = Inr ()" if "o_freezeCheck opts"
    using fr [OF that] assertCoinDebitAllowed_users [of ?w2 w u c] by (simp add: k)
qed

lemma debit_replays:
  assumes "debit u amt tt opts w = Inr (r, w')" "findByIdempotencyKey (coinLedger w) (o_idempotencyKey opts) = Some e"
  shows "w' = w \<and> r = \<lparr>ledgerEntryId = entry_id e, res_balanceAfter = balanceAfter e, levelResult = None\<rparr>"
  using assms by (simp add: debit_def andThen_Inr_iff)

section \<open>Credit\<close>

lemma credit_posts:
  assumes run: "credit u amt tt opts w = Inr (r, w')" and fresh: "findByIdempotencyKey (coinLedger w) (o_idempotencyKey opts) = None"
    and c: "currencyOf opts = c" "c \<noteq> POINT"
  shows "0 < amt" "moved w w' (moving (u, c) amt)"
    "\<exists>e. findByIdempotencyKey (coinLedger w') (o_idempotencyKey opts) = Some e \<and> entry_id e = ledgerEntryId r
       \<and> balanceAfter e = res_balanceAfter r \<and> coinLedger w' = coinLedger w @ [e] \<and> txType e = tt \<and> amount e = amt"
proof -
  obtain wl w1 where g: "getOrCreate u c w = (wl, w1)" by fastforce
  let ?w2 = "snd (lockForUpdate (wallet_id wl) w1)"
  let ?b = "latestCoinBalance ?w2 (wallet_id wl)"
  let ?d = "(newEntry (wallet_id wl) CREDIT tt amt (?b + amt) (o_idempotencyKey opts))
     \<lparr>counterpartyId := o_counterpartyId opts, description := o_description opts, metadata := o_metadata opts\<rparr>"
  from run fresh c obtain lr w3 e w4 where pos: "0 < amt"
    and xp: "applyWealthSpendXp u amt (o_applyWealth opts \<and> c = COIN) ?w2 = Inr (lr, w3)"
    and ins: "coinInsert ?d w3 = Inr (e, w4)"
    and r: "r = \<lparr>ledgerEntryId = entry_id e, res_balanceAfter = balanceAfter e, levelResult = lr\<rparr>"
    and w': "w' = (if isDiamondLedgerMovement c tt then bumpVersion (wallet_id wl) w4
             else enqueuePlatformLedgerMessage ''coin'' (entry_id e) (bumpVersion (wallet_id wl) w4))"
    by (auto simp: credit_def Let_def g andThen_Inr_iff split: if_splits)
  note xpf = applyWealthSpendXp_frame [OF xp]
  show "0 < amt" by (fact pos)
  have "moved w w4 (moving (u, c) amt)"
    using coin_post_moved [OF g c(2) xpf ins] pos by simp
  then show "moved w w' (moving (u, c) amt)"
    unfolding w' by (rule post_finish [OF _ levelFrame_refl])
  have "coinLedger w' = coinLedger w4" by (simp add: w')
  then show "\<exists>e. findByIdempotencyKey (coinLedger w') (o_idempotencyKey opts) = Some e \<and> entry_id e = ledgerEntryId r
       \<and> balanceAfter e = res_balanceAfter r \<and> coinLedger w' = coinLedger w @ [e] \<and> txType e = tt \<and> amount e = amt"
    using coinInsert_found [OF ins] ins levelFrame_keeps [OF xpf] getOrCreate_keeps [OF g]
    by (auto simp: r coinInsert_Inr intro!: exI [of _ e])
qed

lemma credit_total:
  assumes "0 < amt" "findByIdempotencyKey (coinLedger w) (o_idempotencyKey opts) = None"
  shows "\<exists>r w'. credit u amt tt opts w = Inr (r, w')"
proof -
  obtain wl w1 where g: "getOrCreate u (currencyOf opts) w = (wl, w1)" by fastforce
  let ?w2 = "snd (lockForUpdate (wallet_id wl) w1)"
  obtain lr w3 where xp: "applyWealthSpendXp u amt (o_applyWealth opts \<and> currencyOf opts = COIN) ?w2 = Inr (lr, w3)"
      "levelFrame ?w2 w3"
    using applyWealthSpendXp_total by blast
  have "findByIdempotencyKey (coinLedger w3) (o_idempotencyKey opts) = None"
    using assms(2) levelFrame_keeps [OF xp(2)] getOrCreate_keeps [OF g] by simp
  then have "\<exists>e w4. coinInsert
      ((newEntry (wallet_id wl) CREDIT tt amt (latestCoinBalance ?w2 (wallet_id wl) + amt) (o_idempotencyKey opts))
        \<lparr>counterpartyId := o_counterpartyId opts, description := o_description opts, metadata := o_metadata opts\<rparr>) w3
      = Inr (e, w4)"
    using assms(1) by (simp add: coinInsert_Inr)
  then show ?thesis using assms g xp(1) by (force simp: credit_def Let_def)
qed

text \<open>
  A coin credit of a positive amount under a fresh key always succeeds and raises exactly the
  account of the user in the chosen currency by the amount.
\<close>

theorem credit_outcome:
  assumes wf: "Ledger.wf w" and c: "currencyOf opts \<noteq> POINT" and amt: "0 < amt"
    and fresh: "findByIdempotencyKey (coinLedger w) (o_idempotencyKey opts) = None"
  shows "\<exists>r w'. credit u amt tt opts w = Inr (r, w') \<and> Ledger.wf w'
    \<and> (\<forall>a. balanceOf w' a = balanceOf w a + moving (u, currencyOf opts) amt a)"
proof -
  obtain r w' where run: "credit u amt tt opts w = Inr (r, w')" using credit_total [OF amt fresh] by blast
  have mv: "moved w w' (moving (u, currencyOf opts) amt)"
    by (rule credit_posts(2) [OF run fresh refl c])
  show ?thesis
    by (intro exI conjI allI) (rule run, rule moved_wf [OF mv wf], rule moved_bal [OF mv wf])
qed

theorem credit_outcome_witness:
  "\<exists>r w'. credit 8 250 C_TOPUP (sampleOptions ''k'') sampleCoinWorld = Inr (r, w') \<and> Ledger.wf w'
    \<and> (\<forall>a. balanceOf w' a = balanceOf sampleCoinWorld a + moving (8, currencyOf (sampleOptions ''k'')) 250 a)"
  by (rule credit_outcome)
    (simp_all add: sampleCoinWorld_wf sampleOptions_def sampleCoinWorld_facts)

text \<open>
  C10. Retries are harmless: once a debit or a credit has been made under a key, repeating a debit or
  a credit with that key, whatever its other arguments, returns the recorded row and changes nothing.
\<close>

theorem replay_changes_nothing:
  assumes first: "debit u amt tt opts w = Inr (r, w') \<or> credit u amt tt opts w = Inr (r, w')"
    and c: "currencyOf opts \<noteq> POINT"
    and key: "o_idempotencyKey opts' = o_idempotencyKey opts" and pos: "0 < amt'"
  shows "debit u' amt' tt' opts' w' = Inr (r\<lparr>levelResult := None\<rparr>, w')
       \<and> credit u' amt' tt' opts' w' = Inr (r\<lparr>levelResult := None\<rparr>, w')"
proof -
  obtain e where "findByIdempotencyKey (coinLedger w') (o_idempotencyKey opts) = Some e"
    "entry_id e = ledgerEntryId r" "balanceAfter e = res_balanceAfter r"
  proof (cases "findByIdempotencyKey (coinLedger w) (o_idempotencyKey opts)")
    case None
    then show thesis
      using first that debit_posts(3) [OF _ None refl c] credit_posts(3) [OF _ None refl c] by blast
  next
    case (Some e)
    then have "w = w' \<and> ledgerEntryId r = entry_id e \<and> res_balanceAfter r = balanceAfter e"
      using first by (elim disjE) (clarsimp simp: debit_def credit_def andThen_Inr_iff)+
    with Some show thesis by (intro that [of e]) simp_all
  qed
  then show ?thesis using key pos by (simp add: debit_def credit_def)
qed

theorem replay_changes_nothing_witness:
  "\<exists>r w'. credit 7 100 C_TOPUP (sampleOptions ''k'') sampleCoinWorld = Inr (r, w')
     \<and> debit 7 100 C_GIFT_SEND (sampleOptions ''k'') w' = Inr (r\<lparr>levelResult := None\<rparr>, w')
     \<and> credit 7 100 C_TOPUP (sampleOptions ''k'') w' = Inr (r\<lparr>levelResult := None\<rparr>, w')"
proof -
  have o: "currencyOf (sampleOptions ''k'') \<noteq> POINT" "o_idempotencyKey (sampleOptions ''k'') = ''k''"
    by (simp_all add: sampleOptions_def)
  obtain r w' where run: "credit 7 100 C_TOPUP (sampleOptions ''k'') sampleCoinWorld = Inr (r, w')"
    using credit_total [of 100 sampleCoinWorld "sampleOptions ''k''" 7 C_TOPUP] o sampleCoinWorld_facts by auto
  show ?thesis
    using run replay_changes_nothing [OF disjI2 [OF run] o(1) refl]
      replay_changes_nothing [OF disjI2 [OF run] o(1) refl] by auto
qed

section \<open>Purchases\<close>

lemma sync_keeps:
  "levelFrame w (syncLevelCacheFromApplyResult u lt lr w)"
proof (cases lr)
  case (Some r)
  obtain ts w1 where g: "getThresholds lt w = (ts, w1)" by fastforce
  have "levelFrame w1 (invalidateCache u lt w1)"
    by (rule levelFrame_I [where rows = "userLevels w1" and cc = "levelConfigCache w1" and ls = "locks w1"
          and lc = "levelCache (invalidateCache u lt w1)"]) (simp add: invalidateCache_def)
  then show ?thesis
    using Some g getThresholds_frame [OF g] levelFrame_trans
    by (auto simp: syncLevelCacheFromApplyResult_def refreshCache_def)
qed (simp add: syncLevelCacheFromApplyResult_def levelFrame_refl)

lemma adjustCoinBalanceCache_frame: "moved w (adjustCoinBalanceCache u d x w) still"
  by (rule moved_frame) (simp_all add: adjustCoinBalanceCache_def writeCoinBalanceCache_def split: option.split)

lemma purchaseRun_posts:
  assumes run: "purchaseRun u amt tt opts w = Inr (lr, w')"
  shows "moved w w' (moving (u, COIN) (- amt))" "redisUp w' = redisUp w" "coinCache w' = coinCache w" "0 < amt"
    "\<exists>e. findByIdempotencyKey (coinLedger w') (o_idempotencyKey opts) = Some e \<and> txType e = tt \<and> amount e = amt"
    "findByIdempotencyKey (coinLedger w) (o_idempotencyKey opts) = None"
proof -
  obtain wl w1 where g: "getOrCreate u COIN w = (wl, w1)" by fastforce
  let ?w2 = "snd (lockForUpdate (wallet_id wl) w1)"
  let ?b = "latestCoinBalance ?w2 (wallet_id wl)"
  let ?d = "(newEntry (wallet_id wl) DEBIT tt amt (?b - amt) (o_idempotencyKey opts))
     \<lparr>counterpartyId := o_counterpartyId opts, description := o_description opts, metadata := o_metadata opts\<rparr>"
  from run obtain e w3 where enough: "amt \<le> ?b" and ins: "coinInsert ?d ?w2 = Inr (e, w3)"
    and xp: "applyWealthSpendXp u amt (o_applyWealth opts) (bumpVersion (wallet_id wl) w3) = Inr (lr, w')"
    by (auto simp: purchaseRun_def Let_def g andThen_Inr_iff)
  note xpf = applyWealthSpendXp_frame [OF xp] note k = getOrCreate_keeps [OF g]
  have "moved w w3 (moving (u, COIN) (- amt))"
    using coin_post_moved [OF g _ levelFrame_refl ins] enough by simp
  from post_finish [OF this xpf, of True] show "moved w w' (moving (u, COIN) (- amt))" by simp
  show "redisUp w' = redisUp w" "coinCache w' = coinCache w"
    using levelFrame_keeps [OF xpf] ins k by (simp_all add: coinInsert_Inr bumpVersion_def lockForUpdate_def)
  show "0 < amt" "findByIdempotencyKey (coinLedger w) (o_idempotencyKey opts) = None"
    using ins k by (simp_all add: coinInsert_Inr)
  show "\<exists>e. findByIdempotencyKey (coinLedger w') (o_idempotencyKey opts) = Some e \<and> txType e = tt \<and> amount e = amt"
    using coinInsert_found [OF ins] levelFrame_keeps [OF xpf] ins
    by (auto simp: coinInsert_Inr intro!: exI [of _ e])
qed

lemma purchase_posts:
  assumes run: "purchase inTx u amt tt opts w = Inr (lr, w')"
  shows "moved w w' (moving (u, COIN) (- amt))"
    "assertCoinDebitAllowed u COIN w = Inr ()" "findByIdempotencyKey (coinLedger w) (o_idempotencyKey opts) = None"
    "\<not> inTx \<Longrightarrow> redisUp w \<Longrightarrow> coinCache w' u = None"
    "\<exists>e. findByIdempotencyKey (coinLedger w') (o_idempotencyKey opts) = Some e \<and> txType e = tt \<and> amount e = amt"
proof -
  from run obtain w1 where allowed: "assertCoinDebitAllowed u COIN w = Inr ()"
    and r1: "purchaseRun u amt tt opts w = Inr (lr, w1)"
    and w': "w' = (if inTx then w1 else syncLevelCacheFromApplyResult u WEALTH lr (adjustCoinBalanceCache u amt None w1))"
    by (auto simp: purchase_def andThen_Inr_iff split: if_splits)
  note p = purchaseRun_posts [OF r1]
  have "moved (adjustCoinBalanceCache u amt None w1) (syncLevelCacheFromApplyResult u WEALTH lr (adjustCoinBalanceCache u amt None w1)) still"
    by (rule levelFrame_moved [OF sync_keeps])
  then show "moved w w' (moving (u, COIN) (- amt))"
    unfolding w' using p(1) moved_still [OF moved_still [OF p(1) adjustCoinBalanceCache_frame]] by simp
  show "assertCoinDebitAllowed u COIN w = Inr ()" "findByIdempotencyKey (coinLedger w) (o_idempotencyKey opts) = None"
    by (fact allowed, fact p(6))
  note sk = levelFrame_keeps [OF sync_keeps [of _ u WEALTH lr]]
  show "coinCache w' u = None" if "\<not> inTx" "redisUp w"
    using that p(2) by (simp add: w' sk adjustCoinBalanceCache_def)
  have "coinLedger w' = coinLedger w1"
    by (simp add: w' sk adjustCoinBalanceCache_def)
  then show "\<exists>e. findByIdempotencyKey (coinLedger w') (o_idempotencyKey opts) = Some e \<and> txType e = tt \<and> amount e = amt"
    using p(5) by simp
qed

text \<open>
  C18. A purchase (subscription, guardian, store item, rare ID alike) that succeeds takes exactly its
  price from the buyer's personal coins, was made by a buyer who is not frozen, and, when it ran in
  its own transaction with Redis up, leaves no cached balance behind. Unlike \<open>debit\<close> it is not a
  silent replay: the same key a second time is a unique-key violation, with no money moved.
\<close>

theorem purchase_outcome:
  assumes wf: "Ledger.wf w" and run: "purchase inTx u amt tt opts w = Inr (lr, w')"
  shows "Ledger.wf w' \<and> (\<forall>a. balanceOf w' a = balanceOf w a + moving (u, COIN) (- amt) a)
    \<and> amt \<le> balanceOf w (u, COIN) \<and> assertCoinDebitAllowed u COIN w = Inr ()
    \<and> (redisUp w \<and> \<not> inTx \<longrightarrow> coinCache w' u = None)
    \<and> (\<forall>lr2 w2. purchase inTx2 u2 amt2 tt2 opts w' \<noteq> Inr (lr2, w2))"
proof -
  note p = purchase_posts [OF run]
  have "balanceOf w' (u, COIN) = balanceOf w (u, COIN) - amt"
    using moved_bal [OF p(1) wf, of "(u, COIN)"] by (simp add: moving_def)
  moreover have "0 \<le> balanceOf w' (u, COIN)" by (rule balanceOf_nonneg [OF moved_wf [OF p(1) wf]])
  ultimately have "amt \<le> balanceOf w (u, COIN)" by simp
  moreover have "purchase inTx2 u2 amt2 tt2 opts w' \<noteq> Inr (lr2, w2)" for lr2 w2
    using p(5) purchase_posts(3) [of inTx2 u2 amt2 tt2 opts w' lr2 w2] by auto
  moreover have "balanceOf w' a = balanceOf w a + moving (u, COIN) (- amt) a" for a
    by (rule moved_bal [OF p(1) wf])
  ultimately show ?thesis
    using moved_wf [OF p(1) wf] p(2,4) by blast
qed

lemma purchase_total:
  assumes "assertCoinDebitAllowed u COIN w = Inr ()" "findByIdempotencyKey (coinLedger w) (o_idempotencyKey opts) = None"
    "0 < amt" "amt \<le> balanceOf w (u, COIN)" "Ledger.wf w"
  shows "\<exists>lr w'. purchase inTx u amt tt opts w = Inr (lr, w')"
proof -
  obtain wl w1 where g: "getOrCreate u COIN w = (wl, w1)" by fastforce
  let ?w2 = "snd (lockForUpdate (wallet_id wl) w1)"
  let ?d = "(newEntry (wallet_id wl) DEBIT tt amt (latestCoinBalance ?w2 (wallet_id wl) - amt) (o_idempotencyKey opts))
     \<lparr>counterpartyId := o_counterpartyId opts, description := o_description opts, metadata := o_metadata opts\<rparr>"
  have "\<exists>e w3. coinInsert ?d ?w2 = Inr (e, w3)"
    using assms(2,3) by (simp add: coinInsert_Inr getOrCreate_keeps [OF g])
  then obtain e w3 where "coinInsert ?d ?w2 = Inr (e, w3)" by blast
  moreover obtain lr w4 where "applyWealthSpendXp u amt (o_applyWealth opts) (bumpVersion (wallet_id wl) w3) = Inr (lr, w4)"
    using applyWealthSpendXp_total by blast
  ultimately show ?thesis
    using assms locked_coin_balance [OF assms(5) g, of "wallet_id wl"]
    by (simp add: purchase_def purchaseRun_def Let_def g)
qed

theorem purchase_outcome_witness:
  "\<exists>lr w'. debitForVipPurchase False 7 300 7 ''1234'' ''k'' None True sampleCoinWorld = Inr (lr, w')
     \<and> balanceOf w' (7, COIN) = 80 \<and> coinCache w' 7 = None"
proof -
  let ?o = "purchaseOptions ''k'' ''Rare ID purchase'' None
    (JObj [(''recipientId'', JStr (show_nat 7)), (''publicId'', JStr ''1234'')]) 7 True"
  have k: "o_idempotencyKey ?o = ''k''" by (simp add: purchaseOptions_def)
  obtain lr w' where run: "purchase False 7 300 C_VIP_PURCHASE ?o sampleCoinWorld = Inr (lr, w')"
    using purchase_total [of 7 sampleCoinWorld ?o 300 False C_VIP_PURCHASE] sampleCoinWorld_facts
      sampleCoinWorld_wf k by auto
  have "redisUp sampleCoinWorld" by (simp add: sampleCoinWorld_def sampleLedgerWorld_def emptyWorld_def)
  then show ?thesis
    using run purchase_outcome [OF sampleCoinWorld_wf run] sampleCoinWorld_facts
    by (auto simp: debitForVipPurchase_def moving_def)
qed

text \<open>
  Changing the display name costs exactly 10,000 personal coins and stores the new name with the
  time of the change; a user with less, or frozen, or with a refused name keeps name and coins.
\<close>

theorem displayName_costs_10000:
  assumes wf: "Ledger.wf w" and user: "users w u = Some row"
    and run: "debitForDisplayNameChange nameAllowed uuid u f l w = Inr ((), w')"
  shows "Ledger.wf w' \<and> nameAllowed f l u w = Inr () \<and> \<not> personalCoinsFrozen row
    \<and> 10000 \<le> balanceOf w (u, COIN)
    \<and> (\<forall>a. balanceOf w' a = balanceOf w a + moving (u, COIN) (- 10000) a)
    \<and> users w' = (users w)(u \<mapsto> row\<lparr>firstName := f, lastName := l, usernameUpdatedAt := Some (clock w)\<rparr>)"
proof -
  obtain wl w1 where g: "getOrCreate u COIN w = (wl, w1)" by fastforce
  let ?w2 = "snd (lockForUpdate (wallet_id wl) w1)"
  note k = getOrCreate_keeps [OF g]
  from run obtain d e w3 where na: "nameAllowed f l u w = Inr ()"
    and fr: "assertCoinDebitAllowed u COIN w = Inr ()"
    and enough: "10000 \<le> balanceOf w (u, COIN)" and ins: "coinInsert d ?w2 = Inr (e, w3)"
    and d: "walletId d = wallet_id wl" "coinDelta d = - 10000" "balanceAfter d = balanceOf w (u, COIN) - 10000"
    and w': "w' = adjustCoinBalanceCache u USERNAME_CHANGE_COIN_COST None
        ((bumpVersion (wallet_id wl) w3)\<lparr>users := (users w3)(u := map_option (\<lambda>r. r\<lparr>firstName := f,
           lastName := l, usernameUpdatedAt := Some (clock w3)\<rparr>) (users w3 u))\<rparr>)"
    by (auto simp: debitForDisplayNameChange_def Let_def g andThen_Inr_iff locked_coin_balance [OF wf g]
        USERNAME_CHANGE_COIN_COST_def coinDelta_def newEntry_def)
  let ?w4 = "bumpVersion (wallet_id wl) w3"
  have "moved w w3 (moving (u, COIN) (- 10000))"
    using coin_post_moved [OF g _ levelFrame_refl ins] d enough locked_coin_balance [OF wf g] by simp
  then have "moved w ?w4 (moving (u, COIN) (- 10000))" by (rule moved_still [OF _ bumpVersion_moved])
  moreover have "moved ?w4 (?w4\<lparr>users := x\<rparr>) still" for x by (rule moved_frame) simp_all
  ultimately have mv: "moved w w' (moving (u, COIN) (- 10000))"
    unfolding w' using moved_still adjustCoinBalanceCache_frame by blast
  have "users w' = (users w)(u \<mapsto> row\<lparr>firstName := f, lastName := l, usernameUpdatedAt := Some (clock w)\<rparr>)"
    using ins user k by (simp add: w' coinInsert_Inr adjustCoinBalanceCache_def lockForUpdate_def)
  moreover have "\<not> personalCoinsFrozen row"
    using fr user by (auto simp: assertCoinDebitAllowed_def getUserWalletFreezeFlags_def throwIfCoinFrozen_def split: if_splits)
  moreover have "balanceOf w' a = balanceOf w a + moving (u, COIN) (- 10000) a" for a by (rule moved_bal [OF mv wf])
  ultimately show ?thesis using moved_wf [OF mv wf] na enough by blast
qed

definition sampleNameWorld :: world where
  "sampleNameWorld = emptyWorld\<lparr>
     users := [7 \<mapsto> sampleUser],
     wallets := [\<lparr>wallet_id = 0, wallet_user = 7, wallet_currency = COIN, wallet_version = 1,
                  unconfirmedPoints = 0\<rparr>],
     coinLedger := [(newEntry 0 CREDIT C_TOPUP 50000 50000 ''a'')\<lparr>entry_id := 1, createdAt := 10\<rparr>],
     nextId := 2, clock := 30\<rparr>"

lemma sampleNameWorld_wf: "Ledger.wf sampleNameWorld"
  by (simp add: Ledger.wf_def sampleNameWorld_def emptyWorld_def walletsInv_def ledgerInv_def
      newEntry_def coinDelta_def)

theorem displayName_costs_10000_witness:
  "\<exists>w'. debitForDisplayNameChange (\<lambda>_ _ _ _. Inr ()) ''u1'' 7 ''B'' None sampleNameWorld = Inr ((), w')
     \<and> balanceOf w' (7, COIN) = balanceOf sampleNameWorld (7, COIN) - 10000
     \<and> users w' = (users sampleNameWorld)(7 \<mapsto> sampleUser\<lparr>firstName := ''B'', lastName := None,
          usernameUpdatedAt := Some (clock sampleNameWorld)\<rparr>)"
proof -
  have u: "users sampleNameWorld 7 = Some sampleUser" by (simp add: sampleNameWorld_def)
  have "\<exists>w'. debitForDisplayNameChange (\<lambda>_ _ _ _. Inr ()) ''u1'' 7 ''B'' None sampleNameWorld = Inr ((), w')"
    by (simp add: debitForDisplayNameChange_def assertCoinDebitAllowed_def getUserWalletFreezeFlags_def
        throwIfCoinFrozen_def sampleNameWorld_def emptyWorld_def sampleUser_def getOrCreate_def findWallet_def
        Let_def lockForUpdate_def latestCoinBalance_def latestBalance_def newEntry_def coinInsert_def
        insertRow_def findByIdempotencyKey_def USERNAME_CHANGE_COIN_COST_def)
  then obtain w' where run: "debitForDisplayNameChange (\<lambda>_ _ _ _. Inr ()) ''u1'' 7 ''B'' None sampleNameWorld = Inr ((), w')"
    by blast
  show ?thesis
    using run displayName_costs_10000 [OF sampleNameWorld_wf u run] by (auto simp: moving_def)
qed

end
