(* ===== verification/Ranking.thy ===== *)
theory Ranking
  imports CoinWallet
begin

text \<open>
  Country names (\<open>src/src/utils/agency-country.ts\<close>) and the score updates of the ranking boards
  (\<open>src/src/repositories/ranking.repository.ts\<close>, \<open>src/src/services/ranking.service.ts\<close>): the part of
  the rankings that runs inside the money transactions. A board keeps one row per entity and UTC
  day. Letters are ASCII letters here; whitespace is the ASCII whitespace of \<open>\s\<close>.
\<close>

section \<open>Country names\<close>

definition isSpace :: "char \<Rightarrow> bool" where
  "isSpace c \<longleftrightarrow> c \<in> {CHR 0x20, CHR 0x09, CHR 0x0A, CHR 0x0B, CHR 0x0C, CHR 0x0D, CHR 0xA0}"

text \<open>\<open>trim()\<close> of JavaScript drops white space, \<open>TRIM\<close> of SQL drops blanks only.\<close>

definition trimBy :: "(char \<Rightarrow> bool) \<Rightarrow> string \<Rightarrow> string" where
  "trimBy p x = rev (dropWhile p (rev (dropWhile p x)))"

definition toUpper :: "char \<Rightarrow> char" where
  "toUpper c = (let n = (of_char c :: nat) in if 97 \<le> n \<and> n \<le> 122 then char_of (n - 32) else c)"

definition toLower :: "char \<Rightarrow> char" where
  "toLower c = (let n = (of_char c :: nat) in if 65 \<le> n \<and> n \<le> 90 then char_of (n + 32) else c)"

text \<open>
  \<open>s.trim().replace(/\s+/g, ' ').split(' ').filter(Boolean)\<close>: the maximal runs of characters that are
  not whitespace.
\<close>

fun splitWords :: "string \<Rightarrow> string \<Rightarrow> string list" where
  "splitWords cur [] = (if cur = [] then [] else [rev cur])"
| "splitWords cur (c # cs) =
     (if isSpace c then (if cur = [] then splitWords [] cs else rev cur # splitWords [] cs)
      else splitWords (c # cur) cs)"

fun joinWords :: "string list \<Rightarrow> string" where
  "joinWords [] = []"
| "joinWords [v] = v"
| "joinWords (v # vs) = v @ CHR 0x20 # joinWords vs"

definition titleWord :: "string \<Rightarrow> string" where
  "titleWord v = (case v of [] \<Rightarrow> [] | c # cs \<Rightarrow> toUpper c # map toLower cs)"

definition normalizeCountry :: "string \<Rightarrow> string" where
  "normalizeCountry s = joinWords (map titleWord (splitWords [] s))"

definition normalizeCountryOptional :: "string option \<Rightarrow> string option" where
  "normalizeCountryOptional v =
     (case v of
        None \<Rightarrow> None
      | Some s \<Rightarrow> (let n = normalizeCountry s in if n \<noteq> [] then Some n else None))"

section \<open>Scores\<close>

definition resolveCountry :: "uid \<Rightarrow> world \<Rightarrow> string option" where
  "resolveCountry u w = normalizeCountryOptional (case users w u of None \<Rightarrow> None | Some r \<Rightarrow> country r)"

text \<open>The upsert floors the score at 0 and keeps the old country when the new one is null.\<close>

definition incrementScore ::
  "RankingBoard \<Rightarrow> uid \<Rightarrow> int \<Rightarrow> int \<Rightarrow> string option \<Rightarrow> world \<Rightarrow> world" where
  "incrementScore board entity day delta ctry w =
     (if delta = 0 then w
      else
        (let c = normalizeCountryOptional ctry;
             row = (case rankingScores w (board, entity, day) of
                      None \<Rightarrow> (max 0 delta, c)
                    | Some (score, old) \<Rightarrow> (max 0 (score + delta), if c = None then old else c))
         in w\<lparr>rankingScores := (rankingScores w)((board, entity, day) \<mapsto> row)\<rparr>))"

definition bumpEpoch :: "RankingBoard \<Rightarrow> world \<Rightarrow> world" where
  "bumpEpoch board w =
     (if redisUp w then w\<lparr>rankingEpochs := (rankingEpochs w)(board := rankingEpochs w board + 1)\<rparr> else w)"

definition HOST_RANKING_TX_TYPES :: "PointTxType list" where
  "HOST_RANKING_TX_TYPES =
     [P_GIFT_RECEIVE, P_LIVESTREAM_GIFT, P_VIDEO_CALL, P_SUBSCRIPTION, P_GUARDIAN_PURCHASE]"

definition GIFT_RANKING_TX_TYPES :: "PointTxType list" where
  "GIFT_RANKING_TX_TYPES = [P_GIFT_RECEIVE, P_LIVESTREAM_GIFT]"

definition onHostPointCredit :: "uid \<Rightarrow> int \<Rightarrow> PointTxType \<Rightarrow> int \<Rightarrow> world \<Rightarrow> world" where
  "onHostPointCredit host amt tt day w =
     (if amt = 0 then w
      else
        (let ctry = resolveCountry host w;
             w1 = (if tt \<in> set HOST_RANKING_TX_TYPES
                   then bumpEpoch HOST (incrementScore HOST host day amt ctry w) else w);
             w2 = (if tt \<in> set GIFT_RANKING_TX_TYPES
                   then bumpEpoch GIFT (incrementScore GIFT host day amt ctry w1) else w1)
         in w2))"

definition onAgencyEarnings :: "uid \<Rightarrow> int \<Rightarrow> int \<Rightarrow> world \<Rightarrow> world" where
  "onAgencyEarnings agency delta day w =
     (if delta = 0 then w
      else bumpEpoch AGENCY (incrementScore AGENCY agency day delta (resolveCountry agency w) w))"

definition onRecharge :: "uid \<Rightarrow> int \<Rightarrow> int \<Rightarrow> world \<Rightarrow> world" where
  "onRecharge u coins day w =
     (if coins = 0 then w
      else bumpEpoch RICH (incrementScore RICH u day coins (resolveCountry u w) w))"

section \<open>What the score updates leave alone\<close>

definition rankFrame :: "world \<Rightarrow> world \<Rightarrow> bool" where
  "rankFrame w w' \<longleftrightarrow> (\<exists>s e. w' = w\<lparr>rankingScores := s, rankingEpochs := e\<rparr>)"

lemma rankFrame_refl [simp, intro]: "rankFrame w w"
  unfolding rankFrame_def by (intro exI [of _ "rankingScores w"] exI [of _ "rankingEpochs w"]) simp

lemma rankFrame_trans: "rankFrame a b \<Longrightarrow> rankFrame b c \<Longrightarrow> rankFrame a c"
  by (force simp: rankFrame_def)

lemma rankFrame_step:
  "rankFrame w (bumpEpoch b (incrementScore b x d y c w))"
  unfolding rankFrame_def bumpEpoch_def incrementScore_def Let_def
  by (intro exI [of _ "rankingScores (incrementScore b x d y c w)"]
      exI [of _ "rankingEpochs (bumpEpoch b (incrementScore b x d y c w))"])
    (simp add: incrementScore_def bumpEpoch_def Let_def)

lemma onHostPointCredit_frame [simp]: "rankFrame w (onHostPointCredit h a t d w)"
  unfolding onHostPointCredit_def Let_def
  by (auto intro: rankFrame_step rankFrame_trans)

lemma onAgencyEarnings_frame [simp]: "rankFrame w (onAgencyEarnings g a d w)"
  by (auto simp: onAgencyEarnings_def rankFrame_step)

lemma onRecharge_frame [simp]: "rankFrame w (onRecharge u a d w)"
  by (auto simp: onRecharge_def rankFrame_step)

lemma rankFrame_keeps:
  assumes "rankFrame w w'"
  shows "wallets w' = wallets w" "coinLedger w' = coinLedger w" "pointLedger w' = pointLedger w"
    "users w' = users w" "clock w' = clock w" "nextId w' = nextId w" "redisUp w' = redisUp w"
    "coinCache w' = coinCache w" "pointCache w' = pointCache w" "locks w' = locks w"
    "agencies w' = agencies w" "commissionProcessed w' = commissionProcessed w"
    "dailyEarnings w' = dailyEarnings w" "userLevels w' = userLevels w"
    "commissionLevels w' = commissionLevels w"
  using assms by (auto simp: rankFrame_def)

lemma rankFrame_moved: "rankFrame w w' \<Longrightarrow> moved w w' still"
  by (rule moved_frame) (simp_all add: rankFrame_keeps)

section \<open>Normal form of country names\<close>

lemma isSpace_code: "isSpace c \<longleftrightarrow> (of_char c :: nat) \<in> {32, 9, 10, 11, 12, 13, 160}"
proof -
  have inj: "c = d \<longleftrightarrow> (of_char c :: nat) = of_char d" for d by simp
  show ?thesis unfolding isSpace_def insert_iff empty_iff inj by simp
qed

lemma of_char_toUpper: "(of_char (toUpper c) :: nat) =
    (if 97 \<le> (of_char c :: nat) \<and> (of_char c :: nat) \<le> 122 then of_char c - 32 else of_char c)"
  by (auto simp: toUpper_def Let_def of_char_of)

lemma of_char_toLower: "(of_char (toLower c) :: nat) =
    (if 65 \<le> (of_char c :: nat) \<and> (of_char c :: nat) \<le> 90 then of_char c + 32 else of_char c)"
  by (auto simp: toLower_def Let_def of_char_of)

lemma case_space [simp]: "isSpace (toUpper c) = isSpace c" "isSpace (toLower c) = isSpace c"
  by (auto simp: isSpace_code of_char_toUpper of_char_toLower)

lemma case_idem [simp]: "toUpper (toUpper c) = toUpper c" "toLower (toLower c) = toLower c"
proof -
  have "(of_char (toUpper (toUpper c)) :: nat) = of_char (toUpper c)" by (auto simp: of_char_toUpper)
  then show "toUpper (toUpper c) = toUpper c" by simp
  have "(of_char (toLower (toLower c)) :: nat) = of_char (toLower c)" by (auto simp: of_char_toLower)
  then show "toLower (toLower c) = toLower c" by simp
qed

text \<open>A word: not empty and without whitespace.\<close>

definition isWord :: "string \<Rightarrow> bool" where
  "isWord v \<longleftrightarrow> v \<noteq> [] \<and> (\<forall>c\<in>set v. \<not> isSpace c)"

lemma splitWords_words: "\<forall>c\<in>set cur. \<not> isSpace c \<Longrightarrow> \<forall>v\<in>set (splitWords cur s). isWord v"
proof (induction cur s rule: splitWords.induct)
  case (1 cur)
  then show ?case by (simp add: isWord_def)
next
  case (2 cur c cs)
  have "isWord (rev cur)" if "cur \<noteq> []" using 2(4) that by (simp add: isWord_def)
  with 2 show ?case by simp
qed

lemma splitWords_word: "\<forall>c\<in>set v. \<not> isSpace c \<Longrightarrow> splitWords cur (v @ rest) = splitWords (rev v @ cur) rest"
  by (induction v arbitrary: cur) auto

lemma splitWords_join: "\<forall>v\<in>set vs. isWord v \<Longrightarrow> splitWords [] (joinWords vs) = vs"
proof (induction vs rule: joinWords.induct)
  case (2 v)
  then show ?case using splitWords_word [of v "[]" "[]"] by (simp add: isWord_def)
next
  case (3 v v' vs)
  have "isSpace (CHR 0x20)" by (simp add: isSpace_def)
  then show ?case
    using 3 splitWords_word [of v "[]" "CHR 0x20 # joinWords (v' # vs)"] by (simp add: isWord_def)
qed simp

lemma titleWord_facts: "isWord v \<Longrightarrow> isWord (titleWord v)" "titleWord (titleWord v) = titleWord v"
  by (auto simp: isWord_def titleWord_def split: list.split)

text \<open>
  Normalising a country name is idempotent: the ranking rows, written with a name that was
  normalised twice, carry the same text as one that was normalised once, and the result never has
  leading, trailing or doubled whitespace.
\<close>

theorem normalizeCountry_idempotent:
  "normalizeCountry (normalizeCountry s) = normalizeCountry s
   \<and> normalizeCountryOptional (normalizeCountryOptional v) = normalizeCountryOptional v
   \<and> splitWords [] (normalizeCountry s) = map titleWord (splitWords [] s)"
proof -
  have split: "splitWords [] (normalizeCountry s) = map titleWord (splitWords [] s)" for s
    unfolding normalizeCountry_def
    by (rule splitWords_join) (use splitWords_words [of "[]" s] in \<open>auto intro: titleWord_facts(1)\<close>)
  have idem: "normalizeCountry (normalizeCountry s) = normalizeCountry s" for s
    unfolding normalizeCountry_def [of "normalizeCountry s"] split
    by (simp add: comp_def titleWord_facts(2) normalizeCountry_def)
  then show ?thesis using split by (auto simp: normalizeCountryOptional_def Let_def split: option.split)
qed

section \<open>Scores never go below zero\<close>

definition scoresInv :: "world \<Rightarrow> bool" where
  "scoresInv w \<longleftrightarrow> (\<forall>k r. rankingScores w k = Some r \<longrightarrow> 0 \<le> fst r)"

definition scoreOf :: "world \<Rightarrow> RankingBoard \<times> uid \<times> int \<Rightarrow> int" where
  "scoreOf w k = (case rankingScores w k of None \<Rightarrow> 0 | Some r \<Rightarrow> fst r)"

lemma scoreOf_step:
  "scoreOf (bumpEpoch b (incrementScore b x d y c w)) k =
     (if k = (b, x, d) \<and> y \<noteq> 0 then max 0 (scoreOf w k + y) else scoreOf w k)"
  by (auto simp: scoreOf_def bumpEpoch_def incrementScore_def Let_def split: option.split)

lemma scoresInv_step: "scoresInv w \<Longrightarrow> scoresInv (bumpEpoch b (incrementScore b x d y c w))"
  by (auto simp: scoresInv_def bumpEpoch_def incrementScore_def Let_def split: option.splits if_splits)

text \<open>
  A host credit adds its amount to the host's row of that day on the HOST board for gifts, calls,
  subscriptions and guardian purchases, and on the GIFT board for gifts only, and touches no other
  score; taking the same amount back restores every score.
\<close>

theorem host_scores_add_and_revert:
  assumes inv: "scoresInv w" and amt: "0 < amt"
  shows "let w1 = onHostPointCredit h amt tt day w; w2 = onHostPointCredit h (- amt) tt day w1 in
    (\<forall>k. scoreOf w1 k = scoreOf w k
        + (if k = (HOST, h, day) \<and> tt \<in> set HOST_RANKING_TX_TYPES
              \<or> k = (GIFT, h, day) \<and> tt \<in> set GIFT_RANKING_TX_TYPES then amt else 0))
    \<and> (\<forall>k. scoreOf w2 k = scoreOf w k) \<and> scoresInv w1 \<and> scoresInv w2"
proof -
  have nonneg: "0 \<le> scoreOf w k" for k
    using inv by (cases k) (fastforce simp: scoresInv_def scoreOf_def split: option.split)
  have inv': "scoresInv v \<Longrightarrow> scoresInv (onHostPointCredit h a tt day v)" for a v
    by (simp add: onHostPointCredit_def Let_def scoresInv_step)
  have one: "scoreOf (onHostPointCredit h amt tt day w) k = scoreOf w k
        + (if k = (HOST, h, day) \<and> tt \<in> set HOST_RANKING_TX_TYPES
              \<or> k = (GIFT, h, day) \<and> tt \<in> set GIFT_RANKING_TX_TYPES then amt else 0)" for k
    using nonneg [of k] amt by (auto simp: onHostPointCredit_def Let_def scoreOf_step)
  have two: "scoreOf (onHostPointCredit h (- amt) tt day (onHostPointCredit h amt tt day w)) k = scoreOf w k" for k
    using nonneg [of k] amt one [of k]
    by (auto simp: onHostPointCredit_def [of h "- amt"] Let_def scoreOf_step split: if_splits)
  show ?thesis using one two inv' [OF inv] inv' [OF inv' [OF inv]] by (simp add: Let_def del: split_paired_All)
qed

theorem host_scores_add_and_revert_witness:
  "scoreOf (onHostPointCredit 5 40 P_VIDEO_CALL 3 emptyWorld) (HOST, 5, 3) = 40
   \<and> scoreOf (onHostPointCredit 5 40 P_VIDEO_CALL 3 emptyWorld) (GIFT, 5, 3) = 0
   \<and> scoreOf (onHostPointCredit 5 (- 40) P_VIDEO_CALL 3 (onHostPointCredit 5 40 P_VIDEO_CALL 3 emptyWorld)) (HOST, 5, 3) = 0"
proof -
  have inv: "scoresInv emptyWorld" by (simp add: scoresInv_def emptyWorld_def)
  have z: "scoreOf emptyWorld k = 0" for k by (simp add: scoreOf_def emptyWorld_def)
  show ?thesis
    using host_scores_add_and_revert [OF inv, of 40 5 P_VIDEO_CALL 3]
    by (simp add: Let_def z HOST_RANKING_TX_TYPES_def GIFT_RANKING_TX_TYPES_def)
qed

end
