(* ===== verification/PointWallet.thy ===== *)
theory PointWallet
  imports Ranking
begin

text \<open>
  Points: \<open>src/src/services/point-wallet.service.ts\<close> (credit, debit, escrow, balances) and the hot
  path of \<open>src/src/services/agencyCommission.service.ts\<close> (\<open>applyCommission\<close>, \<open>reverseCommission\<close>).
  The two services call each other: a host credit applies a commission, which is itself a point
  credit. Commission credits never carry a commission, so the credit is written once with the
  commission step as a parameter and the knot is tied below.
\<close>

section \<open>References and gift fields\<close>

definition nonBlank :: "string \<Rightarrow> bool" where
  "nonBlank s \<longleftrightarrow> (\<exists>c\<in>set s. \<not> isSpace c)"

fun firstField :: "json option \<Rightarrow> string list \<Rightarrow> string option" where
  "firstField m [] = None"
| "firstField m (k # ks) =
     (case json_field m k of
        Some (JStr v) \<Rightarrow> if nonBlank v then Some v else firstField m ks
      | _ \<Rightarrow> firstField m ks)"

definition resolvePointLedgerRefId :: "string option \<Rightarrow> json option \<Rightarrow> string option" where
  "resolvePointLedgerRefId ref meta =
     (case ref of
        Some r \<Rightarrow> if nonBlank r then Some r
                  else firstField meta [''transferId'', ''withdrawalId'', ''subscriptionId'', ''giftTransactionId'']
      | None \<Rightarrow> firstField meta [''transferId'', ''withdrawalId'', ''subscriptionId'', ''giftTransactionId''])"

definition strField :: "json option \<Rightarrow> string \<Rightarrow> bool \<Rightarrow> (string \<times> json) list" where
  "strField m k allowEmpty =
     (case json_field m k of Some (JStr v) \<Rightarrow> if allowEmpty \<or> v \<noteq> [] then [(k, JStr v)] else [] | _ \<Rightarrow> [])"

definition numField :: "json option \<Rightarrow> string \<Rightarrow> (string \<times> json) list" where
  "numField m k = (case json_field m k of Some (JNum v) \<Rightarrow> [(k, JNum v)] | _ \<Rightarrow> [])"

definition giftFieldsFromHostLedger :: "PointTxType ledger_entry option \<Rightarrow> (string \<times> json) list option" where
  "giftFieldsFromHostLedger hostEntry =
     (case hostEntry of
        None \<Rightarrow> None
      | Some e \<Rightarrow>
          (case json_field (metadata e) ''giftId'' of
             Some (JStr g) \<Rightarrow>
               if g = [] then None
               else Some ([(''giftId'', JStr g)] @ strField (metadata e) ''giftName'' False
                 @ strField (metadata e) ''context'' True @ numField (metadata e) ''quantity''
                 @ numField (metadata e) ''unitCoinCost''
                 @ (case counterpartyId e of None \<Rightarrow> [] | Some u \<Rightarrow> [(''senderUserId'', JStr (show_nat u))]))
           | _ \<Rightarrow> None))"

section \<open>Crediting points\<close>

record point_options =
  p_idempotencyKey :: string
  p_refId :: "string option"
  p_counterpartyId :: "uid option"
  p_description :: "string option"
  p_metadata :: "json option"
  p_applyLivestreamLevel :: bool

record point_result =
  p_ledgerEntryId :: nat
  p_balanceAfter :: int
  bustAgentUserId :: "uid option"
  livestreamLevelResult :: "LevelApplyResult option"

text \<open>Host user, ledger entry, points and type of a host credit, and the UTC day.\<close>

type_synonym commission_step = "uid \<Rightarrow> nat \<Rightarrow> int \<Rightarrow> PointTxType \<Rightarrow> int \<Rightarrow> world \<Rightarrow> error + uid option \<times> world"

definition pointEntry ::
  "wid \<Rightarrow> LedgerDirection \<Rightarrow> PointTxType \<Rightarrow> int \<Rightarrow> int \<Rightarrow> point_options \<Rightarrow> PointTxType ledger_entry" where
  "pointEntry i dir tt amt bal opts =
     (newEntry i dir tt amt bal (p_idempotencyKey opts))
       \<lparr>refId := p_refId opts, counterpartyId := p_counterpartyId opts,
        description := p_description opts, metadata := p_metadata opts\<rparr>"

definition commissionStep ::
  "commission_step \<Rightarrow> uid \<Rightarrow> nat \<Rightarrow> int \<Rightarrow> PointTxType \<Rightarrow> world \<Rightarrow> error + uid option \<times> world" where
  "commissionStep commission u i amt tt w =
     (if tt \<in> {P_LIVESTREAM_GIFT, P_GIFT_RECEIVE, P_VIDEO_CALL, P_SUBSCRIPTION, P_GUARDIAN_PURCHASE}
      then commission u i amt tt (utcDayFromTimestamp (clock w)) w
      else Inr (None, w))"

definition livestreamStep ::
  "bool \<Rightarrow> uid \<Rightarrow> int \<Rightarrow> PointTxType \<Rightarrow> world \<Rightarrow> error + LevelApplyResult option \<times> world" where
  "livestreamStep applyXp u amt tt w =
     (if applyXp \<and> tt \<noteq> P_AGENT_COMMISSION \<and> tt \<noteq> P_AGENT_POINT_TRANSFER
      then andThen (applyCredit u LIVESTREAM amt w) (\<lambda>(r, w1). Inr (Some r, w1))
      else Inr (None, w))"

definition creditWith ::
  "commission_step \<Rightarrow> uid \<Rightarrow> int \<Rightarrow> PointTxType \<Rightarrow> point_options \<Rightarrow> world \<Rightarrow> error + point_result \<times> world" where
  "creditWith commission u amt tt opts w =
     andThen (assertPositiveAmount amt) (\<lambda>_.
     case findByIdempotencyKey (pointLedger w) (p_idempotencyKey opts) of
       Some e \<Rightarrow> Inr (\<lparr> p_ledgerEntryId = entry_id e, p_balanceAfter = balanceAfter e,
                       bustAgentUserId = None, livestreamLevelResult = None \<rparr>, w)
     | None \<Rightarrow>
         (let (wl, w1) = getOrCreate u POINT w;
              w2 = snd (lockForUpdate (wallet_id wl) w1);
              newBalance = latestPointBalance w2 (wallet_id wl) + amt in
          andThen (pointInsert (pointEntry (wallet_id wl) CREDIT tt amt newBalance opts) w2) (\<lambda>(e, w3).
          let w4 = enqueuePlatformLedgerMessage ''point'' (entry_id e) (bumpVersion (wallet_id wl) w3) in
          andThen (commissionStep commission u (entry_id e) amt tt w4) (\<lambda>(bust, w5).
          let w6 = onHostPointCredit u amt tt (utcDayFromTimestamp (clock w5)) w5 in
          andThen (livestreamStep (p_applyLivestreamLevel opts) u amt tt w6) (\<lambda>(lr, w7).
          Inr (\<lparr> p_ledgerEntryId = entry_id e, p_balanceAfter = balanceAfter e,
                 bustAgentUserId = bust, livestreamLevelResult = lr \<rparr>,
               enqueuePlatformLedgerMessage ''point'' (entry_id e) w7))))))"

text \<open>The credit of a commission: its type is not one that triggers a commission.\<close>

definition creditAgentCommission ::
  "uid \<Rightarrow> int \<Rightarrow> point_options \<Rightarrow> world \<Rightarrow> error + point_result \<times> world" where
  "creditAgentCommission u amt opts w =
     creditWith (\<lambda>_ _ _ _ _ w. Inr (None, w)) u amt P_AGENT_COMMISSION opts w"

section \<open>Agency commission\<close>

definition LIVE_COMMISSION_TX_TYPES :: "PointTxType list" where
  "LIVE_COMMISSION_TX_TYPES = [P_GIFT_RECEIVE, P_LIVESTREAM_GIFT]"

definition MATCH_CHAT_COMMISSION_TX_TYPES :: "PointTxType list" where
  "MATCH_CHAT_COMMISSION_TX_TYPES = [P_VIDEO_CALL]"

definition COMMISSION_ELIGIBLE_TX_TYPES :: "PointTxType list" where
  "COMMISSION_ELIGIBLE_TX_TYPES = LIVE_COMMISSION_TX_TYPES @ MATCH_CHAT_COMMISSION_TX_TYPES"

datatype CommissionCategory = LIVE | MATCH_CHAT

definition categoryForTx :: "PointTxType \<Rightarrow> CommissionCategory option" where
  "categoryForTx tt =
     (if tt \<in> set LIVE_COMMISSION_TX_TYPES then Some LIVE
      else if tt \<in> set MATCH_CHAT_COMMISSION_TX_TYPES then Some MATCH_CHAT else None)"

definition commissionKey :: "nat \<Rightarrow> string" where
  "commissionKey i = ''agency-commission:'' @ show_nat i"

text \<open>The agency of a host: membership first, else the agency the host owns.\<close>

definition agencyOfHost :: "uid \<Rightarrow> world \<Rightarrow> uid option" where
  "agencyOfHost host w =
     (case (case users w host of None \<Rightarrow> None | Some r \<Rightarrow> currentAgencyId r) of
        Some a \<Rightarrow> Some a
      | None \<Rightarrow> (case agencies w host of None \<Rightarrow> None | Some _ \<Rightarrow> Some host))"

definition agencyPaused :: "agency_row option \<Rightarrow> int \<Rightarrow> bool" where
  "agencyPaused row now =
     (case row of
        None \<Rightarrow> False
      | Some r \<Rightarrow> agency_pausedAt r \<noteq> None
          \<and> (case agency_pausedUntil r of None \<Rightarrow> True | Some t \<Rightarrow> t > now))"

definition createProcessed :: "nat \<Rightarrow> world \<Rightarrow> world option" where
  "createProcessed i w =
     (if i \<in> set (commissionProcessed w) then None
      else Some (w\<lparr>commissionProcessed := commissionProcessed w @ [i]\<rparr>))"

definition upsertDailyEarning :: "uid \<Rightarrow> uid \<Rightarrow> int \<Rightarrow> int \<Rightarrow> int \<Rightarrow> world \<Rightarrow> world" where
  "upsertDailyEarning agency host day earn comm w =
     (let (e0, c0) = (case dailyEarnings w (agency, host, day) of None \<Rightarrow> (0, 0) | Some r \<Rightarrow> r)
      in w\<lparr>dailyEarnings := (dailyEarnings w)((agency, host, day) \<mapsto> (max 0 (e0 + earn), max 0 (c0 + comm)))\<rparr>)"

definition categoryName :: "CommissionCategory \<Rightarrow> string" where
  "categoryName c = (case c of LIVE \<Rightarrow> ''LIVE'' | MATCH_CHAT \<Rightarrow> ''MATCH_CHAT'')"

text \<open>The options of the commission credit, from the ledger row of the host.\<close>

definition commissionOptions ::
  "uid \<Rightarrow> nat \<Rightarrow> PointTxType \<Rightarrow> CommissionCategory \<Rightarrow> int \<Rightarrow> world \<Rightarrow> point_options" where
  "commissionOptions host i tt cat rateBp w =
     (let hostEntry = find (\<lambda>e. entry_id e = i) (pointLedger w);
          businessRefId = (case resolvePointLedgerRefId (case hostEntry of None \<Rightarrow> None | Some e \<Rightarrow> refId e)
                                  (case hostEntry of None \<Rightarrow> None | Some e \<Rightarrow> metadata e) of
                             Some r \<Rightarrow> r | None \<Rightarrow> show_nat i);
          giftFields = (case giftFieldsFromHostLedger hostEntry of None \<Rightarrow> [] | Some fs \<Rightarrow> fs)
      in \<lparr> p_idempotencyKey = commissionKey i, p_refId = Some businessRefId,
           p_counterpartyId = Some host,
           p_description = (case map_of giftFields ''giftName'' of
                              Some (JStr n) \<Rightarrow> Some (''Agency commission: '' @ n) | _ \<Rightarrow> None),
           p_metadata = Some (JObj ([(''category'', JStr (categoryName cat)), (''rateBp'', JNum rateBp),
               (''hostTxType'', JStr (pointTxName tt)), (''hostLedgerEntryId'', JStr (show_nat i))] @ giftFields)),
           p_applyLivestreamLevel = False \<rparr>)"

definition applyCommission :: commission_step where
  "applyCommission host i pts tt day w =
     (case agencyOfHost host w of
        None \<Rightarrow> Inr (None, w)
      | Some agency \<Rightarrow>
          if tt \<notin> set COMMISSION_ELIGIBLE_TX_TYPES then Inr (None, w)
          else if agencyPaused (agencies w agency) (clock w) then
            (case createProcessed i w of None \<Rightarrow> Inr (None, w) | Some w1 \<Rightarrow> Inr (None, w1))
          else
            (let levelKey = (case agencies w agency of None \<Rightarrow> ''D'' | Some r \<Rightarrow> agency_level r) in
             case commissionLevels w levelKey of
               None \<Rightarrow> Inl (AppError 500 ''CONFIG_ERROR'' [])
             | Some (liveRateBp, matchChatRateBp) \<Rightarrow>
                 (case categoryForTx tt of
                    None \<Rightarrow> Inr (None, w)
                  | Some cat \<Rightarrow>
                      (let rateBp = (if cat = LIVE then liveRateBp else matchChatRateBp);
                           commissionPoints = bdiv (pts * rateBp) 10000 in
                       case createProcessed i w of
                         None \<Rightarrow> Inr (None, w)
                       | Some w1 \<Rightarrow>
                           (let w2 = upsertDailyEarning agency host day pts commissionPoints w1;
                                w3 = onAgencyEarnings agency pts day w2 in
                            if commissionPoints > 0 then
                              andThen (creditAgentCommission agency commissionPoints
                                 (commissionOptions host i tt cat rateBp w3) w3) (\<lambda>(_, w4).
                              Inr (Some agency, w4))
                            else Inr (Some agency, w3))))))"

section \<open>The point operations\<close>

definition creditInTransaction ::
  "uid \<Rightarrow> int \<Rightarrow> PointTxType \<Rightarrow> point_options \<Rightarrow> world \<Rightarrow> error + point_result \<times> world" where
  "creditInTransaction u amt tt opts w = creditWith applyCommission u amt tt opts w"

lemma creditInTransaction_commission:
  "creditInTransaction u amt P_AGENT_COMMISSION opts w = creditAgentCommission u amt opts w"
proof -
  have same: "commissionStep f u i amt P_AGENT_COMMISSION w = commissionStep g u i amt P_AGENT_COMMISSION w" for f g i w
    by (simp add: commissionStep_def)
  show ?thesis
    unfolding creditInTransaction_def creditAgentCommission_def creditWith_def same [where f = applyCommission and g = "\<lambda>_ _ _ _ _ w. Inr (None, w)"] ..
qed

definition insufficientPoints :: "int \<Rightarrow> int \<Rightarrow> int \<Rightarrow> error" where
  "insufficientPoints available required unconfirmed =
     AppError 400 ''INSUFFICIENT_POINTS''
       [(''balance'', JBig available), (''required'', JBig required), (''unconfirmed'', JBig unconfirmed)]"

definition pointDebit ::
  "uid \<Rightarrow> int \<Rightarrow> PointTxType \<Rightarrow> bool \<Rightarrow> bool \<Rightarrow> point_options \<Rightarrow> world \<Rightarrow> error + (nat \<times> int) \<times> world" where
  "pointDebit u amt tt availabilityCheck freezeCheck opts w =
     andThen (assertPositiveAmount amt) (\<lambda>_.
     case findByIdempotencyKey (pointLedger w) (p_idempotencyKey opts) of
       Some e \<Rightarrow> Inr ((entry_id e, balanceAfter e), w)
     | None \<Rightarrow>
         (let (wl, w1) = getOrCreate u POINT w;
              w2 = snd (lockForUpdate (wallet_id wl) w1) in
          andThen (if freezeCheck then assertPointsDebitAllowed u w2 else Inr ()) (\<lambda>_.
          let balance = latestPointBalance w2 (wallet_id wl);
              unconfirmed = unconfirmedPoints wl;
              available = (if availabilityCheck then balance - unconfirmed else balance) in
          andThen (require (\<not> available < amt) (insufficientPoints available amt unconfirmed)) (\<lambda>_.
          andThen (pointInsert (pointEntry (wallet_id wl) DEBIT tt amt (balance - amt) opts) w2) (\<lambda>(e, w3).
          Inr ((entry_id e, balanceAfter e),
               enqueuePlatformLedgerMessage ''point'' (entry_id e) (bumpVersion (wallet_id wl) w3)))))))"

text \<open>The soft escrow of a withdrawal: a row that carries the running balance forward.\<close>

definition escrow ::
  "uid \<Rightarrow> int \<Rightarrow> PointTxType \<Rightarrow> point_options \<Rightarrow> world \<Rightarrow> error + (nat \<times> int) \<times> world" where
  "escrow u amt tt opts w =
     andThen (assertPositiveAmount amt) (\<lambda>_.
     case findByIdempotencyKey (pointLedger w) (p_idempotencyKey opts) of
       Some e \<Rightarrow> Inr ((entry_id e, balanceAfter e), w)
     | None \<Rightarrow>
         andThen (assertPointsDebitAllowed u w) (\<lambda>_.
         let (wl, w1) = getOrCreate u POINT w;
             w2 = snd (lockForUpdate (wallet_id wl) w1);
             runningBalance = latestPointBalance w2 (wallet_id wl) in
         andThen (pointInsert (pointEntry (wallet_id wl) DEBIT tt amt runningBalance opts) w2) (\<lambda>(e, w3).
         Inr ((entry_id e, balanceAfter e), bumpVersion (wallet_id wl) w3))))"

definition getUnconfirmedPoints :: "uid \<Rightarrow> world \<Rightarrow> int \<times> world" where
  "getUnconfirmedPoints u w =
     (case (if redisUp w then unconfirmedCache w u else None) of
        Some v \<Rightarrow> (v, w)
      | None \<Rightarrow>
          (let (wl, w1) = getOrCreate u POINT w; v = unconfirmedPoints wl
           in (v, if redisUp w1 then w1\<lparr>unconfirmedCache := (unconfirmedCache w1)(u \<mapsto> v)\<rparr> else w1)))"

text \<open>(total, available, unconfirmed)\<close>

definition getBalanceBreakdown :: "uid \<Rightarrow> world \<Rightarrow> (int \<times> int \<times> int) \<times> world" where
  "getBalanceBreakdown u w =
     (let totalRaw = (if redisUp w then pointCache w u else None);
          unconfRaw = (if redisUp w then unconfirmedCache w u else None) in
      case (totalRaw, unconfRaw) of
        (Some t, Some n) \<Rightarrow> ((t, t - n, n), w)
      | _ \<Rightarrow>
          (let (wl, w1) = getOrCreate u POINT w;
               n = (case unconfRaw of Some n \<Rightarrow> n | None \<Rightarrow> unconfirmedPoints wl);
               t = (case totalRaw of Some t \<Rightarrow> t | None \<Rightarrow> pointComputeBalance (wallet_id wl) w1);
               w2 = (if redisUp w1 \<and> totalRaw = None then w1\<lparr>pointCache := (pointCache w1)(u \<mapsto> t)\<rparr> else w1);
               w3 = (if redisUp w2 \<and> unconfRaw = None
                     then w2\<lparr>unconfirmedCache := (unconfirmedCache w2)(u \<mapsto> n)\<rparr> else w2)
           in ((t, t - n, n), w3)))"

definition getAvailablePoints :: "uid \<Rightarrow> world \<Rightarrow> int \<times> world" where
  "getAvailablePoints u w = (let ((_, a, _), w') = getBalanceBreakdown u w in (a, w'))"

section \<open>Reversing a commission\<close>

definition walletUser :: "wid \<Rightarrow> world \<Rightarrow> uid" where
  "walletUser i w = (case find (\<lambda>wl. wallet_id wl = i) (wallets w) of Some wl \<Rightarrow> wallet_user wl | None \<Rightarrow> 0)"

text \<open>(agent whose caches are stale, whether something was reversed, reversed points)\<close>

definition reverseCommission ::
  "nat \<Rightarrow> string \<Rightarrow> world \<Rightarrow> error + (uid option \<times> bool \<times> int option) \<times> world" where
  "reverseCommission i reason w =
     (if i \<notin> set (commissionProcessed w) then Inr ((None, False, None), w)
      else case find (\<lambda>e. entry_id e = i) (pointLedger w) of
        None \<Rightarrow> Inr ((None, False, None), w)
      | Some hostEntry \<Rightarrow>
          (let host = walletUser (walletId hostEntry) w;
               day = utcDayFromTimestamp (createdAt hostEntry) in
           andThen
             (case findByIdempotencyKey (pointLedger w) (commissionKey i) of
                Some ce \<Rightarrow>
                  (let agency = walletUser (walletId ce) w in
                   andThen (pointDebit agency (amount ce) P_ADJUSTMENT True True
                      \<lparr> p_idempotencyKey = ''agency-commission-reverse:'' @ show_nat i,
                        p_refId = Some (show_nat i), p_counterpartyId = Some host,
                        p_description = Some (take 500 (''Admin commission reverse: '' @ reason)),
                        p_metadata = Some (JObj [(''source'', JStr ''admin_commission_reverse''),
                           (''hostLedgerEntryId'', JStr (show_nat i)),
                           (''originalCommissionLedgerEntryId'', JStr (show_nat (entry_id ce))),
                           (''reason'', JStr reason)]),
                        p_applyLivestreamLevel = False \<rparr> w) (\<lambda>(_, w1).
                   Inr ((Some agency, amount ce), w1)))
              | None \<Rightarrow> Inr ((agencyOfHost host w, 0), w)) (\<lambda>((agency, pts), w1).
           let w2 = (case agency of
                       None \<Rightarrow> w1
                     | Some a \<Rightarrow> onAgencyEarnings a (- amount hostEntry) day
                         (upsertDailyEarning a host day (- amount hostEntry) (- pts) w1));
               w3 = onHostPointCredit host (- amount hostEntry) (txType hostEntry) day w2
           in Inr ((agency, True, if pts > 0 then Some pts else None),
                   w3\<lparr>commissionProcessed := removeAll i (commissionProcessed w3)\<rparr>))))"

section \<open>Posting points\<close>

lemma pointEntry_fields [simp]:
  "walletId (pointEntry i dir tt amt bal opts) = i" "amount (pointEntry i dir tt amt bal opts) = amt"
  "balanceAfter (pointEntry i dir tt amt bal opts) = bal"
  "idempotencyKey (pointEntry i dir tt amt bal opts) = p_idempotencyKey opts"
  "direction (pointEntry i dir tt amt bal opts) = dir" "txType (pointEntry i dir tt amt bal opts) = tt"
  by (simp_all add: pointEntry_def)

lemma pointDelta_pointEntry [simp]:
  "pointDelta (pointEntry i dir tt amt bal opts) =
     (if tt = P_WITHDRAWAL_ESCROW then 0 else case dir of CREDIT \<Rightarrow> amt | DEBIT \<Rightarrow> - amt)"
  by (cases dir) (simp_all add: pointDelta_def)

text \<open>What the wallet upsert, the locks and the inserts leave alone.\<close>

definition postFrame :: "world \<Rightarrow> world \<Rightarrow> bool" where
  "postFrame w w' \<longleftrightarrow> users w' = users w \<and> agencies w' = agencies w
     \<and> commissionLevels w' = commissionLevels w \<and> commissionProcessed w' = commissionProcessed w
     \<and> clock w' = clock w \<and> redisUp w' = redisUp w \<and> shares w' = shares w \<and> gifts w' = gifts w
     \<and> coinCache w' = coinCache w \<and> pointCache w' = pointCache w \<and> sessions w' = sessions w
     \<and> giftTransactions w' = giftTransactions w \<and> luckyPools w' = luckyPools w
     \<and> luckyAudits w' = luckyAudits w \<and> reservePool w' = reservePool w \<and> luckyConfigs w' = luckyConfigs w
     \<and> luckyModes w' = luckyModes w \<and> luckySeeds w' = luckySeeds w \<and> nextId w \<le> nextId w'"

lemma postFrame_refl [simp]: "postFrame w w"
  by (simp add: postFrame_def)

lemma postFrame_trans: "postFrame a b \<Longrightarrow> postFrame b c \<Longrightarrow> postFrame a c"
  by (simp add: postFrame_def)

lemma postFrame_admin: "postFrame w w' \<Longrightarrow> adminTables w w'"
  by (simp add: postFrame_def adminTables_def)

lemma postFrame_getOrCreate: "getOrCreate u c w = (wl, w1) \<Longrightarrow> postFrame w w1"
  by (auto simp: getOrCreate_def Let_def postFrame_def split: option.splits)

lemma postFrame_steps [simp]:
  "postFrame w (snd (lockForUpdate i w))" "postFrame w (bumpVersion i w)"
  "postFrame w (enqueuePlatformLedgerMessage k j w)"
  by (simp_all add: postFrame_def lockForUpdate_def bumpVersion_def enqueuePlatformLedgerMessage_def)

lemma postFrame_insert:
  "pointInsert d w = Inr (e, w') \<Longrightarrow> postFrame w w'" "coinInsert c w = Inr (e', w'') \<Longrightarrow> postFrame w w''"
  by (simp_all add: pointInsert_Inr coinInsert_Inr postFrame_def)

lemma postFrame_level: "levelFrame w w' \<Longrightarrow> postFrame w w'"
  by (auto simp: levelFrame_def postFrame_def)

lemma postFrame_rank: "rankFrame w w' \<Longrightarrow> postFrame w w'"
  by (auto simp: rankFrame_def postFrame_def)

lemma locked_point_balance:
  assumes wf: "Ledger.wf w" and g: "getOrCreate u POINT w = (wl, w1)"
  shows "latestPointBalance (snd (lockForUpdate i w1)) (wallet_id wl) = balanceOf w (u, POINT)"
proof -
  have "Ledger.wf w1" "balanceOf w1 (u, POINT) = balanceOf w (u, POINT)"
    using moved_wf [OF getOrCreate_moved [OF g] wf] moved_bal [OF getOrCreate_moved [OF g] wf] by simp_all
  then show ?thesis
    using getOrCreate_wallet [OF g] pointComputeBalance_balanceOf [of w1 wl]
    by (simp add: pointComputeBalance_def latestPointBalance_def)
qed

lemma point_post_moved:
  assumes g: "getOrCreate u POINT w = (wl, w1)"
    and ins: "pointInsert d (snd (lockForUpdate i w1)) = Inr (e, w3)" and wal: "walletId d = wallet_id wl"
    and bal: "balanceAfter d = latestPointBalance (snd (lockForUpdate i w1)) (wallet_id wl) + pointDelta d"
    and nonneg: "0 \<le> pointDelta d \<or> 0 \<le> balanceAfter d"
  shows "moved w w3 (moving (u, POINT) (pointDelta d))"
proof -
  note wl = getOrCreate_wallet [OF g]
  have "moved w (snd (lockForUpdate i w1)) still"
    using moved_still [OF getOrCreate_moved [OF g] lockForUpdate_moved] .
  moreover have "moved (snd (lockForUpdate i w1)) w3 (moving (wallet_user wl, POINT) (pointDelta d))"
    using wl wal bal by (intro pointInsert_moved [OF ins _ _ _ _ nonneg]) simp_all
  ultimately show ?thesis using wl still_moved by blast
qed

lemma pointInsert_found:
  "pointInsert d w = Inr (e, w') \<Longrightarrow> findByIdempotencyKey (pointLedger w') (idempotencyKey d) = Some e"
  using findByIdempotencyKey_append [of "pointLedger w" e] by (auto simp: pointInsert_Inr)

lemma ledger_rows_mono:
  "findByIdempotencyKey rows k = Some e \<Longrightarrow> findByIdempotencyKey (rows @ later) k = Some e"
  by (simp add: findByIdempotencyKey_def find_append)

section \<open>Commission due\<close>

text \<open>
  The agency that earns from a host credit and what it earns, read off the tables: the host's
  agency, when the type is eligible and the agency is not paused, at the rate of its level.
\<close>

definition commissionDue :: "uid \<Rightarrow> int \<Rightarrow> PointTxType \<Rightarrow> world \<Rightarrow> (uid \<times> int) option" where
  "commissionDue host pts tt w =
     (case agencyOfHost host w of
        None \<Rightarrow> None
      | Some agency \<Rightarrow>
          if tt \<notin> set COMMISSION_ELIGIBLE_TX_TYPES \<or> agencyPaused (agencies w agency) (clock w) then None
          else
            (case commissionLevels w (case agencies w agency of None \<Rightarrow> ''D'' | Some r \<Rightarrow> agency_level r) of
               None \<Rightarrow> None
             | Some (live, match) \<Rightarrow>
                 (let c = bdiv (pts * (if tt \<in> set LIVE_COMMISSION_TX_TYPES then live else match)) 10000
                  in if 0 < c then Some (agency, c) else None)))"

definition dueMove :: "(uid \<times> int) option \<Rightarrow> uid \<times> WalletCurrencyType \<Rightarrow> int" where
  "dueMove due = (case due of None \<Rightarrow> still | Some (agency, c) \<Rightarrow> moving (agency, POINT) c)"

lemma commissionDue_postFrame: "postFrame w w' \<Longrightarrow> commissionDue h p t w' = commissionDue h p t w"
proof -
  assume f: "postFrame w w'"
  have eqs: "users w' = users w" "agencies w' = agencies w" "commissionLevels w' = commissionLevels w" "clock w' = clock w"
    using f by (simp_all add: postFrame_def)
  show ?thesis unfolding commissionDue_def agencyOfHost_def eqs ..
qed

text \<open>Markers and commission keys only mention rows that exist.\<close>

definition commissionInv :: "world \<Rightarrow> bool" where
  "commissionInv w \<longleftrightarrow> (\<forall>r\<in>set (pointLedger w). \<forall>n. idempotencyKey r = commissionKey n \<longrightarrow> n < nextId w)
     \<and> (\<forall>n\<in>set (commissionProcessed w). n < nextId w)"

definition isCommissionKey :: "string \<Rightarrow> bool" where
  "isCommissionKey k \<longleftrightarrow> take 18 k = ''agency-commission:''"

lemma commissionKey_inj [simp]: "commissionKey i = commissionKey j \<longleftrightarrow> i = j"
  by (simp add: commissionKey_def)

lemma commissionKey_is [simp]: "isCommissionKey (commissionKey n)"
  by (simp add: isCommissionKey_def commissionKey_def)

lemma commissionInv_fresh:
  "commissionInv w \<Longrightarrow> nextId w \<le> n \<Longrightarrow>
     findByIdempotencyKey (pointLedger w) (commissionKey n) = None \<and> n \<notin> set (commissionProcessed w)"
  by (force simp: commissionInv_def findByIdempotencyKey_def find_None_set)

section \<open>Effect of a credit\<close>

lemma creditWith_inv:
  assumes run: "creditWith f u amt tt opts w = Inr (r, w')" and tt: "tt \<noteq> P_WITHDRAWAL_ESCROW"
    and fresh: "findByIdempotencyKey (pointLedger w) (p_idempotencyKey opts) = None"
  obtains e w4 bust w5 where
    "0 < amt" "moved w w4 (moving (u, POINT) amt)" "postFrame w w4" "pointLedger w4 = pointLedger w @ [e]"
    "nextId w \<le> entry_id e" "entry_id e < nextId w4" "idempotencyKey e = p_idempotencyKey opts"
    "commissionStep f u (entry_id e) amt tt w4 = Inr (bust, w5)"
    "moved w5 w' still" "postFrame w5 w'" "pointLedger w' = pointLedger w5" "coinLedger w' = coinLedger w5"
    "coinLedger w4 = coinLedger w"
    "p_ledgerEntryId r = entry_id e" "p_balanceAfter r = balanceAfter e" "bustAgentUserId r = bust"
    "txType e = tt" "amount e = amt"
proof -
  obtain wl w1 where g: "getOrCreate u POINT w = (wl, w1)" by fastforce
  let ?w2 = "snd (lockForUpdate (wallet_id wl) w1)"
  let ?d = "pointEntry (wallet_id wl) CREDIT tt amt (latestPointBalance ?w2 (wallet_id wl) + amt) opts"
  from run fresh obtain e w3 bust w5 lr w7 where pos: "0 < amt" and ins: "pointInsert ?d ?w2 = Inr (e, w3)"
    and com: "commissionStep f u (entry_id e) amt tt
             (enqueuePlatformLedgerMessage ''point'' (entry_id e) (bumpVersion (wallet_id wl) w3)) = Inr (bust, w5)"
    and lvl: "livestreamStep (p_applyLivestreamLevel opts) u amt tt
             (onHostPointCredit u amt tt (utcDayFromTimestamp (clock w5)) w5) = Inr (lr, w7)"
    and r: "r = \<lparr> p_ledgerEntryId = entry_id e, p_balanceAfter = balanceAfter e,
                 bustAgentUserId = bust, livestreamLevelResult = lr \<rparr>"
    and w': "w' = enqueuePlatformLedgerMessage ''point'' (entry_id e) w7"
    unfolding creditWith_def by (clarsimp simp: Let_def g andThen_Inr_iff)
  let ?w4 = "enqueuePlatformLedgerMessage ''point'' (entry_id e) (bumpVersion (wallet_id wl) w3)"
  let ?w6 = "onHostPointCredit u amt tt (utcDayFromTimestamp (clock w5)) w5"
  have lf: "levelFrame ?w6 w7"
    using lvl
    by (auto simp: livestreamStep_def andThen_Inr_iff levelFrame_refl dest: applyCredit_levelFrame split: if_splits)
  have "moved w w3 (moving (u, POINT) amt)"
    using point_post_moved [OF g ins] pos tt by simp
  then have m4: "moved w ?w4 (moving (u, POINT) amt)"
    using moved_still [OF moved_still [OF _ bumpVersion_moved] enqueue_moved] by blast
  have f2: "postFrame w ?w2" using postFrame_trans [OF postFrame_getOrCreate [OF g]] by simp
  have f3: "postFrame w w3" using postFrame_trans [OF f2 postFrame_insert(1) [OF ins]] .
  then have f4: "postFrame w ?w4" by (meson postFrame_steps postFrame_trans)
  have m5: "moved w5 w' still"
    unfolding w' using moved_still [OF moved_still [OF rankFrame_moved levelFrame_moved] enqueue_moved, OF _ lf] by simp
  have f5: "postFrame w5 w'"
    unfolding w' using postFrame_rank [OF onHostPointCredit_frame] postFrame_level [OF lf]
    by (meson postFrame_steps(3) postFrame_trans)
  have l5: "pointLedger w' = pointLedger w5" "coinLedger w' = coinLedger w5"
    using levelFrame_keeps [OF lf] rankFrame_keeps [OF onHostPointCredit_frame] by (simp_all add: w')
  have i: "e = ?d\<lparr>entry_id := nextId ?w2, createdAt := clock ?w2\<rparr>" "pointLedger ?w4 = pointLedger w @ [e]"
    "coinLedger ?w4 = coinLedger w"
    using ins getOrCreate_keeps [OF g] by (auto simp: pointInsert_Inr)
  have id: "nextId w \<le> entry_id e" "entry_id e < nextId ?w4"
    using ins f2 by (auto simp: pointInsert_Inr postFrame_def bumpVersion_def enqueuePlatformLedgerMessage_def)
  show thesis
    by (rule that [OF pos m4 f4 i(2) id _ com m5 f5 l5 i(3)]) (simp_all add: i r)
qed

lemma creditAgentCommission_posts:
  assumes run: "creditAgentCommission u amt opts w = Inr (r, w')"
    and fresh: "findByIdempotencyKey (pointLedger w) (p_idempotencyKey opts) = None"
  shows "moved w w' (moving (u, POINT) amt)" "postFrame w w'" "coinLedger w' = coinLedger w"
    "\<exists>e. pointLedger w' = pointLedger w @ [e] \<and> idempotencyKey e = p_idempotencyKey opts"
proof -
  obtain e w4 bust w5 where
    m4: "moved w w4 (moving (u, POINT) amt)" and f4: "postFrame w w4" and l4: "pointLedger w4 = pointLedger w @ [e]"
    and key: "idempotencyKey e = p_idempotencyKey opts"
    and com: "commissionStep (\<lambda>_ _ _ _ _ w. Inr (None, w)) u (entry_id e) amt P_AGENT_COMMISSION w4 = Inr (bust, w5)"
    and m5: "moved w5 w' still" and f5: "postFrame w5 w'" and l5: "pointLedger w' = pointLedger w5"
      "coinLedger w' = coinLedger w5" "coinLedger w4 = coinLedger w"
    by (rule creditWith_inv [OF run [unfolded creditAgentCommission_def] _ fresh]) auto
  have w5: "w5 = w4" using com by (simp add: commissionStep_def)
  show "moved w w' (moving (u, POINT) amt)" using moved_still [OF m4] m5 w5 by simp
  show "postFrame w w'" using postFrame_trans [OF f4] f5 w5 by simp
  show "coinLedger w' = coinLedger w"
    "\<exists>e. pointLedger w' = pointLedger w @ [e] \<and> idempotencyKey e = p_idempotencyKey opts"
    using l4 l5 w5 key by auto
qed

lemma creditAgentCommission_total:
  assumes "0 < amt" "findByIdempotencyKey (pointLedger w) (p_idempotencyKey opts) = None"
  shows "\<exists>r w'. creditAgentCommission u amt opts w = Inr (r, w')"
proof -
  obtain wl w1 where g: "getOrCreate u POINT w = (wl, w1)" by fastforce
  show ?thesis
    using assms
    by (simp add: creditAgentCommission_def creditWith_def g Let_def pointInsert_def insertRow_def
        getOrCreate_keeps [OF g] commissionStep_def livestreamStep_def)
qed

lemma upsertDailyEarning_frame:
  "moved w (upsertDailyEarning a h d x y w) still" "pointLedger (upsertDailyEarning a h d x y w) = pointLedger w"
  "coinLedger (upsertDailyEarning a h d x y w) = coinLedger w" "nextId (upsertDailyEarning a h d x y w) = nextId w"
  "commissionProcessed (upsertDailyEarning a h d x y w) = commissionProcessed w"
  "postFrame w (upsertDailyEarning a h d x y w)"
  by (auto simp: upsertDailyEarning_def postFrame_def Let_def split: prod.split intro: moved_frame)

lemma createProcessed_moved: "createProcessed i w = Some w1 \<Longrightarrow> moved w w1 still"
  by (rule moved_frame) (auto simp: createProcessed_def split: if_splits)

text \<open>
  What the commission step does for an entry whose marker and key are fresh: it pays exactly what
  is due, sets the marker when the type is eligible, and fails only for a missing level row.
\<close>

lemma applyCommission_posts:
  assumes run: "applyCommission host i pts tt day w = Inr (b, w')"
    and fresh: "findByIdempotencyKey (pointLedger w) (commissionKey i) = None" "i \<notin> set (commissionProcessed w)"
  shows "moved w w' (dueMove (commissionDue host pts tt w))"
    "users w' = users w \<and> agencies w' = agencies w \<and> clock w' = clock w \<and> coinLedger w' = coinLedger w
      \<and> nextId w \<le> nextId w' \<and> redisUp w' = redisUp w"
    "set (commissionProcessed w') \<subseteq> insert i (set (commissionProcessed w))"
    "\<exists>es. pointLedger w' = pointLedger w @ es \<and> (\<forall>e\<in>set es. idempotencyKey e = commissionKey i)"
proof -
  let ?goal = "moved w w' (dueMove (commissionDue host pts tt w))
    \<and> (users w' = users w \<and> agencies w' = agencies w \<and> clock w' = clock w \<and> coinLedger w' = coinLedger w
        \<and> nextId w \<le> nextId w' \<and> redisUp w' = redisUp w)
    \<and> set (commissionProcessed w') \<subseteq> insert i (set (commissionProcessed w))
    \<and> (\<exists>es. pointLedger w' = pointLedger w @ es \<and> (\<forall>e\<in>set es. idempotencyKey e = commissionKey i))"
  have ?goal
  proof (cases "agencyOfHost host w")
    case None
    then show ?thesis using run by (auto simp: applyCommission_def commissionDue_def dueMove_def)
  next
    case (Some agency)
    let ?w1 = "w\<lparr>commissionProcessed := commissionProcessed w @ [i]\<rparr>"
    have cp: "createProcessed i w = Some ?w1" using fresh(2) by (simp add: createProcessed_def)
    have m1: "moved w ?w1 still" by (rule createProcessed_moved [OF cp])
    show ?thesis
    proof (cases "tt \<notin> set COMMISSION_ELIGIBLE_TX_TYPES \<or> agencyPaused (agencies w agency) (clock w)")
      case True
      then have "applyCommission host i pts tt day w = Inr (None, w) \<or> applyCommission host i pts tt day w = Inr (None, ?w1)"
        by (simp add: applyCommission_def Some cp)
      then have "w' = w \<or> w' = ?w1" using run by (elim disjE) simp_all
      moreover have "commissionDue host pts tt w = None" using True Some by (simp add: commissionDue_def)
      ultimately show ?thesis using m1 by (auto simp: dueMove_def)
    next
      case False
      then obtain cat where cat: "categoryForTx tt = Some cat" "cat = LIVE \<longleftrightarrow> tt \<in> set LIVE_COMMISSION_TX_TYPES"
        by (cases "tt \<in> set LIVE_COMMISSION_TX_TYPES") (auto simp: categoryForTx_def COMMISSION_ELIGIBLE_TX_TYPES_def)
      obtain live match where lv: "commissionLevels w (case agencies w agency of None \<Rightarrow> ''D'' | Some r \<Rightarrow> agency_level r)
          = Some (live, match)"
        using run Some False by (auto simp: applyCommission_def Let_def split: option.splits)
      let ?rate = "if cat = LIVE then live else match"
      let ?c = "bdiv (pts * ?rate) 10000"
      let ?w2 = "upsertDailyEarning agency host day pts ?c ?w1"
      let ?w3 = "onAgencyEarnings agency pts day ?w2"
      note rk = rankFrame_keeps [OF onAgencyEarnings_frame [of ?w2 agency pts day]]
      have m3: "moved w ?w3 still"
        using moved_still [OF moved_still [OF m1 upsertDailyEarning_frame(1)] rankFrame_moved [OF onAgencyEarnings_frame]] .
      have k3: "users ?w3 = users w \<and> agencies ?w3 = agencies w \<and> clock ?w3 = clock w \<and> coinLedger ?w3 = coinLedger w
          \<and> nextId ?w3 = nextId w \<and> redisUp ?w3 = redisUp w \<and> pointLedger ?w3 = pointLedger w
          \<and> commissionProcessed ?w3 = commissionProcessed w @ [i]"
        by (simp add: rk) (simp add: upsertDailyEarning_def Let_def split: prod.split)
      have step: "applyCommission host i pts tt day w =
          (if ?c > 0 then andThen (creditAgentCommission agency ?c (commissionOptions host i tt cat ?rate ?w3) ?w3)
             (\<lambda>(_, w4). Inr (Some agency, w4)) else Inr (Some agency, ?w3))"
        using Some False lv cat(1) cp by (simp add: applyCommission_def Let_def)
      have due: "commissionDue host pts tt w = (if 0 < ?c then Some (agency, ?c) else None)"
        using Some False lv cat(2) by (simp add: commissionDue_def Let_def)
      show ?thesis
      proof (cases "0 < ?c")
        case no: False
        then have "w' = ?w3" using run step by simp
        then show ?thesis using m3 k3 due no by (simp add: dueMove_def)
      next
        case yes: True
        then obtain r where ca: "creditAgentCommission agency ?c (commissionOptions host i tt cat ?rate ?w3) ?w3 = Inr (r, w')"
          using run step by (auto simp: andThen_Inr_iff)
        have key: "p_idempotencyKey (commissionOptions host i tt cat ?rate ?w3) = commissionKey i"
          by (simp add: commissionOptions_def Let_def)
        have fr: "findByIdempotencyKey (pointLedger ?w3) (p_idempotencyKey (commissionOptions host i tt cat ?rate ?w3)) = None"
          using fresh(1) k3 key by simp
        note p = creditAgentCommission_posts [OF ca fr]
        show ?thesis
          using still_moved [OF m3 p(1)] p(2-4) k3 due yes key by (auto simp: dueMove_def postFrame_def)
      qed
    qed
  qed
  then show "moved w w' (dueMove (commissionDue host pts tt w))"
    "users w' = users w \<and> agencies w' = agencies w \<and> clock w' = clock w \<and> coinLedger w' = coinLedger w
      \<and> nextId w \<le> nextId w' \<and> redisUp w' = redisUp w"
    "set (commissionProcessed w') \<subseteq> insert i (set (commissionProcessed w))"
    "\<exists>es. pointLedger w' = pointLedger w @ es \<and> (\<forall>e\<in>set es. idempotencyKey e = commissionKey i)"
    by auto
qed

lemma commissionStep_posts:
  assumes run: "commissionStep applyCommission u i amt tt w = Inr (b, w')"
    and fresh: "findByIdempotencyKey (pointLedger w) (commissionKey i) = None" "i \<notin> set (commissionProcessed w)"
  shows "moved w w' (dueMove (commissionDue u amt tt w))"
    "users w' = users w \<and> agencies w' = agencies w \<and> clock w' = clock w \<and> coinLedger w' = coinLedger w
      \<and> nextId w \<le> nextId w' \<and> redisUp w' = redisUp w"
    "set (commissionProcessed w') \<subseteq> insert i (set (commissionProcessed w))"
    "\<exists>es. pointLedger w' = pointLedger w @ es \<and> (\<forall>e\<in>set es. idempotencyKey e = commissionKey i)"
proof -
  let ?G = "moved w w' (dueMove (commissionDue u amt tt w))
    \<and> (users w' = users w \<and> agencies w' = agencies w \<and> clock w' = clock w \<and> coinLedger w' = coinLedger w
      \<and> nextId w \<le> nextId w' \<and> redisUp w' = redisUp w)
    \<and> set (commissionProcessed w') \<subseteq> insert i (set (commissionProcessed w))
    \<and> (\<exists>es. pointLedger w' = pointLedger w @ es \<and> (\<forall>e\<in>set es. idempotencyKey e = commissionKey i))"
  have ?G
  proof (cases "tt \<in> {P_LIVESTREAM_GIFT, P_GIFT_RECEIVE, P_VIDEO_CALL, P_SUBSCRIPTION, P_GUARDIAN_PURCHASE}")
    case True
    then have "applyCommission u i amt tt (utcDayFromTimestamp (clock w)) w = Inr (b, w')"
      using run by (simp add: commissionStep_def)
    from applyCommission_posts [OF this fresh] show ?thesis by blast
  next
    case False
    then have "tt \<notin> set COMMISSION_ELIGIBLE_TX_TYPES"
      by (simp add: COMMISSION_ELIGIBLE_TX_TYPES_def LIVE_COMMISSION_TX_TYPES_def MATCH_CHAT_COMMISSION_TX_TYPES_def)
    then have "commissionDue u amt tt w = None" by (simp add: commissionDue_def split: option.split)
    moreover have "w' = w" using run False by (simp add: commissionStep_def)
    ultimately show ?thesis by (auto simp: dueMove_def)
  qed
  then show "moved w w' (dueMove (commissionDue u amt tt w))"
    "users w' = users w \<and> agencies w' = agencies w \<and> clock w' = clock w \<and> coinLedger w' = coinLedger w
      \<and> nextId w \<le> nextId w' \<and> redisUp w' = redisUp w"
    "set (commissionProcessed w') \<subseteq> insert i (set (commissionProcessed w))"
    "\<exists>es. pointLedger w' = pointLedger w @ es \<and> (\<forall>e\<in>set es. idempotencyKey e = commissionKey i)"
    by auto
qed

lemma creditInTransaction_posts:
  assumes run: "creditInTransaction u amt tt opts w = Inr (r, w')" and tt: "tt \<noteq> P_WITHDRAWAL_ESCROW"
    and fresh: "findByIdempotencyKey (pointLedger w) (p_idempotencyKey opts) = None"
    and inv: "commissionInv w" and key: "\<not> isCommissionKey (p_idempotencyKey opts)"
  shows "moved w w' (\<lambda>a. moving (u, POINT) amt a + dueMove (commissionDue u amt tt w) a)"
    "0 < amt" "commissionInv w'" "coinLedger w' = coinLedger w \<and> users w' = users w \<and> clock w' = clock w
       \<and> agencies w' = agencies w \<and> redisUp w' = redisUp w \<and> nextId w \<le> nextId w'"
    "\<exists>e es. pointLedger w' = pointLedger w @ e # es \<and> idempotencyKey e = p_idempotencyKey opts
       \<and> entry_id e = p_ledgerEntryId r \<and> balanceAfter e = p_balanceAfter r \<and> txType e = tt \<and> amount e = amt
       \<and> (\<forall>x\<in>set es. isCommissionKey (idempotencyKey x))"
proof -
  obtain e w4 bust w5 where pos: "0 < amt" and m4: "moved w w4 (moving (u, POINT) amt)" and f4: "postFrame w w4"
    and l4: "pointLedger w4 = pointLedger w @ [e]" "coinLedger w4 = coinLedger w"
    and id: "nextId w \<le> entry_id e" "entry_id e < nextId w4" and ek: "idempotencyKey e = p_idempotencyKey opts"
    and com: "commissionStep applyCommission u (entry_id e) amt tt w4 = Inr (bust, w5)"
    and m5: "moved w5 w' still" and f5: "postFrame w5 w'"
    and l5: "pointLedger w' = pointLedger w5" "coinLedger w' = coinLedger w5"
    and r: "p_ledgerEntryId r = entry_id e" "p_balanceAfter r = balanceAfter e" "txType e = tt" "amount e = amt"
    by (rule creditWith_inv [OF run [unfolded creditInTransaction_def] tt fresh])
  have "findByIdempotencyKey (pointLedger w4) (commissionKey (entry_id e)) = None"
    using commissionInv_fresh [OF inv id(1)] key ek
    by (auto simp: l4 findByIdempotencyKey_def find_append)
  moreover have "entry_id e \<notin> set (commissionProcessed w4)"
    using commissionInv_fresh [OF inv id(1)] f4 by (simp add: postFrame_def)
  ultimately have fr: "findByIdempotencyKey (pointLedger w4) (commissionKey (entry_id e)) = None"
    "entry_id e \<notin> set (commissionProcessed w4)" .
  note c = commissionStep_posts [OF com fr]
  have "moved w w5 (\<lambda>a. moving (u, POINT) amt a + dueMove (commissionDue u amt tt w) a)"
    using moved_trans [OF m4 c(1)] commissionDue_postFrame [OF f4] by simp
  then show "moved w w' (\<lambda>a. moving (u, POINT) amt a + dueMove (commissionDue u amt tt w) a)"
    by (rule moved_still [OF _ m5])
  show "0 < amt" by (fact pos)
  show "coinLedger w' = coinLedger w \<and> users w' = users w \<and> clock w' = clock w
       \<and> agencies w' = agencies w \<and> redisUp w' = redisUp w \<and> nextId w \<le> nextId w'"
    using c(2) f4 f5 l4 l5 by (simp add: postFrame_def)
  obtain es where es: "pointLedger w5 = pointLedger w4 @ es" "\<forall>x\<in>set es. idempotencyKey x = commissionKey (entry_id e)"
    using c(4) by blast
  show "\<exists>e es. pointLedger w' = pointLedger w @ e # es \<and> idempotencyKey e = p_idempotencyKey opts
       \<and> entry_id e = p_ledgerEntryId r \<and> balanceAfter e = p_balanceAfter r \<and> txType e = tt \<and> amount e = amt
       \<and> (\<forall>x\<in>set es. isCommissionKey (idempotencyKey x))"
    using es l4 l5 r ek by (intro exI [of _ e] exI [of _ es]) auto
  have n: "nextId w \<le> nextId w'" "entry_id e < nextId w'" using id c(2) f4 f5 by (simp_all add: postFrame_def)
  have "commissionProcessed w' = commissionProcessed w5" "commissionProcessed w4 = commissionProcessed w"
    using f4 f5 by (simp_all add: postFrame_def)
  then have "\<forall>n\<in>set (commissionProcessed w'). n < nextId w'"
    using c(3) inv n by (fastforce simp: commissionInv_def)
  moreover have "commissionKey n \<noteq> p_idempotencyKey opts" for n using key commissionKey_is [of n] by metis
  then have "\<forall>n. idempotencyKey x = commissionKey n \<longrightarrow> n < nextId w'" if "x \<in> set (pointLedger w')" for x
    using that inv n es ek by (fastforce simp: l5 l4 commissionInv_def)
  ultimately show "commissionInv w'" by (auto simp: commissionInv_def)
qed

section \<open>Failures of a credit\<close>

lemma applyCommission_fails:
  assumes "applyCommission host i pts tt day w = Inl err" "findByIdempotencyKey (pointLedger w) (commissionKey i) = None"
  shows "err = AppError 500 ''CONFIG_ERROR'' []"
proof -
  have total: "creditAgentCommission a c (commissionOptions host i tt cat rate v) v \<noteq> Inl err"
    if "0 < c" "pointLedger v = pointLedger w" for a c cat rate v
  proof -
    have "p_idempotencyKey (commissionOptions host i tt cat rate v) = commissionKey i"
      by (simp add: commissionOptions_def Let_def)
    then show ?thesis
      using creditAgentCommission_total [OF that(1), of v "commissionOptions host i tt cat rate v" a] assms(2) that(2)
      by auto
  qed
  have keeps: "pointLedger (onAgencyEarnings a p d (upsertDailyEarning a h d x y v)) = pointLedger v" for a p d h x y v
    by (simp add: rankFrame_keeps [OF onAgencyEarnings_frame] upsertDailyEarning_frame)
  have cp: "createProcessed i w = Some v \<Longrightarrow> pointLedger v = pointLedger w" for v
    by (auto simp: createProcessed_def split: if_splits)
  show ?thesis
    using assms(1) unfolding applyCommission_def Let_def
    by (auto split: option.splits if_splits simp: andThen_Inl_iff keeps cp total)
qed

lemma creditInTransaction_fails:
  assumes run: "creditInTransaction u amt tt opts w = Inl err" and pos: "0 < amt"
    and inv: "commissionInv w" and key: "\<not> isCommissionKey (p_idempotencyKey opts)"
  shows "err = AppError 500 ''CONFIG_ERROR'' []"
proof (cases "findByIdempotencyKey (pointLedger w) (p_idempotencyKey opts)")
  case (Some e)
  then show ?thesis using run pos by (simp add: creditInTransaction_def creditWith_def)
next
  case None
  obtain wl w1 where g: "getOrCreate u POINT w = (wl, w1)" by fastforce
  let ?w2 = "snd (lockForUpdate (wallet_id wl) w1)"
  let ?d = "pointEntry (wallet_id wl) CREDIT tt amt (latestPointBalance ?w2 (wallet_id wl) + amt) opts"
  have "\<exists>e w3. pointInsert ?d ?w2 = Inr (e, w3)"
    using None pos by (simp add: pointInsert_Inr getOrCreate_keeps [OF g])
  then obtain e w3 where ins: "pointInsert ?d ?w2 = Inr (e, w3)" by blast
  let ?w4 = "enqueuePlatformLedgerMessage ''point'' (entry_id e) (bumpVersion (wallet_id wl) w3)"
  have lvl: "livestreamStep b u amt tt v \<noteq> Inl err" for b v
    by (rule applyCredit_effect [of u LIVESTREAM amt v]) (simp add: livestreamStep_def)
  have "nextId w \<le> entry_id e"
    using ins postFrame_getOrCreate [OF g] by (simp add: pointInsert_Inr postFrame_def lockForUpdate_def)
  moreover have "pointLedger ?w4 = pointLedger w @ [e]" "idempotencyKey e = p_idempotencyKey opts"
    using ins by (auto simp: pointInsert_Inr getOrCreate_keeps [OF g])
  ultimately have fr: "findByIdempotencyKey (pointLedger ?w4) (commissionKey (entry_id e)) = None"
    using commissionInv_fresh [OF inv] key by (auto simp: findByIdempotencyKey_def find_append)
  have "commissionStep applyCommission u (entry_id e) amt tt ?w4 = Inl err"
    using run None pos lvl ins unfolding creditInTransaction_def creditWith_def
    by (auto simp: Let_def g andThen_Inl_iff)
  then show ?thesis
    using applyCommission_fails [OF _ fr] by (auto simp: commissionStep_def split: if_splits)
qed

section \<open>Properties\<close>


definition sampleAgencyWorld :: world where
  "sampleAgencyWorld = emptyWorld\<lparr>
     users := [7 \<mapsto> sampleUser\<lparr>currentAgencyId := Some 9\<rparr>, 9 \<mapsto> sampleUser],
     agencies := [9 \<mapsto> \<lparr>agency_level = ''C'', agency_pausedAt = None, agency_pausedUntil = None\<rparr>],
     commissionLevels := [''C'' \<mapsto> (800, 500)], nextId := 10, clock := 90000000\<rparr>"

definition samplePointOptions :: "string \<Rightarrow> point_options" where
  "samplePointOptions key =
     \<lparr> p_idempotencyKey = key, p_refId = None, p_counterpartyId = None, p_description = None,
       p_metadata = None, p_applyLivestreamLevel = True \<rparr>"

lemma sampleAgencyWorld_ok: "Ledger.wf sampleAgencyWorld" "commissionInv sampleAgencyWorld"
  by (simp_all add: Ledger.wf_def commissionInv_def sampleAgencyWorld_def emptyWorld_def walletsInv_def ledgerInv_def)

lemma sampleAgencyWorld_due: "commissionDue 7 1000 P_GIFT_RECEIVE sampleAgencyWorld = Some (9, 80)"
  by (simp add: commissionDue_def agencyOfHost_def sampleAgencyWorld_def sampleUser_def
      COMMISSION_ELIGIBLE_TX_TYPES_def LIVE_COMMISSION_TX_TYPES_def agencyPaused_def bdiv_def Let_def)


text \<open>The points a user holds in escrow, and may spend.\<close>

definition unconfirmedOf :: "world \<Rightarrow> uid \<Rightarrow> int" where
  "unconfirmedOf w u = (case findWallet w u POINT of None \<Rightarrow> 0 | Some wl \<Rightarrow> unconfirmedPoints wl)"

definition availableOf :: "world \<Rightarrow> uid \<Rightarrow> int" where
  "availableOf w u = balanceOf w (u, POINT) - unconfirmedOf w u"

lemma getOrCreate_unconfirmed: "getOrCreate u POINT w = (wl, w1) \<Longrightarrow> unconfirmedPoints wl = unconfirmedOf w u"
  by (auto simp: getOrCreate_def Let_def unconfirmedOf_def split: option.splits)

lemma unconfirmedOf_nonneg: "Ledger.wf w \<Longrightarrow> 0 \<le> unconfirmedOf w u"
  by (auto simp: unconfirmedOf_def Ledger.wf_def walletsInv_def dest!: findWallet_Some split: option.split)

lemma assertPointsDebitAllowed_users: "users w' = users w \<Longrightarrow> assertPointsDebitAllowed u w' = assertPointsDebitAllowed u w"
  by (simp add: assertPointsDebitAllowed_def getUserWalletFreezeFlags_def)

lemma pointDebit_posts:
  assumes run: "pointDebit u amt tt chk frz opts w = Inr ((i, b), w')" and tt: "tt \<noteq> P_WITHDRAWAL_ESCROW"
    and fresh: "findByIdempotencyKey (pointLedger w) (p_idempotencyKey opts) = None" and wf: "Ledger.wf w"
  shows "moved w w' (moving (u, POINT) (- amt))" "0 < amt" "b = balanceOf w (u, POINT) - amt"
    "amt \<le> (if chk then availableOf w u else balanceOf w (u, POINT))"
    "frz \<Longrightarrow> assertPointsDebitAllowed u w = Inr ()" "postFrame w w'"
    "\<exists>e. pointLedger w' = pointLedger w @ [e] \<and> idempotencyKey e = p_idempotencyKey opts \<and> txType e = tt"
proof -
  obtain wl w1 where g: "getOrCreate u POINT w = (wl, w1)" by fastforce
  let ?w2 = "snd (lockForUpdate (wallet_id wl) w1)"
  let ?d = "pointEntry (wallet_id wl) DEBIT tt amt (balanceOf w (u, POINT) - amt) opts"
  note lb = locked_point_balance [OF wf g] note un = getOrCreate_unconfirmed [OF g]
  have fr: "assertPointsDebitAllowed u ?w2 = assertPointsDebitAllowed u w"
    by (rule assertPointsDebitAllowed_users) (simp add: getOrCreate_keeps [OF g])
  from run fresh obtain e w3 where pos: "0 < amt" and ins: "pointInsert ?d ?w2 = Inr (e, w3)"
    and enough: "amt \<le> (if chk then availableOf w u else balanceOf w (u, POINT))"
    and frz: "frz \<Longrightarrow> assertPointsDebitAllowed u w = Inr ()"
    and res: "i = entry_id e" "b = balanceAfter e"
      "w' = enqueuePlatformLedgerMessage ''point'' (entry_id e) (bumpVersion (wallet_id wl) w3)"
    by (auto simp: pointDebit_def g andThen_Inr_iff Let_def lb un fr availableOf_def split: if_splits)
  have "0 \<le> balanceOf w (u, POINT) - amt"
    using enough unconfirmedOf_nonneg [OF wf, of u] by (simp add: availableOf_def split: if_splits)
  then have "moved w w3 (moving (u, POINT) (- amt))"
    using point_post_moved [OF g ins] tt lb by simp
  then show "moved w w' (moving (u, POINT) (- amt))"
    unfolding res using moved_still [OF moved_still [OF _ bumpVersion_moved] enqueue_moved] by blast
  show "0 < amt" "amt \<le> (if chk then availableOf w u else balanceOf w (u, POINT))"
    "frz \<Longrightarrow> assertPointsDebitAllowed u w = Inr ()" by (fact pos, fact enough, fact frz)
  show "b = balanceOf w (u, POINT) - amt" using ins res by (simp add: pointInsert_Inr)
  show "postFrame w w'"
    unfolding res using postFrame_getOrCreate [OF g] postFrame_insert(1) [OF ins]
    by (meson postFrame_steps postFrame_trans)
  show "\<exists>e. pointLedger w' = pointLedger w @ [e] \<and> idempotencyKey e = p_idempotencyKey opts \<and> txType e = tt"
    using ins by (auto simp: res pointInsert_Inr getOrCreate_keeps [OF g])
qed



text \<open>
  The escrow of a withdrawal moves no money: for a user who is not frozen, a positive amount and a
  fresh key it succeeds, every balance stays, and one row with the amount and the unchanged running
  balance is appended.
\<close>

theorem escrow_moves_nothing:
  assumes wf: "Ledger.wf w" and amt: "0 < amt" and free: "assertPointsDebitAllowed u w = Inr ()"
    and fresh: "findByIdempotencyKey (pointLedger w) (p_idempotencyKey opts) = None"
  shows "\<exists>e w'. escrow u amt P_WITHDRAWAL_ESCROW opts w = Inr ((entry_id e, balanceOf w (u, POINT)), w')
    \<and> Ledger.wf w' \<and> (\<forall>a. balanceOf w' a = balanceOf w a)
    \<and> pointLedger w' = pointLedger w @ [e] \<and> amount e = amt \<and> balanceAfter e = balanceOf w (u, POINT)"
proof -
  obtain wl w1 where g: "getOrCreate u POINT w = (wl, w1)" by fastforce
  let ?w2 = "snd (lockForUpdate (wallet_id wl) w1)"
  let ?d = "pointEntry (wallet_id wl) DEBIT P_WITHDRAWAL_ESCROW amt (balanceOf w (u, POINT)) opts"
  note lb = locked_point_balance [OF wf g]
  have "\<exists>e w3. pointInsert ?d ?w2 = Inr (e, w3)"
    using fresh amt by (simp add: pointInsert_Inr getOrCreate_keeps [OF g])
  then obtain e w3 where ins: "pointInsert ?d ?w2 = Inr (e, w3)" by blast
  have run: "escrow u amt P_WITHDRAWAL_ESCROW opts w = Inr ((entry_id e, balanceAfter e), bumpVersion (wallet_id wl) w3)"
    using fresh amt free ins by (simp add: escrow_def g Let_def lb)
  have "moved w w3 (moving (u, POINT) 0)"
    using point_post_moved [OF g ins] lb by simp
  then have mv: "moved w (bumpVersion (wallet_id wl) w3) still"
    using moved_still [OF _ bumpVersion_moved] by simp
  show ?thesis
    using run ins moved_wf [OF mv wf] moved_bal [OF mv wf]
    by (intro exI [of _ e] exI [of _ "bumpVersion (wallet_id wl) w3"])
      (auto simp: pointInsert_Inr getOrCreate_keeps [OF g])
qed

theorem escrow_moves_nothing_witness:
  "\<exists>e w'. escrow 7 25 P_WITHDRAWAL_ESCROW (samplePointOptions ''t'') sampleCoinWorld
        = Inr ((entry_id e, balanceOf sampleCoinWorld (7, POINT)), w')
    \<and> Ledger.wf w' \<and> (\<forall>a. balanceOf w' a = balanceOf sampleCoinWorld a)
    \<and> pointLedger w' = pointLedger sampleCoinWorld @ [e] \<and> amount e = 25
    \<and> balanceAfter e = balanceOf sampleCoinWorld (7, POINT)"
  by (rule escrow_moves_nothing [OF sampleCoinWorld_wf])
    (simp_all add: sampleCoinWorld_def sampleLedgerWorld_def samplePointOptions_def findByIdempotencyKey_def newEntry_def
        assertPointsDebitAllowed_def getUserWalletFreezeFlags_def sampleUser_def)

text \<open>
  C29. Reverting a host credit that was made while the agency was paused corrupts the agency's daily
  earnings: the credit recorded nothing on the agency's row of that day (only the marker), yet the
  revert takes the amount off that row, and so off the earnings that other credits of the day put
  there.
\<close>

theorem reverse_after_pause_undercounts:
  assumes agency: "agencyOfHost host w = Some a" and paused: "agencyPaused (agencies w a) (clock w)"
    and eligible: "tt \<in> set COMMISSION_ELIGIBLE_TX_TYPES"
    and fresh: "i \<notin> set (commissionProcessed w)" "findByIdempotencyKey (pointLedger w) (commissionKey i) = None"
    and row: "find (\<lambda>e. entry_id e = i) (pointLedger w) = Some e" "walletUser (walletId e) w = host" "amount e = pts"
    and others: "dailyEarnings w (a, host, utcDayFromTimestamp (createdAt e)) = Some (earned, paid)" "0 \<le> paid"
  shows "\<exists>w1 r w2. applyCommission host i pts tt day w = Inr (None, w1) \<and> dailyEarnings w1 = dailyEarnings w
    \<and> reverseCommission i reason w1 = Inr (r, w2)
    \<and> dailyEarnings w2 (a, host, utcDayFromTimestamp (createdAt e)) = Some (max 0 (earned - pts), paid)"
proof -
  let ?w1 = "w\<lparr>commissionProcessed := commissionProcessed w @ [i]\<rparr>"
  have ap: "applyCommission host i pts tt day w = Inr (None, ?w1)"
    using agency paused eligible fresh(1) by (simp add: applyCommission_def createProcessed_def)
  have ag: "agencyOfHost host ?w1 = Some a" using agency by (auto simp: agencyOfHost_def split: option.splits)
  let ?d = "utcDayFromTimestamp (createdAt e)"
  let ?w2 = "onHostPointCredit host (- pts) (txType e) ?d
      (onAgencyEarnings a (- pts) ?d (upsertDailyEarning a host ?d (- pts) 0 ?w1))"
  have rv: "reverseCommission i reason ?w1 = Inr ((Some a, True, None),
      ?w2\<lparr>commissionProcessed := removeAll i (commissionProcessed ?w2)\<rparr>)"
    using row ag fresh(2) by (simp add: reverseCommission_def Let_def walletUser_def)
  have "dailyEarnings ?w2 (a, host, ?d) = Some (max 0 (earned - pts), paid)"
    using others by (simp add: rankFrame_keeps [OF onHostPointCredit_frame] rankFrame_keeps [OF onAgencyEarnings_frame]
        upsertDailyEarning_def Let_def)
  then show ?thesis by (intro exI conjI) (rule ap, simp, rule rv, simp)
qed

definition samplePausedWorld :: world where
  "samplePausedWorld = emptyWorld\<lparr>
     users := [7 \<mapsto> sampleUser\<lparr>currentAgencyId := Some 9\<rparr>],
     wallets := [\<lparr>wallet_id = 0, wallet_user = 7, wallet_currency = POINT, wallet_version = 0, unconfirmedPoints = 0\<rparr>],
     pointLedger := [(newEntry 0 CREDIT P_GIFT_RECEIVE 300 300 ''g'')\<lparr>entry_id := 4, createdAt := 0\<rparr>],
     agencies := [9 \<mapsto> \<lparr>agency_level = ''C'', agency_pausedAt = Some 0, agency_pausedUntil = None\<rparr>],
     dailyEarnings := [(9, 7, 0) \<mapsto> (500, 40)], nextId := 10\<rparr>"

theorem reverse_after_pause_undercounts_witness:
  "\<exists>w1 r w2. applyCommission 7 4 300 P_GIFT_RECEIVE 0 samplePausedWorld = Inr (None, w1)
    \<and> dailyEarnings w1 = dailyEarnings samplePausedWorld
    \<and> reverseCommission 4 ''revert'' w1 = Inr (r, w2) \<and> dailyEarnings w2 (9, 7, 0) = Some (200, 40)"
proof -
  let ?e = "(newEntry 0 CREDIT P_GIFT_RECEIVE 300 300 ''g'')\<lparr>entry_id := 4, createdAt := 0\<rparr>"
  have facts: "agencyOfHost 7 samplePausedWorld = Some 9" "agencyPaused (agencies samplePausedWorld 9) (clock samplePausedWorld)"
    "P_GIFT_RECEIVE \<in> set COMMISSION_ELIGIBLE_TX_TYPES" "4 \<notin> set (commissionProcessed samplePausedWorld)"
    "findByIdempotencyKey (pointLedger samplePausedWorld) (commissionKey 4) = None"
    "find (\<lambda>e. entry_id e = 4) (pointLedger samplePausedWorld) = Some ?e" "walletUser (walletId ?e) samplePausedWorld = 7"
    "amount ?e = 300" "dailyEarnings samplePausedWorld (9, 7, utcDayFromTimestamp (createdAt ?e)) = Some (500, 40)"
    by (simp_all add: samplePausedWorld_def agencyOfHost_def sampleUser_def agencyPaused_def emptyWorld_def
        COMMISSION_ELIGIBLE_TX_TYPES_def LIVE_COMMISSION_TX_TYPES_def findByIdempotencyKey_def commissionKey_def
        newEntry_def walletUser_def utcDayFromTimestamp_def)
  have "utcDayFromTimestamp (createdAt ?e) = 0" by (simp add: utcDayFromTimestamp_def)
  then show ?thesis
    using reverse_after_pause_undercounts [OF facts, of 0 "''revert''"] by auto
qed

end
