(* ===== verification/InternalLedger.thy ===== *)
theory InternalLedger
  imports PointWallet
begin

text \<open>
  The money service behind the live server: gifts, video-call minutes and global messages of
  \<open>src/src/services/internalLedger.service.ts\<close>. Every operation locks all the wallets it writes in one
  sorted pass, moves the coins and points, settles levels, commission and rankings in the same
  transaction, and refreshes the caches after the commit. A unique-key violation is answered from the
  rows that the first execution left.

  The retry of a transaction that Postgres aborted (\<open>runMoneyTx\<close>) runs the same function on the same
  database again, so one run stands for it. The refresh of the agency's tier and dashboards after the
  commit (\<open>afterCommissionCreditCommit\<close>) moves no money and is left out.
\<close>

section \<open>Helpers inside the transaction\<close>

definition ensureWallet :: "uid \<Rightarrow> WalletCurrencyType \<Rightarrow> world \<Rightarrow> error + wallet_row \<times> world" where
  "ensureWallet u c w =
     (let w1 = (case findWallet w u c of
                  Some _ \<Rightarrow> w
                | None \<Rightarrow> w\<lparr>wallets := wallets w @ [\<lparr> wallet_id = nextId w, wallet_user = u,
                     wallet_currency = c, wallet_version = 0, unconfirmedPoints = 0 \<rparr>],
                     nextId := Suc (nextId w)\<rparr>)
      in case findWallet w1 u c of
           None \<Rightarrow> Inl (AppError 500 ''WALLET_ENSURE_FAILED'' [])
         | Some wl \<Rightarrow> Inr (wl, w1))"

definition resolveCommissionAgency :: "uid \<Rightarrow> world \<Rightarrow> uid option" where
  "resolveCommissionAgency host w =
     (case (case users w host of None \<Rightarrow> None | Some r \<Rightarrow> currentAgencyId r) of
        Some a \<Rightarrow> Some a
      | None \<Rightarrow> (case agencies w host of None \<Rightarrow> None | Some _ \<Rightarrow> Some host))"

definition ensureOptional :: "uid option \<Rightarrow> world \<Rightarrow> error + wallet_row option \<times> world" where
  "ensureOptional u w =
     (case u of
        None \<Rightarrow> Inr (None, w)
      | Some x \<Rightarrow> andThen (ensureWallet x POINT w) (\<lambda>(wl, w1). Inr (Some wl, w1)))"

definition lockForOperation ::
  "uid \<Rightarrow> uid option \<Rightarrow> bool \<Rightarrow> world \<Rightarrow> error + (wallet_row \<times> wallet_row option) \<times> world" where
  "lockForOperation payer host withCommission w =
     andThen (ensureWallet payer COIN w) (\<lambda>(payerCoin, w1).
     andThen (ensureOptional host w1) (\<lambda>(hostPoint, w2).
     let agency = (if withCommission then Option.bind host (\<lambda>h. resolveCommissionAgency h w2) else None) in
     andThen (ensureOptional agency w2) (\<lambda>(agencyPoint, w3).
     let w4 = lockWalletsInOrder
                (map wallet_id ([payerCoin] @ case_option [] (\<lambda>x. [x]) hostPoint
                   @ case_option [] (\<lambda>x. [x]) agencyPoint)) w3 in
     andThen (assertCoinDebitAllowed payer COIN w4) (\<lambda>_.
     Inr ((payerCoin, hostPoint), w4)))))"

definition applyLevel :: "uid \<Rightarrow> LevelType \<Rightarrow> int \<Rightarrow> world \<Rightarrow> error + LevelApplyResult \<times> world" where
  "applyLevel u lt increment w =
     andThen (applyCredit u lt increment w) (\<lambda>(r, w1).
     Inr (r, w1\<lparr>legacyLevels := (legacyLevels w1)((u, lt) \<mapsto> (newLevel r, newCumulative r))\<rparr>))"

definition settleHostCredit ::
  "uid \<Rightarrow> nat \<Rightarrow> int \<Rightarrow> PointTxType \<Rightarrow> bool \<Rightarrow> world \<Rightarrow> error + uid option \<times> world" where
  "settleHostCredit host i points tt withCommission w =
     (let day = utcDayFromTimestamp (clock w) in
      andThen (if withCommission then applyCommission host i points tt day w else Inr (None, w)) (\<lambda>(agency, w1).
      Inr (agency, onHostPointCredit host points tt day w1)))"

definition afterCommit ::
  "(uid \<times> int) option \<Rightarrow> (uid \<times> int) option \<Rightarrow> uid option \<Rightarrow> uid option \<Rightarrow> uid option \<Rightarrow> world \<Rightarrow> world" where
  "afterCommit coin point wealthUser livestreamUser agency w =
     (let w1 = (case coin of None \<Rightarrow> w | Some (u, b) \<Rightarrow> writeCoinBalanceCache u b w);
          w2 = (case point of None \<Rightarrow> w1 | Some (u, b) \<Rightarrow> writePointBalanceCache u b w1);
          w3 = (case wealthUser of None \<Rightarrow> w2 | Some u \<Rightarrow> invalidateCache u WEALTH w2);
          w4 = (case livestreamUser of None \<Rightarrow> w3 | Some u \<Rightarrow> invalidateCache u LIVESTREAM w3)
      in case agency of None \<Rightarrow> w4 | Some a \<Rightarrow> adjustPointBalanceCache a 0 None w4)"

definition currentLevelOf :: "uid \<Rightarrow> LevelType \<Rightarrow> world \<Rightarrow> LevelApplyResult" where
  "currentLevelOf u lt w =
     (case userLevels w (u, lt) of
        None \<Rightarrow> \<lparr> newLevel = 1, previousLevel = 1, newCumulative = 0 \<rparr>
      | Some (l, c) \<Rightarrow> \<lparr> newLevel = l, previousLevel = l, newCumulative = c \<rparr>)"

definition metaRequestId :: "json option \<Rightarrow> string option" where
  "metaRequestId m = (case json_field m ''requestId'' of Some (JStr v) \<Rightarrow> Some v | _ \<Rightarrow> None)"

definition duplicate :: error where
  "duplicate = AppError 409 ''DUPLICATE_LEDGER_KEY'' []"

definition replayOrDuplicate ::
  "string \<Rightarrow> string \<Rightarrow> (CoinTxType ledger_entry \<Rightarrow> 'a) \<Rightarrow> world \<Rightarrow> error + 'a \<times> world" where
  "replayOrDuplicate primaryKey requestId rebuild w =
     (case findByIdempotencyKey (coinLedger w) primaryKey of
        None \<Rightarrow> Inl duplicate
      | Some row \<Rightarrow>
          if metaRequestId (metadata row) \<noteq> Some requestId then Inl duplicate
          else Inr (rebuild row, w))"

definition pointBalanceAfterKey :: "string \<Rightarrow> world \<Rightarrow> int option" where
  "pointBalanceAfterKey key w = map_option balanceAfter (findByIdempotencyKey (pointLedger w) key)"

definition isLuckyGift :: "gift_row \<Rightarrow> bool" where
  "isLuckyGift g \<longleftrightarrow> gift_isLucky g
     \<or> (case gift_category g of
          None \<Rightarrow> False
        | Some (name, slug) \<Rightarrow> map toLower name = ''lucky'' \<or> map toLower slug = ''lucky'')"

definition loadSendableGift :: "string \<Rightarrow> bool \<Rightarrow> world \<Rightarrow> error + gift_row" where
  "loadSendableGift giftId lucky w =
     (case gifts w giftId of
        None \<Rightarrow> Inl (AppError 404 ''GIFT_NOT_FOUND'' [])
      | Some g \<Rightarrow>
          if \<not> gift_isActive g then Inl (AppError 404 ''GIFT_NOT_FOUND'' [])
          else if lucky \<noteq> isLuckyGift g then Inl (AppError 400 ''WRONG_GIFT_KIND'' [])
          else Inr g)"

text \<open>The primary key of \<open>gift_transactions\<close> is the id the caller supplies.\<close>

definition giftTransactionCreate :: "gift_tx_row \<Rightarrow> world \<Rightarrow> error + unit \<times> world" where
  "giftTransactionCreate row w =
     (if gt_id row \<in> set (map gt_id (giftTransactions w)) then Inl UniqueViolation
      else Inr ((), w\<lparr>giftTransactions := giftTransactions w @ [row]\<rparr>))"

section \<open>Gifts\<close>

record gift_input =
  gi_requestId :: string
  gi_context :: string
  gi_senderId :: uid
  gi_receiverId :: uid
  gi_giftId :: string
  gi_quantity :: int
  gi_giftTransactionId :: string
  gi_idemBase :: string
  gi_sessionId :: "string option"

record gift_result =
  gr_transactionId :: string
  gr_coinCost :: int
  gr_pointsAwarded :: int
  gr_balanceAfterCoins :: int
  gr_balanceAfterPoints :: int
  gr_wealth :: LevelApplyResult
  gr_agencyUserId :: "uid option"
  gr_replayed :: bool

definition giftSendChecks :: "gift_input \<Rightarrow> world \<Rightarrow> error + unit" where
  "giftSendChecks inp w =
     (if gi_context inp = ''video_call'' \<and> gi_senderId inp = gi_receiverId inp then
        Inl (AppError 400 ''INVALID_REQUEST'' [])
      else if gi_context inp = ''video_call'' then
        (case gi_sessionId inp of
           None \<Rightarrow> Inl (AppError 400 ''INVALID_REQUEST'' [])
         | Some sid \<Rightarrow>
             if sid = [] then Inl (AppError 400 ''INVALID_REQUEST'' [])
             else (case sessions w sid of
                None \<Rightarrow> Inl (AppError 404 ''CALL_NOT_FOUND'' [])
              | Some s \<Rightarrow>
                  if session_status s \<noteq> ''ACTIVE'' then Inl (AppError 409 ''CALL_NOT_ACTIVE'' [])
                  else if gi_senderId inp \<notin> {session_caller s, session_creator s}
                       \<or> gi_receiverId inp \<notin> {session_caller s, session_creator s}
                  then Inl (AppError 403 ''FORBIDDEN'' []) else Inr ()))
      else Inr ())"

definition giftCoinEntry :: "gift_input \<Rightarrow> gift_row \<Rightarrow> wid \<Rightarrow> int \<Rightarrow> int \<Rightarrow> CoinTxType ledger_entry" where
  "giftCoinEntry inp g i cost bal =
     (newEntry i DEBIT C_GIFT_SEND cost bal (gi_idemBase inp @ ''-coin''))
       \<lparr>refId := Some (gi_giftTransactionId inp), counterpartyId := Some (gi_receiverId inp),
        description := Some (if gi_context inp = ''live_stream''
          then ''Sent gift '' @ gift_name g @ '' in live stream''
          else ''Sent gift '' @ gift_name g @ '' x'' @ show_int (gi_quantity inp) @ '' in video call''),
        metadata := Some (JObj [(''giftId'', JStr (gift_id g)),
          (''giftTransactionId'', JStr (gi_giftTransactionId inp)), (''context'', JStr (gi_context inp)),
          (''quantity'', JNum (gi_quantity inp)), (''requestId'', JStr (gi_requestId inp))])\<rparr>"

definition giftPointEntry :: "gift_input \<Rightarrow> gift_row \<Rightarrow> wid \<Rightarrow> int \<Rightarrow> int \<Rightarrow> PointTxType ledger_entry" where
  "giftPointEntry inp g i points bal =
     (newEntry i CREDIT P_GIFT_RECEIVE points bal (gi_idemBase inp @ ''-point''))
       \<lparr>refId := Some (gi_giftTransactionId inp), counterpartyId := Some (gi_senderId inp),
        description := Some (if gi_context inp = ''live_stream''
          then ''Received gift '' @ gift_name g @ '' in live stream''
          else ''Received gift '' @ gift_name g @ '' x'' @ show_int (gi_quantity inp) @ '' in video call''),
        metadata := Some (JObj [(''giftId'', JStr (gift_id g)), (''giftName'', JStr (gift_name g)),
          (''context'', JStr (gi_context inp)), (''quantity'', JNum (gi_quantity inp)),
          (''unitCoinCost'', JNum (gift_coinCost g)),
          (''giftTransactionId'', JStr (gi_giftTransactionId inp))])\<rparr>"

text \<open>The host row: none when the share rounds to zero.\<close>

definition hostRow ::
  "PointTxType ledger_entry \<Rightarrow> world \<Rightarrow> error + nat option \<times> world" where
  "hostRow d w =
     (if 0 < amount d then
        andThen (pointInsert d w) (\<lambda>(e, w1). Inr (Some (entry_id e), bumpVersion (walletId d) w1))
      else Inr (None, w))"

text \<open>The settlement of the host row: experience, commission and rankings.\<close>

definition hostSettle ::
  "uid \<Rightarrow> int \<Rightarrow> PointTxType \<Rightarrow> bool \<Rightarrow> nat option \<Rightarrow> world \<Rightarrow> error + uid option \<times> world" where
  "hostSettle host points tt withCommission row w =
     (case row of
        None \<Rightarrow> Inr (None, w)
      | Some i \<Rightarrow>
          andThen (applyLevel host LIVESTREAM points w) (\<lambda>(_, w1).
          settleHostCredit host i points tt withCommission w1))"

definition giftSendTx ::
  "gift_input \<Rightarrow> gift_row \<Rightarrow> int \<Rightarrow> int \<Rightarrow> world
     \<Rightarrow> error + (int \<times> int \<times> LevelApplyResult \<times> uid option) \<times> world" where
  "giftSendTx inp g coinCost points w =
     andThen (lockForOperation (gi_senderId inp) (Some (gi_receiverId inp)) True w) (\<lambda>((payerCoin, hostPoint), w1).
     let coins = latestCoinBalance w1 (wallet_id payerCoin) in
     andThen (require (\<not> coins < coinCost) (insufficientCoins coinCost coins)) (\<lambda>_.
     let hostId = wallet_id (the hostPoint);
         balanceAfterCoins = coins - coinCost;
         balanceAfterPoints = latestPointBalance w1 hostId + points in
     andThen (coinInsert (giftCoinEntry inp g (wallet_id payerCoin) coinCost balanceAfterCoins) w1) (\<lambda>(_, w2).
     let w3 = bumpVersion (wallet_id payerCoin) w2 in
     andThen (hostRow (giftPointEntry inp g hostId points balanceAfterPoints) w3) (\<lambda>(hostLedger, w4).
     andThen (giftTransactionCreate
        \<lparr> gt_id = gi_giftTransactionId inp, gt_sender = gi_senderId inp, gt_receiver = gi_receiverId inp,
          gt_giftId = gift_id g,
          gt_coinCost = (if gi_context inp = ''live_stream'' then gift_coinCost g else coinCost),
          gt_quantity = gi_quantity inp, gt_pointsAwarded = points, gt_context = gi_context inp,
          gt_createdAt = clock w4 \<rparr> w4) (\<lambda>(_, w5).
     andThen (applyLevel (gi_senderId inp) WEALTH coinCost w5) (\<lambda>(wealth, w6).
     andThen (hostSettle (gi_receiverId inp) points P_GIFT_RECEIVE True hostLedger w6) (\<lambda>(agency, w7).
     Inr ((balanceAfterCoins, balanceAfterPoints, wealth, agency), w7))))))))"

definition giftSend :: "gift_input \<Rightarrow> world \<Rightarrow> error + gift_result \<times> world" where
  "giftSend inp w =
     andThen (giftSendChecks inp w) (\<lambda>_.
     andThen (loadSendableGift (gi_giftId inp) False w) (\<lambda>g.
     let coinCost = gift_coinCost g * gi_quantity inp;
         points = hostPointsFromGift coinCost (giftReceiveBp (shares w)) in
     case giftSendTx inp g coinCost points w of
       Inr ((balC, balP, wealth, agency), w1) \<Rightarrow>
         Inr (\<lparr> gr_transactionId = gi_giftTransactionId inp, gr_coinCost = coinCost,
               gr_pointsAwarded = points, gr_balanceAfterCoins = balC, gr_balanceAfterPoints = balP,
               gr_wealth = wealth, gr_agencyUserId = agency, gr_replayed = False \<rparr>,
              afterCommit (Some (gi_senderId inp, balC)) (Some (gi_receiverId inp, balP))
                (Some (gi_senderId inp)) (Some (gi_receiverId inp)) agency w1)
     | Inl err \<Rightarrow>
         if err \<noteq> UniqueViolation then Inl err
         else replayOrDuplicate (gi_idemBase inp @ ''-coin'') (gi_requestId inp) (\<lambda>row.
           \<lparr> gr_transactionId = (case refId row of None \<Rightarrow> gi_giftTransactionId inp | Some r \<Rightarrow> r),
             gr_coinCost = coinCost, gr_pointsAwarded = points, gr_balanceAfterCoins = balanceAfter row,
             gr_balanceAfterPoints = (case pointBalanceAfterKey (gi_idemBase inp @ ''-point'') w of
                None \<Rightarrow> 0 | Some b \<Rightarrow> b),
             gr_wealth = currentLevelOf (gi_senderId inp) WEALTH w, gr_agencyUserId = None,
             gr_replayed = True \<rparr>) w))"

section \<open>Video calls\<close>

definition lockSession :: "string \<Rightarrow> world \<Rightarrow> session_row option \<times> world" where
  "lockSession sid w = (sessions w sid, w\<lparr>locks := locks w @ [SessionLock sid]\<rparr>)"

record minute_bill =
  mb_coinRate :: int
  mb_pointRate :: int
  mb_balanceAfterCoins :: int
  mb_balanceAfterPoints :: int
  mb_agencyUserId :: "uid option"
  mb_hostLedgerId :: nat

definition minuteKey :: "string \<Rightarrow> int \<Rightarrow> string \<Rightarrow> string" where
  "minuteKey sid m suffix = ''call-'' @ sid @ ''-min-'' @ show_int m @ suffix"

definition billMinute ::
  "string \<Rightarrow> session_row \<Rightarrow> int \<Rightarrow> string \<Rightarrow> world \<Rightarrow> error + minute_bill \<times> world" where
  "billMinute sid s minute requestId w =
     (let pointRate = pricePerMin s in
      andThen (callerCoinDebitForCall pointRate (videoCallHostShareBp (shares w))) (\<lambda>coinRate.
      andThen (lockForOperation (session_caller s) (Some (session_creator s)) True w) (\<lambda>((payerCoin, hostPoint), w1).
      let coins = latestCoinBalance w1 (wallet_id payerCoin) in
      andThen (require (\<not> coins < coinRate) (insufficientCoins coinRate coins)) (\<lambda>_.
      let hostId = wallet_id (the hostPoint) in
      andThen (coinInsert
         ((newEntry (wallet_id payerCoin) DEBIT C_VIDEO_CALL coinRate (coins - coinRate) (minuteKey sid minute ''-coins''))
            \<lparr>refId := Some sid, counterpartyId := Some (session_creator s),
             description := Some (''Video call minute '' @ show_int minute @ '' charge''),
             metadata := Some (JObj [(''requestId'', JStr requestId)])\<rparr>) w1) (\<lambda>(_, w2).
      let w3 = bumpVersion (wallet_id payerCoin) w2;
          balanceAfterPoints = latestPointBalance w3 hostId + pointRate in
      andThen (pointInsert
         ((newEntry hostId CREDIT P_VIDEO_CALL pointRate balanceAfterPoints (minuteKey sid minute ''-points''))
            \<lparr>refId := Some sid, counterpartyId := Some (session_caller s),
             description := Some (''Points for video call minute '' @ show_int minute)\<rparr>) w3) (\<lambda>(e, w4).
      let w5 = bumpVersion hostId w4 in
      andThen (applyLevel (session_caller s) WEALTH coinRate w5) (\<lambda>(_, w6).
      andThen (hostSettle (session_creator s) pointRate P_VIDEO_CALL True (Some (entry_id e)) w6) (\<lambda>(agency, w7).
      Inr (\<lparr> mb_coinRate = coinRate, mb_pointRate = pointRate, mb_balanceAfterCoins = coins - coinRate,
             mb_balanceAfterPoints = balanceAfterPoints, mb_agencyUserId = agency,
             mb_hostLedgerId = entry_id e \<rparr>, w7)))))))))"

definition callAcceptTx ::
  "string \<Rightarrow> string \<Rightarrow> uid \<Rightarrow> world \<Rightarrow> error + (minute_bill \<times> session_row) \<times> world" where
  "callAcceptTx requestId sid receiver w =
     (let (session, w1) = lockSession sid w in
      case session of
        None \<Rightarrow> Inl (AppError 409 ''INVALID_CALL_STATE'' [])
      | Some s \<Rightarrow>
          if session_creator s \<noteq> receiver then Inl (AppError 409 ''INVALID_CALL_STATE'' [])
          else if session_status s \<noteq> ''RINGING'' then
            Inl (AppError 409 ''INVALID_CALL_STATE'' [(''replayable'', JBool True)])
          else
            andThen (billMinute sid s 1 requestId w1) (\<lambda>(bill, w2).
            let updated = s\<lparr>session_status := ''ACTIVE'', startedAt := clock w2, minsCharged := 1,
                  coinsDeducted := mb_coinRate bill, pointsAwarded := mb_pointRate bill\<rparr>
            in Inr ((bill, updated), w2\<lparr>sessions := (sessions w2)(sid \<mapsto> updated)\<rparr>)))"

record accept_result =
  ar_session :: session_row
  ar_hostLedgerId :: "nat option"
  ar_coinRate :: int
  ar_pointRate :: int
  ar_balanceAfterCoins :: "int option"
  ar_agencyUserId :: "uid option"
  ar_replayed :: bool

definition replayableError :: "error \<Rightarrow> bool" where
  "replayableError err =
     (case err of
        UniqueViolation \<Rightarrow> True
      | AppError _ _ details \<Rightarrow> map_of details ''replayable'' = Some (JBool True)
      | _ \<Rightarrow> False)"

text \<open>The answer to a repeated accept: the stored session, when the first minute was billed by this request.\<close>

definition callAcceptReplay ::
  "string \<Rightarrow> string \<Rightarrow> world \<Rightarrow> error + accept_result \<times> world" where
  "callAcceptReplay requestId sid w =
     (case findByIdempotencyKey (coinLedger w) (minuteKey sid 1 ''-coins'') of
        None \<Rightarrow> Inl (AppError 409 ''INVALID_CALL_STATE'' [])
      | Some row \<Rightarrow>
          if metaRequestId (metadata row) \<noteq> Some requestId then Inl (AppError 409 ''INVALID_CALL_STATE'' [])
          else
            (case sessions w sid of
               None \<Rightarrow> Inl (OtherError ''P2025'')
             | Some s \<Rightarrow>
                 andThen (callerCoinDebitForCall (pricePerMin s) (videoCallHostShareBp (shares w))) (\<lambda>coinRate.
                 Inr (\<lparr> ar_session = s, ar_hostLedgerId = None, ar_coinRate = coinRate,
                        ar_pointRate = pricePerMin s, ar_balanceAfterCoins = None, ar_agencyUserId = None,
                        ar_replayed = True \<rparr>, w))))"

definition callAccept :: "string \<Rightarrow> string \<Rightarrow> uid \<Rightarrow> world \<Rightarrow> error + accept_result \<times> world" where
  "callAccept requestId sid receiver w =
     (case callAcceptTx requestId sid receiver w of
        Inr ((bill, s), w1) \<Rightarrow>
          Inr (\<lparr> ar_session = s, ar_hostLedgerId = Some (mb_hostLedgerId bill), ar_coinRate = mb_coinRate bill,
                 ar_pointRate = mb_pointRate bill, ar_balanceAfterCoins = Some (mb_balanceAfterCoins bill),
                 ar_agencyUserId = mb_agencyUserId bill, ar_replayed = False \<rparr>,
               afterCommit (Some (session_caller s, mb_balanceAfterCoins bill))
                 (Some (session_creator s, mb_balanceAfterPoints bill)) (Some (session_caller s))
                 (Some (session_creator s)) (mb_agencyUserId bill) w1)
      | Inl err \<Rightarrow> if replayableError err then callAcceptReplay requestId sid w else Inl err)"

text \<open>\<open>None\<close> as a result: the minute was billed before.\<close>

definition callMinuteTx ::
  "string \<Rightarrow> string \<Rightarrow> int \<Rightarrow> world \<Rightarrow> error + (minute_bill \<times> session_row) option \<times> world" where
  "callMinuteTx requestId sid minute w =
     (let (session, w1) = lockSession sid w in
      case session of
        None \<Rightarrow> Inl (AppError 404 ''CALL_NOT_FOUND'' [])
      | Some s \<Rightarrow>
          if minsCharged s \<ge> minute then Inr (None, w1)
          else if session_status s \<noteq> ''ACTIVE'' then Inl (AppError 409 ''CALL_NOT_ACTIVE'' [])
          else if minsCharged s \<noteq> minute - 1 then
            Inl (AppError 409 ''MINUTE_OUT_OF_ORDER'' [(''minsCharged'', JNum (minsCharged s))])
          else
            andThen (billMinute sid s minute requestId w1) (\<lambda>(bill, w2).
            Inr (Some (bill, s), w2\<lparr>sessions := (sessions w2)(sid \<mapsto>
              s\<lparr>minsCharged := minute, coinsDeducted := coinsDeducted s + mb_coinRate bill,
                pointsAwarded := pointsAwarded s + mb_pointRate bill\<rparr>)\<rparr>)))"

definition callMinute ::
  "string \<Rightarrow> string \<Rightarrow> int \<Rightarrow> world \<Rightarrow> error + minute_bill option \<times> world" where
  "callMinute requestId sid minute w =
     andThen (callMinuteTx requestId sid minute w) (\<lambda>(settled, w1).
     case settled of
       None \<Rightarrow> Inr (None, w1)
     | Some (bill, s) \<Rightarrow>
         Inr (Some bill,
              afterCommit (Some (session_caller s, mb_balanceAfterCoins bill))
                (Some (session_creator s, mb_balanceAfterPoints bill)) (Some (session_caller s))
                (Some (session_creator s)) (mb_agencyUserId bill) w1))"

section \<open>Global messages\<close>

definition GLOBAL_MESSAGE_COST :: int where
  "GLOBAL_MESSAGE_COST = 10000"

record global_input =
  gm_requestId :: string
  gm_senderId :: uid
  gm_messageTxId :: string
  gm_idemKey :: string
  gm_message :: string

definition globalMessageTx :: "global_input \<Rightarrow> world \<Rightarrow> error + (int \<times> LevelApplyResult) \<times> world" where
  "globalMessageTx inp w =
     andThen (lockForOperation (gm_senderId inp) None False w) (\<lambda>((payerCoin, _), w1).
     let coins = latestCoinBalance w1 (wallet_id payerCoin) in
     andThen (require (\<not> coins < GLOBAL_MESSAGE_COST) (insufficientCoins GLOBAL_MESSAGE_COST coins)) (\<lambda>_.
     andThen (coinInsert
        ((newEntry (wallet_id payerCoin) DEBIT C_GLOBAL_MESSAGE GLOBAL_MESSAGE_COST
            (coins - GLOBAL_MESSAGE_COST) (gm_idemKey inp))
           \<lparr>refId := Some (gm_messageTxId inp),
            description := Some (''Sent global message: \"'' @ take 30 (gm_message inp) @ ''...\"''),
            metadata := Some (JObj [(''requestId'', JStr (gm_requestId inp))])\<rparr>) w1) (\<lambda>(_, w2).
     andThen (applyLevel (gm_senderId inp) WEALTH GLOBAL_MESSAGE_COST (bumpVersion (wallet_id payerCoin) w2)) (\<lambda>(wealth, w3).
     Inr ((coins - GLOBAL_MESSAGE_COST, wealth), w3)))))"

text \<open>Transaction id, balance, wealth level, replayed.\<close>

definition globalMessage :: "global_input \<Rightarrow> world \<Rightarrow> error + (string \<times> int \<times> int \<times> bool) \<times> world" where
  "globalMessage inp w =
     (case globalMessageTx inp w of
        Inr ((bal, wealth), w1) \<Rightarrow>
          Inr ((gm_messageTxId inp, bal, newLevel wealth, False),
               afterCommit (Some (gm_senderId inp, bal)) None (Some (gm_senderId inp)) None None w1)
      | Inl err \<Rightarrow>
          if err \<noteq> UniqueViolation then Inl err
          else replayOrDuplicate (gm_idemKey inp) (gm_requestId inp) (\<lambda>row.
            (gm_messageTxId inp, balanceAfter row, newLevel (currentLevelOf (gm_senderId inp) WEALTH w), True)) w)"

section \<open>Wallets that exist\<close>

definition hasWallet :: "world \<Rightarrow> wid \<Rightarrow> uid \<Rightarrow> WalletCurrencyType \<Rightarrow> bool" where
  "hasWallet w i u c \<longleftrightarrow> (\<exists>wl\<in>set (wallets w). wallet_id wl = i \<and> wallet_user wl = u \<and> wallet_currency wl = c)"

lemma hasWallet_same: "wallets w' = wallets w \<Longrightarrow> hasWallet w' i u c = hasWallet w i u c"
  by (simp add: hasWallet_def)

lemma hasWallet_bump [simp]: "hasWallet (bumpVersion j w) i u c = hasWallet w i u c"
proof -
  let ?f = "\<lambda>wl. if wallet_id wl = j then wl\<lparr>wallet_version := wallet_version wl + 1\<rparr> else wl"
  have f: "wallet_user (?f wl) = wallet_user wl" "wallet_currency (?f wl) = wallet_currency wl"
    "wallet_id (?f wl) = wallet_id wl" for wl by simp_all
  have "wallets (bumpVersion j w) = map ?f (wallets w)" by (simp add: bumpVersion_def)
  then show ?thesis unfolding hasWallet_def by (simp only: set_map bex_simps f)
qed

lemma hasWallet_getOrCreate:
  "getOrCreate u c w = (wl, w1) \<Longrightarrow> hasWallet w1 (wallet_id wl) u c"
  using getOrCreate_wallet by (fastforce simp: hasWallet_def)

lemma hasWallet_mono: "getOrCreate u c w = (wl, w1) \<Longrightarrow> hasWallet w i x y \<Longrightarrow> hasWallet w1 i x y"
  by (auto simp: hasWallet_def getOrCreate_def Let_def split: option.splits)

lemma coin_post:
  assumes ins: "coinInsert d w = Inr (e, w')" and wal: "hasWallet w (walletId d) u c" "c \<noteq> POINT"
    and bal: "balanceAfter d = latestCoinBalance w (walletId d) + coinDelta d"
    and nonneg: "0 \<le> coinDelta d \<or> 0 \<le> balanceAfter d"
  shows "moved w w' (moving (u, c) (coinDelta d))"
proof -
  obtain wl where "wl \<in> set (wallets w)" "wallet_id wl = walletId d" "wallet_user wl = u" "wallet_currency wl = c"
    using wal(1) by (auto simp: hasWallet_def)
  then show ?thesis using coinInsert_moved [OF ins _ _ _ bal nonneg] wal(2) by blast
qed

lemma point_post:
  assumes ins: "pointInsert d w = Inr (e, w')" and wal: "hasWallet w (walletId d) u POINT"
    and bal: "balanceAfter d = latestPointBalance w (walletId d) + pointDelta d"
    and nonneg: "0 \<le> pointDelta d \<or> 0 \<le> balanceAfter d"
  shows "moved w w' (moving (u, POINT) (pointDelta d))"
proof -
  obtain wl where "wl \<in> set (wallets w)" "wallet_id wl = walletId d" "wallet_user wl = u" "wallet_currency wl = POINT"
    using wal by (auto simp: hasWallet_def)
  then show ?thesis using pointInsert_moved [OF ins _ _ _ bal nonneg] by blast
qed

lemma hasWallet_balance:
  assumes "Ledger.wf w" "hasWallet w i u c"
  shows "c \<noteq> POINT \<Longrightarrow> latestCoinBalance w i = balanceOf w (u, c)" "c = POINT \<Longrightarrow> latestPointBalance w i = balanceOf w (u, POINT)"
  using assms computeBalance_balanceOf pointComputeBalance_balanceOf
  by (fastforce simp: hasWallet_def coinComputeBalance_def pointComputeBalance_def latestCoinBalance_def latestPointBalance_def)+

section \<open>Effect of the helpers\<close>

lemma ensureWallet_eq: "ensureWallet u c w = Inr (getOrCreate u c w)"
  by (auto simp: ensureWallet_def getOrCreate_def Let_def findWallet_def find_append split: option.split)

lemma resolveCommissionAgency_eq: "resolveCommissionAgency h w = agencyOfHost h w"
  by (simp add: resolveCommissionAgency_def agencyOfHost_def)

lemma ensureOptional_eq:
  "ensureOptional u w = Inr (case u of None \<Rightarrow> (None, w) | Some x \<Rightarrow> (let (wl, w1) = getOrCreate x POINT w in (Some wl, w1)))"
  by (auto simp: ensureOptional_def ensureWallet_eq split: option.split prod.split)

lemma lockForOperation_effect:
  assumes run: "lockForOperation payer host com w = Inr ((pc, hp), w')"
  shows "moved w w' still" "postFrame w w'" "coinLedger w' = coinLedger w" "pointLedger w' = pointLedger w"
    "hasWallet w' (wallet_id pc) payer COIN"
    "host = Some h \<Longrightarrow> hp \<noteq> None \<and> hasWallet w' (wallet_id (the hp)) h POINT"
    "assertCoinDebitAllowed payer COIN w = Inr ()" "userLevels w' = userLevels w"
    "\<exists>is. locks w' = locks w @ map WalletLock is \<and> sorted is \<and> distinct is \<and> wallet_id pc \<in> set is
       \<and> (host \<noteq> None \<longrightarrow> wallet_id (the hp) \<in> set is)
       \<and> (\<forall>h a. host = Some h \<and> com \<and> agencyOfHost h w = Some a \<longrightarrow> (\<exists>i\<in>set is. hasWallet w' i a POINT))"
proof -
  obtain pc0 w1 where g0: "getOrCreate payer COIN w = (pc0, w1)" by fastforce
  define r2 where "r2 = (case host of None \<Rightarrow> (None, w1) | Some x \<Rightarrow> (let (wl, v) = getOrCreate x POINT w1 in (Some wl, v)))"
  obtain hp0 w2 where r2': "r2 = (hp0, w2)" by fastforce
  define ag where "ag = (if com then Option.bind host (\<lambda>h. resolveCommissionAgency h w2) else None)"
  obtain ap w3 where r3: "(case ag of None \<Rightarrow> (None, w2) | Some x \<Rightarrow> (let (wl, v) = getOrCreate x POINT w2 in (Some wl, v))) = (ap, w3)"
    by fastforce
  let ?js = "\<lambda>pc hp. sort (dedupe [] (map wallet_id ([pc] @ case_option [] (\<lambda>x. [x]) hp @ case_option [] (\<lambda>x. [x]) ap)))"
  have out: "pc0 = pc \<and> hp0 = hp \<and> w' = w3\<lparr>locks := locks w3 @ map WalletLock (?js pc0 hp0)\<rparr>
      \<and> assertCoinDebitAllowed payer COIN w' = Inr ()"
  proof -
    have e2: "ensureOptional host w1 = Inr (hp0, w2)" using r2' by (simp add: ensureOptional_eq r2_def)
    have e3: "ensureOptional ag w2 = Inr (ap, w3)" using r3 by (simp add: ensureOptional_eq)
    show ?thesis
      using run unfolding lockForOperation_def ensureWallet_eq g0 andThen_simps prod.case e2 Let_def ag_def [symmetric] e3
      by (auto simp: andThen_Inr_iff lockWalletsInOrder_eq)
  qed
  let ?is = "?js pc hp"
  have mem: "i \<in> set ?is \<longleftrightarrow> i \<in> set (map wallet_id ([pc] @ case_option [] (\<lambda>x. [x]) hp @ case_option [] (\<lambda>x. [x]) ap))" for i
    by (simp only: set_sort set_dedupe) simp
  have g1: "getOrCreate payer COIN w = (pc, w1)" and r2: "r2 = (hp, w2)"
    and w': "w' = w3\<lparr>locks := locks w3 @ map WalletLock ?is\<rparr>" and fr: "assertCoinDebitAllowed payer COIN w' = Inr ()"
    using out g0 r2' by auto
  have s2: "w2 = w1 \<or> (\<exists>x wl. getOrCreate x POINT w1 = (wl, w2))"
    using r2 by (auto simp: r2_def Let_def split: option.splits prod.splits)
  have s3: "w3 = w2 \<or> (\<exists>x wl. getOrCreate x POINT w2 = (wl, w3))"
    using r3 by (auto simp: Let_def split: option.splits prod.splits)
  have f: "moved w w3 still \<and> postFrame w w3 \<and> coinLedger w3 = coinLedger w \<and> pointLedger w3 = pointLedger w
      \<and> userLevels w3 = userLevels w \<and> locks w3 = locks w"
  proof -
    let ?R = "\<lambda>a b. moved a b still \<and> postFrame a b \<and> coinLedger b = coinLedger a \<and> pointLedger b = pointLedger a
      \<and> userLevels b = userLevels a \<and> locks b = locks a"
    have step: "?R a b" if g: "getOrCreate x c a = (wl, b)" for x c a wl b
      using getOrCreate_moved [OF g] postFrame_getOrCreate [OF g] getOrCreate_keeps [OF g] by simp
    have comp: "?R a c" if ab: "?R a b" and bc: "?R b c" for a b c
    proof -
      have "moved a c still" using moved_still ab bc by blast
      moreover have "postFrame a c" using postFrame_trans ab bc by blast
      ultimately show ?thesis using ab bc by simp
    qed
    have r1: "?R w w1" by (rule step [OF g1])
    have r2: "?R w1 w2" using s2 step [of _ POINT w1 _ w2] moved_refl postFrame_refl by blast
    have r3: "?R w2 w3" using s3 step [of _ POINT w2 _ w3] moved_refl postFrame_refl by blast
    show ?thesis by (rule comp [OF comp [OF r1 r2] r3])
  qed
  have lk: "moved w3 w' still" unfolding w' by (rule moved_frame) simp_all
  show "moved w w' still" using f lk moved_still by blast
  show pf: "postFrame w w'" using f by (auto simp: w' postFrame_def)
  show "coinLedger w' = coinLedger w" "pointLedger w' = pointLedger w" "userLevels w' = userLevels w"
    using f by (simp_all add: w')
  have up: "hasWallet a i x y \<Longrightarrow> hasWallet b i x y" if "b = a \<or> (\<exists>x wl. getOrCreate x POINT a = (wl, b))" for a b i x y
    using that hasWallet_mono by auto
  have same: "hasWallet w' i x y = hasWallet w3 i x y" for i x y by (rule hasWallet_same) (simp add: w')
  show "hasWallet w' (wallet_id pc) payer COIN"
    unfolding same by (rule up [OF s3 up [OF s2 hasWallet_getOrCreate [OF g1]]])
  show "hp \<noteq> None \<and> hasWallet w' (wallet_id (the hp)) h POINT" if hostIs: "host = Some h"
  proof -
    obtain wl where g2: "getOrCreate h POINT w1 = (wl, w2)" "hp = Some wl"
      using r2 hostIs by (auto simp: r2_def Let_def split: prod.splits)
    then show ?thesis unfolding same using up [OF s3 hasWallet_getOrCreate [OF g2(1)]] by simp
  qed
  show "assertCoinDebitAllowed payer COIN w = Inr ()"
    using fr assertCoinDebitAllowed_users [of w' w] pf by (simp add: postFrame_def)
  have ag: "\<exists>i\<in>set ?is. hasWallet w' i a POINT" if "host = Some h" "com" "agencyOfHost h w = Some a" for h a
  proof -
    have "postFrame w w2" using s2 postFrame_getOrCreate g1 postFrame_trans by metis
    then have "agencyOfHost h w2 = Some a"
      using that(3) by (auto simp: postFrame_def agencyOfHost_def split: option.splits)
    then have "ag = Some a" using that by (simp add: ag_def resolveCommissionAgency_eq)
    then obtain wl where wl: "getOrCreate a POINT w2 = (wl, w3)" "ap = Some wl"
      using r3 by (auto simp: Let_def split: prod.splits)
    have "wallet_id wl \<in> set ?is" unfolding mem using wl(2) by simp
    moreover have "hasWallet w' (wallet_id wl) a POINT" unfolding same by (rule hasWallet_getOrCreate [OF wl(1)])
    ultimately show ?thesis by blast
  qed
  have hp: "wallet_id (the hp) \<in> set ?is" if hostIs: "host \<noteq> None"
  proof -
    obtain wl where "hp = Some wl" using r2 hostIs by (auto simp: r2_def Let_def split: prod.splits)
    then show ?thesis unfolding mem by simp
  qed
  have pcIn: "wallet_id pc \<in> set ?is" unfolding mem by simp
  have "locks w' = locks w @ map WalletLock ?is" "sorted ?is" "distinct ?is"
    using f distinct_dedupe by (simp_all only: w' distinct_sort sorted_sort) simp_all
  then show "\<exists>is. locks w' = locks w @ map WalletLock is \<and> sorted is \<and> distinct is \<and> wallet_id pc \<in> set is
       \<and> (host \<noteq> None \<longrightarrow> wallet_id (the hp) \<in> set is)
       \<and> (\<forall>h a. host = Some h \<and> com \<and> agencyOfHost h w = Some a \<longrightarrow> (\<exists>i\<in>set is. hasWallet w' i a POINT))"
    using ag hp pcIn by blast
qed

text \<open>Everything a settlement leaves alone beside the rows it posts: all but the commission markers.\<close>

definition coreFrame :: "world \<Rightarrow> world \<Rightarrow> bool" where
  "coreFrame w w' \<longleftrightarrow> postFrame w (w'\<lparr>commissionProcessed := commissionProcessed w\<rparr>)"

lemma coreFrame_refl [simp]: "coreFrame w w"
  by (simp add: coreFrame_def)

lemma coreFrame_trans: "coreFrame a b \<Longrightarrow> coreFrame b c \<Longrightarrow> coreFrame a c"
  by (simp add: coreFrame_def postFrame_def)

lemma postFrame_core: "postFrame w w' \<Longrightarrow> coreFrame w w'"
  by (simp add: postFrame_def coreFrame_def)

lemma coreFrame_admin: "coreFrame w w' \<Longrightarrow> adminTables w w'"
  by (simp add: coreFrame_def postFrame_def adminTables_def)

lemma coreFrame_keeps:
  assumes "coreFrame w w'"
  shows "users w' = users w" "agencies w' = agencies w" "commissionLevels w' = commissionLevels w"
    "clock w' = clock w" "redisUp w' = redisUp w" "shares w' = shares w" "gifts w' = gifts w"
    "sessions w' = sessions w" "giftTransactions w' = giftTransactions w" "nextId w \<le> nextId w'"
    "luckyPools w' = luckyPools w" "luckyAudits w' = luckyAudits w" "reservePool w' = reservePool w"
  using assms by (simp_all add: coreFrame_def postFrame_def)

lemma commissionDue_cong:
  assumes "users w' = users w" "agencies w' = agencies w" "commissionLevels w' = commissionLevels w" "clock w' = clock w"
  shows "commissionDue h p t w' = commissionDue h p t w"
  unfolding commissionDue_def agencyOfHost_def by (simp only: assms)

lemma commissionDue_core: "coreFrame w w' \<Longrightarrow> commissionDue h p t w' = commissionDue h p t w"
  by (rule commissionDue_cong) (simp_all only: coreFrame_keeps)

lemma applyCommission_core:
  assumes run: "applyCommission host i pts tt day w = Inr (b, w')"
    and fresh: "findByIdempotencyKey (pointLedger w) (commissionKey i) = None"
  shows "coreFrame w w'"
proof -
  let ?w1 = "w\<lparr>commissionProcessed := commissionProcessed w @ [i]\<rparr>"
  let ?w3 = "\<lambda>a c. onAgencyEarnings a pts day (upsertDailyEarning a host day pts c ?w1)"
  have w1: "coreFrame w ?w1" by (simp add: coreFrame_def postFrame_def)
  have w3: "coreFrame w (?w3 a c)" for a c
    using postFrame_trans [OF upsertDailyEarning_frame(6) postFrame_rank [OF onAgencyEarnings_frame]]
      postFrame_core coreFrame_trans [OF w1] by blast
  have cases: "w' = w \<or> w' = ?w1 \<or> (\<exists>a c. w' = ?w3 a c)
      \<or> (\<exists>a c cat rate r. creditAgentCommission a c (commissionOptions host i tt cat rate (?w3 a c)) (?w3 a c) = Inr (r, w'))"
    using run unfolding applyCommission_def createProcessed_def Let_def
    by (auto simp: andThen_Inr_iff split: option.splits if_splits prod.splits)
  have key: "p_idempotencyKey (commissionOptions host i tt cat rate v) = commissionKey i" for cat rate v
    by (simp add: commissionOptions_def Let_def)
  have led: "pointLedger (?w3 a c) = pointLedger w" for a c
    using rankFrame_keeps(3) [OF onAgencyEarnings_frame] upsertDailyEarning_frame(2) by simp
  have "coreFrame w w'" if "creditAgentCommission a c (commissionOptions host i tt cat rate (?w3 a c)) (?w3 a c) = Inr (r, w')"
    for a c cat rate r
    using coreFrame_trans [OF w3 postFrame_core] creditAgentCommission_posts(2) [OF that] fresh key led by simp
  then show ?thesis using cases w1 w3 by auto
qed

lemma applyLevel_total: "\<exists>r w'. applyLevel u lt inc w = Inr (r, w')"
  by (rule applyCredit_effect [of u lt inc w]) (simp add: applyLevel_def)

lemma applyLevel_effect:
  assumes "applyLevel u lt inc w = Inr (r, w')"
  shows "moved w w' still" "postFrame w w'" "wallets w' = wallets w" "coinLedger w' = coinLedger w"
    "pointLedger w' = pointLedger w" "locks w' = locks w @ [LevelLock lt u]" "commissionProcessed w' = commissionProcessed w"
    "nextId w' = nextId w"
proof -
  obtain w1 where a: "applyCredit u lt inc w = Inr (r, w1)"
    and w': "w' = w1\<lparr>legacyLevels := (legacyLevels w1)((u, lt) \<mapsto> (newLevel r, newCumulative r))\<rparr>"
    using assms by (auto simp: applyLevel_def andThen_Inr_iff)
  note f = applyCredit_levelFrame [OF a]
  have "moved w1 w' still" by (rule moved_frame) (simp_all add: w')
  then show "moved w w' still" by (rule moved_still [OF levelFrame_moved [OF f]])
  show "postFrame w w'" using postFrame_level [OF f] by (simp add: w' postFrame_def)
  show "wallets w' = wallets w" "coinLedger w' = coinLedger w" "pointLedger w' = pointLedger w" "nextId w' = nextId w"
    "locks w' = locks w @ [LevelLock lt u]"
    using levelFrame_keeps [OF f] applyCredit_locks [OF a] by (simp_all add: w')
  show "commissionProcessed w' = commissionProcessed w" using postFrame_level [OF f] by (simp add: w' postFrame_def)
qed

text \<open>A host row and its settlement. The row exists exactly when the host earns something.\<close>

lemma pointRow_effect:
  assumes ins: "pointInsert d w = Inr (e, w1)" and wal: "hasWallet w (walletId d) u POINT"
    and bal: "balanceAfter d = latestPointBalance w (walletId d) + amount d"
    and d: "direction d = CREDIT" "txType d \<noteq> P_WITHDRAWAL_ESCROW"
  shows "moved w (bumpVersion i w1) (moving (u, POINT) (amount d))" "postFrame w (bumpVersion i w1)"
    "coinLedger w1 = coinLedger w" "pointLedger w1 = pointLedger w @ [e]" "entry_id e = nextId w" "nextId w1 = Suc (nextId w)"
    "idempotencyKey e = idempotencyKey d" "locks (bumpVersion i w1) = locks w" "commissionProcessed w1 = commissionProcessed w"
proof -
  have e: "e = d\<lparr>entry_id := nextId w, createdAt := clock w\<rparr>"
    "w1 = w\<lparr>pointLedger := pointLedger w @ [e], nextId := Suc (nextId w)\<rparr>" and pos: "0 < amount d"
    using ins by (simp_all add: pointInsert_Inr)
  have delta: "pointDelta d = amount d" using d by (simp add: pointDelta_def)
  have "moved w w1 (moving (u, POINT) (amount d))" using point_post [OF ins wal] bal delta pos by simp
  then show "moved w (bumpVersion i w1) (moving (u, POINT) (amount d))" by (rule moved_still [OF _ bumpVersion_moved])
  show "postFrame w (bumpVersion i w1)" using postFrame_trans [OF postFrame_insert(1) [OF ins] postFrame_steps(2)] .
  show "coinLedger w1 = coinLedger w" "pointLedger w1 = pointLedger w @ [e]" "entry_id e = nextId w"
    "nextId w1 = Suc (nextId w)" "idempotencyKey e = idempotencyKey d" "commissionProcessed w1 = commissionProcessed w"
    unfolding e(2) by simp_all (simp_all add: e(1))
  show "locks (bumpVersion i w1) = locks w" unfolding e(2) by (simp add: bumpVersion_def)
qed

lemma hostSettle_effect:
  assumes run: "hostSettle host points tt com (Some i) w = Inr (ag, w')"
    and fresh: "findByIdempotencyKey (pointLedger w) (commissionKey i) = None" "i \<notin> set (commissionProcessed w)"
  shows "moved w w' (dueMove (if com then commissionDue host points tt w else None))" "coreFrame w w'"
    "coinLedger w' = coinLedger w" "set (commissionProcessed w') \<subseteq> insert i (set (commissionProcessed w))"
    "\<exists>es. pointLedger w' = pointLedger w @ es \<and> (\<forall>e\<in>set es. idempotencyKey e = commissionKey i)"
proof -
  obtain r w1 where l: "applyLevel host LIVESTREAM points w = Inr (r, w1)"
    and st: "settleHostCredit host i points tt com w1 = Inr (ag, w')"
    using run by (auto simp: hostSettle_def andThen_Inr_iff)
  note lv = applyLevel_effect [OF l]
  let ?day = "utcDayFromTimestamp (clock w1)"
  obtain w2 where c: "(if com then applyCommission host i points tt ?day w1 else Inr (None, w1)) = Inr (ag, w2)"
    and w': "w' = onHostPointCredit host points tt ?day w2"
    using st unfolding settleHostCredit_def Let_def andThen_Inr_iff by auto
  have rf: "rankFrame w2 w'" unfolding w' by (rule onHostPointCredit_frame)
  note rk = rankFrame_keeps [OF rf]
  have fr1: "findByIdempotencyKey (pointLedger w1) (commissionKey i) = None" "i \<notin> set (commissionProcessed w1)"
    using fresh lv by simp_all
  have ac: "moved w1 w2 (dueMove (if com then commissionDue host points tt w1 else None))" "coinLedger w2 = coinLedger w1"
    "set (commissionProcessed w2) \<subseteq> insert i (set (commissionProcessed w1))"
    "\<exists>es. pointLedger w2 = pointLedger w1 @ es \<and> (\<forall>e\<in>set es. idempotencyKey e = commissionKey i)" "coreFrame w1 w2"
    using c applyCommission_posts [OF _ fr1] applyCommission_core [OF _ fr1(1)]
    by (cases com; auto simp: dueMove_def)+
  have due: "commissionDue host points tt w1 = commissionDue host points tt w"
    by (rule commissionDue_postFrame [OF lv(2)])
  show "moved w w' (dueMove (if com then commissionDue host points tt w else None))"
    using still_moved [OF lv(1) moved_still [OF ac(1) rankFrame_moved [OF rf]]] unfolding due .
  show "coreFrame w w'"
    using coreFrame_trans [OF coreFrame_trans [OF postFrame_core [OF lv(2)] ac(5)]]
      postFrame_core [OF postFrame_rank [OF rf]] by simp
  show "coinLedger w' = coinLedger w" using ac(2) lv(4) rk(2) by simp
  show "set (commissionProcessed w') \<subseteq> insert i (set (commissionProcessed w))" using ac(3) lv(7) rk(12) by simp
  show "\<exists>es. pointLedger w' = pointLedger w @ es \<and> (\<forall>e\<in>set es. idempotencyKey e = commissionKey i)"
    using ac(4) lv(5) rk(3) by simp
qed

text \<open>The two legs every operation posts: the payer's coins, and the host's points with the commission on them.\<close>

lemma payerLeg_effect:
  assumes lk: "lockForOperation payer host com w = Inr ((pc, hp), w1)" and ins: "coinInsert d w1 = Inr (e, w2)"
    and d: "walletId d = wallet_id pc" "direction d = DEBIT" "balanceAfter d = latestCoinBalance w1 (wallet_id pc) - amount d"
    and enough: "\<not> latestCoinBalance w1 (wallet_id pc) < amount d"
  shows "moved w (bumpVersion i w2) (moving (payer, COIN) (- amount d))" "postFrame w (bumpVersion i w2)" "0 < amount d"
    "coinLedger w2 = coinLedger w @ [e]" "pointLedger w2 = pointLedger w" "idempotencyKey e = idempotencyKey d"
    "balanceAfter e = balanceAfter d" "refId e = refId d" "metadata e = metadata d"
    "findByIdempotencyKey (coinLedger w) (idempotencyKey d) = None" "locks (bumpVersion i w2) = locks w1"
    "hasWallet w2 j u c = hasWallet w1 j u c"
proof -
  note l = lockForOperation_effect [OF lk]
  have e: "e = d\<lparr>entry_id := nextId w1, createdAt := clock w1\<rparr>"
    "w2 = w1\<lparr>coinLedger := coinLedger w1 @ [e], nextId := Suc (nextId w1)\<rparr>"
    and pos: "0 < amount d" and fr: "findByIdempotencyKey (coinLedger w1) (idempotencyKey d) = None"
    using ins by (simp_all add: coinInsert_Inr)
  have delta: "coinDelta d = - amount d" using d by (simp add: coinDelta_def)
  have "moved w1 w2 (moving (payer, COIN) (- amount d))"
    using coin_post [OF ins _ _ _ _, of payer COIN] l(5) d enough delta by simp
  then show "moved w (bumpVersion i w2) (moving (payer, COIN) (- amount d))"
    using still_moved [OF l(1)] moved_still [OF _ bumpVersion_moved] by blast
  show "postFrame w (bumpVersion i w2)"
    using postFrame_trans [OF l(2) postFrame_trans [OF postFrame_insert(2) [OF ins] postFrame_steps(2)]] .
  show "0 < amount d" by (rule pos)
  show "coinLedger w2 = coinLedger w @ [e]" "pointLedger w2 = pointLedger w" unfolding e(2) using l(3,4) by simp_all
  show "idempotencyKey e = idempotencyKey d" "balanceAfter e = balanceAfter d" "refId e = refId d" "metadata e = metadata d"
    by (simp_all add: e(1))
  show "findByIdempotencyKey (coinLedger w) (idempotencyKey d) = None" using fr l(3) by simp
  show "locks (bumpVersion i w2) = locks w1" unfolding e(2) by (simp add: bumpVersion_def)
  show "hasWallet w2 j u c = hasWallet w1 j u c" by (rule hasWallet_same) (simp add: e(2))
qed

lemma commissionInv_extend:
  assumes "commissionInv w" "pointLedger w' = pointLedger w @ es" "nextId w \<le> nextId w'"
    and "\<forall>e\<in>set es. \<not> isCommissionKey (idempotencyKey e) \<or> (\<exists>n<nextId w'. idempotencyKey e = commissionKey n)"
    and "\<forall>n\<in>set (commissionProcessed w'). n \<in> set (commissionProcessed w) \<or> n < nextId w'"
  shows "commissionInv w'"
proof -
  have "n < nextId w'" if "r \<in> set (pointLedger w')" "idempotencyKey r = commissionKey n" for r n
  proof (cases "r \<in> set (pointLedger w)")
    case True
    then show ?thesis using that(2) assms(1,3) by (fastforce simp: commissionInv_def)
  next
    case False
    then show ?thesis using that assms(2,4) by auto
  qed
  moreover have "n < nextId w'" if "n \<in> set (commissionProcessed w')" for n
    using that assms(1,3,5) by (fastforce simp: commissionInv_def)
  ultimately show ?thesis by (simp add: commissionInv_def)
qed

lemma hostLeg_effect:
  assumes ins: "pointInsert d w = Inr (e, w1)" and wal: "hasWallet w (walletId d) host POINT"
    and bal: "balanceAfter d = latestPointBalance w (walletId d) + amount d"
    and d: "direction d = CREDIT" "txType d \<noteq> P_WITHDRAWAL_ESCROW" "\<not> isCommissionKey (idempotencyKey d)"
    and mid: "moved (bumpVersion i w1) w2 still" "pointLedger w2 = pointLedger w1" "nextId w2 = nextId w1"
      "commissionProcessed w2 = commissionProcessed w1" "commissionDue host (amount d) tt w2 = commissionDue host (amount d) tt w"
    and set: "hostSettle host (amount d) tt com (Some (entry_id e)) w2 = Inr (ag, w')" and inv: "commissionInv w"
  shows "moved w w' (\<lambda>a. moving (host, POINT) (amount d) a + dueMove (if com then commissionDue host (amount d) tt w else None) a)"
    "commissionInv w'" "coreFrame w2 w'" "coinLedger w' = coinLedger w2"
    "\<exists>es. pointLedger w' = pointLedger w @ e # es \<and> (\<forall>x\<in>set es. isCommissionKey (idempotencyKey x))"
proof -
  note r = pointRow_effect [OF ins wal bal d(1,2)]
  have new: "findByIdempotencyKey (pointLedger w) (commissionKey (entry_id e)) = None"
    "entry_id e \<notin> set (commissionProcessed w)"
    using commissionInv_fresh [OF inv, of "entry_id e"] r(5) by simp_all
  have "idempotencyKey e \<noteq> commissionKey n" for n using d(3) r(7) by auto
  then have f1: "findByIdempotencyKey (pointLedger w2) (commissionKey (entry_id e)) = None"
    using new(1) mid(2) r(4) by (simp add: findByIdempotencyKey_append findByIdempotencyKey_def find_append)
  have f2: "entry_id e \<notin> set (commissionProcessed w2)" using new(2) mid(4) r(9) by simp
  note h = hostSettle_effect [OF set f1 f2]
  show "moved w w' (\<lambda>a. moving (host, POINT) (amount d) a + dueMove (if com then commissionDue host (amount d) tt w else None) a)"
    using moved_trans [OF moved_still [OF r(1) mid(1)] h(1)] unfolding mid(5) .
  show "coreFrame w2 w'" "coinLedger w' = coinLedger w2" by (rule h(2), rule h(3))
  obtain es where es: "pointLedger w' = pointLedger w2 @ es" "\<forall>x\<in>set es. idempotencyKey x = commissionKey (entry_id e)"
    using h(5) by blast
  then have l: "pointLedger w' = pointLedger w @ e # es" using mid(2) r(4) by simp
  then show "\<exists>es. pointLedger w' = pointLedger w @ e # es \<and> (\<forall>x\<in>set es. isCommissionKey (idempotencyKey x))"
    using es(2) by auto
  have n: "entry_id e < nextId w'" "nextId w \<le> nextId w'"
    using coreFrame_keeps(10) [OF h(2)] mid(3) r(5,6) by simp_all
  show "commissionInv w'"
    by (rule commissionInv_extend [OF inv l n(2)]) (use es(2) d(3) r(7) n(1) h(4) mid(4) r(9) in auto)
qed

lemma ensureOptional_total: "\<exists>wl w'. ensureOptional u w = Inr (wl, w') \<and> users w' = users w"
proof (cases u)
  case (Some x)
  obtain wl w1 where g: "getOrCreate x POINT w = (wl, w1)" by fastforce
  show ?thesis using postFrame_getOrCreate [OF g] by (simp add: Some ensureOptional_eq g postFrame_def)
qed (simp add: ensureOptional_def)

lemma lockForOperation_total:
  assumes "assertCoinDebitAllowed payer COIN w = Inr ()"
  shows "\<exists>pc hp w1. lockForOperation payer host com w = Inr ((pc, hp), w1)"
proof -
  obtain pc w1 where g: "getOrCreate payer COIN w = (pc, w1)" by fastforce
  obtain hp w2 where h: "ensureOptional host w1 = Inr (hp, w2)" "users w2 = users w1"
    using ensureOptional_total by blast
  obtain ap w3 where a: "ensureOptional (if com then Option.bind host (\<lambda>h. resolveCommissionAgency h w2) else None) w2 = Inr (ap, w3)"
      "users w3 = users w2"
    using ensureOptional_total by blast
  have "users (v\<lparr>locks := l\<rparr>) = users v" for v l by simp
  then have "assertCoinDebitAllowed payer COIN (w3\<lparr>locks := l\<rparr>) = Inr ()" for l
    using assms assertCoinDebitAllowed_users [of "w3\<lparr>locks := l\<rparr>" w payer COIN] a(2) h(2) postFrame_getOrCreate [OF g]
    by (simp add: postFrame_def)
  then show ?thesis
    by (simp add: lockForOperation_def ensureWallet_eq g h(1) a(1) Let_def lockWalletsInOrder_eq)
qed

lemma locked_payer_balance:
  assumes "lockForOperation payer host com w = Inr ((pc, hp), w1)" "Ledger.wf w"
  shows "latestCoinBalance w1 (wallet_id pc) = balanceOf w (payer, COIN)"
    "host = Some h \<Longrightarrow> latestPointBalance w1 (wallet_id (the hp)) = balanceOf w (h, POINT)"
proof -
  note l = lockForOperation_effect [OF assms(1)]
  note wf1 = moved_wf [OF l(1) assms(2)] and bal = moved_bal [OF l(1) assms(2)]
  show "latestCoinBalance w1 (wallet_id pc) = balanceOf w (payer, COIN)"
    using hasWallet_balance(1) [OF wf1 l(5)] bal by simp
  show "latestPointBalance w1 (wallet_id (the hp)) = balanceOf w (h, POINT)" if "host = Some h"
    using hasWallet_balance(2) [OF wf1] l(6) [OF that] bal by simp
qed

lemma commissionDue_zero [simp]: "commissionDue h 0 t w = None"
  by (simp add: commissionDue_def bdiv_def Let_def split: option.split prod.split)

lemma afterCommit_keeps:
  "moved w (afterCommit c p x y a w) still" "giftTransactions (afterCommit c p x y a w) = giftTransactions w"
  "sessions (afterCommit c p x y a w) = sessions w" "commissionInv (afterCommit c p x y a w) = commissionInv w"
  "coinLedger (afterCommit c p x y a w) = coinLedger w" "pointLedger (afterCommit c p x y a w) = pointLedger w"
  "coinCache (afterCommit (Some (u, b)) p x y a w) u = (if redisUp w then Some b else coinCache w u)"
  "locks (afterCommit c p x y a w) = locks w" "shares (afterCommit c p x y a w) = shares w"
  "clock (afterCommit c p x y a w) = clock w" "users (afterCommit c p x y a w) = users w" "gifts (afterCommit c p x y a w) = gifts w"
  "adminTables w (afterCommit c p x y a w)"
proof -
  let ?cc = "\<lambda>c. case c of Some (u, b) \<Rightarrow> if redisUp w then (coinCache w)(u \<mapsto> b) else coinCache w | None \<Rightarrow> coinCache w"
  have s1: "(case c of None \<Rightarrow> w | Some (u, b) \<Rightarrow> writeCoinBalanceCache u b w) = w\<lparr>coinCache := ?cc c\<rparr>" for c
    by (auto simp: writeCoinBalanceCache_def split: option.split)
  let ?R = "\<lambda>v v'. \<exists>pc lc. v' = v\<lparr>pointCache := pc, levelCache := lc\<rparr>"
  have tr: "?R a b \<Longrightarrow> ?R b c \<Longrightarrow> ?R a c" for a b c :: world by force
  have pt: "?R v (v\<lparr>pointCache := pc\<rparr>)" for v pc by (intro exI [of _ pc] exI [of _ "levelCache v"]) simp
  have lt: "?R v (v\<lparr>levelCache := lc\<rparr>)" for v lc by (intro exI [of _ "pointCache v"] exI [of _ lc]) simp
  have rf: "?R v v" for v by (intro exI [of _ "pointCache v"] exI [of _ "levelCache v"]) simp
  have s2: "?R v (case p of None \<Rightarrow> v | Some (u, b) \<Rightarrow> writePointBalanceCache u b v)" for v
    using pt rf by (auto simp only: writePointBalanceCache_def split: option.split if_split prod.split)
  have s3: "?R v (case x of None \<Rightarrow> v | Some u \<Rightarrow> invalidateCache u k v)" for v x k
    using lt rf by (auto simp only: invalidateCache_def split: option.split if_split)
  have s4: "?R v (case a of None \<Rightarrow> v | Some u \<Rightarrow> adjustPointBalanceCache u 0 None v)" for v
    using pt rf by (auto simp only: adjustPointBalanceCache_def option.case split: option.split if_split)
  have ex: "\<exists>pc lc. afterCommit c p x y a w = w\<lparr>coinCache := ?cc c, pointCache := pc, levelCache := lc\<rparr>" for c
    unfolding afterCommit_def Let_def s1 by (rule tr [OF tr [OF tr [OF s2 s3] s3] s4])
  obtain cc pc lc where e: "afterCommit c p x y a w = w\<lparr>coinCache := cc, pointCache := pc, levelCache := lc\<rparr>"
    using ex by blast
  show "moved w (afterCommit c p x y a w) still" unfolding e by (rule moved_frame) simp_all
  show "giftTransactions (afterCommit c p x y a w) = giftTransactions w"
    "sessions (afterCommit c p x y a w) = sessions w" "commissionInv (afterCommit c p x y a w) = commissionInv w"
    "coinLedger (afterCommit c p x y a w) = coinLedger w" "pointLedger (afterCommit c p x y a w) = pointLedger w"
    "locks (afterCommit c p x y a w) = locks w" "shares (afterCommit c p x y a w) = shares w"
    "clock (afterCommit c p x y a w) = clock w" "users (afterCommit c p x y a w) = users w" "gifts (afterCommit c p x y a w) = gifts w"
    unfolding e by (simp_all add: commissionInv_def)
  show "adminTables w (afterCommit c p x y a w)" unfolding e by (simp add: adminTables_def)
  show "coinCache (afterCommit (Some (u, b)) p x y a w) u = (if redisUp w then Some b else coinCache w u)"
    using ex [of "Some (u, b)"] by auto
qed

section \<open>Gifts\<close>

lemma giftCoinEntry_fields [simp]:
  "walletId (giftCoinEntry inp g i cost bal) = i" "direction (giftCoinEntry inp g i cost bal) = DEBIT"
  "amount (giftCoinEntry inp g i cost bal) = cost" "balanceAfter (giftCoinEntry inp g i cost bal) = bal"
  "idempotencyKey (giftCoinEntry inp g i cost bal) = gi_idemBase inp @ ''-coin''"
  by (simp_all add: giftCoinEntry_def newEntry_def)

lemma giftPointEntry_fields [simp]:
  "walletId (giftPointEntry inp g i pts bal) = i" "direction (giftPointEntry inp g i pts bal) = CREDIT"
  "amount (giftPointEntry inp g i pts bal) = pts" "balanceAfter (giftPointEntry inp g i pts bal) = bal"
  "idempotencyKey (giftPointEntry inp g i pts bal) = gi_idemBase inp @ ''-point''"
  "txType (giftPointEntry inp g i pts bal) = P_GIFT_RECEIVE"
  by (simp_all add: giftPointEntry_def newEntry_def)

definition giftMove :: "gift_input \<Rightarrow> int \<Rightarrow> int \<Rightarrow> world \<Rightarrow> uid \<times> WalletCurrencyType \<Rightarrow> int" where
  "giftMove inp cost points w a = moving (gi_senderId inp, COIN) (- cost) a
     + (moving (gi_receiverId inp, POINT) points a
     + dueMove (commissionDue (gi_receiverId inp) points P_GIFT_RECEIVE w) a)"

lemma giftSendTx_posts:
  assumes run: "giftSendTx inp g cost points w = Inr ((bc, bp, wealth, ag), w')"
    and pts: "0 \<le> points" and inv: "commissionInv w" and key: "\<not> isCommissionKey (gi_idemBase inp @ ''-point'')"
  shows "moved w w' (giftMove inp cost points w)" "commissionInv w'" "0 < cost" "redisUp w' = redisUp w"
    "Ledger.wf w \<Longrightarrow> cost \<le> balanceOf w (gi_senderId inp, COIN) \<and> bc = balanceOf w (gi_senderId inp, COIN) - cost
       \<and> bp = balanceOf w (gi_receiverId inp, POINT) + points"
    "\<exists>row. giftTransactions w' = giftTransactions w @ [row] \<and> gt_id row = gi_giftTransactionId inp"
    "sessions w' = sessions w" "shares w' = shares w" "clock w' = clock w"
    "\<exists>e. coinLedger w' = coinLedger w @ [e] \<and> txType e = C_GIFT_SEND \<and> idempotencyKey e = gi_idemBase inp @ ''-coin''"
    "users w' = users w" "gifts w' = gifts w" "adminTables w w'"
proof -
  obtain pc hp w1 c w2 hl w4 w5 w6 where lk: "lockForOperation (gi_senderId inp) (Some (gi_receiverId inp)) True w = Inr ((pc, hp), w1)"
    and enough: "\<not> latestCoinBalance w1 (wallet_id pc) < cost"
    and ins: "coinInsert (giftCoinEntry inp g (wallet_id pc) cost (latestCoinBalance w1 (wallet_id pc) - cost)) w1 = Inr (c, w2)"
    and host: "hostRow (giftPointEntry inp g (wallet_id (the hp)) points (latestPointBalance w1 (wallet_id (the hp)) + points))
        (bumpVersion (wallet_id pc) w2) = Inr (hl, w4)"
    and gt: "giftTransactionCreate
        \<lparr> gt_id = gi_giftTransactionId inp, gt_sender = gi_senderId inp, gt_receiver = gi_receiverId inp,
          gt_giftId = gift_id g,
          gt_coinCost = (if gi_context inp = ''live_stream'' then gift_coinCost g else cost),
          gt_quantity = gi_quantity inp, gt_pointsAwarded = points, gt_context = gi_context inp,
          gt_createdAt = clock w4 \<rparr> w4 = Inr ((), w5)"
    and lvl: "applyLevel (gi_senderId inp) WEALTH cost w5 = Inr (wealth, w6)"
    and set: "hostSettle (gi_receiverId inp) points P_GIFT_RECEIVE True hl w6 = Inr (ag, w')"
    and out: "bc = latestCoinBalance w1 (wallet_id pc) - cost" "bp = latestPointBalance w1 (wallet_id (the hp)) + points"
    using run unfolding giftSendTx_def Let_def by (auto simp: andThen_Inr_iff)
  let ?w3 = "bumpVersion (wallet_id pc) w2"
  note l = lockForOperation_effect [OF lk] and lv = applyLevel_effect [OF lvl]
  have p: "moved w ?w3 (moving (gi_senderId inp, COIN) (- cost))" "postFrame w ?w3" "0 < cost" "pointLedger ?w3 = pointLedger w"
    "coinLedger ?w3 = coinLedger w @ [c]"
    and wal: "hasWallet ?w3 (wallet_id (the hp)) (gi_receiverId inp) POINT"
    using payerLeg_effect [OF lk ins] enough l(6) by simp_all
  have w5: "\<exists>row. w5 = w4\<lparr>giftTransactions := giftTransactions w4 @ [row]\<rparr> \<and> gt_id row = gi_giftTransactionId inp"
    using gt by (auto simp: giftTransactionCreate_def split: if_splits)
  have m45: "moved w4 w5 still" using w5 by (auto intro!: moved_frame)
  have k45: "pointLedger w5 = pointLedger w4" "nextId w5 = nextId w4" "commissionProcessed w5 = commissionProcessed w4"
    "commissionDue h x t w5 = commissionDue h x t w4" for h x t
    using w5 by (auto intro: commissionDue_cong)
  have m46: "moved w4 w6 still" using moved_still [OF m45 lv(1)] .
  have due3: "commissionDue h x t ?w3 = commissionDue h x t w" for h x t by (rule commissionDue_postFrame [OF p(2)])
  have due6: "commissionDue h x t w6 = commissionDue h x t w4" for h x t using commissionDue_postFrame [OF lv(2)] k45(4) by simp
  have inv3: "commissionInv ?w3"
    using inv p(2,4) by (auto simp: commissionInv_def postFrame_def intro: order.strict_trans2)
  have rest: "moved ?w3 w' (\<lambda>a. moving (gi_receiverId inp, POINT) points a
       + dueMove (commissionDue (gi_receiverId inp) points P_GIFT_RECEIVE w) a) \<and> commissionInv w' \<and> coreFrame w6 w' \<and> postFrame ?w3 w4
       \<and> coinLedger w' = coinLedger w6 \<and> coinLedger w4 = coinLedger ?w3"
  proof (cases "0 < points")
    case False
    then have "points = 0" "hl = None" "w4 = ?w3" "w' = w6" using pts host set by (simp_all add: hostRow_def hostSettle_def)
    moreover have "commissionInv w6" using inv3 \<open>w4 = ?w3\<close> k45 lv(5,7,8) by (simp add: commissionInv_def)
    ultimately show ?thesis using m46 by (simp add: dueMove_def)
  next
    case True
    then obtain e wa where i2: "pointInsert (giftPointEntry inp g (wallet_id (the hp)) points
          (latestPointBalance w1 (wallet_id (the hp)) + points)) ?w3 = Inr (e, wa)"
      and hl: "hl = Some (entry_id e)" "w4 = bumpVersion (wallet_id (the hp)) wa"
      using host by (auto simp: hostRow_def andThen_Inr_iff)
    have same: "latestPointBalance ?w3 (wallet_id (the hp)) = latestPointBalance w1 (wallet_id (the hp))"
      using p(4) l(4) by (simp add: latestPointBalance_def)
    have mid: "moved (bumpVersion (wallet_id (the hp)) wa) w6 still" "pointLedger w6 = pointLedger wa" "nextId w6 = nextId wa"
      "commissionProcessed w6 = commissionProcessed wa"
      using m46 hl(2) lv(5,7,8) k45 by (simp_all add: bumpVersion_def)
    have i3: "postFrame ?w3 w4"
      unfolding hl(2) using postFrame_trans [OF postFrame_insert(1) [OF i2] postFrame_steps(2)] .
    have due: "commissionDue h x t w6 = commissionDue h x t ?w3" for h x t
      using due6 commissionDue_postFrame [OF i3] by simp
    from hostLeg_effect [OF i2 _ _ _ _ _ mid, of "gi_receiverId inp" P_GIFT_RECEIVE True] wal same key due set hl(1) inv3
    show ?thesis using due3 i3 hl(2) i2 by (auto simp: pointInsert_Inr)
  qed
  show "moved w w' (giftMove inp cost points w)"
    using moved_trans [OF p(1)] rest by (simp add: giftMove_def [abs_def])
  show "commissionInv w'" "0 < cost" using rest p(3) by simp_all
  have up: "redisUp w4 = redisUp w" "giftTransactions w4 = giftTransactions w" "sessions w4 = sessions w" "shares w4 = shares w"
      "clock w4 = clock w" "users w4 = users w" "gifts w4 = gifts w"
    using rest p(2) by (simp_all add: postFrame_def)
  show "sessions w' = sessions w" "shares w' = shares w" "clock w' = clock w" "users w' = users w" "gifts w' = gifts w"
    using coreFrame_keeps(1,4,6,7,8) [of w6 w'] rest lv(2) w5 up by (auto simp: postFrame_def)
  have "txType c = C_GIFT_SEND \<and> idempotencyKey c = gi_idemBase inp @ ''-coin''"
    using ins by (auto simp: coinInsert_Inr giftCoinEntry_def newEntry_def)
  moreover have "coinLedger w' = coinLedger w @ [c]" using rest lv(4) w5 p(5) by auto
  ultimately show "\<exists>e. coinLedger w' = coinLedger w @ [e] \<and> txType e = C_GIFT_SEND \<and> idempotencyKey e = gi_idemBase inp @ ''-coin''"
    by blast
  show "redisUp w' = redisUp w"
    using coreFrame_keeps(5) [of w6 w'] rest lv(2) w5 up by (auto simp: postFrame_def)
  have "adminTables w w4" using adminTables_trans [OF postFrame_admin [OF p(2)] postFrame_admin] rest by blast
  moreover have "adminTables w4 w5" using w5 by (auto simp: adminTables_def)
  moreover have "adminTables w5 w'" using adminTables_trans [OF postFrame_admin [OF lv(2)] coreFrame_admin] rest by blast
  ultimately show "adminTables w w'" by (blast intro: adminTables_trans)
  show "\<exists>row. giftTransactions w' = giftTransactions w @ [row] \<and> gt_id row = gi_giftTransactionId inp"
    using coreFrame_keeps(9) [of w6 w'] rest lv(2) w5 up by (auto simp: postFrame_def)
  show "cost \<le> balanceOf w (gi_senderId inp, COIN) \<and> bc = balanceOf w (gi_senderId inp, COIN) - cost
       \<and> bp = balanceOf w (gi_receiverId inp, POINT) + points" if wf: "Ledger.wf w"
    using locked_payer_balance [OF lk wf] out enough by simp
qed

text \<open>The ways an operation can fail once its wallets are locked.\<close>

definition commissionConfigured :: "uid \<Rightarrow> world \<Rightarrow> bool" where
  "commissionConfigured host w \<longleftrightarrow>
     (case agencyOfHost host w of
        None \<Rightarrow> True
      | Some a \<Rightarrow> commissionLevels w (case agencies w a of None \<Rightarrow> ''D'' | Some r \<Rightarrow> agency_level r) \<noteq> None)"

lemma commissionConfigured_cong:
  assumes "users w' = users w" "agencies w' = agencies w" "commissionLevels w' = commissionLevels w"
  shows "commissionConfigured h w' = commissionConfigured h w"
  unfolding commissionConfigured_def agencyOfHost_def by (simp only: assms)

lemma commissionConfigured_postFrame: "postFrame w w' \<Longrightarrow> commissionConfigured h w' = commissionConfigured h w"
  by (rule commissionConfigured_cong) (simp_all add: postFrame_def)

lemma applyCommission_unconfigured:
  assumes run: "applyCommission host i pts tt day w = Inl err"
    and fresh: "findByIdempotencyKey (pointLedger w) (commissionKey i) = None"
  shows "\<not> commissionConfigured host w"
proof
  assume conf: "commissionConfigured host w"
  have total: "creditAgentCommission a c (commissionOptions host i tt cat rate v) v \<noteq> Inl err"
    if "0 < c" "pointLedger v = pointLedger w" for a c cat rate v
    using creditAgentCommission_total [OF that(1), of v "commissionOptions host i tt cat rate v" a] fresh that(2)
    by (auto simp: commissionOptions_def Let_def)
  have keeps: "pointLedger (onAgencyEarnings a p d (upsertDailyEarning a h d x y v)) = pointLedger v" for a p d h x y v
    by (simp add: rankFrame_keeps [OF onAgencyEarnings_frame] upsertDailyEarning_frame)
  have cp: "createProcessed i w = Some v \<Longrightarrow> pointLedger v = pointLedger w" for v
    by (auto simp: createProcessed_def split: if_splits)
  show False
    using run conf unfolding applyCommission_def commissionConfigured_def Let_def
    by (auto split: option.splits if_splits simp: andThen_Inl_iff keeps cp total)
qed

lemma hostSettle_fails:
  assumes "hostSettle host points tt com (Some i) w = Inl err"
    and "findByIdempotencyKey (pointLedger w) (commissionKey i) = None"
  shows "err = AppError 500 ''CONFIG_ERROR'' [] \<and> \<not> commissionConfigured host w"
proof -
  obtain r w1 where l: "applyLevel host LIVESTREAM points w = Inr (r, w1)" using applyLevel_total by blast
  have "findByIdempotencyKey (pointLedger w1) (commissionKey i) = None" using applyLevel_effect(5) [OF l] assms(2) by simp
  moreover have "com" "applyCommission host i points tt (utcDayFromTimestamp (clock w1)) w1 = Inl err"
    using assms(1) l by (auto simp: hostSettle_def settleHostCredit_def Let_def andThen_Inl_iff split: if_splits)
  ultimately show ?thesis
    using applyCommission_fails applyCommission_unconfigured commissionConfigured_postFrame [OF applyLevel_effect(2) [OF l]] by blast
qed

lemma insert_fails:
  "coinInsert d w = Inl err \<Longrightarrow> 0 < amount d \<Longrightarrow> err = UniqueViolation \<and> findByIdempotencyKey (coinLedger w) (idempotencyKey d) \<noteq> None"
  "pointInsert c w = Inl err \<Longrightarrow> 0 < amount c \<Longrightarrow> err = UniqueViolation \<and> findByIdempotencyKey (pointLedger w) (idempotencyKey c) \<noteq> None"
  by (auto simp: coinInsert_def pointInsert_def insertRow_def andThen_Inl_iff Let_def split: if_splits)

lemma giftSendTx_fails:
  assumes run: "giftSendTx inp g cost points w = Inl err" and free: "assertCoinDebitAllowed (gi_senderId inp) COIN w = Inr ()"
    and wf: "Ledger.wf w" and inv: "commissionInv w" and cost: "0 < cost"
    and key: "\<not> isCommissionKey (gi_idemBase inp @ ''-point'')"
  shows "(balanceOf w (gi_senderId inp, COIN) < cost \<and> err = insufficientCoins cost (balanceOf w (gi_senderId inp, COIN)))
    \<or> (cost \<le> balanceOf w (gi_senderId inp, COIN)
       \<and> (err = AppError 500 ''CONFIG_ERROR'' [] \<and> \<not> commissionConfigured (gi_receiverId inp) w
          \<or> err = UniqueViolation \<and> (findByIdempotencyKey (coinLedger w) (gi_idemBase inp @ ''-coin'') \<noteq> None
              \<or> findByIdempotencyKey (pointLedger w) (gi_idemBase inp @ ''-point'') \<noteq> None
              \<or> gi_giftTransactionId inp \<in> set (map gt_id (giftTransactions w)))))"
proof -
  obtain pc hp w1 where lk: "lockForOperation (gi_senderId inp) (Some (gi_receiverId inp)) True w = Inr ((pc, hp), w1)"
    using lockForOperation_total [OF free] by blast
  note l = lockForOperation_effect [OF lk]
  let ?bal = "balanceOf w (gi_senderId inp, COIN)"
  have bal: "latestCoinBalance w1 (wallet_id pc) = ?bal" by (rule locked_payer_balance(1) [OF lk wf])
  let ?c = "giftCoinEntry inp g (wallet_id pc) cost (?bal - cost)"
  let ?p = "giftPointEntry inp g (wallet_id (the hp)) points (latestPointBalance w1 (wallet_id (the hp)) + points)"
  show ?thesis
  proof (cases "?bal < cost")
    case True
    then show ?thesis using run by (simp add: giftSendTx_def lk bal)
  next
    case False
    show ?thesis
    proof (cases "coinInsert ?c w1")
      case (Inl e1)
      then show ?thesis using run insert_fails(1) [OF Inl] False cost l(3) by (simp add: giftSendTx_def lk bal Let_def)
    next
      case (Inr x)
      obtain e1 w2 where x: "x = (e1, w2)" by fastforce
      let ?w3 = "bumpVersion (wallet_id pc) w2"
      have pl: "pointLedger ?w3 = pointLedger w" "nextId w \<le> nextId ?w3" "giftTransactions ?w3 = giftTransactions w"
          "postFrame w ?w3"
        using payerLeg_effect(2,5) [OF lk Inr [unfolded x]] False by (simp_all add: bal postFrame_def)
      have le: "cost \<le> ?bal" using False by simp
      note step1 = lk bal False le Inr x
      show ?thesis
      proof (cases "hostRow ?p ?w3")
        case (Inl e2)
        then show ?thesis
          using run insert_fails(2) [of ?p ?w3 e2] False pl(1)
          by (auto simp: giftSendTx_def step1 Let_def hostRow_def andThen_Inl_iff split: if_splits)
      next
        case row: (Inr y)
        obtain hl w4 where y: "y = (hl, w4)" by fastforce
        have f4: "postFrame w w4"
          using row postFrame_trans [OF pl(4)] postFrame_insert(1) postFrame_steps(2) postFrame_trans
          by (fastforce simp: y hostRow_def andThen_Inr_iff pl(4) split: if_splits)
        have w4: "giftTransactions w4 = giftTransactions w"
          "hl = Some i \<Longrightarrow> findByIdempotencyKey (pointLedger w4) (commissionKey i) = None" for i
          using row pl key commissionInv_fresh [OF inv]
          by (auto simp: y hostRow_def andThen_Inr_iff pointInsert_Inr bumpVersion_def findByIdempotencyKey_def find_append
              split: if_splits)
        show ?thesis
        proof (cases "gi_giftTransactionId inp \<in> set (map gt_id (giftTransactions w))")
          case True
          then show ?thesis using run False w4(1)
            by (simp add: giftSendTx_def step1 row y giftTransactionCreate_def Let_def)
        next
          case fresh: False
          define w5 where "w5 = w4\<lparr>giftTransactions := giftTransactions w4 @ [
            \<lparr> gt_id = gi_giftTransactionId inp, gt_sender = gi_senderId inp, gt_receiver = gi_receiverId inp,
              gt_giftId = gift_id g,
              gt_coinCost = (if gi_context inp = ''live_stream'' then gift_coinCost g else cost),
              gt_quantity = gi_quantity inp, gt_pointsAwarded = points, gt_context = gi_context inp,
              gt_createdAt = clock w4 \<rparr>]\<rparr>"
          obtain r w6 where lv: "applyLevel (gi_senderId inp) WEALTH cost w5 = Inr (r, w6)" using applyLevel_total by blast
          have "hostSettle (gi_receiverId inp) points P_GIFT_RECEIVE True hl w6 = Inl err"
            using run fresh w4(1) lv
            by (auto simp: giftSendTx_def step1 row y giftTransactionCreate_def Let_def w5_def andThen_Inl_iff)
          moreover from this obtain i where "hl = Some i" by (cases hl) (auto simp: hostSettle_def)
          moreover have "pointLedger w6 = pointLedger w4" using applyLevel_effect(5) [OF lv] by (simp add: w5_def)
          moreover have "commissionConfigured (gi_receiverId inp) w5 = commissionConfigured (gi_receiverId inp) w"
            by (rule commissionConfigured_cong) (use f4 in \<open>simp_all add: w5_def postFrame_def\<close>)
          then have "commissionConfigured (gi_receiverId inp) w6 = commissionConfigured (gi_receiverId inp) w"
            using commissionConfigured_postFrame [OF applyLevel_effect(2) [OF lv]] by simp
          ultimately show ?thesis using hostSettle_fails w4(2) le by fastforce
        qed
      qed
    qed
  qed
qed

section \<open>Call minutes\<close>

lemma minuteKey_plain: "\<not> isCommissionKey (minuteKey sid m x)"
  by (simp add: isCommissionKey_def minuteKey_def)

definition callMove :: "session_row \<Rightarrow> int \<Rightarrow> world \<Rightarrow> uid \<times> WalletCurrencyType \<Rightarrow> int" where
  "callMove s coinRate w a = moving (session_caller s, COIN) (- coinRate) a
     + (moving (session_creator s, POINT) (pricePerMin s) a
     + dueMove (commissionDue (session_creator s) (pricePerMin s) P_VIDEO_CALL w) a)"

lemma billMinute_posts:
  assumes run: "billMinute sid s m rq w = Inr (b, w')" and inv: "commissionInv w"
  shows "moved w w' (callMove s (mb_coinRate b) w)" "commissionInv w'" "coreFrame w w'"
    "callerCoinDebitForCall (pricePerMin s) (videoCallHostShareBp (shares w)) = Inr (mb_coinRate b)"
    "0 < mb_coinRate b" "mb_pointRate b = pricePerMin s" "0 < pricePerMin s"
    "Ledger.wf w \<Longrightarrow> mb_balanceAfterCoins b = balanceOf w (session_caller s, COIN) - mb_coinRate b"
    "\<exists>e. coinLedger w' = coinLedger w @ [e] \<and> idempotencyKey e = minuteKey sid m ''-coins'' \<and> txType e = C_VIDEO_CALL
       \<and> refId e = Some sid \<and> amount e = mb_coinRate b"
    "findByIdempotencyKey (coinLedger w) (minuteKey sid m ''-coins'') = None"
proof -
  let ?c = "\<lambda>pc w1. (newEntry (wallet_id pc) DEBIT C_VIDEO_CALL (mb_coinRate b)
      (latestCoinBalance w1 (wallet_id pc) - mb_coinRate b) (minuteKey sid m ''-coins''))
        \<lparr>refId := Some sid, counterpartyId := Some (session_creator s),
         description := Some (''Video call minute '' @ show_int m @ '' charge''),
         metadata := Some (JObj [(''requestId'', JStr rq)])\<rparr>"
  let ?p = "\<lambda>pc hp w2. (newEntry (wallet_id (the hp)) CREDIT P_VIDEO_CALL (pricePerMin s)
      (latestPointBalance (bumpVersion (wallet_id pc) w2) (wallet_id (the hp)) + pricePerMin s) (minuteKey sid m ''-points''))
        \<lparr>refId := Some sid, counterpartyId := Some (session_caller s),
         description := Some (''Points for video call minute '' @ show_int m)\<rparr>"
  obtain pc hp w1 e1 w2 e2 w4 lr w6 ag where
    rate: "callerCoinDebitForCall (pricePerMin s) (videoCallHostShareBp (shares w)) = Inr (mb_coinRate b)"
    and lk: "lockForOperation (session_caller s) (Some (session_creator s)) True w = Inr ((pc, hp), w1)"
    and enough: "\<not> latestCoinBalance w1 (wallet_id pc) < mb_coinRate b"
    and i1: "coinInsert (?c pc w1) w1 = Inr (e1, w2)"
    and i2: "pointInsert (?p pc hp w2) (bumpVersion (wallet_id pc) w2) = Inr (e2, w4)"
    and lvl: "applyLevel (session_caller s) WEALTH (mb_coinRate b) (bumpVersion (wallet_id (the hp)) w4) = Inr (lr, w6)"
    and st: "hostSettle (session_creator s) (pricePerMin s) P_VIDEO_CALL True (Some (entry_id e2)) w6 = Inr (ag, w')"
    and b: "mb_pointRate b = pricePerMin s" "mb_balanceAfterCoins b = latestCoinBalance w1 (wallet_id pc) - mb_coinRate b"
    using run unfolding billMinute_def Let_def by (clarsimp simp: andThen_Inr_iff)
  let ?w3 = "bumpVersion (wallet_id pc) w2"
  note l = lockForOperation_effect [OF lk] and lv = applyLevel_effect [OF lvl]
  have p: "moved w ?w3 (moving (session_caller s, COIN) (- mb_coinRate b))" "postFrame w ?w3" "0 < mb_coinRate b"
    "coinLedger w2 = coinLedger w @ [e1]" "pointLedger ?w3 = pointLedger w"
    "findByIdempotencyKey (coinLedger w) (minuteKey sid m ''-coins'') = None"
    and wal: "hasWallet ?w3 (wallet_id (the hp)) (session_creator s) POINT"
    using payerLeg_effect [OF lk i1] enough l(6) by (simp_all add: newEntry_def)
  have e1: "idempotencyKey e1 = minuteKey sid m ''-coins''" "txType e1 = C_VIDEO_CALL" "refId e1 = Some sid" "amount e1 = mb_coinRate b"
    using i1 by (auto simp: coinInsert_Inr newEntry_def)
  have inv3: "commissionInv ?w3"
    using inv p(2,5) by (auto simp: commissionInv_def postFrame_def intro: order.strict_trans2)
  have i3: "postFrame ?w3 (bumpVersion (wallet_id (the hp)) w4)"
    using postFrame_trans [OF postFrame_insert(1) [OF i2] postFrame_steps(2)] .
  have due: "commissionDue h x t w6 = commissionDue h x t ?w3" "commissionDue h x t ?w3 = commissionDue h x t w" for h x t
    using commissionDue_postFrame [OF lv(2)] commissionDue_postFrame [OF i3] commissionDue_postFrame [OF p(2)] by simp_all
  have mid: "moved (bumpVersion (wallet_id (the hp)) w4) w6 still" "pointLedger w6 = pointLedger w4" "nextId w6 = nextId w4"
      "commissionProcessed w6 = commissionProcessed w4"
    using lv(1,5,7,8) by (simp_all add: bumpVersion_def)
  have h: "moved ?w3 w' (\<lambda>a. moving (session_creator s, POINT) (pricePerMin s) a
         + dueMove (commissionDue (session_creator s) (pricePerMin s) P_VIDEO_CALL w) a)"
    "commissionInv w'" "coreFrame w6 w'" "coinLedger w' = coinLedger w6"
    using hostLeg_effect [OF i2 _ _ _ _ _ mid, of "session_creator s" P_VIDEO_CALL True] wal minuteKey_plain due st inv3
    by (simp_all add: newEntry_def)
  show "moved w w' (callMove s (mb_coinRate b) w)"
    using moved_trans [OF p(1) h(1)] by (simp add: callMove_def [abs_def])
  show "commissionInv w'" by (rule h(2))
  show "coreFrame w w'"
    using coreFrame_trans [OF postFrame_core [OF postFrame_trans [OF p(2) postFrame_trans [OF i3 lv(2)]]] h(3)] .
  show "callerCoinDebitForCall (pricePerMin s) (videoCallHostShareBp (shares w)) = Inr (mb_coinRate b)"
    "0 < mb_coinRate b" "mb_pointRate b = pricePerMin s" "findByIdempotencyKey (coinLedger w) (minuteKey sid m ''-coins'') = None"
    by (rule rate, rule p(3), rule b(1), rule p(6))
  show "0 < pricePerMin s" using i2 by (auto simp: pointInsert_Inr newEntry_def)
  show "mb_balanceAfterCoins b = balanceOf w (session_caller s, COIN) - mb_coinRate b" if "Ledger.wf w"
    using locked_payer_balance(1) [OF lk that] b(2) by simp
  have "coinLedger w' = coinLedger w @ [e1]"
    using h(4) lv(4) i2 p(4) by (auto simp: pointInsert_Inr)
  then show "\<exists>e. coinLedger w' = coinLedger w @ [e] \<and> idempotencyKey e = minuteKey sid m ''-coins'' \<and> txType e = C_VIDEO_CALL
       \<and> refId e = Some sid \<and> amount e = mb_coinRate b" using e1 by blast
qed

lemma billMinute_fails:
  assumes run: "billMinute sid s m rq w = Inl err" and free: "assertCoinDebitAllowed (session_caller s) COIN w = Inr ()"
    and wf: "Ledger.wf w" and inv: "commissionInv w"
    and rate: "callerCoinDebitForCall (pricePerMin s) (videoCallHostShareBp (shares w)) = Inr c" "0 < c" "0 < pricePerMin s"
  shows "(balanceOf w (session_caller s, COIN) < c \<and> err = insufficientCoins c (balanceOf w (session_caller s, COIN)))
    \<or> (c \<le> balanceOf w (session_caller s, COIN)
       \<and> (err = AppError 500 ''CONFIG_ERROR'' [] \<and> \<not> commissionConfigured (session_creator s) w
          \<or> err = UniqueViolation \<and> (findByIdempotencyKey (coinLedger w) (minuteKey sid m ''-coins'') \<noteq> None
              \<or> findByIdempotencyKey (pointLedger w) (minuteKey sid m ''-points'') \<noteq> None)))"
proof -
  obtain pc hp w1 where lk: "lockForOperation (session_caller s) (Some (session_creator s)) True w = Inr ((pc, hp), w1)"
    using lockForOperation_total [OF free] by blast
  note l = lockForOperation_effect [OF lk]
  let ?bal = "balanceOf w (session_caller s, COIN)"
  have bal: "latestCoinBalance w1 (wallet_id pc) = ?bal" by (rule locked_payer_balance(1) [OF lk wf])
  let ?c = "(newEntry (wallet_id pc) DEBIT C_VIDEO_CALL c (?bal - c) (minuteKey sid m ''-coins''))
        \<lparr>refId := Some sid, counterpartyId := Some (session_creator s),
         description := Some (''Video call minute '' @ show_int m @ '' charge''),
         metadata := Some (JObj [(''requestId'', JStr rq)])\<rparr>"
  have cf: "walletId ?c = wallet_id pc" "direction ?c = DEBIT" "amount ?c = c" "balanceAfter ?c = ?bal - c"
    "idempotencyKey ?c = minuteKey sid m ''-coins''" by (simp_all add: newEntry_def)
  show ?thesis
  proof (cases "?bal < c")
    case True
    then show ?thesis using run by (simp add: billMinute_def Let_def rate(1) lk bal)
  next
    case False
    then have le: "c \<le> ?bal" by simp
    show ?thesis
    proof (cases "coinInsert ?c w1")
      case (Inl e1)
      then have "err = e1" using run False by (simp add: billMinute_def Let_def rate(1) lk bal)
      then show ?thesis using insert_fails(1) [OF Inl] cf rate(2) le l(3) by simp
    next
      case (Inr x)
      obtain e1 w2 where x: "x = (e1, w2)" by fastforce
      let ?w3 = "bumpVersion (wallet_id pc) w2"
      have pl: "pointLedger ?w3 = pointLedger w" "nextId w \<le> nextId ?w3" "postFrame w ?w3"
        using payerLeg_effect(2,5) [OF lk Inr [unfolded x] cf(1,2)] cf False by (simp_all add: bal postFrame_def)
      let ?p = "(newEntry (wallet_id (the hp)) CREDIT P_VIDEO_CALL (pricePerMin s)
          (latestPointBalance ?w3 (wallet_id (the hp)) + pricePerMin s) (minuteKey sid m ''-points''))
        \<lparr>refId := Some sid, counterpartyId := Some (session_caller s),
         description := Some (''Points for video call minute '' @ show_int m)\<rparr>"
      have pf: "amount ?p = pricePerMin s" "idempotencyKey ?p = minuteKey sid m ''-points''" by (simp_all add: newEntry_def)
      show ?thesis
      proof (cases "pointInsert ?p ?w3")
        case (Inl e2)
        then have "err = e2" using run False Inr x by (simp add: billMinute_def Let_def rate(1) lk bal)
        then show ?thesis using insert_fails(2) [OF Inl] pf rate(3) le pl(1) by simp
      next
        case row: (Inr y)
        obtain e2 w4 where y: "y = (e2, w4)" by fastforce
        have "nextId w \<le> entry_id e2" "pointLedger w4 = pointLedger w @ [e2]" "idempotencyKey e2 = minuteKey sid m ''-points''"
          using row pl by (auto simp: y pointInsert_Inr newEntry_def)
        then have fr: "findByIdempotencyKey (pointLedger w4) (commissionKey (entry_id e2)) = None"
          using commissionInv_fresh [OF inv] minuteKey_plain [of sid m "''-points''"]
          by (auto simp: findByIdempotencyKey_def find_append)
        obtain r w6 where lv: "applyLevel (session_caller s) WEALTH c (bumpVersion (wallet_id (the hp)) w4) = Inr (r, w6)"
          using applyLevel_total by blast
        have "hostSettle (session_creator s) (pricePerMin s) P_VIDEO_CALL True (Some (entry_id e2)) w6 = Inl err"
          using run False Inr x row y lv by (auto simp: billMinute_def Let_def rate(1) lk bal andThen_Inl_iff)
        moreover have "pointLedger w6 = pointLedger w4" using applyLevel_effect(5) [OF lv] by simp
        moreover have "postFrame w w6"
          using postFrame_trans [OF pl(3) postFrame_trans [OF postFrame_insert(1) [OF row [unfolded y]]
                postFrame_trans [OF postFrame_steps(2) applyLevel_effect(2) [OF lv]]]] .
        then have "commissionConfigured (session_creator s) w6 = commissionConfigured (session_creator s) w"
          by (rule commissionConfigured_postFrame)
        ultimately show ?thesis using hostSettle_fails fr le by fastforce
      qed
    qed
  qed
qed

section \<open>Global messages\<close>

lemma globalMessageTx_posts:
  assumes run: "globalMessageTx inp w = Inr ((bal, wealth), w')"
  shows "moved w w' (moving (gm_senderId inp, COIN) (- 10000))" "coreFrame w w'" "pointLedger w' = pointLedger w"
    "commissionProcessed w' = commissionProcessed w"
    "Ledger.wf w \<Longrightarrow> bal = balanceOf w (gm_senderId inp, COIN) - 10000 \<and> 10000 \<le> balanceOf w (gm_senderId inp, COIN)"
    "\<exists>e. coinLedger w' = coinLedger w @ [e] \<and> idempotencyKey e = gm_idemKey inp \<and> txType e = C_GLOBAL_MESSAGE"
proof -
  let ?c = "\<lambda>pc w1. (newEntry (wallet_id pc) DEBIT C_GLOBAL_MESSAGE 10000
            (latestCoinBalance w1 (wallet_id pc) - 10000) (gm_idemKey inp))
           \<lparr>refId := Some (gm_messageTxId inp),
            description := Some (''Sent global message: \"'' @ take 30 (gm_message inp) @ ''...\"''),
            metadata := Some (JObj [(''requestId'', JStr (gm_requestId inp))])\<rparr>"
  obtain pc hp w1 e w2 where lk: "lockForOperation (gm_senderId inp) None False w = Inr ((pc, hp), w1)"
    and enough: "\<not> latestCoinBalance w1 (wallet_id pc) < 10000"
    and i1: "coinInsert (?c pc w1) w1 = Inr (e, w2)"
    and lvl: "applyLevel (gm_senderId inp) WEALTH 10000 (bumpVersion (wallet_id pc) w2) = Inr (wealth, w')"
    and bal: "bal = latestCoinBalance w1 (wallet_id pc) - 10000"
    using run unfolding globalMessageTx_def GLOBAL_MESSAGE_COST_def Let_def by (clarsimp simp: andThen_Inr_iff)
  note lv = applyLevel_effect [OF lvl]
  have p: "moved w (bumpVersion (wallet_id pc) w2) (moving (gm_senderId inp, COIN) (- 10000))"
    "postFrame w (bumpVersion (wallet_id pc) w2)" "coinLedger w2 = coinLedger w @ [e]" "pointLedger w2 = pointLedger w"
    using payerLeg_effect [OF lk i1] enough by (simp_all add: newEntry_def)
  show "moved w w' (moving (gm_senderId inp, COIN) (- 10000))" by (rule moved_still [OF p(1) lv(1)])
  have pf: "postFrame w w'" by (rule postFrame_trans [OF p(2) lv(2)])
  then show "coreFrame w w'" by (rule postFrame_core)
  show "pointLedger w' = pointLedger w" "commissionProcessed w' = commissionProcessed w"
    using lv(5) p(4) pf by (simp_all add: postFrame_def)
  show "bal = balanceOf w (gm_senderId inp, COIN) - 10000 \<and> 10000 \<le> balanceOf w (gm_senderId inp, COIN)" if "Ledger.wf w"
    using locked_payer_balance(1) [OF lk that] bal enough by simp
  have "idempotencyKey e = gm_idemKey inp \<and> txType e = C_GLOBAL_MESSAGE"
    using i1 by (auto simp: coinInsert_Inr newEntry_def)
  then show "\<exists>e. coinLedger w' = coinLedger w @ [e] \<and> idempotencyKey e = gm_idemKey inp \<and> txType e = C_GLOBAL_MESSAGE"
    using lv(4) p(3) by auto
qed

end
