(* ===== verification/LuckyTier.thy ===== *)
theory LuckyTier
  imports World "HOL-Library.List_Lexorder" "HOL-Library.Char_ord"
begin

text \<open>
  The choice of the engine for a lucky gift (\<open>src/src/services/luckyWater/resolveTier.ts\<close>): the tier
  whose price range holds the unit price, in its latest version, and the engine its mode asks for.
  Every server process keeps the immutable configuration rows, the index of the latest versions and
  the existence of a seed decision in memory for ten seconds; the mode of a tier is read from the
  database in every transaction. The caches are a value of their own beside the database, since a
  transaction that rolls back leaves them as they are.

  Strings are ordered character by character, the order of the \<open>C\<close> collation of the database.
\<close>

section \<open>Configurations and caches\<close>

record ImmutableTierConfig =
  cfg_id :: nat
  cfg_tierId :: string
  cfg_version :: int
  cfg_priceMin :: int
  cfg_priceMax :: "int option"
  cfg_rBp :: int
  cfg_jBp :: int
  cfg_l0 :: int
  cfg_floor :: int
  cfg_thresholds :: LambdaThresholds
  cfg_bandWeights :: BandWeightsByBand
  cfg_weightTableId :: string
  cfg_mMax :: int
  cfg_vMaxBp :: int
  cfg_dailyWinCapCoins :: int
  cfg_coolDownSeconds :: int

record ResolvedTierConfig =
  rc_immutable :: ImmutableTierConfig
  rc_mode :: string

datatype lucky_engine = Legacy | WaterV1

record EngineResolution =
  er_engine :: lucky_engine
  er_config :: "ResolvedTierConfig option"
  er_seedExists :: bool

record tier_meta =
  tm_id :: nat
  tm_priceMin :: int
  tm_priceMax :: "int option"

text \<open>The index by tier is a JavaScript \<open>Map\<close>, read in the order of insertion.\<close>

record lucky_cache =
  immutableConfigById :: "nat \<rightharpoonup> ImmutableTierConfig"
  latestConfigMeta :: "(int \<times> (string \<times> tier_meta) list) option"
  seedCache :: "string \<rightharpoonup> int \<times> bool"

definition LUCKY_TIER_CONFIG_CACHE_TTL_MS :: int where
  "LUCKY_TIER_CONFIG_CACHE_TTL_MS = 10000"

definition bustLuckyTierConfigCache :: lucky_cache where
  "bustLuckyTierConfigCache =
     \<lparr> immutableConfigById = Map.empty, latestConfigMeta = None, seedCache = Map.empty \<rparr>"

definition rowToImmutable :: "lucky_config_row \<Rightarrow> ImmutableTierConfig" where
  "rowToImmutable row =
     \<lparr> cfg_id = lc_id row, cfg_tierId = lc_tierId row, cfg_version = lc_version row,
       cfg_priceMin = lc_priceMin row, cfg_priceMax = lc_priceMax row, cfg_rBp = lc_rBp row,
       cfg_jBp = lc_jBp row, cfg_l0 = lc_l0 row, cfg_floor = lc_floor row,
       cfg_thresholds = \<lparr> criticalMaxBp = lc_criticalMaxBp row, lowMaxBp = lc_lowMaxBp row,
                          normalMaxBp = lc_normalMaxBp row \<rparr>,
       cfg_bandWeights = lc_bandWeights row, cfg_weightTableId = lc_weightTableId row,
       cfg_mMax = lc_mMax row, cfg_vMaxBp = lc_vMaxBp row,
       cfg_dailyWinCapCoins = lc_dailyWinCapCoins row, cfg_coolDownSeconds = lc_coolDownSeconds row \<rparr>"

definition metaOf :: "lucky_config_row \<Rightarrow> tier_meta" where
  "metaOf row = \<lparr> tm_id = lc_id row, tm_priceMin = lc_priceMin row, tm_priceMax = lc_priceMax row \<rparr>"

section \<open>The index of the latest versions\<close>

text \<open>\<open>orderBy: [{ tierId: 'asc' }, { version: 'desc' }]\<close>, as two stable sorts.\<close>

definition configsInOrder :: "world \<Rightarrow> lucky_config_row list" where
  "configsInOrder w = sort_key lc_tierId (sort_key (\<lambda>r. - lc_version r) (luckyConfigs w))"

fun indexLatest ::
  "lucky_config_row list \<Rightarrow> (string \<times> tier_meta) list \<Rightarrow> (nat \<rightharpoonup> ImmutableTierConfig)
     \<Rightarrow> (string \<times> tier_meta) list \<times> (nat \<rightharpoonup> ImmutableTierConfig)" where
  "indexLatest [] byTier byId = (byTier, byId)"
| "indexLatest (row # rows) byTier byId =
     (if lc_tierId row \<in> set (map fst byTier) then indexLatest rows byTier byId
      else indexLatest rows (byTier @ [(lc_tierId row, metaOf row)]) (byId(lc_id row \<mapsto> rowToImmutable row)))"

definition refreshLatestConfigIndex ::
  "world \<Rightarrow> lucky_cache \<Rightarrow> (string \<times> tier_meta) list \<times> lucky_cache" where
  "refreshLatestConfigIndex w cache =
     (case latestConfigMeta cache of
        Some (t, byTier) \<Rightarrow>
          if clock w - t < LUCKY_TIER_CONFIG_CACHE_TTL_MS then (byTier, cache)
          else
            (let (byTier', byId) = indexLatest (configsInOrder w) [] (immutableConfigById cache)
             in (byTier', cache\<lparr>immutableConfigById := byId, latestConfigMeta := Some (clock w, byTier')\<rparr>))
      | None \<Rightarrow>
          (let (byTier', byId) = indexLatest (configsInOrder w) [] (immutableConfigById cache)
           in (byTier', cache\<lparr>immutableConfigById := byId, latestConfigMeta := Some (clock w, byTier')\<rparr>)))"

definition inRange :: "int \<Rightarrow> int option \<Rightarrow> int \<Rightarrow> bool" where
  "inRange lo hi price \<longleftrightarrow> \<not> price < lo \<and> (case hi of None \<Rightarrow> True | Some h \<Rightarrow> \<not> h < price)"

definition pickTierMetaForPrice :: "(string \<times> tier_meta) list \<Rightarrow> int \<Rightarrow> tier_meta option" where
  "pickTierMetaForPrice byTier price =
     find (\<lambda>m. inRange (tm_priceMin m) (tm_priceMax m) price) (map snd byTier)"

section \<open>Resolution\<close>

definition readTierModeInTx :: "world \<Rightarrow> string \<Rightarrow> string" where
  "readTierModeInTx w tier = (case luckyModes w tier of None \<Rightarrow> ''off'' | Some m \<Rightarrow> m)"

text \<open>The query behind the index: any version whose range holds the price, the highest first.\<close>

definition findConfigForPrice :: "world \<Rightarrow> int \<Rightarrow> lucky_config_row option" where
  "findConfigForPrice w price =
     (case sort_key (\<lambda>r. - lc_version r) (filter (\<lambda>r. inRange (lc_priceMin r) (lc_priceMax r) price) (luckyConfigs w)) of
        [] \<Rightarrow> None
      | r # _ \<Rightarrow> Some r)"

definition chooseMeta ::
  "world \<Rightarrow> (string \<times> tier_meta) list \<Rightarrow> int \<Rightarrow> lucky_cache \<Rightarrow> (tier_meta \<times> lucky_cache) option" where
  "chooseMeta w byTier price cache =
     (case pickTierMetaForPrice byTier price of
        Some m \<Rightarrow> Some (m, cache)
      | None \<Rightarrow>
          (case findConfigForPrice w price of
             None \<Rightarrow> None
           | Some row \<Rightarrow>
               Some (metaOf row, cache\<lparr>immutableConfigById := (immutableConfigById cache)(lc_id row \<mapsto> rowToImmutable row)\<rparr>)))"

definition loadImmutable :: "world \<Rightarrow> nat \<Rightarrow> lucky_cache \<Rightarrow> (ImmutableTierConfig \<times> lucky_cache) option" where
  "loadImmutable w i cache =
     (case immutableConfigById cache i of
        Some c \<Rightarrow> Some (c, cache)
      | None \<Rightarrow>
          (case find (\<lambda>r. lc_id r = i) (luckyConfigs w) of
             None \<Rightarrow> None
           | Some row \<Rightarrow>
               Some (rowToImmutable row,
                     cache\<lparr>immutableConfigById := (immutableConfigById cache)(lc_id row \<mapsto> rowToImmutable row)\<rparr>)))"

definition resolveTierConfig :: "world \<Rightarrow> int \<Rightarrow> lucky_cache \<Rightarrow> ResolvedTierConfig option \<times> lucky_cache" where
  "resolveTierConfig w price cache =
     (let (byTier, cache1) = refreshLatestConfigIndex w cache in
      case chooseMeta w byTier price cache1 of
        None \<Rightarrow> (None, cache1)
      | Some (m, cache2) \<Rightarrow>
          (case loadImmutable w (tm_id m) cache2 of
             None \<Rightarrow> (None, cache2)
           | Some (c, cache3) \<Rightarrow>
               (Some \<lparr> rc_immutable = c, rc_mode = readTierModeInTx w (cfg_tierId c) \<rparr>, cache3)))"

definition tierHasSeed :: "world \<Rightarrow> string \<Rightarrow> lucky_cache \<Rightarrow> bool \<times> lucky_cache" where
  "tierHasSeed w tier cache =
     (let exists = (find (\<lambda>s. seed_tierId s = tier) (luckySeeds w) \<noteq> None) in
      case seedCache cache tier of
        Some (t, known) \<Rightarrow>
          if clock w - t < LUCKY_TIER_CONFIG_CACHE_TTL_MS then (known, cache)
          else (exists, cache\<lparr>seedCache := (seedCache cache)(tier \<mapsto> (clock w, exists))\<rparr>)
      | None \<Rightarrow> (exists, cache\<lparr>seedCache := (seedCache cache)(tier \<mapsto> (clock w, exists))\<rparr>))"

definition resolveEngine :: "world \<Rightarrow> int \<Rightarrow> bool \<Rightarrow> lucky_cache \<Rightarrow> EngineResolution \<times> lucky_cache" where
  "resolveEngine w price supportsServerDraw cache =
     (if \<not> supportsServerDraw then (\<lparr> er_engine = Legacy, er_config = None, er_seedExists = False \<rparr>, cache)
      else
        (let (config, cache1) = resolveTierConfig w price cache in
         case config of
           None \<Rightarrow> (\<lparr> er_engine = Legacy, er_config = None, er_seedExists = False \<rparr>, cache1)
         | Some c \<Rightarrow>
             if rc_mode c \<noteq> ''enforce'' then
               (\<lparr> er_engine = Legacy, er_config = Some c, er_seedExists = False \<rparr>, cache1)
             else
               (let (seedExists, cache2) = tierHasSeed w (cfg_tierId (rc_immutable c)) cache1
                in (\<lparr> er_engine = (if seedExists then WaterV1 else Legacy), er_config = Some c,
                     er_seedExists = seedExists \<rparr>, cache2))))"

section \<open>The mode is never cached\<close>

lemma resolveTierConfig_mode:
  "fst (resolveTierConfig w price cache) = Some c \<Longrightarrow> rc_mode c = readTierModeInTx w (cfg_tierId (rc_immutable c))"
  by (auto simp: resolveTierConfig_def Let_def split: prod.splits option.splits)

lemma resolveEngine_water:
  assumes "er_engine (fst (resolveEngine w price b cache)) = WaterV1"
  shows "\<exists>c. er_config (fst (resolveEngine w price b cache)) = Some c
     \<and> luckyModes w (cfg_tierId (rc_immutable c)) = Some ''enforce'' \<and> b"
proof -
  obtain config cache1 where r: "resolveTierConfig w price cache = (config, cache1)" by fastforce
  obtain c where c: "config = Some c" "rc_mode c = ''enforce''" "b" "er_config (fst (resolveEngine w price b cache)) = Some c"
    using assms r by (auto simp: resolveEngine_def Let_def split: if_splits option.splits prod.splits)
  have "rc_mode c = readTierModeInTx w (cfg_tierId (rc_immutable c))" using resolveTierConfig_mode r c(1) by (metis fst_conv)
  then have "luckyModes w (cfg_tierId (rc_immutable c)) = Some ''enforce''"
    using c(2) by (auto simp: readTierModeInTx_def split: option.splits)
  then show ?thesis using c by blast
qed

section \<open>A warm cache answers as a cold one\<close>

definition seedKnown :: "world \<Rightarrow> string \<Rightarrow> bool" where
  "seedKnown w tier \<longleftrightarrow> find (\<lambda>s. seed_tierId s = tier) (luckySeeds w) \<noteq> None"

definition latestIndex :: "world \<Rightarrow> (string \<times> tier_meta) list" where
  "latestIndex w = fst (indexLatest (configsInOrder w) [] Map.empty)"

definition rowsKnown :: "world \<Rightarrow> (nat \<rightharpoonup> ImmutableTierConfig) \<Rightarrow> bool" where
  "rowsKnown w byId \<longleftrightarrow> (\<forall>i c. byId i = Some c \<longrightarrow> (\<exists>row\<in>set (luckyConfigs w). lc_id row = i \<and> c = rowToImmutable row))"

text \<open>What the caches hold agrees with the tables, however old it is.\<close>

definition cacheCoherent :: "world \<Rightarrow> lucky_cache \<Rightarrow> bool" where
  "cacheCoherent w cache \<longleftrightarrow> rowsKnown w (immutableConfigById cache)
     \<and> (\<forall>t byTier. latestConfigMeta cache = Some (t, byTier) \<longrightarrow> byTier = latestIndex w)
     \<and> (\<forall>tier t e. seedCache cache tier = Some (t, e) \<longrightarrow> e = seedKnown w tier)"

lemma coherent_bust [simp]: "cacheCoherent w bustLuckyTierConfigCache"
  by (simp add: cacheCoherent_def rowsKnown_def bustLuckyTierConfigCache_def)

lemma indexLatest_byTier: "fst (indexLatest rows byTier byId) = fst (indexLatest rows byTier byId')"
proof (induction rows arbitrary: byTier byId byId')
  case (Cons row rows)
  show ?case unfolding indexLatest.simps using Cons by (simp only: split: if_split) blast
qed simp

lemma indexLatest_rows:
  assumes "set rows \<subseteq> set (luckyConfigs w)" "rowsKnown w byId"
    and "\<forall>m\<in>set (map snd byTier). \<exists>row\<in>set (luckyConfigs w). m = metaOf row"
  shows "rowsKnown w (snd (indexLatest rows byTier byId))
    \<and> (\<forall>m\<in>set (map snd (fst (indexLatest rows byTier byId))). \<exists>row\<in>set (luckyConfigs w). m = metaOf row)"
  using assms
proof (induction rows arbitrary: byTier byId)
  case (Cons row rows)
  let ?byId = "byId(lc_id row \<mapsto> rowToImmutable row)" and ?byTier = "byTier @ [(lc_tierId row, metaOf row)]"
  have row: "row \<in> set (luckyConfigs w)" "set rows \<subseteq> set (luckyConfigs w)" using Cons.prems(1) by simp_all
  have known: "rowsKnown w ?byId" using row(1) Cons.prems(2) by (auto simp: rowsKnown_def)
  have "\<forall>m\<in>set (map snd ?byTier). \<exists>row\<in>set (luckyConfigs w). m = metaOf row" using row(1) Cons.prems(3) by auto
  from Cons.IH [OF row(2) known this] Cons.IH [OF row(2) Cons.prems(2,3)] show ?case
    unfolding indexLatest.simps by (simp only: split: if_split) blast
qed simp

lemma configsInOrder_set [simp]: "set (configsInOrder w) = set (luckyConfigs w)"
  by (simp add: configsInOrder_def)

lemma latestIndex_rows: "m \<in> set (map snd (latestIndex w)) \<Longrightarrow> \<exists>row\<in>set (luckyConfigs w). m = metaOf row"
  using indexLatest_rows [of "configsInOrder w" w Map.empty "[]"] by (auto simp: latestIndex_def rowsKnown_def)

lemma refresh_coherent:
  assumes "cacheCoherent w cache"
  shows "fst (refreshLatestConfigIndex w cache) = latestIndex w" "cacheCoherent w (snd (refreshLatestConfigIndex w cache))"
proof -
  have i: "fst (indexLatest (configsInOrder w) [] byId) = latestIndex w" for byId
    unfolding latestIndex_def by (rule indexLatest_byTier)
  have k: "rowsKnown w (snd (indexLatest (configsInOrder w) [] (immutableConfigById cache)))"
    using indexLatest_rows [of "configsInOrder w" w "immutableConfigById cache" "[]"] assms by (simp add: cacheCoherent_def)
  show "fst (refreshLatestConfigIndex w cache) = latestIndex w" "cacheCoherent w (snd (refreshLatestConfigIndex w cache))"
    using assms i k by (auto simp: refreshLatestConfigIndex_def Let_def cacheCoherent_def split_def split: option.splits)
qed

lemma findConfigForPrice_row: "findConfigForPrice w price = Some row \<Longrightarrow> row \<in> set (luckyConfigs w)"
proof -
  let ?rows = "sort_key (\<lambda>r. - lc_version r) (filter (\<lambda>r. inRange (lc_priceMin r) (lc_priceMax r) price) (luckyConfigs w))"
  assume "findConfigForPrice w price = Some row"
  then have "row \<in> set ?rows" unfolding findConfigForPrice_def by (cases ?rows) auto
  then show ?thesis by simp
qed

lemma coherent_learn:
  "cacheCoherent w cache \<Longrightarrow> row \<in> set (luckyConfigs w) \<Longrightarrow>
     cacheCoherent w (cache\<lparr>immutableConfigById := (immutableConfigById cache)(lc_id row \<mapsto> rowToImmutable row)\<rparr>)"
  by (auto simp: cacheCoherent_def rowsKnown_def)

lemma chooseMeta_coherent:
  assumes co: "cacheCoherent w cache"
  shows "map_option fst (chooseMeta w (latestIndex w) price cache) = map_option fst (chooseMeta w (latestIndex w) price cache')"
    "chooseMeta w (latestIndex w) price cache = Some (m, cache2) \<Longrightarrow>
       cacheCoherent w cache2 \<and> (\<exists>row\<in>set (luckyConfigs w). m = metaOf row)"
proof -
  show "map_option fst (chooseMeta w (latestIndex w) price cache) = map_option fst (chooseMeta w (latestIndex w) price cache')"
    by (simp add: chooseMeta_def split: option.split)
  have "pickTierMetaForPrice (latestIndex w) price = Some m \<Longrightarrow> \<exists>row\<in>set (luckyConfigs w). m = metaOf row" for m
    unfolding pickTierMetaForPrice_def by (rule latestIndex_rows) (use find_Some_mem in fastforce)
  then show "chooseMeta w (latestIndex w) price cache = Some (m, cache2) \<Longrightarrow>
       cacheCoherent w cache2 \<and> (\<exists>row\<in>set (luckyConfigs w). m = metaOf row)"
    using co coherent_learn findConfigForPrice_row by (auto simp: chooseMeta_def split: option.splits)
qed

lemma loadImmutable_coherent:
  assumes co: "cacheCoherent w cache" and row: "row \<in> set (luckyConfigs w)" and ids: "distinct (map lc_id (luckyConfigs w))"
  shows "\<exists>cache'. loadImmutable w (lc_id row) cache = Some (rowToImmutable row, cache') \<and> cacheCoherent w cache'"
proof -
  have uniq: "r = row" if "r \<in> set (luckyConfigs w)" "lc_id r = lc_id row" for r
    using ids row that by (metis distinct_map inj_onD)
  show ?thesis
  proof (cases "immutableConfigById cache (lc_id row)")
    case (Some c)
    then obtain r where "r \<in> set (luckyConfigs w)" "lc_id r = lc_id row" "c = rowToImmutable r"
      using co by (auto simp: cacheCoherent_def rowsKnown_def)
    then show ?thesis using co uniq Some by (auto simp: loadImmutable_def)
  next
    case None
    have "find (\<lambda>r. lc_id r = lc_id row) (luckyConfigs w) \<noteq> None" using row by (auto simp: find_None_iff)
    then obtain r where r: "find (\<lambda>r. lc_id r = lc_id row) (luckyConfigs w) = Some r" by auto
    then have "r = row" using uniq find_Some_mem by fastforce
    then show ?thesis using None r coherent_learn [OF co row] by (auto simp: loadImmutable_def)
  qed
qed

lemma resolveTierConfig_coherent:
  assumes co: "cacheCoherent w cache" and co': "cacheCoherent w cache'" and ids: "distinct (map lc_id (luckyConfigs w))"
  shows "fst (resolveTierConfig w price cache) = fst (resolveTierConfig w price cache')"
    "cacheCoherent w (snd (resolveTierConfig w price cache))"
proof -
  have run: "resolveTierConfig w price c = (let c1 = snd (refreshLatestConfigIndex w c) in
      case chooseMeta w (latestIndex w) price c1 of None \<Rightarrow> (None, c1)
      | Some (m, c2) \<Rightarrow> (case loadImmutable w (tm_id m) c2 of None \<Rightarrow> (None, c2)
          | Some (i, c3) \<Rightarrow> (Some \<lparr> rc_immutable = i, rc_mode = readTierModeInTx w (cfg_tierId i) \<rparr>, c3)))"
    if "cacheCoherent w c" for c
    using refresh_coherent(1) [OF that] by (simp add: resolveTierConfig_def Let_def split_def)
  let ?a = "snd (refreshLatestConfigIndex w cache)" and ?b = "snd (refreshLatestConfigIndex w cache')"
  note ca = refresh_coherent(2) [OF co] and cb = refresh_coherent(2) [OF co']
  have "fst (resolveTierConfig w price cache) = fst (resolveTierConfig w price cache') \<and> cacheCoherent w (snd (resolveTierConfig w price cache))"
  proof (cases "chooseMeta w (latestIndex w) price ?a")
    case None
    then have "chooseMeta w (latestIndex w) price ?b = None" using chooseMeta_coherent(1) [OF ca, of price ?b] by simp
    then show ?thesis using None ca by (simp add: run [OF co] run [OF co'] Let_def)
  next
    case (Some x)
    obtain m a2 where x: "x = (m, a2)" by fastforce
    obtain b2 where b: "chooseMeta w (latestIndex w) price ?b = Some (m, b2)"
      using chooseMeta_coherent(1) [OF ca, of price ?b] Some x by (auto dest: sym)
    obtain row where row: "row \<in> set (luckyConfigs w)" "m = metaOf row" and a2: "cacheCoherent w a2"
      using chooseMeta_coherent(2) [OF ca] Some x by blast
    have b2: "cacheCoherent w b2" using chooseMeta_coherent(2) [OF cb b] by blast
    obtain a3 b3 where "loadImmutable w (lc_id row) a2 = Some (rowToImmutable row, a3)" "cacheCoherent w a3"
      "loadImmutable w (lc_id row) b2 = Some (rowToImmutable row, b3)"
      using loadImmutable_coherent [OF a2 row(1) ids] loadImmutable_coherent [OF b2 row(1) ids] by blast
    then show ?thesis using Some x b row(2) by (simp add: run [OF co] run [OF co'] Let_def metaOf_def)
  qed
  then show "fst (resolveTierConfig w price cache) = fst (resolveTierConfig w price cache')"
    "cacheCoherent w (snd (resolveTierConfig w price cache))" by simp_all
qed

lemma tierHasSeed_coherent:
  "cacheCoherent w cache \<Longrightarrow> fst (tierHasSeed w tier cache) = seedKnown w tier \<and> cacheCoherent w (snd (tierHasSeed w tier cache))"
  by (auto simp: tierHasSeed_def Let_def cacheCoherent_def seedKnown_def split: option.splits)

lemma resolveEngine_coherent:
  assumes co: "cacheCoherent w cache" and ids: "distinct (map lc_id (luckyConfigs w))"
  shows "fst (resolveEngine w price b cache) = fst (resolveEngine w price b bustLuckyTierConfigCache)
     \<and> cacheCoherent w (snd (resolveEngine w price b cache))"
proof -
  note r = resolveTierConfig_coherent [OF co coherent_bust ids, of price]
    and rb = resolveTierConfig_coherent(2) [OF coherent_bust coherent_bust ids, of price]
  obtain c1 where a: "resolveTierConfig w price cache = (fst (resolveTierConfig w price cache), c1)" "cacheCoherent w c1"
    using r(2) by (metis prod.collapse)
  obtain c2 where bb: "resolveTierConfig w price bustLuckyTierConfigCache = (fst (resolveTierConfig w price cache), c2)" "cacheCoherent w c2"
    using r(1) rb by (metis prod.collapse)
  show ?thesis
    using tierHasSeed_coherent [OF a(2)] tierHasSeed_coherent [OF bb(2)] a bb co
    by (auto simp: resolveEngine_def Let_def split_def split: option.split)
qed


text \<open>A tier for the price 100 in two versions, in force, with a seed decision.\<close>

definition sampleTierRow :: lucky_config_row where
  "sampleTierRow =
     \<lparr> lc_id = 31, lc_tierId = ''T100'', lc_version = 2, lc_mode = ''off'', lc_priceMin = 2, lc_priceMax = Some 100,
       lc_rBp = 9200, lc_jBp = 0, lc_l0 = 100000, lc_floor = 20000, lc_criticalMaxBp = 3000, lc_lowMaxBp = 7000,
       lc_normalMaxBp = 13000, lc_bandWeights = DEFAULT_BAND_WEIGHTS_V1, lc_weightTableId = ''v1'', lc_mMax = 10,
       lc_vMaxBp = 10000, lc_safetyMarginBp = 100, lc_minGapBp = 100, lc_dailyWinCapCoins = 5000, lc_coolDownSeconds = 60 \<rparr>"

definition sampleTierWorld :: world where
  "sampleTierWorld = emptyWorld\<lparr>
     luckyConfigs := [sampleTierRow\<lparr>lc_id := 30, lc_version := 1, lc_rBp := 9000\<rparr>, sampleTierRow],
     luckyModes := [''T100'' \<mapsto> ''enforce''],
     luckySeeds := [\<lparr> seed_id = 40, seed_tierId = ''T100'', seed_amount = 100000, seed_adminId = 3, seed_reason = None,
                      seed_choice = ''seed'' \<rparr>],
     luckyPools := [''T100'' \<mapsto> (100000, 2)]\<rparr>"

lemma sampleTier_resolution:
  "fst (resolveEngine sampleTierWorld 100 True bustLuckyTierConfigCache)
     = \<lparr> er_engine = WaterV1, er_config = Some \<lparr> rc_immutable = rowToImmutable sampleTierRow, rc_mode = ''enforce'' \<rparr>,
         er_seedExists = True \<rparr>"
  by (simp add: resolveEngine_def resolveTierConfig_def refreshLatestConfigIndex_def chooseMeta_def loadImmutable_def
      tierHasSeed_def configsInOrder_def pickTierMetaForPrice_def inRange_def metaOf_def readTierModeInTx_def
      bustLuckyTierConfigCache_def sampleTierWorld_def emptyWorld_def sampleTierRow_def rowToImmutable_def Let_def)


end
