(* ===== verification/LuckySend.thy ===== *)
theory LuckySend
  imports InternalLedger LuckyTier
begin

text \<open>
  Lucky gifts (\<open>luckyGiftSend\<close> of \<open>src/src/services/internalLedger.service.ts\<close>). The legacy engine pays the
  reward the live server drew, bounded by a multiple of the price; the pool engine \<open>water_v1\<close> draws on
  the server against the pool of the price's tier. The reward, the host's share, the gift row and the
  record of the draw are written in the transaction that takes the price.

  The rolls of Node's \<open>crypto.randomInt\<close>, the slot of the reserve counters that \<open>Math.random\<close> picks and
  the hash function behind the payload fingerprint are arguments.
\<close>

section \<open>Input, result, keys\<close>

record lucky_input =
  lg_requestId :: string
  lg_senderId :: uid
  lg_receiverId :: "uid option"
  lg_giftId :: string
  lg_count :: int
  lg_giftTransactionId :: string
  lg_txKeyBase :: string
  lg_rewardCoins :: int
  lg_category :: string
  lg_supportsServerDraw :: bool

record lucky_result =
  lr_transactionId :: string
  lr_totalCost :: int
  lr_hostPoints :: int
  lr_rewardCoins :: int
  lr_finalBalanceCoins :: int
  lr_pointsAfterHost :: "int option"
  lr_effectiveReceiverId :: uid
  lr_wealth :: LevelApplyResult
  lr_agencyUserId :: "uid option"
  lr_replayed :: bool
  lr_engine :: lucky_engine
  lr_category :: string
  lr_tierId :: "string option"
  lr_configVersion :: "int option"
  lr_breakdownArray :: "int list option"

record lucky_settled =
  ls_finalBalanceCoins :: int
  ls_pointsAfterHost :: "int option"
  ls_agencyUserId :: "uid option"
  ls_rewardCoins :: int
  ls_category :: string
  ls_tierId :: "string option"
  ls_configVersion :: "int option"
  ls_breakdownArray :: "int list option"

definition luckyReceiver :: "lucky_input \<Rightarrow> uid" where
  "luckyReceiver inp = (case lg_receiverId inp of None \<Rightarrow> lg_senderId inp | Some r \<Rightarrow> r)"

definition isCombo :: "lucky_input \<Rightarrow> bool" where
  "isCombo inp \<longleftrightarrow> 1 < lg_count inp"

definition luckyContext :: "lucky_input \<Rightarrow> string" where
  "luckyContext inp = (if isCombo inp then ''LUCKY_COMBO'' else ''LUCKY_SINGLE'')"

definition debitKey :: "lucky_input \<Rightarrow> string" where
  "debitKey inp = lg_txKeyBase inp @ ''-debit''"

definition hostKey :: "lucky_input \<Rightarrow> string" where
  "hostKey inp = lg_txKeyBase inp @ ''-host-cut''"

definition rewardKey :: "lucky_input \<Rightarrow> string" where
  "rewardKey inp = lg_txKeyBase inp @ ''-reward''"

text \<open>\<open>txKeyBase.split(':').length >= 3\<close>\<close>

definition hasClientTxId :: "lucky_input \<Rightarrow> bool" where
  "hasClientTxId inp \<longleftrightarrow> 2 \<le> length (filter (\<lambda>c. c = CHR '':'') (lg_txKeyBase inp))"

fun categoryText :: "LuckyCategory \<Rightarrow> string" where
  "categoryText MISS = ''MISS''"
| "categoryText SMALL = ''SMALL''"
| "categoryText EQUAL = ''EQUAL''"
| "categoryText MEDIUM = ''MEDIUM''"
| "categoryText JACKPOT = ''JACKPOT''"
| "categoryText UNLUCKY = ''UNLUCKY''"
| "categoryText NORMAL = ''NORMAL''"
| "categoryText BREAK_EVEN = ''BREAK_EVEN''"
| "categoryText WINNER = ''WINNER''"

section \<open>The payload fingerprint\<close>

text \<open>\<open>JSON.stringify\<close> of a string: quotes, backslashes and control characters are escaped.\<close>

definition hexDigit :: "nat \<Rightarrow> char" where
  "hexDigit d = ''0123456789abcdef'' ! d"

definition jsonEscape :: "char \<Rightarrow> string" where
  "jsonEscape c =
     (let n = of_char c in
      if n = 34 then [CHR 92, CHR 34]
      else if n = 92 then [CHR 92, CHR 92]
      else if n = 8 then [CHR 92, CHR ''b'']
      else if n = 9 then [CHR 92, CHR ''t'']
      else if n = 10 then [CHR 92, CHR ''n'']
      else if n = 12 then [CHR 92, CHR ''f'']
      else if n = 13 then [CHR 92, CHR ''r'']
      else if n < (32::nat) then CHR 92 # ''u00'' @ [hexDigit (n div 16), hexDigit (n mod 16)]
      else [c])"

definition jsonString :: "string \<Rightarrow> string" where
  "jsonString s = CHR 34 # concat (map jsonEscape s) @ [CHR 34]"

definition payloadCanonical :: "lucky_input \<Rightarrow> string" where
  "payloadCanonical inp =
     CHR ''{'' # jsonString ''senderId'' @ '':'' @ jsonString (show_nat (lg_senderId inp)) @ '',''
       @ jsonString ''giftId'' @ '':'' @ jsonString (lg_giftId inp) @ '',''
       @ jsonString ''count'' @ '':'' @ show_int (lg_count inp) @ '',''
       @ jsonString ''receiverId'' @ '':''
       @ (case lg_receiverId inp of None \<Rightarrow> ''null'' | Some r \<Rightarrow> jsonString (show_nat r)) @ ''}''"

definition payloadFingerprint :: "(string \<Rightarrow> string) \<Rightarrow> lucky_input \<Rightarrow> string" where
  "payloadFingerprint sha256 inp = sha256 (payloadCanonical inp)"

section \<open>Replay\<close>

definition findAudit :: "world \<Rightarrow> string \<Rightarrow> lucky_audit_row option" where
  "findAudit w key = find (\<lambda>a. la_key a = key) (luckyAudits w)"

text \<open>The identity of a repeated send of the pool engine: the payload under a client's key, else the request id.\<close>

definition luckyReplayGuard ::
  "(string \<Rightarrow> string) \<Rightarrow> lucky_input \<Rightarrow> lucky_audit_row \<Rightarrow> world \<Rightarrow> error + unit" where
  "luckyReplayGuard sha256 inp audit w =
     (if hasClientTxId inp then
        if la_sender audit \<noteq> None \<and> la_sender audit \<noteq> Some (lg_senderId inp) then Inl duplicate
        else if la_fingerprint audit \<noteq> None \<and> la_fingerprint audit \<noteq> Some []
                \<and> la_fingerprint audit \<noteq> Some (payloadFingerprint sha256 inp) then
          Inl (AppError 409 ''LUCKY_REPLAY_MISMATCH'' [])
        else Inr ()
      else
        (case findByIdempotencyKey (coinLedger w) (debitKey inp) of
           None \<Rightarrow> Inl duplicate
         | Some row \<Rightarrow> require (metaRequestId (metadata row) = Some (lg_requestId inp)) duplicate))"

definition waterReplay :: "lucky_input \<Rightarrow> int \<Rightarrow> int \<Rightarrow> lucky_audit_row \<Rightarrow> world \<Rightarrow> lucky_result" where
  "waterReplay inp totalCost hostPoints audit w =
     \<lparr> lr_transactionId = (case la_giftTransactionId audit of None \<Rightarrow> lg_giftTransactionId inp | Some t \<Rightarrow> t),
       lr_totalCost = totalCost, lr_hostPoints = hostPoints, lr_rewardCoins = la_paidReward audit,
       lr_finalBalanceCoins = (case la_senderBalanceAfter audit of None \<Rightarrow> 0 | Some b \<Rightarrow> b),
       lr_pointsAfterHost = pointBalanceAfterKey (hostKey inp) w,
       lr_effectiveReceiverId = luckyReceiver inp, lr_wealth = currentLevelOf (lg_senderId inp) WEALTH w,
       lr_agencyUserId = None, lr_replayed = True, lr_engine = WaterV1,
       lr_category = categoryText (la_category audit), lr_tierId = la_tierId audit,
       lr_configVersion = la_configVersion audit, lr_breakdownArray = Some (la_breakdown audit) \<rparr>"

definition legacyReplay ::
  "lucky_input \<Rightarrow> int \<Rightarrow> int \<Rightarrow> world \<Rightarrow> CoinTxType ledger_entry \<Rightarrow> lucky_result" where
  "legacyReplay inp totalCost hostPoints w debitRow =
     (let rewardRow = findByIdempotencyKey (coinLedger w) (rewardKey inp) in
      \<lparr> lr_transactionId = lg_giftTransactionId inp, lr_totalCost = totalCost, lr_hostPoints = hostPoints,
        lr_rewardCoins = (case rewardRow of None \<Rightarrow> 0 | Some r \<Rightarrow> amount r),
        lr_finalBalanceCoins = (case rewardRow of None \<Rightarrow> balanceAfter debitRow | Some r \<Rightarrow> balanceAfter r),
        lr_pointsAfterHost = pointBalanceAfterKey (hostKey inp) w,
        lr_effectiveReceiverId = luckyReceiver inp, lr_wealth = currentLevelOf (lg_senderId inp) WEALTH w,
        lr_agencyUserId = None, lr_replayed = True, lr_engine = Legacy, lr_category = lg_category inp,
        lr_tierId = None, lr_configVersion = None, lr_breakdownArray = None \<rparr>)"

definition luckyReplay ::
  "(string \<Rightarrow> string) \<Rightarrow> lucky_input \<Rightarrow> int \<Rightarrow> int \<Rightarrow> world \<Rightarrow> error + lucky_result \<times> world" where
  "luckyReplay sha256 inp totalCost hostPoints w =
     (case findAudit w (lg_txKeyBase inp) of
        Some audit \<Rightarrow>
          if la_engine audit = ''water_v1'' then
            andThen (luckyReplayGuard sha256 inp audit w) (\<lambda>_. Inr (waterReplay inp totalCost hostPoints audit w, w))
          else replayOrDuplicate (debitKey inp) (lg_requestId inp) (legacyReplay inp totalCost hostPoints w) w
      | None \<Rightarrow> replayOrDuplicate (debitKey inp) (lg_requestId inp) (legacyReplay inp totalCost hostPoints w) w)"

section \<open>Rows\<close>

definition luckyDebitEntry :: "lucky_input \<Rightarrow> gift_row \<Rightarrow> wid \<Rightarrow> int \<Rightarrow> int \<Rightarrow> CoinTxType ledger_entry" where
  "luckyDebitEntry inp g i cost bal =
     (newEntry i DEBIT C_GIFT_SEND cost bal (debitKey inp))
       \<lparr>refId := Some (lg_giftTransactionId inp), counterpartyId := Some (luckyReceiver inp),
        description := Some (''Lucky Gift Sent: '' @ gift_name g @ '' x'' @ show_int (lg_count inp)),
        metadata := Some (JObj [(''giftId'', JStr (gift_id g)),
          (''giftTransactionId'', JStr (lg_giftTransactionId inp)), (''context'', JStr (luckyContext inp)),
          (''quantity'', JNum (lg_count inp)), (''requestId'', JStr (lg_requestId inp))])\<rparr>"

definition luckyRewardEntry :: "lucky_input \<Rightarrow> gift_row \<Rightarrow> wid \<Rightarrow> string \<Rightarrow> int \<Rightarrow> int \<Rightarrow> CoinTxType ledger_entry" where
  "luckyRewardEntry inp g i category reward bal =
     (newEntry i CREDIT C_PLATFORM_REWARD reward bal (rewardKey inp))
       \<lparr>refId := Some (lg_giftTransactionId inp),
        description := Some (''Lucky Winner: '' @ gift_name g @ '' ('' @ category @ '')'')\<rparr>"

definition luckyHostEntry :: "lucky_input \<Rightarrow> gift_row \<Rightarrow> wid \<Rightarrow> int \<Rightarrow> int \<Rightarrow> PointTxType ledger_entry" where
  "luckyHostEntry inp g i points bal =
     (newEntry i CREDIT P_LIVESTREAM_GIFT points bal (hostKey inp))
       \<lparr>refId := Some (lg_giftTransactionId inp), counterpartyId := Some (lg_senderId inp),
        description := Some (''Received Lucky Gift: '' @ gift_name g),
        metadata := Some (JObj [(''giftId'', JStr (gift_id g)), (''giftName'', JStr (gift_name g)),
          (''context'', JStr (luckyContext inp)), (''quantity'', JNum (lg_count inp)),
          (''unitCoinCost'', JNum (gift_coinCost g)),
          (''giftTransactionId'', JStr (lg_giftTransactionId inp))])\<rparr>"

definition luckyGiftRow :: "lucky_input \<Rightarrow> gift_row \<Rightarrow> int \<Rightarrow> int \<Rightarrow> world \<Rightarrow> gift_tx_row" where
  "luckyGiftRow inp g cost points w =
     \<lparr> gt_id = lg_giftTransactionId inp, gt_sender = lg_senderId inp, gt_receiver = luckyReceiver inp,
       gt_giftId = gift_id g, gt_coinCost = cost, gt_quantity = lg_count inp, gt_pointsAwarded = points,
       gt_context = luckyContext inp, gt_createdAt = clock w \<rparr>"

section \<open>Payout\<close>

text \<open>The host's share with its settlement; no row when the share rounds to zero.\<close>

definition luckyHost ::
  "lucky_input \<Rightarrow> gift_row \<Rightarrow> wid \<Rightarrow> int \<Rightarrow> bool \<Rightarrow> world \<Rightarrow> error + (int option \<times> uid option) \<times> world" where
  "luckyHost inp g hostId hostPoints withCommission w =
     (let pointsAfterHost = latestPointBalance w hostId + hostPoints in
      andThen (hostRow (luckyHostEntry inp g hostId hostPoints pointsAfterHost) w) (\<lambda>(row, w1).
      andThen (hostSettle (luckyReceiver inp) hostPoints P_LIVESTREAM_GIFT withCommission row w1) (\<lambda>(agency, w2).
      Inr ((if 0 < hostPoints then Some pointsAfterHost else None, agency), w2))))"

definition luckyReward ::
  "lucky_input \<Rightarrow> gift_row \<Rightarrow> wid \<Rightarrow> string \<Rightarrow> int \<Rightarrow> int \<Rightarrow> world \<Rightarrow> error + int \<times> world" where
  "luckyReward inp g i category coinsAfterDebit reward w =
     (if 0 < reward then
        andThen (coinInsert (luckyRewardEntry inp g i category reward (coinsAfterDebit + reward)) w) (\<lambda>(_, w1).
        Inr (coinsAfterDebit + reward, w1))
      else Inr (coinsAfterDebit, w))"

definition utcDayStart :: "int \<Rightarrow> int" where
  "utcDayStart t = utcDayFromTimestamp t * 86400000"

definition readWaterUserCaps :: "uid \<Rightarrow> int \<Rightarrow> int \<Rightarrow> world \<Rightarrow> int \<times> bool" where
  "readWaterUserCaps sender dailyWinCap coolDownSeconds w =
     (if 0 < dailyWinCap then
        sum_list (map la_paidReward (filter (\<lambda>a. la_sender a = Some sender \<and> la_engine a = ''water_v1''
          \<and> utcDayStart (clock w) \<le> la_createdAt a) (luckyAudits w)))
      else 0,
      0 < coolDownSeconds \<and>
        find (\<lambda>a. la_sender a = Some sender \<and> la_engine a = ''water_v1''
          \<and> clock w - coolDownSeconds * 1000 \<le> la_createdAt a \<and> dj_bigWin (la_drawn a)) (luckyAudits w) \<noteq> None)"

text \<open>\<open>INSERT ... ON CONFLICT DO NOTHING\<close> and \<open>SELECT ... FOR UPDATE\<close>.\<close>

definition lockPool :: "ImmutableTierConfig \<Rightarrow> world \<Rightarrow> int \<times> world" where
  "lockPool c w =
     (case luckyPools w (cfg_tierId c) of
        Some (b, v) \<Rightarrow> (b, w\<lparr>locks := locks w @ [PoolLock (cfg_tierId c)]\<rparr>)
      | None \<Rightarrow> (0, w\<lparr>luckyPools := (luckyPools w)(cfg_tierId c \<mapsto> (0, cfg_version c)),
                     locks := locks w @ [PoolLock (cfg_tierId c)]\<rparr>))"

definition waterParams ::
  "(nat \<Rightarrow> int) \<Rightarrow> ImmutableTierConfig \<Rightarrow> int \<Rightarrow> int \<Rightarrow> int \<Rightarrow> int \<times> bool \<Rightarrow> DrawUnitsParams" where
  "waterParams rolls c price count water caps =
     \<lparr> unitPrice = price, dcount = count, weights = cfg_bandWeights c, thresholds = cfg_thresholds c,
       l0 = cfg_l0 c, pfloor = cfg_floor c, mMax = cfg_mMax c, startingWater = water,
       dailyWinCapCoins = cfg_dailyWinCapCoins c, priorDailyWon = fst caps, coolDownActive = snd caps,
       randomInt = rolls \<rparr>"

definition updatePool :: "ImmutableTierConfig \<Rightarrow> DrawUnitsResult \<Rightarrow> world \<Rightarrow> error + unit \<times> world" where
  "updatePool c draw w =
     (if luckyPools w (cfg_tierId c) \<noteq> None \<and> (totalPaid draw = 0 \<or> cfg_floor c \<le> finalWater draw)
      then Inr ((), w\<lparr>luckyPools := (luckyPools w)(cfg_tierId c \<mapsto> (finalWater draw, cfg_version c))\<rparr>)
      else Inl (AppError 500 ''LUCKY_POOL_FLOOR'' [(''tierId'', JStr (cfg_tierId c))]))"

definition auditCreate :: "lucky_audit_row \<Rightarrow> world \<Rightarrow> error + unit \<times> world" where
  "auditCreate a w =
     (if findAudit w (la_key a) \<noteq> None then Inl UniqueViolation
      else Inr ((), w\<lparr>luckyAudits := luckyAudits w @ [a]\<rparr>))"

definition drawnRecord :: "ImmutableTierConfig \<Rightarrow> int \<Rightarrow> int \<Rightarrow> DrawUnitsResult \<Rightarrow> drawn_json" where
  "drawnRecord c before inflow draw =
     \<lparr> dj_weightTableId = cfg_weightTableId c, dj_wBefore = before, dj_inflow = inflow,
       dj_wFinal = finalWater draw, dj_l0 = cfg_l0 c, dj_floor = cfg_floor c, dj_rBp = cfg_rBp c,
       dj_bigWin = bigWin draw, dj_units = units draw \<rparr>"

definition luckyAudit ::
  "(string \<Rightarrow> string) \<Rightarrow> lucky_input \<Rightarrow> ImmutableTierConfig \<Rightarrow> drawn_json \<Rightarrow> int list \<Rightarrow> LuckyCategory \<Rightarrow> int \<Rightarrow> int
     \<Rightarrow> world \<Rightarrow> lucky_audit_row" where
  "luckyAudit sha256 inp c drawn breakdown category reward finalBalance w =
     \<lparr> la_key = lg_txKeyBase inp, la_fingerprint = Some (payloadFingerprint sha256 inp), la_engine = ''water_v1'',
       la_mode = ''enforce'', la_tierId = Some (cfg_tierId c), la_sender = Some (lg_senderId inp),
       la_giftTransactionId = Some (lg_giftTransactionId inp), la_drawn = drawn, la_breakdown = breakdown,
       la_category = category, la_paidReward = reward, la_senderBalanceAfter = Some finalBalance,
       la_configVersion = Some (cfg_version c), la_createdAt = clock w \<rparr>"

definition waterPayout ::
  "(string \<Rightarrow> string) \<Rightarrow> (nat \<Rightarrow> int) \<Rightarrow> lucky_input \<Rightarrow> gift_row \<Rightarrow> ImmutableTierConfig \<Rightarrow> int \<Rightarrow> int \<Rightarrow> bool \<Rightarrow> wid \<Rightarrow> wid
     \<Rightarrow> int \<Rightarrow> world \<Rightarrow> error + lucky_settled \<times> world" where
  "waterPayout sha256 rolls inp g c totalCost hostPoints withCommission payerId hostId coinsAfterDebit w =
     andThen (luckyHost inp g hostId hostPoints withCommission w) (\<lambda>((pointsAfterHost, agency), w1).
     andThen (giftTransactionCreate (luckyGiftRow inp g totalCost hostPoints w1) w1) (\<lambda>(_, w2).
     let caps = readWaterUserCaps (lg_senderId inp) (cfg_dailyWinCapCoins c) (cfg_coolDownSeconds c) w2;
         (poolBalance, w3) = lockPool c w2;
         inflow = bdiv (totalCost * cfg_rBp c) 10000;
         draw = drawUnits (waterParams rolls c (gift_coinCost g) (lg_count inp) (poolBalance + inflow) caps);
         reward = totalPaid draw;
         category = resolveCategory (lg_count inp) (gift_coinCost g) reward;
         breakdown = collapseBreakdown (rewards draw) 10 in
     andThen (updatePool c draw w3) (\<lambda>(_, w4).
     andThen (luckyReward inp g payerId (categoryText category) coinsAfterDebit reward w4) (\<lambda>(finalBalance, w5).
     let w6 = bumpVersion payerId w5 in
     andThen (auditCreate (luckyAudit sha256 inp c (drawnRecord c poolBalance inflow draw) breakdown category reward
        finalBalance w6) w6) (\<lambda>(_, w7).
     Inr (\<lparr> ls_finalBalanceCoins = finalBalance, ls_pointsAfterHost = pointsAfterHost, ls_agencyUserId = agency,
            ls_rewardCoins = reward, ls_category = categoryText category, ls_tierId = Some (cfg_tierId c),
            ls_configVersion = Some (cfg_version c), ls_breakdownArray = Some breakdown \<rparr>, w7))))))"

definition addToLuckyReservePool :: "nat \<Rightarrow> int \<Rightarrow> int \<Rightarrow> int \<Rightarrow> world \<Rightarrow> world" where
  "addToLuckyReservePool slot cost reward targetRtpBp w =
     (let inflow = of_int (cost * targetRtpBp) / 10000 - of_int reward;
          (spent, rewarded, balance) = (case reservePool w slot of None \<Rightarrow> (0, 0, 0) | Some r \<Rightarrow> r)
      in w\<lparr>reservePool := (reservePool w)(slot \<mapsto> (spent + cost, rewarded + reward, balance + inflow))\<rparr>)"

definition legacyPayout ::
  "nat \<Rightarrow> lucky_input \<Rightarrow> gift_row \<Rightarrow> int \<Rightarrow> int \<Rightarrow> bool \<Rightarrow> wid \<Rightarrow> wid \<Rightarrow> int \<Rightarrow> int \<Rightarrow> world
     \<Rightarrow> error + lucky_settled \<times> world" where
  "legacyPayout slot inp g totalCost hostPoints withCommission payerId hostId coinsAfterDebit targetRtpBp w =
     (let reward = lg_rewardCoins inp in
      andThen (luckyReward inp g payerId (lg_category inp) coinsAfterDebit reward w) (\<lambda>(finalBalance, w1).
      andThen (luckyHost inp g hostId hostPoints withCommission (bumpVersion payerId w1)) (\<lambda>((pointsAfterHost, agency), w2).
      andThen (giftTransactionCreate (luckyGiftRow inp g totalCost hostPoints w2) w2) (\<lambda>(_, w3).
      Inr (\<lparr> ls_finalBalanceCoins = finalBalance, ls_pointsAfterHost = pointsAfterHost, ls_agencyUserId = agency,
             ls_rewardCoins = reward, ls_category = lg_category inp, ls_tierId = None, ls_configVersion = None,
             ls_breakdownArray = None \<rparr>, addToLuckyReservePool slot totalCost reward targetRtpBp w3)))))"

section \<open>The transaction and the call\<close>

definition LUCKY_MAX_REWARD_MULTIPLE :: "bool \<Rightarrow> int" where
  "LUCKY_MAX_REWARD_MULTIPLE combo = (if combo then 2 else 10)"

text \<open>The configuration the pool engine runs with; none for the legacy engine.\<close>

definition waterConfig :: "EngineResolution \<Rightarrow> ImmutableTierConfig option" where
  "waterConfig res = (if er_engine res = WaterV1 then map_option rc_immutable (er_config res) else None)"

definition luckyGuards :: "lucky_input \<Rightarrow> gift_row \<Rightarrow> int \<Rightarrow> ImmutableTierConfig option \<Rightarrow> error + unit" where
  "luckyGuards inp g totalCost config =
     (case config of
        Some c \<Rightarrow>
          require (\<not> gift_coinCost g * cfg_rBp c < 10000)
            (AppError 400 ''LUCKY_PRICE_TOO_LOW'' [(''unitPrice'', JBig (gift_coinCost g)), (''rBp'', JNum (cfg_rBp c))])
      | None \<Rightarrow>
          (let maxReward = totalCost * LUCKY_MAX_REWARD_MULTIPLE (isCombo inp) in
           require (\<not> (lg_rewardCoins inp < 0 \<or> maxReward < lg_rewardCoins inp))
             (AppError 400 ''INVALID_LUCKY_REWARD''
               [(''rewardCoins'', JBig (lg_rewardCoins inp)), (''max'', JBig maxReward)])))"

definition luckyCommission :: "lucky_input \<Rightarrow> int \<Rightarrow> lucky_engine \<Rightarrow> world \<Rightarrow> bool" where
  "luckyCommission inp hostPoints engine w \<longleftrightarrow>
     (if engine = WaterV1 then luckyWaterAgencyCommission (shares w) else isCombo inp) \<and> 0 < hostPoints"

definition luckyGiftTx ::
  "(string \<Rightarrow> string) \<Rightarrow> (nat \<Rightarrow> int) \<Rightarrow> nat \<Rightarrow> lucky_input \<Rightarrow> gift_row \<Rightarrow> EngineResolution \<Rightarrow> int \<Rightarrow> int \<Rightarrow> world
     \<Rightarrow> error + (lucky_settled \<times> LevelApplyResult) \<times> world" where
  "luckyGiftTx sha256 rolls slot inp g res totalCost hostPoints w =
     (let withCommission = luckyCommission inp hostPoints (er_engine res) w in
      andThen (lockForOperation (lg_senderId inp) (Some (luckyReceiver inp)) withCommission w) (\<lambda>((payerCoin, hostPoint), w1).
      andThen (luckyGuards inp g totalCost (waterConfig res)) (\<lambda>_.
      let payerId = wallet_id payerCoin;
          hostId = wallet_id (the hostPoint);
          coins = latestCoinBalance w1 payerId in
      andThen (require (\<not> coins < totalCost) (insufficientCoins totalCost coins)) (\<lambda>_.
      let coinsAfterDebit = coins - totalCost in
      andThen (coinInsert (luckyDebitEntry inp g payerId totalCost coinsAfterDebit) w1) (\<lambda>(_, w2).
      andThen (applyLevel (lg_senderId inp) WEALTH totalCost w2) (\<lambda>(wealth, w3).
      andThen (case waterConfig res of
                 Some c \<Rightarrow> waterPayout sha256 rolls inp g c totalCost hostPoints withCommission payerId hostId coinsAfterDebit w3
               | None \<Rightarrow> legacyPayout slot inp g totalCost hostPoints withCommission payerId hostId coinsAfterDebit
                           (luckyTargetRtpBp (shares w)) w3) (\<lambda>(settled, w4).
      Inr ((settled, wealth), w4))))))))"

definition luckyCommit ::
  "(string \<Rightarrow> string) \<Rightarrow> (nat \<Rightarrow> int) \<Rightarrow> nat \<Rightarrow> lucky_input \<Rightarrow> gift_row \<Rightarrow> EngineResolution \<Rightarrow> int \<Rightarrow> int \<Rightarrow> world
     \<Rightarrow> error + lucky_result \<times> world" where
  "luckyCommit sha256 rolls slot inp g res totalCost hostPoints w =
     (case luckyGiftTx sha256 rolls slot inp g res totalCost hostPoints w of
        Inl err \<Rightarrow> if err \<noteq> UniqueViolation then Inl err else luckyReplay sha256 inp totalCost hostPoints w
      | Inr ((settled, wealth), w1) \<Rightarrow>
          Inr (\<lparr> lr_transactionId = lg_giftTransactionId inp, lr_totalCost = totalCost, lr_hostPoints = hostPoints,
                 lr_rewardCoins = ls_rewardCoins settled, lr_finalBalanceCoins = ls_finalBalanceCoins settled,
                 lr_pointsAfterHost = ls_pointsAfterHost settled, lr_effectiveReceiverId = luckyReceiver inp,
                 lr_wealth = wealth, lr_agencyUserId = ls_agencyUserId settled, lr_replayed = False,
                 lr_engine = er_engine res, lr_category = ls_category settled, lr_tierId = ls_tierId settled,
                 lr_configVersion = ls_configVersion settled, lr_breakdownArray = ls_breakdownArray settled \<rparr>,
               afterCommit (Some (lg_senderId inp, ls_finalBalanceCoins settled))
                 (map_option (\<lambda>b. (luckyReceiver inp, b)) (ls_pointsAfterHost settled)) (Some (lg_senderId inp))
                 (if 0 < hostPoints then Some (luckyReceiver inp) else None) (ls_agencyUserId settled) w1))"

definition luckyCost :: "lucky_input \<Rightarrow> gift_row \<Rightarrow> int" where
  "luckyCost inp g = gift_coinCost g * lg_count inp"

definition luckyHostPoints :: "int \<Rightarrow> world \<Rightarrow> int" where
  "luckyHostPoints totalCost w = bdiv (totalCost * luckyHostShareBp (shares w)) 10000"

definition luckyGiftSend ::
  "(string \<Rightarrow> string) \<Rightarrow> (nat \<Rightarrow> int) \<Rightarrow> nat \<Rightarrow> lucky_input \<Rightarrow> lucky_cache \<Rightarrow> world
     \<Rightarrow> (error + lucky_result \<times> world) \<times> lucky_cache" where
  "luckyGiftSend sha256 rolls slot inp cache w =
     (case loadSendableGift (lg_giftId inp) True w of
        Inl err \<Rightarrow> (Inl err, cache)
      | Inr g \<Rightarrow>
          (let totalCost = luckyCost inp g;
               hostPoints = luckyHostPoints totalCost w in
           case findByIdempotencyKey (coinLedger w) (debitKey inp) of
             Some _ \<Rightarrow> (luckyReplay sha256 inp totalCost hostPoints w, cache)
           | None \<Rightarrow>
               (let (res, cache1) = resolveEngine w (gift_coinCost g) (lg_supportsServerDraw inp) cache
                in (luckyCommit sha256 rolls slot inp g res totalCost hostPoints w, cache1))))"

section \<open>Wallets stay\<close>

definition walletsKept :: "world \<Rightarrow> world \<Rightarrow> bool" where
  "walletsKept w w' \<longleftrightarrow> (\<forall>i u c. hasWallet w i u c \<longrightarrow> hasWallet w' i u c)"

lemma walletsKept_same: "wallets w' = wallets w \<Longrightarrow> walletsKept w w'"
  using hasWallet_same [of w' w] by (simp add: walletsKept_def)

lemma walletsKept_trans: "walletsKept a b \<Longrightarrow> walletsKept b c \<Longrightarrow> walletsKept a c"
  by (simp add: walletsKept_def)

lemma walletsKept_bump: "walletsKept w (bumpVersion i w)"
  by (simp add: walletsKept_def)

lemma walletsKept_getOrCreate: "getOrCreate u c w = (wl, w1) \<Longrightarrow> walletsKept w w1"
  unfolding walletsKept_def using hasWallet_mono by blast

lemma creditAgentCommission_wallets:
  assumes run: "creditAgentCommission u amt opts w = Inr (r, w')"
  shows "walletsKept w w'"
proof (cases "findByIdempotencyKey (pointLedger w) (p_idempotencyKey opts)")
  case (Some e)
  then have "w' = w" using run by (simp add: creditAgentCommission_def creditWith_def andThen_Inr_iff)
  then show ?thesis by (simp add: walletsKept_same)
next
  case None
  obtain wl w1 where g: "getOrCreate u POINT w = (wl, w1)" by fastforce
  obtain e w3 where ins: "pointInsert (pointEntry (wallet_id wl) CREDIT P_AGENT_COMMISSION amt
        (latestPointBalance (snd (lockForUpdate (wallet_id wl) w1)) (wallet_id wl) + amt) opts)
        (snd (lockForUpdate (wallet_id wl) w1)) = Inr (e, w3)"
    and w': "w' = enqueuePlatformLedgerMessage ''point'' (entry_id e)
        (let v = enqueuePlatformLedgerMessage ''point'' (entry_id e) (bumpVersion (wallet_id wl) w3)
         in onHostPointCredit u amt P_AGENT_COMMISSION (utcDayFromTimestamp (clock v)) v)"
    using run None
    by (auto simp: creditAgentCommission_def creditWith_def g Let_def andThen_Inr_iff commissionStep_def livestreamStep_def)
  have "wallets w3 = wallets w1" using ins by (simp add: pointInsert_Inr lockForUpdate_def)
  moreover have "wallets w' = wallets (bumpVersion (wallet_id wl) w3)"
    unfolding w' Let_def by (simp add: enqueuePlatformLedgerMessage_def rankFrame_keeps(1) [OF onHostPointCredit_frame])
  ultimately show ?thesis
    using walletsKept_getOrCreate [OF g] walletsKept_same walletsKept_bump walletsKept_trans by metis
qed

lemma applyCommission_wallets:
  assumes run: "applyCommission host i pts tt day w = Inr (ag, w')"
  shows "walletsKept w w'"
proof -
  let ?w3 = "\<lambda>a c v. onAgencyEarnings a pts day (upsertDailyEarning a host day pts c v)"
  have same: "wallets (?w3 a c v) = wallets v" for a c v
    by (simp add: rankFrame_keeps(1) [OF onAgencyEarnings_frame] upsertDailyEarning_def Let_def split: prod.split)
  have mark: "wallets v = wallets w" if "createProcessed i w = Some v" for v
    using that by (auto simp: createProcessed_def split: if_splits)
  have cases: "w' = w \<or> (\<exists>v. createProcessed i w = Some v \<and> (w' = v \<or> (\<exists>a c. w' = ?w3 a c v)
      \<or> (\<exists>a c opts r. creditAgentCommission a c opts (?w3 a c v) = Inr (r, w'))))"
    using run unfolding applyCommission_def Let_def
    by (auto simp: andThen_Inr_iff split: option.splits if_splits prod.splits)
  have "walletsKept w w'" if v: "createProcessed i w = Some v" and cr: "creditAgentCommission a c opts (?w3 a c v) = Inr (r, w')"
    for v a c opts r
    using creditAgentCommission_wallets [OF cr] walletsKept_trans [OF walletsKept_same] same mark [OF v] by metis
  then show ?thesis using cases same mark walletsKept_same by metis
qed

lemma hostSettle_wallets:
  assumes run: "hostSettle host pts tt com row w = Inr (ag, w')"
  shows "walletsKept w w'"
proof (cases row)
  case None
  then show ?thesis using run by (simp add: hostSettle_def walletsKept_same)
next
  case (Some i)
  obtain r w1 w2 where l: "applyLevel host LIVESTREAM pts w = Inr (r, w1)"
    and c: "(if com then applyCommission host i pts tt (utcDayFromTimestamp (clock w1)) w1 else Inr (None, w1)) = Inr (ag, w2)"
    and w': "w' = onHostPointCredit host pts tt (utcDayFromTimestamp (clock w1)) w2"
    using run by (auto simp: Some hostSettle_def settleHostCredit_def Let_def andThen_Inr_iff)
  have "walletsKept w1 w2" using c applyCommission_wallets walletsKept_same by (auto split: if_splits)
  moreover have "wallets w1 = wallets w" by (rule applyLevel_effect(3) [OF l])
  moreover have "wallets w' = wallets w2" unfolding w' by (rule rankFrame_keeps(1) [OF onHostPointCredit_frame])
  ultimately show ?thesis using walletsKept_trans walletsKept_same by metis
qed

section \<open>The parts of a payout\<close>

text \<open>What a lucky gift leaves alone beside its own tables.\<close>

definition luckyFrame :: "world \<Rightarrow> world \<Rightarrow> bool" where
  "luckyFrame w w' \<longleftrightarrow> coreFrame w (w'\<lparr>giftTransactions := giftTransactions w, luckyPools := luckyPools w,
     luckyAudits := luckyAudits w, reservePool := reservePool w\<rparr>)"

lemma luckyFrame_trans: "luckyFrame a b \<Longrightarrow> luckyFrame b c \<Longrightarrow> luckyFrame a c"
  by (simp add: luckyFrame_def coreFrame_def postFrame_def)

lemma core_luckyFrame: "coreFrame w w' \<Longrightarrow> luckyFrame w w'"
  by (simp add: luckyFrame_def coreFrame_def postFrame_def)

lemma luckyFrame_keeps:
  assumes "luckyFrame w w'"
  shows "users w' = users w" "agencies w' = agencies w" "commissionLevels w' = commissionLevels w"
    "clock w' = clock w" "redisUp w' = redisUp w" "shares w' = shares w" "gifts w' = gifts w"
    "sessions w' = sessions w" "nextId w \<le> nextId w'"
  using assms by (simp_all add: luckyFrame_def coreFrame_def postFrame_def)

lemma luckyFrame_admin: "luckyFrame w w' \<Longrightarrow> adminTables w w'"
  by (simp add: luckyFrame_def coreFrame_def postFrame_def adminTables_def)

definition luckyTables :: "world \<Rightarrow> world \<Rightarrow> bool" where
  "luckyTables w w' \<longleftrightarrow> giftTransactions w' = giftTransactions w \<and> luckyPools w' = luckyPools w
     \<and> luckyAudits w' = luckyAudits w \<and> clock w' = clock w"

lemma core_luckyTables: "coreFrame w w' \<Longrightarrow> luckyTables w w'"
  by (simp add: luckyTables_def coreFrame_keeps)

lemma luckyEntry_fields [simp]:
  "walletId (luckyDebitEntry inp g i cost bal) = i" "direction (luckyDebitEntry inp g i cost bal) = DEBIT"
  "amount (luckyDebitEntry inp g i cost bal) = cost" "balanceAfter (luckyDebitEntry inp g i cost bal) = bal"
  "idempotencyKey (luckyDebitEntry inp g i cost bal) = debitKey inp" "txType (luckyDebitEntry inp g i cost bal) = C_GIFT_SEND"
  "metadata (luckyDebitEntry inp g i cost bal) = Some (JObj [(''giftId'', JStr (gift_id g)),
          (''giftTransactionId'', JStr (lg_giftTransactionId inp)), (''context'', JStr (luckyContext inp)),
          (''quantity'', JNum (lg_count inp)), (''requestId'', JStr (lg_requestId inp))])"
  "walletId (luckyRewardEntry inp g i cat rew bal) = i" "direction (luckyRewardEntry inp g i cat rew bal) = CREDIT"
  "amount (luckyRewardEntry inp g i cat rew bal) = rew" "balanceAfter (luckyRewardEntry inp g i cat rew bal) = bal"
  "idempotencyKey (luckyRewardEntry inp g i cat rew bal) = rewardKey inp" "txType (luckyRewardEntry inp g i cat rew bal) = C_PLATFORM_REWARD"
  "walletId (luckyHostEntry inp g i pts bal) = i" "direction (luckyHostEntry inp g i pts bal) = CREDIT"
  "amount (luckyHostEntry inp g i pts bal) = pts" "balanceAfter (luckyHostEntry inp g i pts bal) = bal"
  "idempotencyKey (luckyHostEntry inp g i pts bal) = hostKey inp" "txType (luckyHostEntry inp g i pts bal) = P_LIVESTREAM_GIFT"
  by (simp_all add: luckyDebitEntry_def luckyRewardEntry_def luckyHostEntry_def newEntry_def)

definition luckyDue :: "lucky_input \<Rightarrow> int \<Rightarrow> bool \<Rightarrow> world \<Rightarrow> (uid \<times> int) option" where
  "luckyDue inp pts com w = (if com then commissionDue (luckyReceiver inp) pts P_LIVESTREAM_GIFT w else None)"

lemma luckyHost_effect:
  assumes run: "luckyHost inp g hid pts com w = Inr ((pa, ag), w')" and pts: "0 \<le> pts"
    and wal: "hasWallet w hid (luckyReceiver inp) POINT" and inv: "commissionInv w" and key: "\<not> isCommissionKey (hostKey inp)"
  shows "moved w w' (\<lambda>a. moving (luckyReceiver inp, POINT) pts a + dueMove (luckyDue inp pts com w) a)"
    "commissionInv w'" "coreFrame w w'" "coinLedger w' = coinLedger w" "walletsKept w w'"
    "pa = (if 0 < pts then Some (latestPointBalance w hid + pts) else None)"
    "0 < pts \<Longrightarrow> pointBalanceAfterKey (hostKey inp) w' = pa"
proof -
  let ?d = "luckyHostEntry inp g hid pts (latestPointBalance w hid + pts)"
  show pa: "pa = (if 0 < pts then Some (latestPointBalance w hid + pts) else None)"
    using run by (auto simp: luckyHost_def Let_def andThen_Inr_iff)
  have "moved w w' (\<lambda>a. moving (luckyReceiver inp, POINT) pts a + dueMove (luckyDue inp pts com w) a)
    \<and> commissionInv w' \<and> coreFrame w w' \<and> coinLedger w' = coinLedger w \<and> walletsKept w w'
    \<and> (0 < pts \<longrightarrow> pointBalanceAfterKey (hostKey inp) w' = pa)"
  proof (cases "0 < pts")
    case False
    then have "w' = w" "pts = 0" using run pts by (auto simp: luckyHost_def Let_def andThen_Inr_iff hostRow_def hostSettle_def)
    then show ?thesis using inv by (simp add: luckyDue_def dueMove_def walletsKept_same)
  next
    case True
    obtain e wa where ins: "pointInsert ?d w = Inr (e, wa)"
      and st: "hostSettle (luckyReceiver inp) (amount ?d) P_LIVESTREAM_GIFT com (Some (entry_id e)) (bumpVersion hid wa) = Inr (ag, w')"
      using run True by (auto simp: luckyHost_def Let_def andThen_Inr_iff hostRow_def)
    have pf: "postFrame w (bumpVersion hid wa)" using postFrame_trans [OF postFrame_insert(1) [OF ins] postFrame_steps(2)] .
    note h = hostLeg_effect [OF ins _ _ _ _ _ moved_refl _ _ _ commissionDue_postFrame [OF pf] st inv]
    have e: "findByIdempotencyKey (pointLedger w) (hostKey inp) = None" "idempotencyKey e = hostKey inp"
      "balanceAfter e = latestPointBalance w hid + pts" using ins by (auto simp: pointInsert_Inr)
    have cp: "commissionProcessed (bumpVersion hid wa) = commissionProcessed wa" by (simp add: bumpVersion_def)
    obtain es where es: "pointLedger w' = pointLedger w @ e # es" using h(5) wal key cp by auto
    have "pointBalanceAfterKey (hostKey inp) w' = pa"
      using e True by (simp add: pointBalanceAfterKey_def es findByIdempotencyKey_def find_append pa)
    moreover have "walletsKept w w'"
      using walletsKept_trans [OF walletsKept_trans [OF walletsKept_same walletsKept_bump] hostSettle_wallets [OF st]] ins
      by (auto simp: pointInsert_Inr)
    moreover have "moved w w' (\<lambda>a. moving (luckyReceiver inp, POINT) pts a + dueMove (luckyDue inp pts com w) a)"
      using h(1) [unfolded luckyEntry_fields] wal key cp unfolding luckyDue_def by simp
    moreover have "commissionInv w'" "coreFrame (bumpVersion hid wa) w'" "coinLedger w' = coinLedger w"
      using h(2-4) wal key cp ins by (simp_all add: pointInsert_Inr)
    moreover have "coreFrame w w'" using coreFrame_trans [OF postFrame_core [OF pf] calculation(5)] .
    ultimately show ?thesis by simp
  qed
  then show "moved w w' (\<lambda>a. moving (luckyReceiver inp, POINT) pts a + dueMove (luckyDue inp pts com w) a)"
    "commissionInv w'" "coreFrame w w'" "coinLedger w' = coinLedger w" "walletsKept w w'"
    "0 < pts \<Longrightarrow> pointBalanceAfterKey (hostKey inp) w' = pa" by simp_all
qed

lemma luckyReward_effect:
  assumes run: "luckyReward inp g i cat after rew w = Inr (fin, w')" and rew: "0 \<le> rew"
    and wal: "hasWallet w i u COIN" and bal: "after = latestCoinBalance w i"
  shows "moved w w' (moving (u, COIN) rew)" "postFrame w w'" "pointLedger w' = pointLedger w" "wallets w' = wallets w"
    "fin = after + rew" "commissionProcessed w' = commissionProcessed w"
    "\<exists>rs. coinLedger w' = coinLedger w @ rs \<and> (\<forall>r\<in>set rs. txType r = C_PLATFORM_REWARD \<and> idempotencyKey r = rewardKey inp)"
proof -
  define d where "d = luckyRewardEntry inp g i cat rew (after + rew)"
  have d: "walletId d = i" "balanceAfter d = after + rew" "coinDelta d = rew" "idempotencyKey d = rewardKey inp" "txType d = C_PLATFORM_REWARD"
    by (simp_all add: d_def coinDelta_def)
  have "moved w w' (moving (u, COIN) rew) \<and> postFrame w w' \<and> pointLedger w' = pointLedger w \<and> wallets w' = wallets w
    \<and> fin = after + rew \<and> commissionProcessed w' = commissionProcessed w
    \<and> (\<exists>rs. coinLedger w' = coinLedger w @ rs \<and> (\<forall>r\<in>set rs. txType r = C_PLATFORM_REWARD \<and> idempotencyKey r = rewardKey inp))"
  proof (cases "0 < rew")
    case False
    then have "rew = 0" "w' = w" "fin = after" using run rew by (simp_all add: luckyReward_def)
    then show ?thesis by simp
  next
    case True
    then obtain e where ins: "coinInsert d w = Inr (e, w')" and fin: "fin = after + rew"
      using run unfolding luckyReward_def d_def [symmetric] by (auto simp: andThen_Inr_iff)
    have "moved w w' (moving (u, COIN) rew)"
      using coin_post [OF ins, of u COIN] wal bal d rew by simp
    moreover have e: "e = d\<lparr>entry_id := nextId w, createdAt := clock w\<rparr>"
      and w': "w' = w\<lparr>coinLedger := coinLedger w @ [e], nextId := Suc (nextId w)\<rparr>"
      using ins by (simp_all add: coinInsert_Inr)
    moreover have "txType e = C_PLATFORM_REWARD \<and> idempotencyKey e = rewardKey inp" using d e by simp
    ultimately show ?thesis using postFrame_insert(2) [OF ins] fin unfolding w' by simp
  qed
  then show "moved w w' (moving (u, COIN) rew)" "postFrame w w'" "pointLedger w' = pointLedger w" "wallets w' = wallets w"
    "fin = after + rew" "commissionProcessed w' = commissionProcessed w"
    "\<exists>rs. coinLedger w' = coinLedger w @ rs \<and> (\<forall>r\<in>set rs. txType r = C_PLATFORM_REWARD \<and> idempotencyKey r = rewardKey inp)"
    by simp_all
qed

end
