(* ===== verification/LuckyPayout.thy ===== *)
theory LuckyPayout
  imports LuckySend
begin

text \<open>
  What the transaction of a lucky gift does: the payout of the two engines, the whole transaction,
  and the ways it can fail. A draw is a function of the world at the start of the transaction: the
  balance of the tier's pool and the sender's earlier wins.
\<close>

section \<open>The draw\<close>

definition poolOf :: "world \<Rightarrow> string \<Rightarrow> int" where
  "poolOf w tier = (case luckyPools w tier of None \<Rightarrow> 0 | Some (b, _) \<Rightarrow> b)"

definition poolInflow :: "ImmutableTierConfig \<Rightarrow> int \<Rightarrow> int" where
  "poolInflow c totalCost = bdiv (totalCost * cfg_rBp c) 10000"

definition poolParams ::
  "(nat \<Rightarrow> int) \<Rightarrow> lucky_input \<Rightarrow> gift_row \<Rightarrow> ImmutableTierConfig \<Rightarrow> int \<Rightarrow> world \<Rightarrow> DrawUnitsParams" where
  "poolParams rolls inp g c totalCost w =
     waterParams rolls c (gift_coinCost g) (lg_count inp) (poolOf w (cfg_tierId c) + poolInflow c totalCost)
       (readWaterUserCaps (lg_senderId inp) (cfg_dailyWinCapCoins c) (cfg_coolDownSeconds c) w)"

definition poolDraw ::
  "(nat \<Rightarrow> int) \<Rightarrow> lucky_input \<Rightarrow> gift_row \<Rightarrow> ImmutableTierConfig \<Rightarrow> int \<Rightarrow> world \<Rightarrow> DrawUnitsResult" where
  "poolDraw rolls inp g c totalCost w = drawUnits (poolParams rolls inp g c totalCost w)"

lemma poolParams_cong:
  assumes "luckyPools w' = luckyPools w" "luckyAudits w' = luckyAudits w" "clock w' = clock w"
  shows "poolParams rolls inp g c cost w' = poolParams rolls inp g c cost w"
  by (simp only: poolParams_def poolOf_def readWaterUserCaps_def assms)

lemma poolDraw_facts:
  assumes "0 \<le> gift_coinCost g" "0 \<le> cfg_mMax c"
  shows "finalWater (poolDraw rolls inp g c cost w) + totalPaid (poolDraw rolls inp g c cost w)
      = poolOf w (cfg_tierId c) + poolInflow c cost"
    "0 \<le> totalPaid (poolDraw rolls inp g c cost w)"
    "0 < totalPaid (poolDraw rolls inp g c cost w) \<Longrightarrow> cfg_floor c \<le> finalWater (poolDraw rolls inp g c cost w)"
proof -
  let ?p = "poolParams rolls inp g c cost w"
  have p: "0 \<le> unitPrice ?p" "0 \<le> mMax ?p" "startingWater ?p = poolOf w (cfg_tierId c) + poolInflow c cost" "pfloor ?p = cfg_floor c"
    using assms by (simp_all add: poolParams_def waterParams_def)
  note f = drawUnits_facts [OF p(1,2)]
  show "finalWater (poolDraw rolls inp g c cost w) + totalPaid (poolDraw rolls inp g c cost w)
      = poolOf w (cfg_tierId c) + poolInflow c cost"
    using f p(3) by (simp add: poolDraw_def)
  show "0 \<le> totalPaid (poolDraw rolls inp g c cost w)"
    using drawInv_total_nonneg [OF drawUnits_inv [OF p(1,2)]] by (simp add: drawUnits_sel poolDraw_def)
  show "0 < totalPaid (poolDraw rolls inp g c cost w) \<Longrightarrow> cfg_floor c \<le> finalWater (poolDraw rolls inp g c cost w)"
    using f p(4) by (simp add: poolDraw_def)
qed

text \<open>The pool is locked late and written once; the floor check of the update cannot fail.\<close>

lemma lockPool_effect:
  assumes "lockPool c w = (b, w')"
  shows "b = poolOf w (cfg_tierId c)" "luckyPools w' (cfg_tierId c) \<noteq> None"
    "(luckyPools w')(cfg_tierId c \<mapsto> x) = (luckyPools w)(cfg_tierId c \<mapsto> x)"
    "\<exists>ps ls. w' = w\<lparr>luckyPools := ps, locks := ls\<rparr>"
proof -
  show "b = poolOf w (cfg_tierId c)" "luckyPools w' (cfg_tierId c) \<noteq> None"
    "(luckyPools w')(cfg_tierId c \<mapsto> x) = (luckyPools w)(cfg_tierId c \<mapsto> x)"
    using assms by (auto simp: lockPool_def poolOf_def split: option.splits)
  have same: "\<exists>ps ls'. w\<lparr>locks := ls\<rparr> = w\<lparr>luckyPools := ps, locks := ls'\<rparr>" for ls
    by (intro exI [of _ "luckyPools w"] exI [of _ ls]) simp
  show "\<exists>ps ls. w' = w\<lparr>luckyPools := ps, locks := ls\<rparr>"
    using assms same unfolding lockPool_def by (auto simp only: prod.inject split: option.splits prod.splits)
qed

lemma updatePool_ok:
  assumes "0 \<le> gift_coinCost g" "0 \<le> cfg_mMax c" "luckyPools v (cfg_tierId c) \<noteq> None"
  shows "updatePool c (poolDraw rolls inp g c cost w) v
    = Inr ((), v\<lparr>luckyPools := (luckyPools v)(cfg_tierId c \<mapsto> (finalWater (poolDraw rolls inp g c cost w), cfg_version c))\<rparr>)"
  using poolDraw_facts(2,3) [OF assms(1,2), of rolls inp cost w] assms(3)
  by (cases "totalPaid (poolDraw rolls inp g c cost w) = 0") (simp_all add: updatePool_def)

text \<open>The pool step as one update of the world.\<close>

definition poolWritten :: "ImmutableTierConfig \<Rightarrow> DrawUnitsResult \<Rightarrow> world \<Rightarrow> world \<Rightarrow> bool" where
  "poolWritten c draw w w' \<longleftrightarrow>
     (\<exists>ls. w' = w\<lparr>locks := ls, luckyPools := (luckyPools w)(cfg_tierId c \<mapsto> (finalWater draw, cfg_version c))\<rparr>)"

lemma pool_step:
  assumes "0 \<le> gift_coinCost g" "0 \<le> cfg_mMax c" and lk: "lockPool c w = (b, w1)"
  shows "\<exists>w2. updatePool c (poolDraw rolls inp g c cost w) w1 = Inr ((), w2)
     \<and> poolWritten c (poolDraw rolls inp g c cost w) w w2"
proof -
  note l = lockPool_effect [OF lk]
  obtain ps ls where w1: "w1 = w\<lparr>luckyPools := ps, locks := ls\<rparr>" using l(4) by blast
  show ?thesis
    using updatePool_ok [OF assms(1,2) l(2), of rolls inp cost w] l(3) [of "(finalWater (poolDraw rolls inp g c cost w), cfg_version c)"]
    by (auto simp: poolWritten_def w1)
qed

section \<open>The payout of the pool engine\<close>

definition luckyMove :: "lucky_input \<Rightarrow> int \<Rightarrow> int \<Rightarrow> bool \<Rightarrow> world \<Rightarrow> uid \<times> WalletCurrencyType \<Rightarrow> int" where
  "luckyMove inp pts rew com w a = moving (luckyReceiver inp, POINT) pts a + dueMove (luckyDue inp pts com w) a
     + moving (lg_senderId inp, COIN) rew a"

lemma waterPayout_effect:
  assumes run: "waterPayout sha rolls inp g c cost pts com pid hid after w = Inr (st, w')"
    and price: "0 \<le> gift_coinCost g" "0 \<le> cfg_mMax c" and pts: "0 \<le> pts"
    and wal: "hasWallet w hid (luckyReceiver inp) POINT" "hasWallet w pid (lg_senderId inp) COIN"
    and bal: "after = latestCoinBalance w pid" and inv: "commissionInv w" and key: "\<not> isCommissionKey (hostKey inp)"
    and d: "d = poolDraw rolls inp g c cost w"
  shows "moved w w' (luckyMove inp pts (totalPaid d) com w)" "commissionInv w'" "luckyFrame w w'"
    "luckyPools w' = (luckyPools w)(cfg_tierId c \<mapsto> (finalWater d, cfg_version c))"
    "giftTransactions w' = giftTransactions w @ [luckyGiftRow inp g cost pts w]"
    "luckyAudits w' = luckyAudits w @ [luckyAudit sha inp c (drawnRecord c (poolOf w (cfg_tierId c)) (poolInflow c cost) d)
       (collapseBreakdown (rewards d) 10) (resolveCategory (lg_count inp) (gift_coinCost g) (totalPaid d)) (totalPaid d)
       (after + totalPaid d) w]"
    "\<exists>rs. coinLedger w' = coinLedger w @ rs \<and> (\<forall>r\<in>set rs. txType r = C_PLATFORM_REWARD \<and> idempotencyKey r = rewardKey inp)"
    "ls_rewardCoins st = totalPaid d" "ls_finalBalanceCoins st = after + totalPaid d"
    "ls_category st = categoryText (resolveCategory (lg_count inp) (gift_coinCost g) (totalPaid d))"
    "ls_tierId st = Some (cfg_tierId c)" "ls_configVersion st = Some (cfg_version c)"
    "ls_breakdownArray st = Some (collapseBreakdown (rewards d) 10)"
    "ls_pointsAfterHost st = (if 0 < pts then Some (latestPointBalance w hid + pts) else None)"
    "0 < pts \<Longrightarrow> pointBalanceAfterKey (hostKey inp) w' = ls_pointsAfterHost st"
    "findAudit w (lg_txKeyBase inp) = None"
proof -
  obtain pa ag w1 where h: "luckyHost inp g hid pts com w = Inr ((pa, ag), w1)"
    using run unfolding waterPayout_def by (auto simp: andThen_Inr_iff)
  note he = luckyHost_effect [OF h pts wal(1) inv key]
  define w2 where "w2 = w1\<lparr>giftTransactions := giftTransactions w1 @ [luckyGiftRow inp g cost pts w1]\<rparr>"
  have gt: "giftTransactionCreate (luckyGiftRow inp g cost pts w1) w1 = Inr ((), w2)"
    using run h unfolding waterPayout_def
    by (auto simp: andThen_Inr_iff giftTransactionCreate_def w2_def split: if_splits)
  obtain b w3 where lk: "lockPool c w2 = (b, w3)" by fastforce
  have same: "luckyPools w2 = luckyPools w" "luckyAudits w2 = luckyAudits w" "clock w2 = clock w"
    using coreFrame_keeps [OF he(3)] by (simp_all add: w2_def)
  have d2: "d = poolDraw rolls inp g c cost w2" unfolding d poolDraw_def by (simp only: poolParams_cong [OF same])
  have b: "b = poolOf w (cfg_tierId c)" using lockPool_effect(1) [OF lk] same(1) by (simp add: poolOf_def)
  have draw: "drawUnits (waterParams rolls c (gift_coinCost g) (lg_count inp) (b + poolInflow c cost)
      (readWaterUserCaps (lg_senderId inp) (cfg_dailyWinCapCoins c) (cfg_coolDownSeconds c) w2)) = d"
    unfolding d2 poolDraw_def poolParams_def lockPool_effect(1) [OF lk] ..
  obtain w4 where up: "updatePool c d w3 = Inr ((), w4)" and pw: "poolWritten c d w2 w4"
    using pool_step [OF price lk, of rolls inp cost] d2 by blast
  let ?cat = "resolveCategory (lg_count inp) (gift_coinCost g) (totalPaid d)"
  obtain fin w5 w7 where rw: "luckyReward inp g pid (categoryText ?cat) after (totalPaid d) w4 = Inr (fin, w5)"
    and au: "auditCreate (luckyAudit sha inp c (drawnRecord c b (poolInflow c cost) d) (collapseBreakdown (rewards d) 10) ?cat
        (totalPaid d) fin (bumpVersion pid w5)) (bumpVersion pid w5) = Inr ((), w7)" and w': "w' = w7"
    and st: "st = \<lparr> ls_finalBalanceCoins = fin, ls_pointsAfterHost = pa, ls_agencyUserId = ag,
            ls_rewardCoins = totalPaid d, ls_category = categoryText ?cat, ls_tierId = Some (cfg_tierId c),
            ls_configVersion = Some (cfg_version c), ls_breakdownArray = Some (collapseBreakdown (rewards d) 10) \<rparr>"
    using run unfolding waterPayout_def h andThen_simps split_conv gt Let_def lk poolInflow_def [symmetric] draw up
    by (auto simp: andThen_Inr_iff)
  obtain ls where w4: "w4 = w2\<lparr>locks := ls, luckyPools := (luckyPools w2)(cfg_tierId c \<mapsto> (finalWater d, cfg_version c))\<rparr>"
    using pw by (auto simp: poolWritten_def)
  have m14: "moved w1 w4 still" by (rule moved_frame) (simp_all add: w4 w2_def)
  have l4: "coinLedger w4 = coinLedger w" "wallets w4 = wallets w1" "pointLedger w4 = pointLedger w1"
    using he(4) by (simp_all add: w4 w2_def)
  have wal4: "hasWallet w4 pid (lg_senderId inp) COIN"
    using he(5) wal(2) hasWallet_same [OF l4(2)] by (simp add: walletsKept_def)
  have bal4: "after = latestCoinBalance w4 pid" using bal l4(1) by (simp add: latestCoinBalance_def)
  have nn: "0 \<le> totalPaid d" unfolding d by (rule poolDraw_facts(2) [OF price])
  note re = luckyReward_effect [OF rw nn wal4 bal4]
  have w7: "w' = (bumpVersion pid w5)\<lparr>luckyAudits := luckyAudits (bumpVersion pid w5)
        @ [luckyAudit sha inp c (drawnRecord c b (poolInflow c cost) d) (collapseBreakdown (rewards d) 10) ?cat
        (totalPaid d) fin (bumpVersion pid w5)]\<rparr>"
    and fresh: "findAudit (bumpVersion pid w5) (lg_txKeyBase inp) = None"
    using au by (auto simp: w' auditCreate_def luckyAudit_def split: if_splits)
  have m57: "moved w5 w' still"
  proof -
    have "moved (bumpVersion pid w5) w' still" by (rule moved_frame) (simp_all add: w7)
    then show ?thesis by (rule moved_still [OF bumpVersion_moved])
  qed
  show "moved w w' (luckyMove inp pts (totalPaid d) com w)"
    using moved_trans [OF moved_still [OF he(1) m14] moved_still [OF re(1) m57]] unfolding luckyMove_def by simp
  have f5: "postFrame w4 (bumpVersion pid w5)" using postFrame_trans [OF re(2) postFrame_steps(2)] .
  have k5: "luckyPools (bumpVersion pid w5) = luckyPools w4" "giftTransactions (bumpVersion pid w5) = giftTransactions w4"
    "luckyAudits (bumpVersion pid w5) = luckyAudits w4" "clock (bumpVersion pid w5) = clock w4"
    using f5 by (simp_all add: postFrame_def)
  have c1: "clock w1 = clock w" "giftTransactions w1 = giftTransactions w" using coreFrame_keeps [OF he(3)] by simp_all
  show "luckyPools w' = (luckyPools w)(cfg_tierId c \<mapsto> (finalWater d, cfg_version c))"
    by (simp add: w7 k5(1) w4 same(1))
  show "giftTransactions w' = giftTransactions w @ [luckyGiftRow inp g cost pts w]"
    by (simp add: w7 k5(2) w4 w2_def c1 luckyGiftRow_def)
  show fin: "ls_finalBalanceCoins st = after + totalPaid d" using re(5) st by simp
  have fin': "fin = after + totalPaid d" by (rule re(5))
  have "luckyAudit sha inp c dr br ct rwd fb (bumpVersion pid w5) = luckyAudit sha inp c dr br ct rwd fb w" for dr br ct rwd fb
    using re(2) by (simp add: luckyAudit_def postFrame_def w4 w2_def c1(1))
  then show "luckyAudits w' = luckyAudits w @ [luckyAudit sha inp c (drawnRecord c (poolOf w (cfg_tierId c)) (poolInflow c cost) d)
       (collapseBreakdown (rewards d) 10) ?cat (totalPaid d) (after + totalPaid d) w]"
    unfolding w7 by (simp add: k5(3) w4 same(2) b fin')
  show "\<exists>rs. coinLedger w' = coinLedger w @ rs \<and> (\<forall>r\<in>set rs. txType r = C_PLATFORM_REWARD \<and> idempotencyKey r = rewardKey inp)"
    using re(7) l4(1) unfolding w7 by (simp add: bumpVersion_def)
  show "ls_rewardCoins st = totalPaid d" "ls_category st = categoryText ?cat"
    "ls_tierId st = Some (cfg_tierId c)" "ls_configVersion st = Some (cfg_version c)"
    "ls_breakdownArray st = Some (collapseBreakdown (rewards d) 10)"
    "ls_pointsAfterHost st = (if 0 < pts then Some (latestPointBalance w hid + pts) else None)"
    by (simp_all add: st he(6))
  have pl: "pointLedger w' = pointLedger w1" unfolding w7 using re(3) l4(3) by (simp add: bumpVersion_def)
  then show "0 < pts \<Longrightarrow> pointBalanceAfterKey (hostKey inp) w' = ls_pointsAfterHost st"
    using he(7) st by (simp add: pointBalanceAfterKey_def)
  show "findAudit w (lg_txKeyBase inp) = None" using fresh by (simp add: findAudit_def k5(3) w4 same(2))
  have "nextId w1 \<le> nextId w'" using f5 unfolding w7 by (simp add: postFrame_def w4 w2_def)
  moreover have "commissionProcessed w' = commissionProcessed w1"
    using re(6) unfolding w7 by (simp add: bumpVersion_def w4 w2_def)
  ultimately show "commissionInv w'"
    using he(2) pl by (auto simp: commissionInv_def intro: order.strict_trans2)
  have "luckyFrame w1 w4" by (simp add: luckyFrame_def coreFrame_def postFrame_def w4 w2_def)
  moreover have "luckyFrame (bumpVersion pid w5) w'" by (simp add: luckyFrame_def coreFrame_def postFrame_def w7)
  ultimately show "luckyFrame w w'"
    using core_luckyFrame [OF he(3)] core_luckyFrame [OF postFrame_core [OF f5]] luckyFrame_trans by blast
qed

section \<open>The payout of the legacy engine\<close>

lemma addToLuckyReservePool_keeps:
  "moved w (addToLuckyReservePool k c r t w) still" "luckyFrame w (addToLuckyReservePool k c r t w)"
  "coinLedger (addToLuckyReservePool k c r t w) = coinLedger w" "pointLedger (addToLuckyReservePool k c r t w) = pointLedger w"
  "commissionInv (addToLuckyReservePool k c r t w) = commissionInv w" "luckyTables w (addToLuckyReservePool k c r t w)"
proof -
  obtain x where e: "addToLuckyReservePool k c r t w = w\<lparr>reservePool := x\<rparr>"
    unfolding addToLuckyReservePool_def Let_def by (cases "case reservePool w k of None \<Rightarrow> (0, 0, 0) | Some r \<Rightarrow> r") auto
  show "moved w (addToLuckyReservePool k c r t w) still" unfolding e by (rule moved_frame) simp_all
  show "luckyFrame w (addToLuckyReservePool k c r t w)" unfolding e by (simp add: luckyFrame_def coreFrame_def postFrame_def)
  show "coinLedger (addToLuckyReservePool k c r t w) = coinLedger w" "pointLedger (addToLuckyReservePool k c r t w) = pointLedger w"
    "commissionInv (addToLuckyReservePool k c r t w) = commissionInv w" "luckyTables w (addToLuckyReservePool k c r t w)"
    unfolding e by (simp_all add: commissionInv_def luckyTables_def)
qed

lemma legacyPayout_effect:
  assumes run: "legacyPayout slot inp g cost pts com pid hid after rtp w = Inr (st, w')"
    and pts: "0 \<le> pts" and rew: "0 \<le> lg_rewardCoins inp"
    and wal: "hasWallet w hid (luckyReceiver inp) POINT" "hasWallet w pid (lg_senderId inp) COIN"
    and bal: "after = latestCoinBalance w pid" and inv: "commissionInv w" and key: "\<not> isCommissionKey (hostKey inp)"
  shows "moved w w' (luckyMove inp pts (lg_rewardCoins inp) com w)" "commissionInv w'" "luckyFrame w w'"
    "luckyPools w' = luckyPools w" "luckyAudits w' = luckyAudits w"
    "giftTransactions w' = giftTransactions w @ [luckyGiftRow inp g cost pts w]"
    "\<exists>rs. coinLedger w' = coinLedger w @ rs \<and> (\<forall>r\<in>set rs. txType r = C_PLATFORM_REWARD \<and> idempotencyKey r = rewardKey inp)"
    "ls_rewardCoins st = lg_rewardCoins inp" "ls_finalBalanceCoins st = after + lg_rewardCoins inp"
proof -
  let ?rew = "lg_rewardCoins inp"
  obtain fin w1 pa ag w2 w3 where rw: "luckyReward inp g pid (lg_category inp) after ?rew w = Inr (fin, w1)"
    and h: "luckyHost inp g hid pts com (bumpVersion pid w1) = Inr ((pa, ag), w2)"
    and gt: "giftTransactionCreate (luckyGiftRow inp g cost pts w2) w2 = Inr ((), w3)"
    and w': "w' = addToLuckyReservePool slot cost ?rew rtp w3"
    and st: "ls_rewardCoins st = ?rew" "ls_finalBalanceCoins st = fin"
    using run unfolding legacyPayout_def Let_def by (auto simp: andThen_Inr_iff)
  let ?v = "bumpVersion pid w1"
  note re = luckyReward_effect [OF rw rew wal(2) bal]
  have fv: "postFrame w ?v" using postFrame_trans [OF re(2) postFrame_steps(2)] .
  have walv: "hasWallet ?v hid (luckyReceiver inp) POINT" using wal(1) hasWallet_same [OF re(4)] by simp
  have invv: "commissionInv ?v"
    using inv fv re(3) by (auto simp: commissionInv_def postFrame_def bumpVersion_def intro: order.strict_trans2)
  note he = luckyHost_effect [OF h pts walv invv key]
  have w3: "w3 = w2\<lparr>giftTransactions := giftTransactions w2 @ [luckyGiftRow inp g cost pts w2]\<rparr>"
    using gt by (auto simp: giftTransactionCreate_def split: if_splits)
  note ad = addToLuckyReservePool_keeps [where w = w3 and k = slot and c = cost and r = ?rew and t = rtp, folded w']
  have due: "luckyDue inp pts com ?v = luckyDue inp pts com w" by (simp add: luckyDue_def commissionDue_postFrame [OF fv])
  have m3: "moved w2 w3 still" by (rule moved_frame) (simp_all add: w3)
  have "moved w w' (\<lambda>a. moving (lg_senderId inp, COIN) ?rew a
      + (moving (luckyReceiver inp, POINT) pts a + dueMove (luckyDue inp pts com w) a))"
    using moved_trans [OF moved_still [OF re(1) bumpVersion_moved] moved_still [OF moved_still [OF he(1) m3] ad(1)]]
    unfolding due .
  then show "moved w w' (luckyMove inp pts ?rew com w)" by (simp add: luckyMove_def [abs_def] ac_simps)
  show "commissionInv w'" using he(2) ad(5) by (simp add: w3 commissionInv_def)
  have f2: "coreFrame w w2" by (rule coreFrame_trans [OF postFrame_core [OF fv] he(3)])
  have "luckyFrame w2 w3" by (simp add: w3 luckyFrame_def coreFrame_def postFrame_def)
  then show "luckyFrame w w'" using core_luckyFrame [OF f2] ad(2) luckyFrame_trans by blast
  show "luckyPools w' = luckyPools w" "luckyAudits w' = luckyAudits w"
    "giftTransactions w' = giftTransactions w @ [luckyGiftRow inp g cost pts w]"
    using ad(6) coreFrame_keeps [OF f2] by (simp_all add: luckyTables_def w3 luckyGiftRow_def)
  show "\<exists>rs. coinLedger w' = coinLedger w @ rs \<and> (\<forall>r\<in>set rs. txType r = C_PLATFORM_REWARD \<and> idempotencyKey r = rewardKey inp)"
    using re(7) he(4) ad(3) by (simp add: w3 bumpVersion_def)
  show "ls_rewardCoins st = ?rew" "ls_finalBalanceCoins st = after + ?rew" using st re(5) by simp_all
qed

section \<open>The transaction\<close>

lemma luckyGiftTx_effect:
  assumes run: "luckyGiftTx sha rolls slot inp g res cost pts w = Inr ((st, wealth), w')"
    and price: "0 \<le> gift_coinCost g" "\<forall>c. waterConfig res = Some c \<longrightarrow> 0 \<le> cfg_mMax c" and pts: "0 \<le> pts"
    and wf: "Ledger.wf w" and inv: "commissionInv w" and key: "\<not> isCommissionKey (hostKey inp)"
    and com: "com = luckyCommission inp pts (er_engine res) w"
  shows "moved w w' (\<lambda>a. moving (lg_senderId inp, COIN) (- cost) a + luckyMove inp pts (ls_rewardCoins st) com w a)"
    "commissionInv w'" "luckyFrame w w'" "0 < cost"
    "giftTransactions w' = giftTransactions w @ [luckyGiftRow inp g cost pts w]"
    "\<exists>e rs. coinLedger w' = coinLedger w @ e # rs \<and> idempotencyKey e = debitKey inp
       \<and> metaRequestId (metadata e) = Some (lg_requestId inp) \<and> (\<forall>r\<in>set (e # rs). txType r \<noteq> C_VIDEO_CALL)"
    "findByIdempotencyKey (coinLedger w) (debitKey inp) = None"
    "cost \<le> balanceOf w (lg_senderId inp, COIN)
       \<and> ls_finalBalanceCoins st = balanceOf w (lg_senderId inp, COIN) - cost + ls_rewardCoins st"
    "luckyGuards inp g cost (waterConfig res) = Inr ()"
    "waterConfig res = None \<Longrightarrow> luckyPools w' = luckyPools w \<and> luckyAudits w' = luckyAudits w \<and> ls_rewardCoins st = lg_rewardCoins inp"
    "waterConfig res = Some c \<Longrightarrow> d = poolDraw rolls inp g c cost w \<Longrightarrow>
       luckyPools w' = (luckyPools w)(cfg_tierId c \<mapsto> (finalWater d, cfg_version c))
       \<and> luckyAudits w' = luckyAudits w @ [luckyAudit sha inp c (drawnRecord c (poolOf w (cfg_tierId c)) (poolInflow c cost) d)
           (collapseBreakdown (rewards d) 10) (resolveCategory (lg_count inp) (gift_coinCost g) (totalPaid d)) (totalPaid d)
           (ls_finalBalanceCoins st) w]
       \<and> ls_rewardCoins st = totalPaid d
       \<and> ls_category st = categoryText (resolveCategory (lg_count inp) (gift_coinCost g) (totalPaid d))
       \<and> ls_tierId st = Some (cfg_tierId c) \<and> ls_configVersion st = Some (cfg_version c)
       \<and> ls_breakdownArray st = Some (collapseBreakdown (rewards d) 10)
       \<and> (0 < pts \<longrightarrow> pointBalanceAfterKey (hostKey inp) w' = ls_pointsAfterHost st)
       \<and> findAudit w (lg_txKeyBase inp) = None"
proof -
  obtain pc hp w1 e w2 w3 where lk: "lockForOperation (lg_senderId inp) (Some (luckyReceiver inp)) com w = Inr ((pc, hp), w1)"
    and gd: "luckyGuards inp g cost (waterConfig res) = Inr ()"
    and enough: "\<not> latestCoinBalance w1 (wallet_id pc) < cost"
    and ins: "coinInsert (luckyDebitEntry inp g (wallet_id pc) cost (latestCoinBalance w1 (wallet_id pc) - cost)) w1 = Inr (e, w2)"
    and lvl: "applyLevel (lg_senderId inp) WEALTH cost w2 = Inr (wealth, w3)"
    and pay: "(case waterConfig res of
           Some c \<Rightarrow> waterPayout sha rolls inp g c cost pts com (wallet_id pc) (wallet_id (the hp)) (latestCoinBalance w1 (wallet_id pc) - cost) w3
         | None \<Rightarrow> legacyPayout slot inp g cost pts com (wallet_id pc) (wallet_id (the hp)) (latestCoinBalance w1 (wallet_id pc) - cost)
                     (luckyTargetRtpBp (shares w)) w3) = Inr (st, w')"
    using run unfolding luckyGiftTx_def Let_def com [symmetric] by (auto simp: andThen_Inr_iff)
  show "luckyGuards inp g cost (waterConfig res) = Inr ()" by (rule gd)
  define entry where "entry = luckyDebitEntry inp g (wallet_id pc) cost (latestCoinBalance w1 (wallet_id pc) - cost)"
  note l = lockForOperation_effect [OF lk] and lv = applyLevel_effect [OF lvl]
  have en: "walletId entry = wallet_id pc" "direction entry = DEBIT" "amount entry = cost"
    "balanceAfter entry = latestCoinBalance w1 (wallet_id pc) - cost" "idempotencyKey entry = debitKey inp"
    "metaRequestId (metadata entry) = Some (lg_requestId inp)" "txType entry = C_GIFT_SEND"
    by (simp_all add: entry_def metaRequestId_def json_field_def)
  have ins': "coinInsert entry w1 = Inr (e, w2)" unfolding entry_def by (rule ins)
  have e: "e = entry\<lparr>entry_id := nextId w1, createdAt := clock w1\<rparr>" "w2 = w1\<lparr>coinLedger := coinLedger w1 @ [e], nextId := Suc (nextId w1)\<rparr>"
    and pos: "0 < cost" and fr: "findByIdempotencyKey (coinLedger w1) (debitKey inp) = None"
    using ins' en by (simp_all add: coinInsert_Inr)
  show "0 < cost" by (rule pos)
  show "findByIdempotencyKey (coinLedger w) (debitKey inp) = None" using fr l(3) by simp
  let ?after = "latestCoinBalance w1 (wallet_id pc) - cost"
  have delta: "coinDelta entry = - cost" using en by (simp add: coinDelta_def)
  have m2: "moved w1 w2 (moving (lg_senderId inp, COIN) (- cost))"
    using coin_post [OF ins', of "lg_senderId inp" COIN] l(5) en enough delta by simp
  have m3: "moved w w3 (moving (lg_senderId inp, COIN) (- cost))" by (rule still_moved [OF l(1) moved_still [OF m2 lv(1)]])
  have f3: "postFrame w w3" using postFrame_trans [OF l(2) postFrame_trans [OF postFrame_insert(2) [OF ins'] lv(2)]] .
  have w3s: "wallets w3 = wallets w1" "coinLedger w3 = coinLedger w @ [e]" "pointLedger w3 = pointLedger w"
    using lv(3,4,5) l(3,4) by (simp_all add: e(2))
  have wal: "hasWallet w3 (wallet_id (the hp)) (luckyReceiver inp) POINT" "hasWallet w3 (wallet_id pc) (lg_senderId inp) COIN"
    using l(5,6) hasWallet_same [OF w3s(1)] by simp_all
  have aft: "?after = latestCoinBalance w3 (wallet_id pc)"
    using hasWallet_balance(1) [OF moved_wf [OF m3 wf] wal(2)] moved_bal [OF m3 wf, of "(lg_senderId inp, COIN)"]
      locked_payer_balance(1) [OF lk wf] by (simp add: moving_def)
  have inv3: "commissionInv w3" using inv f3 w3s(3) by (auto simp: commissionInv_def postFrame_def intro: order.strict_trans2)
  have same: "luckyPools w3 = luckyPools w" "luckyAudits w3 = luckyAudits w" "clock w3 = clock w" "giftTransactions w3 = giftTransactions w"
    using f3 by (simp_all add: postFrame_def)
  have mv: "luckyMove inp pts r com w3 = luckyMove inp pts r com w" for r
    by (simp add: luckyMove_def [abs_def] luckyDue_def commissionDue_postFrame [OF f3])
  have gr: "luckyGiftRow inp g cost pts w3 = luckyGiftRow inp g cost pts w" by (simp add: luckyGiftRow_def same(3))
  have bal: "cost \<le> balanceOf w (lg_senderId inp, COIN)" "?after = balanceOf w (lg_senderId inp, COIN) - cost"
    using locked_payer_balance(1) [OF lk wf] enough by simp_all
  have meta: "idempotencyKey e = debitKey inp" "metaRequestId (metadata e) = Some (lg_requestId inp)" "txType e \<noteq> C_VIDEO_CALL"
    by (simp_all add: e(1) en)
  have all: "moved w3 w' (luckyMove inp pts (ls_rewardCoins st) com w3) \<and> commissionInv w' \<and> luckyFrame w3 w'
     \<and> giftTransactions w' = giftTransactions w @ [luckyGiftRow inp g cost pts w]
     \<and> (\<exists>rs. coinLedger w' = coinLedger w3 @ rs \<and> (\<forall>r\<in>set rs. txType r = C_PLATFORM_REWARD \<and> idempotencyKey r = rewardKey inp))
     \<and> ls_finalBalanceCoins st = ?after + ls_rewardCoins st"
  proof (cases "waterConfig res")
    case None
    have "0 \<le> lg_rewardCoins inp" using gd None by (auto simp: luckyGuards_def Let_def)
    from legacyPayout_effect [OF _ pts this wal aft inv3 key, of slot g cost com "luckyTargetRtpBp (shares w)" st w'] pay None
    show ?thesis by (simp add: same(4) gr)
  next
    case (Some c)
    from waterPayout_effect [OF _ price(1) price(2) [rule_format, OF Some] pts wal aft inv3 key refl, of sha rolls cost com st w'] pay Some
    show ?thesis by (simp add: same(4) gr)
  qed
  show "moved w w' (\<lambda>a. moving (lg_senderId inp, COIN) (- cost) a + luckyMove inp pts (ls_rewardCoins st) com w a)"
    using moved_trans [OF m3 conjunct1 [OF all]] unfolding mv .
  show "commissionInv w'" "luckyFrame w w'" "giftTransactions w' = giftTransactions w @ [luckyGiftRow inp g cost pts w]"
    using all luckyFrame_trans [OF core_luckyFrame [OF postFrame_core [OF f3]]] by blast+
  show "cost \<le> balanceOf w (lg_senderId inp, COIN)
       \<and> ls_finalBalanceCoins st = balanceOf w (lg_senderId inp, COIN) - cost + ls_rewardCoins st"
    using bal all by simp
  obtain rs where rs: "coinLedger w' = coinLedger w3 @ rs" "\<forall>r\<in>set rs. txType r = C_PLATFORM_REWARD" using all by blast
  show "\<exists>e rs. coinLedger w' = coinLedger w @ e # rs \<and> idempotencyKey e = debitKey inp
       \<and> metaRequestId (metadata e) = Some (lg_requestId inp) \<and> (\<forall>r\<in>set (e # rs). txType r \<noteq> C_VIDEO_CALL)"
    using rs w3s(2) meta by (intro exI [of _ e] exI [of _ rs]) simp
  show "luckyPools w' = luckyPools w \<and> luckyAudits w' = luckyAudits w \<and> ls_rewardCoins st = lg_rewardCoins inp"
    if None: "waterConfig res = None"
  proof -
    have "0 \<le> lg_rewardCoins inp" using gd None by (auto simp: luckyGuards_def Let_def)
    from legacyPayout_effect [OF _ pts this wal aft inv3 key, of slot g cost com "luckyTargetRtpBp (shares w)" st w'] pay None
    show ?thesis by (simp add: same)
  qed
  show "luckyPools w' = (luckyPools w)(cfg_tierId c \<mapsto> (finalWater d, cfg_version c))
       \<and> luckyAudits w' = luckyAudits w @ [luckyAudit sha inp c (drawnRecord c (poolOf w (cfg_tierId c)) (poolInflow c cost) d)
           (collapseBreakdown (rewards d) 10) (resolveCategory (lg_count inp) (gift_coinCost g) (totalPaid d)) (totalPaid d)
           (ls_finalBalanceCoins st) w]
       \<and> ls_rewardCoins st = totalPaid d
       \<and> ls_category st = categoryText (resolveCategory (lg_count inp) (gift_coinCost g) (totalPaid d))
       \<and> ls_tierId st = Some (cfg_tierId c) \<and> ls_configVersion st = Some (cfg_version c)
       \<and> ls_breakdownArray st = Some (collapseBreakdown (rewards d) 10)
       \<and> (0 < pts \<longrightarrow> pointBalanceAfterKey (hostKey inp) w' = ls_pointsAfterHost st)
       \<and> findAudit w (lg_txKeyBase inp) = None"
    if Some: "waterConfig res = Some c" and d: "d = poolDraw rolls inp g c cost w"
  proof -
    have d3: "d = poolDraw rolls inp g c cost w3" unfolding d poolDraw_def by (simp only: poolParams_cong [OF same(1-3)])
    have au: "luckyAudit sha inp c dr br ct rw fb w3 = luckyAudit sha inp c dr br ct rw fb w" for dr br ct rw fb
      by (simp add: luckyAudit_def same(3))
    have run3: "waterPayout sha rolls inp g c cost pts com (wallet_id pc) (wallet_id (the hp)) ?after w3 = Inr (st, w')"
      using pay Some by simp
    note p = waterPayout_effect [OF run3 price(1) price(2) [rule_format, OF Some] pts wal aft inv3 key d3]
    show ?thesis
      using p(4,6,8-13,15,16) by (simp add: same(1,2) au poolOf_def findAudit_def)
  qed
qed

section \<open>Failures\<close>

definition luckyKeysUsed :: "lucky_input \<Rightarrow> world \<Rightarrow> bool" where
  "luckyKeysUsed inp w \<longleftrightarrow> findByIdempotencyKey (coinLedger w) (debitKey inp) \<noteq> None
     \<or> findByIdempotencyKey (coinLedger w) (rewardKey inp) \<noteq> None
     \<or> findByIdempotencyKey (pointLedger w) (hostKey inp) \<noteq> None
     \<or> lg_giftTransactionId inp \<in> set (map gt_id (giftTransactions w)) \<or> findAudit w (lg_txKeyBase inp) \<noteq> None"

lemma luckyHost_fails:
  assumes run: "luckyHost inp g hid pts com w = Inl err" and inv: "commissionInv w" and key: "\<not> isCommissionKey (hostKey inp)"
  shows "err = AppError 500 ''CONFIG_ERROR'' [] \<and> com \<and> \<not> commissionConfigured (luckyReceiver inp) w
    \<or> err = UniqueViolation \<and> findByIdempotencyKey (pointLedger w) (hostKey inp) \<noteq> None"
proof -
  define d where "d = luckyHostEntry inp g hid pts (latestPointBalance w hid + pts)"
  have d: "amount d = pts" "walletId d = hid" "idempotencyKey d = hostKey inp" by (simp_all add: d_def)
  have pos: "0 < pts" using run by (auto simp: luckyHost_def Let_def hostRow_def hostSettle_def split: if_splits)
  show ?thesis
  proof (cases "pointInsert d w")
    case (Inl e1)
    then have "err = e1" using run pos d by (simp add: luckyHost_def Let_def hostRow_def d_def)
    then show ?thesis using insert_fails(2) [OF Inl] d pos by simp
  next
    case (Inr x)
    obtain e wa where x: "x = (e, wa)" by fastforce
    let ?v = "bumpVersion hid wa"
    have st: "hostSettle (luckyReceiver inp) pts P_LIVESTREAM_GIFT com (Some (entry_id e)) ?v = Inl err"
      using run pos Inr x d by (auto simp: luckyHost_def Let_def hostRow_def d_def andThen_Inl_iff)
    have e: "entry_id e = nextId w" "pointLedger ?v = pointLedger w @ [e]" "idempotencyKey e = hostKey inp"
      using Inr d by (auto simp: x pointInsert_Inr bumpVersion_def)
    have "findByIdempotencyKey (pointLedger ?v) (commissionKey (entry_id e)) = None"
      using commissionInv_fresh [OF inv, of "nextId w"] e key by (auto simp: findByIdempotencyKey_def find_append)
    moreover have "com"
      using st applyLevel_total [of "luckyReceiver inp" LIVESTREAM pts ?v] by (cases com) (auto simp: hostSettle_def settleHostCredit_def Let_def)
    moreover have "commissionConfigured (luckyReceiver inp) ?v = commissionConfigured (luckyReceiver inp) w"
      using commissionConfigured_postFrame [OF postFrame_trans [OF postFrame_insert(1) [OF Inr [unfolded x]] postFrame_steps(2)]] .
    ultimately show ?thesis using hostSettle_fails [OF st] by blast
  qed
qed

lemma luckyReward_fails:
  assumes "luckyReward inp g i cat after rew w = Inl err"
  shows "err = UniqueViolation \<and> findByIdempotencyKey (coinLedger w) (rewardKey inp) \<noteq> None"
proof -
  have "0 < rew" "coinInsert (luckyRewardEntry inp g i cat rew (after + rew)) w = Inl err"
    using assms by (auto simp: luckyReward_def andThen_Inl_iff split: if_splits)
  then show ?thesis using insert_fails(1) by fastforce
qed

text \<open>What a used key of a payout can be: any but the debit's, which is inserted before.\<close>

definition payoutKeysUsed :: "lucky_input \<Rightarrow> world \<Rightarrow> bool" where
  "payoutKeysUsed inp w \<longleftrightarrow> findByIdempotencyKey (coinLedger w) (rewardKey inp) \<noteq> None
     \<or> findByIdempotencyKey (pointLedger w) (hostKey inp) \<noteq> None
     \<or> lg_giftTransactionId inp \<in> set (map gt_id (giftTransactions w)) \<or> findAudit w (lg_txKeyBase inp) \<noteq> None"

definition payoutFails :: "error \<Rightarrow> lucky_input \<Rightarrow> bool \<Rightarrow> world \<Rightarrow> bool" where
  "payoutFails err inp com w \<longleftrightarrow>
     (err = AppError 500 ''CONFIG_ERROR'' [] \<and> com \<and> \<not> commissionConfigured (luckyReceiver inp) w)
     \<or> (err = UniqueViolation \<and> payoutKeysUsed inp w)"

lemma waterPayout_fails:
  assumes run: "waterPayout sha rolls inp g c cost pts com pid hid after w = Inl err"
    and price: "0 \<le> gift_coinCost g" "0 \<le> cfg_mMax c" and pts: "0 \<le> pts"
    and wal: "hasWallet w hid (luckyReceiver inp) POINT" and inv: "commissionInv w" and key: "\<not> isCommissionKey (hostKey inp)"
  shows "payoutFails err inp com w"
proof (cases "luckyHost inp g hid pts com w")
  case (Inl e1)
  then have "err = e1" using run by (simp add: waterPayout_def)
  then show ?thesis using luckyHost_fails [OF Inl inv key] by (auto simp: payoutFails_def payoutKeysUsed_def)
next
  case (Inr x)
  obtain pa ag w1 where x: "x = ((pa, ag), w1)" by (metis prod.exhaust)
  note he = luckyHost_effect [OF Inr [unfolded x] pts wal inv key]
  note k1 = coreFrame_keeps [OF he(3)]
  show ?thesis
  proof (cases "lg_giftTransactionId inp \<in> set (map gt_id (giftTransactions w))")
    case True
    then have "err = UniqueViolation" using run Inr x k1(9) by (simp add: waterPayout_def giftTransactionCreate_def luckyGiftRow_def)
    then show ?thesis using True by (simp add: payoutFails_def payoutKeysUsed_def)
  next
    case False
    define w2 where "w2 = w1\<lparr>giftTransactions := giftTransactions w1 @ [luckyGiftRow inp g cost pts w1]\<rparr>"
    have gt: "giftTransactionCreate (luckyGiftRow inp g cost pts w1) w1 = Inr ((), w2)"
      using False k1(9) by (simp add: giftTransactionCreate_def w2_def luckyGiftRow_def)
    obtain b w3 where lk: "lockPool c w2 = (b, w3)" by fastforce
    let ?d = "poolDraw rolls inp g c cost w2"
    have draw: "drawUnits (waterParams rolls c (gift_coinCost g) (lg_count inp) (b + bdiv (cost * cfg_rBp c) 10000)
        (readWaterUserCaps (lg_senderId inp) (cfg_dailyWinCapCoins c) (cfg_coolDownSeconds c) w2)) = ?d"
      unfolding poolDraw_def poolParams_def poolInflow_def lockPool_effect(1) [OF lk] ..
    obtain w4 where up: "updatePool c ?d w3 = Inr ((), w4)" and pw: "poolWritten c ?d w2 w4"
      using pool_step [OF price lk, of rolls inp cost] by blast
    have l4: "coinLedger w4 = coinLedger w" "luckyAudits w4 = luckyAudits w"
      using pw he(4) k1 by (auto simp: poolWritten_def w2_def)
    let ?cat = "resolveCategory (lg_count inp) (gift_coinCost g) (totalPaid ?d)"
    let ?rest = "luckyReward inp g pid (categoryText ?cat) after (totalPaid ?d) w4"
    have rest: "andThen ?rest (\<lambda>(fin, w5). andThen (auditCreate (luckyAudit sha inp c
        (drawnRecord c b (bdiv (cost * cfg_rBp c) 10000) ?d) (collapseBreakdown (rewards ?d) 10) ?cat (totalPaid ?d) fin (bumpVersion pid w5))
        (bumpVersion pid w5)) (\<lambda>_. Inr ())) = Inl err"
      using run unfolding waterPayout_def Inr x andThen_simps split_conv gt Let_def lk draw up
      by (auto simp: andThen_Inl_iff)
    have "err = UniqueViolation \<and> payoutKeysUsed inp w"
    proof (cases ?rest)
      case (Inl e2)
      then show ?thesis using luckyReward_fails [OF Inl] rest l4(1) by (simp add: payoutKeysUsed_def)
    next
      case r: (Inr y)
      obtain fin w5 where y: "y = (fin, w5)" by fastforce
      have "luckyAudits (bumpVersion pid w5) = luckyAudits w"
        using r l4(2) by (auto simp: y luckyReward_def andThen_Inr_iff coinInsert_Inr bumpVersion_def split: if_splits)
      then show ?thesis
        using rest r y by (auto simp: andThen_Inl_iff auditCreate_def luckyAudit_def findAudit_def payoutKeysUsed_def split: if_splits)
    qed
    then show ?thesis by (simp add: payoutFails_def)
  qed
qed

lemma legacyPayout_fails:
  assumes run: "legacyPayout slot inp g cost pts com pid hid after rtp w = Inl err"
    and pts: "0 \<le> pts" and wal: "hasWallet w hid (luckyReceiver inp) POINT" and inv: "commissionInv w" and key: "\<not> isCommissionKey (hostKey inp)"
  shows "payoutFails err inp com w"
proof (cases "luckyReward inp g pid (lg_category inp) after (lg_rewardCoins inp) w")
  case (Inl e1)
  then show ?thesis using run luckyReward_fails [OF Inl] by (simp add: legacyPayout_def Let_def payoutFails_def payoutKeysUsed_def)
next
  case (Inr x)
  obtain fin w1 where x: "x = (fin, w1)" by fastforce
  let ?v = "bumpVersion pid w1"
  have fw: "postFrame w w1 \<and> pointLedger w1 = pointLedger w \<and> wallets w1 = wallets w \<and> commissionProcessed w1 = commissionProcessed w"
    using Inr postFrame_insert(2) by (auto simp: x luckyReward_def andThen_Inr_iff coinInsert_Inr split: if_splits)
  have fv: "postFrame w ?v" using postFrame_trans [OF conjunct1 [OF fw] postFrame_steps(2)] .
  have walv: "hasWallet ?v hid (luckyReceiver inp) POINT" using wal hasWallet_same [of w1 w] fw by simp
  have pv: "pointLedger ?v = pointLedger w" "commissionProcessed ?v = commissionProcessed w" using fw by (simp_all add: bumpVersion_def)
  have invv: "commissionInv ?v" using inv fv pv by (auto simp: commissionInv_def postFrame_def intro: order.strict_trans2)
  show ?thesis
  proof (cases "luckyHost inp g hid pts com ?v")
    case (Inl e2)
    then have "err = e2" using run Inr x by (simp add: legacyPayout_def Let_def)
    then show ?thesis
      using luckyHost_fails [OF Inl invv key] commissionConfigured_postFrame [OF fv] pv(1)
      by (auto simp: payoutFails_def payoutKeysUsed_def)
  next
    case h: (Inr y)
    obtain pa ag w2 where y: "y = ((pa, ag), w2)" by (metis prod.exhaust)
    have "giftTransactions w2 = giftTransactions w"
      using coreFrame_keeps(9) [OF luckyHost_effect(3) [OF h [unfolded y] pts walv invv key]] fv by (simp add: postFrame_def)
    then show ?thesis
      using run Inr x h y
      by (auto simp: legacyPayout_def Let_def giftTransactionCreate_def luckyGiftRow_def andThen_Inl_iff payoutFails_def
          payoutKeysUsed_def split: if_splits)
  qed
qed

lemma luckyGiftTx_fails:
  assumes run: "luckyGiftTx sha rolls slot inp g res cost pts w = Inl err"
    and free: "assertCoinDebitAllowed (lg_senderId inp) COIN w = Inr ()"
    and price: "0 \<le> gift_coinCost g" "\<forall>c. waterConfig res = Some c \<longrightarrow> 0 \<le> cfg_mMax c" and pts: "0 \<le> pts" and cost: "0 < cost"
    and wf: "Ledger.wf w" and inv: "commissionInv w" and key: "\<not> isCommissionKey (hostKey inp)"
    and com: "com = luckyCommission inp pts (er_engine res) w" and bal: "bal = balanceOf w (lg_senderId inp, COIN)"
  shows "luckyGuards inp g cost (waterConfig res) = Inl err
    \<or> luckyGuards inp g cost (waterConfig res) = Inr ()
       \<and> (bal < cost \<and> err = insufficientCoins cost bal
          \<or> cost \<le> bal \<and> (err = AppError 500 ''CONFIG_ERROR'' [] \<and> com \<and> \<not> commissionConfigured (luckyReceiver inp) w
              \<or> err = UniqueViolation \<and> luckyKeysUsed inp w))"
proof -
  obtain pc hp w1 where lk: "lockForOperation (lg_senderId inp) (Some (luckyReceiver inp)) com w = Inr ((pc, hp), w1)"
    using lockForOperation_total [OF free] by blast
  note l = lockForOperation_effect [OF lk]
  have b1: "latestCoinBalance w1 (wallet_id pc) = bal" using locked_payer_balance(1) [OF lk wf] bal by simp
  note step1 = luckyGiftTx_def Let_def com [symmetric] lk b1
  show ?thesis
  proof (cases "luckyGuards inp g cost (waterConfig res)")
    case (Inl e0)
    then show ?thesis using run by (simp add: step1)
  next
    case gd: (Inr u)
    show ?thesis
    proof (cases "bal < cost")
      case True
      then show ?thesis using run gd by (simp add: step1)
    next
      case le: False
      define d where "d = luckyDebitEntry inp g (wallet_id pc) cost (bal - cost)"
      have d: "walletId d = wallet_id pc" "direction d = DEBIT" "amount d = cost" "balanceAfter d = bal - cost" "idempotencyKey d = debitKey inp"
        by (simp_all add: d_def)
      have "cost \<le> bal \<and> (err = AppError 500 ''CONFIG_ERROR'' [] \<and> com \<and> \<not> commissionConfigured (luckyReceiver inp) w
              \<or> err = UniqueViolation \<and> luckyKeysUsed inp w)"
      proof (cases "coinInsert d w1")
        case (Inl e1)
        then have "err = e1" using run gd le by (simp add: step1 d_def)
        then show ?thesis using insert_fails(1) [OF Inl] d cost le l(3) by (simp add: luckyKeysUsed_def)
      next
        case ins: (Inr x)
        obtain e w2 where x: "x = (e, w2)" by fastforce
        obtain wealth w3 where lv: "applyLevel (lg_senderId inp) WEALTH cost w2 = Inr (wealth, w3)" using applyLevel_total by blast
        note a = applyLevel_effect [OF lv]
        have e: "w2 = w1\<lparr>coinLedger := coinLedger w1 @ [e], nextId := Suc (nextId w1)\<rparr>" "idempotencyKey e = debitKey inp"
          using ins d by (auto simp: x coinInsert_Inr)
        have f3: "postFrame w w3"
          using postFrame_trans [OF l(2) postFrame_trans [OF postFrame_insert(2) [OF ins [unfolded x]] a(2)]] .
        have w3: "wallets w3 = wallets w1" "coinLedger w3 = coinLedger w @ [e]" "pointLedger w3 = pointLedger w"
          using a(3,4,5) l(3,4) by (simp_all add: e(1))
        have wal: "hasWallet w3 (wallet_id (the hp)) (luckyReceiver inp) POINT" using l(6) hasWallet_same [OF w3(1)] by simp
        have inv3: "commissionInv w3" using inv f3 w3(3) by (auto simp: commissionInv_def postFrame_def intro: order.strict_trans2)
        have "payoutFails err inp com w3"
        proof (cases "waterConfig res")
          case None
          then have "legacyPayout slot inp g cost pts com (wallet_id pc) (wallet_id (the hp)) (bal - cost) (luckyTargetRtpBp (shares w)) w3 = Inl err"
            using run gd le ins x lv by (simp add: step1 d_def andThen_Inl_iff)
          then show ?thesis by (rule legacyPayout_fails [OF _ pts wal inv3 key])
        next
          case (Some c)
          then have "waterPayout sha rolls inp g c cost pts com (wallet_id pc) (wallet_id (the hp)) (bal - cost) w3 = Inl err"
            using run gd le ins x lv by (simp add: step1 d_def andThen_Inl_iff)
          then show ?thesis by (rule waterPayout_fails [OF _ price(1) price(2) [rule_format, OF Some] pts wal inv3 key])
        qed
        moreover have "findByIdempotencyKey (coinLedger w3) (rewardKey inp) = findByIdempotencyKey (coinLedger w) (rewardKey inp)"
          using w3(2) e(2) by (simp add: findByIdempotencyKey_def find_append debitKey_def rewardKey_def split: option.split)
        ultimately show ?thesis
          using le commissionConfigured_postFrame [OF f3] f3 w3(3)
          by (auto simp: payoutFails_def payoutKeysUsed_def luckyKeysUsed_def findAudit_def postFrame_def)
      qed
      then show ?thesis using gd by simp
    qed
  qed
qed

section \<open>The call, inverted\<close>

lemma afterCommit_lucky:
  "luckyPools (afterCommit c p x y a w) = luckyPools w" "luckyAudits (afterCommit c p x y a w) = luckyAudits w"
  unfolding afterCommit_def Let_def writeCoinBalanceCache_def writePointBalanceCache_def invalidateCache_def adjustPointBalanceCache_def
  by (simp_all split: option.split prod.split)

lemma luckyReplay_same: "luckyReplay sha inp cost pts w = Inr (r, w') \<Longrightarrow> w' = w \<and> lr_replayed r"
  by (auto simp: luckyReplay_def andThen_Inr_iff replayOrDuplicate_def waterReplay_def legacyReplay_def Let_def
      split: option.splits if_splits)

lemma luckyGiftTx_pos: "luckyGiftTx sha rolls slot inp g res cost pts w = Inr (x, w') \<Longrightarrow> 0 < cost"
  unfolding luckyGiftTx_def Let_def by (auto simp: andThen_Inr_iff coinInsert_Inr)

lemma luckyGiftSend_commits:
  assumes g: "loadSendableGift (lg_giftId inp) True w = Inr g" and none: "findByIdempotencyKey (coinLedger w) (debitKey inp) = None"
    and cost: "cost = luckyCost inp g" and pts: "pts = luckyHostPoints cost w"
    and res: "res = fst (resolveEngine w (gift_coinCost g) (lg_supportsServerDraw inp) cache)"
  shows "fst (luckyGiftSend sha rolls slot inp cache w) = luckyCommit sha rolls slot inp g res cost pts w"
  using g none cost pts res by (simp add: luckyGiftSend_def Let_def split_def)

lemma luckyGiftSend_cases:
  assumes run: "fst (luckyGiftSend sha rolls slot inp cache w) = Inr (r, w')"
  shows "(lr_replayed r \<and> w' = w)
    \<or> (\<not> lr_replayed r \<and> (\<exists>g res cost pts st wealth w1. loadSendableGift (lg_giftId inp) True w = Inr g
         \<and> cost = luckyCost inp g \<and> pts = luckyHostPoints cost w
         \<and> res = fst (resolveEngine w (gift_coinCost g) (lg_supportsServerDraw inp) cache)
         \<and> luckyGiftTx sha rolls slot inp g res cost pts w = Inr ((st, wealth), w1)
         \<and> luckyCommit sha rolls slot inp g res cost pts w = Inr (r, w')))"
proof -
  obtain g where g: "loadSendableGift (lg_giftId inp) True w = Inr g"
    using run by (cases "loadSendableGift (lg_giftId inp) True w") (auto simp: luckyGiftSend_def)
  define cost where "cost = luckyCost inp g"
  define pts where "pts = luckyHostPoints cost w"
  define res where "res = fst (resolveEngine w (gift_coinCost g) (lg_supportsServerDraw inp) cache)"
  show ?thesis
  proof (cases "findByIdempotencyKey (coinLedger w) (debitKey inp)")
    case (Some e)
    then have "luckyReplay sha inp cost pts w = Inr (r, w')" using run g by (simp add: luckyGiftSend_def Let_def cost_def pts_def)
    then show ?thesis using luckyReplay_same by blast
  next
    case None
    have c: "luckyCommit sha rolls slot inp g res cost pts w = Inr (r, w')"
      using run luckyGiftSend_commits [OF g None cost_def pts_def res_def] by simp
    show ?thesis
    proof (cases "luckyGiftTx sha rolls slot inp g res cost pts w")
      case (Inl err)
      then have "luckyReplay sha inp cost pts w = Inr (r, w')" using c by (auto simp: luckyCommit_def split: if_splits)
      then show ?thesis using luckyReplay_same by blast
    next
      case (Inr x)
      obtain st wealth w1 where x: "x = ((st, wealth), w1)" by (metis prod.exhaust)
      have "\<not> lr_replayed r" using c Inr x by (auto simp: luckyCommit_def)
      then show ?thesis using g cost_def pts_def res_def Inr x c by auto
    qed
  qed
qed

lemma luckyCommit_ok:
  assumes "luckyGiftTx sha rolls slot inp g res cost pts w = Inr ((st, wealth), w1)"
    and "luckyCommit sha rolls slot inp g res cost pts w = Inr (r, w')"
  shows "\<exists>p x y a. w' = afterCommit (Some (lg_senderId inp, ls_finalBalanceCoins st)) p x y a w1"
    "\<not> lr_replayed r" "lr_totalCost r = cost" "lr_hostPoints r = pts" "lr_rewardCoins r = ls_rewardCoins st"
    "lr_finalBalanceCoins r = ls_finalBalanceCoins st" "lr_pointsAfterHost r = ls_pointsAfterHost st"
    "lr_engine r = er_engine res" "lr_category r = ls_category st" "lr_tierId r = ls_tierId st"
    "lr_configVersion r = ls_configVersion st" "lr_breakdownArray r = ls_breakdownArray st"
    "lr_transactionId r = lg_giftTransactionId inp" "lr_effectiveReceiverId r = luckyReceiver inp"
  using assms by (auto simp: luckyCommit_def)

section \<open>The configuration is a row of the table\<close>

lemma loadImmutable_row:
  assumes co: "cacheCoherent w cache" and ld: "loadImmutable w i cache = Some (c, cache')"
  shows "c \<in> rowToImmutable ` set (luckyConfigs w)"
proof (cases "immutableConfigById cache i")
  case (Some c')
  then have "c = c'" using ld by (simp add: loadImmutable_def)
  then have "immutableConfigById cache i = Some c" using Some by simp
  moreover have "rowsKnown w (immutableConfigById cache)" using co by (simp add: cacheCoherent_def)
  ultimately obtain row where "row \<in> set (luckyConfigs w)" "c = rowToImmutable row" unfolding rowsKnown_def by blast
  then show ?thesis by simp
next
  case None
  then obtain row where "find (\<lambda>r. lc_id r = i) (luckyConfigs w) = Some row" "c = rowToImmutable row"
    using ld by (auto simp: loadImmutable_def split: option.splits)
  then show ?thesis using find_Some_mem by fast
qed

lemma resolveTierConfig_row:
  assumes co: "cacheCoherent w cache" and run: "fst (resolveTierConfig w price cache) = Some c"
  shows "rc_immutable c \<in> rowToImmutable ` set (luckyConfigs w)"
proof -
  let ?c1 = "snd (refreshLatestConfigIndex w cache)"
  note r = refresh_coherent [OF co]
  obtain m c2 c3 where ch: "chooseMeta w (latestIndex w) price ?c1 = Some (m, c2)"
    and ld: "loadImmutable w (tm_id m) c2 = Some (rc_immutable c, c3)"
    using run r(1) by (auto simp: resolveTierConfig_def Let_def split_def split: option.splits)
  have "cacheCoherent w c2" using chooseMeta_coherent(2) [OF r(2) ch] by blast
  then show ?thesis by (rule loadImmutable_row [OF _ ld])
qed

lemma waterConfig_row:
  assumes co: "cacheCoherent w cache" and c: "waterConfig (fst (resolveEngine w price b cache)) = Some c"
  shows "c \<in> rowToImmutable ` set (luckyConfigs w)"
proof -
  obtain cfg where "er_config (fst (resolveEngine w price b cache)) = Some cfg" "c = rc_immutable cfg"
    using c by (auto simp: waterConfig_def split: if_splits)
  moreover from this(1) have "fst (resolveTierConfig w price cache) = Some cfg"
    by (auto simp: resolveEngine_def Let_def split_def split: option.splits if_splits)
  ultimately show ?thesis using resolveTierConfig_row [OF co] by blast
qed

end
