(* ===== verification/LiveLedger.thy ===== *)
theory LiveLedger
  imports LuckyPayout
begin

text \<open>
  The internal ledger API that the live server calls (\<open>src/src/routes/internal/ledger.routes.ts\<close> with the
  schemas of \<open>src/src/models/internal-ledger.schemas.ts\<close>) as a transition system: each accepted request is
  one step, interleaved with the steps of the surroundings that touch a call session. The invariant
  ties the ledgers to the sessions; the properties of the single operations follow.

  User ids are numbers in the model, so the length limits of the schemas on user ids have no
  counterpart; those on the strings the model keeps are written out.
\<close>

section \<open>Schemas and routes\<close>

definition idSchema :: "string \<Rightarrow> bool" where
  "idSchema s \<longleftrightarrow> 1 \<le> length s \<and> length s \<le> 64"

definition keyBase :: "string \<Rightarrow> bool" where
  "keyBase s \<longleftrightarrow> 8 \<le> length s \<and> length s \<le> 200"

definition requestIdSchema :: "string \<Rightarrow> bool" where
  "requestIdSchema s \<longleftrightarrow> 8 \<le> length s \<and> length s \<le> 64"

definition GiftSendSchema :: "gift_input \<Rightarrow> bool" where
  "GiftSendSchema i \<longleftrightarrow> requestIdSchema (gi_requestId i)
     \<and> (gi_context i = ''live_stream'' \<or> gi_context i = ''video_call'')
     \<and> idSchema (gi_giftId i) \<and> 1 \<le> gi_quantity i \<and> gi_quantity i \<le> 1000000
     \<and> idSchema (gi_giftTransactionId i)
     \<and> keyBase (gi_idemBase i) \<and> (startsWith ''gift:'' (gi_idemBase i) \<or> startsWith ''gift-stream:'' (gi_idemBase i))
     \<and> (case gi_sessionId i of None \<Rightarrow> True | Some s \<Rightarrow> idSchema s)"

definition LuckyGiftSchema :: "lucky_input \<Rightarrow> bool" where
  "LuckyGiftSchema i \<longleftrightarrow> requestIdSchema (lg_requestId i) \<and> idSchema (lg_giftId i)
     \<and> 1 \<le> lg_count i \<and> lg_count i \<le> 1000 \<and> idSchema (lg_giftTransactionId i)
     \<and> keyBase (lg_txKeyBase i) \<and> startsWith ''lucky:'' (lg_txKeyBase i)
     \<and> 0 \<le> lg_rewardCoins i \<and> lg_rewardCoins i < 10 ^ 18
     \<and> 1 \<le> length (lg_category i) \<and> length (lg_category i) \<le> 64"

definition CallAcceptSchema :: "string \<Rightarrow> string \<Rightarrow> bool" where
  "CallAcceptSchema requestId sid \<longleftrightarrow> requestIdSchema requestId \<and> idSchema sid"

definition CallMinuteSchema :: "string \<Rightarrow> string \<Rightarrow> int \<Rightarrow> bool" where
  "CallMinuteSchema requestId sid minute \<longleftrightarrow> requestIdSchema requestId \<and> idSchema sid
     \<and> 2 \<le> minute \<and> minute \<le> 100000"

definition GlobalMessageSchema :: "global_input \<Rightarrow> bool" where
  "GlobalMessageSchema i \<longleftrightarrow> requestIdSchema (gm_requestId i) \<and> idSchema (gm_messageTxId i)
     \<and> keyBase (gm_idemKey i) \<and> startsWith ''global-msg:'' (gm_idemKey i)
     \<and> 1 \<le> length (gm_message i) \<and> length (gm_message i) \<le> 5000"

definition zodError :: error where
  "zodError = OtherError ''ZodError''"

definition ledgerGift :: "gift_input \<Rightarrow> world \<Rightarrow> error + gift_result \<times> world" where
  "ledgerGift i w = (if GiftSendSchema i then giftSend i w else Inl zodError)"

definition ledgerLuckyGift ::
  "(string \<Rightarrow> string) \<Rightarrow> (nat \<Rightarrow> int) \<Rightarrow> nat \<Rightarrow> lucky_input \<Rightarrow> lucky_cache \<Rightarrow> world
     \<Rightarrow> (error + lucky_result \<times> world) \<times> lucky_cache" where
  "ledgerLuckyGift sha256 rolls slot i cache w =
     (if LuckyGiftSchema i then luckyGiftSend sha256 rolls slot i cache w else (Inl zodError, cache))"

definition ledgerCallAccept :: "string \<Rightarrow> string \<Rightarrow> uid \<Rightarrow> world \<Rightarrow> error + accept_result \<times> world" where
  "ledgerCallAccept requestId sid receiver w =
     (if CallAcceptSchema requestId sid then callAccept requestId sid receiver w else Inl zodError)"

definition ledgerCallMinute :: "string \<Rightarrow> string \<Rightarrow> int \<Rightarrow> world \<Rightarrow> error + minute_bill option \<times> world" where
  "ledgerCallMinute requestId sid minute w =
     (if CallMinuteSchema requestId sid minute then callMinute requestId sid minute w else Inl zodError)"

definition ledgerGlobalMessage :: "global_input \<Rightarrow> world \<Rightarrow> error + (string \<times> int \<times> int \<times> bool) \<times> world" where
  "ledgerGlobalMessage i w = (if GlobalMessageSchema i then globalMessage i w else Inl zodError)"

text \<open>The end of a call (\<open>endSession\<close> of \<open>src/src/repositories/video-call.repository.ts\<close>).\<close>

definition endSession :: "string \<Rightarrow> string \<Rightarrow> string option \<Rightarrow> world \<Rightarrow> error + session_row \<times> world" where
  "endSession sid status reason w =
     (case sessions w sid of
        None \<Rightarrow> Inl (OtherError ''P2025'')
      | Some s \<Rightarrow>
          (let s' = s\<lparr>session_status := status, endedAt := Some (clock w), endReason := reason\<rparr>
           in Inr (s', w\<lparr>sessions := (sessions w)(sid \<mapsto> s')\<rparr>)))"

section \<open>The transition system\<close>

text \<open>
  The steps: a request of the live server that is answered with success, the end of a call, a new
  call session (the live server writes it, with its counters at zero), and the passage of time. A
  lucky gift runs in a process whose caches agree with the tables, over tier configurations whose
  greatest multiplier is not negative (the schema of the admin route asks for one at least).
\<close>

inductive live_step :: "world \<Rightarrow> world \<Rightarrow> bool" where
  gift: "ledgerGift inp w = Inr (r, w') \<Longrightarrow> live_step w w'"
| lucky: "fst (ledgerLuckyGift sha rolls slot linp cache w) = Inr (lr, w') \<Longrightarrow> cacheCoherent w cache \<Longrightarrow>
     (\<forall>row\<in>set (luckyConfigs w). 0 \<le> lc_mMax row) \<Longrightarrow> live_step w w'"
| accept: "ledgerCallAccept rq sid recv w = Inr (r, w') \<Longrightarrow> live_step w w'"
| minute: "ledgerCallMinute rq sid m w = Inr (r, w') \<Longrightarrow> live_step w w'"
| message: "ledgerGlobalMessage inp w = Inr (r, w') \<Longrightarrow> live_step w w'"
| ending: "st \<in> {''ENDED'', ''INSUFFICIENT_COINS''} \<Longrightarrow> endSession sid st reason w = Inr (s, w') \<Longrightarrow> live_step w w'"
| ring: "sessions w sid = None \<Longrightarrow> minsCharged s = 0 \<Longrightarrow> coinsDeducted s = 0 \<Longrightarrow>
     live_step w (w\<lparr>sessions := (sessions w)(sid \<mapsto> s)\<rparr>)"
| tick: "clock w \<le> t \<Longrightarrow> live_step w (w\<lparr>clock := t\<rparr>)"

definition callRows :: "string \<Rightarrow> world \<Rightarrow> CoinTxType ledger_entry list" where
  "callRows sid w = filter (\<lambda>r. txType r = C_VIDEO_CALL \<and> refId r = Some sid) (coinLedger w)"

text \<open>One row per billed minute, in order, under the key of the minute; the session counts them.\<close>

definition callInv :: "string \<Rightarrow> world \<Rightarrow> bool" where
  "callInv sid w \<longleftrightarrow>
     (case sessions w sid of
        None \<Rightarrow> callRows sid w = []
      | Some s \<Rightarrow> map idempotencyKey (callRows sid w) = map (\<lambda>m. minuteKey sid m ''-coins'') [1..minsCharged s]
          \<and> sum_list (map amount (callRows sid w)) = coinsDeducted s
          \<and> 0 \<le> minsCharged s \<and> (session_status s = ''RINGING'' \<longrightarrow> minsCharged s = 0))"

definition liveInv :: "world \<Rightarrow> bool" where
  "liveInv w \<longleftrightarrow> Ledger.wf w \<and> commissionInv w
     \<and> 0 \<le> giftReceiveBp (shares w) \<and> giftReceiveBp (shares w) \<le> 10000
     \<and> 0 \<le> luckyHostShareBp (shares w) \<and> luckyHostShareBp (shares w) \<le> 10000 \<and> (\<forall>sid. callInv sid w)"

section \<open>Each operation, inverted\<close>

lemma giftKey_plain: "GiftSendSchema inp \<Longrightarrow> \<not> isCommissionKey (gi_idemBase inp @ ''-point'')"
proof -
  assume "GiftSendSchema inp"
  then have "take 1 (gi_idemBase inp) = ''g''"
    unfolding GiftSendSchema_def startsWith_def by (cases "gi_idemBase inp") auto
  then show ?thesis by (cases "gi_idemBase inp") (auto simp: isCommissionKey_def)
qed

definition giftPoints :: "int \<Rightarrow> world \<Rightarrow> int" where
  "giftPoints cost w = hostPointsFromGift cost (giftReceiveBp (shares w))"

lemma giftSend_cases:
  assumes "giftSend inp w = Inr (r, w')"
  shows "(gr_replayed r \<and> w' = w)
    \<or> (\<not> gr_replayed r \<and> (\<exists>g bc bp wealth ag w1. let cost = gift_coinCost g * gi_quantity inp in
         loadSendableGift (gi_giftId inp) False w = Inr g
         \<and> giftSendTx inp g cost (giftPoints cost w) w = Inr ((bc, bp, wealth, ag), w1)
         \<and> gr_coinCost r = cost \<and> gr_pointsAwarded r = giftPoints cost w
         \<and> gr_balanceAfterCoins r = bc \<and> gr_balanceAfterPoints r = bp
         \<and> w' = afterCommit (Some (gi_senderId inp, bc)) (Some (gi_receiverId inp, bp))
                (Some (gi_senderId inp)) (Some (gi_receiverId inp)) ag w1))"
proof -
  obtain g where g: "loadSendableGift (gi_giftId inp) False w = Inr g"
    using assms by (auto simp: giftSend_def andThen_Inr_iff)
  let ?c = "gift_coinCost g * gi_quantity inp"
  show ?thesis
  proof (cases "giftSendTx inp g ?c (giftPoints ?c w) w")
    case (Inl err)
    then have "gr_replayed r \<and> w' = w"
      using assms g
      by (auto simp: giftSend_def andThen_Inr_iff Let_def giftPoints_def replayOrDuplicate_def split: if_splits option.splits)
    then show ?thesis ..
  next
    case (Inr x)
    obtain bc bp wealth ag w1 where x: "x = ((bc, bp, wealth, ag), w1)" by (metis prod.exhaust)
    have "\<not> gr_replayed r \<and> gr_coinCost r = ?c \<and> gr_pointsAwarded r = giftPoints ?c w
         \<and> gr_balanceAfterCoins r = bc \<and> gr_balanceAfterPoints r = bp
         \<and> w' = afterCommit (Some (gi_senderId inp, bc)) (Some (gi_receiverId inp, bp))
                (Some (gi_senderId inp)) (Some (gi_receiverId inp)) ag w1"
      using assms g Inr x by (auto simp: giftSend_def andThen_Inr_iff Let_def giftPoints_def)
    then show ?thesis using g Inr x unfolding Let_def by blast
  qed
qed

lemma callAcceptReplay_same: "callAcceptReplay rq sid w = Inr (r, w') \<Longrightarrow> w' = w \<and> ar_replayed r"
  by (auto simp: callAcceptReplay_def andThen_Inr_iff split: option.splits if_splits)

lemma callAccept_cases:
  assumes "callAccept rq sid recv w = Inr (r, w')"
  shows "(ar_replayed r \<and> w' = w)
    \<or> (\<not> ar_replayed r \<and> (\<exists>s b w1 s'. sessions w sid = Some s \<and> session_creator s = recv \<and> session_status s = ''RINGING''
         \<and> billMinute sid s 1 rq (snd (lockSession sid w)) = Inr (b, w1)
         \<and> s' = s\<lparr>session_status := ''ACTIVE'', startedAt := clock w1, minsCharged := 1,
                  coinsDeducted := mb_coinRate b, pointsAwarded := mb_pointRate b\<rparr>
         \<and> ar_session r = s' \<and> ar_coinRate r = mb_coinRate b
         \<and> w' = afterCommit (Some (session_caller s, mb_balanceAfterCoins b))
                 (Some (session_creator s, mb_balanceAfterPoints b)) (Some (session_caller s))
                 (Some (session_creator s)) (mb_agencyUserId b) (w1\<lparr>sessions := (sessions w1)(sid \<mapsto> s')\<rparr>)))"
proof (cases "callAcceptTx rq sid recv w")
  case (Inl err)
  then show ?thesis using assms callAcceptReplay_same by (auto simp: callAccept_def split: if_splits)
next
  case (Inr x)
  then show ?thesis
    using assms unfolding callAccept_def
    by (auto simp: callAcceptTx_def lockSession_def Let_def andThen_Inr_iff split: option.splits if_splits)
qed

lemma callMinute_cases:
  assumes "callMinute rq sid m w = Inr (r, w')"
  obtains (billed) s where "sessions w sid = Some s" "m \<le> minsCharged s" "r = None" "w' = snd (lockSession sid w)"
  | (bills) s b w1 where "sessions w sid = Some s" "minsCharged s = m - 1" "session_status s = ''ACTIVE''" "r = Some b"
      "billMinute sid s m rq (snd (lockSession sid w)) = Inr (b, w1)"
      "w' = afterCommit (Some (session_caller s, mb_balanceAfterCoins b))
                (Some (session_creator s, mb_balanceAfterPoints b)) (Some (session_caller s))
                (Some (session_creator s)) (mb_agencyUserId b)
             (w1\<lparr>sessions := (sessions w1)(sid \<mapsto> s\<lparr>minsCharged := m, coinsDeducted := coinsDeducted s + mb_coinRate b,
                pointsAwarded := pointsAwarded s + mb_pointRate b\<rparr>)\<rparr>)"
  using assms unfolding callMinute_def
  by (auto simp: callMinuteTx_def lockSession_def Let_def andThen_Inr_iff split: option.splits if_splits)

lemma globalMessage_cases:
  assumes "globalMessage inp w = Inr ((tid, bal, lev, replayed), w')"
  shows "(replayed \<and> w' = w)
    \<or> (\<not> replayed \<and> (\<exists>wealth w1. globalMessageTx inp w = Inr ((bal, wealth), w1)
         \<and> w' = afterCommit (Some (gm_senderId inp, bal)) None (Some (gm_senderId inp)) None None w1))"
proof (cases "globalMessageTx inp w")
  case (Inl err)
  then show ?thesis using assms by (auto simp: globalMessage_def replayOrDuplicate_def split: option.splits if_splits)
next
  case (Inr x)
  then show ?thesis using assms by (auto simp: globalMessage_def split: prod.splits)
qed

section \<open>The invariant\<close>

lemma callInv_same:
  "sessions w' sid = sessions w sid \<Longrightarrow> callRows sid w' = callRows sid w \<Longrightarrow> callInv sid w' = callInv sid w"
  unfolding callInv_def by (simp only:)

lemma callRows_append:
  "coinLedger w' = coinLedger w @ [e] \<Longrightarrow>
     callRows sid w' = callRows sid w @ (if txType e = C_VIDEO_CALL \<and> refId e = Some sid then [e] else [])"
  by (simp add: callRows_def)

lemma callInv_other:
  assumes "coinLedger w' = coinLedger w @ [e]" "txType e \<noteq> C_VIDEO_CALL \<or> refId e \<noteq> Some sid" "sessions w' sid = sessions w sid"
  shows "callInv sid w' = callInv sid w"
  using callRows_append [OF assms(1), of sid] assms(2) by (intro callInv_same assms(3)) auto

lemma callInv_bill:
  assumes "callInv sid w" "sessions w sid = Some s" "coinLedger w' = coinLedger w @ [e]"
    and e: "idempotencyKey e = minuteKey sid (minsCharged s + 1) ''-coins''" "txType e = C_VIDEO_CALL" "refId e = Some sid"
    and s': "sessions w' sid = Some s'" "minsCharged s' = minsCharged s + 1" "coinsDeducted s' = coinsDeducted s + amount e"
      "session_status s' \<noteq> ''RINGING''"
  shows "callInv sid w'"
proof -
  have "0 \<le> minsCharged s" using assms(1,2) by (simp add: callInv_def)
  then have "[1..minsCharged s + 1] = [1..minsCharged s] @ [minsCharged s + 1]" by (simp add: upto_rec2)
  then show ?thesis
    using assms(1,2) callRows_append [OF assms(3), of sid] e s' by (simp add: callInv_def)
qed

lemma liveInv_lockSession: "liveInv w \<Longrightarrow> liveInv (snd (lockSession sid w))"
proof -
  let ?w = "snd (lockSession sid w)"
  have "moved w ?w still" by (rule moved_frame) (simp_all add: lockSession_def)
  moreover have "callInv i ?w = callInv i w" for i by (rule callInv_same) (simp_all add: lockSession_def callRows_def)
  ultimately show "liveInv w \<Longrightarrow> liveInv ?w"
    by (auto simp: liveInv_def commissionInv_def lockSession_def dest: moved_wf)
qed

lemma liveInv_afterCommit: "liveInv w \<Longrightarrow> liveInv (afterCommit c p x y a w)"
proof -
  have "callInv i (afterCommit c p x y a w) = callInv i w" for i
    by (rule callInv_same) (simp_all add: afterCommit_keeps callRows_def)
  then show "liveInv w \<Longrightarrow> liveInv (afterCommit c p x y a w)"
    using moved_wf [OF afterCommit_keeps(1)] by (simp add: liveInv_def afterCommit_keeps)
qed

lemma liveInv_gift:
  assumes inv: "liveInv w" and run: "ledgerGift inp w = Inr (r, w')"
  shows "liveInv w'"
proof -
  have sch: "GiftSendSchema inp" and g0: "giftSend inp w = Inr (r, w')"
    using run by (auto simp: ledgerGift_def split: if_splits)
  have "w' = w \<or> (\<exists>g cost bc bp wealth ag w1 c p x y a. giftSendTx inp g cost (giftPoints cost w) w = Inr ((bc, bp, wealth, ag), w1)
      \<and> w' = afterCommit c p x y a w1)"
    using giftSend_cases [OF g0] unfolding Let_def by blast
  moreover have "liveInv (afterCommit c p x y a w1)"
    if tx: "giftSendTx inp g cost (giftPoints cost w) w = Inr ((bc, bp, wealth, ag), w1)" for g cost bc bp wealth ag w1 c p x y a
  proof (rule liveInv_afterCommit)
    have "0 \<le> giftPoints cost w"
      using inv hostPointsFromGift_bounds(1) by (cases "0 \<le> cost") (auto simp: liveInv_def giftPoints_def hostPointsFromGift_def)
    note p = giftSendTx_posts [OF tx this _ giftKey_plain [OF sch]]
    have ci: "commissionInv w" using inv by (simp add: liveInv_def)
    obtain e where e: "coinLedger w1 = coinLedger w @ [e]" "txType e = C_GIFT_SEND" using p(10) [OF ci] by blast
    have "callInv i w1 = callInv i w" for i by (rule callInv_other [OF e(1)]) (simp_all add: e(2) p(7) [OF ci])
    then show "liveInv w1" using inv p(2,8) [OF ci] moved_wf [OF p(1) [OF ci]] by (simp add: liveInv_def)
  qed
  ultimately show ?thesis using inv by blast
qed

lemma liveInv_bill:
  assumes inv: "liveInv w" and s: "sessions w sid = Some s"
    and bill: "billMinute sid s (minsCharged s + 1) rq (snd (lockSession sid w)) = Inr (b, w1)"
    and s': "minsCharged s' = minsCharged s + 1" "coinsDeducted s' = coinsDeducted s + mb_coinRate b" "session_status s' \<noteq> ''RINGING''"
  shows "liveInv (w1\<lparr>sessions := (sessions w1)(sid \<mapsto> s')\<rparr>)"
proof -
  let ?w0 = "snd (lockSession sid w)" and ?w2 = "w1\<lparr>sessions := (sessions w1)(sid \<mapsto> s')\<rparr>"
  have i0: "liveInv ?w0" by (rule liveInv_lockSession [OF inv])
  then have ci: "commissionInv ?w0" by (simp add: liveInv_def)
  note p = billMinute_posts [OF bill ci]
  obtain e where e: "coinLedger w1 = coinLedger ?w0 @ [e]" "idempotencyKey e = minuteKey sid (minsCharged s + 1) ''-coins''"
    "txType e = C_VIDEO_CALL" "refId e = Some sid" "amount e = mb_coinRate b" using p(9) by blast
  have e2: "coinLedger ?w2 = coinLedger ?w0 @ [e]" using e(1) by simp
  have s0: "sessions ?w0 = sessions w" by (simp add: lockSession_def)
  have ss: "sessions w1 = sessions w" using coreFrame_keeps(8) [OF p(3)] s0 by simp
  have "callInv i ?w2" for i
  proof (cases "i = sid")
    case True
    have "callInv sid ?w0" using i0 by (simp add: liveInv_def)
    then show ?thesis unfolding True
      by (rule callInv_bill [OF _ _ e2 e(2-4), where s' = s']) (simp_all add: s s0 s' e(5))
  next
    case False
    then have "callInv i ?w2 = callInv i ?w0"
      by (intro callInv_other [OF e2]) (simp_all add: e(4) ss s0)
    then show ?thesis using i0 by (simp add: liveInv_def)
  qed
  moreover have "moved w1 ?w2 still" by (rule moved_frame) simp_all
  then have "Ledger.wf ?w2" using moved_wf p(1) i0 by (auto simp: liveInv_def)
  moreover have "commissionInv ?w2" using p(2) by (simp add: commissionInv_def)
  ultimately show ?thesis using i0 coreFrame_keeps(6) [OF p(3)] by (simp add: liveInv_def)
qed

lemma liveInv_accept:
  assumes inv: "liveInv w" and run: "ledgerCallAccept rq sid recv w = Inr (r, w')"
  shows "liveInv w'"
proof -
  have g0: "callAccept rq sid recv w = Inr (r, w')" using run by (auto simp: ledgerCallAccept_def split: if_splits)
  from callAccept_cases [OF g0] show ?thesis
  proof
    assume "ar_replayed r \<and> w' = w" then show ?thesis using inv by simp
  next
    assume "\<not> ar_replayed r \<and> (\<exists>s b w1 s'. sessions w sid = Some s \<and> session_creator s = recv \<and> session_status s = ''RINGING''
         \<and> billMinute sid s 1 rq (snd (lockSession sid w)) = Inr (b, w1)
         \<and> s' = s\<lparr>session_status := ''ACTIVE'', startedAt := clock w1, minsCharged := 1,
                  coinsDeducted := mb_coinRate b, pointsAwarded := mb_pointRate b\<rparr>
         \<and> ar_session r = s' \<and> ar_coinRate r = mb_coinRate b
         \<and> w' = afterCommit (Some (session_caller s, mb_balanceAfterCoins b))
                 (Some (session_creator s, mb_balanceAfterPoints b)) (Some (session_caller s))
                 (Some (session_creator s)) (mb_agencyUserId b) (w1\<lparr>sessions := (sessions w1)(sid \<mapsto> s')\<rparr>))"
    then obtain s b w1 s' where s: "sessions w sid = Some s" "session_status s = ''RINGING''"
      and bill: "billMinute sid s 1 rq (snd (lockSession sid w)) = Inr (b, w1)"
      and s': "s' = s\<lparr>session_status := ''ACTIVE'', startedAt := clock w1, minsCharged := 1,
                  coinsDeducted := mb_coinRate b, pointsAwarded := mb_pointRate b\<rparr>"
      and w': "\<exists>c p x y a. w' = afterCommit c p x y a (w1\<lparr>sessions := (sessions w1)(sid \<mapsto> s')\<rparr>)"
      by blast
    have z: "minsCharged s = 0" "coinsDeducted s = 0"
      using inv s by (auto simp: liveInv_def callInv_def dest!: spec [of _ sid])
    have "liveInv (w1\<lparr>sessions := (sessions w1)(sid \<mapsto> s')\<rparr>)"
      by (rule liveInv_bill [OF inv s(1), of rq b]) (simp_all add: bill z s')
    then show ?thesis using w' liveInv_afterCommit by blast
  qed
qed

lemma liveInv_minute:
  assumes inv: "liveInv w" and run: "ledgerCallMinute rq sid m w = Inr (r, w')"
  shows "liveInv w'"
proof -
  have "callMinute rq sid m w = Inr (r, w')" using run by (auto simp: ledgerCallMinute_def split: if_splits)
  then show ?thesis
  proof (cases rule: callMinute_cases)
    case (billed s)
    then show ?thesis using liveInv_lockSession [OF inv] by simp
  next
    case (bills s b w1)
    have "liveInv (w1\<lparr>sessions := (sessions w1)(sid \<mapsto> s\<lparr>minsCharged := m, coinsDeducted := coinsDeducted s + mb_coinRate b,
                pointsAwarded := pointsAwarded s + mb_pointRate b\<rparr>)\<rparr>)"
      by (rule liveInv_bill [OF inv bills(1), of rq b]) (use bills in simp_all)
    then show ?thesis unfolding bills(6) by (rule liveInv_afterCommit)
  qed
qed

lemma luckyKey_plain: "LuckyGiftSchema inp \<Longrightarrow> \<not> isCommissionKey (hostKey inp)"
proof -
  assume "LuckyGiftSchema inp"
  then have "take 1 (lg_txKeyBase inp) = ''l''"
    unfolding LuckyGiftSchema_def startsWith_def by (cases "lg_txKeyBase inp") auto
  then show ?thesis by (cases "lg_txKeyBase inp") (auto simp: isCommissionKey_def hostKey_def)
qed

lemma luckyHostPoints_bounds:
  assumes "liveInv w" "0 \<le> cost"
  shows "0 \<le> luckyHostPoints cost w" "luckyHostPoints cost w \<le> cost"
proof -
  have bp: "0 \<le> luckyHostShareBp (shares w)" "luckyHostShareBp (shares w) \<le> 10000" using assms(1) by (simp_all add: liveInv_def)
  have "luckyHostPoints cost w = cost * luckyHostShareBp (shares w) div 10000"
    unfolding luckyHostPoints_def using assms(2) bp(1) by (simp add: bdiv_nonneg)
  then show "0 \<le> luckyHostPoints cost w" "luckyHostPoints cost w \<le> cost"
    using div_bp_le [OF assms(2) bp] assms(2) bp(1) by (simp_all add: pos_imp_zdiv_nonneg_iff)
qed

text \<open>A committed lucky gift, over the transaction that ran.\<close>

lemma lucky_committed:
  assumes inv: "liveInv w" and sch: "LuckyGiftSchema inp" and co: "cacheCoherent w cache"
    and mm: "\<forall>row\<in>set (luckyConfigs w). 0 \<le> lc_mMax row"
    and cost: "cost = luckyCost inp g" and pts: "pts = luckyHostPoints cost w"
    and res: "res = fst (resolveEngine w (gift_coinCost g) (lg_supportsServerDraw inp) cache)"
    and tx: "luckyGiftTx sha rolls slot inp g res cost pts w = Inr ((st, wealth), w1)"
  shows "0 < gift_coinCost g" "0 < cost" "0 \<le> pts" "pts \<le> cost" "\<forall>c. waterConfig res = Some c \<longrightarrow> 0 \<le> cfg_mMax c"
    "liveInv w1" "adminTables w w1"
proof -
  show pos: "0 < cost" by (rule luckyGiftTx_pos [OF tx])
  have n: "1 \<le> lg_count inp" using sch by (simp add: LuckyGiftSchema_def)
  show price: "0 < gift_coinCost g" using pos n by (auto simp: cost luckyCost_def zero_less_mult_iff)
  show p: "0 \<le> pts" "pts \<le> cost" using luckyHostPoints_bounds [OF inv, of cost] pos pts by simp_all
  show m: "\<forall>c. waterConfig res = Some c \<longrightarrow> 0 \<le> cfg_mMax c"
  proof (intro allI impI)
    fix c assume "waterConfig res = Some c"
    from waterConfig_row [OF co this [unfolded res]] obtain row where "row \<in> set (luckyConfigs w)" "c = rowToImmutable row" by blast
    then show "0 \<le> cfg_mMax c" using mm by (simp add: rowToImmutable_def)
  qed
  have wf: "Ledger.wf w" and ci: "commissionInv w" using inv by (simp_all add: liveInv_def)
  note e = luckyGiftTx_effect [OF tx _ m p(1) wf ci luckyKey_plain [OF sch] refl]
  have f: "luckyFrame w w1" "commissionInv w1" and mv: "moved w w1 (\<lambda>a. moving (lg_senderId inp, COIN) (- cost) a
      + luckyMove inp pts (ls_rewardCoins st) (luckyCommission inp pts (er_engine res) w) w a)"
    using e(1-3) price by simp_all
  show "adminTables w w1" by (rule luckyFrame_admin [OF f(1)])
  obtain c rs where led: "coinLedger w1 = coinLedger w @ c # rs" "\<forall>r\<in>set (c # rs). txType r \<noteq> C_VIDEO_CALL"
    using e(6) price by auto
  have "callInv i w1 = callInv i w" for i
  proof (rule callInv_same)
    show "sessions w1 i = sessions w i" using luckyFrame_keeps(8) [OF f(1)] by simp
    show "callRows i w1 = callRows i w" using led by (auto simp: callRows_def filter_empty_conv)
  qed
  then show "liveInv w1" using inv moved_wf [OF mv wf] f(2) luckyFrame_keeps(6) [OF f(1)] by (simp add: liveInv_def)
qed

lemma liveInv_lucky:
  assumes inv: "liveInv w" and run: "fst (ledgerLuckyGift sha rolls slot inp cache w) = Inr (r, w')"
    and co: "cacheCoherent w cache" and mm: "\<forall>row\<in>set (luckyConfigs w). 0 \<le> lc_mMax row"
  shows "liveInv w'"
proof -
  have sch: "LuckyGiftSchema inp" and run': "fst (luckyGiftSend sha rolls slot inp cache w) = Inr (r, w')"
    using run by (auto simp: ledgerLuckyGift_def split: if_splits)
  from luckyGiftSend_cases [OF run'] consider "w' = w"
    | g res cost pts st wealth w1 where "cost = luckyCost inp g" "pts = luckyHostPoints cost w"
        "res = fst (resolveEngine w (gift_coinCost g) (lg_supportsServerDraw inp) cache)"
        "luckyGiftTx sha rolls slot inp g res cost pts w = Inr ((st, wealth), w1)"
        "luckyCommit sha rolls slot inp g res cost pts w = Inr (r, w')" by blast
  then show ?thesis
  proof cases
    case 2
    have "liveInv w1" by (rule lucky_committed(6) [OF inv sch co mm 2(1-4)])
    then show ?thesis using luckyCommit_ok(1) [OF 2(4,5)] liveInv_afterCommit by blast
  qed (simp add: inv)
qed

lemma liveInv_message:
  assumes inv: "liveInv w" and run: "ledgerGlobalMessage inp w = Inr (r, w')"
  shows "liveInv w'"
proof -
  obtain tid bal lev rep where r: "r = (tid, bal, lev, rep)" by (metis prod.exhaust)
  have "globalMessage inp w = Inr ((tid, bal, lev, rep), w')"
    using run by (auto simp: ledgerGlobalMessage_def r split: if_splits)
  from globalMessage_cases [OF this] consider "w' = w"
    | wealth w1 where "globalMessageTx inp w = Inr ((bal, wealth), w1)"
       "w' = afterCommit (Some (gm_senderId inp, bal)) None (Some (gm_senderId inp)) None None w1" by blast
  then show ?thesis
  proof cases
    case 1 then show ?thesis using inv by simp
  next
    case 2
    note p = globalMessageTx_posts [OF 2(1)]
    obtain e where e: "coinLedger w1 = coinLedger w @ [e]" "txType e = C_GLOBAL_MESSAGE" using p(6) by blast
    have "callInv i w1 = callInv i w" for i
      by (rule callInv_other [OF e(1)]) (simp_all add: e(2) coreFrame_keeps(8) [OF p(2)])
    moreover have "commissionInv w1"
      using inv p(3,4) coreFrame_keeps(10) [OF p(2)]
      by (auto simp: liveInv_def commissionInv_def intro: order.strict_trans2)
    ultimately have "liveInv w1"
      using inv moved_wf [OF p(1)] coreFrame_keeps(6) [OF p(2)] by (simp add: liveInv_def)
    then show ?thesis unfolding 2(2) by (rule liveInv_afterCommit)
  qed
qed

lemma liveInv_sessions:
  assumes inv: "liveInv w" and new: "callInv sid (w\<lparr>sessions := (sessions w)(sid \<mapsto> s)\<rparr>)"
  shows "liveInv (w\<lparr>sessions := (sessions w)(sid \<mapsto> s)\<rparr>)"
proof -
  let ?w = "w\<lparr>sessions := (sessions w)(sid \<mapsto> s)\<rparr>"
  have "callInv i ?w" for i
  proof (cases "i = sid")
    case False
    then have "callInv i ?w = callInv i w" by (intro callInv_same) (simp_all add: callRows_def)
    then show ?thesis using inv by (simp add: liveInv_def)
  qed (simp add: new)
  moreover have "moved w ?w still" by (rule moved_frame) simp_all
  ultimately show ?thesis using inv moved_wf by (auto simp: liveInv_def commissionInv_def)
qed

lemma liveInv_ending:
  assumes inv: "liveInv w" and st: "st \<noteq> ''RINGING''" and run: "endSession sid st reason w = Inr (s', w')"
  shows "liveInv w'"
proof -
  obtain s where s: "sessions w sid = Some s"
    and w': "w' = w\<lparr>sessions := (sessions w)(sid \<mapsto> s\<lparr>session_status := st, endedAt := Some (clock w), endReason := reason\<rparr>)\<rparr>"
    using run by (auto simp: endSession_def Let_def split: option.splits)
  have "callInv sid w" using inv by (simp add: liveInv_def)
  then show ?thesis unfolding w' using st s by (intro liveInv_sessions [OF inv]) (simp add: callInv_def callRows_def)
qed

lemma wf_tick: "Ledger.wf w \<Longrightarrow> clock w \<le> t \<Longrightarrow> Ledger.wf (w\<lparr>clock := t\<rparr>)"
  by (auto simp: Ledger.wf_def ledgerInv_def)

lemma liveInv_ring:
  assumes inv: "liveInv w" and s: "sessions w sid = None" "minsCharged s = 0" "coinsDeducted s = 0"
  shows "liveInv (w\<lparr>sessions := (sessions w)(sid \<mapsto> s)\<rparr>)"
proof (rule liveInv_sessions [OF inv])
  have "callRows sid w = []" using inv s(1) by (auto simp: liveInv_def callInv_def dest!: spec [of _ sid])
  then show "callInv sid (w\<lparr>sessions := (sessions w)(sid \<mapsto> s)\<rparr>)"
    using s by (simp add: callInv_def callRows_def)
qed

lemma liveInv_tick:
  assumes inv: "liveInv w" and t: "clock w \<le> t"
  shows "liveInv (w\<lparr>clock := t\<rparr>)"
proof -
  have "callInv i (w\<lparr>clock := t\<rparr>) = callInv i w" for i by (rule callInv_same) (simp_all add: callRows_def)
  then show ?thesis using inv wf_tick [OF _ t] by (simp add: liveInv_def commissionInv_def)
qed

lemma liveInv_step:
  assumes "live_step w w'" "liveInv w"
  shows "liveInv w'"
  using assms(1)
proof (cases rule: live_step.cases)
  case (gift inp r) then show ?thesis using liveInv_gift [OF assms(2)] by simp
next
  case (lucky sha rolls slot linp cache lr) then show ?thesis using liveInv_lucky [OF assms(2)] by simp
next
  case (accept rq sid recv r) then show ?thesis using liveInv_accept [OF assms(2)] by simp
next
  case (minute rq sid m r) then show ?thesis using liveInv_minute [OF assms(2)] by simp
next
  case (message inp r) then show ?thesis using liveInv_message [OF assms(2)] by simp
next
  case (ending st sid reason s)
  then have "st \<noteq> ''RINGING''" by auto
  then show ?thesis using liveInv_ending [OF assms(2)] ending(2) by simp
next
  case (ring sid s) then show ?thesis using liveInv_ring [OF assms(2)] by simp
next
  case (tick t) then show ?thesis using liveInv_tick [OF assms(2)] by simp
qed

lemma liveInv_steps: "live_step\<^sup>*\<^sup>* w w' \<Longrightarrow> liveInv w \<Longrightarrow> liveInv w'"
  by (induction rule: rtranclp_induct) (auto intro: liveInv_step)

text \<open>No request of the live server writes the rates, the shares or the configuration of the tiers.\<close>

lemma lockSession_admin: "adminTables w (snd (lockSession sid w))"
  by (simp add: lockSession_def adminTables_def)

lemma sessions_admin: "adminTables w (w\<lparr>sessions := s\<rparr>)"
  by (simp add: adminTables_def)

lemma gift_admin:
  assumes inv: "liveInv w" and run: "ledgerGift inp w = Inr (r, w')"
  shows "adminTables w w'"
proof -
  have sch: "GiftSendSchema inp" and g0: "giftSend inp w = Inr (r, w')"
    using run by (auto simp: ledgerGift_def split: if_splits)
  have ci: "commissionInv w" using inv by (simp add: liveInv_def)
  have pts: "0 \<le> giftPoints cost w" for cost
    using inv hostPointsFromGift_bounds(1) by (cases "0 \<le> cost") (auto simp: liveInv_def giftPoints_def hostPointsFromGift_def)
  from giftSend_cases [OF g0] show ?thesis
    using giftSendTx_posts(13) [OF _ pts ci giftKey_plain [OF sch]] adminTables_trans [OF _ afterCommit_keeps(13)]
    unfolding Let_def by fastforce
qed

lemma bill_admin:
  assumes inv: "liveInv w" and bill: "billMinute sid s m rq (snd (lockSession sid w)) = Inr (b, w1)"
  shows "adminTables w (afterCommit c p x y a (w1\<lparr>sessions := ss\<rparr>))"
proof -
  have ci: "commissionInv (snd (lockSession sid w))" using liveInv_lockSession [OF inv] by (simp add: liveInv_def)
  have "adminTables w w1"
    using adminTables_trans [OF lockSession_admin coreFrame_admin [OF billMinute_posts(3) [OF bill ci]]] .
  from adminTables_trans [OF adminTables_trans [OF this sessions_admin] afterCommit_keeps(13)] show ?thesis .
qed

lemma lucky_admin:
  assumes inv: "liveInv w" and run: "fst (ledgerLuckyGift sha rolls slot inp cache w) = Inr (r, w')"
    and co: "cacheCoherent w cache" and mm: "\<forall>row\<in>set (luckyConfigs w). 0 \<le> lc_mMax row"
  shows "adminTables w w'"
proof -
  have sch: "LuckyGiftSchema inp" and run': "fst (luckyGiftSend sha rolls slot inp cache w) = Inr (r, w')"
    using run by (auto simp: ledgerLuckyGift_def split: if_splits)
  from luckyGiftSend_cases [OF run'] consider "w' = w"
    | g res cost pts st wealth w1 where "cost = luckyCost inp g" "pts = luckyHostPoints cost w"
        "res = fst (resolveEngine w (gift_coinCost g) (lg_supportsServerDraw inp) cache)"
        "luckyGiftTx sha rolls slot inp g res cost pts w = Inr ((st, wealth), w1)"
        "luckyCommit sha rolls slot inp g res cost pts w = Inr (r, w')" by blast
  then show ?thesis
  proof cases
    case 2
    have "adminTables w w1" by (rule lucky_committed(7) [OF inv sch co mm 2(1-4)])
    then show ?thesis using luckyCommit_ok(1) [OF 2(4,5)] adminTables_trans [OF _ afterCommit_keeps(13)] by blast
  qed simp
qed

lemma message_admin:
  assumes "ledgerGlobalMessage inp w = Inr (r, w')"
  shows "adminTables w w'"
proof -
  obtain tid bal lev rep where r: "r = (tid, bal, lev, rep)" by (metis prod.exhaust)
  have "globalMessage inp w = Inr ((tid, bal, lev, rep), w')"
    using assms by (auto simp: ledgerGlobalMessage_def r split: if_splits)
  from globalMessage_cases [OF this] show ?thesis
    using coreFrame_admin [OF globalMessageTx_posts(2)] adminTables_trans [OF _ afterCommit_keeps(13)] by fastforce
qed

lemma live_step_admin:
  assumes "live_step w w'" "liveInv w"
  shows "adminTables w w'"
  using assms(1)
proof (cases rule: live_step.cases)
  case (gift inp r) then show ?thesis using gift_admin [OF assms(2)] by simp
next
  case (lucky sha rolls slot linp cache lr) then show ?thesis using lucky_admin [OF assms(2)] by simp
next
  case (accept rq sid recv r)
  then have "callAccept rq sid recv w = Inr (r, w')" by (auto simp: ledgerCallAccept_def split: if_splits)
  from callAccept_cases [OF this] show ?thesis using bill_admin [OF assms(2)] by fastforce
next
  case (minute rq sid m r)
  then have "callMinute rq sid m w = Inr (r, w')" by (auto simp: ledgerCallMinute_def split: if_splits)
  then show ?thesis by (cases rule: callMinute_cases) (use lockSession_admin bill_admin [OF assms(2)] in simp_all)
next
  case (message inp r) then show ?thesis using message_admin by simp
next
  case (ending st sid reason s)
  then show ?thesis using sessions_admin by (auto simp: endSession_def Let_def split: option.splits)
next
  case (ring sid s) then show ?thesis using sessions_admin by simp
next
  case (tick t) then show ?thesis by (simp add: adminTables_def)
qed

section \<open>Properties\<close>

definition keysUsed :: "gift_input \<Rightarrow> world \<Rightarrow> bool" where
  "keysUsed inp w \<longleftrightarrow> findByIdempotencyKey (coinLedger w) (gi_idemBase inp @ ''-coin'') \<noteq> None
     \<or> findByIdempotencyKey (pointLedger w) (gi_idemBase inp @ ''-point'') \<noteq> None
     \<or> gi_giftTransactionId inp \<in> set (map gt_id (giftTransactions w))"

lemma giftSend_fails:
  assumes inv: "liveInv w" and sch: "GiftSendSchema inp" and chk: "giftSendChecks inp w = Inr ()"
    and g: "loadSendableGift (gi_giftId inp) False w = Inr g" and free: "assertCoinDebitAllowed (gi_senderId inp) COIN w = Inr ()"
    and price: "0 < gift_coinCost g" and cost: "cost = gift_coinCost g * gi_quantity inp"
    and tx: "giftSendTx inp g cost (giftPoints cost w) w = Inl err"
  shows "(balanceOf w (gi_senderId inp, COIN) < cost \<and> giftSend inp w = Inl (insufficientCoins cost (balanceOf w (gi_senderId inp, COIN))))
    \<or> (cost \<le> balanceOf w (gi_senderId inp, COIN)
        \<and> (\<not> commissionConfigured (gi_receiverId inp) w \<and> giftSend inp w = Inl (AppError 500 ''CONFIG_ERROR'' [])
           \<or> keysUsed inp w \<and> (giftSend inp w = Inl duplicate \<or> (\<exists>r. giftSend inp w = Inr (r, w) \<and> gr_replayed r))))"
proof -
  have q: "1 \<le> gi_quantity inp" using sch by (simp add: GiftSendSchema_def)
  then have pos: "0 < cost" using price cost by simp
  have wf: "Ledger.wf w" and ci: "commissionInv w" using inv by (simp_all add: liveInv_def)
  have run: "giftSend inp w = (if err \<noteq> UniqueViolation then Inl err
      else replayOrDuplicate (gi_idemBase inp @ ''-coin'') (gi_requestId inp) (\<lambda>row.
           \<lparr> gr_transactionId = (case refId row of None \<Rightarrow> gi_giftTransactionId inp | Some r \<Rightarrow> r),
             gr_coinCost = cost, gr_pointsAwarded = giftPoints cost w, gr_balanceAfterCoins = balanceAfter row,
             gr_balanceAfterPoints = (case pointBalanceAfterKey (gi_idemBase inp @ ''-point'') w of
                None \<Rightarrow> 0 | Some b \<Rightarrow> b),
             gr_wealth = currentLevelOf (gi_senderId inp) WEALTH w, gr_agencyUserId = None,
             gr_replayed = True \<rparr>) w)"
    using tx by (simp add: giftSend_def chk g Let_def cost giftPoints_def)
  have rep: "replayOrDuplicate k q f w = Inl duplicate \<or> (\<exists>row. replayOrDuplicate k q f w = Inr (f row, w))" for k q and f :: "_ \<Rightarrow> gift_result"
    by (auto simp: replayOrDuplicate_def split: option.split)
  have ne: "insufficientCoins cost b \<noteq> UniqueViolation" "AppError 500 ''CONFIG_ERROR'' [] \<noteq> UniqueViolation" for b
    by (simp_all add: insufficientCoins_def)
  from giftSendTx_fails [OF tx free wf ci pos giftKey_plain [OF sch]] show ?thesis
  proof (elim disjE conjE)
    assume "balanceOf w (gi_senderId inp, COIN) < cost" "err = insufficientCoins cost (balanceOf w (gi_senderId inp, COIN))"
    then show ?thesis using run ne by simp
  next
    assume "cost \<le> balanceOf w (gi_senderId inp, COIN)" "err = AppError 500 ''CONFIG_ERROR'' []"
      "\<not> commissionConfigured (gi_receiverId inp) w"
    then show ?thesis using run ne by simp
  next
    let ?f = "\<lambda>row. \<lparr> gr_transactionId = (case refId row of None \<Rightarrow> gi_giftTransactionId inp | Some r \<Rightarrow> r),
             gr_coinCost = cost, gr_pointsAwarded = giftPoints cost w, gr_balanceAfterCoins = balanceAfter row,
             gr_balanceAfterPoints = (case pointBalanceAfterKey (gi_idemBase inp @ ''-point'') w of
                None \<Rightarrow> 0 | Some b \<Rightarrow> b),
             gr_wealth = currentLevelOf (gi_senderId inp) WEALTH w, gr_agencyUserId = None,
             gr_replayed = True \<rparr>"
    assume "cost \<le> balanceOf w (gi_senderId inp, COIN)" and u: "err = UniqueViolation"
    moreover have "giftSend inp w = Inl duplicate \<or> (\<exists>r. giftSend inp w = Inr (r, w) \<and> gr_replayed r)"
      using rep [of "gi_idemBase inp @ ''-coin''" "gi_requestId inp" ?f] run u by auto
    ultimately show "findByIdempotencyKey (coinLedger w) (gi_idemBase inp @ ''-coin'') \<noteq> None \<Longrightarrow> ?thesis"
      "findByIdempotencyKey (pointLedger w) (gi_idemBase inp @ ''-point'') \<noteq> None \<Longrightarrow> ?thesis"
      "gi_giftTransactionId inp \<in> set (map gt_id (giftTransactions w)) \<Longrightarrow> ?thesis"
      by (auto simp only: keysUsed_def)
  qed
qed

text \<open>
  C1. A gift request that passes the schema and the checks, from a sender whose coins are not frozen,
  has exactly these outcomes. The sender cannot pay: 402 with the cost and the balance, nothing
  changed. Otherwise it commits, unless a key or the transaction id is already used (then it is a
  duplicate, or a replay that changes nothing) or the agency's commission level has no configuration.
  A commit takes the price times the quantity from the sender's coins, gives the host share (at most
  the cost) to the receiver's points and the due commission to the receiver's agency, touches no
  other account, records the gift, keeps the invariant, and leaves the sender's cached balance equal
  to the ledger's.
\<close>

theorem gift_outcome:
  assumes inv: "liveInv w" and sch: "GiftSendSchema inp" and chk: "giftSendChecks inp w = Inr ()"
    and g: "loadSendableGift (gi_giftId inp) False w = Inr g" and free: "assertCoinDebitAllowed (gi_senderId inp) COIN w = Inr ()"
    and price: "0 < gift_coinCost g" and cost: "cost = gift_coinCost g * gi_quantity inp"
    and bal: "bal = balanceOf w (gi_senderId inp, COIN)"
  shows "case ledgerGift inp w of
      Inl err \<Rightarrow> bal < cost \<and> err = insufficientCoins cost bal
        \<or> cost \<le> bal \<and> (err = AppError 500 ''CONFIG_ERROR'' [] \<and> \<not> commissionConfigured (gi_receiverId inp) w
             \<or> keysUsed inp w \<and> err = duplicate)
    | Inr (r, w') \<Rightarrow> cost \<le> bal \<and> liveInv w'
        \<and> (if gr_replayed r then keysUsed inp w \<and> w' = w
           else gr_coinCost r = cost \<and> 0 \<le> gr_pointsAwarded r \<and> gr_pointsAwarded r \<le> cost
             \<and> gr_balanceAfterCoins r = bal - cost
             \<and> (\<forall>a. balanceOf w' a = balanceOf w a + giftMove inp cost (gr_pointsAwarded r) w a)
             \<and> (\<exists>row. giftTransactions w' = giftTransactions w @ [row] \<and> gt_id row = gi_giftTransactionId inp)
             \<and> (redisUp w \<longrightarrow> coinCache w' (gi_senderId inp) = Some (balanceOf w' (gi_senderId inp, COIN))))"
proof -
  have route: "ledgerGift inp w = giftSend inp w" using sch by (simp add: ledgerGift_def)
  have wf: "Ledger.wf w" and ci: "commissionInv w" and bp: "0 \<le> giftReceiveBp (shares w)" "giftReceiveBp (shares w) \<le> 10000"
    using inv by (simp_all add: liveInv_def)
  have "0 < gi_quantity inp" using sch by (simp add: GiftSendSchema_def)
  then have pos: "0 < cost" using price cost by simp
  have pts: "0 \<le> giftPoints cost w" "giftPoints cost w \<le> cost"
    using hostPointsFromGift_bounds [OF bp, of cost] pos by (simp_all add: giftPoints_def)
  show ?thesis
  proof (cases "giftSendTx inp g cost (giftPoints cost w) w")
    case (Inl err)
    from giftSend_fails [OF inv sch chk g free price cost Inl] show ?thesis
      using inv by (auto simp: route bal)
  next
    case (Inr x)
    obtain bc bpt wealth ag w1 where x: "x = ((bc, bpt, wealth, ag), w1)" by (metis prod.exhaust)
    note p = giftSendTx_posts [OF Inr [unfolded x] pts(1) ci giftKey_plain [OF sch]]
    let ?w' = "afterCommit (Some (gi_senderId inp, bc)) (Some (gi_receiverId inp, bpt))
                (Some (gi_senderId inp)) (Some (gi_receiverId inp)) ag w1"
    obtain r where run: "giftSend inp w = Inr (r, ?w')" and r: "gr_coinCost r = cost" "gr_pointsAwarded r = giftPoints cost w"
      "gr_balanceAfterCoins r = bc" "\<not> gr_replayed r"
      using Inr x by (auto simp: giftSend_def chk g Let_def cost giftPoints_def)
    have mv: "moved w ?w' (giftMove inp cost (giftPoints cost w) w)" by (rule moved_still [OF p(1) afterCommit_keeps(1)])
    have b: "balanceOf ?w' a = balanceOf w a + giftMove inp cost (giftPoints cost w) w a" for a by (rule moved_bal [OF mv wf])
    have bc: "bc = bal - cost" "cost \<le> bal" using p(5) [OF wf] bal by simp_all
    have "liveInv ?w'" using liveInv_gift [OF inv] run route by metis
    moreover have "balanceOf ?w' (gi_senderId inp, COIN) = bc"
      using b [of "(gi_senderId inp, COIN)"] bc(1) bal
      by (simp add: giftMove_def moving_def dueMove_def split: option.split prod.split)
    moreover have "\<exists>row. giftTransactions ?w' = giftTransactions w @ [row] \<and> gt_id row = gi_giftTransactionId inp"
      using p(6) by (simp add: afterCommit_keeps)
    ultimately show ?thesis using b bc pts r p(4) by (simp add: route run afterCommit_keeps(7))
  qed
qed

text \<open>A host with an agency at 8\%, a caller with 10,000 coins, a gift of 3,000 coins and a ringing call.\<close>

definition sampleSession :: session_row where
  "sampleSession = \<lparr> session_caller = 8, session_creator = 7, livekitRoom = ''room'', pricePerMin = 1800,
     session_status = ''RINGING'', minsCharged = 0, coinsDeducted = 0, pointsAwarded = 0, startedAt = 5,
     endedAt = None, endReason = None \<rparr>"

definition sampleLiveWorld :: world where
  "sampleLiveWorld = sampleAgencyWorld\<lparr>
     users := [7 \<mapsto> sampleUser\<lparr>currentAgencyId := Some 9\<rparr>, 8 \<mapsto> sampleUser, 9 \<mapsto> sampleUser],
     wallets := [\<lparr>wallet_id = 0, wallet_user = 8, wallet_currency = COIN, wallet_version = 1, unconfirmedPoints = 0\<rparr>],
     coinLedger := [(newEntry 0 CREDIT C_TOPUP 10000 10000 ''topup'')\<lparr>entry_id := 1, createdAt := 10\<rparr>],
     gifts := [''rose'' \<mapsto> \<lparr>gift_id = ''rose'', gift_name = ''Rose'', gift_coinCost = 3000, gift_isActive = True,
                gift_isLucky = False, gift_category = None\<rparr>],
     sessions := [''call1'' \<mapsto> sampleSession]\<rparr>"

definition sampleGift :: gift_input where
  "sampleGift = \<lparr> gi_requestId = ''req-0001'', gi_context = ''live_stream'', gi_senderId = 8, gi_receiverId = 7,
     gi_giftId = ''rose'', gi_quantity = 2, gi_giftTransactionId = ''tx1'', gi_idemBase = ''gift:tx1'',
     gi_sessionId = None \<rparr>"

lemma sampleLiveWorld_wf: "Ledger.wf sampleLiveWorld"
  by (simp add: Ledger.wf_def sampleLiveWorld_def sampleAgencyWorld_def emptyWorld_def walletsInv_def ledgerInv_def
      newEntry_def coinDelta_def)

lemma sampleLiveWorld_inv: "liveInv sampleLiveWorld"
proof -
  have "callInv sid sampleLiveWorld" for sid
    by (simp add: callInv_def callRows_def sampleLiveWorld_def sampleSession_def newEntry_def)
  moreover have "commissionInv sampleLiveWorld"
    by (simp add: commissionInv_def sampleLiveWorld_def sampleAgencyWorld_def emptyWorld_def)
  moreover have "giftReceiveBp (shares sampleLiveWorld) = 6000" "luckyHostShareBp (shares sampleLiveWorld) = 400"
    by (simp_all add: sampleLiveWorld_def sampleAgencyWorld_def emptyWorld_def DEFAULT_HOST_REVENUE_SHARES_def)
  ultimately show ?thesis using sampleLiveWorld_wf by (simp add: liveInv_def)
qed

lemma sampleLiveWorld_balance:
  "balanceOf sampleLiveWorld (8, COIN) = 10000" "balanceOf sampleLiveWorld (7, POINT) = 0" "balanceOf sampleLiveWorld (9, POINT) = 0"
  by (simp_all add: balanceOf_def findWallet_def walletBalance_def latestCoinBalance_def latestBalance_def
      sampleLiveWorld_def newEntry_def)

lemma sampleLiveWorld_configured: "commissionConfigured 7 sampleLiveWorld"
  by (simp add: commissionConfigured_def agencyOfHost_def sampleLiveWorld_def sampleAgencyWorld_def)

lemma sampleLiveWorld_free: "assertCoinDebitAllowed 8 COIN sampleLiveWorld = Inr ()"
  by (simp add: assertCoinDebitAllowed_def getUserWalletFreezeFlags_def throwIfCoinFrozen_def sampleUser_def sampleLiveWorld_def)

lemma sampleGift_ok:
  "GiftSendSchema sampleGift" "giftSendChecks sampleGift sampleLiveWorld = Inr ()" "\<not> keysUsed sampleGift sampleLiveWorld"
  "loadSendableGift (gi_giftId sampleGift) False sampleLiveWorld = Inr \<lparr>gift_id = ''rose'', gift_name = ''Rose'', gift_coinCost = 3000,
     gift_isActive = True, gift_isLucky = False, gift_category = None\<rparr>"
  "gi_senderId sampleGift = 8" "gi_receiverId sampleGift = 7" "gi_quantity sampleGift = 2"
  by (simp_all add: sampleGift_def GiftSendSchema_def requestIdSchema_def idSchema_def keyBase_def startsWith_def
      giftSendChecks_def keysUsed_def sampleLiveWorld_def sampleAgencyWorld_def emptyWorld_def loadSendableGift_def
      isLuckyGift_def findByIdempotencyKey_def newEntry_def)

lemma sampleGift_due: "commissionDue 7 p P_GIFT_RECEIVE sampleLiveWorld
    = (let c = bdiv (p * 800) 10000 in if 0 < c then Some (9, c) else None)"
  by (simp add: commissionDue_def agencyOfHost_def sampleLiveWorld_def sampleAgencyWorld_def sampleUser_def
      COMMISSION_ELIGIBLE_TX_TYPES_def LIVE_COMMISSION_TX_TYPES_def agencyPaused_def)

theorem gift_outcome_witness:
  "\<exists>r w'. ledgerGift sampleGift sampleLiveWorld = Inr (r, w') \<and> \<not> gr_replayed r \<and> liveInv w'
     \<and> balanceOf w' (8, COIN) = 4000 \<and> gr_coinCost r = 6000"
proof -
  note out = gift_outcome [OF sampleLiveWorld_inv sampleGift_ok(1,2,4) _ _ refl refl, simplified sampleGift_ok
      sampleLiveWorld_balance sampleLiveWorld_configured sampleLiveWorld_free]
  obtain r w' where run: "ledgerGift sampleGift sampleLiveWorld = Inr (r, w')"
    using out by (cases "ledgerGift sampleGift sampleLiveWorld") (auto simp: sampleGift_ok)
  have "\<not> gr_replayed r" "liveInv w'" "gr_coinCost r = 6000"
    and b: "\<forall>a. balanceOf w' a = balanceOf sampleLiveWorld a + giftMove sampleGift 6000 (gr_pointsAwarded r) sampleLiveWorld a"
    using out run by (auto simp: sampleGift_ok simp del: split_paired_All split: if_splits)
  moreover have "balanceOf w' (8, COIN) = 4000"
    using b [rule_format, of "(8, COIN)"]
    by (simp add: sampleLiveWorld_balance giftMove_def sampleGift_ok moving_def dueMove_def split: option.split prod.split)
  ultimately show ?thesis using run by blast
qed

text \<open>A fresh gift that the sender can pay commits.\<close>

lemma gift_commits:
  assumes inv: "liveInv w" and sch: "GiftSendSchema inp" and chk: "giftSendChecks inp w = Inr ()"
    and g: "loadSendableGift (gi_giftId inp) False w = Inr g" and free: "assertCoinDebitAllowed (gi_senderId inp) COIN w = Inr ()"
    and price: "0 < gift_coinCost g" and pay: "gift_coinCost g * gi_quantity inp \<le> balanceOf w (gi_senderId inp, COIN)"
    and fresh: "\<not> keysUsed inp w" "commissionConfigured (gi_receiverId inp) w"
  shows "\<exists>r w'. ledgerGift inp w = Inr (r, w') \<and> \<not> gr_replayed r"
proof (cases "giftSendTx inp g (gift_coinCost g * gi_quantity inp) (giftPoints (gift_coinCost g * gi_quantity inp) w) w")
  case (Inl err)
  from giftSend_fails [OF inv sch chk g free price refl Inl] show ?thesis using pay fresh by auto
next
  case (Inr x)
  then show ?thesis
    using sch by (cases x) (auto simp: ledgerGift_def giftSend_def chk g Let_def giftPoints_def)
qed

text \<open>The row a committed gift leaves under its primary key, and the refusal of its retry.\<close>

lemma giftSendTx_primary:
  assumes "giftSendTx inp g cost points w = Inr (x, w')" "0 \<le> points" "commissionInv w"
    "\<not> isCommissionKey (gi_idemBase inp @ ''-point'')"
  shows "findByIdempotencyKey (coinLedger w') (gi_idemBase inp @ ''-coin'') \<noteq> None"
proof -
  obtain bc bp wealth ag where x: "x = (bc, bp, wealth, ag)" by (metis prod.exhaust)
  obtain e where "coinLedger w' = coinLedger w @ [e]" "idempotencyKey e = gi_idemBase inp @ ''-coin''"
    using giftSendTx_posts(10) [OF assms(1) [unfolded x] assms(2-)] by blast
  then show ?thesis by (auto simp: findByIdempotencyKey_def find_None_iff)
qed

lemma giftSendChecks_cong: "sessions w' = sessions w \<Longrightarrow> giftSendChecks inp w' = giftSendChecks inp w"
  unfolding giftSendChecks_def by (simp only:)

lemma loadSendableGift_cong: "gifts w' = gifts w \<Longrightarrow> loadSendableGift i b w' = loadSendableGift i b w"
  unfolding loadSendableGift_def by (simp only:)

text \<open>
  C24. The header of the service promises that a request whose primary row exists gets its committed
  result back. For gifts it does not: the balance is checked before the insert that would detect the
  row. When a gift has committed and the rest of the sender's balance is below its cost, the same
  request, sent again at once, is refused with 402 although its primary row is in the ledger.
\<close>

theorem gift_retry_refused:
  assumes inv: "liveInv w" and g: "loadSendableGift (gi_giftId inp) False w = Inr g"
    and free: "assertCoinDebitAllowed (gi_senderId inp) COIN w = Inr ()"
    and price: "0 < gift_coinCost g" and cost: "cost = gift_coinCost g * gi_quantity inp"
    and run: "ledgerGift inp w = Inr (r, w')" "\<not> gr_replayed r"
    and short: "balanceOf w (gi_senderId inp, COIN) < 2 * cost"
  shows "findByIdempotencyKey (coinLedger w') (gi_idemBase inp @ ''-coin'') \<noteq> None
    \<and> ledgerGift inp w' = Inl (insufficientCoins cost (balanceOf w (gi_senderId inp, COIN) - cost))"
proof -
  have sch: "GiftSendSchema inp" and gs: "giftSend inp w = Inr (r, w')"
    using run(1) by (auto simp: ledgerGift_def split: if_splits)
  have chk: "giftSendChecks inp w = Inr ()" using gs by (auto simp: giftSend_def andThen_Inr_iff)
  have wf: "Ledger.wf w" and ci: "commissionInv w" and bp: "0 \<le> giftReceiveBp (shares w)" "giftReceiveBp (shares w) \<le> 10000"
    using inv by (simp_all add: liveInv_def)
  have "0 < gi_quantity inp" using sch by (simp add: GiftSendSchema_def)
  then have pos: "0 < cost" using price cost by simp
  have pts: "0 \<le> giftPoints cost w" using hostPointsFromGift_bounds [OF bp, of cost] pos by (simp add: giftPoints_def)
  obtain bc bpt wealth ag w1 where tx: "giftSendTx inp g cost (giftPoints cost w) w = Inr ((bc, bpt, wealth, ag), w1)"
    and w': "\<exists>c p x y a. w' = afterCommit c p x y a w1"
    using giftSend_cases [OF gs] run(2) g cost unfolding Let_def by fastforce
  note p = giftSendTx_posts [OF tx pts ci giftKey_plain [OF sch]]
  have k: "coinLedger w' = coinLedger w1" "sessions w' = sessions w" "gifts w' = gifts w" "users w' = users w"
    "moved w w' (giftMove inp cost (giftPoints cost w) w)"
    using w' p(7,11,12) moved_still [OF p(1) afterCommit_keeps(1)] by (auto simp: afterCommit_keeps)
  have inv': "liveInv w'" by (rule liveInv_gift [OF inv run(1)])
  have bal: "balanceOf w' (gi_senderId inp, COIN) = balanceOf w (gi_senderId inp, COIN) - cost"
    using moved_bal [OF k(5) wf] by (simp add: giftMove_def moving_def dueMove_def split: option.split prod.split)
  then have low: "balanceOf w' (gi_senderId inp, COIN) < cost" using short by simp
  have free': "assertCoinDebitAllowed (gi_senderId inp) COIN w' = Inr ()"
    using free assertCoinDebitAllowed_users [OF k(4)] by simp
  obtain err where tx': "giftSendTx inp g cost (giftPoints cost w') w' = Inl err"
  proof (cases "giftSendTx inp g cost (giftPoints cost w') w'")
    case (Inr x)
    obtain bc bpt wealth ag w2 where x: "x = ((bc, bpt, wealth, ag), w2)" by (metis prod.exhaust)
    have i: "commissionInv w'" "Ledger.wf w'" "0 \<le> giftReceiveBp (shares w')" "giftReceiveBp (shares w') \<le> 10000"
      using inv' by (simp_all add: liveInv_def)
    have "0 \<le> giftPoints cost w'" using hostPointsFromGift_bounds [OF i(3,4), of cost] pos by (simp add: giftPoints_def)
    from giftSendTx_posts(5) [OF Inr [unfolded x] this i(1) giftKey_plain [OF sch] i(2)] low show ?thesis by simp
  qed (use that in blast)
  have "giftSend inp w' = Inl (insufficientCoins cost (balanceOf w' (gi_senderId inp, COIN)))"
    using giftSend_fails [OF inv' sch _ _ free' price cost tx'] low giftSendChecks_cong [OF k(2)] loadSendableGift_cong [OF k(3)] chk g
    by simp
  then show ?thesis
    using giftSendTx_primary [OF tx pts ci giftKey_plain [OF sch]] k(1) bal sch by (simp add: ledgerGift_def)
qed

theorem gift_retry_refused_witness:
  "\<exists>r w'. ledgerGift sampleGift sampleLiveWorld = Inr (r, w') \<and> \<not> gr_replayed r
     \<and> findByIdempotencyKey (coinLedger w') ''gift:tx1-coin'' \<noteq> None
     \<and> ledgerGift sampleGift w' = Inl (insufficientCoins 6000 4000)"
proof -
  have free: "assertCoinDebitAllowed (gi_senderId sampleGift) COIN sampleLiveWorld = Inr ()"
    by (simp add: sampleGift_ok sampleLiveWorld_free)
  obtain r w' where run: "ledgerGift sampleGift sampleLiveWorld = Inr (r, w')" "\<not> gr_replayed r"
    using gift_commits [OF sampleLiveWorld_inv sampleGift_ok(1,2,4) free]
    by (auto simp: sampleGift_ok sampleLiveWorld_balance sampleLiveWorld_configured)
  show ?thesis
    using gift_retry_refused [OF sampleLiveWorld_inv sampleGift_ok(4) free _ refl run] run
    by (auto simp: sampleGift_ok sampleLiveWorld_balance) (auto simp: sampleGift_def)
qed


lemma sampleCall_rate:
  "callerCoinDebitForCall (pricePerMin sampleSession) (videoCallHostShareBp (shares sampleLiveWorld)) = Inr 3000"
  "sessions sampleLiveWorld ''call1'' = Some sampleSession"
  by (simp_all add: callerCoinDebitForCall_def sampleSession_def sampleLiveWorld_def sampleAgencyWorld_def emptyWorld_def
      DEFAULT_HOST_REVENUE_SHARES_def bdiv_def)

text \<open>Everything a bill needs to succeed.\<close>

definition billable :: "string \<Rightarrow> session_row \<Rightarrow> int \<Rightarrow> int \<Rightarrow> world \<Rightarrow> bool" where
  "billable sid s m c w \<longleftrightarrow> assertCoinDebitAllowed (session_caller s) COIN w = Inr ()
     \<and> callerCoinDebitForCall (pricePerMin s) (videoCallHostShareBp (shares w)) = Inr c \<and> 0 < c \<and> 0 < pricePerMin s
     \<and> c \<le> balanceOf w (session_caller s, COIN) \<and> commissionConfigured (session_creator s) w
     \<and> findByIdempotencyKey (coinLedger w) (minuteKey sid m ''-coins'') = None
     \<and> findByIdempotencyKey (pointLedger w) (minuteKey sid m ''-points'') = None"

lemma billable_bills:
  assumes inv: "liveInv w" and b: "billable sid s m c w"
  shows "\<exists>bill w1. billMinute sid s m rq (snd (lockSession sid w)) = Inr (bill, w1)"
proof -
  let ?w = "snd (lockSession sid w)"
  have inv': "liveInv ?w" by (rule liveInv_lockSession [OF inv])
  have "moved w ?w still" by (rule moved_frame) (simp_all add: lockSession_def)
  then have bal: "balanceOf ?w a = balanceOf w a" for a using moved_bal inv by (fastforce simp: liveInv_def)
  have "assertCoinDebitAllowed (session_caller s) COIN ?w = assertCoinDebitAllowed (session_caller s) COIN w"
    by (rule assertCoinDebitAllowed_users) (simp add: lockSession_def)
  moreover have "commissionConfigured (session_creator s) ?w = commissionConfigured (session_creator s) w"
    by (rule commissionConfigured_cong) (simp_all add: lockSession_def)
  moreover have "shares ?w = shares w" "coinLedger ?w = coinLedger w" "pointLedger ?w = pointLedger w"
    by (simp_all add: lockSession_def)
  moreover have "Ledger.wf ?w" "commissionInv ?w" using inv' by (simp_all add: liveInv_def)
  ultimately show ?thesis
    using b billMinute_fails [of sid s m rq ?w _ c] bal
    by (cases "billMinute sid s m rq ?w") (fastforce simp: billable_def)+
qed


lemma accept_bills:
  assumes inv: "liveInv w" and sch: "CallAcceptSchema rq sid" and s: "sessions w sid = Some s" "session_status s = ''RINGING''"
    and b: "billable sid s 1 c w"
  shows "\<exists>r w'. ledgerCallAccept rq sid (session_creator s) w = Inr (r, w') \<and> \<not> ar_replayed r \<and> ar_coinRate r = c \<and> liveInv w'
     \<and> (\<forall>a. balanceOf w' a = balanceOf w a + callMove s c w a)
     \<and> sessions w' = (sessions w)(sid \<mapsto> s\<lparr>session_status := ''ACTIVE'', startedAt := clock w, minsCharged := 1,
          coinsDeducted := c, pointsAwarded := pricePerMin s\<rparr>)"
proof -
  let ?w0 = "snd (lockSession sid w)"
  have wf: "Ledger.wf w" using inv by (simp add: liveInv_def)
  have m0: "moved w ?w0 still" by (rule moved_frame) (simp_all add: lockSession_def)
  have s0: "sessions ?w0 = sessions w" "clock ?w0 = clock w" by (simp_all add: lockSession_def)
  obtain bill w1 where bm: "billMinute sid s 1 rq ?w0 = Inr (bill, w1)" using billable_bills [OF inv b] by blast
  have "commissionInv ?w0" using liveInv_lockSession [OF inv] by (simp add: liveInv_def)
  note p = billMinute_posts [OF bm this]
  have c: "mb_coinRate bill = c" using p(4) b by (simp add: billable_def lockSession_def)
  have clk: "clock w1 = clock w" using coreFrame_keeps(4) [OF p(3)] s0 by simp
  let ?s' = "s\<lparr>session_status := ''ACTIVE'', startedAt := clock w, minsCharged := 1, coinsDeducted := c, pointsAwarded := pricePerMin s\<rparr>"
  let ?w2 = "w1\<lparr>sessions := (sessions w1)(sid \<mapsto> ?s')\<rparr>"
  let ?w' = "afterCommit (Some (session_caller s, mb_balanceAfterCoins bill)) (Some (session_creator s, mb_balanceAfterPoints bill))
       (Some (session_caller s)) (Some (session_creator s)) (mb_agencyUserId bill) ?w2"
  have run: "\<exists>r. callAccept rq sid (session_creator s) w = Inr (r, ?w') \<and> \<not> ar_replayed r \<and> ar_coinRate r = c"
    using bm s c p(6) clk by (simp add: callAccept_def callAcceptTx_def Let_def lockSession_def)
  have route: "ledgerCallAccept rq sid (session_creator s) w = callAccept rq sid (session_creator s) w"
    using sch by (simp add: ledgerCallAccept_def)
  have "moved w1 ?w2 still" by (rule moved_frame) simp_all
  then have mv: "moved w ?w' (callMove s (mb_coinRate bill) ?w0)"
    using still_moved [OF m0 moved_still [OF p(1)]] moved_still afterCommit_keeps(1) by blast
  have "callMove s x ?w0 = callMove s x w" for x
    using commissionDue_cong [of ?w0 w] by (simp add: callMove_def [abs_def] lockSession_def)
  then have "\<forall>a. balanceOf ?w' a = balanceOf w a + callMove s c w a" using moved_bal [OF mv wf] c by simp
  moreover have "liveInv ?w'" using liveInv_accept [OF inv, of rq sid "session_creator s"] run route by metis
  moreover have "sessions ?w' = (sessions w)(sid \<mapsto> ?s')" using coreFrame_keeps(8) [OF p(3)] s0 by (simp add: afterCommit_keeps)
  ultimately show ?thesis using run route by metis
qed

lemma show_one: "show_int 1 = ''1''"
  by code_simp

lemma sampleSession_fields:
  "(session_creator sampleSession \<noteq> 7) = False" "(session_status sampleSession = ''RINGING'') = True"
  by (simp_all add: sampleSession_def)

lemma sampleCall_billable: "billable ''call1'' sampleSession 1 3000 sampleLiveWorld"
  using sampleCall_rate(1) sampleLiveWorld_balance(1) sampleLiveWorld_configured sampleLiveWorld_free
  by (simp add: billable_def sampleSession_def)
    (simp add: sampleLiveWorld_def sampleAgencyWorld_def emptyWorld_def findByIdempotencyKey_def newEntry_def minuteKey_def)

lemma sampleCall_accepted:
  "\<exists>r w'. ledgerCallAccept ''req-0002'' ''call1'' 7 sampleLiveWorld = Inr (r, w') \<and> liveInv w'
     \<and> (\<exists>s. sessions w' ''call1'' = Some s \<and> minsCharged s = 1 \<and> coinsDeducted s = 3000 \<and> session_status s = ''ACTIVE'')"
proof -
  have "CallAcceptSchema ''req-0002'' ''call1''" by (simp add: CallAcceptSchema_def requestIdSchema_def idSchema_def)
  from accept_bills [OF sampleLiveWorld_inv this sampleCall_rate(2) _ sampleCall_billable]
  show ?thesis by (auto simp: sampleSession_def simp del: split_paired_All)
qed


text \<open>
  Accepting a call. For the receiver of a ringing call whose caller can pay, the accept succeeds:
  it bills minute one in the same transaction (coins, points and commission as for every minute) and
  turns the session active with its counters at that minute. An accept by anybody else, or of an
  unknown call, is refused. Repeating the accept of an active call with the same request returns
  without any change; with a different request it is refused.
\<close>

theorem call_accept_outcome:
  assumes inv: "liveInv w" and sch: "CallAcceptSchema rq sid"
  shows "case sessions w sid of
      None \<Rightarrow> ledgerCallAccept rq sid recv w = Inl (AppError 409 ''INVALID_CALL_STATE'' [])
    | Some s \<Rightarrow>
        if session_creator s \<noteq> recv then
          ledgerCallAccept rq sid recv w = Inl (AppError 409 ''INVALID_CALL_STATE'' [])
        else if session_status s = ''RINGING'' then
          (\<forall>c. billable sid s 1 c w \<longrightarrow>
            (\<exists>r w'. ledgerCallAccept rq sid recv w = Inr (r, w') \<and> \<not> ar_replayed r \<and> ar_coinRate r = c \<and> liveInv w'
               \<and> (\<forall>a. balanceOf w' a = balanceOf w a + callMove s c w a)
               \<and> sessions w' = (sessions w)(sid \<mapsto> s\<lparr>session_status := ''ACTIVE'', startedAt := clock w, minsCharged := 1,
                    coinsDeducted := c, pointsAwarded := pricePerMin s\<rparr>)))
        else (\<forall>r w'. ledgerCallAccept rq sid recv w = Inr (r, w') \<longrightarrow> ar_replayed r \<and> ar_session r = s \<and> w' = w
            \<and> (\<exists>row. findByIdempotencyKey (coinLedger w) (minuteKey sid 1 ''-coins'') = Some row
                 \<and> metaRequestId (metadata row) = Some rq))"
proof (cases "sessions w sid")
  case None
  then show ?thesis
    using sch by (simp add: ledgerCallAccept_def callAccept_def callAcceptTx_def lockSession_def replayableError_def)
next
  case (Some s)
  have other: "ledgerCallAccept rq sid recv w = Inl (AppError 409 ''INVALID_CALL_STATE'' [])" if "session_creator s \<noteq> recv"
    using that Some sch by (simp add: ledgerCallAccept_def callAccept_def callAcceptTx_def lockSession_def replayableError_def)
  have again: "ar_replayed r \<and> ar_session r = s \<and> w' = w
      \<and> (\<exists>row. findByIdempotencyKey (coinLedger w) (minuteKey sid 1 ''-coins'') = Some row \<and> metaRequestId (metadata row) = Some rq)"
    if st: "session_creator s = recv" "session_status s \<noteq> ''RINGING''" and run: "ledgerCallAccept rq sid recv w = Inr (r, w')" for r w'
  proof -
    have "callAcceptReplay rq sid w = Inr (r, w')"
      using run Some st sch
      by (simp add: ledgerCallAccept_def callAccept_def callAcceptTx_def lockSession_def replayableError_def)
    then show ?thesis using Some by (auto simp: callAcceptReplay_def andThen_Inr_iff split: option.splits if_splits)
  qed
  show ?thesis
  proof (cases "session_creator s = recv")
    case False
    then show ?thesis unfolding Some option.case using other by simp
  next
    case True
    then have eq: "(session_creator s \<noteq> recv) = False" by simp
    show ?thesis
    proof (cases "session_status s = ''RINGING''")
      case ring: True
      show ?thesis
        unfolding Some option.case eq if_False if_P [OF ring]
        using accept_bills [OF inv sch Some ring] True by (simp only: simp_thms) blast
    next
      case ring: False
      show ?thesis unfolding Some option.case eq if_False if_not_P [OF ring] using again [OF True ring] by blast
    qed
  qed
qed

theorem call_accept_outcome_witness:
  "\<exists>r w' s. ledgerCallAccept ''req-0002'' ''call1'' 7 sampleLiveWorld = Inr (r, w') \<and> \<not> ar_replayed r
     \<and> sessions w' ''call1'' = Some s \<and> session_status s = ''ACTIVE'' \<and> balanceOf w' (8, COIN) = 7000"
proof -
  have "CallAcceptSchema ''req-0002'' ''call1''" by (simp add: CallAcceptSchema_def requestIdSchema_def idSchema_def)
  from call_accept_outcome [OF sampleLiveWorld_inv this, of 7] sampleCall_billable
  obtain r w' where "ledgerCallAccept ''req-0002'' ''call1'' 7 sampleLiveWorld = Inr (r, w')" "\<not> ar_replayed r"
    and b: "\<forall>a. balanceOf w' a = balanceOf sampleLiveWorld a + callMove sampleSession 3000 sampleLiveWorld a"
    and "sessions w' = (sessions sampleLiveWorld)(''call1'' \<mapsto> sampleSession\<lparr>session_status := ''ACTIVE'',
        startedAt := clock sampleLiveWorld, minsCharged := 1, coinsDeducted := 3000, pointsAwarded := pricePerMin sampleSession\<rparr>)"
    unfolding sampleCall_rate option.case by (simp only: sampleSession_fields not_True_eq_False if_False if_True) blast
  moreover have "balanceOf w' (8, COIN) = 7000"
    using b [rule_format, of "(8, COIN)"]
    by (simp add: sampleLiveWorld_balance callMove_def sampleSession_def moving_def dueMove_def split: option.split prod.split)
  ultimately show ?thesis by auto
qed

definition sampleActiveWorld :: world where
  "sampleActiveWorld = sampleLiveWorld\<lparr>
     coinLedger := [(newEntry 0 CREDIT C_TOPUP 10000 10000 ''topup'')\<lparr>entry_id := 1, createdAt := 10\<rparr>,
       (newEntry 0 DEBIT C_VIDEO_CALL 3000 7000 ''call-call1-min-1-coins'')\<lparr>entry_id := 2, createdAt := 20, refId := Some ''call1''\<rparr>],
     sessions := [''call1'' \<mapsto> sampleSession\<lparr>session_status := ''ACTIVE'', minsCharged := 1, coinsDeducted := 3000\<rparr>]\<rparr>"

lemma sampleActiveWorld_inv: "liveInv sampleActiveWorld"
proof -
  have "Ledger.wf sampleActiveWorld"
    by (simp add: Ledger.wf_def sampleActiveWorld_def sampleLiveWorld_def sampleAgencyWorld_def emptyWorld_def walletsInv_def
        ledgerInv_def newEntry_def coinDelta_def)
  moreover have "callInv sid sampleActiveWorld" for sid
    by (simp add: callInv_def callRows_def sampleActiveWorld_def sampleSession_def newEntry_def minuteKey_def show_one)
  moreover have "commissionInv sampleActiveWorld"
    by (simp add: commissionInv_def sampleActiveWorld_def sampleLiveWorld_def sampleAgencyWorld_def emptyWorld_def)
  moreover have "giftReceiveBp (shares sampleActiveWorld) = 6000" "luckyHostShareBp (shares sampleActiveWorld) = 400"
    by (simp_all add: sampleActiveWorld_def sampleLiveWorld_def sampleAgencyWorld_def emptyWorld_def DEFAULT_HOST_REVENUE_SHARES_def)
  ultimately show ?thesis by (simp add: liveInv_def)
qed

lemma sampleActiveWorld_billable:
  "billable ''call1'' (sampleSession\<lparr>session_status := ''ACTIVE'', minsCharged := 1, coinsDeducted := 3000\<rparr>) 2 3000 sampleActiveWorld"
proof -
  have two: "show_int 2 = ''2''" by code_simp
  have "assertCoinDebitAllowed 8 COIN sampleActiveWorld = Inr ()"
    by (simp add: assertCoinDebitAllowed_def getUserWalletFreezeFlags_def throwIfCoinFrozen_def sampleUser_def
        sampleActiveWorld_def sampleLiveWorld_def)
  moreover have "callerCoinDebitForCall 1800 (videoCallHostShareBp (shares sampleActiveWorld)) = Inr 3000"
    by (simp add: callerCoinDebitForCall_def sampleActiveWorld_def sampleLiveWorld_def sampleAgencyWorld_def emptyWorld_def
      DEFAULT_HOST_REVENUE_SHARES_def bdiv_def)
  moreover have "balanceOf sampleActiveWorld (8, COIN) = 7000"
    by (simp add: balanceOf_def findWallet_def walletBalance_def latestCoinBalance_def latestBalance_def sampleActiveWorld_def
      sampleLiveWorld_def newEntry_def)
  moreover have "commissionConfigured 7 sampleActiveWorld"
    by (simp add: commissionConfigured_def agencyOfHost_def sampleActiveWorld_def sampleLiveWorld_def sampleAgencyWorld_def)
  moreover have "findByIdempotencyKey (coinLedger sampleActiveWorld) (minuteKey ''call1'' 2 ''-coins'') = None"
    "findByIdempotencyKey (pointLedger sampleActiveWorld) (minuteKey ''call1'' 2 ''-points'') = None"
    by (simp_all add: sampleActiveWorld_def sampleLiveWorld_def sampleAgencyWorld_def emptyWorld_def findByIdempotencyKey_def
        newEntry_def minuteKey_def two)
  ultimately show ?thesis by (simp add: billable_def sampleSession_def)
qed


text \<open>
  A global message costs its sender exactly 10,000 coins and moves no other account: a sender who
  holds less is refused with 402 and the amounts; otherwise, under a fresh key, the message commits,
  the reported balance is the ledger's, and the points ledger is untouched.
\<close>

theorem global_message_outcome:
  assumes inv: "liveInv w" and sch: "GlobalMessageSchema inp" and free: "assertCoinDebitAllowed (gm_senderId inp) COIN w = Inr ()"
    and fresh: "findByIdempotencyKey (coinLedger w) (gm_idemKey inp) = None"
    and bal: "bal = balanceOf w (gm_senderId inp, COIN)"
  shows "if bal < 10000 then ledgerGlobalMessage inp w = Inl (insufficientCoins 10000 bal)
    else \<exists>lev w'. ledgerGlobalMessage inp w = Inr ((gm_messageTxId inp, bal - 10000, lev, False), w') \<and> liveInv w'
      \<and> (\<forall>a. balanceOf w' a = balanceOf w a + moving (gm_senderId inp, COIN) (- 10000) a) \<and> pointLedger w' = pointLedger w"
proof -
  have wf: "Ledger.wf w" using inv by (simp add: liveInv_def)
  have route: "ledgerGlobalMessage inp w = globalMessage inp w" using sch by (simp add: ledgerGlobalMessage_def)
  obtain pc hp w1 where lk: "lockForOperation (gm_senderId inp) None False w = Inr ((pc, hp), w1)"
    using lockForOperation_total [OF free] by blast
  have b: "latestCoinBalance w1 (wallet_id pc) = bal" using locked_payer_balance(1) [OF lk wf] bal by simp
  show ?thesis
  proof (cases "bal < 10000")
    case True
    then show ?thesis
      by (simp add: route globalMessage_def globalMessageTx_def lk b GLOBAL_MESSAGE_COST_def insufficientCoins_def)
  next
    case False
    let ?d = "(newEntry (wallet_id pc) DEBIT C_GLOBAL_MESSAGE 10000 (bal - 10000) (gm_idemKey inp))
           \<lparr>refId := Some (gm_messageTxId inp),
            description := Some (''Sent global message: \"'' @ take 30 (gm_message inp) @ ''...\"''),
            metadata := Some (JObj [(''requestId'', JStr (gm_requestId inp))])\<rparr>"
    have "\<exists>e w2. coinInsert ?d w1 = Inr (e, w2)"
      using fresh lockForOperation_effect(3) [OF lk] by (simp add: coinInsert_Inr newEntry_def)
    then obtain e w2 where ins: "coinInsert ?d w1 = Inr (e, w2)" by blast
    obtain r w3 where lv: "applyLevel (gm_senderId inp) WEALTH 10000 (bumpVersion (wallet_id pc) w2) = Inr (r, w3)"
      using applyLevel_total by blast
    have tx: "globalMessageTx inp w = Inr ((bal - 10000, r), w3)"
      using False ins lv by (simp add: globalMessageTx_def lk b GLOBAL_MESSAGE_COST_def Let_def)
    let ?w' = "afterCommit (Some (gm_senderId inp, bal - 10000)) None (Some (gm_senderId inp)) None None w3"
    have run: "ledgerGlobalMessage inp w = Inr ((gm_messageTxId inp, bal - 10000, newLevel r, False), ?w')"
      using tx by (simp add: route globalMessage_def)
    note p = globalMessageTx_posts [OF tx]
    have "\<forall>a. balanceOf ?w' a = balanceOf w a + moving (gm_senderId inp, COIN) (- 10000) a"
      using moved_bal [OF moved_still [OF p(1) afterCommit_keeps(1)] wf] by blast
    then show ?thesis using False run liveInv_message [OF inv run] p(3) by (auto simp: afterCommit_keeps simp del: split_paired_All)
  qed
qed

definition sampleMessage :: global_input where
  "sampleMessage = \<lparr> gm_requestId = ''req-0004'', gm_senderId = 8, gm_messageTxId = ''m1'', gm_idemKey = ''global-msg:m1'',
     gm_message = ''hello'' \<rparr>"

theorem global_message_outcome_witness:
  "(\<exists>lev w'. ledgerGlobalMessage sampleMessage sampleLiveWorld = Inr ((''m1'', 0, lev, False), w') \<and> liveInv w')
   \<and> ledgerGlobalMessage sampleMessage sampleActiveWorld = Inl (insufficientCoins 10000 7000)"
proof -
  have sch: "GlobalMessageSchema sampleMessage"
    by (simp add: GlobalMessageSchema_def sampleMessage_def requestIdSchema_def idSchema_def keyBase_def startsWith_def)
  have m: "gm_senderId sampleMessage = 8" "gm_idemKey sampleMessage = ''global-msg:m1''" "gm_messageTxId sampleMessage = ''m1''"
    by (simp_all add: sampleMessage_def)
  have f1: "assertCoinDebitAllowed (gm_senderId sampleMessage) COIN sampleLiveWorld = Inr ()"
    "findByIdempotencyKey (coinLedger sampleLiveWorld) (gm_idemKey sampleMessage) = None"
    using sampleLiveWorld_free by (simp_all add: m) (simp add: sampleLiveWorld_def findByIdempotencyKey_def newEntry_def)
  have f2: "assertCoinDebitAllowed (gm_senderId sampleMessage) COIN sampleActiveWorld = Inr ()"
    "findByIdempotencyKey (coinLedger sampleActiveWorld) (gm_idemKey sampleMessage) = None"
    "balanceOf sampleActiveWorld (8, COIN) = 7000"
    by (simp_all add: m assertCoinDebitAllowed_def getUserWalletFreezeFlags_def throwIfCoinFrozen_def sampleUser_def
        sampleActiveWorld_def sampleLiveWorld_def findByIdempotencyKey_def newEntry_def balanceOf_def findWallet_def
        walletBalance_def latestCoinBalance_def latestBalance_def)
  show ?thesis
    using global_message_outcome [OF sampleLiveWorld_inv sch f1 refl] global_message_outcome [OF sampleActiveWorld_inv sch f2(1,2) refl]
    by (auto simp: m sampleLiveWorld_balance f2(3) simp del: split_paired_All)
qed

end
