(* ===== verification/LuckyLedger.thy ===== *)
theory LuckyLedger
  imports LiveLedger
begin

text \<open>
  The lucky gift route of the internal ledger API: every outcome of a send that the pool engine
  settles, the replay of a committed send, and the reach of the per-user caps.
\<close>

section \<open>Outcomes\<close>

lemma luckyReplay_outcomes:
  "luckyReplay sha inp cost pts w = Inl duplicate
   \<or> luckyReplay sha inp cost pts w = Inl (AppError 409 ''LUCKY_REPLAY_MISMATCH'' [])
   \<or> (\<exists>r. luckyReplay sha inp cost pts w = Inr (r, w) \<and> lr_replayed r)"
proof -
  have rep: "replayOrDuplicate k q f w = Inl duplicate \<or> (\<exists>row. replayOrDuplicate k q f w = Inr (f row, w))"
    for k q and f :: "_ \<Rightarrow> lucky_result"
    by (auto simp: replayOrDuplicate_def split: option.split)
  have leg: "replayOrDuplicate k q (legacyReplay inp cost pts w) w = Inl duplicate
     \<or> (\<exists>r. replayOrDuplicate k q (legacyReplay inp cost pts w) w = Inr (r, w) \<and> lr_replayed r)" for k q
    using rep [of k q "legacyReplay inp cost pts w"] by (auto simp: legacyReplay_def Let_def)
  have guard: "luckyReplayGuard sha inp a w = Inl duplicate \<or> luckyReplayGuard sha inp a w = Inl (AppError 409 ''LUCKY_REPLAY_MISMATCH'' [])
     \<or> luckyReplayGuard sha inp a w = Inr ()" for a
    by (auto simp: luckyReplayGuard_def require_def split: option.split)
  show ?thesis
  proof (cases "findAudit w (lg_txKeyBase inp)")
    case None
    then show ?thesis using leg [of "debitKey inp" "lg_requestId inp"] by (auto simp: luckyReplay_def)
  next
    case (Some a)
    then show ?thesis using leg [of "debitKey inp" "lg_requestId inp"] guard [of a] by (auto simp: luckyReplay_def waterReplay_def)
  qed
qed

lemma luckyGuards_water:
  "luckyGuards inp g cost (Some c) = (if gift_coinCost g * cfg_rBp c < 10000
     then Inl (AppError 400 ''LUCKY_PRICE_TOO_LOW'' [(''unitPrice'', JBig (gift_coinCost g)), (''rBp'', JNum (cfg_rBp c))])
     else Inr ())"
  by (simp add: luckyGuards_def require_def)

text \<open>The settled send, over the draw that ran.\<close>

lemma lucky_water_settled:
  assumes inv: "liveInv w" and sch: "LuckyGiftSchema inp" and co: "cacheCoherent w cache"
    and mm: "\<forall>row\<in>set (luckyConfigs w). 0 \<le> lc_mMax row"
    and cost: "cost = luckyCost inp g" and pts: "pts = luckyHostPoints cost w"
    and res: "res = fst (resolveEngine w (gift_coinCost g) (lg_supportsServerDraw inp) cache)" and wc: "waterConfig res = Some c"
    and d: "d = poolDraw rolls inp g c cost w" and com: "com = luckyCommission inp pts WaterV1 w"
    and tx: "luckyGiftTx sha rolls slot inp g res cost pts w = Inr ((st, wealth), w1)"
    and cm: "luckyCommit sha rolls slot inp g res cost pts w = Inr (r, w')"
  shows "liveInv w'" "\<not> lr_replayed r" "lr_rewardCoins r = totalPaid d" "0 \<le> totalPaid d"
    "lr_finalBalanceCoins r = balanceOf w (lg_senderId inp, COIN) - cost + totalPaid d"
    "balanceOf w' a = balanceOf w a + (moving (lg_senderId inp, COIN) (- cost) a + luckyMove inp pts (totalPaid d) com w a)"
    "luckyPools w' = (luckyPools w)(cfg_tierId c \<mapsto> (finalWater d, cfg_version c))"
    "poolOf w' (cfg_tierId c) = poolOf w (cfg_tierId c) + poolInflow c cost - totalPaid d"
    "0 < totalPaid d \<Longrightarrow> cfg_floor c \<le> poolOf w' (cfg_tierId c)"
    "redisUp w \<Longrightarrow> coinCache w' (lg_senderId inp) = Some (lr_finalBalanceCoins r)"
    "luckyAudits w' = luckyAudits w @ [luckyAudit sha inp c (drawnRecord c (poolOf w (cfg_tierId c)) (poolInflow c cost) d)
           (collapseBreakdown (rewards d) 10) (resolveCategory (lg_count inp) (gift_coinCost g) (totalPaid d)) (totalPaid d)
           (lr_finalBalanceCoins r) w]"
    "findAudit w (lg_txKeyBase inp) = None" "cost \<le> balanceOf w (lg_senderId inp, COIN)" "luckyGuards inp g cost (Some c) = Inr ()"
    "\<exists>row. findByIdempotencyKey (coinLedger w') (debitKey inp) = Some row"
    "lr_category r = categoryText (resolveCategory (lg_count inp) (gift_coinCost g) (totalPaid d))"
    "lr_tierId r = Some (cfg_tierId c)" "lr_configVersion r = Some (cfg_version c)"
    "lr_breakdownArray r = Some (collapseBreakdown (rewards d) 10)" "lr_transactionId r = lg_giftTransactionId inp"
    "0 < pts \<Longrightarrow> pointBalanceAfterKey (hostKey inp) w' = lr_pointsAfterHost r" "gifts w' = gifts w" "shares w' = shares w"
    "lr_totalCost r = cost" "lr_hostPoints r = pts" "lr_engine r = WaterV1"
proof -
  note lc = lucky_committed [OF inv sch co mm cost pts res tx]
  have wf: "Ledger.wf w" and ci: "commissionInv w" using inv by (simp_all add: liveInv_def)
  have eng: "er_engine res = WaterV1" using wc by (auto simp: waterConfig_def split: if_splits)
  have com': "com = luckyCommission inp pts (er_engine res) w" by (simp add: com eng)
  have price: "0 \<le> gift_coinCost g" using lc(1) by simp
  note e = luckyGiftTx_effect [OF tx price lc(5) lc(3) wf ci luckyKey_plain [OF sch] com']
  have w: "luckyPools w1 = (luckyPools w)(cfg_tierId c \<mapsto> (finalWater d, cfg_version c))"
      "luckyAudits w1 = luckyAudits w @ [luckyAudit sha inp c (drawnRecord c (poolOf w (cfg_tierId c)) (poolInflow c cost) d)
           (collapseBreakdown (rewards d) 10) (resolveCategory (lg_count inp) (gift_coinCost g) (totalPaid d)) (totalPaid d)
           (ls_finalBalanceCoins st) w]"
      "ls_rewardCoins st = totalPaid d"
      "ls_category st = categoryText (resolveCategory (lg_count inp) (gift_coinCost g) (totalPaid d))"
      "ls_tierId st = Some (cfg_tierId c)" "ls_configVersion st = Some (cfg_version c)"
      "ls_breakdownArray st = Some (collapseBreakdown (rewards d) 10)"
      "0 < pts \<Longrightarrow> pointBalanceAfterKey (hostKey inp) w1 = ls_pointsAfterHost st"
      "findAudit w (lg_txKeyBase inp) = None"
    using e(11) [OF wc d] by simp_all
  note r = luckyCommit_ok [OF tx cm]
  obtain p x y ag where w': "w' = afterCommit (Some (lg_senderId inp, ls_finalBalanceCoins st)) p x y ag w1" using r(1) by blast
  have keep: "luckyPools w' = luckyPools w1" "luckyAudits w' = luckyAudits w1" unfolding w' by (simp_all add: afterCommit_lucky)
  note k = afterCommit_keeps(1-6,8-12) [where w = w1 and c = "Some (lg_senderId inp, ls_finalBalanceCoins st)" and p = p and x = x
      and y = y and a = ag, folded w']
  show "liveInv w'" unfolding w' by (rule liveInv_afterCommit [OF lc(6)])
  show "\<not> lr_replayed r" "lr_rewardCoins r = totalPaid d" "lr_totalCost r = cost" "lr_hostPoints r = pts" "lr_engine r = WaterV1"
    using r w(3) eng by simp_all
  note f = poolDraw_facts [OF price lc(5) [rule_format, OF wc], of rolls inp cost w, folded d]
  show "0 \<le> totalPaid d" by (rule f(2))
  show "lr_finalBalanceCoins r = balanceOf w (lg_senderId inp, COIN) - cost + totalPaid d" "cost \<le> balanceOf w (lg_senderId inp, COIN)"
    using e(8) r(6) w(3) by simp_all
  show "balanceOf w' a = balanceOf w a + (moving (lg_senderId inp, COIN) (- cost) a + luckyMove inp pts (totalPaid d) com w a)"
    using moved_bal [OF moved_still [OF e(1) k(1)] wf, of a] w(3) by simp
  show pl: "luckyPools w' = (luckyPools w)(cfg_tierId c \<mapsto> (finalWater d, cfg_version c))" using keep w(1) by simp
  then show "poolOf w' (cfg_tierId c) = poolOf w (cfg_tierId c) + poolInflow c cost - totalPaid d"
    using f(1) by (simp add: poolOf_def)
  show "0 < totalPaid d \<Longrightarrow> cfg_floor c \<le> poolOf w' (cfg_tierId c)" using f(3) pl by (simp add: poolOf_def)
  show "coinCache w' (lg_senderId inp) = Some (lr_finalBalanceCoins r)" if "redisUp w"
    using luckyFrame_keeps(5) [OF e(3)] that r(6) unfolding w' by (simp add: afterCommit_keeps(7))
  show "luckyAudits w' = luckyAudits w @ [luckyAudit sha inp c (drawnRecord c (poolOf w (cfg_tierId c)) (poolInflow c cost) d)
           (collapseBreakdown (rewards d) 10) (resolveCategory (lg_count inp) (gift_coinCost g) (totalPaid d)) (totalPaid d)
           (lr_finalBalanceCoins r) w]" using keep(2) w(2) r(6) by simp
  show "findAudit w (lg_txKeyBase inp) = None" by (rule w(9))
  show "luckyGuards inp g cost (Some c) = Inr ()" using e(9) wc by simp
  show "\<exists>row. findByIdempotencyKey (coinLedger w') (debitKey inp) = Some row"
  proof -
    obtain x rs where "coinLedger w1 = coinLedger w @ x # rs" "idempotencyKey x = debitKey inp" using e(6) by blast
    then show ?thesis using e(7) k(5) by (simp add: findByIdempotencyKey_def find_append)
  qed
  show "lr_category r = categoryText (resolveCategory (lg_count inp) (gift_coinCost g) (totalPaid d))"
    "lr_tierId r = Some (cfg_tierId c)" "lr_configVersion r = Some (cfg_version c)"
    "lr_breakdownArray r = Some (collapseBreakdown (rewards d) 10)" "lr_transactionId r = lg_giftTransactionId inp"
    using r w by simp_all
  show "0 < pts \<Longrightarrow> pointBalanceAfterKey (hostKey inp) w' = lr_pointsAfterHost r"
    using w(8) r(7) k(6) by (simp add: pointBalanceAfterKey_def)
  show "gifts w' = gifts w" "shares w' = shares w" using k luckyFrame_keeps [OF e(3)] by simp_all
qed

text \<open>
  C2. A lucky gift whose price the pool engine settles has exactly these outcomes. The price is too
  small for any inflow: 400. The sender cannot pay: 402. Otherwise it commits, unless the commission
  is on and the agency's level has no configuration (500), or one of the keys of the send is in use
  (409, or a replay that changes nothing). A commit takes the price times the count from the sender's
  coins and returns the reward of the draw, gives the host's share to the receiver's points and the
  due commission to the agency, touches no other account, and adds exactly the inflow less the reward
  to the pool of the tier; a reward never takes that pool below its floor, so the floor error of the
  service cannot occur. The draw is recorded once, and the cached balance of the sender is the one of
  the ledger.
\<close>

theorem lucky_water_outcome:
  assumes inv: "liveInv w" and sch: "LuckyGiftSchema inp" and g: "loadSendableGift (lg_giftId inp) True w = Inr g"
    and free: "assertCoinDebitAllowed (lg_senderId inp) COIN w = Inr ()" and price: "0 < gift_coinCost g"
    and co: "cacheCoherent w cache" and mm: "\<forall>row\<in>set (luckyConfigs w). 0 \<le> lc_mMax row"
    and none: "findByIdempotencyKey (coinLedger w) (debitKey inp) = None"
    and wc: "waterConfig (fst (resolveEngine w (gift_coinCost g) (lg_supportsServerDraw inp) cache)) = Some c"
    and cost: "cost = luckyCost inp g" and pts: "pts = luckyHostPoints cost w" and bal: "bal = balanceOf w (lg_senderId inp, COIN)"
    and d: "d = poolDraw rolls inp g c cost w" and com: "com = luckyCommission inp pts WaterV1 w"
  shows "case fst (ledgerLuckyGift sha rolls slot inp cache w) of
      Inl err \<Rightarrow> gift_coinCost g * cfg_rBp c < 10000 \<and> luckyGuards inp g cost (Some c) = Inl err
        \<or> 10000 \<le> gift_coinCost g * cfg_rBp c
           \<and> (bal < cost \<and> err = insufficientCoins cost bal
              \<or> cost \<le> bal \<and> (err = AppError 500 ''CONFIG_ERROR'' [] \<and> com \<and> \<not> commissionConfigured (luckyReceiver inp) w
                  \<or> luckyKeysUsed inp w \<and> (err = duplicate \<or> err = AppError 409 ''LUCKY_REPLAY_MISMATCH'' [])))
    | Inr (r, w') \<Rightarrow> 10000 \<le> gift_coinCost g * cfg_rBp c \<and> cost \<le> bal \<and> liveInv w'
        \<and> (if lr_replayed r then luckyKeysUsed inp w \<and> w' = w
           else lr_rewardCoins r = totalPaid d \<and> 0 \<le> totalPaid d \<and> lr_finalBalanceCoins r = bal - cost + totalPaid d
             \<and> 0 \<le> pts \<and> pts \<le> cost
             \<and> (\<forall>a. balanceOf w' a = balanceOf w a
                  + (moving (lg_senderId inp, COIN) (- cost) a + luckyMove inp pts (totalPaid d) com w a))
             \<and> poolOf w' (cfg_tierId c) = poolOf w (cfg_tierId c) + poolInflow c cost - totalPaid d
             \<and> (0 < totalPaid d \<longrightarrow> cfg_floor c \<le> poolOf w' (cfg_tierId c))
             \<and> (\<exists>a. luckyAudits w' = luckyAudits w @ [a] \<and> la_key a = lg_txKeyBase inp \<and> la_paidReward a = totalPaid d)
             \<and> (redisUp w \<longrightarrow> coinCache w' (lg_senderId inp) = Some (bal - cost + totalPaid d)))"
proof -
  define res where "res = fst (resolveEngine w (gift_coinCost g) (lg_supportsServerDraw inp) cache)"
  have wc': "waterConfig res = Some c" using wc by (simp add: res_def)
  have eng: "er_engine res = WaterV1" using wc' by (auto simp: waterConfig_def split: if_splits)
  have route: "fst (ledgerLuckyGift sha rolls slot inp cache w) = luckyCommit sha rolls slot inp g res cost pts w"
    using sch luckyGiftSend_commits [OF g none cost pts res_def] by (simp add: ledgerLuckyGift_def)
  have wf: "Ledger.wf w" and ci: "commissionInv w" using inv by (simp_all add: liveInv_def)
  have "1 \<le> lg_count inp" using sch by (simp add: LuckyGiftSchema_def)
  then have pos: "0 < cost" using price by (simp add: cost luckyCost_def)
  have p: "0 \<le> pts" "pts \<le> cost" using luckyHostPoints_bounds [OF inv, of cost] pos pts by simp_all
  have mx: "\<forall>c. waterConfig res = Some c \<longrightarrow> 0 \<le> cfg_mMax c"
  proof -
    from waterConfig_row [OF co wc] obtain row where "row \<in> set (luckyConfigs w)" "c = rowToImmutable row" by blast
    then show ?thesis using mm wc' by (simp add: rowToImmutable_def)
  qed
  show ?thesis
  proof (cases "luckyGiftTx sha rolls slot inp g res cost pts w")
    case (Inr x)
    obtain st wealth w1 where x: "x = ((st, wealth), w1)" by (metis prod.exhaust)
    obtain r w' where cm: "luckyCommit sha rolls slot inp g res cost pts w = Inr (r, w')"
      using Inr x by (simp add: luckyCommit_def)
    note s = lucky_water_settled [OF inv sch co mm cost pts res_def wc' d com Inr [unfolded x] cm]
    have gd: "10000 \<le> gift_coinCost g * cfg_rBp c" using s(14) by (simp add: luckyGuards_water split: if_splits)
    have au: "\<exists>a. luckyAudits w' = luckyAudits w @ [a] \<and> la_key a = lg_txKeyBase inp \<and> la_paidReward a = totalPaid d"
      unfolding s(11) by (simp add: luckyAudit_def)
    show ?thesis
      unfolding route cm sum.case prod.case using s(1-6,8-10,13) gd au p bal by simp
  next
    case (Inl err)
    have run: "luckyCommit sha rolls slot inp g res cost pts w
        = (if err \<noteq> UniqueViolation then Inl err else luckyReplay sha inp cost pts w)"
      using Inl by (simp add: luckyCommit_def)
    have ne: "insufficientCoins cost bal \<noteq> UniqueViolation" by (simp add: insufficientCoins_def)
    from luckyGiftTx_fails [OF Inl free _ mx p(1) pos wf ci luckyKey_plain [OF sch] com [folded eng] bal]
    have "luckyGuards inp g cost (Some c) = Inl err \<or> luckyGuards inp g cost (Some c) = Inr ()
       \<and> (bal < cost \<and> err = insufficientCoins cost bal
          \<or> cost \<le> bal \<and> (err = AppError 500 ''CONFIG_ERROR'' [] \<and> com \<and> \<not> commissionConfigured (luckyReceiver inp) w
              \<or> err = UniqueViolation \<and> luckyKeysUsed inp w))"
      using price wc' by simp
    then consider (low) "gift_coinCost g * cfg_rBp c < 10000" "luckyGuards inp g cost (Some c) = Inl err" "err \<noteq> UniqueViolation"
      | (short) "10000 \<le> gift_coinCost g * cfg_rBp c" "bal < cost" "err = insufficientCoins cost bal"
      | (conf) "10000 \<le> gift_coinCost g * cfg_rBp c" "cost \<le> bal" "err = AppError 500 ''CONFIG_ERROR'' []" com
          "\<not> commissionConfigured (luckyReceiver inp) w"
      | (used) "10000 \<le> gift_coinCost g * cfg_rBp c" "cost \<le> bal" "err = UniqueViolation" "luckyKeysUsed inp w"
      unfolding luckyGuards_water by (auto split: if_splits)
    then show ?thesis
    proof cases
      case used
      then show ?thesis
        using luckyReplay_outcomes [of sha inp cost pts w] inv unfolding route run by auto
    qed (use run route ne in \<open>simp_all add: route\<close>)
  qed
qed

text \<open>The world of the witnesses with a lucky gift of price 100 whose tier is in force.\<close>

definition sampleClover :: gift_row where
  "sampleClover = \<lparr>gift_id = ''clover'', gift_name = ''Clover'', gift_coinCost = 100, gift_isActive = True,
     gift_isLucky = True, gift_category = None\<rparr>"

definition sampleLuckyWorld :: world where
  "sampleLuckyWorld = sampleLiveWorld\<lparr>gifts := [''clover'' \<mapsto> sampleClover], luckyConfigs := luckyConfigs sampleTierWorld,
     luckyModes := luckyModes sampleTierWorld, luckySeeds := luckySeeds sampleTierWorld, luckyPools := luckyPools sampleTierWorld\<rparr>"

definition sampleLucky :: lucky_input where
  "sampleLucky = \<lparr> lg_requestId = ''req-0002'', lg_senderId = 8, lg_receiverId = Some 7, lg_giftId = ''clover'', lg_count = 3,
     lg_giftTransactionId = ''lt1'', lg_txKeyBase = ''lucky:8:abc'', lg_rewardCoins = 0, lg_category = ''MISS'',
     lg_supportsServerDraw = True \<rparr>"

lemma sampleLuckyWorld_inv: "liveInv sampleLuckyWorld"
proof -
  have "moved sampleLiveWorld sampleLuckyWorld still" by (rule moved_frame) (simp_all add: sampleLuckyWorld_def)
  moreover have "callInv i sampleLuckyWorld = callInv i sampleLiveWorld" for i
    by (rule callInv_same) (simp_all add: sampleLuckyWorld_def callRows_def)
  ultimately show ?thesis
    using sampleLiveWorld_inv by (auto simp: liveInv_def commissionInv_def sampleLuckyWorld_def dest: moved_wf)
qed

lemma sampleLucky_resolution:
  "fst (resolveEngine sampleLuckyWorld 100 True bustLuckyTierConfigCache)
     = \<lparr> er_engine = WaterV1, er_config = Some \<lparr> rc_immutable = rowToImmutable sampleTierRow, rc_mode = ''enforce'' \<rparr>,
         er_seedExists = True \<rparr>"
  by (simp add: resolveEngine_def resolveTierConfig_def refreshLatestConfigIndex_def chooseMeta_def loadImmutable_def
      tierHasSeed_def configsInOrder_def pickTierMetaForPrice_def inRange_def metaOf_def readTierModeInTx_def
      bustLuckyTierConfigCache_def sampleLuckyWorld_def sampleTierWorld_def sampleTierRow_def rowToImmutable_def Let_def)

lemma sampleLucky_ok:
  "LuckyGiftSchema sampleLucky" "loadSendableGift (lg_giftId sampleLucky) True sampleLuckyWorld = Inr sampleClover"
  "assertCoinDebitAllowed (lg_senderId sampleLucky) COIN sampleLuckyWorld = Inr ()" "\<not> luckyKeysUsed sampleLucky sampleLuckyWorld"
  "\<forall>row\<in>set (luckyConfigs sampleLuckyWorld). 0 \<le> lc_mMax row"
  "luckyCost sampleLucky sampleClover = 300" "0 < gift_coinCost sampleClover" "lg_senderId sampleLucky = 8"
  "balanceOf sampleLuckyWorld (8, COIN) = 10000" "\<not> luckyCommission sampleLucky p WaterV1 sampleLuckyWorld"
  "poolOf sampleLuckyWorld ''T100'' = 100000" "hasClientTxId sampleLucky" "luckyHostPoints 300 sampleLuckyWorld = 12"
  by (simp_all add: sampleLucky_def sampleClover_def LuckyGiftSchema_def requestIdSchema_def idSchema_def keyBase_def startsWith_def
      loadSendableGift_def isLuckyGift_def sampleLuckyWorld_def sampleTierWorld_def sampleTierRow_def luckyCost_def
      assertCoinDebitAllowed_def getUserWalletFreezeFlags_def throwIfCoinFrozen_def sampleUser_def sampleLiveWorld_def
      sampleAgencyWorld_def emptyWorld_def DEFAULT_HOST_REVENUE_SHARES_def luckyKeysUsed_def findByIdempotencyKey_def newEntry_def
      debitKey_def rewardKey_def hostKey_def findAudit_def luckyCommission_def poolOf_def hasClientTxId_def luckyHostPoints_def bdiv_def
      balanceOf_def findWallet_def walletBalance_def latestCoinBalance_def latestBalance_def)

lemma sampleLucky_config:
  "waterConfig (fst (resolveEngine sampleLuckyWorld (gift_coinCost sampleClover) (lg_supportsServerDraw sampleLucky) bustLuckyTierConfigCache))
     = Some (rowToImmutable sampleTierRow)"
  by (simp add: waterConfig_def sampleClover_def sampleLucky_def sampleLucky_resolution)

lemma sampleLucky_row:
  "cfg_tierId (rowToImmutable sampleTierRow) = ''T100''" "cfg_rBp (rowToImmutable sampleTierRow) = 9200"
  "gift_coinCost sampleClover = 100" "poolInflow (rowToImmutable sampleTierRow) 300 = 276"
  by (simp_all add: rowToImmutable_def sampleTierRow_def sampleClover_def poolInflow_def bdiv_def)

theorem lucky_water_outcome_witness:
  "\<exists>r w'. fst (ledgerLuckyGift (\<lambda>s. s) (\<lambda>_. 5000) 0 sampleLucky bustLuckyTierConfigCache sampleLuckyWorld) = Inr (r, w')
     \<and> \<not> lr_replayed r \<and> liveInv w' \<and> lr_finalBalanceCoins r = 9700 + lr_rewardCoins r
     \<and> poolOf w' ''T100'' = 100276 - lr_rewardCoins r"
proof -
  have none: "findByIdempotencyKey (coinLedger sampleLuckyWorld) (debitKey sampleLucky) = None"
    using sampleLucky_ok(4) by (simp add: luckyKeysUsed_def)
  note out = lucky_water_outcome [where sha = "\<lambda>s. s" and rolls = "\<lambda>_. 5000" and slot = 0, OF sampleLuckyWorld_inv sampleLucky_ok(1-3,7) coherent_bust sampleLucky_ok(5) none
      sampleLucky_config refl refl refl refl refl,
      simplified sampleLucky_ok(6,8,9) sampleLucky_row]
  obtain r w' where run: "fst (ledgerLuckyGift (\<lambda>s. s) (\<lambda>_. 5000) 0 sampleLucky bustLuckyTierConfigCache sampleLuckyWorld) = Inr (r, w')"
    using out sampleLucky_ok(4,10)
    by (cases "fst (ledgerLuckyGift (\<lambda>s. s) (\<lambda>_. 5000) 0 sampleLucky bustLuckyTierConfigCache sampleLuckyWorld)") auto
  have "\<not> lr_replayed r" using out run sampleLucky_ok(4) by auto
  then show ?thesis using out run sampleLucky_ok(11) by auto
qed

section \<open>Replay\<close>

text \<open>What a committed send leaves for a later request under the same key.\<close>

lemma lucky_committed_audit:
  assumes inv: "liveInv w" and co: "cacheCoherent w cache" and mm: "\<forall>row\<in>set (luckyConfigs w). 0 \<le> lc_mMax row"
    and run: "fst (ledgerLuckyGift sha rolls slot inp cache w) = Inr (r, w')" "\<not> lr_replayed r" "lr_engine r = WaterV1"
  shows "\<exists>a. findAudit w' (lg_txKeyBase inp) = Some a \<and> la_engine a = ''water_v1'' \<and> la_sender a = Some (lg_senderId inp)
      \<and> la_fingerprint a = Some (payloadFingerprint sha inp) \<and> la_giftTransactionId a = Some (lr_transactionId r)
      \<and> la_paidReward a = lr_rewardCoins r \<and> la_senderBalanceAfter a = Some (lr_finalBalanceCoins r)
      \<and> categoryText (la_category a) = lr_category r \<and> la_tierId a = lr_tierId r \<and> la_configVersion a = lr_configVersion r
      \<and> Some (la_breakdown a) = lr_breakdownArray r"
    "\<exists>row. findByIdempotencyKey (coinLedger w') (debitKey inp) = Some row"
proof -
  have sch: "LuckyGiftSchema inp" and run': "fst (luckyGiftSend sha rolls slot inp cache w) = Inr (r, w')"
    using run(1) by (auto simp: ledgerLuckyGift_def split: if_splits)
  obtain g res cost pts st wealth w1 where cost: "cost = luckyCost inp g" and pts: "pts = luckyHostPoints cost w"
    and res: "res = fst (resolveEngine w (gift_coinCost g) (lg_supportsServerDraw inp) cache)"
    and tx: "luckyGiftTx sha rolls slot inp g res cost pts w = Inr ((st, wealth), w1)"
    and cm: "luckyCommit sha rolls slot inp g res cost pts w = Inr (r, w')"
    using luckyGiftSend_cases [OF run'] run(2) by blast
  have eng: "er_engine res = WaterV1" using luckyCommit_ok(8) [OF tx cm] run(3) by simp
  then obtain c where wc: "waterConfig res = Some c"
    using resolveEngine_water [of w "gift_coinCost g" "lg_supportsServerDraw inp" cache] res by (auto simp: waterConfig_def)
  note s = lucky_water_settled [OF inv sch co mm cost pts res wc refl refl tx cm]
  show "\<exists>row. findByIdempotencyKey (coinLedger w') (debitKey inp) = Some row" by (rule s(15))
  show "\<exists>a. findAudit w' (lg_txKeyBase inp) = Some a \<and> la_engine a = ''water_v1'' \<and> la_sender a = Some (lg_senderId inp)
      \<and> la_fingerprint a = Some (payloadFingerprint sha inp) \<and> la_giftTransactionId a = Some (lr_transactionId r)
      \<and> la_paidReward a = lr_rewardCoins r \<and> la_senderBalanceAfter a = Some (lr_finalBalanceCoins r)
      \<and> categoryText (la_category a) = lr_category r \<and> la_tierId a = lr_tierId r \<and> la_configVersion a = lr_configVersion r
      \<and> Some (la_breakdown a) = lr_breakdownArray r"
    using s(12) s(3,16-20) by (simp add: findAudit_def s(11) find_append luckyAudit_def)
qed

text \<open>
  C4. A lucky send under a client's key is drawn once. After a commit of the pool engine, whatever
  the admins do to modes, configurations and seed decisions and however much time passes, a request
  under the same key never draws again. With the same sender, gift, count and receiver (under any
  request id, any cache, any rolls, whether or not it asks for a server draw) it is answered with the
  committed reward, balance, category, tier, version and breakdown, and nothing changes. With another
  sender it is a duplicate, with another payload it is refused with \<open>LUCKY_REPLAY_MISMATCH\<close>.
\<close>

theorem lucky_replay:
  assumes inv: "liveInv w" and co: "cacheCoherent w cache" and mm: "\<forall>row\<in>set (luckyConfigs w). 0 \<le> lc_mMax row"
    and run: "fst (ledgerLuckyGift sha rolls slot inp cache w) = Inr (r, w')" "\<not> lr_replayed r" "lr_engine r = WaterV1"
    and key: "hasClientTxId inp" "lg_txKeyBase inp' = lg_txKeyBase inp" and digest: "sha (payloadCanonical inp) \<noteq> []"
    and later: "w2 = w'\<lparr>luckyModes := ms, luckyConfigs := cs, luckySeeds := ss, clock := t\<rparr>"
    and again: "LuckyGiftSchema inp'" "loadSendableGift (lg_giftId inp') True w2 = Inr g'"
  shows "if lg_senderId inp' \<noteq> lg_senderId inp then fst (ledgerLuckyGift sha rolls' slot' inp' cache' w2) = Inl duplicate
    else if sha (payloadCanonical inp') \<noteq> sha (payloadCanonical inp) then
      fst (ledgerLuckyGift sha rolls' slot' inp' cache' w2) = Inl (AppError 409 ''LUCKY_REPLAY_MISMATCH'' [])
    else \<exists>r'. fst (ledgerLuckyGift sha rolls' slot' inp' cache' w2) = Inr (r', w2) \<and> lr_replayed r'
           \<and> lr_transactionId r' = lr_transactionId r \<and> lr_rewardCoins r' = lr_rewardCoins r
           \<and> lr_finalBalanceCoins r' = lr_finalBalanceCoins r \<and> lr_engine r' = WaterV1 \<and> lr_category r' = lr_category r
           \<and> lr_tierId r' = lr_tierId r \<and> lr_configVersion r' = lr_configVersion r \<and> lr_breakdownArray r' = lr_breakdownArray r"
proof -
  obtain a where a: "findAudit w' (lg_txKeyBase inp) = Some a" "la_engine a = ''water_v1''" "la_sender a = Some (lg_senderId inp)"
      "la_fingerprint a = Some (payloadFingerprint sha inp)" "la_giftTransactionId a = Some (lr_transactionId r)"
      "la_paidReward a = lr_rewardCoins r" "la_senderBalanceAfter a = Some (lr_finalBalanceCoins r)"
      "categoryText (la_category a) = lr_category r" "la_tierId a = lr_tierId r" "la_configVersion a = lr_configVersion r"
      "Some (la_breakdown a) = lr_breakdownArray r"
    using lucky_committed_audit(1) [OF inv co mm run] by blast
  obtain row where row: "findByIdempotencyKey (coinLedger w') (debitKey inp) = Some row"
    using lucky_committed_audit(2) [OF inv co mm run] by blast
  have same: "debitKey inp' = debitKey inp" "hasClientTxId inp'" using key by (simp_all add: debitKey_def hasClientTxId_def)
  have found: "findAudit w2 (lg_txKeyBase inp') = Some a" using a(1) key(2) by (simp add: later findAudit_def)
  have run2: "fst (ledgerLuckyGift sha rolls' slot' inp' cache' w2)
      = luckyReplay sha inp' (luckyCost inp' g') (luckyHostPoints (luckyCost inp' g') w2) w2"
    using again row same(1) by (simp add: ledgerLuckyGift_def luckyGiftSend_def Let_def later)
  show ?thesis
    unfolding run2 luckyReplay_def found option.case using a(2-) same(2) digest
    by (auto simp: luckyReplayGuard_def payloadFingerprint_def waterReplay_def)
qed

theorem lucky_replay_witness:
  "\<exists>r w' r'. fst (ledgerLuckyGift (\<lambda>s. s) (\<lambda>_. 5000) 0 sampleLucky bustLuckyTierConfigCache sampleLuckyWorld) = Inr (r, w')
     \<and> fst (ledgerLuckyGift (\<lambda>s. s) (\<lambda>_. 9999) 1 (sampleLucky\<lparr>lg_requestId := ''req-0009'', lg_supportsServerDraw := False\<rparr>)
         bustLuckyTierConfigCache (w'\<lparr>luckyModes := Map.empty, luckyConfigs := [], luckySeeds := [], clock := 900\<rparr>))
       = Inr (r', w'\<lparr>luckyModes := Map.empty, luckyConfigs := [], luckySeeds := [], clock := 900\<rparr>)
     \<and> \<not> lr_replayed r \<and> lr_replayed r' \<and> lr_rewardCoins r' = lr_rewardCoins r"
proof -
  define res where "res = fst (resolveEngine sampleLuckyWorld (gift_coinCost sampleClover) (lg_supportsServerDraw sampleLucky) bustLuckyTierConfigCache)"
  have wf: "Ledger.wf sampleLuckyWorld" "commissionInv sampleLuckyWorld" using sampleLuckyWorld_inv by (simp_all add: liveInv_def)
  have none: "findByIdempotencyKey (coinLedger sampleLuckyWorld) (debitKey sampleLucky) = None"
    using sampleLucky_ok(4) by (simp add: luckyKeysUsed_def)
  have wc: "waterConfig res = Some (rowToImmutable sampleTierRow)" unfolding res_def by (rule sampleLucky_config)
  have eng: "er_engine res = WaterV1" using wc by (auto simp: waterConfig_def split: if_splits)
  have mx: "\<forall>c. waterConfig res = Some c \<longrightarrow> 0 \<le> cfg_mMax c" using wc by (simp add: rowToImmutable_def sampleTierRow_def)
  let ?tx = "luckyGiftTx (\<lambda>s. s) (\<lambda>_. 5000) 0 sampleLucky sampleClover res 300 12 sampleLuckyWorld"
  have "?tx \<noteq> Inl err" for err
  proof
    assume "?tx = Inl err"
    from luckyGiftTx_fails [OF this sampleLucky_ok(3) _ mx _ _ wf luckyKey_plain [OF sampleLucky_ok(1)] refl refl] show False
      using sampleLucky_ok(4,8,9,10) sampleLucky_row eng by (simp add: wc luckyGuards_water)
  qed
  then obtain st wealth w1 where tx: "?tx = Inr ((st, wealth), w1)" by (cases ?tx) auto
  obtain r w' where cm: "luckyCommit (\<lambda>s. s) (\<lambda>_. 5000) 0 sampleLucky sampleClover res 300 12 sampleLuckyWorld = Inr (r, w')"
    using tx by (simp add: luckyCommit_def)
  have run: "fst (ledgerLuckyGift (\<lambda>s. s) (\<lambda>_. 5000) 0 sampleLucky bustLuckyTierConfigCache sampleLuckyWorld) = Inr (r, w')"
    using luckyGiftSend_commits [OF sampleLucky_ok(2) none refl refl res_def] cm sampleLucky_ok(1,6,13)
    by (simp add: ledgerLuckyGift_def)
  have r: "\<not> lr_replayed r" "lr_engine r = WaterV1" using luckyCommit_ok(2,8) [OF tx cm] eng by simp_all
  have gifts: "gifts w' = gifts sampleLuckyWorld"
    by (rule lucky_water_settled(22) [OF sampleLuckyWorld_inv sampleLucky_ok(1) coherent_bust sampleLucky_ok(5) sampleLucky_ok(6) [symmetric]
        sampleLucky_ok(13) [symmetric] res_def wc refl refl tx cm])
  let ?again = "sampleLucky\<lparr>lg_requestId := ''req-0009'', lg_supportsServerDraw := False\<rparr>"
  let ?w2 = "w'\<lparr>luckyModes := Map.empty, luckyConfigs := [], luckySeeds := [], clock := 900\<rparr>"
  have sch: "LuckyGiftSchema ?again"
    using sampleLucky_ok(1) by (simp add: LuckyGiftSchema_def requestIdSchema_def sampleLucky_def)
  have load: "loadSendableGift (lg_giftId ?again) True ?w2 = Inr sampleClover"
    using sampleLucky_ok(2) gifts by (simp add: loadSendableGift_def)
  have same: "payloadCanonical ?again = payloadCanonical sampleLucky" by (simp add: payloadCanonical_def)
  have ne: "payloadCanonical sampleLucky \<noteq> []" by (simp add: payloadCanonical_def)
  from lucky_replay [OF sampleLuckyWorld_inv coherent_bust sampleLucky_ok(5) run r sampleLucky_ok(12) _ _ refl sch load,
      of "\<lambda>_. 9999" 1 bustLuckyTierConfigCache]
  show ?thesis using run r same ne by auto
qed

end
