(* ===== verification/LuckyShadow.thy ===== *)
theory LuckyShadow
  imports LuckyLedger
begin

text \<open>
  The shadow worker of the pool engine (\<open>src/src/services/luckyWater/shadowWorker.service.ts\<close>): it follows
  the settled lucky gifts by a cursor and, for a tier in shadow mode, repeats the draw against a virtual
  pool, so that a configuration can be watched before it moves money. The rolls are an argument, given
  per gift. The job of \<open>src/src/jobs/lucky-shadow-worker.job.ts\<close> runs one tick after the other.
\<close>

section \<open>Cursor and batch\<close>

definition SHADOW_SETTLE_LAG_MS :: int where
  "SHADOW_SETTLE_LAG_MS = 15000 + 10000 + 30000"

definition SHADOW_WORKER_BATCH_SIZE :: nat where
  "SHADOW_WORKER_BATCH_SIZE = 50"

definition shadowAuditIdempotencyKey :: "string \<Rightarrow> string" where
  "shadowAuditIdempotencyKey giftTransactionId = ''shadow:'' @ giftTransactionId"

definition MAX_UUID :: string where
  "MAX_UUID = ''ffffffff-ffff-ffff-ffff-ffffffffffff''"

record ShadowGiftRow =
  sg_id :: string
  sg_senderUserId :: uid
  sg_giftId :: string
  sg_totalCoinCost :: int
  sg_quantity :: int
  sg_context :: string
  sg_createdAt :: int
  sg_unitPrice :: int

definition anyTierInShadowMode :: "world \<Rightarrow> bool" where
  "anyTierInShadowMode w \<longleftrightarrow> ''shadow'' \<in> ran (luckyModes w)"

definition advanceCursor :: "int \<Rightarrow> string \<Rightarrow> world \<Rightarrow> world" where
  "advanceCursor t i w = w\<lparr>luckyShadowCursor := Some (Some t, Some i)\<rparr>"

definition parkShadowCursor :: "world \<Rightarrow> world" where
  "parkShadowCursor w =
     (let parkAt = clock w - SHADOW_SETTLE_LAG_MS in
      case luckyShadowCursor w of
        Some (Some t, i) \<Rightarrow> if parkAt \<le> t then w else advanceCursor parkAt MAX_UUID w
      | _ \<Rightarrow> advanceCursor parkAt MAX_UUID w)"

definition afterCursor :: "int \<Rightarrow> string \<Rightarrow> ShadowGiftRow \<Rightarrow> bool" where
  "afterCursor t i r \<longleftrightarrow> t < sg_createdAt r \<or> t = sg_createdAt r \<and> i < sg_id r"

text \<open>The join of \<open>gift_transactions\<close> with \<open>gifts\<close>.\<close>

definition shadowRows :: "world \<Rightarrow> ShadowGiftRow list" where
  "shadowRows w = List.map_filter (\<lambda>gt. case gifts w (gt_giftId gt) of
       None \<Rightarrow> None
     | Some g \<Rightarrow> Some \<lparr> sg_id = gt_id gt, sg_senderUserId = gt_sender gt, sg_giftId = gt_giftId gt,
          sg_totalCoinCost = gt_coinCost gt, sg_quantity = gt_quantity gt, sg_context = gt_context gt,
          sg_createdAt = gt_createdAt gt, sg_unitPrice = gift_coinCost g \<rparr>) (giftTransactions w)"

definition settledAfter :: "int \<Rightarrow> string \<Rightarrow> world \<Rightarrow> ShadowGiftRow list" where
  "settledAfter t i w =
     filter (\<lambda>r. (sg_context r = ''LUCKY_SINGLE'' \<or> sg_context r = ''LUCKY_COMBO'')
       \<and> sg_createdAt r < clock w - SHADOW_SETTLE_LAG_MS \<and> afterCursor t i r) (shadowRows w)"

definition fetchShadowGiftBatch :: "nat \<Rightarrow> world \<Rightarrow> ShadowGiftRow list \<times> world" where
  "fetchShadowGiftBatch limit w =
     (case luckyShadowCursor w of
        Some (Some t, Some i) \<Rightarrow> (take limit (sort_key sg_createdAt (sort_key sg_id (settledAfter t i w))), w)
      | _ \<Rightarrow> ([], parkShadowCursor w))"

section \<open>The virtual draw\<close>

definition readShadowUserCaps :: "uid \<Rightarrow> int \<Rightarrow> int \<Rightarrow> world \<Rightarrow> int \<times> bool" where
  "readShadowUserCaps sender dailyWinCap coolDownSeconds w =
     (if 0 < dailyWinCap then
        sum_list (map la_paidReward (filter (\<lambda>a. la_sender a = Some sender \<and> la_mode a = ''shadow''
          \<and> utcDayStart (clock w) \<le> la_createdAt a) (luckyAudits w)))
      else 0,
      0 < coolDownSeconds \<and>
        find (\<lambda>a. la_sender a = Some sender \<and> la_mode a = ''shadow''
          \<and> clock w - coolDownSeconds * 1000 \<le> la_createdAt a \<and> dj_bigWin (la_drawn a)) (luckyAudits w) \<noteq> None)"

definition ensureShadowPoolAtL0 :: "ImmutableTierConfig \<Rightarrow> world \<Rightarrow> int \<times> world" where
  "ensureShadowPoolAtL0 c w =
     (case luckyShadowPools w (cfg_tierId c) of
        Some (b, v) \<Rightarrow> (b, w)
      | None \<Rightarrow> (cfg_l0 c, w\<lparr>luckyShadowPools := (luckyShadowPools w)(cfg_tierId c \<mapsto> (cfg_l0 c, cfg_version c))\<rparr>))"

definition updateShadowPool :: "ImmutableTierConfig \<Rightarrow> DrawUnitsResult \<Rightarrow> world \<Rightarrow> error + unit \<times> world" where
  "updateShadowPool c draw w =
     (if luckyShadowPools w (cfg_tierId c) \<noteq> None \<and> (totalPaid draw = 0 \<or> cfg_floor c \<le> finalWater draw)
      then Inr ((), w\<lparr>luckyShadowPools := (luckyShadowPools w)(cfg_tierId c \<mapsto> (finalWater draw, cfg_version c))\<rparr>)
      else Inl (OtherError ''Shadow pool floor violation''))"

definition shadowAudit ::
  "ShadowGiftRow \<Rightarrow> ImmutableTierConfig \<Rightarrow> drawn_json \<Rightarrow> DrawUnitsResult \<Rightarrow> world \<Rightarrow> lucky_audit_row" where
  "shadowAudit row c drawn draw w =
     \<lparr> la_key = shadowAuditIdempotencyKey (sg_id row), la_fingerprint = None, la_engine = ''water_v1'', la_mode = ''shadow'',
       la_tierId = Some (cfg_tierId c), la_sender = Some (sg_senderUserId row), la_giftTransactionId = Some (sg_id row),
       la_drawn = drawn, la_breakdown = collapseBreakdown (rewards draw) 10,
       la_category = resolveCategory (sg_quantity row) (sg_unitPrice row) (totalPaid draw), la_paidReward = totalPaid draw,
       la_senderBalanceAfter = None, la_configVersion = Some (cfg_version c), la_createdAt = clock w \<rparr>"

definition processShadowDraw ::
  "(nat \<Rightarrow> int) \<Rightarrow> ShadowGiftRow \<Rightarrow> ImmutableTierConfig \<Rightarrow> world \<Rightarrow> error + unit \<times> world" where
  "processShadowDraw rolls row c w =
     (let totalCost = sg_unitPrice row * sg_quantity row;
          advance = advanceCursor (sg_createdAt row) (sg_id row) in
      if findAudit w (shadowAuditIdempotencyKey (sg_id row)) \<noteq> None then Inr ((), advance w)
      else
        (let (poolBalance, w1) = ensureShadowPoolAtL0 c w;
             inflow = computeInflow totalCost (cfg_rBp c);
             caps = readShadowUserCaps (sg_senderUserId row) (cfg_dailyWinCapCoins c) (cfg_coolDownSeconds c) w1;
             draw = drawUnits (waterParams rolls c (sg_unitPrice row) (sg_quantity row) (poolBalance + inflow) caps) in
         andThen (updateShadowPool c draw w1) (\<lambda>(_, w2).
         case auditCreate (shadowAudit row c (drawnRecord c poolBalance inflow draw) draw w2) w2 of
           Inr (_, w3) \<Rightarrow> Inr ((), advance w3)
         | Inl err \<Rightarrow> if err = UniqueViolation then Inr ((), advance w2) else Inl err)))"

datatype shadow_outcome = Drawn | Skipped | Noop

definition processShadowGiftRow ::
  "(nat \<Rightarrow> int) \<Rightarrow> ShadowGiftRow \<Rightarrow> lucky_cache \<Rightarrow> world \<Rightarrow> (error + shadow_outcome \<times> world) \<times> lucky_cache" where
  "processShadowGiftRow rolls row cache w =
     (let (config, cache1) = resolveTierConfig w (sg_unitPrice row) cache;
          advance = advanceCursor (sg_createdAt row) (sg_id row) in
      (case config of
         None \<Rightarrow> Inr (Skipped, advance w)
       | Some c \<Rightarrow>
           if rc_mode c \<noteq> ''shadow'' then Inr (Skipped, advance w)
           else if findAudit w (shadowAuditIdempotencyKey (sg_id row)) \<noteq> None then Inr (Noop, advance w)
           else andThen (processShadowDraw rolls row (rc_immutable c) w) (\<lambda>(_, w1). Inr (Drawn, w1)),
       cache1))"

section \<open>One tick\<close>

record ShadowWorkerTickResult =
  processed :: nat
  drawnCount :: nat
  skippedCount :: nat
  noops :: nat
  errors :: nat

definition countOutcome :: "shadow_outcome \<Rightarrow> ShadowWorkerTickResult \<Rightarrow> ShadowWorkerTickResult" where
  "countOutcome outcome r =
     (let r1 = r\<lparr>processed := Suc (processed r)\<rparr> in
      case outcome of
        Drawn \<Rightarrow> r1\<lparr>drawnCount := Suc (drawnCount r)\<rparr>
      | Skipped \<Rightarrow> r1\<lparr>skippedCount := Suc (skippedCount r)\<rparr>
      | Noop \<Rightarrow> r1\<lparr>noops := Suc (noops r)\<rparr>)"

fun shadowLoop ::
  "(string \<Rightarrow> nat \<Rightarrow> int) \<Rightarrow> ShadowGiftRow list \<Rightarrow> ShadowWorkerTickResult \<Rightarrow> lucky_cache \<Rightarrow> world
     \<Rightarrow> ShadowWorkerTickResult \<times> lucky_cache \<times> world" where
  "shadowLoop rolls [] r cache w = (r, cache, w)"
| "shadowLoop rolls (row # rows) r cache w =
     (case processShadowGiftRow (rolls (sg_id row)) row cache w of
        (Inl err, cache1) \<Rightarrow> (r\<lparr>errors := Suc (errors r)\<rparr>, cache1, w)
      | (Inr (outcome, w1), cache1) \<Rightarrow> shadowLoop rolls rows (countOutcome outcome r) cache1 w1)"

definition noShadowWork :: ShadowWorkerTickResult where
  "noShadowWork = \<lparr> processed = 0, drawnCount = 0, skippedCount = 0, noops = 0, errors = 0 \<rparr>"

definition runShadowWorkerTick ::
  "(string \<Rightarrow> nat \<Rightarrow> int) \<Rightarrow> lucky_cache \<Rightarrow> world \<Rightarrow> ShadowWorkerTickResult \<times> lucky_cache \<times> world" where
  "runShadowWorkerTick rolls cache w =
     (if \<not> anyTierInShadowMode w then (noShadowWork, cache, parkShadowCursor w)
      else
        (let (batch, w1) = fetchShadowGiftBatch SHADOW_WORKER_BATCH_SIZE w
         in shadowLoop rolls batch noShadowWork cache w1))"

section \<open>What a tick may touch\<close>

text \<open>Virtual pools, cursor, and records of virtual draws: nothing else.\<close>

definition shadowFrame :: "world \<Rightarrow> world \<Rightarrow> bool" where
  "shadowFrame w w' \<longleftrightarrow> w' = w\<lparr>luckyShadowPools := luckyShadowPools w', luckyShadowCursor := luckyShadowCursor w',
     luckyAudits := luckyAudits w'\<rparr>"

lemma shadowFrame_refl [simp]: "shadowFrame w w"
  by (simp add: shadowFrame_def)

lemma shadowFrame_trans: "shadowFrame a b \<Longrightarrow> shadowFrame b c \<Longrightarrow> shadowFrame a c"
  unfolding shadowFrame_def by (cases a, cases b, cases c) simp

lemma shadowFrame_steps:
  "shadowFrame w (advanceCursor t i w)" "shadowFrame w (w\<lparr>luckyShadowPools := ps\<rparr>)" "shadowFrame w (w\<lparr>luckyAudits := as\<rparr>)"
  "shadowFrame w (parkShadowCursor w)"
  by (simp_all add: shadowFrame_def advanceCursor_def parkShadowCursor_def Let_def split: option.split prod.split)

lemma shadowFrame_keeps:
  assumes "shadowFrame w w'"
  shows "luckyConfigs w' = luckyConfigs w" "luckyModes w' = luckyModes w" "luckySeeds w' = luckySeeds w" "clock w' = clock w"
    "coinLedger w' = coinLedger w" "pointLedger w' = pointLedger w" "wallets w' = wallets w" "luckyPools w' = luckyPools w"
    "giftTransactions w' = giftTransactions w" "gifts w' = gifts w"
proof -
  obtain p c a where "w' = w\<lparr>luckyShadowPools := p, luckyShadowCursor := c, luckyAudits := a\<rparr>"
    using assms unfolding shadowFrame_def by blast
  then show "luckyConfigs w' = luckyConfigs w" "luckyModes w' = luckyModes w" "luckySeeds w' = luckySeeds w" "clock w' = clock w"
    "coinLedger w' = coinLedger w" "pointLedger w' = pointLedger w" "wallets w' = wallets w" "luckyPools w' = luckyPools w"
    "giftTransactions w' = giftTransactions w" "gifts w' = gifts w" by simp_all
qed

lemma cacheCoherent_cong:
  "luckyConfigs w' = luckyConfigs w \<Longrightarrow> luckySeeds w' = luckySeeds w \<Longrightarrow> cacheCoherent w' cache = cacheCoherent w cache"
  by (simp add: cacheCoherent_def rowsKnown_def latestIndex_def configsInOrder_def seedKnown_def)

lemma advance_fields [simp]:
  "luckyShadowCursor (advanceCursor t i w) = Some (Some t, Some i)" "luckyAudits (advanceCursor t i w) = luckyAudits w"
  by (simp_all add: advanceCursor_def)

text \<open>A virtual draw always goes through and leaves one record.\<close>

definition recordOf :: "ShadowGiftRow \<Rightarrow> int \<Rightarrow> lucky_audit_row \<Rightarrow> bool" where
  "recordOf row t a \<longleftrightarrow> la_key a = shadowAuditIdempotencyKey (sg_id row) \<and> la_mode a = ''shadow'' \<and> la_engine a = ''water_v1''
     \<and> la_sender a = Some (sg_senderUserId row) \<and> la_giftTransactionId a = Some (sg_id row) \<and> la_createdAt a = t
     \<and> la_senderBalanceAfter a = None"

lemma processShadowDraw_effect:
  assumes new: "findAudit w (shadowAuditIdempotencyKey (sg_id row)) = None" and price: "0 \<le> sg_unitPrice row" "0 \<le> cfg_mMax c"
  shows "\<exists>w' a. processShadowDraw rolls row c w = Inr ((), w') \<and> shadowFrame w w' \<and> luckyAudits w' = luckyAudits w @ [a]
     \<and> recordOf row (clock w) a \<and> luckyShadowCursor w' = Some (Some (sg_createdAt row), Some (sg_id row))"
proof -
  obtain b w1 where en: "ensureShadowPoolAtL0 c w = (b, w1)" by fastforce
  have "\<exists>ps. w1 = w\<lparr>luckyShadowPools := ps\<rparr>"
  proof (cases "luckyShadowPools w (cfg_tierId c)")
    case None
    then show ?thesis using en by (auto simp: ensureShadowPoolAtL0_def)
  next
    case (Some x)
    then have "w1 = w\<lparr>luckyShadowPools := luckyShadowPools w\<rparr>" using en by (cases x) (simp add: ensureShadowPoolAtL0_def)
    then show ?thesis by blast
  qed
  then obtain ps where w1: "w1 = w\<lparr>luckyShadowPools := ps\<rparr>" by blast
  have some: "luckyShadowPools w1 (cfg_tierId c) \<noteq> None"
    using en by (auto simp: ensureShadowPoolAtL0_def split: option.splits prod.splits)
  define p where "p = waterParams rolls c (sg_unitPrice row) (sg_quantity row) (b + computeInflow (sg_unitPrice row * sg_quantity row) (cfg_rBp c))
     (readShadowUserCaps (sg_senderUserId row) (cfg_dailyWinCapCoins c) (cfg_coolDownSeconds c) w1)"
  have pf: "0 \<le> unitPrice p" "0 \<le> mMax p" "pfloor p = cfg_floor c" using price by (simp_all add: p_def waterParams_def)
  have "totalPaid (drawUnits p) = 0 \<or> cfg_floor c \<le> finalWater (drawUnits p)"
  proof (cases "0 < totalPaid (drawUnits p)")
    case True
    then show ?thesis using drawUnits_facts [OF pf(1,2)] pf(3) by simp
  next
    case False
    then show ?thesis using drawInv_total_nonneg [OF drawUnits_inv [OF pf(1,2)]] by (simp add: drawUnits_sel)
  qed
  then obtain ps' where up: "updateShadowPool c (drawUnits p) w1 = Inr ((), w\<lparr>luckyShadowPools := ps'\<rparr>)"
    using some by (simp add: updateShadowPool_def w1)
  let ?w2 = "w\<lparr>luckyShadowPools := ps'\<rparr>"
  define a where "a = shadowAudit row c (drawnRecord c b (computeInflow (sg_unitPrice row * sg_quantity row) (cfg_rBp c)) (drawUnits p))
     (drawUnits p) ?w2"
  have rec: "recordOf row (clock w) a" by (simp add: recordOf_def a_def shadowAudit_def)
  have au: "auditCreate a ?w2 = Inr ((), ?w2\<lparr>luckyAudits := luckyAudits w @ [a]\<rparr>)"
    using new rec by (simp add: auditCreate_def findAudit_def recordOf_def)
  have "processShadowDraw rolls row c w = Inr ((), advanceCursor (sg_createdAt row) (sg_id row) (?w2\<lparr>luckyAudits := luckyAudits w @ [a]\<rparr>))"
    unfolding processShadowDraw_def Let_def en split_conv p_def [symmetric] up andThen_simps a_def [symmetric] au using new by simp
  moreover have "shadowFrame w (advanceCursor (sg_createdAt row) (sg_id row) (?w2\<lparr>luckyAudits := luckyAudits w @ [a]\<rparr>))"
    using shadowFrame_trans [OF shadowFrame_trans [OF shadowFrame_steps(2) shadowFrame_steps(3)] shadowFrame_steps(1)] .
  ultimately show ?thesis using rec by (intro exI conjI) (assumption | simp add: advanceCursor_def)+
qed

lemma processShadowGiftRow_effect:
  assumes co: "cacheCoherent w cache" and mm: "\<forall>row\<in>set (luckyConfigs w). 0 \<le> lc_mMax row" and price: "0 \<le> sg_unitPrice row"
    and ids: "distinct (map lc_id (luckyConfigs w))"
  shows "\<exists>outcome w' cache' as. processShadowGiftRow rolls row cache w = (Inr (outcome, w'), cache') \<and> shadowFrame w w'
     \<and> cacheCoherent w' cache' \<and> luckyShadowCursor w' = Some (Some (sg_createdAt row), Some (sg_id row))
     \<and> luckyAudits w' = luckyAudits w @ as \<and> (\<forall>a\<in>set as. recordOf row (clock w) a)
     \<and> as = (if outcome = Drawn then [hd as] else [])
     \<and> (outcome = Drawn \<longrightarrow> findAudit w (shadowAuditIdempotencyKey (sg_id row)) = None)"
proof -
  obtain config cache1 where r: "resolveTierConfig w (sg_unitPrice row) cache = (config, cache1)" by fastforce
  have co1: "cacheCoherent w cache1"
    using resolveTierConfig_coherent(2) [OF co coherent_bust ids, of "sg_unitPrice row"] r by simp
  let ?adv = "advanceCursor (sg_createdAt row) (sg_id row) w"
  have coAdv: "cacheCoherent ?adv cache1" using co1 cacheCoherent_cong [of ?adv w] by (simp add: advanceCursor_def)
  have idle: ?thesis if "processShadowGiftRow rolls row cache w = (Inr (oc, ?adv), cache1)" "oc \<noteq> Drawn" for oc
    using that coAdv shadowFrame_steps(1) by (intro exI [of _ oc] exI [of _ ?adv] exI [of _ cache1] exI [of _ "[]"]) simp
  show ?thesis
  proof (cases config)
    case None
    then show ?thesis using r by (intro idle [of Skipped]) (simp_all add: processShadowGiftRow_def)
  next
    case (Some c)
    show ?thesis
    proof (cases "rc_mode c = ''shadow'' \<and> findAudit w (shadowAuditIdempotencyKey (sg_id row)) = None")
      case False
      then consider "rc_mode c \<noteq> ''shadow''" | "rc_mode c = ''shadow''" "findAudit w (shadowAuditIdempotencyKey (sg_id row)) \<noteq> None"
        by (cases "rc_mode c = ''shadow''") simp_all
      then show ?thesis
      proof cases
        case 1
        then show ?thesis using r Some by (intro idle [of Skipped]) (simp_all add: processShadowGiftRow_def)
      next
        case 2
        then show ?thesis using r Some by (intro idle [of Noop]) (simp_all add: processShadowGiftRow_def)
      qed
    next
      case True
      have "rc_immutable c \<in> rowToImmutable ` set (luckyConfigs w)"
        using resolveTierConfig_row [OF co] r Some by (metis fst_conv)
      then have "0 \<le> cfg_mMax (rc_immutable c)" using mm by (auto simp: rowToImmutable_def)
      from processShadowDraw_effect [OF conjunct2 [OF True] price this, of rolls] obtain w' a where
        d: "processShadowDraw rolls row (rc_immutable c) w = Inr ((), w')" "shadowFrame w w'" "luckyAudits w' = luckyAudits w @ [a]"
          "recordOf row (clock w) a" "luckyShadowCursor w' = Some (Some (sg_createdAt row), Some (sg_id row))" by blast
      have "processShadowGiftRow rolls row cache w = (Inr (Drawn, w'), cache1)"
        using r Some True d(1) by (simp add: processShadowGiftRow_def)
      moreover have "cacheCoherent w' cache1" using co1 cacheCoherent_cong shadowFrame_keeps(1,3) [OF d(2)] by blast
      ultimately show ?thesis using d True by (intro exI [of _ Drawn] exI [of _ w'] exI [of _ cache1] exI [of _ "[a]"]) simp
    qed
  qed
qed

lemma shadowLoop_effect:
  assumes "cacheCoherent w cache" "\<forall>row\<in>set (luckyConfigs w). 0 \<le> lc_mMax row" "\<forall>row\<in>set rows. 0 \<le> sg_unitPrice row"
    "distinct (map lc_id (luckyConfigs w))" "shadowLoop rolls rows r cache w = (r', cache', w')"
    "processed r = drawnCount r + skippedCount r + noops r"
  shows "shadowFrame w w' \<and> cacheCoherent w' cache' \<and> errors r' = errors r \<and> processed r' = processed r + length rows
     \<and> processed r' = drawnCount r' + skippedCount r' + noops r'
     \<and> luckyShadowCursor w' = (if rows = [] then luckyShadowCursor w else Some (Some (sg_createdAt (last rows)), Some (sg_id (last rows))))
     \<and> (\<exists>as. luckyAudits w' = luckyAudits w @ as \<and> length as + drawnCount r = drawnCount r'
          \<and> (\<forall>a\<in>set as. \<exists>row\<in>set rows. recordOf row (clock w) a))
     \<and> (distinct (map la_key (luckyAudits w)) \<longrightarrow> distinct (map la_key (luckyAudits w')))"
  using assms
proof (induction rows arbitrary: r cache w)
  case Nil
  then show ?case by simp
next
  case (Cons row rows)
  have price: "0 \<le> sg_unitPrice row" using Cons.prems(3) by simp
  from processShadowGiftRow_effect [OF Cons.prems(1,2) price Cons.prems(4), of "rolls (sg_id row)"] obtain oc w1 cache1 as where
    p: "processShadowGiftRow (rolls (sg_id row)) row cache w = (Inr (oc, w1), cache1)" and f: "shadowFrame w w1" and co: "cacheCoherent w1 cache1"
    and cur: "luckyShadowCursor w1 = Some (Some (sg_createdAt row), Some (sg_id row))" and au: "luckyAudits w1 = luckyAudits w @ as"
    and rec: "\<forall>a\<in>set as. recordOf row (clock w) a" and as: "as = (if oc = Drawn then [hd as] else [])"
    and new: "oc = Drawn \<longrightarrow> findAudit w (shadowAuditIdempotencyKey (sg_id row)) = None" by blast
  note k = shadowFrame_keeps [OF f]
  let ?r = "countOutcome oc r"
  have cnt: "processed ?r = Suc (processed r)" "errors ?r = errors r" "processed ?r = drawnCount ?r + skippedCount ?r + noops ?r"
    "drawnCount ?r = drawnCount r + length as"
    using Cons.prems(6) as by (cases oc; simp add: countOutcome_def Let_def split: if_splits; metis length_Cons list.size(3) Suc_eq_plus1)+
  have run: "shadowLoop rolls rows ?r cache1 w1 = (r', cache', w')" using Cons.prems(5) p by simp
  have ih: "shadowFrame w1 w' \<and> cacheCoherent w' cache' \<and> errors r' = errors ?r \<and> processed r' = processed ?r + length rows
     \<and> processed r' = drawnCount r' + skippedCount r' + noops r'
     \<and> luckyShadowCursor w' = (if rows = [] then luckyShadowCursor w1 else Some (Some (sg_createdAt (last rows)), Some (sg_id (last rows))))
     \<and> (\<exists>as. luckyAudits w' = luckyAudits w1 @ as \<and> length as + drawnCount ?r = drawnCount r'
          \<and> (\<forall>a\<in>set as. \<exists>row\<in>set rows. recordOf row (clock w1) a))
     \<and> (distinct (map la_key (luckyAudits w1)) \<longrightarrow> distinct (map la_key (luckyAudits w')))"
    by (rule Cons.IH [OF co _ _ _ run cnt(3)]) (use Cons.prems k in simp_all)
  have dist: "distinct (map la_key (luckyAudits w1))" if "distinct (map la_key (luckyAudits w))"
  proof (cases "oc = Drawn")
    case True
    then have h: "as = [hd as]" using as by simp
    then have "la_key (hd as) = shadowAuditIdempotencyKey (sg_id row)" using rec by (metis recordOf_def list.set_intros(1))
    moreover have "shadowAuditIdempotencyKey (sg_id row) \<notin> la_key ` set (luckyAudits w)"
      using new True by (auto simp: findAudit_def find_None_iff)
    ultimately show ?thesis using that au h by (metis (no_types, lifting) distinct_append distinct_singleton list.simps(8,9) map_append
          set_map list.set(1,2) insert_disjoint(2) Int_empty_right Int_commute)
  next
    case False
    then show ?thesis using as au that by simp
  qed
  obtain bs where bs: "luckyAudits w' = luckyAudits w1 @ bs" "length bs + drawnCount ?r = drawnCount r'"
    "\<forall>a\<in>set bs. \<exists>row\<in>set rows. recordOf row (clock w1) a" using ih by blast
  have all: "luckyAudits w' = luckyAudits w @ (as @ bs)" "length (as @ bs) + drawnCount r = drawnCount r'"
    "\<forall>a\<in>set (as @ bs). \<exists>x\<in>set (row # rows). recordOf x (clock w) a"
    using bs au rec cnt(4) k(4) by auto
  show ?case
    using ih cur shadowFrame_trans [OF f] cnt(1,2) dist all by (intro conjI exI [of _ "as @ bs"]) auto
qed

lemma batch_rows:
  assumes "luckyShadowCursor w = Some (Some t, Some i)" "fetchShadowGiftBatch n w = (rows, w1)"
  shows "w1 = w" "set rows \<subseteq> set (settledAfter t i w)" "length rows \<le> n"
proof -
  show "w1 = w" "length rows \<le> n" using assms by (auto simp: fetchShadowGiftBatch_def)
  show "set rows \<subseteq> set (settledAfter t i w)"
    using assms set_take_subset [of n "sort_key sg_createdAt (sort_key sg_id (settledAfter t i w))"]
    by (auto simp: fetchShadowGiftBatch_def)
qed

lemma shadowRows_mem:
  "r \<in> set (shadowRows w) \<Longrightarrow> \<exists>gt g. gt \<in> set (giftTransactions w) \<and> gifts w (gt_giftId gt) = Some g \<and> gt_id gt = sg_id r
     \<and> gt_context gt = sg_context r \<and> gt_createdAt gt = sg_createdAt r \<and> sg_unitPrice r = gift_coinCost g"
  by (force simp: shadowRows_def List.map_filter_def split: option.splits)

text \<open>The gift transactions a tick may look at: lucky, and older than the longest money transaction.\<close>

definition settledGift :: "gift_tx_row \<Rightarrow> int \<Rightarrow> bool" where
  "settledGift gt t \<longleftrightarrow> gt_createdAt gt + 55000 < t \<and> (gt_context gt = ''LUCKY_SINGLE'' \<or> gt_context gt = ''LUCKY_COMBO'')"

text \<open>
  C36. A tick of the shadow worker moves nothing. It changes virtual pools, its cursor and the records of
  draws; no wallet, no ledger row, no live pool and no gift. It never fails on a row; it handles at most
  fifty gifts and counts each of them once. Every record it adds is marked as shadow and belongs to a
  lucky gift that was settled longer ago than any money transaction lasts; no gift is recorded twice. The
  cursor only moves forward.
\<close>

theorem shadow_tick_isolated:
  assumes co: "cacheCoherent w cache" and mm: "\<forall>row\<in>set (luckyConfigs w). 0 \<le> lc_mMax row"
    and ids: "distinct (map lc_id (luckyConfigs w))" and keys: "distinct (map la_key (luckyAudits w))"
    and prices: "\<forall>i g. gifts w i = Some g \<longrightarrow> 0 \<le> gift_coinCost g"
    and run: "runShadowWorkerTick rolls cache w = (r, cache', w')"
  shows "(\<exists>ps cur as. w' = w\<lparr>luckyShadowPools := ps, luckyShadowCursor := cur, luckyAudits := luckyAudits w @ as\<rparr>
        \<and> length as = drawnCount r
        \<and> (\<forall>a\<in>set as. la_mode a = ''shadow''
              \<and> (\<exists>gt\<in>set (giftTransactions w). settledGift gt (clock w) \<and> la_key a = shadowAuditIdempotencyKey (gt_id gt))))
    \<and> errors r = 0 \<and> processed r = drawnCount r + skippedCount r + noops r \<and> processed r \<le> 50
    \<and> distinct (map la_key (luckyAudits w')) \<and> cacheCoherent w' cache'
    \<and> (\<forall>t i. luckyShadowCursor w = Some (Some t, Some i) \<longrightarrow>
          (\<exists>t' i'. luckyShadowCursor w' = Some (Some t', Some i') \<and> (t < t' \<or> t = t' \<and> i \<le> i')))"
proof -
  let ?goal = "\<lambda>w' r cache'. (\<exists>as. shadowFrame w w' \<and> luckyAudits w' = luckyAudits w @ as \<and> length as = drawnCount r
        \<and> (\<forall>a\<in>set as. la_mode a = ''shadow''
              \<and> (\<exists>gt\<in>set (giftTransactions w). settledGift gt (clock w) \<and> la_key a = shadowAuditIdempotencyKey (gt_id gt))))
    \<and> errors r = 0 \<and> processed r = drawnCount r + skippedCount r + noops r \<and> processed r \<le> 50
    \<and> distinct (map la_key (luckyAudits w')) \<and> cacheCoherent w' cache'
    \<and> (\<forall>t i. luckyShadowCursor w = Some (Some t, Some i) \<longrightarrow>
          (\<exists>t' i'. luckyShadowCursor w' = Some (Some t', Some i') \<and> (t < t' \<or> t = t' \<and> i \<le> i')))"
  have park: "?goal (parkShadowCursor w) noShadowWork cache"
  proof -
    have "cacheCoherent (parkShadowCursor w) cache"
      using co cacheCoherent_cong shadowFrame_keeps(1,3) [OF shadowFrame_steps(4)] by blast
    moreover have "luckyAudits (parkShadowCursor w) = luckyAudits w"
      by (simp add: parkShadowCursor_def Let_def split: option.split prod.split)
    moreover have "luckyShadowCursor w = Some (Some t, Some i) \<longrightarrow> (\<exists>t' i'. luckyShadowCursor (parkShadowCursor w) = Some (Some t', Some i')
        \<and> (t < t' \<or> t = t' \<and> i \<le> i'))" for t i
      by (auto simp: parkShadowCursor_def Let_def)
    ultimately show ?thesis using keys shadowFrame_steps(4) by (simp add: noShadowWork_def)
  qed
  have "?goal w' r cache'"
  proof (cases "anyTierInShadowMode w")
    case False
    then show ?thesis using run park by (simp add: runShadowWorkerTick_def)
  next
    case True
    show ?thesis
    proof (cases "\<exists>t i. luckyShadowCursor w = Some (Some t, Some i)")
      case False
      then have "fetchShadowGiftBatch SHADOW_WORKER_BATCH_SIZE w = ([], parkShadowCursor w)"
        by (auto simp: fetchShadowGiftBatch_def split: option.split prod.split)
      then show ?thesis using run park True by (simp add: runShadowWorkerTick_def)
    next
      case cur: True
      then obtain t i where ti: "luckyShadowCursor w = Some (Some t, Some i)" by blast
      obtain rows w1 where b: "fetchShadowGiftBatch SHADOW_WORKER_BATCH_SIZE w = (rows, w1)" by fastforce
      note br = batch_rows [OF ti b]
      have loop: "shadowLoop rolls rows noShadowWork cache w = (r, cache', w')"
        using run True b br(1) by (simp add: runShadowWorkerTick_def)
      have row: "\<exists>gt\<in>set (giftTransactions w). settledGift gt (clock w) \<and> gt_id gt = sg_id x" "0 \<le> sg_unitPrice x" "afterCursor t i x"
        if x: "x \<in> set rows" for x
      proof -
        have s: "x \<in> set (shadowRows w)" "sg_context x = ''LUCKY_SINGLE'' \<or> sg_context x = ''LUCKY_COMBO''"
          "sg_createdAt x < clock w - SHADOW_SETTLE_LAG_MS" "afterCursor t i x"
          using br(2) x by (auto simp: settledAfter_def)
        from shadowRows_mem [OF s(1)] obtain gt g where gt: "gt \<in> set (giftTransactions w)" "gifts w (gt_giftId gt) = Some g" "gt_id gt = sg_id x"
          "gt_context gt = sg_context x" "gt_createdAt gt = sg_createdAt x" "sg_unitPrice x = gift_coinCost g" by blast
        then show "\<exists>gt\<in>set (giftTransactions w). settledGift gt (clock w) \<and> gt_id gt = sg_id x"
          using s(2,3) by (intro bexI [of _ gt]) (auto simp: settledGift_def SHADOW_SETTLE_LAG_MS_def)
        show "0 \<le> sg_unitPrice x" using prices gt(2,6) by simp
        show "afterCursor t i x" by (rule s(4))
      qed
      have z: "processed noShadowWork = 0" "drawnCount noShadowWork = 0" "skippedCount noShadowWork = 0" "noops noShadowWork = 0"
        "errors noShadowWork = 0" by (simp_all add: noShadowWork_def)
      have pr: "\<forall>row\<in>set rows. 0 \<le> sg_unitPrice row" using row(2) by blast
      have e: "shadowFrame w w'" "cacheCoherent w' cache'" "errors r = 0" "processed r = length rows"
        "processed r = drawnCount r + skippedCount r + noops r"
        "luckyShadowCursor w' = (if rows = [] then luckyShadowCursor w else Some (Some (sg_createdAt (last rows)), Some (sg_id (last rows))))"
        "\<exists>as. luckyAudits w' = luckyAudits w @ as \<and> length as = drawnCount r \<and> (\<forall>a\<in>set as. \<exists>row\<in>set rows. recordOf row (clock w) a)"
        "distinct (map la_key (luckyAudits w'))"
        using shadowLoop_effect [OF co mm pr ids loop] z keys by simp_all
      obtain as where as: "luckyAudits w' = luckyAudits w @ as" "length as = drawnCount r" "\<forall>a\<in>set as. \<exists>row\<in>set rows. recordOf row (clock w) a"
        using e(7) by blast
      have "la_mode a = ''shadow'' \<and> (\<exists>gt\<in>set (giftTransactions w). settledGift gt (clock w) \<and> la_key a = shadowAuditIdempotencyKey (gt_id gt))"
        if "a \<in> set as" for a
        using as(3) that row(1) by (fastforce simp: recordOf_def)
      moreover have "\<exists>t' i'. luckyShadowCursor w' = Some (Some t', Some i') \<and> (t < t' \<or> t = t' \<and> i \<le> i')"
        using e(6) ti row(3) [of "last rows"] by (auto simp: afterCursor_def)
      moreover have "processed r \<le> 50" using e(4) br(3) by (simp add: SHADOW_WORKER_BATCH_SIZE_def)
      ultimately show ?thesis using e as ti by auto
    qed
  qed
  then obtain as where as: "shadowFrame w w'" "luckyAudits w' = luckyAudits w @ as" and rest: "?goal w' r cache'" by blast
  have "w' = w\<lparr>luckyShadowPools := luckyShadowPools w', luckyShadowCursor := luckyShadowCursor w', luckyAudits := luckyAudits w @ bs\<rparr>"
    if "luckyAudits w' = luckyAudits w @ bs" for bs
    using as(1) unfolding shadowFrame_def that .
  then show ?thesis using rest by blast
qed

text \<open>A tier in shadow mode and one settled combo of three gifts.\<close>

definition sampleShadowGift :: gift_tx_row where
  "sampleShadowGift = \<lparr> gt_id = ''lt1'', gt_sender = 8, gt_receiver = 7, gt_giftId = ''clover'', gt_coinCost = 300, gt_quantity = 3,
     gt_pointsAwarded = 12, gt_context = ''LUCKY_COMBO'', gt_createdAt = 2000 \<rparr>"

definition sampleShadowWorld :: world where
  "sampleShadowWorld = sampleTierWorld\<lparr>luckyModes := [''T100'' \<mapsto> ''shadow''], gifts := [''clover'' \<mapsto> sampleClover],
     giftTransactions := [sampleShadowGift], luckyShadowCursor := Some (Some 1000, Some ''a''), clock := 100000\<rparr>"

definition sampleShadowRow :: ShadowGiftRow where
  "sampleShadowRow = \<lparr> sg_id = ''lt1'', sg_senderUserId = 8, sg_giftId = ''clover'', sg_totalCoinCost = 300, sg_quantity = 3,
     sg_context = ''LUCKY_COMBO'', sg_createdAt = 2000, sg_unitPrice = 100 \<rparr>"

lemma sampleShadow_ok:
  "cacheCoherent sampleShadowWorld bustLuckyTierConfigCache" "\<forall>row\<in>set (luckyConfigs sampleShadowWorld). 0 \<le> lc_mMax row"
  "distinct (map lc_id (luckyConfigs sampleShadowWorld))" "distinct (map la_key (luckyAudits sampleShadowWorld))"
  "\<forall>i g. gifts sampleShadowWorld i = Some g \<longrightarrow> 0 \<le> gift_coinCost g" "0 \<le> sg_unitPrice sampleShadowRow"
  "fetchShadowGiftBatch SHADOW_WORKER_BATCH_SIZE sampleShadowWorld = ([sampleShadowRow], sampleShadowWorld)"
  "anyTierInShadowMode sampleShadowWorld"
  by (simp_all add: sampleShadowWorld_def sampleTierWorld_def sampleTierRow_def emptyWorld_def sampleClover_def sampleShadowRow_def
      fetchShadowGiftBatch_def settledAfter_def shadowRows_def List.map_filter_def sampleShadowGift_def afterCursor_def
      SHADOW_SETTLE_LAG_MS_def SHADOW_WORKER_BATCH_SIZE_def anyTierInShadowMode_def)

lemma sampleShadow_drawn:
  "\<exists>w' cache'. processShadowGiftRow rolls sampleShadowRow bustLuckyTierConfigCache sampleShadowWorld = (Inr (Drawn, w'), cache')"
proof -
  have r: "fst (resolveTierConfig sampleShadowWorld 100 bustLuckyTierConfigCache)
      = Some \<lparr> rc_immutable = rowToImmutable sampleTierRow, rc_mode = ''shadow'' \<rparr>"
    by (simp add: resolveTierConfig_def refreshLatestConfigIndex_def chooseMeta_def loadImmutable_def
      configsInOrder_def pickTierMetaForPrice_def inRange_def metaOf_def readTierModeInTx_def
      bustLuckyTierConfigCache_def sampleShadowWorld_def sampleTierWorld_def emptyWorld_def sampleTierRow_def rowToImmutable_def Let_def)
  have new: "findAudit sampleShadowWorld (shadowAuditIdempotencyKey (sg_id sampleShadowRow)) = None"
    by (simp add: findAudit_def sampleShadowWorld_def sampleTierWorld_def emptyWorld_def)
  obtain w' where "processShadowDraw rolls sampleShadowRow (rowToImmutable sampleTierRow) sampleShadowWorld = Inr ((), w')"
    using processShadowDraw_effect [OF new sampleShadow_ok(6), of "rowToImmutable sampleTierRow" rolls]
    by (auto simp: rowToImmutable_def sampleTierRow_def)
  then show ?thesis
    using r new by (cases "resolveTierConfig sampleShadowWorld 100 bustLuckyTierConfigCache")
      (simp add: processShadowGiftRow_def sampleShadowRow_def)
qed

theorem shadow_tick_isolated_witness:
  "\<exists>r cache' w'. runShadowWorkerTick (\<lambda>_ _. 5000) bustLuckyTierConfigCache sampleShadowWorld = (r, cache', w')
     \<and> errors r = 0 \<and> drawnCount r = 1 \<and> length (luckyAudits w') = 1 \<and> luckyPools w' = luckyPools sampleShadowWorld
     \<and> coinLedger w' = coinLedger sampleShadowWorld"
proof -
  obtain w' cache' where p: "processShadowGiftRow (\<lambda>_. 5000) sampleShadowRow bustLuckyTierConfigCache sampleShadowWorld = (Inr (Drawn, w'), cache')"
    using sampleShadow_drawn by blast
  have run: "runShadowWorkerTick (\<lambda>_ _. 5000) bustLuckyTierConfigCache sampleShadowWorld = (countOutcome Drawn noShadowWork, cache', w')"
    using p sampleShadow_ok(7,8) by (simp add: runShadowWorkerTick_def)
  have "drawnCount (countOutcome Drawn noShadowWork) = 1" by (simp add: countOutcome_def noShadowWork_def)
  moreover have "luckyAudits sampleShadowWorld = []" by (simp add: sampleShadowWorld_def sampleTierWorld_def emptyWorld_def)
  ultimately show ?thesis using shadow_tick_isolated [OF sampleShadow_ok(1-5) run] run by auto
qed

section \<open>Virtual wins and the real caps\<close>

text \<open>
  C37. The caps of a real send count virtual wins. The record of a shadow draw names the same engine as a
  real draw, and the query behind the daily win cap and the cool-down filters by engine, not by mode: a
  win that the shadow worker draws for a user, which pays no coin, uses up the same amount of the user's
  daily cap in the tiers that are in force, and a virtual big win starts the cool-down there.
\<close>

theorem shadow_wins_use_up_caps:
  assumes co: "cacheCoherent w cache" and mm: "\<forall>row\<in>set (luckyConfigs w). 0 \<le> lc_mMax row"
    and ids: "distinct (map lc_id (luckyConfigs w))" and price: "0 \<le> sg_unitPrice row"
    and run: "processShadowGiftRow rolls row cache w = (Inr (Drawn, w'), cache')" and cap: "0 < cap" "0 < cool"
  shows "coinLedger w' = coinLedger w
    \<and> (\<exists>a. luckyAudits w' = luckyAudits w @ [a] \<and> la_mode a = ''shadow'' \<and> la_sender a = Some (sg_senderUserId row)
         \<and> fst (readWaterUserCaps (sg_senderUserId row) cap cool w')
             = fst (readWaterUserCaps (sg_senderUserId row) cap cool w) + la_paidReward a
         \<and> (dj_bigWin (la_drawn a) \<longrightarrow> snd (readWaterUserCaps (sg_senderUserId row) cap cool w')))"
proof -
  from processShadowGiftRow_effect [OF co mm price ids, of rolls] run obtain as where f: "shadowFrame w w'"
    and au: "luckyAudits w' = luckyAudits w @ as" "\<forall>a\<in>set as. recordOf row (clock w) a" "as = [hd as]" by auto
  define a where "a = hd as"
  have as: "as = [a]" using au(3) by (simp add: a_def)
  have rec: "recordOf row (clock w) a" using au(2) as by simp
  note k = shadowFrame_keeps [OF f]
  have day: "utcDayStart (clock w) \<le> clock w" by (simp add: utcDayStart_def utcDayFromTimestamp_def div_times_less_eq_dividend)
  have "fst (readWaterUserCaps (sg_senderUserId row) cap cool w')
      = fst (readWaterUserCaps (sg_senderUserId row) cap cool w) + la_paidReward a"
    using cap day rec by (simp add: readWaterUserCaps_def au(1) as k(4) recordOf_def)
  moreover have "dj_bigWin (la_drawn a) \<longrightarrow> snd (readWaterUserCaps (sg_senderUserId row) cap cool w')"
    using cap rec by (auto simp: readWaterUserCaps_def au(1) as k(4) recordOf_def find_None_iff intro!: exI [of _ a])
  ultimately show ?thesis using rec k(5) au(1) as by (auto simp: recordOf_def)
qed

theorem shadow_wins_use_up_caps_witness:
  "\<exists>w' cache' a. processShadowGiftRow (\<lambda>_. 9999) sampleShadowRow bustLuckyTierConfigCache sampleShadowWorld = (Inr (Drawn, w'), cache')
     \<and> luckyAudits w' = luckyAudits sampleShadowWorld @ [a] \<and> la_mode a = ''shadow''
     \<and> fst (readWaterUserCaps 8 5000 60 w') = fst (readWaterUserCaps 8 5000 60 sampleShadowWorld) + la_paidReward a"
proof -
  obtain w' cache' where p: "processShadowGiftRow (\<lambda>_. 9999) sampleShadowRow bustLuckyTierConfigCache sampleShadowWorld = (Inr (Drawn, w'), cache')"
    using sampleShadow_drawn by blast
  have s: "sg_senderUserId sampleShadowRow = 8" by (simp add: sampleShadowRow_def)
  note r = shadow_wins_use_up_caps [OF sampleShadow_ok(1-3,6) p, of 5000 60, unfolded s, OF zero_less_numeral zero_less_numeral]
  from r obtain a where a: "luckyAudits w' = luckyAudits sampleShadowWorld @ [a]" "la_mode a = ''shadow''"
    "fst (readWaterUserCaps 8 5000 60 w') = fst (readWaterUserCaps 8 5000 60 sampleShadowWorld) + la_paidReward a"
    by blast
  show ?thesis by (rule exI [of _ w'], rule exI [of _ cache'], rule exI [of _ a]) (intro conjI p a)
qed

end
