(* ===== verification/LuckyAdmin.thy ===== *)
theory LuckyAdmin
  imports LuckyTier
begin

text \<open>
  The administration of the lucky tiers (\<open>src/src/services/luckyTierAdmin.service.ts\<close>), of the host
  revenue shares (\<open>hostRevenueShareConfig.service.ts\<close>) and of the agency commission levels
  (\<open>replaceCommissionLevels\<close> of \<open>systemRatesAdmin.service.ts\<close>). These three write the tables the self
  gift guard F2 is computed from: the weights of a tier, the host share, and the highest commission
  rate an agency can have. The theory shows which of them keep the guard true for the tiers in use.

  Configuration rows leave out \<open>createdBy\<close> and \<open>createdAt\<close>; the audit log, which nothing reads back,
  is not kept. Reads from the replica see the committed state. Of a commission level the model keeps
  the two rates.
\<close>

section \<open>Reading the tables\<close>

definition getTierMode :: "world \<Rightarrow> string \<Rightarrow> string" where
  "getTierMode w tier = (case luckyModes w tier of None \<Rightarrow> ''off'' | Some m \<Rightarrow> m)"

definition getLatestConfig :: "world \<Rightarrow> string \<Rightarrow> lucky_config_row option" where
  "getLatestConfig w tier =
     (case sort_key (\<lambda>r. - lc_version r) (filter (\<lambda>r. lc_tierId r = tier) (luckyConfigs w)) of
        [] \<Rightarrow> None
      | r # _ \<Rightarrow> Some r)"

text \<open>The rates of every level. The source orders the rows by a sort key; only their maximum is used.\<close>

definition levelRates :: "world \<Rightarrow> (int \<times> int) list" where
  "levelRates w = map (\<lambda>k. the (commissionLevels w k)) (sorted_list_of_set (dom (commissionLevels w)))"

definition econRow :: "lucky_config_row \<Rightarrow> LuckyTierEconRow" where
  "econRow row = \<lparr> teR = lc_rBp row, teVMax = lc_vMaxBp row, teSafety = lc_safetyMarginBp row, teMinGap = lc_minGapBp row,
     teVersion = lc_version row, teWeights = lc_bandWeights row \<rparr>"

definition validateWeightsForTier :: "world \<Rightarrow> lucky_config_row \<Rightarrow> error + (LuckyBand \<Rightarrow> rat)" where
  "validateWeightsForTier w tier =
     (if 10000 < lc_rBp tier + lc_jBp tier then Inl (AppError 422 ''LUCKY_TIER_ECON_INVALID'' [])
      else
        (case validateBandWeights (lc_bandWeights tier) (buildLuckyF2Econ (levelRates w) (shares w) (econRow tier)) of
           Inr ev \<Rightarrow> Inr ev
         | Inl e \<Rightarrow> Inl (if e = LuckyWeightsError then AppError 422 ''LUCKY_TIER_F2_VIOLATION'' [] else e)))"

section \<open>A new version of a configuration\<close>

record config_patch =
  cp_rBp :: "int option"
  cp_jBp :: "int option"
  cp_l0 :: "int option"
  cp_floor :: "int option"
  cp_criticalMaxBp :: "int option"
  cp_lowMaxBp :: "int option"
  cp_normalMaxBp :: "int option"
  cp_bandWeights :: "BandWeightsByBand option"
  cp_weightTableId :: "string option"
  cp_mMax :: "int option"
  cp_vMaxBp :: "int option"
  cp_safetyMarginBp :: "int option"
  cp_minGapBp :: "int option"
  cp_dailyWinCapCoins :: "int option"
  cp_coolDownSeconds :: "int option"

definition orElse :: "'a option \<Rightarrow> 'a \<Rightarrow> 'a" where
  "orElse x d = (case x of None \<Rightarrow> d | Some v \<Rightarrow> v)"

definition nextVersion :: "nat \<Rightarrow> string \<Rightarrow> config_patch \<Rightarrow> lucky_config_row \<Rightarrow> lucky_config_row" where
  "nextVersion i mode patch latest =
     latest\<lparr> lc_id := i, lc_version := lc_version latest + 1, lc_mode := mode,
       lc_rBp := orElse (cp_rBp patch) (lc_rBp latest), lc_jBp := orElse (cp_jBp patch) (lc_jBp latest),
       lc_l0 := orElse (cp_l0 patch) (lc_l0 latest), lc_floor := orElse (cp_floor patch) (lc_floor latest),
       lc_criticalMaxBp := orElse (cp_criticalMaxBp patch) (lc_criticalMaxBp latest),
       lc_lowMaxBp := orElse (cp_lowMaxBp patch) (lc_lowMaxBp latest),
       lc_normalMaxBp := orElse (cp_normalMaxBp patch) (lc_normalMaxBp latest),
       lc_bandWeights := orElse (cp_bandWeights patch) (lc_bandWeights latest),
       lc_weightTableId := orElse (cp_weightTableId patch) (lc_weightTableId latest),
       lc_mMax := orElse (cp_mMax patch) (lc_mMax latest), lc_vMaxBp := orElse (cp_vMaxBp patch) (lc_vMaxBp latest),
       lc_safetyMarginBp := orElse (cp_safetyMarginBp patch) (lc_safetyMarginBp latest),
       lc_minGapBp := orElse (cp_minGapBp patch) (lc_minGapBp latest),
       lc_dailyWinCapCoins := orElse (cp_dailyWinCapCoins patch) (lc_dailyWinCapCoins latest),
       lc_coolDownSeconds := orElse (cp_coolDownSeconds patch) (lc_coolDownSeconds latest) \<rparr>"

text \<open>The table has a unique index on tier and version.\<close>

definition insertConfig :: "lucky_config_row \<Rightarrow> world \<Rightarrow> error + lucky_config_row \<times> world" where
  "insertConfig row w =
     (if list_ex (\<lambda>r. lc_tierId r = lc_tierId row \<and> lc_version r = lc_version row) (luckyConfigs w) then Inl UniqueViolation
      else Inr (row, w\<lparr>luckyConfigs := luckyConfigs w @ [row], nextId := Suc (nextId w)\<rparr>))"

definition notFound :: error where
  "notFound = AppError 404 ''LUCKY_TIER_NOT_FOUND'' []"

definition createConfigVersion ::
  "LuckyTierId \<Rightarrow> config_patch \<Rightarrow> lucky_cache \<Rightarrow> world \<Rightarrow> error + lucky_config_row \<times> lucky_cache \<times> world" where
  "createConfigVersion tier patch cache w =
     (case getLatestConfig w (tierName tier) of
        None \<Rightarrow> Inl notFound
      | Some latest \<Rightarrow>
          (let row = nextVersion (nextId w) (getTierMode w (tierName tier)) patch latest in
           andThen (require (\<not> lc_l0 row < lc_floor row) (AppError 422 ''LUCKY_TIER_ECON_INVALID'' [])) (\<lambda>_.
           andThen (require (lc_criticalMaxBp row < lc_lowMaxBp row \<and> lc_lowMaxBp row < lc_normalMaxBp row)
                      (AppError 422 ''LUCKY_TIER_ECON_INVALID'' [])) (\<lambda>_.
           andThen (validateWeightsForTier w row) (\<lambda>_.
           andThen (insertConfig row w) (\<lambda>(created, w1).
             Inr (created, bustLuckyTierConfigCache, w1)))))))"

section \<open>The mode of a tier\<close>

definition given :: "string option \<Rightarrow> bool" where
  "given reason \<longleftrightarrow> reason \<noteq> None \<and> reason \<noteq> Some []"

definition assertEnforceAllowed ::
  "string \<Rightarrow> lucky_config_row \<Rightarrow> string \<Rightarrow> string option \<Rightarrow> world \<Rightarrow> error + unit" where
  "assertEnforceAllowed tier latest prevMode reason w =
     (let hasSeed = find (\<lambda>s. seed_tierId s = tier) (luckySeeds w) \<noteq> None;
          hadShadowConfig = find (\<lambda>r. lc_tierId r = tier \<and> lc_mode r = ''shadow'') (luckyConfigs w) \<noteq> None;
          hadShadowAudit = find (\<lambda>a. la_tierId a = Some tier \<and> la_mode a = ''shadow'' \<and> la_engine a = ''water_v1'')
                             (luckyAudits w) \<noteq> None;
          balance = (case luckyPools w tier of None \<Rightarrow> 0 | Some (b, _) \<Rightarrow> b) in
      andThen (assertEnforceF10Gate hasSeed (prevMode = ''shadow'' \<or> hadShadowConfig) hadShadowAudit reason) (\<lambda>_.
      require (\<not> (balance < lc_floor latest \<and> \<not> given reason))
        (AppError 422 ''LUCKY_TIER_ENFORCE_POOL_BELOW_FLOOR''
           [(''balance'', JStr (show_int balance)), (''floor'', JStr (show_int (lc_floor latest)))])))"

definition assertLatestConfigPassesF2 :: "lucky_config_row \<Rightarrow> world \<Rightarrow> error + unit" where
  "assertLatestConfigPassesF2 latest w = andThen (validateWeightsForTier w latest) (\<lambda>_. Inr ())"

datatype tier_mode = Off | Shadow | Enforce

fun modeName :: "tier_mode \<Rightarrow> string" where
  "modeName Off = ''off''"
| "modeName Shadow = ''shadow''"
| "modeName Enforce = ''enforce''"

definition setMode ::
  "LuckyTierId \<Rightarrow> tier_mode \<Rightarrow> string option \<Rightarrow> lucky_cache \<Rightarrow> world
     \<Rightarrow> error + (lucky_config_row \<times> string) \<times> lucky_cache \<times> world" where
  "setMode tier mode reason cache w =
     (case getLatestConfig w (tierName tier) of
        None \<Rightarrow> Inl notFound
      | Some latest \<Rightarrow>
          (let prevMode = getTierMode w (tierName tier) in
           if prevMode = modeName mode then Inr ((latest, modeName mode), cache, w)
           else
             andThen (if mode = Enforce then assertEnforceAllowed (tierName tier) latest prevMode reason w else Inr ()) (\<lambda>_.
             andThen (if mode \<noteq> Off then assertLatestConfigPassesF2 latest w else Inr ()) (\<lambda>_.
             Inr ((latest, modeName mode), bustLuckyTierConfigCache,
                  w\<lparr>luckyModes := (luckyModes w)(tierName tier \<mapsto> modeName mode)\<rparr>)))))"

section \<open>The seed decision\<close>

datatype seed_choice_kind = Seed | StartEmpty | CappedLadder

fun choiceName :: "seed_choice_kind \<Rightarrow> string" where
  "choiceName Seed = ''seed''"
| "choiceName StartEmpty = ''start_empty''"
| "choiceName CappedLadder = ''capped_ladder''"

definition topUpPool :: "string \<Rightarrow> int \<Rightarrow> int \<Rightarrow> world \<Rightarrow> int \<times> world" where
  "topUpPool tier amt version w =
     (let (balance, v) = (case luckyPools w tier of None \<Rightarrow> (amt, version) | Some (b, v) \<Rightarrow> (b + amt, v))
      in (balance, w\<lparr>luckyPools := (luckyPools w)(tier \<mapsto> (balance, v))\<rparr>))"

definition recordSeedDecision ::
  "uid \<Rightarrow> LuckyTierId \<Rightarrow> seed_choice_kind \<Rightarrow> int \<Rightarrow> string option \<Rightarrow> lucky_cache \<Rightarrow> world
     \<Rightarrow> error + (nat \<times> int option) \<times> lucky_cache \<times> world" where
  "recordSeedDecision admin tier choice amt reason cache w =
     (if choice = Seed \<and> amt \<le> 0 then Inl (AppError 422 ''LUCKY_TIER_SEED_INVALID'' [])
      else if choice \<noteq> Seed \<and> amt \<noteq> 0 then Inl (AppError 422 ''LUCKY_TIER_SEED_INVALID'' [])
      else if choice = CappedLadder then Inl (AppError 422 ''LUCKY_TIER_SEED_NOT_IMPLEMENTED'' [])
      else
        (case getLatestConfig w (tierName tier) of
           None \<Rightarrow> Inl notFound
         | Some latest \<Rightarrow>
             (let log = \<lparr> seed_id = nextId w, seed_tierId = tierName tier, seed_amount = amt, seed_adminId = admin,
                          seed_reason = reason, seed_choice = choiceName choice \<rparr>;
                  w1 = w\<lparr>luckySeeds := luckySeeds w @ [log], nextId := Suc (nextId w)\<rparr>;
                  (poolBalance, w2) =
                    (if choice = Seed then
                       (let (b, w2) = topUpPool (tierName tier) amt (lc_version latest) w1 in (Some b, w2))
                     else (None, w1))
              in Inr ((seed_id log, poolBalance), bustLuckyTierConfigCache, w2))))"


section \<open>The host shares\<close>

text \<open>The numbers of an update arrive as JSON numbers; \<open>Number.isInteger\<close> is a real test.\<close>

record share_update =
  su_giftReceiveBp :: "rat option"
  su_subscriptionBp :: "rat option"
  su_guardianPurchaseBp :: "rat option"
  su_videoCallHostShareBp :: "rat option"
  su_luckyHostShareBp :: "rat option"
  su_luckyTargetRtpBp :: "rat option"
  su_luckyWaterAgencyCommission :: "bool option"

definition bpWithin :: "rat \<Rightarrow> rat \<Rightarrow> rat option \<Rightarrow> bool" where
  "bpWithin lo hi v = (case v of None \<Rightarrow> True | Some x \<Rightarrow> isInteger x \<and> lo \<le> x \<and> x \<le> hi)"

definition hasAnyShare :: "share_update \<Rightarrow> bool" where
  "hasAnyShare u \<longleftrightarrow> su_giftReceiveBp u \<noteq> None \<or> su_subscriptionBp u \<noteq> None \<or> su_guardianPurchaseBp u \<noteq> None
     \<or> su_videoCallHostShareBp u \<noteq> None \<or> su_luckyHostShareBp u \<noteq> None \<or> su_luckyTargetRtpBp u \<noteq> None
     \<or> su_luckyWaterAgencyCommission u \<noteq> None"

definition setBp :: "rat option \<Rightarrow> int \<Rightarrow> int" where
  "setBp v old = (case v of None \<Rightarrow> old | Some x \<Rightarrow> \<lfloor>x\<rfloor>)"

definition luckyShares :: "share_update \<Rightarrow> HostRevenueShares \<Rightarrow> HostRevenueShares" where
  "luckyShares u s = s\<lparr>luckyHostShareBp := setBp (su_luckyHostShareBp u) (luckyHostShareBp s),
     luckyWaterAgencyCommission := orElse (su_luckyWaterAgencyCommission u) (luckyWaterAgencyCommission s)\<rparr>"

definition updateShares :: "share_update \<Rightarrow> HostRevenueShares \<Rightarrow> HostRevenueShares" where
  "updateShares u s =
     (luckyShares u s)\<lparr>giftReceiveBp := setBp (su_giftReceiveBp u) (giftReceiveBp s),
       subscriptionBp := setBp (su_subscriptionBp u) (subscriptionBp s),
       guardianPurchaseBp := setBp (su_guardianPurchaseBp u) (guardianPurchaseBp s),
       videoCallHostShareBp := setBp (su_videoCallHostShareBp u) (videoCallHostShareBp s),
       luckyTargetRtpBp := setBp (su_luckyTargetRtpBp u) (luckyTargetRtpBp s)\<rparr>"

definition updateConfig :: "share_update \<Rightarrow> world \<Rightarrow> error + HostRevenueShares \<times> world" where
  "updateConfig u w =
     andThen (require (hasAnyShare u) (AppError 400 ''VALIDATION_ERROR'' [])) (\<lambda>_.
     andThen (require (list_all (bpWithin 1 10000) [su_giftReceiveBp u, su_subscriptionBp u, su_guardianPurchaseBp u,
                su_videoCallHostShareBp u]) (AppError 422 ''INVALID_SHARE_BP'' [])) (\<lambda>_.
     andThen (require (bpWithin 0 2000 (su_luckyHostShareBp u)) (AppError 422 ''INVALID_SHARE_BP'' [])) (\<lambda>_.
     andThen (require (bpWithin 5000 9900 (su_luckyTargetRtpBp u)) (AppError 422 ''INVALID_SHARE_BP'' [])) (\<lambda>_.
     andThen (if su_luckyHostShareBp u \<noteq> None \<or> su_luckyWaterAgencyCommission u \<noteq> None
              then assertShadowEnforceTiersPassF2 (levelRates w) (\<lambda>t. luckyModes w (tierName t))
                     (\<lambda>t. map_option econRow (getLatestConfig w (tierName t))) (luckyShares u (shares w))
              else Inr ()) (\<lambda>_.
     (let s = updateShares u (shares w) in Inr (s, w\<lparr>shares := s\<rparr>)))))))"

section \<open>The commission levels\<close>

record commission_level_input =
  cl_level :: string
  cl_minWindowPoints :: int
  cl_liveRateBp :: int
  cl_matchChatRateBp :: int

fun upsertLevels :: "commission_level_input list \<Rightarrow> world \<Rightarrow> error + unit \<times> world" where
  "upsertLevels [] w = Inr ((), w)"
| "upsertLevels (row # rows) w =
     (if cl_minWindowPoints row < 0 then Inl (AppError 400 ''VALIDATION_ERROR'' [])
      else if cl_liveRateBp row < 0 \<or> 10000 < cl_liveRateBp row then Inl (AppError 422 ''INVALID_RATE_BP'' [])
      else if cl_matchChatRateBp row < 0 \<or> 10000 < cl_matchChatRateBp row then Inl (AppError 422 ''INVALID_RATE_BP'' [])
      else upsertLevels rows
             (w\<lparr>commissionLevels := (commissionLevels w)(cl_level row \<mapsto> (cl_liveRateBp row, cl_matchChatRateBp row))\<rparr>))"

definition replaceCommissionLevels :: "commission_level_input list \<Rightarrow> world \<Rightarrow> error + unit \<times> world" where
  "replaceCommissionLevels levels w =
     (if levels = [] then Inl (AppError 400 ''VALIDATION_ERROR'' []) else upsertLevels levels w)"

section \<open>The latest version\<close>

lemma head_of_sort:
  assumes "sort_key f xs = y # ys"
  shows "y \<in> set xs" "\<forall>x\<in>set xs. f y \<le> f x"
proof -
  have s: "set xs = set (y # ys)" using assms by (metis set_sort)
  show "y \<in> set xs" using s by simp
  have "sorted (map f (y # ys))" using assms by (metis sorted_sort_key)
  then show "\<forall>x\<in>set xs. f y \<le> f x" using s by auto
qed

lemma getLatestConfig_Some:
  "getLatestConfig w tier = Some r \<Longrightarrow> r \<in> set (luckyConfigs w) \<and> lc_tierId r = tier
     \<and> (\<forall>x\<in>set (luckyConfigs w). lc_tierId x = tier \<longrightarrow> lc_version x \<le> lc_version r)"
  using head_of_sort [of "\<lambda>r. - lc_version r" "filter (\<lambda>r. lc_tierId r = tier) (luckyConfigs w)"]
  unfolding getLatestConfig_def by (cases "sort_key (\<lambda>r. - lc_version r) (filter (\<lambda>r. lc_tierId r = tier) (luckyConfigs w))") auto

lemma getLatestConfig_None: "getLatestConfig w tier = None \<longleftrightarrow> (\<forall>x\<in>set (luckyConfigs w). lc_tierId x \<noteq> tier)"
proof (cases "sort_key (\<lambda>r. - lc_version r) (filter (\<lambda>r. lc_tierId r = tier) (luckyConfigs w))")
  case Nil
  then have "filter (\<lambda>r. lc_tierId r = tier) (luckyConfigs w) = []" by (metis set_empty set_sort)
  with Nil show ?thesis by (simp add: getLatestConfig_def filter_empty_conv)
next
  case (Cons r rs)
  with head_of_sort(1) [OF Cons] show ?thesis by (auto simp: getLatestConfig_def)
qed

text \<open>A row with a higher version than its tier had becomes the latest of its tier, and of no other.\<close>

lemma getLatestConfig_append:
  assumes "\<forall>x\<in>set (luckyConfigs w). lc_tierId x = lc_tierId row \<longrightarrow> lc_version x < lc_version row"
  shows "getLatestConfig (w\<lparr>luckyConfigs := luckyConfigs w @ [row], nextId := n\<rparr>) (lc_tierId row) = Some row"
    "tier \<noteq> lc_tierId row \<Longrightarrow> getLatestConfig (w\<lparr>luckyConfigs := luckyConfigs w @ [row], nextId := n\<rparr>) tier = getLatestConfig w tier"
proof -
  let ?w = "w\<lparr>luckyConfigs := luckyConfigs w @ [row], nextId := n\<rparr>"
  obtain r where r: "getLatestConfig ?w (lc_tierId row) = Some r"
    using getLatestConfig_None [of ?w "lc_tierId row"] by fastforce
  note l = getLatestConfig_Some [OF r]
  have "lc_version row \<le> lc_version r" using l by simp
  then have "r = row" using l assms by fastforce
  then show "getLatestConfig ?w (lc_tierId row) = Some row" using r by simp
  show "tier \<noteq> lc_tierId row \<Longrightarrow> getLatestConfig ?w tier = getLatestConfig w tier" by (simp add: getLatestConfig_def)
qed

section \<open>What holds of the tiers in use\<close>

definition inUse :: "world \<Rightarrow> LuckyTierId \<Rightarrow> bool" where
  "inUse w t \<longleftrightarrow> getTierMode w (tierName t) \<noteq> ''off''"

definition guarded :: "world \<Rightarrow> lucky_config_row \<Rightarrow> bool" where
  "guarded w row \<longleftrightarrow> \<not> isl (validateBandWeights (lc_bandWeights row) (buildLuckyF2Econ (levelRates w) (shares w) (econRow row)))"

text \<open>
  A tier in use has a configuration, its latest one passes the guard with the shares and rates in
  force, and a tier that pays from its pool has a recorded seed decision.
\<close>

definition tiersOk :: "world \<Rightarrow> bool" where
  "tiersOk w \<longleftrightarrow>
     (\<forall>t m. luckyModes w (tierName t) = Some m \<longrightarrow> m \<in> {''off'', ''shadow'', ''enforce''})
     \<and> (\<forall>t. inUse w t \<longrightarrow> (\<exists>row. getLatestConfig w (tierName t) = Some row \<and> guarded w row))
     \<and> (\<forall>t. luckyModes w (tierName t) = Some ''enforce'' \<longrightarrow> (\<exists>s\<in>set (luckySeeds w). seed_tierId s = tierName t))"

text \<open>What an administrator can do to the tiers and the shares.\<close>

inductive admin_step :: "world \<Rightarrow> world \<Rightarrow> bool" where
  new_version: "createConfigVersion tier patch cache w = Inr (row, cache', w') \<Longrightarrow> admin_step w w'"
| new_mode: "setMode tier mode reason cache w = Inr (r, cache', w') \<Longrightarrow> admin_step w w'"
| new_seed: "recordSeedDecision admin tier choice amt reason cache w = Inr (r, cache', w') \<Longrightarrow> admin_step w w'"
| new_shares: "updateConfig u w = Inr (s, w') \<Longrightarrow> admin_step w w'"

lemma tierName_eq [simp]: "tierName a = tierName b \<longleftrightarrow> a = b"
  by (cases a; cases b) simp_all

lemma modeName_eq [simp]: "modeName a = modeName b \<longleftrightarrow> a = b"
  by (cases a; cases b) simp_all

lemma levelRates_cong: "commissionLevels w' = commissionLevels w \<Longrightarrow> levelRates w' = levelRates w"
  by (simp add: levelRates_def)

lemma getLatestConfig_cong: "luckyConfigs w' = luckyConfigs w \<Longrightarrow> getLatestConfig w' tier = getLatestConfig w tier"
  by (simp add: getLatestConfig_def)

lemma guarded_cong:
  assumes "commissionLevels w' = commissionLevels w" "shares w' = shares w"
  shows "guarded w' = guarded w"
  using levelRates_cong [OF assms(1)] assms(2) by (simp add: guarded_def fun_eq_iff)

lemma validateWeightsForTier_guarded:
  assumes "validateWeightsForTier w row = Inr ev"
  shows "guarded w row"
  using assms unfolding validateWeightsForTier_def guarded_def
  by (cases "validateBandWeights (lc_bandWeights row) (buildLuckyF2Econ (levelRates w) (shares w) (econRow row))")
     (simp_all split: if_splits)

lemma tiersOk_frame:
  assumes "adminTables w w'" "tiersOk w"
  shows "tiersOk w'"
proof -
  have eq: "luckyConfigs w' = luckyConfigs w" "luckyModes w' = luckyModes w" "luckySeeds w' = luckySeeds w"
    "shares w' = shares w" "commissionLevels w' = commissionLevels w" using assms(1) by (simp_all add: adminTables_def)
  have "inUse w' = inUse w" "getLatestConfig w' = getLatestConfig w" "guarded w' = guarded w"
    using getLatestConfig_cong [OF eq(1)] guarded_cong [OF eq(5,4)] by (auto simp: inUse_def getTierMode_def eq(2))
  then show ?thesis using assms(2) by (simp only: tiersOk_def eq)
qed

section \<open>Each operation keeps it\<close>

lemma createConfigVersion_ok:
  assumes "createConfigVersion tier patch cache w = Inr (row, cache', w')"
  shows "\<exists>latest. getLatestConfig w (tierName tier) = Some latest \<and> lc_tierId row = tierName tier
     \<and> lc_version row = lc_version latest + 1 \<and> lc_priceMin row = lc_priceMin latest \<and> lc_priceMax row = lc_priceMax latest
     \<and> lc_floor row \<le> lc_l0 row \<and> lc_criticalMaxBp row < lc_lowMaxBp row \<and> lc_lowMaxBp row < lc_normalMaxBp row
     \<and> guarded w row \<and> cache' = bustLuckyTierConfigCache
     \<and> w' = w\<lparr>luckyConfigs := luckyConfigs w @ [row], nextId := Suc (nextId w)\<rparr>"
proof -
  obtain latest where l: "getLatestConfig w (tierName tier) = Some latest"
    using assms by (auto simp: createConfigVersion_def split: option.splits)
  define r where "r = nextVersion (nextId w) (getTierMode w (tierName tier)) patch latest"
  have r: "lc_tierId r = lc_tierId latest" "lc_version r = lc_version latest + 1" "lc_priceMin r = lc_priceMin latest"
    "lc_priceMax r = lc_priceMax latest" by (simp_all add: r_def nextVersion_def)
  have ins: "insertConfig r w = Inr (x, w1) \<Longrightarrow> x = r \<and> w1 = w\<lparr>luckyConfigs := luckyConfigs w @ [r], nextId := Suc (nextId w)\<rparr>" for x w1
    by (auto simp: insertConfig_def split: if_splits)
  show ?thesis
    using assms l r getLatestConfig_Some [OF l] unfolding createConfigVersion_def
    by (auto simp: Let_def r_def [symmetric] andThen_Inr_iff require_def dest!: ins validateWeightsForTier_guarded split: if_splits)
qed

lemma createConfigVersion_id:
  assumes "createConfigVersion tier patch cache w = Inr (row, cache', w')"
  shows "lc_id row = nextId w" "(\<And>m. cp_mMax patch = Some m \<Longrightarrow> 0 \<le> m) \<Longrightarrow> \<forall>r\<in>set (luckyConfigs w). 0 \<le> lc_mMax r \<Longrightarrow> 0 \<le> lc_mMax row"
proof -
  obtain latest where l: "getLatestConfig w (tierName tier) = Some latest"
    using assms by (auto simp: createConfigVersion_def split: option.splits)
  have row: "row = nextVersion (nextId w) (getTierMode w (tierName tier)) patch latest"
    using assms l unfolding createConfigVersion_def
    by (auto simp: Let_def andThen_Inr_iff insertConfig_def split: if_splits)
  show "lc_id row = nextId w" by (simp add: row nextVersion_def)
  show "0 \<le> lc_mMax row" if "\<And>m. cp_mMax patch = Some m \<Longrightarrow> 0 \<le> m" "\<forall>r\<in>set (luckyConfigs w). 0 \<le> lc_mMax r"
    using that getLatestConfig_Some [OF l] by (cases "cp_mMax patch") (simp_all add: row nextVersion_def orElse_def)
qed

lemma tiersOk_version:
  assumes run: "createConfigVersion tier patch cache w = Inr (row, cache', w')" and ok: "tiersOk w"
  shows "tiersOk w'"
proof -
  from createConfigVersion_ok [OF run] obtain latest where l: "getLatestConfig w (tierName tier) = Some latest"
    "lc_tierId row = tierName tier" "lc_version row = lc_version latest + 1" "guarded w row"
    and w': "w' = w\<lparr>luckyConfigs := luckyConfigs w @ [row], nextId := Suc (nextId w)\<rparr>" by blast
  have newer: "\<forall>x\<in>set (luckyConfigs w). lc_tierId x = lc_tierId row \<longrightarrow> lc_version x < lc_version row"
    using getLatestConfig_Some [OF l(1)] l(2,3) by auto
  have g: "guarded w' = guarded w" by (rule guarded_cong) (simp_all add: w')
  have same: "luckyModes w' = luckyModes w" "luckySeeds w' = luckySeeds w" "inUse w' = inUse w"
    by (auto simp: w' inUse_def getTierMode_def)
  have "\<exists>r. getLatestConfig w' (tierName t) = Some r \<and> guarded w r" if u: "inUse w t" for t
  proof (cases "t = tier")
    case True
    then show ?thesis using getLatestConfig_append(1) [OF newer] l(2,4) by (simp add: w')
  next
    case False
    then have "getLatestConfig w' (tierName t) = getLatestConfig w (tierName t)"
      using getLatestConfig_append(2) [OF newer, of "tierName t"] l(2) by (simp add: w')
    then show ?thesis using ok u by (simp add: tiersOk_def)
  qed
  then show ?thesis using ok by (simp add: tiersOk_def g same)
qed

lemma setMode_cases:
  assumes "setMode tier mode reason cache w = Inr (r, cache', w')"
  shows "w' = w \<or> (w' = w\<lparr>luckyModes := (luckyModes w)(tierName tier \<mapsto> modeName mode)\<rparr>
     \<and> (\<exists>latest. getLatestConfig w (tierName tier) = Some latest \<and> (mode \<noteq> Off \<longrightarrow> guarded w latest)
          \<and> (mode = Enforce \<longrightarrow> assertEnforceAllowed (tierName tier) latest (getTierMode w (tierName tier)) reason w = Inr ())))"
  using assms validateWeightsForTier_guarded unfolding setMode_def assertLatestConfigPassesF2_def
  by (fastforce simp: Let_def andThen_Inr_iff split: option.splits if_splits)

lemma enforce_seeded:
  "assertEnforceAllowed tier latest prevMode reason w = Inr () \<Longrightarrow> \<exists>s\<in>set (luckySeeds w). seed_tierId s = tier"
  by (auto simp: assertEnforceAllowed_def assertEnforceF10Gate_def Let_def andThen_Inr_iff find_None_iff split: if_splits)

lemma tiersOk_mode:
  assumes run: "setMode tier mode reason cache w = Inr (r, cache', w')" and ok: "tiersOk w"
  shows "tiersOk w'"
proof (cases "w' = w")
  case True
  then show ?thesis using ok by simp
next
  case False
  with setMode_cases [OF run] obtain latest where l: "getLatestConfig w (tierName tier) = Some latest"
    "mode \<noteq> Off \<longrightarrow> guarded w latest"
    "mode = Enforce \<longrightarrow> assertEnforceAllowed (tierName tier) latest (getTierMode w (tierName tier)) reason w = Inr ()"
    and w': "w' = w\<lparr>luckyModes := (luckyModes w)(tierName tier \<mapsto> modeName mode)\<rparr>" by blast
  have g: "guarded w' = guarded w" "getLatestConfig w' = getLatestConfig w" "luckySeeds w' = luckySeeds w"
    using guarded_cong [of w' w] getLatestConfig_cong [of w' w] by (auto simp: w')
  have upd: "luckyModes w' (tierName t) = (if t = tier then Some (modeName mode) else luckyModes w (tierName t))" for t
    by (simp add: w')
  have names: "modeName mode \<in> {''off'', ''shadow'', ''enforce''}" "modeName mode = ''off'' \<longleftrightarrow> mode = Off"
    "modeName mode = ''enforce'' \<longleftrightarrow> mode = Enforce" by (cases mode; simp)+
  have "m \<in> {''off'', ''shadow'', ''enforce''}" if "luckyModes w' (tierName t) = Some m" for t m
  proof (cases "t = tier")
    case True
    then have "m = modeName mode" using that by (simp add: upd)
    then show ?thesis using names(1) by simp
  next
    case False
    then have "luckyModes w (tierName t) = Some m" using that by (simp add: upd)
    then show ?thesis using ok by (simp add: tiersOk_def)
  qed
  moreover have "\<exists>r. getLatestConfig w (tierName t) = Some r \<and> guarded w r" if u: "inUse w' t" for t
  proof (cases "t = tier")
    case True
    then show ?thesis using u l(1,2) names(2) by (auto simp: inUse_def getTierMode_def upd)
  next
    case False
    then have "inUse w t" using u by (simp add: inUse_def getTierMode_def upd)
    then show ?thesis using ok by (simp add: tiersOk_def)
  qed
  moreover have "\<exists>s\<in>set (luckySeeds w). seed_tierId s = tierName t" if e: "luckyModes w' (tierName t) = Some ''enforce''" for t
  proof (cases "t = tier")
    case True
    then show ?thesis using e l(3) enforce_seeded names(3) by (auto simp: upd)
  next
    case False
    then show ?thesis using e ok by (simp add: tiersOk_def upd)
  qed
  ultimately show ?thesis by (simp add: tiersOk_def g)
qed

lemma recordSeedDecision_ok:
  assumes "recordSeedDecision admin tier choice amt reason cache w = Inr ((i, bal), cache', w')"
  shows "\<exists>latest log. getLatestConfig w (tierName tier) = Some latest \<and> choice \<noteq> CappedLadder
     \<and> luckySeeds w' = luckySeeds w @ [log] \<and> seed_tierId log = tierName tier \<and> seed_amount log = amt \<and> seed_id log = i
     \<and> (choice = Seed \<longrightarrow> 0 < amt) \<and> (choice \<noteq> Seed \<longrightarrow> amt = 0 \<and> bal = None)
     \<and> luckyConfigs w' = luckyConfigs w \<and> luckyModes w' = luckyModes w \<and> shares w' = shares w
     \<and> commissionLevels w' = commissionLevels w \<and> coinLedger w' = coinLedger w \<and> cache' = bustLuckyTierConfigCache
     \<and> luckyPools w' = (if choice = Seed
          then (luckyPools w)(tierName tier \<mapsto> (case luckyPools w (tierName tier) of
                 None \<Rightarrow> (amt, lc_version latest) | Some (b, v) \<Rightarrow> (b + amt, v)))
          else luckyPools w)
     \<and> (choice = Seed \<longrightarrow> bal = map_option fst (luckyPools w' (tierName tier)))"
  using assms unfolding recordSeedDecision_def topUpPool_def
  by (auto simp: Let_def split: if_splits option.splits prod.splits)

lemma tiersOk_seed:
  assumes run: "recordSeedDecision admin tier choice amt reason cache w = Inr (r, cache', w')" and ok: "tiersOk w"
  shows "tiersOk w'"
proof -
  obtain i bal where r: "r = (i, bal)" by (cases r)
  from recordSeedDecision_ok [OF run [unfolded r]] obtain log where eq: "luckyConfigs w' = luckyConfigs w"
    "luckyModes w' = luckyModes w" "shares w' = shares w" "commissionLevels w' = commissionLevels w"
    and s: "luckySeeds w' = luckySeeds w @ [log]" by blast
  have "inUse w' = inUse w" "getLatestConfig w' = getLatestConfig w" "guarded w' = guarded w"
    using getLatestConfig_cong [OF eq(1)] guarded_cong [OF eq(4,3)] by (auto simp: inUse_def getTierMode_def eq(2))
  then show ?thesis using ok by (auto simp: tiersOk_def eq s)
qed

lemma econ_of_update: "buildLuckyF2Econ levels (updateShares u s) row = buildLuckyF2Econ levels (luckyShares u s) row"
  by (simp add: buildLuckyF2Econ_def updateShares_def)

lemma all_tiers: "t \<in> set LUCKY_TIER_IDS"
  by (cases t) (simp_all add: LUCKY_TIER_IDS_def)

lemma tiersPassF2:
  assumes "assertShadowEnforceTiersPassF2 levels modes latest s = Inr ()"
    and "modes t = Some m" "m = ''shadow'' \<or> m = ''enforce''" "latest t = Some row"
  shows "\<not> isl (validateBandWeights (teWeights row) (buildLuckyF2Econ levels s row))"
  using assms all_tiers [of t] by (auto simp: assertShadowEnforceTiersPassF2_def f2Violations_def filter_empty_conv split: if_splits)

lemma updateConfig_ok:
  assumes "updateConfig u w = Inr (s, w')"
  shows "s = updateShares u (shares w) \<and> w' = w\<lparr>shares := s\<rparr>
     \<and> (su_luckyHostShareBp u = None \<and> su_luckyWaterAgencyCommission u = None
        \<or> assertShadowEnforceTiersPassF2 (levelRates w) (\<lambda>t. luckyModes w (tierName t))
            (\<lambda>t. map_option econRow (getLatestConfig w (tierName t))) (luckyShares u (shares w)) = Inr ())"
  using assms unfolding updateConfig_def by (auto simp: andThen_Inr_iff Let_def split: if_splits)

lemma updateConfig_bounds:
  assumes "updateConfig u w = Inr (s, w')"
    and "0 \<le> giftReceiveBp (shares w)" "giftReceiveBp (shares w) \<le> 10000"
    and "0 \<le> luckyHostShareBp (shares w)" "luckyHostShareBp (shares w) \<le> 10000"
  shows "0 \<le> giftReceiveBp s \<and> giftReceiveBp s \<le> 10000 \<and> 0 \<le> luckyHostShareBp s \<and> luckyHostShareBp s \<le> 10000"
proof -
  have b: "bpWithin 1 10000 (su_giftReceiveBp u)" "bpWithin 0 2000 (su_luckyHostShareBp u)"
    using assms(1) unfolding updateConfig_def by (auto simp: andThen_Inr_iff require_def split: if_splits)
  have set: "0 \<le> setBp v old \<and> setBp v old \<le> 10000"
    if "bpWithin lo hi v" "0 \<le> lo" "hi \<le> 10000" "0 \<le> old" "old \<le> 10000" for lo hi v old
    using that by (auto simp: setBp_def bpWithin_def floor_le_iff split: option.splits)
  show ?thesis
    using set [OF b(1)] set [OF b(2)] assms updateConfig_ok [OF assms(1)] by (simp add: updateShares_def luckyShares_def)
qed

lemma luckyShares_none:
  "su_luckyHostShareBp u = None \<Longrightarrow> su_luckyWaterAgencyCommission u = None \<Longrightarrow> luckyShares u s = s"
  by (simp add: luckyShares_def setBp_def orElse_def)

lemma tiersOk_shares:
  assumes run: "updateConfig u w = Inr (s, w')" and ok: "tiersOk w"
  shows "tiersOk w'"
proof -
  note u = updateConfig_ok [OF run]
  have w': "w' = w\<lparr>shares := updateShares u (shares w)\<rparr>" using u by simp
  have same: "luckyModes w' = luckyModes w" "luckySeeds w' = luckySeeds w" "inUse w' = inUse w"
    "getLatestConfig w' = getLatestConfig w" "levelRates w' = levelRates w"
    by (auto simp: w' inUse_def getTierMode_def getLatestConfig_def levelRates_def)
  have "\<exists>row. getLatestConfig w (tierName t) = Some row \<and> guarded w' row" if use: "inUse w t" for t
  proof -
    obtain row where row: "getLatestConfig w (tierName t) = Some row" "guarded w row" using ok use by (auto simp: tiersOk_def)
    obtain m where m: "luckyModes w (tierName t) = Some m" "m \<noteq> ''off''"
      using use by (cases "luckyModes w (tierName t)") (simp_all add: inUse_def getTierMode_def)
    then have "m = ''shadow'' \<or> m = ''enforce''" using ok by (auto simp: tiersOk_def)
    have "\<not> isl (validateBandWeights (lc_bandWeights row) (buildLuckyF2Econ (levelRates w) (luckyShares u (shares w)) (econRow row)))"
    proof (cases "su_luckyHostShareBp u = None \<and> su_luckyWaterAgencyCommission u = None")
      case True
      then show ?thesis using row(2) by (simp add: luckyShares_none guarded_def)
    next
      case False
      then have a: "assertShadowEnforceTiersPassF2 (levelRates w) (\<lambda>t. luckyModes w (tierName t))
            (\<lambda>t. map_option econRow (getLatestConfig w (tierName t))) (luckyShares u (shares w)) = Inr ()" using u by blast
      show ?thesis using tiersPassF2 [OF a m(1) \<open>m = ''shadow'' \<or> m = ''enforce''\<close>, of "econRow row"] row(1) by (simp add: econRow_def)
    qed
    then have "guarded w' row" by (simp add: guarded_def same(5)) (simp add: w' econ_of_update)
    with row(1) show ?thesis by blast
  qed
  then show ?thesis using ok by (simp add: tiersOk_def same)
qed

section \<open>Properties\<close>

lemma tiersOk_step: "admin_step w w' \<Longrightarrow> tiersOk w \<Longrightarrow> tiersOk w'"
  by (cases rule: admin_step.cases) (blast intro: tiersOk_version tiersOk_mode tiersOk_seed tiersOk_shares)+

lemma guarded_bands:
  assumes "guarded w row"
  shows "computeAllBandEvBp (lc_bandWeights row) b
      + of_int ((luckyHostShareBp (shares w) + aBp (buildLuckyF2Econ (levelRates w) (shares w) (econRow row))) * lc_vMaxBp row) / 10000
    < 10000 - of_int (lc_safetyMarginBp row)"
proof -
  let ?e = "buildLuckyF2Econ (levelRates w) (shares w) (econRow row)"
  have e: "hBp ?e = luckyHostShareBp (shares w)" "vMaxBp ?e = lc_vMaxBp row" "safetyMarginBp ?e = lc_safetyMarginBp row"
    by (simp_all add: buildLuckyF2Econ_def econRow_def)
  obtain ev where v: "validateBandWeights (lc_bandWeights row) ?e = Inr ev"
    using assms by (cases "validateBandWeights (lc_bandWeights row) ?e") (simp_all add: guarded_def)
  note i = iffD1 [OF validate_iff v]
  have "ev b \<le> ev High" using i by (cases b) auto
  then show ?thesis using i e by auto
qed

lemma setMode_enforce_iff:
  assumes "getLatestConfig w (tierName tier) = Some latest" "getTierMode w (tierName tier) \<noteq> ''enforce''"
  shows "isl (setMode tier Enforce reason cache w) \<longleftrightarrow>
    isl (assertEnforceAllowed (tierName tier) latest (getTierMode w (tierName tier)) reason w) \<or> isl (validateWeightsForTier w latest)"
  using assms unfolding setMode_def assertLatestConfigPassesF2_def
  by (cases "assertEnforceAllowed (tierName tier) latest (getTierMode w (tierName tier)) reason w"; cases "validateWeightsForTier w latest")
     (simp_all add: andThen_def)

lemma validate_isl_iff: "isl (validateWeightsForTier w row) \<longleftrightarrow> 10000 < lc_rBp row + lc_jBp row \<or> \<not> guarded w row"
  unfolding validateWeightsForTier_def guarded_def
  by (cases "validateBandWeights (lc_bandWeights row) (buildLuckyF2Econ (levelRates w) (shares w) (econRow row))") simp_all

lemma enforceAllowed_isl_iff:
  "isl (assertEnforceAllowed tier latest prevMode reason w) \<longleftrightarrow>
     (\<forall>s\<in>set (luckySeeds w). seed_tierId s \<noteq> tier)
     \<or> \<not> given reason \<and> (prevMode \<noteq> ''shadow'' \<and> (\<forall>r\<in>set (luckyConfigs w). lc_tierId r = tier \<longrightarrow> lc_mode r \<noteq> ''shadow'')
          \<and> (\<forall>a\<in>set (luckyAudits w). \<not> (la_tierId a = Some tier \<and> la_mode a = ''shadow'' \<and> la_engine a = ''water_v1''))
        \<or> (case luckyPools w tier of None \<Rightarrow> 0 | Some (b, _) \<Rightarrow> b) < lc_floor latest)"
proof -
  let ?g = "assertEnforceF10Gate (find (\<lambda>s. seed_tierId s = tier) (luckySeeds w) \<noteq> None)
     (prevMode = ''shadow'' \<or> find (\<lambda>r. lc_tierId r = tier \<and> lc_mode r = ''shadow'') (luckyConfigs w) \<noteq> None)
     (find (\<lambda>a. la_tierId a = Some tier \<and> la_mode a = ''shadow'' \<and> la_engine a = ''water_v1'') (luckyAudits w) \<noteq> None) reason"
  have g: "isl ?g \<longleftrightarrow> (\<forall>s\<in>set (luckySeeds w). seed_tierId s \<noteq> tier)
     \<or> \<not> given reason \<and> prevMode \<noteq> ''shadow'' \<and> (\<forall>r\<in>set (luckyConfigs w). lc_tierId r = tier \<longrightarrow> lc_mode r \<noteq> ''shadow'')
          \<and> (\<forall>a\<in>set (luckyAudits w). \<not> (la_tierId a = Some tier \<and> la_mode a = ''shadow'' \<and> la_engine a = ''water_v1''))"
    unfolding assertEnforceF10Gate_def given_def find_None_iff by (auto simp del: not_None_eq)
  show ?thesis
  proof (cases ?g)
    case (Inl e)
    then show ?thesis using g unfolding assertEnforceAllowed_def Let_def by (auto simp: andThen_def)
  next
    case (Inr u)
    then show ?thesis using g unfolding assertEnforceAllowed_def Let_def by (auto simp: andThen_def require_def)
  qed
qed

text \<open>
  C38. A tier that is not enforced yet is switched to paying from its pool exactly when a seed decision
  is recorded for it, it was in shadow mode before or has virtual draws or the admin gives a reason,
  its pool is at the floor or the admin gives a reason, and its latest configuration passes the guard
  with the shares of the moment; a refused switch leaves the mode as it was.
\<close>

theorem enforce_switch:
  assumes "getLatestConfig w (tierName tier) = Some latest" "getTierMode w (tierName tier) \<noteq> ''enforce''"
  shows "(\<exists>r cache' w'. setMode tier Enforce reason cache w = Inr (r, cache', w') \<and> getTierMode w' (tierName tier) = ''enforce'')
    \<longleftrightarrow> (\<exists>s\<in>set (luckySeeds w). seed_tierId s = tierName tier)
      \<and> (given reason
         \<or> (getTierMode w (tierName tier) = ''shadow'' \<or> (\<exists>r\<in>set (luckyConfigs w). lc_tierId r = tierName tier \<and> lc_mode r = ''shadow'')
             \<or> (\<exists>a\<in>set (luckyAudits w). la_tierId a = Some (tierName tier) \<and> la_mode a = ''shadow'' \<and> la_engine a = ''water_v1''))
           \<and> lc_floor latest \<le> (case luckyPools w (tierName tier) of None \<Rightarrow> 0 | Some (b, _) \<Rightarrow> b))
      \<and> lc_rBp latest + lc_jBp latest \<le> 10000 \<and> guarded w latest"
proof -
  have m: "getTierMode w' (tierName tier) = ''enforce''" if r: "setMode tier Enforce reason cache w = Inr (r, cache', w')" for r cache' w'
  proof -
    have "w' = w\<lparr>luckyModes := (luckyModes w)(tierName tier \<mapsto> modeName Enforce)\<rparr>"
      using r assms unfolding setMode_def by (auto simp: Let_def andThen_Inr_iff)
    then show ?thesis by (simp add: getTierMode_def)
  qed
  have "(\<exists>r cache' w'. setMode tier Enforce reason cache w = Inr (r, cache', w') \<and> getTierMode w' (tierName tier) = ''enforce'')
      \<longleftrightarrow> \<not> isl (setMode tier Enforce reason cache w)"
    using m by (cases "setMode tier Enforce reason cache w") auto
  then show ?thesis
    unfolding setMode_enforce_iff [OF assms] validate_isl_iff enforceAllowed_isl_iff
    by (simp add: not_less) blast
qed

definition sampleAdminWorld :: world where
  "sampleAdminWorld = sampleTierWorld\<lparr>luckyConfigs := [sampleTierRow\<lparr>lc_minGapBp := 50\<rparr>], luckyModes := Map.empty,
     shares := DEFAULT_HOST_REVENUE_SHARES\<lparr>luckyWaterAgencyCommission := True\<rparr>, commissionLevels := [''A'' \<mapsto> (800, 1000)]\<rparr>"

definition sampleLevels :: "commission_level_input list" where
  "sampleLevels = [\<lparr> cl_level = ''A'', cl_minWindowPoints = 0, cl_liveRateBp = 1500, cl_matchChatRateBp = 1000 \<rparr>]"

lemma sampleAdmin_latest: "getLatestConfig sampleAdminWorld ''T100'' = Some (sampleTierRow\<lparr>lc_minGapBp := 50\<rparr>)"
  by (simp add: getLatestConfig_def sampleAdminWorld_def sampleTierRow_def)

lemma sampleAdmin_parts:
  "shares sampleAdminWorld = DEFAULT_HOST_REVENUE_SHARES\<lparr>luckyWaterAgencyCommission := True\<rparr>"
  "luckySeeds sampleAdminWorld = luckySeeds sampleTierWorld" "luckyPools sampleAdminWorld = luckyPools sampleTierWorld"
  "luckyModes sampleAdminWorld = Map.empty" "commissionLevels sampleAdminWorld = [''A'' \<mapsto> (800, 1000)]"
  by (simp_all add: sampleAdminWorld_def)

lemma sampleRow_econ:
  "buildLuckyF2Econ [(l, c)] (shares sampleAdminWorld) (econRow (sampleTierRow\<lparr>lc_minGapBp := 50\<rparr>))
     = \<lparr> rBp = 9200, hBp = 400, aBp = 400 * max l c div 10000, vMaxBp = 10000, safetyMarginBp = 100, minGapBp = 50 \<rparr>"
  by (simp add: sampleAdmin_parts buildLuckyF2Econ_def econRow_def sampleTierRow_def agencyShareBpOfSpend_def
      maxAgencyRateOnHostBp_def DEFAULT_HOST_REVENUE_SHARES_def)

lemma sampleAdmin_guarded: "guarded sampleAdminWorld (sampleTierRow\<lparr>lc_minGapBp := 50\<rparr>)"
proof -
  have rates: "levelRates sampleAdminWorld = [(800, 1000)]" by (simp add: levelRates_def sampleAdmin_parts)
  have "validateBandWeights DEFAULT_BAND_WEIGHTS_V1
     \<lparr> rBp = 9200, hBp = 400, aBp = 40, vMaxBp = 10000, safetyMarginBp = 100, minGapBp = 50 \<rparr>
       = Inr (computeAllBandEvBp DEFAULT_BAND_WEIGHTS_V1)"
    unfolding validate_iff by (simp add: default_shape default_ev bandOf_def)
  moreover have "lc_bandWeights (sampleTierRow\<lparr>lc_minGapBp := 50\<rparr>) = DEFAULT_BAND_WEIGHTS_V1" by (simp add: sampleTierRow_def)
  ultimately show ?thesis by (simp only: guarded_def rates sampleRow_econ) simp
qed

definition sampleEnforced :: world where
  "sampleEnforced = sampleAdminWorld\<lparr>luckyModes := [''T100'' \<mapsto> ''enforce'']\<rparr>"

lemma sample_switch:
  assumes latest: "getLatestConfig w ''T100'' = Some (sampleTierRow\<lparr>lc_minGapBp := 50\<rparr>)" and g: "guarded w (sampleTierRow\<lparr>lc_minGapBp := 50\<rparr>)"
    and seeds: "luckySeeds w = luckySeeds sampleTierWorld" and modes: "luckyModes w = Map.empty"
  shows "\<exists>r. setMode T100 Enforce (Some ''launch'') bustLuckyTierConfigCache w
     = Inr (r, bustLuckyTierConfigCache, w\<lparr>luckyModes := [''T100'' \<mapsto> ''enforce'']\<rparr>)"
proof -
  let ?row = "sampleTierRow\<lparr>lc_minGapBp := 50\<rparr>"
  have "\<not> isl (validateWeightsForTier w ?row)" using g unfolding validate_isl_iff by (simp add: sampleTierRow_def)
  then obtain ev where v: "validateWeightsForTier w ?row = Inr ev" by (cases "validateWeightsForTier w ?row") simp_all
  have "\<not> isl (assertEnforceAllowed ''T100'' ?row ''off'' (Some ''launch'') w)"
    unfolding enforceAllowed_isl_iff by (simp add: seeds sampleTierWorld_def given_def)
  then have a: "assertEnforceAllowed ''T100'' ?row ''off'' (Some ''launch'') w = Inr ()"
    by (cases "assertEnforceAllowed ''T100'' ?row ''off'' (Some ''launch'') w") simp_all
  have m: "getTierMode w ''T100'' = ''off''" by (simp add: getTierMode_def modes)
  have "setMode T100 Enforce (Some ''launch'') bustLuckyTierConfigCache w
      = Inr ((?row, ''enforce''), bustLuckyTierConfigCache, w\<lparr>luckyModes := [''T100'' \<mapsto> ''enforce'']\<rparr>)"
    unfolding setMode_def tierName.simps latest option.case m Let_def a assertLatestConfigPassesF2_def v
    by (simp add: a modes)
  then show ?thesis by blast
qed

lemma sampleAdmin_switch:
  "\<exists>r cache'. setMode T100 Enforce (Some ''launch'') bustLuckyTierConfigCache sampleAdminWorld = Inr (r, cache', sampleEnforced)"
  using sample_switch [OF sampleAdmin_latest sampleAdmin_guarded sampleAdmin_parts(2,4)] unfolding sampleEnforced_def by blast

text \<open>
  C39. The guard does not survive a change of the commission levels: replacing them is accepted
  without looking at the tiers, and can leave a tier that pays from its pool with a configuration
  under which gifts to oneself pay more than they cost less the safety margin.
\<close>

theorem commission_levels_skip_guard:
  "\<exists>w w' row. admin_step\<^sup>*\<^sup>* sampleAdminWorld w \<and> (\<forall>t. getTierMode sampleAdminWorld (tierName t) = ''off'')
     \<and> replaceCommissionLevels sampleLevels w = Inr ((), w')
     \<and> getTierMode w' ''T100'' = ''enforce'' \<and> getLatestConfig w' ''T100'' = Some row \<and> guarded w row \<and> \<not> guarded w' row
     \<and> 10000 - of_int (lc_safetyMarginBp row) < computeAllBandEvBp (lc_bandWeights row) High
         + of_int ((luckyHostShareBp (shares w') + aBp (buildLuckyF2Econ (levelRates w') (shares w') (econRow row))) * lc_vMaxBp row) / 10000"
proof -
  let ?row = "sampleTierRow\<lparr>lc_minGapBp := 50\<rparr>"
  define w' where "w' = sampleEnforced\<lparr>commissionLevels := [''A'' \<mapsto> (1500, 1000)]\<rparr>"
  have reach: "admin_step\<^sup>*\<^sup>* sampleAdminWorld sampleEnforced"
    using sampleAdmin_switch new_mode by (metis r_into_rtranclp)
  have run: "replaceCommissionLevels sampleLevels sampleEnforced = Inr ((), w')"
    by (simp add: replaceCommissionLevels_def sampleLevels_def w'_def sampleEnforced_def sampleAdmin_parts)
  have rates: "levelRates w' = [(1500, 1000)]" by (simp add: levelRates_def w'_def)
  have sh: "shares w' = shares sampleAdminWorld" by (simp add: w'_def sampleEnforced_def)
  have econ: "buildLuckyF2Econ (levelRates w') (shares w') (econRow ?row)
      = \<lparr> rBp = 9200, hBp = 400, aBp = 60, vMaxBp = 10000, safetyMarginBp = 100, minGapBp = 50 \<rparr>"
    unfolding rates sh sampleRow_econ by simp
  have latest: "getLatestConfig w' ''T100'' = Some ?row"
    using sampleAdmin_latest by (simp add: getLatestConfig_def w'_def sampleEnforced_def)
  have g: "guarded sampleEnforced ?row"
    using sampleAdmin_guarded guarded_cong [of sampleEnforced sampleAdminWorld] by (simp add: sampleEnforced_def)
  have bw: "lc_bandWeights ?row = DEFAULT_BAND_WEIGHTS_V1" "lc_safetyMarginBp ?row = 100" "lc_vMaxBp ?row = 10000"
    by (simp_all add: sampleTierRow_def)
  have over: "10000 - of_int (lc_safetyMarginBp ?row) < computeAllBandEvBp (lc_bandWeights ?row) High
         + of_int ((luckyHostShareBp (shares w') + aBp (buildLuckyF2Econ (levelRates w') (shares w') (econRow ?row))) * lc_vMaxBp ?row) / 10000"
  proof -
    have "aBp (buildLuckyF2Econ (levelRates w') (shares w') (econRow ?row)) = 60" unfolding econ by simp
    moreover have "luckyHostShareBp (shares w') = 400" by (simp add: sh sampleAdmin_parts DEFAULT_HOST_REVENUE_SHARES_def)
    ultimately show ?thesis by (simp only: bw default_ev) simp
  qed
  then have "\<not> guarded w' ?row" using guarded_bands [of w' ?row High] by (meson less_asym)
  moreover have "getTierMode w' ''T100'' = ''enforce''" by (simp add: getTierMode_def w'_def sampleEnforced_def)
  moreover have "\<forall>t. getTierMode sampleAdminWorld (tierName t) = ''off''" by (simp add: getTierMode_def sampleAdmin_parts)
  ultimately show ?thesis using reach run latest g over by blast
qed

theorem enforce_switch_witness:
  "(\<exists>s. s \<in> set (luckySeeds sampleAdminWorld) \<and> seed_tierId s = ''T100'') \<and> guarded sampleAdminWorld (sampleTierRow\<lparr>lc_minGapBp := 50\<rparr>)"
proof -
  have l: "getLatestConfig sampleAdminWorld (tierName T100) = Some (sampleTierRow\<lparr>lc_minGapBp := 50\<rparr>)"
    by (simp add: sampleAdmin_latest)
  have m: "getTierMode sampleAdminWorld (tierName T100) \<noteq> ''enforce''" by (simp add: getTierMode_def sampleAdmin_parts)
  obtain r cache' where "setMode T100 Enforce (Some ''launch'') bustLuckyTierConfigCache sampleAdminWorld = Inr (r, cache', sampleEnforced)"
    using sampleAdmin_switch by blast
  moreover have "getTierMode sampleEnforced (tierName T100) = ''enforce''" by (simp add: getTierMode_def sampleEnforced_def)
  ultimately show ?thesis
    using enforce_switch [OF l m, of "Some ''launch''" bustLuckyTierConfigCache] by auto
qed

end
