(* ===== verification/Platform.thy ===== *)
theory Platform
  imports LuckyShadow LuckyAdmin
begin

text \<open>
  The live server, the shadow worker and the administration of the lucky tiers on one database: each
  keeps the invariants of the others, so that what an administrator approved is what a send draws
  from. The link is \<open>resolveTier.ts\<close>, which picks a configuration by price: the theory shows that it is
  always the latest version of its tier.
\<close>

section \<open>The version that a price resolves to\<close>

text \<open>
  Ids are unique and from the counter, every row belongs to a known tier, and the versions of a tier
  have one price range (the ranges are seeded; \<open>createConfigVersion\<close> copies them).
\<close>

definition configsOk :: "world \<Rightarrow> bool" where
  "configsOk w \<longleftrightarrow> distinct (map lc_id (luckyConfigs w))
     \<and> (\<forall>r\<in>set (luckyConfigs w). lc_id r < nextId w \<and> (\<exists>t. lc_tierId r = tierName t)
          \<and> (\<forall>r'\<in>set (luckyConfigs w). lc_tierId r' = lc_tierId r \<longrightarrow> lc_priceMin r' = lc_priceMin r \<and> lc_priceMax r' = lc_priceMax r))"

lemma indexLatest_first:
  assumes "(t, m) \<in> set (fst (indexLatest rows byTier byId))"
  shows "(t, m) \<in> set byTier \<or> t \<notin> fst ` set byTier \<and> (\<exists>r rs. filter (\<lambda>r. lc_tierId r = t) rows = r # rs \<and> m = metaOf r)"
  using assms
proof (induction rows arbitrary: byTier byId)
  case (Cons row rows)
  show ?case
  proof (cases "lc_tierId row \<in> set (map fst byTier)")
    case True
    then have "(t, m) \<in> set (fst (indexLatest rows byTier byId))" using Cons.prems by simp
    from Cons.IH [OF this] show ?thesis using True by auto
  next
    case False
    let ?byTier = "byTier @ [(lc_tierId row, metaOf row)]"
    have "(t, m) \<in> set (fst (indexLatest rows ?byTier (byId(lc_id row \<mapsto> rowToImmutable row))))" using Cons.prems False by simp
    from Cons.IH [OF this] show ?thesis using False by auto
  qed
qed simp

lemma indexLatest_complete:
  "fst ` set byTier \<union> lc_tierId ` set rows \<subseteq> fst ` set (fst (indexLatest rows byTier byId))"
proof (induction rows arbitrary: byTier byId)
  case (Cons row rows)
  show ?case
  proof (cases "lc_tierId row \<in> set (map fst byTier)")
    case True
    then show ?thesis using Cons.IH [of byTier byId] by auto
  next
    case False
    define byId' where "byId' = byId(lc_id row \<mapsto> rowToImmutable row)"
    have "indexLatest (row # rows) byTier byId = indexLatest rows (byTier @ [(lc_tierId row, metaOf row)]) byId'"
      using False by (simp add: byId'_def)
    then show ?thesis using Cons.IH [of "byTier @ [(lc_tierId row, metaOf row)]" byId'] by (simp only:) auto
  qed
qed simp

text \<open>The first row of a tier in the order of the index is its latest version.\<close>

lemma configsInOrder_latest:
  assumes "filter (\<lambda>r. lc_tierId r = t) (configsInOrder w) = r # rs"
  shows "getLatestConfig w t = Some r"
proof -
  have "filter (\<lambda>r. lc_tierId r = t) (configsInOrder w) = sort_key (\<lambda>r. - lc_version r) (filter (\<lambda>r. lc_tierId r = t) (luckyConfigs w))"
    unfolding configsInOrder_def sort_key_stable filter_sort ..
  with assms show ?thesis unfolding getLatestConfig_def by (metis list.simps(5))
qed

lemma latestIndex_entry:
  assumes "(t, m) \<in> set (latestIndex w)"
  shows "\<exists>r. getLatestConfig w t = Some r \<and> m = metaOf r"
  using indexLatest_first [OF assms [unfolded latestIndex_def]] configsInOrder_latest by fastforce

lemma pick_latest:
  assumes "pickTierMetaForPrice (latestIndex w) price = Some m"
  shows "\<exists>r. getLatestConfig w (lc_tierId r) = Some r \<and> m = metaOf r \<and> inRange (lc_priceMin r) (lc_priceMax r) price"
proof -
  have m: "m \<in> snd ` set (latestIndex w)" "inRange (tm_priceMin m) (tm_priceMax m) price"
    using assms by (auto simp: pickTierMetaForPrice_def find_Some_iff intro: nth_mem)
  then obtain t r where "getLatestConfig w t = Some r" "m = metaOf r" using latestIndex_entry by fastforce
  then show ?thesis using m(2) getLatestConfig_Some by (intro exI [of _ r]) (auto simp: metaOf_def)
qed

text \<open>The query behind the index finds nothing that the index does not have.\<close>

lemma pick_none:
  assumes ok: "configsOk w" and none: "pickTierMetaForPrice (latestIndex w) price = None"
  shows "findConfigForPrice w price = None"
proof (rule ccontr)
  assume "findConfigForPrice w price \<noteq> None"
  then obtain row rest where "sort_key (\<lambda>r. - lc_version r) (filter (\<lambda>r. inRange (lc_priceMin r) (lc_priceMax r) price) (luckyConfigs w)) = row # rest"
    unfolding findConfigForPrice_def
    by (cases "sort_key (\<lambda>r. - lc_version r) (filter (\<lambda>r. inRange (lc_priceMin r) (lc_priceMax r) price) (luckyConfigs w))") simp_all
  from head_of_sort(1) [OF this] have row: "row \<in> set (luckyConfigs w)" "inRange (lc_priceMin row) (lc_priceMax row) price" by simp_all
  have "lc_tierId row \<in> lc_tierId ` set (configsInOrder w)" using row(1) by simp
  then have "lc_tierId row \<in> fst ` set (latestIndex w)"
    using indexLatest_complete [of "[]" "configsInOrder w" Map.empty] unfolding latestIndex_def by blast
  then obtain m where m: "(lc_tierId row, m) \<in> set (latestIndex w)" by (metis imageE prod.collapse)
  then obtain r where r: "getLatestConfig w (lc_tierId row) = Some r" "m = metaOf r" using latestIndex_entry by blast
  have "lc_priceMin r = lc_priceMin row \<and> lc_priceMax r = lc_priceMax row"
    using ok row(1) getLatestConfig_Some [OF r(1)] unfolding configsOk_def by blast
  then have "inRange (tm_priceMin m) (tm_priceMax m) price" using row(2) r(2) by (simp add: metaOf_def)
  moreover have "m \<in> set (map snd (latestIndex w))" using m by force
  ultimately show False using none unfolding pickTierMetaForPrice_def find_None_iff by blast
qed

lemma resolved_latest:
  assumes ok: "configsOk w" and co: "cacheCoherent w cache" and run: "fst (resolveTierConfig w price cache) = Some c"
  shows "\<exists>r. getLatestConfig w (lc_tierId r) = Some r \<and> rc_immutable c = rowToImmutable r \<and> inRange (lc_priceMin r) (lc_priceMax r) price"
proof -
  let ?c1 = "snd (refreshLatestConfigIndex w cache)"
  note rf = refresh_coherent [OF co]
  obtain m c2 c3 where ch: "chooseMeta w (latestIndex w) price ?c1 = Some (m, c2)"
    and ld: "loadImmutable w (tm_id m) c2 = Some (rc_immutable c, c3)"
    using run rf(1) by (auto simp: resolveTierConfig_def Let_def split_def split: option.splits)
  have "pickTierMetaForPrice (latestIndex w) price = Some m"
    using ch pick_none [OF ok] by (auto simp: chooseMeta_def split: option.splits)
  then obtain r where r: "getLatestConfig w (lc_tierId r) = Some r" "m = metaOf r" "inRange (lc_priceMin r) (lc_priceMax r) price"
    using pick_latest by blast
  have c2: "cacheCoherent w c2" using chooseMeta_coherent(2) [OF rf(2) ch] by blast
  have "distinct (map lc_id (luckyConfigs w))" using ok by (simp add: configsOk_def)
  from loadImmutable_coherent [OF c2 _ this, of r] getLatestConfig_Some [OF r(1)] ld r(2)
  have "rc_immutable c = rowToImmutable r" by (auto simp: metaOf_def)
  then show ?thesis using r by blast
qed

section \<open>One server process\<close>

text \<open>
  The state is the database with the caches of one process, which runs the administration. Steps:
  requests of the live server (a lucky gift goes through the caches of the process, whether it is
  accepted or refused; other processes are in \<open>live_step\<close>, with caches that agree with the tables),
  ticks of the shadow worker, and the operations of an administrator. The schema of the admin route
  admits no negative greatest multiplier. A change of the commission levels is not a step: it is made
  without a look at the guard.
\<close>

inductive platform_step :: "world \<times> lucky_cache \<Rightarrow> world \<times> lucky_cache \<Rightarrow> bool" where
  request: "live_step w w' \<Longrightarrow> platform_step (w, cache) (w', cache)"
| send: "ledgerLuckyGift sha rolls slot linp cache w = (Inr (lr, w'), cache') \<Longrightarrow> platform_step (w, cache) (w', cache')"
| refuse: "ledgerLuckyGift sha rolls slot linp cache w = (Inl err, cache') \<Longrightarrow> platform_step (w, cache) (w, cache')"
| shadow: "runShadowWorkerTick vrolls cache w = (r, cache', w') \<Longrightarrow> platform_step (w, cache) (w', cache')"
| version: "createConfigVersion tier patch cache w = Inr (row, cache', w') \<Longrightarrow> (\<And>m. cp_mMax patch = Some m \<Longrightarrow> 0 \<le> m) \<Longrightarrow>
     platform_step (w, cache) (w', cache')"
| mode: "setMode tier m reason cache w = Inr (res, cache', w') \<Longrightarrow> platform_step (w, cache) (w', cache')"
| seed: "recordSeedDecision admin tier choice amt reason cache w = Inr (res', cache', w') \<Longrightarrow> platform_step (w, cache) (w', cache')"
| share: "updateConfig u w = Inr (s, w') \<Longrightarrow> platform_step (w, cache) (w', cache)"

definition platformInv :: "world \<times> lucky_cache \<Rightarrow> bool" where
  "platformInv st \<longleftrightarrow> liveInv (fst st) \<and> tiersOk (fst st) \<and> configsOk (fst st)
     \<and> (\<forall>r\<in>set (luckyConfigs (fst st)). 0 \<le> lc_mMax r) \<and> cacheCoherent (fst st) (snd st)"

lemma liveInv_aside:
  assumes inv: "liveInv w" and same: "wallets w' = wallets w" "coinLedger w' = coinLedger w" "pointLedger w' = pointLedger w"
    "sessions w' = sessions w" "commissionProcessed w' = commissionProcessed w" "clock w' = clock w" "nextId w \<le> nextId w'"
    and bp: "0 \<le> giftReceiveBp (shares w')" "giftReceiveBp (shares w') \<le> 10000"
      "0 \<le> luckyHostShareBp (shares w')" "luckyHostShareBp (shares w') \<le> 10000"
  shows "liveInv w'"
proof -
  have "Ledger.wf w'" using moved_wf [OF moved_frame] same inv by (simp add: liveInv_def)
  moreover have "commissionInv w'"
    using inv same by (auto simp: liveInv_def commissionInv_def intro: order.strict_trans2)
  moreover have "callInv i w' = callInv i w" for i by (rule callInv_same) (simp_all add: same callRows_def)
  ultimately show ?thesis using inv bp by (simp add: liveInv_def)
qed

lemma configsOk_frame:
  assumes "adminTables w w'" "configsOk w"
  shows "configsOk w'"
proof -
  have eq: "luckyConfigs w' = luckyConfigs w" and le: "nextId w \<le> nextId w'" using assms(1) by (simp_all add: adminTables_def)
  have "lc_id r < nextId w'" if "r \<in> set (luckyConfigs w)" for r
    using assms(2) that le unfolding configsOk_def by (meson order.strict_trans2)
  then show ?thesis using assms(2) unfolding configsOk_def eq by blast
qed

lemma platformInv_frame:
  assumes f: "adminTables w w'" and inv: "platformInv (w, cache)" and live: "liveInv w'" and co: "cacheCoherent w cache'"
  shows "platformInv (w', cache')"
proof -
  have "luckyConfigs w' = luckyConfigs w" "luckySeeds w' = luckySeeds w" using f by (simp_all add: adminTables_def)
  then have "cacheCoherent w' cache'" using co cacheCoherent_cong by blast
  then show ?thesis
    using inv live tiersOk_frame [OF f] configsOk_frame [OF f] \<open>luckyConfigs w' = luckyConfigs w\<close> by (simp add: platformInv_def)
qed

section \<open>The shadow worker\<close>

lemma shadowFrame_admin:
  assumes "shadowFrame w w'"
  shows "adminTables w w'" "liveInv w \<Longrightarrow> liveInv w'"
proof -
  obtain p c a where w': "w' = w\<lparr>luckyShadowPools := p, luckyShadowCursor := c, luckyAudits := a\<rparr>"
    using assms unfolding shadowFrame_def by blast
  show "adminTables w w'" by (simp add: w' adminTables_def)
  have k: "wallets w' = wallets w" "coinLedger w' = coinLedger w" "pointLedger w' = pointLedger w" "sessions w' = sessions w"
    "commissionProcessed w' = commissionProcessed w" "clock w' = clock w" "nextId w' = nextId w" "shares w' = shares w"
    by (simp_all add: w')
  show "liveInv w'" if inv: "liveInv w"
    by (rule liveInv_aside [OF inv]) (use inv in \<open>simp_all add: k liveInv_def\<close>)
qed

lemma processShadowDraw_frame:
  assumes "processShadowDraw rolls row c w = Inr (x, w')"
  shows "shadowFrame w w'"
proof (cases "findAudit w (shadowAuditIdempotencyKey (sg_id row)) = None")
  case False
  then show ?thesis using assms shadowFrame_steps(1) by (auto simp: processShadowDraw_def Let_def)
next
  case True
  obtain b w1 where e: "ensureShadowPoolAtL0 c w = (b, w1)" by fastforce
  then have w1: "shadowFrame w w1" using shadowFrame_steps(2) by (auto simp: ensureShadowPoolAtL0_def split: option.splits)
  let ?adv = "advanceCursor (sg_createdAt row) (sg_id row)"
  obtain d audit where run: "andThen (updateShadowPool c d w1) (\<lambda>(_, w2).
      case auditCreate (audit w2) w2 of Inr (_, w3) \<Rightarrow> Inr ((), ?adv w3)
      | Inl err \<Rightarrow> if err = UniqueViolation then Inr ((), ?adv w2) else Inl err) = Inr (x, w')"
    using assms True unfolding processShadowDraw_def Let_def e by auto
  then obtain w2 where u: "updateShadowPool c d w1 = Inr ((), w2)"
    and c: "(case auditCreate (audit w2) w2 of Inr (_, w3) \<Rightarrow> Inr ((), ?adv w3)
      | Inl err \<Rightarrow> if err = UniqueViolation then Inr ((), ?adv w2) else Inl err) = Inr (x, w')"
    by (auto simp: andThen_Inr_iff)
  define a where "a = audit w2"
  have w': "w' = ?adv w2 \<or> (\<exists>w3. auditCreate a w2 = Inr ((), w3) \<and> w' = ?adv w3)"
    using c unfolding a_def by (cases "auditCreate (audit w2) w2") (auto split: if_splits)
  have w2: "shadowFrame w w2"
    using u shadowFrame_trans [OF w1 shadowFrame_steps(2)] by (auto simp: updateShadowPool_def split: if_splits)
  have "shadowFrame w w3" if "auditCreate a w2 = Inr ((), w3)" for w3
    using that shadowFrame_trans [OF w2 shadowFrame_steps(3)] by (auto simp: auditCreate_def split: if_splits)
  then show ?thesis using w' shadowFrame_trans [OF w2 shadowFrame_steps(1)] shadowFrame_trans [OF _ shadowFrame_steps(1)] by blast
qed

lemma processShadowGiftRow_frame:
  assumes "processShadowGiftRow rolls row cache w = (x, cache')" "cacheCoherent w cache" "distinct (map lc_id (luckyConfigs w))"
  shows "cacheCoherent w cache'" "x = Inr (oc, w') \<Longrightarrow> shadowFrame w w'"
proof -
  obtain config cache1 where r: "resolveTierConfig w (sg_unitPrice row) cache = (config, cache1)" by fastforce
  have "cacheCoherent w cache1" using resolveTierConfig_coherent(2) [OF assms(2,2,3)] r by (metis snd_conv)
  then show "cacheCoherent w cache'" using assms(1) r by (simp add: processShadowGiftRow_def Let_def)
  show "x = Inr (oc, w') \<Longrightarrow> shadowFrame w w'"
    using assms(1) r shadowFrame_steps(1) processShadowDraw_frame unfolding processShadowGiftRow_def
    by (fastforce simp: Let_def andThen_Inr_iff split: option.splits if_splits)
qed

lemma shadowLoop_frame:
  assumes "shadowLoop rolls rows r cache w = (r', cache', w')" "cacheCoherent w cache" "distinct (map lc_id (luckyConfigs w))"
  shows "shadowFrame w w' \<and> cacheCoherent w cache'"
  using assms
proof (induction rows arbitrary: r cache w)
  case (Cons row rows)
  obtain x cache1 where p: "processShadowGiftRow (rolls (sg_id row)) row cache w = (x, cache1)" by fastforce
  note f = processShadowGiftRow_frame [OF p Cons.prems(2,3)]
  show ?case
  proof (cases x)
    case (Inl err)
    then show ?thesis using Cons.prems(1) p f(1) by simp
  next
    case (Inr y)
    obtain oc w1 where y: "y = (oc, w1)" by fastforce
    have s: "shadowFrame w w1" using f(2) Inr y by blast
    note k = shadowFrame_keeps(1,3) [OF s]
    have loop: "shadowLoop rolls rows (countOutcome oc r) cache1 w1 = (r', cache', w')" using Cons.prems(1) p Inr y by simp
    have co: "cacheCoherent w1 cache1" using f(1) cacheCoherent_cong [OF k] by blast
    have "distinct (map lc_id (luckyConfigs w1))" using Cons.prems(3) k(1) by simp
    from Cons.IH [OF loop co this] show ?thesis using shadowFrame_trans [OF s] cacheCoherent_cong [OF k] by blast
  qed
qed simp

lemma tick_frame:
  assumes "runShadowWorkerTick rolls cache w = (r, cache', w')" "cacheCoherent w cache" "distinct (map lc_id (luckyConfigs w))"
  shows "shadowFrame w w' \<and> cacheCoherent w cache'"
proof (cases "anyTierInShadowMode w")
  case False
  then show ?thesis using assms(1,2) shadowFrame_steps(4) by (auto simp: runShadowWorkerTick_def)
next
  case True
  obtain rows w1 where b: "fetchShadowGiftBatch SHADOW_WORKER_BATCH_SIZE w = (rows, w1)" by fastforce
  have f: "shadowFrame w w1"
    using b shadowFrame_steps(4) by (auto simp: fetchShadowGiftBatch_def split: option.splits)
  note k = shadowFrame_keeps(1,3) [OF f]
  have loop: "shadowLoop rolls rows noShadowWork cache w1 = (r, cache', w')" using assms(1) True b by (simp add: runShadowWorkerTick_def)
  have "cacheCoherent w1 cache" using assms(2) cacheCoherent_cong [OF k] by blast
  moreover have "distinct (map lc_id (luckyConfigs w1))" using assms(3) k(1) by simp
  ultimately show ?thesis using shadowLoop_frame [OF loop] shadowFrame_trans [OF f] cacheCoherent_cong [OF k] by blast
qed

section \<open>The administration\<close>

lemma liveInv_version:
  assumes run: "createConfigVersion tier patch cache w = Inr (row, cache', w')" and inv: "liveInv w"
  shows "liveInv w'"
proof -
  have "w' = w\<lparr>luckyConfigs := luckyConfigs w @ [row], nextId := Suc (nextId w)\<rparr>" using createConfigVersion_ok [OF run] by blast
  then have k: "wallets w' = wallets w" "coinLedger w' = coinLedger w" "pointLedger w' = pointLedger w" "sessions w' = sessions w"
    "commissionProcessed w' = commissionProcessed w" "clock w' = clock w" "nextId w' = Suc (nextId w)" "shares w' = shares w" by simp_all
  show ?thesis by (rule liveInv_aside [OF inv]) (use inv in \<open>simp_all add: k liveInv_def\<close>)
qed

lemma configsOk_version:
  assumes run: "createConfigVersion tier patch cache w = Inr (row, cache', w')" and ok: "configsOk w"
  shows "configsOk w'" "cache' = bustLuckyTierConfigCache" "luckyConfigs w' = luckyConfigs w @ [row]"
proof -
  from createConfigVersion_ok [OF run] obtain latest where l: "getLatestConfig w (tierName tier) = Some latest"
    and t: "lc_tierId row = tierName tier" and p: "lc_priceMin row = lc_priceMin latest" "lc_priceMax row = lc_priceMax latest"
    and c: "cache' = bustLuckyTierConfigCache"
    and w': "w' = w\<lparr>luckyConfigs := luckyConfigs w @ [row], nextId := Suc (nextId w)\<rparr>" by blast
  show "cache' = bustLuckyTierConfigCache" "luckyConfigs w' = luckyConfigs w @ [row]" using c w' by simp_all
  have id: "lc_id row = nextId w" by (rule createConfigVersion_id(1) [OF run])
  have old: "lc_id r < nextId w" "\<exists>t. lc_tierId r = tierName t" if "r \<in> set (luckyConfigs w)" for r
    using ok that unfolding configsOk_def by blast+
  have rng: "lc_priceMin r' = lc_priceMin r \<and> lc_priceMax r' = lc_priceMax r"
    if "r \<in> set (luckyConfigs w)" "r' \<in> set (luckyConfigs w)" "lc_tierId r' = lc_tierId r" for r r'
    using ok that unfolding configsOk_def by blast
  have new: "lc_priceMin row = lc_priceMin r \<and> lc_priceMax row = lc_priceMax r" if "r \<in> set (luckyConfigs w)" "lc_tierId r = tierName tier" for r
    using rng [of latest r] getLatestConfig_Some [OF l] that p by simp
  have "distinct (map lc_id (luckyConfigs w @ [row]))"
    using ok old(1) id unfolding configsOk_def by force
  moreover have "lc_id r < Suc (nextId w) \<and> (\<exists>t. lc_tierId r = tierName t)" if "r \<in> set (luckyConfigs w @ [row])" for r
    using that old id t by (auto intro: less_SucI)
  moreover have "lc_priceMin r' = lc_priceMin r \<and> lc_priceMax r' = lc_priceMax r"
    if "r \<in> set (luckyConfigs w @ [row])" "r' \<in> set (luckyConfigs w @ [row])" "lc_tierId r' = lc_tierId r" for r r'
    using that rng [of r r'] new [of r] new [of r'] t by (simp only: set_append Un_iff list.set empty_iff insert_iff) metis
  moreover have "luckyConfigs w' = luckyConfigs w @ [row]" "nextId w' = Suc (nextId w)" using w' by simp_all
  ultimately show "configsOk w'" unfolding configsOk_def by (simp only: simp_thms ball_simps) blast
qed

lemma setMode_frame:
  assumes run: "setMode tier m reason cache w = Inr (res, cache', w')"
  shows "luckyConfigs w' = luckyConfigs w" "nextId w' = nextId w" "liveInv w \<Longrightarrow> liveInv w'"
    "cache' = cache \<and> luckySeeds w' = luckySeeds w \<or> cache' = bustLuckyTierConfigCache"
proof -
  have k: "wallets w' = wallets w \<and> coinLedger w' = coinLedger w \<and> pointLedger w' = pointLedger w \<and> sessions w' = sessions w
     \<and> commissionProcessed w' = commissionProcessed w \<and> clock w' = clock w \<and> nextId w' = nextId w \<and> shares w' = shares w
     \<and> luckyConfigs w' = luckyConfigs w \<and> luckySeeds w' = luckySeeds w"
    using setMode_cases [OF run] by auto
  then show "luckyConfigs w' = luckyConfigs w" "nextId w' = nextId w" by simp_all
  show "liveInv w'" if inv: "liveInv w"
    by (rule liveInv_aside [OF inv]) (use inv in \<open>simp_all add: k liveInv_def\<close>)
  show "cache' = cache \<and> luckySeeds w' = luckySeeds w \<or> cache' = bustLuckyTierConfigCache"
    using run k unfolding setMode_def by (auto simp: Let_def andThen_Inr_iff split: option.splits if_splits)
qed

lemma seed_frame:
  assumes run: "recordSeedDecision admin tier choice amt reason cache w = Inr (res, cache', w')"
  shows "luckyConfigs w' = luckyConfigs w" "nextId w \<le> nextId w'" "liveInv w \<Longrightarrow> liveInv w'" "cache' = bustLuckyTierConfigCache"
proof -
  have k: "wallets w' = wallets w \<and> coinLedger w' = coinLedger w \<and> pointLedger w' = pointLedger w \<and> sessions w' = sessions w
     \<and> commissionProcessed w' = commissionProcessed w \<and> clock w' = clock w \<and> nextId w' = Suc (nextId w) \<and> shares w' = shares w
     \<and> luckyConfigs w' = luckyConfigs w \<and> cache' = bustLuckyTierConfigCache"
    using run unfolding recordSeedDecision_def topUpPool_def by (auto simp: Let_def split: if_splits option.splits prod.splits)
  then show "luckyConfigs w' = luckyConfigs w" "nextId w \<le> nextId w'" "cache' = bustLuckyTierConfigCache" by simp_all
  show "liveInv w'" if inv: "liveInv w"
    by (rule liveInv_aside [OF inv]) (use inv in \<open>simp_all add: k liveInv_def\<close>)
qed

lemma share_frame:
  assumes run: "updateConfig u w = Inr (s, w')"
  shows "luckyConfigs w' = luckyConfigs w" "luckySeeds w' = luckySeeds w" "nextId w' = nextId w" "liveInv w \<Longrightarrow> liveInv w'"
proof -
  have w': "w' = w\<lparr>shares := s\<rparr>" using updateConfig_ok [OF run] by simp
  then show "luckyConfigs w' = luckyConfigs w" "luckySeeds w' = luckySeeds w" "nextId w' = nextId w" by simp_all
  show "liveInv w'" if inv: "liveInv w"
  proof -
    have "0 \<le> giftReceiveBp s \<and> giftReceiveBp s \<le> 10000 \<and> 0 \<le> luckyHostShareBp s \<and> luckyHostShareBp s \<le> 10000"
      by (rule updateConfig_bounds [OF run]) (use inv in \<open>simp_all add: liveInv_def\<close>)
    then show ?thesis by (intro liveInv_aside [OF inv]) (simp_all add: w')
  qed
qed

section \<open>Every reachable state\<close>

lemma platformInv_admin:
  assumes inv: "platformInv (w, cache)" and live: "liveInv w'" and tiers: "tiersOk w'" and cfg: "luckyConfigs w' = luckyConfigs w"
    and n: "nextId w \<le> nextId w'" and co: "cacheCoherent w' cache'"
  shows "platformInv (w', cache')"
proof -
  have "configsOk w" "\<forall>r\<in>set (luckyConfigs w). 0 \<le> lc_mMax r" using inv by (simp_all add: platformInv_def)
  moreover from this(1) have "configsOk w'" using n cfg unfolding configsOk_def by (metis order.strict_trans2)
  ultimately show ?thesis using live tiers cfg co by (simp add: platformInv_def)
qed

lemma luckyGift_cache:
  assumes "ledgerLuckyGift sha rolls slot inp cache w = (x, cache')" "cacheCoherent w cache" "distinct (map lc_id (luckyConfigs w))"
  shows "cacheCoherent w cache'"
proof -
  have r: "cacheCoherent w (snd (resolveEngine w price b cache))" for price b
    using resolveEngine_coherent [OF assms(2,3)] by blast
  have "cache' = cache \<or> (\<exists>price b. cache' = snd (resolveEngine w price b cache))"
  proof (cases "LuckyGiftSchema inp")
    case False
    then show ?thesis using assms(1) by (simp add: ledgerLuckyGift_def)
  next
    case True
    have c: "cache' = snd (luckyGiftSend sha rolls slot inp cache w)" using assms(1) True by (simp add: ledgerLuckyGift_def)
    show ?thesis
    proof (cases "loadSendableGift (lg_giftId inp) True w")
      case (Inl e)
      then show ?thesis using c by (simp add: luckyGiftSend_def)
    next
      case (Inr g)
      then show ?thesis using c by (cases "findByIdempotencyKey (coinLedger w) (debitKey inp)") (auto simp: luckyGiftSend_def Let_def split_def)
    qed
  qed
  then show ?thesis using assms(2) r by blast
qed

lemma platformInv_parts:
  assumes "platformInv (w, cache)"
  shows "liveInv w" "tiersOk w" "configsOk w" "\<forall>r\<in>set (luckyConfigs w). 0 \<le> lc_mMax r" "cacheCoherent w cache"
    "distinct (map lc_id (luckyConfigs w))"
proof -
  show "liveInv w" "tiersOk w" "configsOk w" "\<forall>r\<in>set (luckyConfigs w). 0 \<le> lc_mMax r" "cacheCoherent w cache"
    using assms by (simp_all add: platformInv_def)
  then show "distinct (map lc_id (luckyConfigs w))" unfolding configsOk_def by blast
qed

lemma platformInv_request:
  assumes "live_step w w'" "platformInv (w, cache)"
  shows "platformInv (w', cache)"
  by (rule platformInv_frame [OF live_step_admin assms(2) liveInv_step]) (rule assms(1) platformInv_parts [OF assms(2)])+

lemma platformInv_send:
  assumes run: "ledgerLuckyGift sha rolls slot linp cache w = (Inr (lr, w'), cache')" and inv: "platformInv (w, cache)"
  shows "platformInv (w', cache')"
proof -
  note p = platformInv_parts [OF inv]
  have run': "fst (ledgerLuckyGift sha rolls slot linp cache w) = Inr (lr, w')" using run by simp
  show ?thesis
    by (rule platformInv_frame [OF lucky_admin [OF p(1) run' p(5,4)] inv liveInv_lucky [OF p(1) run' p(5,4)] luckyGift_cache [OF run p(5,6)]])
qed

lemma platformInv_refuse:
  assumes run: "ledgerLuckyGift sha rolls slot linp cache w = (Inl err, cache')" and inv: "platformInv (w, cache)"
  shows "platformInv (w, cache')"
  by (rule platformInv_frame [OF adminTables_refl inv platformInv_parts(1) [OF inv] luckyGift_cache [OF run platformInv_parts(5,6) [OF inv]]])

lemma platformInv_tick:
  assumes run: "runShadowWorkerTick vrolls cache w = (r, cache', w')" and inv: "platformInv (w, cache)"
  shows "platformInv (w', cache')"
proof -
  note p = platformInv_parts [OF inv]
  have f: "shadowFrame w w'" "cacheCoherent w cache'" using tick_frame [OF run p(5,6)] by simp_all
  show ?thesis by (rule platformInv_frame [OF shadowFrame_admin(1) [OF f(1)] inv shadowFrame_admin(2) [OF f(1) p(1)] f(2)])
qed

lemma platformInv_version:
  assumes run: "createConfigVersion tier patch cache w = Inr (row, cache', w')" and inv: "platformInv (w, cache)"
    and mm: "\<And>m. cp_mMax patch = Some m \<Longrightarrow> 0 \<le> m"
  shows "platformInv (w', cache')"
proof -
  note p = platformInv_parts [OF inv]
  note c = configsOk_version [OF run p(3)]
  have "0 \<le> lc_mMax row" by (rule createConfigVersion_id(2) [OF run mm p(4)])
  then have "\<forall>r\<in>set (luckyConfigs w'). 0 \<le> lc_mMax r" using p(4) c(3) by simp
  moreover have "cacheCoherent w' cache'" unfolding c(2) by (rule coherent_bust)
  ultimately show ?thesis unfolding platformInv_def fst_conv snd_conv
    by (intro conjI liveInv_version [OF run p(1)] tiersOk_version [OF run p(2)] c(1))
qed

lemma platformInv_mode:
  assumes run: "setMode tier m reason cache w = Inr (res, cache', w')" and inv: "platformInv (w, cache)"
  shows "platformInv (w', cache')"
proof -
  note p = platformInv_parts [OF inv] and f = setMode_frame [OF run]
  have co: "cacheCoherent w' cache'"
    using f(4)
  proof
    assume a: "cache' = cache \<and> luckySeeds w' = luckySeeds w"
    then show ?thesis using p(5) cacheCoherent_cong [OF f(1), of cache] by simp
  qed simp
  have n: "nextId w \<le> nextId w'" using f(2) by simp
  show ?thesis by (rule platformInv_admin [OF inv f(3) [OF p(1)] tiersOk_mode [OF run p(2)] f(1) n co])
qed

lemma platformInv_seed:
  assumes run: "recordSeedDecision admin tier choice amt reason cache w = Inr (res, cache', w')" and inv: "platformInv (w, cache)"
  shows "platformInv (w', cache')"
proof -
  note p = platformInv_parts [OF inv] and f = seed_frame [OF run]
  have co: "cacheCoherent w' cache'" unfolding f(4) by (rule coherent_bust)
  show ?thesis by (rule platformInv_admin [OF inv f(3) [OF p(1)] tiersOk_seed [OF run p(2)] f(1,2) co])
qed

lemma platformInv_share:
  assumes run: "updateConfig u w = Inr (s, w')" and inv: "platformInv (w, cache)"
  shows "platformInv (w', cache)"
proof -
  note p = platformInv_parts [OF inv] and f = share_frame [OF run]
  have co: "cacheCoherent w' cache" using p(5) cacheCoherent_cong [OF f(1,2), of cache] by simp
  have n: "nextId w \<le> nextId w'" using f(3) by simp
  show ?thesis by (rule platformInv_admin [OF inv f(4) [OF p(1)] tiersOk_shares [OF run p(2)] f(1) n co])
qed

lemma platformInv_step: "platform_step st st' \<Longrightarrow> platformInv st \<Longrightarrow> platformInv st'"
  by (induction rule: platform_step.induct)
     (erule (1) platformInv_request platformInv_send platformInv_refuse platformInv_tick platformInv_version platformInv_mode
        platformInv_seed platformInv_share; assumption?)+

lemma platformInv_steps: "platform_step\<^sup>*\<^sup>* st st' \<Longrightarrow> platformInv st \<Longrightarrow> platformInv st'"
  by (induction rule: rtranclp_induct) (auto intro: platformInv_step)

text \<open>What a process that starts with empty caches and all tiers off has.\<close>

lemma platformInv_start:
  assumes "liveInv w" "configsOk w" "\<forall>r\<in>set (luckyConfigs w). 0 \<le> lc_mMax r" "\<forall>t. getTierMode w (tierName t) = ''off''"
  shows "platformInv (w, bustLuckyTierConfigCache)"
proof -
  have off: "luckyModes w (tierName t) = Some m \<Longrightarrow> m = ''off''" for t m
    using spec [OF assms(4), of t] by (simp add: getTierMode_def)
  have "tiersOk w" using assms(4) off by (auto simp: tiersOk_def inUse_def)
  then show ?thesis using assms by (simp add: platformInv_def)
qed

text \<open>The configuration that a lucky gift draws from.\<close>

lemma drawn_config:
  assumes inv: "platformInv (w, cache)" and c: "waterConfig (fst (resolveEngine w price b cache)) = Some c"
  shows "\<exists>tier row. getLatestConfig w (tierName tier) = Some row \<and> c = rowToImmutable row
     \<and> inRange (lc_priceMin row) (lc_priceMax row) price \<and> luckyModes w (tierName tier) = Some ''enforce'' \<and> guarded w row
     \<and> (\<exists>s\<in>set (luckySeeds w). seed_tierId s = tierName tier)"
proof -
  have ok: "configsOk w" "tiersOk w" "cacheCoherent w cache" using inv by (simp_all add: platformInv_def)
  have "er_engine (fst (resolveEngine w price b cache)) = WaterV1" using c by (simp add: waterConfig_def split: if_splits)
  from resolveEngine_water [OF this] obtain rc where rc: "er_config (fst (resolveEngine w price b cache)) = Some rc"
    "luckyModes w (cfg_tierId (rc_immutable rc)) = Some ''enforce''" by blast
  have cc: "c = rc_immutable rc" using c rc(1) by (simp add: waterConfig_def split: if_splits)
  have "fst (resolveTierConfig w price cache) = Some rc"
    using rc(1) by (auto simp: resolveEngine_def Let_def split_def split: option.splits if_splits)
  from resolved_latest [OF ok(1,3) this] obtain row where row: "getLatestConfig w (lc_tierId row) = Some row"
    "rc_immutable rc = rowToImmutable row" "inRange (lc_priceMin row) (lc_priceMax row) price" by blast
  obtain tier where t: "lc_tierId row = tierName tier"
    using ok(1) getLatestConfig_Some [OF row(1)] unfolding configsOk_def by blast
  have m: "luckyModes w (tierName tier) = Some ''enforce''" using rc(2) row(2) t by (simp add: rowToImmutable_def)
  then have "inUse w tier" by (simp add: inUse_def getTierMode_def)
  then obtain r where "getLatestConfig w (tierName tier) = Some r" "guarded w r" using ok(2) by (auto simp: tiersOk_def)
  then have "guarded w row" using row(1) t by simp
  moreover have "\<exists>s\<in>set (luckySeeds w). seed_tierId s = tierName tier" using ok(2) m unfolding tiersOk_def by blast
  ultimately show ?thesis using row t m cc by (intro exI [of _ tier] exI [of _ row]) simp
qed

text \<open>Sending lucky gifts to oneself loses money in every band, with the shares and rates in force.\<close>

definition selfGiftLoses :: "world \<Rightarrow> lucky_config_row \<Rightarrow> bool" where
  "selfGiftLoses w row \<longleftrightarrow>
     (\<forall>b. computeAllBandEvBp (lc_bandWeights row) b
        + of_int ((luckyHostShareBp (shares w) + aBp (buildLuckyF2Econ (levelRates w) (shares w) (econRow row))) * lc_vMaxBp row) / 10000
      < 10000 - of_int (lc_safetyMarginBp row))"

lemma guarded_loses: "guarded w row \<Longrightarrow> selfGiftLoses w row"
  unfolding selfGiftLoses_def using guarded_bands by blast

section \<open>A platform to start from\<close>

definition samplePlatform :: world where
  "samplePlatform = sampleAdminWorld\<lparr>nextId := 40\<rparr>"

lemma samplePlatform_ok:
  "liveInv samplePlatform" "configsOk samplePlatform" "\<forall>r\<in>set (luckyConfigs samplePlatform). 0 \<le> lc_mMax r"
  "\<forall>t. getTierMode samplePlatform (tierName t) = ''off''"
proof -
  have cfg: "luckyConfigs samplePlatform = [sampleTierRow\<lparr>lc_minGapBp := 50\<rparr>]" "nextId samplePlatform = 40"
    by (simp_all add: samplePlatform_def sampleAdminWorld_def)
  show "liveInv samplePlatform"
    by (simp add: liveInv_def Ledger.wf_def walletsInv_def ledgerInv_def commissionInv_def callInv_def callRows_def samplePlatform_def
        sampleAdminWorld_def sampleTierWorld_def emptyWorld_def DEFAULT_HOST_REVENUE_SHARES_def)
  have "\<exists>t. ''T100'' = tierName t" by (rule exI [of _ T100]) simp
  then show "configsOk samplePlatform" by (simp add: configsOk_def cfg sampleTierRow_def)
  show "\<forall>r\<in>set (luckyConfigs samplePlatform). 0 \<le> lc_mMax r" by (simp add: cfg sampleTierRow_def)
  show "\<forall>t. getTierMode samplePlatform (tierName t) = ''off''" by (simp add: getTierMode_def samplePlatform_def sampleAdmin_parts)
qed

definition sampleRunning :: world where
  "sampleRunning = samplePlatform\<lparr>luckyModes := [''T100'' \<mapsto> ''enforce'']\<rparr>"

lemma samplePlatform_switch: "platform_step (samplePlatform, bustLuckyTierConfigCache) (sampleRunning, bustLuckyTierConfigCache)"
proof -
  have "getLatestConfig samplePlatform ''T100'' = Some (sampleTierRow\<lparr>lc_minGapBp := 50\<rparr>)"
    using sampleAdmin_latest getLatestConfig_cong [of samplePlatform sampleAdminWorld] by (simp add: samplePlatform_def)
  moreover have "guarded samplePlatform (sampleTierRow\<lparr>lc_minGapBp := 50\<rparr>)"
    using sampleAdmin_guarded guarded_cong [of samplePlatform sampleAdminWorld] by (simp add: samplePlatform_def)
  moreover have "luckySeeds samplePlatform = luckySeeds sampleTierWorld" "luckyModes samplePlatform = Map.empty"
    by (simp_all add: samplePlatform_def sampleAdmin_parts)
  ultimately obtain r where "setMode T100 Enforce (Some ''launch'') bustLuckyTierConfigCache samplePlatform
      = Inr (r, bustLuckyTierConfigCache, sampleRunning)"
    using sample_switch [of samplePlatform] unfolding sampleRunning_def by blast
  then show ?thesis by (rule platform_step.mode)
qed

lemma sampleRunning_resolution:
  "waterConfig (fst (resolveEngine sampleRunning 100 True bustLuckyTierConfigCache)) = Some (rowToImmutable (sampleTierRow\<lparr>lc_minGapBp := 50\<rparr>))"
  by (simp add: waterConfig_def resolveEngine_def resolveTierConfig_def refreshLatestConfigIndex_def chooseMeta_def loadImmutable_def
      tierHasSeed_def configsInOrder_def pickTierMetaForPrice_def inRange_def metaOf_def readTierModeInTx_def
      bustLuckyTierConfigCache_def sampleRunning_def samplePlatform_def sampleAdminWorld_def sampleTierWorld_def emptyWorld_def
      sampleTierRow_def rowToImmutable_def Let_def)

end
