(* ===== verification/CoinMoves.thy ===== *)
theory CoinMoves
  imports PointWallet
begin

text \<open>
  What the services that move coins from one account to another rely on: a contract of the coin wallet,
  stated as a locale and proved of \<open>debit\<close> and \<open>credit\<close>, and its consequences for a debit that is followed
  by a credit.
\<close>

section \<open>What coin postings leave alone\<close>

definition coinFrame :: "world \<Rightarrow> world \<Rightarrow> bool" where
  "coinFrame w w' \<longleftrightarrow> postFrame w w' \<and> pointLedger w' = pointLedger w \<and> monthlyRecharge w' = monthlyRecharge w
     \<and> userRichTier w' = userRichTier w \<and> richTierHistory w' = richTierHistory w \<and> idemKeys w' = idemKeys w
     \<and> richConfigCache w' = richConfigCache w \<and> richTierConfigs w' = richTierConfigs w"

lemma coinFrame_refl [simp]: "coinFrame w w"
  by (simp add: coinFrame_def)

lemma coinFrame_trans: "coinFrame a b \<Longrightarrow> coinFrame b c \<Longrightarrow> coinFrame a c"
  using postFrame_trans by (auto simp: coinFrame_def)

lemma coinFrame_steps [simp]:
  "coinFrame w (snd (lockForUpdate i w))" "coinFrame w (bumpVersion i w)" "coinFrame w (lockWalletsInOrder ws w)"
  "coinFrame w (enqueuePlatformLedgerMessage k j w)"
  by (simp_all add: coinFrame_def postFrame_def lockForUpdate_def bumpVersion_def enqueuePlatformLedgerMessage_def
      lockWalletsInOrder_eq)

lemma coinFrame_getOrCreate: "getOrCreate u c w = (wl, w1) \<Longrightarrow> coinFrame w w1"
  by (auto simp: getOrCreate_def Let_def coinFrame_def postFrame_def split: option.splits)

lemma coinFrame_insert: "coinInsert d w = Inr (e, w') \<Longrightarrow> coinFrame w w'"
  by (simp add: coinInsert_Inr coinFrame_def postFrame_def)

lemma coinFrame_level: "levelFrame w w' \<Longrightarrow> coinFrame w w'"
  by (auto simp: levelFrame_def coinFrame_def postFrame_def)

lemma coinFrame_keeps:
  assumes "coinFrame w w'"
  shows "users w' = users w" "agencies w' = agencies w" "clock w' = clock w" "redisUp w' = redisUp w"
    "pointLedger w' = pointLedger w" "idemKeys w' = idemKeys w"
  using assms by (simp_all add: coinFrame_def postFrame_def)

lemma debit_coinFrame:
  assumes "debit u amt tt opts w = Inr (r, w')"
  shows "coinFrame w w'"
proof (cases "findByIdempotencyKey (coinLedger w) (o_idempotencyKey opts)")
  case None
  obtain wl w1 where g: "getOrCreate u (currencyOf opts) w = (wl, w1)" by fastforce
  let ?w2 = "snd (lockForUpdate (wallet_id wl) w1)"
  from assms None obtain e d w3 lr w5 k where "coinInsert d ?w2 = Inr (e, w3)"
      "applyWealthSpendXp u amt k (bumpVersion (wallet_id wl) w3) = Inr (lr, w5)"
      "w' = w5 \<or> w' = enqueuePlatformLedgerMessage ''coin'' (entry_id e) w5"
    by (auto simp: debit_def Let_def g andThen_Inr_iff split: if_splits)
  then show ?thesis
    using coinFrame_getOrCreate [OF g] applyWealthSpendXp_frame coinFrame_level coinFrame_insert coinFrame_steps
    by (metis coinFrame_trans)
qed (use assms in \<open>auto simp: debit_def andThen_Inr_iff\<close>)

lemma credit_coinFrame:
  assumes "credit u amt tt opts w = Inr (r, w')"
  shows "coinFrame w w'"
proof (cases "findByIdempotencyKey (coinLedger w) (o_idempotencyKey opts)")
  case None
  obtain wl w1 where g: "getOrCreate u (currencyOf opts) w = (wl, w1)" by fastforce
  let ?w2 = "snd (lockForUpdate (wallet_id wl) w1)"
  from assms None obtain e d w3 lr w4 k where "applyWealthSpendXp u amt k ?w2 = Inr (lr, w3)" "coinInsert d w3 = Inr (e, w4)"
      "w' = bumpVersion (wallet_id wl) w4 \<or> w' = enqueuePlatformLedgerMessage ''coin'' (entry_id e) (bumpVersion (wallet_id wl) w4)"
    by (auto simp: credit_def Let_def g andThen_Inr_iff split: if_splits)
  then show ?thesis
    using coinFrame_getOrCreate [OF g] applyWealthSpendXp_frame coinFrame_level coinFrame_insert coinFrame_steps
    by (metis coinFrame_trans)
qed (use assms in \<open>auto simp: credit_def andThen_Inr_iff\<close>)

section \<open>A debit that succeeds\<close>

lemma debit_total:
  assumes wf: "Ledger.wf w" and c: "currencyOf opts = c" "c \<noteq> POINT" and amt: "0 < amt" "amt \<le> balanceOf w (u, c)"
    and fresh: "findByIdempotencyKey (coinLedger w) (o_idempotencyKey opts) = None"
    and frz: "o_freezeCheck opts \<Longrightarrow> assertCoinDebitAllowed u c w = Inr ()"
  shows "\<exists>r w'. debit u amt tt opts w = Inr (r, w')"
proof -
  obtain wl w1 where g: "getOrCreate u c w = (wl, w1)" by fastforce
  let ?w2 = "snd (lockForUpdate (wallet_id wl) w1)"
  let ?d = "(newEntry (wallet_id wl) DEBIT tt amt (balanceOf w (u, c) - amt) (o_idempotencyKey opts))
     \<lparr>counterpartyId := o_counterpartyId opts, description := o_description opts, metadata := o_metadata opts\<rparr>"
  note k = getOrCreate_keeps [OF g]
  have fr: "assertCoinDebitAllowed u c ?w2 = assertCoinDebitAllowed u c w"
    by (rule assertCoinDebitAllowed_users) (simp add: k)
  obtain e w3 where ins: "coinInsert ?d ?w2 = Inr (e, w3)"
    using amt fresh coinInsert_total [of ?d ?w2] by (fastforce simp: k)
  obtain lr w5 where xp: "applyWealthSpendXp u amt (o_applyWealth opts \<and> c = COIN) (bumpVersion (wallet_id wl) w3) = Inr (lr, w5)"
    using applyWealthSpendXp_total by blast
  show ?thesis
    using amt c fr frz fresh ins xp getOrCreate_wallet [OF g]
    by (cases "o_freezeCheck opts") (simp_all add: debit_def Let_def g locked_coin_balance [OF wf g c(2)] not_less)
qed

lemma debit_short:
  assumes wf: "Ledger.wf w" and c: "currencyOf opts = c" "c \<noteq> POINT" and amt: "0 < amt" "balanceOf w (u, c) < amt"
    and fresh: "findByIdempotencyKey (coinLedger w) (o_idempotencyKey opts) = None" and frz: "\<not> o_freezeCheck opts"
  shows "debit u amt tt opts w = Inl (insufficientCoins amt (balanceOf w (u, c)))"
proof -
  obtain wl w1 where g: "getOrCreate u c w = (wl, w1)" by fastforce
  show ?thesis
    using amt c frz fresh getOrCreate_wallet [OF g]
    by (simp add: debit_def Let_def g locked_coin_balance [OF wf g c(2)])
qed

section \<open>The contract\<close>

locale coin_account =
  fixes take_coins give_coins :: "uid \<Rightarrow> int \<Rightarrow> CoinTxType \<Rightarrow> coin_options \<Rightarrow> world \<Rightarrow> error + coin_result \<times> world"
  assumes take_posts: "take_coins u a tt opts w = Inr (r, w') \<Longrightarrow> findByIdempotencyKey (coinLedger w) (o_idempotencyKey opts) = None
      \<Longrightarrow> currencyOf opts \<noteq> POINT \<Longrightarrow> 0 < a \<and> moved w w' (moving (u, currencyOf opts) (- a))
        \<and> (\<exists>e. coinLedger w' = coinLedger w @ [e] \<and> idempotencyKey e = o_idempotencyKey opts \<and> entry_id e = ledgerEntryId r)"
    and take_frame: "take_coins u a tt opts w = Inr (r, w') \<Longrightarrow> coinFrame w w'"
    and take_total: "Ledger.wf w \<Longrightarrow> currencyOf opts \<noteq> POINT \<Longrightarrow> 0 < a \<Longrightarrow> a \<le> balanceOf w (u, currencyOf opts)
      \<Longrightarrow> findByIdempotencyKey (coinLedger w) (o_idempotencyKey opts) = None
      \<Longrightarrow> (o_freezeCheck opts \<Longrightarrow> assertCoinDebitAllowed u (currencyOf opts) w = Inr ())
      \<Longrightarrow> \<exists>r w'. take_coins u a tt opts w = Inr (r, w')"
    and give_posts: "give_coins u a tt opts w = Inr (r, w') \<Longrightarrow> findByIdempotencyKey (coinLedger w) (o_idempotencyKey opts) = None
      \<Longrightarrow> currencyOf opts \<noteq> POINT \<Longrightarrow> 0 < a \<and> moved w w' (moving (u, currencyOf opts) a)
        \<and> (\<exists>e. coinLedger w' = coinLedger w @ [e] \<and> idempotencyKey e = o_idempotencyKey opts \<and> entry_id e = ledgerEntryId r)"
    and give_frame: "give_coins u a tt opts w = Inr (r, w') \<Longrightarrow> coinFrame w w'"
    and give_total: "0 < a \<Longrightarrow> findByIdempotencyKey (coinLedger w) (o_idempotencyKey opts) = None
      \<Longrightarrow> \<exists>r w'. give_coins u a tt opts w = Inr (r, w')"
begin

text \<open>A debit and a credit under two fresh keys: what moves, what is recorded and what stays.\<close>

lemma two_legs:
  assumes run: "take_coins u a tt opts w = Inr (r, w1)" "give_coins v b tt' opts' w1 = Inr (r', w2)"
    and fresh: "findByIdempotencyKey (coinLedger w) (o_idempotencyKey opts) = None"
      "findByIdempotencyKey (coinLedger w) (o_idempotencyKey opts') = None" "o_idempotencyKey opts \<noteq> o_idempotencyKey opts'"
    and c: "currencyOf opts \<noteq> POINT" "currencyOf opts' \<noteq> POINT"
  shows "0 < a" "moved w w2 (\<lambda>x. moving (u, currencyOf opts) (- a) x + moving (v, currencyOf opts') b x)" "coinFrame w w2"
    "\<exists>e e'. coinLedger w2 = coinLedger w @ [e, e'] \<and> idempotencyKey e = o_idempotencyKey opts \<and> idempotencyKey e' = o_idempotencyKey opts'
       \<and> entry_id e = ledgerEntryId r \<and> entry_id e' = ledgerEntryId r'"
proof -
  from take_posts [OF run(1) fresh(1) c(1)] obtain e where pos: "0 < a" and m1: "moved w w1 (moving (u, currencyOf opts) (- a))"
    and e: "coinLedger w1 = coinLedger w @ [e]" "idempotencyKey e = o_idempotencyKey opts" "entry_id e = ledgerEntryId r" by blast
  have "findByIdempotencyKey (coinLedger w1) (o_idempotencyKey opts') = None"
    using fresh e by (simp add: findByIdempotencyKey_def find_append)
  from give_posts [OF run(2) this c(2)] obtain e' where m2: "moved w1 w2 (moving (v, currencyOf opts') b)"
    and e': "coinLedger w2 = coinLedger w1 @ [e']" "idempotencyKey e' = o_idempotencyKey opts'" "entry_id e' = ledgerEntryId r'" by blast
  show "0 < a" by (fact pos)
  show "moved w w2 (\<lambda>x. moving (u, currencyOf opts) (- a) x + moving (v, currencyOf opts') b x)" by (rule moved_trans [OF m1 m2])
  show "coinFrame w w2" using coinFrame_trans [OF take_frame [OF run(1)] give_frame [OF run(2)]] .
  show "\<exists>e e'. coinLedger w2 = coinLedger w @ [e, e'] \<and> idempotencyKey e = o_idempotencyKey opts \<and> idempotencyKey e' = o_idempotencyKey opts'
       \<and> entry_id e = ledgerEntryId r \<and> entry_id e' = ledgerEntryId r'"
    using e e' by auto
qed

lemma two_legs_total:
  assumes "Ledger.wf w" "currencyOf opts \<noteq> POINT" "0 < a" "a \<le> balanceOf w (u, currencyOf opts)" "0 < b"
    and fresh: "findByIdempotencyKey (coinLedger w) (o_idempotencyKey opts) = None"
      "findByIdempotencyKey (coinLedger w) (o_idempotencyKey opts') = None" "o_idempotencyKey opts \<noteq> o_idempotencyKey opts'"
    and frz: "o_freezeCheck opts \<Longrightarrow> assertCoinDebitAllowed u (currencyOf opts) w = Inr ()"
  shows "\<exists>r w1 r' w2. take_coins u a tt opts w = Inr (r, w1) \<and> give_coins v b tt' opts' w1 = Inr (r', w2)"
proof -
  obtain r w1 where run: "take_coins u a tt opts w = Inr (r, w1)" using take_total [of w opts a u tt] assms by blast
  from take_posts [OF run fresh(1) assms(2)] obtain e where "coinLedger w1 = coinLedger w @ [e]" "idempotencyKey e = o_idempotencyKey opts" by blast
  then have "findByIdempotencyKey (coinLedger w1) (o_idempotencyKey opts') = None"
    using fresh by (simp add: findByIdempotencyKey_def find_append)
  with give_total [OF \<open>0 < b\<close>] obtain r' w2 where "give_coins v b tt' opts' w1 = Inr (r', w2)" by blast
  with run show ?thesis by blast
qed

end

lemma key_of_found: "findByIdempotencyKey rows k = Some e \<Longrightarrow> idempotencyKey e = k"
  using find_Some_mem [of _ rows e] by (auto simp: findByIdempotencyKey_def)

interpretation coins: coin_account debit credit
proof (unfold_locales, goal_cases)
  case (1 u a tt opts w r w')
  show ?case using debit_posts [OF 1(1,2) refl 1(3)] key_of_found by blast
next
  case (3 w opts a u tt)
  show ?case using debit_total [OF 3(1) refl 3(2-6)] .
next
  case (4 u a tt opts w r w')
  show ?case using credit_posts [OF 4(1,2) refl 4(3)] key_of_found by blast
qed (simp_all add: debit_coinFrame credit_coinFrame credit_total)

text \<open>Creating the two wallets and locking them moves nothing and writes no row.\<close>

lemma open_two:
  assumes "getOrCreate u c w = (a, w1)" "getOrCreate v d w1 = (b, w2)"
  shows "moved w (lockWalletsInOrder ws w2) still" "coinFrame w (lockWalletsInOrder ws w2)"
    "coinLedger (lockWalletsInOrder ws w2) = coinLedger w"
proof -
  have "moved w w2 still" using getOrCreate_moved [OF assms(1)] getOrCreate_moved [OF assms(2)] by (rule moved_still)
  moreover have "moved w2 (lockWalletsInOrder ws w2) still" by (rule moved_frame) (simp_all add: lockWalletsInOrder_eq)
  ultimately show "moved w (lockWalletsInOrder ws w2) still" by (rule moved_still)
  show "coinFrame w (lockWalletsInOrder ws w2)"
    using coinFrame_getOrCreate [OF assms(1)] coinFrame_getOrCreate [OF assms(2)] coinFrame_steps(3) coinFrame_trans by blast
  show "coinLedger (lockWalletsInOrder ws w2) = coinLedger w"
    using getOrCreate_keeps(1) [OF assms(1)] getOrCreate_keeps(1) [OF assms(2)] by (simp add: lockWalletsInOrder_eq)
qed

end
