(* ===== verification/Diamonds.thy ===== *)
theory Diamonds
  imports CoinMoves
begin

text \<open>
  Diamonds, the currency of the games: the diamond wallet with its balance cache
  (\<open>src/src/services/diamond-wallet.service.ts\<close>), the conversion between coins and diamonds
  (\<open>diamond-conversion.service.ts\<close>), and the sessions and settlements of the game provider
  (\<open>baishunSession.service.ts\<close>, with \<open>launchGame\<close> of \<open>gameProvider.service.ts\<close> and
  \<open>requireGameHouseUserId\<close> of \<open>ledgerAccountRole.service.ts\<close>). Every movement is a pair of postings of
  the coin wallet.

  The random launch codes and session tokens are arguments of the operations that draw them. The
  identifiers of providers are numbers, like those of users. The house account is the first active
  one of the registry, whose cache is not modelled. Signatures and timestamps of the webhooks are
  checked before these operations; the names and avatars in their answers are left out.
\<close>

section \<open>State\<close>

datatype DiamondConversionDirection = BUY | REDEEM

record conversion_row =
  cv_user :: uid
  cv_direction :: DiamondConversionDirection
  cv_coinAmount :: int
  cv_diamondAmount :: int
  cv_coinEntry :: nat
  cv_diamondEntry :: nat
  cv_key :: string

datatype GameSessionStatus = ISSUED | ACTIVE

record game_session =
  sn_id :: nat
  sn_user :: uid
  sn_provider :: nat
  sn_gameId :: int
  sn_code :: string
  sn_codeUsedAt :: "int option"
  sn_ssToken :: "string option"
  sn_expiresAt :: "int option"
  sn_room :: "string option"
  sn_status :: GameSessionStatus

datatype BaishunDiffMsg = Bet | Result | Refund

record round_link =
  ln_provider :: nat
  ln_order :: string
  ln_gameId :: int
  ln_room :: "string option"
  ln_diffMsg :: BaishunDiffMsg
  ln_user :: uid
  ln_diff :: int
  ln_userEntry :: nat
  ln_houseEntry :: nat

text \<open>\<open>userCheck\<close> is the mode of the check of the user in a callback, from the environment.\<close>

record games =
  gw :: world
  conversions :: "conversion_row list"
  gameSessions :: "game_session list"
  roundLinks :: "round_link list"
  gameHouse :: "uid option"
  gameProviderId :: "nat option"
  providerActive :: bool
  diamondCache :: "uid \<rightharpoonup> int"
  userCheck :: bool

section \<open>The diamond wallet\<close>

definition getBalance :: "uid \<Rightarrow> games \<Rightarrow> int \<times> games" where
  "getBalance u s =
     (case (if redisUp (gw s) then diamondCache s u else None) of
        Some b \<Rightarrow> (b, s)
      | None \<Rightarrow>
          (let (wl, w1) = getOrCreate u DIAMOND (gw s);
               balance = coinComputeBalance (wallet_id wl) w1;
               s1 = s\<lparr>gw := w1\<rparr>
           in (balance, if redisUp w1 then s1\<lparr>diamondCache := (diamondCache s1)(u \<mapsto> balance)\<rparr> else s1)))"

definition bustBalanceCache :: "uid \<Rightarrow> games \<Rightarrow> games" where
  "bustBalanceCache u s = (if redisUp (gw s) then s\<lparr>diamondCache := (diamondCache s)(u := None)\<rparr> else s)"

text \<open>The options of a posting without wealth points; the freeze flags of the wallet are checked.\<close>

definition legOptions :: "string \<Rightarrow> string \<Rightarrow> WalletCurrencyType \<Rightarrow> coin_options" where
  "legOptions key descr c =
     \<lparr> o_idempotencyKey = key, o_description = Some descr, o_metadata = None, o_counterpartyId = None,
       o_currencyType = Some c, o_applyWealth = False, o_freezeCheck = True \<rparr>"

definition diamondDebit :: "uid \<Rightarrow> int \<Rightarrow> CoinTxType \<Rightarrow> string \<Rightarrow> string \<Rightarrow> world \<Rightarrow> error + coin_result \<times> world" where
  "diamondDebit u amt tt key descr w = debit u amt tt (legOptions key descr DIAMOND) w"

definition diamondCredit :: "uid \<Rightarrow> int \<Rightarrow> CoinTxType \<Rightarrow> string \<Rightarrow> string \<Rightarrow> world \<Rightarrow> error + coin_result \<times> world" where
  "diamondCredit u amt tt key descr w = credit u amt tt (legOptions key descr DIAMOND) w"

section \<open>Conversion\<close>

fun conversionKey :: "DiamondConversionDirection \<Rightarrow> uid \<Rightarrow> string \<Rightarrow> string" where
  "conversionKey BUY u key = ''diamond-buy:'' @ show_nat u @ '':'' @ key"
| "conversionKey REDEEM u key = ''diamond-redeem:'' @ show_nat u @ '':'' @ key"

definition findConversion :: "string \<Rightarrow> games \<Rightarrow> conversion_row option" where
  "findConversion key s = find (\<lambda>r. cv_key r = key) (conversions s)"

definition insertConversion :: "conversion_row \<Rightarrow> games \<Rightarrow> error + conversion_row \<times> games" where
  "insertConversion row s =
     (if list_ex (\<lambda>r. cv_key r = cv_key row \<or> cv_coinEntry r = cv_coinEntry row \<or> cv_diamondEntry r = cv_diamondEntry row) (conversions s)
      then Inl UniqueViolation
      else Inr (row, s\<lparr>conversions := conversions s @ [row]\<rparr>))"

text \<open>The two legs of a conversion: what is taken, then what is given.\<close>

fun conversionLegs ::
  "DiamondConversionDirection \<Rightarrow> uid \<Rightarrow> int \<Rightarrow> string \<Rightarrow> world \<Rightarrow> error + (nat \<times> nat) \<times> world" where
  "conversionLegs BUY u amt key w =
     andThen (debit u amt C_DIAMOND_PURCHASE_OUT (legOptions (key @ '':out'') ''Diamonds purchased'' COIN) w) (\<lambda>(d, w1).
     andThen (diamondCredit u amt C_DIAMOND_PURCHASE_IN (key @ '':in'') ''Diamonds purchased'' w1) (\<lambda>(c, w2).
     Inr ((ledgerEntryId d, ledgerEntryId c), w2)))"
| "conversionLegs REDEEM u amt key w =
     andThen (diamondDebit u amt C_DIAMOND_REDEEM_OUT (key @ '':out'') ''Diamonds redeemed'' w) (\<lambda>(d, w1).
     andThen (credit u amt C_DIAMOND_REDEEM_IN (legOptions (key @ '':in'') ''Diamonds redeemed'' COIN) w1) (\<lambda>(c, w2).
     Inr ((ledgerEntryId c, ledgerEntryId d), w2)))"

definition runConversion ::
  "DiamondConversionDirection \<Rightarrow> uid \<Rightarrow> int \<Rightarrow> string \<Rightarrow> games \<Rightarrow> error + conversion_row \<times> games" where
  "runConversion dir u amt key s =
     (case findConversion key s of
        Some existing \<Rightarrow> Inr (existing, s)
      | None \<Rightarrow>
          (let (cw, w1) = getOrCreate u COIN (gw s); (dw, w2) = getOrCreate u DIAMOND w1;
               w3 = lockWalletsInOrder [wallet_id cw, wallet_id dw] w2 in
           andThen (conversionLegs dir u amt key w3) (\<lambda>((coinEntry, diamondEntry), w4).
           insertConversion
             \<lparr> cv_user = u, cv_direction = dir, cv_coinAmount = amt, cv_diamondAmount = amt, cv_coinEntry = coinEntry,
               cv_diamondEntry = diamondEntry, cv_key = key \<rparr> (s\<lparr>gw := w4\<rparr>))))"

text \<open>The loser of a race on the key answers with the row of the winner.\<close>

definition convertOnce ::
  "DiamondConversionDirection \<Rightarrow> uid \<Rightarrow> int \<Rightarrow> string \<Rightarrow> games \<Rightarrow> error + conversion_row \<times> games" where
  "convertOnce dir u amt key s =
     (case runConversion dir u amt key s of
        Inr r \<Rightarrow> Inr r
      | Inl err \<Rightarrow>
          if err = UniqueViolation then
            (case findConversion key s of None \<Rightarrow> Inl err | Some row \<Rightarrow> Inr (row, s))
          else Inl err)"

definition buyDiamonds :: "uid \<Rightarrow> int \<Rightarrow> string \<Rightarrow> games \<Rightarrow> error + conversion_row \<times> games" where
  "buyDiamonds u coinAmount key s =
     (if coinAmount \<le> 0 then Inl (AppError 400 ''INVALID_AMOUNT'' [])
      else andThen (convertOnce BUY u coinAmount (conversionKey BUY u key) s) (\<lambda>(conversion, s1).
        Inr (conversion, bustBalanceCache u (s1\<lparr>gw := adjustCoinBalanceCache u 0 None (gw s1)\<rparr>))))"

definition redeemDiamonds :: "uid \<Rightarrow> int \<Rightarrow> string \<Rightarrow> games \<Rightarrow> error + conversion_row \<times> games" where
  "redeemDiamonds u diamondAmount key s =
     (if diamondAmount \<le> 0 then Inl (AppError 400 ''INVALID_AMOUNT'' [])
      else andThen (convertOnce REDEEM u diamondAmount (conversionKey REDEEM u key) s) (\<lambda>(conversion, s1).
        let s2 = bustBalanceCache u s1 in
        Inr (conversion, s2\<lparr>gw := adjustCoinBalanceCache u 0 None (gw s2)\<rparr>)))"

section \<open>Sessions of the game provider\<close>

definition SS_TOKEN_TTL_MS :: int where
  "SS_TOKEN_TTL_MS = 24 * 60 * 60 * 1000"

text \<open>\<open>Number.MAX_SAFE_INTEGER\<close> and its negative bound the balances that may be sent.\<close>

definition safeBalance :: "int \<Rightarrow> error + int" where
  "safeBalance balance =
     (if 9007199254740991 < balance \<or> balance < - 9007199254740991
      then Inl (AppError 500 ''BALANCE_NOT_SAFE_INTEGER'' []) else Inr balance)"

definition checkSessionUser :: "bool \<Rightarrow> uid \<Rightarrow> uid option \<Rightarrow> error + unit" where
  "checkSessionUser enforce sessionUser claimed =
     (case claimed of
        None \<Rightarrow> Inr ()
      | Some u \<Rightarrow> if u = sessionUser \<or> \<not> enforce then Inr () else Inl (AppError 401 ''GAME_SESSION_USER_MISMATCH'' []))"

definition requireActiveSession :: "string \<Rightarrow> games \<Rightarrow> error + game_session" where
  "requireActiveSession tok s =
     (case find (\<lambda>x. sn_ssToken x = Some tok) (gameSessions s) of
        None \<Rightarrow> Inl (AppError 401 ''GAME_SESSION_NOT_FOUND'' [])
      | Some x \<Rightarrow>
          (case sn_expiresAt x of
             None \<Rightarrow> Inl (AppError 401 ''GAME_SESSION_EXPIRED'' [])
           | Some t \<Rightarrow> if t < clock (gw s) then Inl (AppError 401 ''GAME_SESSION_EXPIRED'' []) else Inr x))"

definition launchGame :: "string \<Rightarrow> uid \<Rightarrow> int \<Rightarrow> string option \<Rightarrow> games \<Rightarrow> error + string \<times> games" where
  "launchGame code u gameId room s =
     (case gameProviderId s of
        None \<Rightarrow> Inl (AppError 503 ''GAME_PROVIDER_NOT_CONFIGURED'' [])
      | Some p \<Rightarrow>
          if \<not> providerActive s then Inl (AppError 503 ''GAME_PROVIDER_INACTIVE'' [])
          else if users (gw s) u = None then Inl (AppError 404 ''USER_NOT_FOUND'' [])
          else
            (let s1 = snd (getBalance u s) in
             if list_ex (\<lambda>x. sn_code x = code) (gameSessions s1) then Inl UniqueViolation
             else Inr (code, s1\<lparr>gw := (gw s1)\<lparr>nextId := Suc (nextId (gw s1))\<rparr>,
                    gameSessions := gameSessions s1 @
                      [\<lparr> sn_id = nextId (gw s1), sn_user = u, sn_provider = p, sn_gameId = gameId, sn_code = code,
                         sn_codeUsedAt = None, sn_ssToken = None, sn_expiresAt = None, sn_room = room, sn_status = ISSUED \<rparr>]\<rparr>)))"

definition updateSessions :: "(game_session \<Rightarrow> bool) \<Rightarrow> (game_session \<Rightarrow> game_session) \<Rightarrow> games \<Rightarrow> games" where
  "updateSessions P f s = s\<lparr>gameSessions := map (\<lambda>x. if P x then f x else x) (gameSessions s)\<rparr>"

text \<open>The token column is unique.\<close>

definition setToken :: "nat \<Rightarrow> string \<Rightarrow> games \<Rightarrow> error + int \<times> games" where
  "setToken i tok s =
     (let expiresAt = clock (gw s) + SS_TOKEN_TTL_MS in
      if list_ex (\<lambda>x. sn_id x \<noteq> i \<and> sn_ssToken x = Some tok) (gameSessions s) then Inl UniqueViolation
      else Inr (expiresAt, updateSessions (\<lambda>x. sn_id x = i) (\<lambda>x. x\<lparr>sn_ssToken := Some tok, sn_expiresAt := Some expiresAt\<rparr>) s))"

text \<open>
  The launch code is claimed by one conditional update; the claim stands even when the rest of the
  call fails, since there is no transaction around it.
\<close>

definition claimable :: "string \<Rightarrow> game_session \<Rightarrow> bool" where
  "claimable code x \<longleftrightarrow> sn_code x = code \<and> sn_codeUsedAt x = None"

definition claimCode :: "string \<Rightarrow> games \<Rightarrow> games" where
  "claimCode code s = updateSessions (claimable code) (\<lambda>x. x\<lparr>sn_codeUsedAt := Some (clock (gw s)), sn_status := ACTIVE\<rparr>) s"

definition getSsToken :: "string \<Rightarrow> uid \<Rightarrow> string \<Rightarrow> games \<Rightarrow> (error + string \<times> int \<times> int) \<times> games" where
  "getSsToken tok u code s =
     (let invalid = AppError 401 ''GAME_LAUNCH_CODE_INVALID'' []; s1 = claimCode code s in
      if length (filter (claimable code) (gameSessions s)) \<noteq> 1 then (Inl invalid, s1)
      else
        (case find (\<lambda>x. sn_code x = code) (gameSessions s1) of
           None \<Rightarrow> (Inl invalid, s1)
         | Some x \<Rightarrow>
             if sn_user x \<noteq> u then (Inl invalid, s1)
             else
               (case setToken (sn_id x) tok s1 of
                  Inl err \<Rightarrow> (Inl err, s1)
                | Inr (expiresAt, s2) \<Rightarrow>
                    if users (gw s2) (sn_user x) = None then (Inl (AppError 404 ''USER_NOT_FOUND'' []), s2)
                    else
                      (let (balance, s3) = getBalance (sn_user x) s2 in
                       case safeBalance balance of
                         Inl err \<Rightarrow> (Inl err, s3)
                       | Inr b \<Rightarrow> (Inr (tok, expiresAt, b), s3)))))"

definition getUserInfo :: "string \<Rightarrow> uid option \<Rightarrow> games \<Rightarrow> (error + uid \<times> int) \<times> games" where
  "getUserInfo tok claimed s =
     (case andThen (requireActiveSession tok s) (\<lambda>x.
           andThen (checkSessionUser (userCheck s) (sn_user x) claimed) (\<lambda>_.
           if users (gw s) (sn_user x) = None then Inl (AppError 404 ''USER_NOT_FOUND'' []) else Inr (sn_user x))) of
        Inl err \<Rightarrow> (Inl err, s)
      | Inr u \<Rightarrow>
          (let (balance, s1) = getBalance u s in
           case safeBalance balance of Inl err \<Rightarrow> (Inl err, s1) | Inr b \<Rightarrow> (Inr (u, b), s1)))"

definition updateSsToken :: "string \<Rightarrow> string \<Rightarrow> uid option \<Rightarrow> games \<Rightarrow> error + (string \<times> int) \<times> games" where
  "updateSsToken tok' tok claimed s =
     andThen (requireActiveSession tok s) (\<lambda>x.
     andThen (checkSessionUser (userCheck s) (sn_user x) claimed) (\<lambda>_.
     andThen (setToken (sn_id x) tok' s) (\<lambda>(expiresAt, s1). Inr ((tok', expiresAt), s1))))"

section \<open>Settlement\<close>

record settlement =
  st_userIsDebit :: bool
  st_userTxType :: CoinTxType
  st_houseTxType :: CoinTxType
  st_amount :: int

fun resolveSettlement :: "BaishunDiffMsg \<Rightarrow> int \<Rightarrow> settlement" where
  "resolveSettlement Bet diff = \<lparr> st_userIsDebit = True, st_userTxType = C_GAME_WAGER_OUT, st_houseTxType = C_GAME_WAGER_IN, st_amount = \<bar>diff\<bar> \<rparr>"
| "resolveSettlement Result diff = \<lparr> st_userIsDebit = False, st_userTxType = C_GAME_RESULT_IN, st_houseTxType = C_GAME_RESULT_OUT, st_amount = \<bar>diff\<bar> \<rparr>"
| "resolveSettlement Refund diff = \<lparr> st_userIsDebit = False, st_userTxType = C_GAME_REFUND_IN, st_houseTxType = C_GAME_REFUND_OUT, st_amount = \<bar>diff\<bar> \<rparr>"

fun diffName :: "BaishunDiffMsg \<Rightarrow> string" where
  "diffName Bet = ''bet''"
| "diffName Result = ''result''"
| "diffName Refund = ''refund''"

definition requireGameHouseUserId :: "games \<Rightarrow> error + uid" where
  "requireGameHouseUserId s =
     (case gameHouse s of None \<Rightarrow> Inl (AppError 500 ''GAME_HOUSE_NOT_CONFIGURED'' []) | Some h \<Rightarrow> Inr h)"

definition findLink :: "nat \<Rightarrow> string \<Rightarrow> games \<Rightarrow> round_link option" where
  "findLink p order s = find (\<lambda>l. ln_provider l = p \<and> ln_order l = order) (roundLinks s)"

definition linkKey :: "nat \<Rightarrow> string \<Rightarrow> string" where
  "linkKey p order = ''game-round:'' @ show_nat p @ '':'' @ order"

definition insertLink :: "round_link \<Rightarrow> games \<Rightarrow> error + round_link \<times> games" where
  "insertLink row s =
     (if list_ex (\<lambda>l. ln_provider l = ln_provider row \<and> ln_order l = ln_order row \<or> ln_userEntry l = ln_userEntry row
           \<or> ln_houseEntry l = ln_houseEntry row) (roundLinks s)
      then Inl UniqueViolation
      else Inr (row, s\<lparr>roundLinks := roundLinks s @ [row]\<rparr>))"

definition settleLegs :: "uid \<Rightarrow> uid \<Rightarrow> settlement \<Rightarrow> string \<Rightarrow> string \<Rightarrow> world \<Rightarrow> error + (nat \<times> nat) \<times> world" where
  "settleLegs u h st key descr w =
     andThen ((if st_userIsDebit st then diamondDebit else diamondCredit) u (st_amount st) (st_userTxType st) (key @ '':user'') descr w)
       (\<lambda>(r, w1).
     andThen ((if st_userIsDebit st then diamondCredit else diamondDebit) h (st_amount st) (st_houseTxType st) (key @ '':house'') descr w1)
       (\<lambda>(r', w2). Inr ((ledgerEntryId r, ledgerEntryId r'), w2)))"

record change_params =
  cb_ssToken :: string
  cb_diff :: int
  cb_msg :: BaishunDiffMsg
  cb_gameId :: int
  cb_room :: "string option"
  cb_order :: string
  cb_user :: "uid option"

definition runSettlement :: "game_session \<Rightarrow> uid \<Rightarrow> change_params \<Rightarrow> games \<Rightarrow> error + round_link \<times> games" where
  "runSettlement x h p s =
     (case findLink (sn_provider x) (cb_order p) s of
        Some dup \<Rightarrow> Inr (dup, s)
      | None \<Rightarrow>
          (let (uw, w1) = getOrCreate (sn_user x) DIAMOND (gw s); (hw, w2) = getOrCreate h DIAMOND w1;
               w3 = lockWalletsInOrder [wallet_id uw, wallet_id hw] w2;
               st = resolveSettlement (cb_msg p) (cb_diff p);
               descr = ''Game '' @ diffName (cb_msg p) @ '' (order '' @ cb_order p @ '')'' in
           andThen (settleLegs (sn_user x) h st (linkKey (sn_provider x) (cb_order p)) descr w3) (\<lambda>((userEntry, houseEntry), w4).
           insertLink
             \<lparr> ln_provider = sn_provider x, ln_order = cb_order p, ln_gameId = cb_gameId p, ln_room = cb_room p, ln_diffMsg = cb_msg p,
               ln_user = sn_user x, ln_diff = cb_diff p, ln_userEntry = userEntry, ln_houseEntry = houseEntry \<rparr> (s\<lparr>gw := w4\<rparr>))))"

text \<open>A unique violation is swallowed: the balance read at the end reflects the winner.\<close>

definition settleOnce :: "game_session \<Rightarrow> uid \<Rightarrow> change_params \<Rightarrow> games \<Rightarrow> error + unit \<times> games" where
  "settleOnce x h p s =
     (case runSettlement x h p s of
        Inr (_, s1) \<Rightarrow> Inr ((), s1)
      | Inl err \<Rightarrow> if err = UniqueViolation then Inr ((), s) else Inl err)"

definition changeBalance :: "change_params \<Rightarrow> games \<Rightarrow> error + int \<times> games" where
  "changeBalance p s =
     (if cb_diff p = 0 then Inl (AppError 400 ''INVALID_REQUEST'' [])
      else
        andThen (requireActiveSession (cb_ssToken p) s) (\<lambda>x.
        andThen (checkSessionUser (userCheck s) (sn_user x) (cb_user p)) (\<lambda>_.
        andThen (requireGameHouseUserId s) (\<lambda>h.
        if findLink (sn_provider x) (cb_order p) s \<noteq> None then Inr (getBalance (sn_user x) s)
        else
          andThen (settleOnce x h p s) (\<lambda>(_, s1).
          Inr (getBalance (sn_user x) (bustBalanceCache h (bustBalanceCache (sn_user x) s1))))))))"

end
