(* ===== verification/GameRounds.thy ===== *)
theory GameRounds
  imports Diamonds
begin

text \<open>
  What the model in \<open>Diamonds\<close> does: every conversion and every settlement of a game moves what its
  row says, once, so that the balances of users and of the house are the sum of the rows.
\<close>

section \<open>Two postings in either order\<close>

context coin_account
begin

text \<open>A credit that is followed by a debit, the order of a win.\<close>

lemma back_legs:
  assumes run: "give_coins v b tt' opts' w = Inr (r', w1)" "take_coins u a tt opts w1 = Inr (r, w2)"
    and fresh: "findByIdempotencyKey (coinLedger w) (o_idempotencyKey opts') = None"
      "findByIdempotencyKey (coinLedger w) (o_idempotencyKey opts) = None" "o_idempotencyKey opts \<noteq> o_idempotencyKey opts'"
    and c: "currencyOf opts \<noteq> POINT" "currencyOf opts' \<noteq> POINT"
  shows "0 < a" "moved w w2 (\<lambda>x. moving (v, currencyOf opts') b x + moving (u, currencyOf opts) (- a) x)" "coinFrame w w2"
    "\<exists>e e'. coinLedger w2 = coinLedger w @ [e, e'] \<and> idempotencyKey e = o_idempotencyKey opts' \<and> idempotencyKey e' = o_idempotencyKey opts
       \<and> entry_id e = ledgerEntryId r' \<and> entry_id e' = ledgerEntryId r"
proof -
  from give_posts [OF run(1) fresh(1) c(2)] obtain e where m1: "moved w w1 (moving (v, currencyOf opts') b)"
    and e: "coinLedger w1 = coinLedger w @ [e]" "idempotencyKey e = o_idempotencyKey opts'" "entry_id e = ledgerEntryId r'" by blast
  have "findByIdempotencyKey (coinLedger w1) (o_idempotencyKey opts) = None"
    using fresh e by (simp add: findByIdempotencyKey_def find_append)
  from take_posts [OF run(2) this c(1)] obtain e' where pos: "0 < a" and m2: "moved w1 w2 (moving (u, currencyOf opts) (- a))"
    and e': "coinLedger w2 = coinLedger w1 @ [e']" "idempotencyKey e' = o_idempotencyKey opts" "entry_id e' = ledgerEntryId r" by blast
  show "0 < a" by (fact pos)
  show "moved w w2 (\<lambda>x. moving (v, currencyOf opts') b x + moving (u, currencyOf opts) (- a) x)" by (rule moved_trans [OF m1 m2])
  show "coinFrame w w2" using coinFrame_trans [OF give_frame [OF run(1)] take_frame [OF run(2)]] .
  show "\<exists>e e'. coinLedger w2 = coinLedger w @ [e, e'] \<and> idempotencyKey e = o_idempotencyKey opts' \<and> idempotencyKey e' = o_idempotencyKey opts
       \<and> entry_id e = ledgerEntryId r' \<and> entry_id e' = ledgerEntryId r"
    using e e' by auto
qed

end

section \<open>Keys\<close>

definition used :: "string \<Rightarrow> world \<Rightarrow> bool" where
  "used k w \<longleftrightarrow> findByIdempotencyKey (coinLedger w) k \<noteq> None"

lemma used_append:
  "coinLedger w' = coinLedger w @ [e, e'] \<Longrightarrow> used k w' \<longleftrightarrow> used k w \<or> k = idempotencyKey e \<or> k = idempotencyKey e'"
  by (auto simp: used_def findByIdempotencyKey_def find_append split: option.splits)

lemma legOptions_simps [simp]:
  "o_idempotencyKey (legOptions k d c) = k" "currencyOf (legOptions k d c) = c" "o_freezeCheck (legOptions k d c)"
  by (simp_all add: legOptions_def)

lemma suffix_differs: "x \<noteq> [] \<Longrightarrow> y \<noteq> [] \<Longrightarrow> last x \<noteq> last y \<Longrightarrow> a @ x \<noteq> b @ y"
  by (metis last_appendR)

lemma leg_suffixes [simp]:
  "a @ '':out'' \<noteq> b @ '':in''" "a @ '':in'' \<noteq> b @ '':out''" "a @ '':user'' \<noteq> b @ '':house''" "a @ '':house'' \<noteq> b @ '':user''"
proof -
  show "a @ '':out'' \<noteq> b @ '':in''" by (rule suffix_differs) simp_all
  show "a @ '':in'' \<noteq> b @ '':out''" by (rule suffix_differs) simp_all
  show "a @ '':user'' \<noteq> b @ '':house''" by (rule suffix_differs) simp_all
  show "a @ '':house'' \<noteq> b @ '':user''" by (rule suffix_differs) simp_all
qed

lemma show_nat_no_colon: "CHR '':'' \<notin> set (show_nat n)"
proof
  assume "CHR '':'' \<in> set (show_nat n)"
  then have "CHR '':'' \<in> set ''0123456789''" using show_nat_digits [of n] by (simp only: list_all_iff)
  then show False by simp
qed

lemma linkKey_inject [simp]: "linkKey p a = linkKey q b \<longleftrightarrow> p = q \<and> a = b"
proof
  assume "linkKey p a = linkKey q b"
  then have e: "show_nat p @ CHR '':'' # a = show_nat q @ CHR '':'' # b" by (simp add: linkKey_def)
  have t: "takeWhile (\<lambda>c. c \<noteq> CHR '':'') (show_nat n @ CHR '':'' # z) = show_nat n"
    and d: "dropWhile (\<lambda>c. c \<noteq> CHR '':'') (show_nat n @ CHR '':'' # z) = CHR '':'' # z" for n z
    using show_nat_no_colon [of n] by (subst takeWhile_append2 dropWhile_append2; auto)+
  show "p = q \<and> a = b" using t [of p a] t [of q b] d [of p a] d [of q b] e by simp
qed simp

lemma key_heads: "take 8 (conversionKey dir u k) = ''diamond-''" "take 1 (linkKey p order) = ''g''"
  by (cases dir; simp) (simp add: linkKey_def)

text \<open>A key of a conversion never reads like a key of a settlement.\<close>

lemma keys_apart: "take 8 k = ''diamond-'' \<Longrightarrow> k @ x \<noteq> linkKey p order @ y"
  by (cases k) (auto simp: linkKey_def)

section \<open>The legs of a conversion and of a settlement\<close>

definition conversionMove :: "DiamondConversionDirection \<Rightarrow> uid \<Rightarrow> int \<Rightarrow> uid \<times> WalletCurrencyType \<Rightarrow> int" where
  "conversionMove dir u amt =
     (case dir of
        BUY \<Rightarrow> (\<lambda>x. moving (u, COIN) (- amt) x + moving (u, DIAMOND) amt x)
      | REDEEM \<Rightarrow> (\<lambda>x. moving (u, DIAMOND) (- amt) x + moving (u, COIN) amt x))"

definition settleMove :: "BaishunDiffMsg \<Rightarrow> uid \<Rightarrow> uid \<Rightarrow> int \<Rightarrow> uid \<times> WalletCurrencyType \<Rightarrow> int" where
  "settleMove m u h diff =
     (if m = Bet then (\<lambda>x. moving (u, DIAMOND) (- \<bar>diff\<bar>) x + moving (h, DIAMOND) \<bar>diff\<bar> x)
      else (\<lambda>x. moving (u, DIAMOND) \<bar>diff\<bar> x + moving (h, DIAMOND) (- \<bar>diff\<bar>) x))"

lemma conversionLegs_ok:
  assumes run: "conversionLegs dir u amt key w = Inr ((ce, de), w')" and fresh: "\<not> used (key @ '':out'') w" "\<not> used (key @ '':in'') w"
  shows "0 < amt" "moved w w' (conversionMove dir u amt)" "coinFrame w w'"
    "\<exists>e e'. coinLedger w' = coinLedger w @ [e, e'] \<and> idempotencyKey e = key @ '':out'' \<and> idempotencyKey e' = key @ '':in''
       \<and> ce \<in> {entry_id e, entry_id e'} \<and> de \<in> {entry_id e, entry_id e'}"
proof -
  obtain tt tt' d c c' r w1 r' where legs: "debit u amt tt (legOptions (key @ '':out'') d c) w = Inr (r, w1)"
      "credit u amt tt' (legOptions (key @ '':in'') d c') w1 = Inr (r', w')"
    and ids: "ce \<in> {ledgerEntryId r, ledgerEntryId r'}" "de \<in> {ledgerEntryId r, ledgerEntryId r'}"
    and c: "(dir = BUY \<and> c = COIN \<and> c' = DIAMOND) \<or> (dir = REDEEM \<and> c = DIAMOND \<and> c' = COIN)"
    using run by (cases dir) (auto simp: andThen_Inr_iff diamondDebit_def diamondCredit_def)
  have p: "c \<noteq> POINT" "c' \<noteq> POINT" using c by auto
  note two = coins.two_legs [OF legs, unfolded legOptions_simps, OF _ _ _ p]
  have f: "findByIdempotencyKey (coinLedger w) (key @ '':out'') = None" "findByIdempotencyKey (coinLedger w) (key @ '':in'') = None"
    using fresh by (simp_all add: used_def)
  show "0 < amt" "coinFrame w w'" using two(1,3) [OF f] by simp_all
  show "moved w w' (conversionMove dir u amt)"
    using two(2) [OF f] c by (auto simp: conversionMove_def)
  show "\<exists>e e'. coinLedger w' = coinLedger w @ [e, e'] \<and> idempotencyKey e = key @ '':out'' \<and> idempotencyKey e' = key @ '':in''
       \<and> ce \<in> {entry_id e, entry_id e'} \<and> de \<in> {entry_id e, entry_id e'}"
    using two(4) [OF f] ids by auto
qed

lemma settleLegs_ok:
  assumes run: "settleLegs u h (resolveSettlement m diff) key descr w = Inr ((ue, he), w')"
    and fresh: "\<not> used (key @ '':user'') w" "\<not> used (key @ '':house'') w"
  shows "moved w w' (settleMove m u h diff)" "coinFrame w w'"
    "\<exists>e e'. coinLedger w' = coinLedger w @ [e, e'] \<and> idempotencyKey e = key @ '':user'' \<and> idempotencyKey e' = key @ '':house''
       \<and> ue = entry_id e \<and> he = entry_id e'"
proof -
  have f: "findByIdempotencyKey (coinLedger w) (key @ '':user'') = None" "findByIdempotencyKey (coinLedger w) (key @ '':house'') = None"
    using fresh by (simp_all add: used_def)
  have "moved w w' (settleMove m u h diff) \<and> coinFrame w w'
    \<and> (\<exists>e e'. coinLedger w' = coinLedger w @ [e, e'] \<and> idempotencyKey e = key @ '':user'' \<and> idempotencyKey e' = key @ '':house''
       \<and> ue = entry_id e \<and> he = entry_id e')"
  proof (cases "m = Bet")
    case True
    with run obtain tt tt' r w1 r' where legs: "debit u \<bar>diff\<bar> tt (legOptions (key @ '':user'') descr DIAMOND) w = Inr (r, w1)"
        "credit h \<bar>diff\<bar> tt' (legOptions (key @ '':house'') descr DIAMOND) w1 = Inr (r', w')"
      and ids: "ue = ledgerEntryId r" "he = ledgerEntryId r'"
      by (auto simp: settleLegs_def andThen_Inr_iff diamondDebit_def diamondCredit_def)
    note two = coins.two_legs [OF legs, unfolded legOptions_simps, OF f]
    show ?thesis using two True ids by (auto simp: settleMove_def)
  next
    case False
    with run obtain tt tt' r w1 r' where legs: "credit u \<bar>diff\<bar> tt (legOptions (key @ '':user'') descr DIAMOND) w = Inr (r, w1)"
        "debit h \<bar>diff\<bar> tt' (legOptions (key @ '':house'') descr DIAMOND) w1 = Inr (r', w')"
      and ids: "ue = ledgerEntryId r" "he = ledgerEntryId r'"
      by (cases m) (auto simp: settleLegs_def andThen_Inr_iff diamondDebit_def diamondCredit_def)
    note two = coins.back_legs [OF legs, unfolded legOptions_simps, OF f]
    show ?thesis using two False ids by (auto simp: settleMove_def)
  qed
  then show "moved w w' (settleMove m u h diff)" "coinFrame w w'"
    "\<exists>e e'. coinLedger w' = coinLedger w @ [e, e'] \<and> idempotencyKey e = key @ '':user'' \<and> idempotencyKey e' = key @ '':house''
       \<and> ue = entry_id e \<and> he = entry_id e'" by blast+
qed

section \<open>The invariant\<close>

definition ledgerIds :: "games \<Rightarrow> nat set" where
  "ledgerIds s = entry_id ` set (coinLedger (gw s))"

definition cacheOk :: "games \<Rightarrow> bool" where
  "cacheOk s \<longleftrightarrow> (redisUp (gw s) \<longrightarrow> (\<forall>u b. diamondCache s u = Some b \<longrightarrow> b = balanceOf (gw s) (u, DIAMOND)))"

text \<open>The rows of the ledger under the keys of this component belong to a conversion or a settlement.\<close>

definition rowsInv :: "games \<Rightarrow> bool" where
  "rowsInv s \<longleftrightarrow> Ledger.wf (gw s)
     \<and> (\<forall>k. take 8 k = ''diamond-'' \<longrightarrow> used (k @ '':out'') (gw s) \<or> used (k @ '':in'') (gw s) \<longrightarrow> findConversion k s \<noteq> None)
     \<and> (\<forall>p order. used (linkKey p order @ '':user'') (gw s) \<or> used (linkKey p order @ '':house'') (gw s) \<longrightarrow> findLink p order s \<noteq> None)
     \<and> (\<forall>r\<in>set (conversions s). cv_coinEntry r \<in> ledgerIds s \<and> cv_diamondEntry r \<in> ledgerIds s)
     \<and> (\<forall>l\<in>set (roundLinks s). ln_userEntry l \<in> ledgerIds s \<and> ln_houseEntry l \<in> ledgerIds s)"

definition gameInv :: "games \<Rightarrow> bool" where
  "gameInv s \<longleftrightarrow> rowsInv s \<and> cacheOk s"

lemma rowsInv_still:
  assumes "rowsInv s" "moved (gw s) (gw s') still" "coinLedger (gw s') = coinLedger (gw s)" "conversions s' = conversions s"
    "roundLinks s' = roundLinks s"
  shows "rowsInv s'"
proof -
  have "used k (gw s') = used k (gw s)" for k by (simp add: used_def assms(3))
  moreover have "ledgerIds s' = ledgerIds s" "findConversion k s' = findConversion k s" "findLink p x s' = findLink p x s" for k p x
    using assms(3-5) by (simp_all add: ledgerIds_def findConversion_def findLink_def)
  ultimately show ?thesis using assms(1,4,5) moved_wf [OF assms(2)] by (simp add: rowsInv_def)
qed

lemma rowsInv_fresh:
  assumes "rowsInv s"
  shows "findLink p x s = None \<Longrightarrow> \<not> used (linkKey p x @ '':user'') (gw s) \<and> \<not> used (linkKey p x @ '':house'') (gw s)"
    "findConversion k s = None \<Longrightarrow> take 8 k = ''diamond-'' \<Longrightarrow> \<not> used (k @ '':out'') (gw s) \<and> \<not> used (k @ '':in'') (gw s)"
  using assms unfolding rowsInv_def by blast+

lemma used_cong: "coinLedger w' = coinLedger w \<Longrightarrow> used k w' = used k w"
  by (simp add: used_def)

lemma new_ids:
  assumes "Ledger.wf w'" "coinLedger w' = coinLedger w @ [e, e']"
  shows "entry_id e \<notin> entry_id ` set (coinLedger w)" "entry_id e' \<notin> entry_id ` set (coinLedger w)" "entry_id e \<noteq> entry_id e'"
proof -
  have "distinct (map entry_id (coinLedger w @ [e, e']))" using assms by (simp add: Ledger.wf_def ledgerInv_def)
  then show "entry_id e \<notin> entry_id ` set (coinLedger w)" "entry_id e' \<notin> entry_id ` set (coinLedger w)" "entry_id e \<noteq> entry_id e'"
    by auto
qed

lemma getBalance_ok:
  assumes inv: "gameInv s" and get: "getBalance u s = (b, s')"
  shows "b = balanceOf (gw s) (u, DIAMOND)" "gameInv s'" "moved (gw s) (gw s') still"
    "s' = s\<lparr>gw := gw s', diamondCache := diamondCache s'\<rparr>" "redisUp (gw s') = redisUp (gw s)" "users (gw s') = users (gw s)"
    "clock (gw s') = clock (gw s)" "coinLedger (gw s') = coinLedger (gw s)"
proof -
  have "b = balanceOf (gw s) (u, DIAMOND) \<and> gameInv s' \<and> moved (gw s) (gw s') still
    \<and> s' = s\<lparr>gw := gw s', diamondCache := diamondCache s'\<rparr> \<and> redisUp (gw s') = redisUp (gw s) \<and> users (gw s') = users (gw s)
    \<and> clock (gw s') = clock (gw s) \<and> coinLedger (gw s') = coinLedger (gw s)"
  proof (cases "if redisUp (gw s) then diamondCache s u else None")
    case (Some x)
    then show ?thesis using assms by (auto simp: getBalance_def gameInv_def cacheOk_def split: if_splits)
  next
    case None
    obtain wl w1 where g: "getOrCreate u DIAMOND (gw s) = (wl, w1)" by fastforce
    note m = getOrCreate_moved [OF g] and k = getOrCreate_keeps [OF g]
    have wf: "Ledger.wf (gw s)" using inv by (simp add: gameInv_def rowsInv_def)
    have b: "coinComputeBalance (wallet_id wl) w1 = balanceOf (gw s) (u, DIAMOND)"
      using computeBalance_balanceOf [OF moved_wf [OF m wf], of wl] getOrCreate_wallet [OF g] moved_bal [OF m wf] by simp
    have s': "s' = (let s1 = s\<lparr>gw := w1\<rparr> in if redisUp w1 then s1\<lparr>diamondCache := (diamondCache s)(u \<mapsto> balanceOf (gw s) (u, DIAMOND))\<rparr> else s1)"
      and bb: "b = balanceOf (gw s) (u, DIAMOND)"
      using get None b g by (auto simp: getBalance_def Let_def split: if_splits)
    have w': "gw s' = w1" "conversions s' = conversions s" "roundLinks s' = roundLinks s" by (simp_all add: s' Let_def)
    have "cacheOk s'" using inv moved_bal [OF m wf] k(5) by (auto simp: cacheOk_def gameInv_def s' Let_def)
    then have "gameInv s'" using rowsInv_still [of s s'] inv m k(1) w' by (simp add: gameInv_def)
    then show ?thesis using bb m k w'(1) by (simp add: s' Let_def)
  qed
  then show "b = balanceOf (gw s) (u, DIAMOND)" "gameInv s'" "moved (gw s) (gw s') still"
    "s' = s\<lparr>gw := gw s', diamondCache := diamondCache s'\<rparr>" "redisUp (gw s') = redisUp (gw s)" "users (gw s') = users (gw s)"
    "clock (gw s') = clock (gw s)" "coinLedger (gw s') = coinLedger (gw s)" by blast+
qed

section \<open>A new conversion, a new settlement\<close>

lemma runConversion_new:
  assumes inv: "rowsInv s" and new: "findConversion key s = None" and key: "take 8 key = ''diamond-''"
    and run: "runConversion dir u amt key s = Inr (row, s')"
  shows "rowsInv s'" "moved (gw s) (gw s') (conversionMove dir u amt)" "conversions s' = conversions s @ [row]"
    "cv_direction row = dir" "cv_user row = u" "cv_coinAmount row = amt" "cv_diamondAmount row = amt" "cv_key row = key"
    "s' = s\<lparr>gw := gw s', conversions := conversions s'\<rparr>" "coinFrame (gw s) (gw s')" "0 < amt"
proof -
  obtain cw w1 dw w2 where g: "getOrCreate u COIN (gw s) = (cw, w1)" "getOrCreate u DIAMOND w1 = (dw, w2)" by fastforce
  define w3 where "w3 = lockWalletsInOrder [wallet_id cw, wallet_id dw] w2"
  note o3 = open_two [OF g, of "[wallet_id cw, wallet_id dw]", folded w3_def]
  have wf: "Ledger.wf (gw s)" using inv by (simp add: rowsInv_def)
  obtain ce de w4 where legs: "conversionLegs dir u amt key w3 = Inr ((ce, de), w4)"
    and row: "row = \<lparr> cv_user = u, cv_direction = dir, cv_coinAmount = amt, cv_diamondAmount = amt, cv_coinEntry = ce,
               cv_diamondEntry = de, cv_key = key \<rparr>" and s': "s' = s\<lparr>gw := w4, conversions := conversions s @ [row]\<rparr>"
    using run new by (auto simp: runConversion_def g w3_def [symmetric] Let_def andThen_Inr_iff insertConversion_def split: if_splits)
  have fresh: "\<not> used (key @ '':out'') w3" "\<not> used (key @ '':in'') w3"
    using rowsInv_fresh(2) [OF inv new key] used_cong [OF o3(3)] by simp_all
  note l = conversionLegs_ok [OF legs fresh]
  obtain e e' where e: "coinLedger w4 = coinLedger (gw s) @ [e, e']" "idempotencyKey e = key @ '':out''" "idempotencyKey e' = key @ '':in''"
    "ce \<in> {entry_id e, entry_id e'}" "de \<in> {entry_id e, entry_id e'}" using l(4) by (auto simp: o3(3))
  have m: "moved (gw s) w4 (conversionMove dir u amt)" by (rule still_moved [OF o3(1) l(2)])
  show "moved (gw s) (gw s') (conversionMove dir u amt)" using m by (simp add: s')
  show "conversions s' = conversions s @ [row]" "cv_direction row = dir" "cv_user row = u" "cv_coinAmount row = amt"
    "cv_diamondAmount row = amt" "cv_key row = key" "s' = s\<lparr>gw := gw s', conversions := conversions s'\<rparr>" "0 < amt"
    by (simp_all add: s' row l(1))
  show "coinFrame (gw s) (gw s')" using coinFrame_trans [OF o3(2) l(3)] by (simp add: s')
  have ids: "ledgerIds s' = ledgerIds s \<union> {entry_id e, entry_id e'}" by (auto simp: ledgerIds_def s' e(1))
  have u: "used k w4 \<longleftrightarrow> used k (gw s) \<or> k = key @ '':out'' \<or> k = key @ '':in''" for k
    using used_append [OF e(1)] e(2,3) by simp
  have fc: "findConversion k s' \<noteq> None \<longleftrightarrow> findConversion k s \<noteq> None \<or> k = key" for k
    by (auto simp: findConversion_def find_append s' row split: option.splits)
  have fl: "findLink p x s' = findLink p x s" for p x by (simp add: findLink_def s')
  have nk: "linkKey p x @ y \<noteq> key @ z" for p x y z using keys_apart [OF key] by metis
  show "rowsInv s'"
    using inv moved_wf [OF m wf] e(4,5) unfolding rowsInv_def fc fl ids
    by (simp add: s' u nk row) blast
qed

lemma runSettlement_new:
  assumes inv: "rowsInv s" and new: "findLink (sn_provider x) (cb_order p) s = None"
    and run: "runSettlement x h p s = Inr (row, s')"
  shows "rowsInv s'" "moved (gw s) (gw s') (settleMove (cb_msg p) (sn_user x) h (cb_diff p))" "roundLinks s' = roundLinks s @ [row]"
    "ln_diffMsg row = cb_msg p" "ln_user row = sn_user x" "ln_diff row = cb_diff p" "ln_provider row = sn_provider x" "ln_order row = cb_order p"
    "s' = s\<lparr>gw := gw s', roundLinks := roundLinks s'\<rparr>" "coinFrame (gw s) (gw s')"
proof -
  let ?k = "linkKey (sn_provider x) (cb_order p)"
  obtain uw w1 hw w2 where g: "getOrCreate (sn_user x) DIAMOND (gw s) = (uw, w1)" "getOrCreate h DIAMOND w1 = (hw, w2)" by fastforce
  define w3 where "w3 = lockWalletsInOrder [wallet_id uw, wallet_id hw] w2"
  note o3 = open_two [OF g, of "[wallet_id uw, wallet_id hw]", folded w3_def]
  have wf: "Ledger.wf (gw s)" using inv by (simp add: rowsInv_def)
  obtain ue he w4 descr where legs: "settleLegs (sn_user x) h (resolveSettlement (cb_msg p) (cb_diff p)) ?k descr w3 = Inr ((ue, he), w4)"
    and row: "row = \<lparr> ln_provider = sn_provider x, ln_order = cb_order p, ln_gameId = cb_gameId p, ln_room = cb_room p, ln_diffMsg = cb_msg p,
               ln_user = sn_user x, ln_diff = cb_diff p, ln_userEntry = ue, ln_houseEntry = he \<rparr>"
    and s': "s' = s\<lparr>gw := w4, roundLinks := roundLinks s @ [row]\<rparr>"
    using run new by (auto simp: runSettlement_def g w3_def [symmetric] Let_def andThen_Inr_iff insertLink_def split: if_splits)
  have fresh: "\<not> used (?k @ '':user'') w3" "\<not> used (?k @ '':house'') w3"
    using rowsInv_fresh(1) [OF inv new] used_cong [OF o3(3)] by simp_all
  note l = settleLegs_ok [OF legs fresh]
  obtain e e' where e: "coinLedger w4 = coinLedger (gw s) @ [e, e']" "idempotencyKey e = ?k @ '':user''" "idempotencyKey e' = ?k @ '':house''"
    "ue = entry_id e" "he = entry_id e'" using l(3) by (auto simp: o3(3))
  have m: "moved (gw s) w4 (settleMove (cb_msg p) (sn_user x) h (cb_diff p))" by (rule still_moved [OF o3(1) l(1)])
  show "moved (gw s) (gw s') (settleMove (cb_msg p) (sn_user x) h (cb_diff p))" using m by (simp add: s')
  show "roundLinks s' = roundLinks s @ [row]" "ln_diffMsg row = cb_msg p" "ln_user row = sn_user x" "ln_diff row = cb_diff p"
    "ln_provider row = sn_provider x" "ln_order row = cb_order p" "s' = s\<lparr>gw := gw s', roundLinks := roundLinks s'\<rparr>"
    by (simp_all add: s' row)
  show "coinFrame (gw s) (gw s')" using coinFrame_trans [OF o3(2) l(2)] by (simp add: s')
  have ids: "ledgerIds s' = ledgerIds s \<union> {entry_id e, entry_id e'}" by (auto simp: ledgerIds_def s' e(1))
  have u: "used k w4 \<longleftrightarrow> used k (gw s) \<or> k = ?k @ '':user'' \<or> k = ?k @ '':house''" for k
    using used_append [OF e(1)] e(2,3) by simp
  have fl: "findLink q y s' \<noteq> None \<longleftrightarrow> findLink q y s \<noteq> None \<or> q = sn_provider x \<and> y = cb_order p" for q y
    by (auto simp: findLink_def find_append s' row split: option.splits)
  have fc: "findConversion k s' = findConversion k s" for k by (simp add: findConversion_def s')
  have nk: "take 8 k = ''diamond-'' \<Longrightarrow> k @ y \<noteq> ?k @ z" for k y z using keys_apart by metis
  show "rowsInv s'"
    using inv moved_wf [OF m wf] e(4,5) unfolding rowsInv_def fc fl ids
    by (simp add: s' u nk row)
qed

section \<open>Balances follow the rows\<close>

definition dues :: "uid \<Rightarrow> conversion_row list \<Rightarrow> round_link list \<Rightarrow> uid \<times> WalletCurrencyType \<Rightarrow> int" where
  "dues h cs ls x = (\<Sum>r\<leftarrow>cs. conversionMove (cv_direction r) (cv_user r) (cv_coinAmount r) x)
     + (\<Sum>l\<leftarrow>ls. settleMove (ln_diffMsg l) (ln_user l) h (ln_diff l) x)"

definition follows :: "uid \<Rightarrow> games \<Rightarrow> games \<Rightarrow> bool" where
  "follows h s s' \<longleftrightarrow> gameHouse s' = gameHouse s
     \<and> (\<exists>cs ls. conversions s' = conversions s @ cs \<and> roundLinks s' = roundLinks s @ ls \<and> moved (gw s) (gw s') (dues h cs ls))"

lemma dues_simps [simp]:
  "dues h [] [] = still" "dues h [r] [] = conversionMove (cv_direction r) (cv_user r) (cv_coinAmount r)"
  "dues h [] [l] = settleMove (ln_diffMsg l) (ln_user l) h (ln_diff l)"
  by (auto simp: dues_def)

lemma follows_still:
  "gameHouse s' = gameHouse s \<Longrightarrow> conversions s' = conversions s \<Longrightarrow> roundLinks s' = roundLinks s \<Longrightarrow> moved (gw s) (gw s') still \<Longrightarrow> follows h s s'"
  unfolding follows_def by (intro conjI exI [of _ "[]"]) simp_all

lemma follows_refl [simp]: "follows h s s"
  by (rule follows_still) simp_all

lemma follows_trans:
  assumes "follows h a b" "follows h b c"
  shows "follows h a c"
proof -
  obtain cs ls where ab: "gameHouse b = gameHouse a" "conversions b = conversions a @ cs" "roundLinks b = roundLinks a @ ls"
    "moved (gw a) (gw b) (dues h cs ls)" using assms(1) by (auto simp: follows_def)
  obtain cs' ls' where bc: "gameHouse c = gameHouse b" "conversions c = conversions b @ cs'" "roundLinks c = roundLinks b @ ls'"
    "moved (gw b) (gw c) (dues h cs' ls')" using assms(2) by (auto simp: follows_def)
  have "(\<lambda>x. dues h cs ls x + dues h cs' ls' x) = dues h (cs @ cs') (ls @ ls')" by (auto simp: dues_def)
  then have "moved (gw a) (gw c) (dues h (cs @ cs') (ls @ ls'))" using moved_trans [OF ab(4) bc(4)] by simp
  then show ?thesis unfolding follows_def by (intro conjI exI [of _ "cs @ cs'"] exI [of _ "ls @ ls'"]) (simp_all add: ab bc)
qed

lemma bust_simps [simp]:
  "gw (bustBalanceCache u s) = gw s" "conversions (bustBalanceCache u s) = conversions s" "roundLinks (bustBalanceCache u s) = roundLinks s"
  "gameHouse (bustBalanceCache u s) = gameHouse s" "gameSessions (bustBalanceCache u s) = gameSessions s" "userCheck (bustBalanceCache u s) = userCheck s"
  by (simp_all add: bustBalanceCache_def)

lemma bust_cache: "redisUp (gw s) \<Longrightarrow> diamondCache (bustBalanceCache u s) = (diamondCache s)(u := None)"
  by (simp add: bustBalanceCache_def)

lemma adjust_simps [simp]:
  "redisUp (adjustCoinBalanceCache u d None w) = redisUp w" "coinLedger (adjustCoinBalanceCache u d None w) = coinLedger w"
  "clock (adjustCoinBalanceCache u d None w) = clock w" "users (adjustCoinBalanceCache u d None w) = users w"
  by (simp_all add: adjustCoinBalanceCache_def)

lemma conversionMove_other: "v \<noteq> u \<Longrightarrow> conversionMove dir u a (v, DIAMOND) = 0"
  by (cases dir) (simp_all add: conversionMove_def moving_def)

lemma settleMove_other: "v \<noteq> u \<Longrightarrow> v \<noteq> h \<Longrightarrow> settleMove m u h d (v, c) = 0"
  by (simp add: settleMove_def moving_def)

text \<open>The two operations differ in the order of the two cache deletions only.\<close>

definition converted :: "DiamondConversionDirection \<Rightarrow> uid \<Rightarrow> int \<Rightarrow> string \<Rightarrow> games \<Rightarrow> conversion_row \<Rightarrow> games \<Rightarrow> bool" where
  "converted dir u amt key s row s' \<longleftrightarrow>
     (findConversion key s = Some row \<and> moved (gw s) (gw s') still \<and> conversions s' = conversions s
      \<or> findConversion key s = None \<and> moved (gw s) (gw s') (conversionMove dir u amt) \<and> conversions s' = conversions s @ [row]
        \<and> cv_direction row = dir \<and> cv_user row = u \<and> cv_coinAmount row = amt \<and> cv_diamondAmount row = amt \<and> cv_key row = key)
     \<and> roundLinks s' = roundLinks s \<and> gameHouse s' = gameHouse s"

lemma converted_follows: "converted dir u amt key s row s' \<Longrightarrow> follows h s s'"
  unfolding converted_def
proof (elim conjE disjE, goal_cases)
  case 1
  then show ?case by (intro follows_still)
next
  case 2
  then show ?case unfolding follows_def by (intro conjI exI [of _ "[row]"] exI [of _ "[]"]) simp_all
qed

lemma conversion_ok:
  assumes inv: "gameInv s" and key: "take 8 key = ''diamond-''" and run: "convertOnce dir u amt key s = Inr (row, s1)"
    and s': "gw s' = adjustCoinBalanceCache u 0 None (gw s1)" "conversions s' = conversions s1" "roundLinks s' = roundLinks s1"
      "gameHouse s' = gameHouse s1" "redisUp (gw s1) \<Longrightarrow> diamondCache s' = (diamondCache s1)(u := None)"
  shows "gameInv s'" "converted dir u amt key s row s'"
proof -
  have r: "rowsInv s" and c: "cacheOk s" and wf: "Ledger.wf (gw s)" using inv by (simp_all add: gameInv_def rowsInv_def)
  have adj: "moved (gw s1) (gw s') still" unfolding s'(1) by (rule adjustCoinBalanceCache_frame)
  have "gameInv s' \<and> converted dir u amt key s row s'"
  proof (cases "findConversion key s")
    case (Some x)
    then have e: "x = row" "s1 = s" using run by (simp_all add: convertOnce_def runConversion_def)
    have "cacheOk s'" using c moved_bal [OF adj] wf s'(1,5) e by (auto simp: cacheOk_def split: if_splits)
    moreover have "rowsInv s'" using rowsInv_still [OF r, of s'] adj s'(1-3) e by simp
    ultimately show ?thesis using adj s'(2-4) e Some by (simp add: gameInv_def converted_def)
  next
    case None
    then have run': "runConversion dir u amt key s = Inr (row, s1)"
      using run by (auto simp: convertOnce_def split: sum.splits if_splits)
    note n = runConversion_new [OF r None key run']
    have m: "moved (gw s) (gw s') (conversionMove dir u amt)" by (rule moved_still [OF n(2) adj])
    have up: "redisUp (gw s1) = redisUp (gw s)" by (rule coinFrame_keeps(4) [OF n(10)])
    have dc: "diamondCache s1 = diamondCache s" "gameHouse s1 = gameHouse s" "roundLinks s1 = roundLinks s"
      using arg_cong [OF n(9), of diamondCache] arg_cong [OF n(9), of gameHouse] arg_cong [OF n(9), of roundLinks] by simp_all
    have "cacheOk s'" unfolding cacheOk_def
      using c s'(1,5) up dc(1) moved_bal [OF m wf] conversionMove_other [of _ u] by (auto simp: cacheOk_def)
    moreover have "rowsInv s'" using rowsInv_still [OF n(1) adj] s'(1-3) by simp
    ultimately show ?thesis using m n(3-8) s'(2-4) dc None by (simp add: gameInv_def converted_def)
  qed
  then show "gameInv s'" "converted dir u amt key s row s'" by simp_all
qed

lemma buyDiamonds_ok:
  assumes "gameInv s" "buyDiamonds u a k s = Inr (row, s')"
  shows "gameInv s'" "converted BUY u a (conversionKey BUY u k) s row s'" "0 < a"
proof -
  obtain s1 where run: "convertOnce BUY u a (conversionKey BUY u k) s = Inr (row, s1)" "0 < a"
    and s': "s' = bustBalanceCache u (s1\<lparr>gw := adjustCoinBalanceCache u 0 None (gw s1)\<rparr>)"
    using assms(2) by (auto simp: buyDiamonds_def andThen_Inr_iff split: if_splits)
  show "gameInv s'" "converted BUY u a (conversionKey BUY u k) s row s'"
    by (rule conversion_ok [OF assms(1) key_heads(1) run(1)]; simp add: s' bust_cache)+
  show "0 < a" by (fact run)
qed

lemma redeemDiamonds_ok:
  assumes "gameInv s" "redeemDiamonds u a k s = Inr (row, s')"
  shows "gameInv s'" "converted REDEEM u a (conversionKey REDEEM u k) s row s'" "0 < a"
proof -
  obtain s1 where run: "convertOnce REDEEM u a (conversionKey REDEEM u k) s = Inr (row, s1)" "0 < a"
    and s': "s' = (bustBalanceCache u s1)\<lparr>gw := adjustCoinBalanceCache u 0 None (gw s1)\<rparr>"
    using assms(2) by (auto simp: redeemDiamonds_def andThen_Inr_iff Let_def split: if_splits)
  show "gameInv s'" "converted REDEEM u a (conversionKey REDEEM u k) s row s'"
    by (rule conversion_ok [OF assms(1) key_heads(1) run(1)]; simp add: s' bust_cache)+
  show "0 < a" by (fact run)
qed

section \<open>When a settlement goes through\<close>

definition noUser :: error where
  "noUser = AppError 404 ''USER_NOT_FOUND'' []"

lemma diamondDebit_cases:
  assumes wf: "Ledger.wf w" and a: "0 < a" and fresh: "\<not> used key w"
  shows "users w u = None \<Longrightarrow> diamondDebit u a tt key d w = Inl noUser"
    "users w u \<noteq> None \<Longrightarrow> balanceOf w (u, DIAMOND) < a \<Longrightarrow> diamondDebit u a tt key d w = Inl (insufficientCoins a (balanceOf w (u, DIAMOND)))"
    "users w u \<noteq> None \<Longrightarrow> a \<le> balanceOf w (u, DIAMOND) \<Longrightarrow> \<exists>r w'. diamondDebit u a tt key d w = Inr (r, w')"
proof -
  obtain wl w1 where g: "getOrCreate u DIAMOND w = (wl, w1)" by fastforce
  have f: "findByIdempotencyKey (coinLedger w) key = None" using fresh by (simp add: used_def)
  have us: "users (snd (lockForUpdate i w1)) = users w" for i using getOrCreate_keeps(3) [OF g] by (simp add: lockForUpdate_def)
  have fz: "assertCoinDebitAllowed u DIAMOND v = (if users v u = None then Inl noUser else Inr ())" for v
    by (simp add: assertCoinDebitAllowed_def getUserWalletFreezeFlags_def throwIfCoinFrozen_def noUser_def split: option.split)
  show "users w u = None \<Longrightarrow> diamondDebit u a tt key d w = Inl noUser"
    using a f g fz us by (simp add: diamondDebit_def debit_def legOptions_def Let_def)
  show "users w u \<noteq> None \<Longrightarrow> balanceOf w (u, DIAMOND) < a \<Longrightarrow> diamondDebit u a tt key d w = Inl (insufficientCoins a (balanceOf w (u, DIAMOND)))"
    using a f g fz us by (auto simp: diamondDebit_def debit_def legOptions_def Let_def locked_coin_balance [OF wf g])
  show "users w u \<noteq> None \<Longrightarrow> a \<le> balanceOf w (u, DIAMOND) \<Longrightarrow> \<exists>r w'. diamondDebit u a tt key d w = Inr (r, w')"
    unfolding diamondDebit_def using debit_total [OF wf, of "legOptions key d DIAMOND" DIAMOND a u tt] a f fz [of w] by simp
qed

text \<open>Who pays a settlement, and what is there to pay with: a win of the house itself comes first.\<close>

definition payer :: "BaishunDiffMsg \<Rightarrow> uid \<Rightarrow> uid \<Rightarrow> uid" where
  "payer m u h = (if m = Bet then u else h)"

definition payable :: "BaishunDiffMsg \<Rightarrow> uid \<Rightarrow> uid \<Rightarrow> int \<Rightarrow> world \<Rightarrow> int" where
  "payable m u h diff w = balanceOf w (payer m u h, DIAMOND) + (if m \<noteq> Bet \<and> u = h then \<bar>diff\<bar> else 0)"

lemma settleLegs_cases:
  assumes wf: "Ledger.wf w" and d: "diff \<noteq> 0" and fresh: "\<not> used (key @ '':user'') w" "\<not> used (key @ '':house'') w"
  shows "users w (payer m u h) = None \<Longrightarrow> settleLegs u h (resolveSettlement m diff) key descr w = Inl noUser"
    "users w (payer m u h) \<noteq> None \<Longrightarrow> payable m u h diff w < \<bar>diff\<bar>
      \<Longrightarrow> settleLegs u h (resolveSettlement m diff) key descr w = Inl (insufficientCoins \<bar>diff\<bar> (payable m u h diff w))"
    "users w (payer m u h) \<noteq> None \<Longrightarrow> \<bar>diff\<bar> \<le> payable m u h diff w \<Longrightarrow> \<exists>r. settleLegs u h (resolveSettlement m diff) key descr w = Inr r"
proof -
  have a: "0 < \<bar>diff\<bar>" using d by simp
  have "(users w (payer m u h) = None \<longrightarrow> settleLegs u h (resolveSettlement m diff) key descr w = Inl noUser)
    \<and> (users w (payer m u h) \<noteq> None \<longrightarrow> payable m u h diff w < \<bar>diff\<bar>
        \<longrightarrow> settleLegs u h (resolveSettlement m diff) key descr w = Inl (insufficientCoins \<bar>diff\<bar> (payable m u h diff w)))
    \<and> (users w (payer m u h) \<noteq> None \<longrightarrow> \<bar>diff\<bar> \<le> payable m u h diff w
        \<longrightarrow> (\<exists>r. settleLegs u h (resolveSettlement m diff) key descr w = Inr r))"
  proof (cases "m = Bet")
    case True
    have give: "\<exists>r' w2. diamondCredit h \<bar>diff\<bar> tt (key @ '':house'') descr w1 = Inr (r', w2)"
      if r: "diamondDebit u \<bar>diff\<bar> C_GAME_WAGER_OUT (key @ '':user'') descr w = Inr (r, w1)" for tt r w1
    proof -
      obtain e where "coinLedger w1 = coinLedger w @ [e]" "idempotencyKey e = key @ '':user''"
        using coins.take_posts [OF r [unfolded diamondDebit_def]] fresh by (auto simp: used_def)
      then have "findByIdempotencyKey (coinLedger w1) (key @ '':house'') = None"
        using fresh(2) by (simp add: used_def findByIdempotencyKey_def find_append)
      then show ?thesis unfolding diamondCredit_def using credit_total [OF a] by simp
    qed
    have l: "settleLegs u h (resolveSettlement m diff) key descr w =
       andThen (diamondDebit u \<bar>diff\<bar> C_GAME_WAGER_OUT (key @ '':user'') descr w) (\<lambda>(r, w1).
       andThen (diamondCredit h \<bar>diff\<bar> C_GAME_WAGER_IN (key @ '':house'') descr w1) (\<lambda>(r', w2). Inr ((ledgerEntryId r, ledgerEntryId r'), w2)))"
      using True by (simp add: settleLegs_def)
    have p: "payer m u h = u" "payable m u h diff w = balanceOf w (u, DIAMOND)" using True by (simp_all add: payer_def payable_def)
    note c = diamondDebit_cases [OF wf a fresh(1), of u C_GAME_WAGER_OUT descr]
    have "\<exists>r. settleLegs u h (resolveSettlement m diff) key descr w = Inr r" if pay: "users w u \<noteq> None" "\<bar>diff\<bar> \<le> balanceOf w (u, DIAMOND)"
    proof -
      obtain r w1 where r: "diamondDebit u \<bar>diff\<bar> C_GAME_WAGER_OUT (key @ '':user'') descr w = Inr (r, w1)" using c(3) [OF pay] by blast
      with give [OF r, of C_GAME_WAGER_IN] show ?thesis by (auto simp: l)
    qed
    then show ?thesis unfolding p using c(1,2) by (simp add: l)
  next
    case False
    define tt where "tt = st_userTxType (resolveSettlement m diff)"
    define tt' where "tt' = st_houseTxType (resolveSettlement m diff)"
    have l: "settleLegs u h (resolveSettlement m diff) key descr w =
       andThen (diamondCredit u \<bar>diff\<bar> tt (key @ '':user'') descr w) (\<lambda>(r, w1).
       andThen (diamondDebit h \<bar>diff\<bar> tt' (key @ '':house'') descr w1) (\<lambda>(r', w2). Inr ((ledgerEntryId r, ledgerEntryId r'), w2)))"
      using False by (cases m) (simp_all add: settleLegs_def tt_def tt'_def)
    obtain r w1 where r: "diamondCredit u \<bar>diff\<bar> tt (key @ '':user'') descr w = Inr (r, w1)"
      unfolding diamondCredit_def using credit_total [OF a, of w "legOptions (key @ '':user'') descr DIAMOND" u tt] fresh(1)
      by (fastforce simp: used_def)
    obtain e where e: "coinLedger w1 = coinLedger w @ [e]" "idempotencyKey e = key @ '':user''" and m1: "moved w w1 (moving (u, DIAMOND) \<bar>diff\<bar>)"
      using coins.give_posts [OF r [unfolded diamondCredit_def]] fresh by (auto simp: used_def)
    have f: "\<not> used (key @ '':house'') w1" using fresh(2) e by (simp add: used_def findByIdempotencyKey_def find_append)
    have us: "users w1 = users w" using coinFrame_keeps(1) [OF coins.give_frame [OF r [unfolded diamondCredit_def]]] .
    have b: "balanceOf w1 (h, DIAMOND) = payable m u h diff w"
      using moved_bal [OF m1 wf, of "(h, DIAMOND)"] False by (auto simp: payable_def payer_def moving_def)
    have p: "payer m u h = h" using False by (simp add: payer_def)
    note c = diamondDebit_cases [OF moved_wf [OF m1 wf] a f, of h tt' descr, unfolded us b]
    have "\<exists>x. settleLegs u h (resolveSettlement m diff) key descr w = Inr x" if "users w h \<noteq> None" "\<bar>diff\<bar> \<le> payable m u h diff w"
      using c(3) [OF that] by (auto simp: l r)
    then show ?thesis unfolding p using c(1,2) by (simp add: l r)
  qed
  then show "users w (payer m u h) = None \<Longrightarrow> settleLegs u h (resolveSettlement m diff) key descr w = Inl noUser"
    "users w (payer m u h) \<noteq> None \<Longrightarrow> payable m u h diff w < \<bar>diff\<bar>
      \<Longrightarrow> settleLegs u h (resolveSettlement m diff) key descr w = Inl (insufficientCoins \<bar>diff\<bar> (payable m u h diff w))"
    "users w (payer m u h) \<noteq> None \<Longrightarrow> \<bar>diff\<bar> \<le> payable m u h diff w \<Longrightarrow> \<exists>r. settleLegs u h (resolveSettlement m diff) key descr w = Inr r"
    by blast+
qed

lemma runSettlement_cases:
  fixes h :: uid
  assumes inv: "rowsInv s" and new: "findLink (sn_provider x) (cb_order p) s = None" and d: "cb_diff p \<noteq> 0"
  defines "py \<equiv> payer (cb_msg p) (sn_user x) h" and "av \<equiv> payable (cb_msg p) (sn_user x) h (cb_diff p) (gw s)"
  shows "users (gw s) py = None \<Longrightarrow> runSettlement x h p s = Inl noUser"
    "users (gw s) py \<noteq> None \<Longrightarrow> av < \<bar>cb_diff p\<bar> \<Longrightarrow> runSettlement x h p s = Inl (insufficientCoins \<bar>cb_diff p\<bar> av)"
    "users (gw s) py \<noteq> None \<Longrightarrow> \<bar>cb_diff p\<bar> \<le> av \<Longrightarrow> \<exists>r. runSettlement x h p s = Inr r"
proof -
  let ?k = "linkKey (sn_provider x) (cb_order p)" and ?st = "resolveSettlement (cb_msg p) (cb_diff p)"
  obtain uw w1 hw w2 where g: "getOrCreate (sn_user x) DIAMOND (gw s) = (uw, w1)" "getOrCreate h DIAMOND w1 = (hw, w2)" by fastforce
  define w3 where "w3 = lockWalletsInOrder [wallet_id uw, wallet_id hw] w2"
  note o3 = open_two [OF g, of "[wallet_id uw, wallet_id hw]", folded w3_def]
  have wf: "Ledger.wf (gw s)" using inv by (simp add: rowsInv_def)
  have wf3: "Ledger.wf w3" by (rule moved_wf [OF o3(1) wf])
  have us: "users w3 = users (gw s)" by (rule coinFrame_keeps(1) [OF o3(2)])
  have av: "payable (cb_msg p) (sn_user x) h (cb_diff p) w3 = av" using moved_bal [OF o3(1) wf] by (simp add: payable_def av_def)
  have fresh: "\<not> used (?k @ '':user'') w3" "\<not> used (?k @ '':house'') w3"
    using rowsInv_fresh(1) [OF inv new] used_cong [OF o3(3)] by simp_all
  define descr where "descr = ''Game '' @ diffName (cb_msg p) @ '' (order '' @ cb_order p @ '')''"
  note c = settleLegs_cases [OF wf3 d fresh, of "cb_msg p" "sn_user x" h descr, unfolded us av py_def [symmetric]]
  have run: "runSettlement x h p s = andThen (settleLegs (sn_user x) h ?st ?k descr w3) (\<lambda>((ue, he), w4).
     insertLink \<lparr> ln_provider = sn_provider x, ln_order = cb_order p, ln_gameId = cb_gameId p, ln_room = cb_room p, ln_diffMsg = cb_msg p,
               ln_user = sn_user x, ln_diff = cb_diff p, ln_userEntry = ue, ln_houseEntry = he \<rparr> (s\<lparr>gw := w4\<rparr>))"
    by (simp add: runSettlement_def new g w3_def [symmetric] Let_def descr_def)
  show "users (gw s) py = None \<Longrightarrow> runSettlement x h p s = Inl noUser" using c(1) by (simp add: run)
  show "users (gw s) py \<noteq> None \<Longrightarrow> av < \<bar>cb_diff p\<bar> \<Longrightarrow> runSettlement x h p s = Inl (insufficientCoins \<bar>cb_diff p\<bar> av)"
    using c(2) by (simp add: run)
  assume "users (gw s) py \<noteq> None" "\<bar>cb_diff p\<bar> \<le> av"
  then obtain ue he w4 where legs: "settleLegs (sn_user x) h ?st ?k descr w3 = Inr ((ue, he), w4)" using c(3) by (metis prod.exhaust)
  note l = settleLegs_ok [OF legs fresh]
  obtain e e' where e: "coinLedger w4 = coinLedger (gw s) @ [e, e']" "ue = entry_id e" "he = entry_id e'" using l(3) by (auto simp: o3(3))
  have ids: "ue \<notin> ledgerIds s" "he \<notin> ledgerIds s"
    using new_ids [OF moved_wf [OF still_moved [OF o3(1) l(1)] wf] e(1)] e(2,3) by (simp_all add: ledgerIds_def)
  have "\<forall>y\<in>set (roundLinks s). \<not> (ln_provider y = sn_provider x \<and> ln_order y = cb_order p) \<and> ln_userEntry y \<noteq> ue \<and> ln_houseEntry y \<noteq> he"
    using inv new ids by (auto simp: rowsInv_def findLink_def find_None_set)
  then show "\<exists>r. runSettlement x h p s = Inr r" by (auto simp: run legs insertLink_def list_ex_iff)
qed

lemma runSettlement_no_race:
  assumes "rowsInv s" "findLink (sn_provider x) (cb_order p) s = None" "cb_diff p \<noteq> 0"
  shows "runSettlement x h p s \<noteq> Inl UniqueViolation"
  using runSettlement_cases [OF assms, of h] by (cases "users (gw s) (payer (cb_msg p) (sn_user x) h) = None";
      cases "payable (cb_msg p) (sn_user x) h (cb_diff p) (gw s) < \<bar>cb_diff p\<bar>") (auto simp: noUser_def insufficientCoins_def)

lemma changeBalance_cases:
  assumes "changeBalance p s = Inr (b, s')"
  shows "\<exists>x h. cb_diff p \<noteq> 0 \<and> requireActiveSession (cb_ssToken p) s = Inr x \<and> gameHouse s = Some h
    \<and> (findLink (sn_provider x) (cb_order p) s \<noteq> None \<and> getBalance (sn_user x) s = (b, s')
       \<or> findLink (sn_provider x) (cb_order p) s = None \<and> (\<exists>s1. settleOnce x h p s = Inr ((), s1)
            \<and> getBalance (sn_user x) (bustBalanceCache h (bustBalanceCache (sn_user x) s1)) = (b, s')))"
  using assms unfolding changeBalance_def requireGameHouseUserId_def
  by (auto simp: andThen_Inr_iff split: if_splits option.splits)

definition settled :: "change_params \<Rightarrow> game_session \<Rightarrow> uid \<Rightarrow> games \<Rightarrow> games \<Rightarrow> bool" where
  "settled p x h s s' \<longleftrightarrow>
     (if findLink (sn_provider x) (cb_order p) s \<noteq> None then moved (gw s) (gw s') still \<and> roundLinks s' = roundLinks s
      else moved (gw s) (gw s') (settleMove (cb_msg p) (sn_user x) h (cb_diff p))
        \<and> (\<exists>row. roundLinks s' = roundLinks s @ [row] \<and> ln_diffMsg row = cb_msg p \<and> ln_user row = sn_user x \<and> ln_diff row = cb_diff p
             \<and> ln_provider row = sn_provider x \<and> ln_order row = cb_order p))
     \<and> conversions s' = conversions s \<and> gameHouse s' = gameHouse s \<and> gameSessions s' = gameSessions s
     \<and> userCheck s' = userCheck s \<and> clock (gw s') = clock (gw s)"

lemma settled_follows: "settled p x h s s' \<Longrightarrow> follows h s s'"
proof (cases "findLink (sn_provider x) (cb_order p) s")
  case None
  assume "settled p x h s s'"
  with None obtain row where r: "moved (gw s) (gw s') (settleMove (cb_msg p) (sn_user x) h (cb_diff p))" "roundLinks s' = roundLinks s @ [row]"
    "ln_diffMsg row = cb_msg p" "ln_user row = sn_user x" "ln_diff row = cb_diff p" "conversions s' = conversions s" "gameHouse s' = gameHouse s"
    unfolding settled_def by auto
  then show ?thesis unfolding follows_def by (intro conjI exI [of _ "[]"] exI [of _ "[row]"]) simp_all
qed (auto simp: settled_def intro: follows_still)

lemma changeBalance_ok:
  assumes inv: "gameInv s" and run: "changeBalance p s = Inr (b, s')"
  shows "\<exists>x h. requireActiveSession (cb_ssToken p) s = Inr x \<and> gameHouse s = Some h \<and> settled p x h s s' \<and> gameInv s'
    \<and> b = balanceOf (gw s') (sn_user x, DIAMOND)"
proof -
  obtain x h where x: "cb_diff p \<noteq> 0" "requireActiveSession (cb_ssToken p) s = Inr x" "gameHouse s = Some h"
    and c: "findLink (sn_provider x) (cb_order p) s \<noteq> None \<and> getBalance (sn_user x) s = (b, s')
       \<or> findLink (sn_provider x) (cb_order p) s = None \<and> (\<exists>s1. settleOnce x h p s = Inr ((), s1)
            \<and> getBalance (sn_user x) (bustBalanceCache h (bustBalanceCache (sn_user x) s1)) = (b, s'))"
    using changeBalance_cases [OF run] by blast
  have r: "rowsInv s" and ca: "cacheOk s" and wf: "Ledger.wf (gw s)" using inv by (simp_all add: gameInv_def rowsInv_def)
  have "settled p x h s s' \<and> gameInv s' \<and> b = balanceOf (gw s') (sn_user x, DIAMOND)"
  proof (cases "findLink (sn_provider x) (cb_order p) s")
    case (Some l)
    then have g: "getBalance (sn_user x) s = (b, s')" using c by simp
    note k = getBalance_ok [OF inv g]
    have "conversions s' = conversions s" "roundLinks s' = roundLinks s" "gameHouse s' = gameHouse s" "gameSessions s' = gameSessions s"
      "userCheck s' = userCheck s"
      using arg_cong [OF k(4), of conversions] arg_cong [OF k(4), of roundLinks] arg_cong [OF k(4), of gameHouse]
        arg_cong [OF k(4), of gameSessions] arg_cong [OF k(4), of userCheck] by simp_all
    then show ?thesis using k(1-3,7) Some moved_bal [OF k(3) wf] by (simp add: settled_def)
  next
    case None
    then obtain s1 where s1: "settleOnce x h p s = Inr ((), s1)"
      and g: "getBalance (sn_user x) (bustBalanceCache h (bustBalanceCache (sn_user x) s1)) = (b, s')" using c by auto
    obtain row where run1: "runSettlement x h p s = Inr (row, s1)"
      using s1 runSettlement_no_race [OF r None x(1), of h] by (auto simp: settleOnce_def split: sum.splits if_splits)
    note n = runSettlement_new [OF r None run1]
    define s2 where "s2 = bustBalanceCache h (bustBalanceCache (sn_user x) s1)"
    have s2: "gw s2 = gw s1" "conversions s2 = conversions s1" "roundLinks s2 = roundLinks s1" "gameHouse s2 = gameHouse s1"
      "gameSessions s2 = gameSessions s1" "userCheck s2 = userCheck s1" by (simp_all add: s2_def)
    have same: "diamondCache s1 = diamondCache s" "conversions s1 = conversions s" "gameHouse s1 = gameHouse s" "gameSessions s1 = gameSessions s"
      "userCheck s1 = userCheck s"
      using arg_cong [OF n(9), of diamondCache] arg_cong [OF n(9), of conversions] arg_cong [OF n(9), of gameHouse]
        arg_cong [OF n(9), of gameSessions] arg_cong [OF n(9), of userCheck] by simp_all
    have up: "redisUp (gw s1) = redisUp (gw s)" by (rule coinFrame_keeps(4) [OF n(10)])
    have dc: "redisUp (gw s) \<Longrightarrow> diamondCache s2 = (diamondCache s)(sn_user x := None, h := None)"
      by (simp add: s2_def bust_cache up same)
    have "cacheOk s2" unfolding cacheOk_def s2(1)
      using ca dc up moved_bal [OF n(2) wf] settleMove_other [of _ "sn_user x" h] by (auto simp: cacheOk_def split: if_splits)
    moreover have "rowsInv s2" using rowsInv_still [OF n(1), of s2] s2 by simp
    ultimately have i2: "gameInv s2" by (simp add: gameInv_def)
    note k = getBalance_ok [OF i2 g [folded s2_def]]
    have e: "conversions s' = conversions s2" "roundLinks s' = roundLinks s2" "gameHouse s' = gameHouse s2" "gameSessions s' = gameSessions s2"
      "userCheck s' = userCheck s2"
      using arg_cong [OF k(4), of conversions] arg_cong [OF k(4), of roundLinks] arg_cong [OF k(4), of gameHouse]
        arg_cong [OF k(4), of gameSessions] arg_cong [OF k(4), of userCheck] by simp_all
    have cl: "clock (gw s') = clock (gw s)" using k(7) coinFrame_keeps(3) [OF n(10)] by (simp add: s2(1))
    have m: "moved (gw s) (gw s') (settleMove (cb_msg p) (sn_user x) h (cb_diff p))"
      using moved_still [OF n(2), of "gw s'"] k(3) by (simp add: s2(1))
    have wf2: "Ledger.wf (gw s2)" using i2 by (simp add: gameInv_def rowsInv_def)
    have b: "b = balanceOf (gw s') (sn_user x, DIAMOND)" using k(1) moved_bal [OF k(3) wf2] by simp
    show ?thesis using m b k(2) None n(3-8) e s2 same cl by (simp add: settled_def)
  qed
  then show ?thesis using x by blast
qed

lemma changeBalance_total:
  assumes inv: "rowsInv s" and x: "requireActiveSession (cb_ssToken p) s = Inr x" "checkSessionUser (userCheck s) (sn_user x) (cb_user p) = Inr ()"
    and h: "gameHouse s = Some h" and d: "cb_diff p \<noteq> 0" and new: "findLink (sn_provider x) (cb_order p) s = None"
    and pay: "users (gw s) (payer (cb_msg p) (sn_user x) h) \<noteq> None" "\<bar>cb_diff p\<bar> \<le> payable (cb_msg p) (sn_user x) h (cb_diff p) (gw s)"
  shows "\<exists>b s'. changeBalance p s = Inr (b, s')"
proof -
  obtain y where "runSettlement x h p s = Inr y" using runSettlement_cases(3) [OF inv new d pay] by blast
  then obtain s1 where s1: "settleOnce x h p s = Inr ((), s1)" by (cases y) (simp add: settleOnce_def)
  show ?thesis using x h d new s1
    by (cases "getBalance (sn_user x) (bustBalanceCache h (bustBalanceCache (sn_user x) s1))")
       (simp add: changeBalance_def requireGameHouseUserId_def)
qed

section \<open>Runs\<close>

inductive game_step :: "games \<Rightarrow> games \<Rightarrow> bool" where
  buy: "buyDiamonds u a k s = Inr (row, s') \<Longrightarrow> game_step s s'"
| redeem: "redeemDiamonds u a k s = Inr (row, s') \<Longrightarrow> game_step s s'"
| launch: "launchGame code u g room s = Inr (c, s') \<Longrightarrow> game_step s s'"
| token: "getSsToken tok u code s = (res, s') \<Longrightarrow> game_step s s'"
| info: "getUserInfo tok claimed s = (res2, s') \<Longrightarrow> game_step s s'"
| renew: "updateSsToken tok' tok claimed s = Inr (r, s') \<Longrightarrow> game_step s s'"
| change: "changeBalance p s = Inr (b, s') \<Longrightarrow> game_step s s'"
| tick: "clock (gw s) \<le> t \<Longrightarrow> game_step s (s\<lparr>gw := (gw s)\<lparr>clock := t\<rparr>\<rparr>)"

definition kept :: "uid \<Rightarrow> games \<Rightarrow> games \<Rightarrow> bool" where
  "kept h s s' \<longleftrightarrow> (gameInv s \<longrightarrow> gameInv s' \<and> follows h s s')"

lemma kept_trans: "kept h a b \<Longrightarrow> kept h b c \<Longrightarrow> kept h a c"
  using follows_trans by (auto simp: kept_def)

lemma kept_refl [simp]: "kept h s s"
  by (simp add: kept_def)

lemma kept_frame:
  assumes "moved (gw s) (gw s') still" "coinLedger (gw s') = coinLedger (gw s)" "redisUp (gw s') = redisUp (gw s)"
    "conversions s' = conversions s" "roundLinks s' = roundLinks s" "gameHouse s' = gameHouse s" "diamondCache s' = diamondCache s"
  shows "kept h s s'"
proof -
  have "gameInv s'" if "gameInv s"
    using that rowsInv_still [OF _ assms(1,2,4,5)] assms(3,7) moved_bal [OF assms(1)] by (auto simp: gameInv_def cacheOk_def rowsInv_def)
  then show ?thesis using follows_still [OF assms(6,4,5,1)] by (simp add: kept_def)
qed

lemma kept_getBalance: "getBalance u s = (b, s') \<Longrightarrow> kept h s s'"
  unfolding kept_def
proof (intro impI conjI)
  assume g: "getBalance u s = (b, s')" and inv: "gameInv s"
  note k = getBalance_ok [OF inv g]
  show "gameInv s'" by (fact k(2))
  show "follows h s s'" using k(3) arg_cong [OF k(4), of conversions] arg_cong [OF k(4), of roundLinks] arg_cong [OF k(4), of gameHouse]
    by (intro follows_still) simp_all
qed

lemma kept_sessions: "kept h s (s\<lparr>gameSessions := xs\<rparr>)" "kept h s (updateSessions P f s)"
  by (rule kept_frame; simp add: updateSessions_def)+

lemma kept_setToken: "setToken i tok s = Inr (t, s') \<Longrightarrow> kept h s s'"
  using kept_sessions(2) by (auto simp: setToken_def Let_def split: if_splits)

lemma kept_launch:
  assumes "launchGame code u g room s = Inr (c, s')"
  shows "kept h s s'"
proof -
  obtain b s1 where b: "getBalance u s = (b, s1)" by fastforce
  have "\<exists>xs. s' = s1\<lparr>gw := (gw s1)\<lparr>nextId := Suc (nextId (gw s1))\<rparr>, gameSessions := xs\<rparr>"
    using assms b by (auto simp: launchGame_def Let_def split: option.splits if_splits)
  then obtain xs where s': "s' = s1\<lparr>gw := (gw s1)\<lparr>nextId := Suc (nextId (gw s1))\<rparr>, gameSessions := xs\<rparr>" ..
  have "moved (gw s1) (gw s') still" by (rule moved_frame) (simp_all add: s')
  then have "kept h s1 s'" by (intro kept_frame) (simp_all add: s')
  then show ?thesis using kept_getBalance [OF b] kept_trans by blast
qed

lemma getSsToken_parts:
  assumes "getSsToken tok u code s = (res, s')"
  shows "s' = claimCode code s
    \<or> (\<exists>i t s2. setToken i tok (claimCode code s) = Inr (t, s2) \<and> (s' = s2 \<or> (\<exists>v b. getBalance v s2 = (b, s'))))"
  using assms unfolding getSsToken_def Let_def by (auto split: if_splits option.splits sum.splits prod.splits)

lemma kept_token:
  assumes "getSsToken tok u code s = (res, s')"
  shows "kept h s s'"
proof -
  have c: "kept h s (claimCode code s)" by (simp add: claimCode_def kept_sessions)
  show ?thesis using getSsToken_parts [OF assms] c kept_setToken kept_getBalance kept_trans by metis
qed

lemma kept_info:
  assumes "getUserInfo tok claimed s = (res, s')"
  shows "kept h s s'"
proof -
  have "s' = s \<or> (\<exists>v b. getBalance v s = (b, s'))"
    using assms unfolding getUserInfo_def Let_def by (auto split: sum.splits prod.splits)
  then show ?thesis using kept_getBalance kept_refl by metis
qed

lemma kept_renew: "updateSsToken tok' tok claimed s = Inr (r, s') \<Longrightarrow> kept h s s'"
  using kept_setToken by (auto simp: updateSsToken_def andThen_Inr_iff)

lemma wf_later: "Ledger.wf w \<Longrightarrow> clock w \<le> t \<Longrightarrow> Ledger.wf (w\<lparr>clock := t\<rparr>)"
  by (auto simp: Ledger.wf_def ledgerInv_def)

lemma kept_tick:
  assumes "clock (gw s) \<le> t"
  shows "kept h s (s\<lparr>gw := (gw s)\<lparr>clock := t\<rparr>\<rparr>)"
proof (rule kept_frame)
  have "balanceOf ((gw s)\<lparr>clock := t\<rparr>) a = balanceOf (gw s) a" for a
    by (cases a) (simp add: balanceOf_def findWallet_def walletBalance_def latestCoinBalance_def latestPointBalance_def split: option.split)
  then show "moved (gw s) (gw (s\<lparr>gw := (gw s)\<lparr>clock := t\<rparr>\<rparr>)) still" using wf_later assms by (auto simp: moved_def)
qed simp_all

lemma game_step_kept:
  assumes "game_step s s'" "gameHouse s = Some h"
  shows "kept h s s'"
  using assms(1)
proof cases
  case (buy u a k row)
  show ?thesis unfolding kept_def using buyDiamonds_ok(1) [OF _ buy] converted_follows [OF buyDiamonds_ok(2) [OF _ buy]] by blast
next
  case (redeem u a k row)
  show ?thesis unfolding kept_def using redeemDiamonds_ok(1) [OF _ redeem] converted_follows [OF redeemDiamonds_ok(2) [OF _ redeem]] by blast
next
  case (change p b)
  show ?thesis unfolding kept_def
  proof (intro impI)
    assume "gameInv s"
    from changeBalance_ok [OF this change] obtain x h' where "gameHouse s = Some h'" "settled p x h' s s'" "gameInv s'" by blast
    then show "gameInv s' \<and> follows h s s'" using settled_follows assms(2) by simp
  qed
qed (blast intro: kept_launch kept_token kept_info kept_renew kept_tick)+

lemma game_run_kept:
  assumes "game_step\<^sup>*\<^sup>* s s'" "gameHouse s = Some h"
  shows "kept h s s'"
  using assms(1)
proof induction
  case (step y z)
  have "gameHouse y = Some h" if "gameInv s" using step.IH that assms(2) by (simp add: kept_def follows_def)
  then show ?case using game_step_kept [OF step.hyps(2)] step.IH follows_trans by (auto simp: kept_def)
qed simp

section \<open>Launch codes\<close>

definition spent :: "string \<Rightarrow> games \<Rightarrow> bool" where
  "spent code s \<longleftrightarrow> (\<exists>x\<in>set (gameSessions s). sn_code x = code) \<and> (\<forall>x\<in>set (gameSessions s). sn_code x = code \<longrightarrow> sn_codeUsedAt x \<noteq> None)"

lemma spent_same: "gameSessions s' = gameSessions s \<Longrightarrow> spent code s' = spent code s"
  by (simp add: spent_def)

lemma getBalance_sessions: "getBalance u s = (b, s') \<Longrightarrow> gameSessions s' = gameSessions s"
  by (auto simp: getBalance_def Let_def split: option.splits prod.splits if_splits)

lemma spent_update:
  assumes "\<And>x. sn_code (f x) = sn_code x" "\<And>x. sn_codeUsedAt x \<noteq> None \<Longrightarrow> sn_codeUsedAt (f x) \<noteq> None"
  shows "spent code s \<Longrightarrow> spent code (updateSessions P f s)"
proof -
  assume sp: "spent code s"
  let ?g = "\<lambda>x. if P x then f x else x"
  have g: "sn_code (?g x) = sn_code x" "sn_codeUsedAt x \<noteq> None \<Longrightarrow> sn_codeUsedAt (?g x) \<noteq> None" for x using assms by simp_all
  have m: "gameSessions (updateSessions P f s) = map ?g (gameSessions s)" by (simp add: updateSessions_def)
  show ?thesis using sp g unfolding spent_def m set_map ball_simps bex_simps by metis
qed

lemma spent_claim: "spent code s \<Longrightarrow> spent code (claimCode c s)"
  unfolding claimCode_def by (rule spent_update) simp_all

lemma spent_setToken: "setToken i tok s = Inr (t, s') \<Longrightarrow> spent code s \<Longrightarrow> spent code s'"
  using spent_update [of "\<lambda>x. x\<lparr>sn_ssToken := Some tok, sn_expiresAt := Some (clock (gw s) + SS_TOKEN_TTL_MS)\<rparr>"]
  by (auto simp: setToken_def Let_def split: if_splits)

lemma spent_rest:
  assumes run: "getSsToken tok u c s = (res, s')" and sp: "spent code (claimCode c s)"
  shows "spent code s'"
  using getSsToken_parts [OF run]
proof (elim disjE exE conjE)
  fix i t s2 v b assume "setToken i tok (claimCode c s) = Inr (t, s2)" "getBalance v s2 = (b, s')"
  then show ?thesis using spent_setToken sp spent_same [OF getBalance_sessions] by simp
qed (use sp spent_setToken in simp_all)

lemma spent_token: "getSsToken tok u c s = (res, s') \<Longrightarrow> spent code s \<Longrightarrow> spent code s'"
  by (rule spent_rest, assumption, rule spent_claim)

lemma runConversion_sessions:
  assumes "runConversion dir u a key s = Inr (row, s')"
  shows "gameSessions s' = gameSessions s"
proof (cases "findConversion key s")
  case None
  obtain cw w1 dw w2 where g: "getOrCreate u COIN (gw s) = (cw, w1)" "getOrCreate u DIAMOND w1 = (dw, w2)" by fastforce
  have "insertConversion r (s\<lparr>gw := w4\<rparr>) = Inr (row, s') \<Longrightarrow> gameSessions s' = gameSessions s" for r w4
    by (auto simp: insertConversion_def split: if_splits)
  with assms None g show ?thesis by (auto simp: runConversion_def Let_def andThen_Inr_iff)
qed (use assms in \<open>simp add: runConversion_def\<close>)

lemma convertOnce_sessions: "convertOnce dir u a key s = Inr (row, s') \<Longrightarrow> gameSessions s' = gameSessions s"
  using runConversion_sessions by (auto simp: convertOnce_def split: sum.splits if_splits option.splits)

lemma runSettlement_sessions:
  assumes "runSettlement x h p s = Inr (row, s')"
  shows "gameSessions s' = gameSessions s"
proof (cases "findLink (sn_provider x) (cb_order p) s")
  case None
  obtain uw w1 hw w2 where g: "getOrCreate (sn_user x) DIAMOND (gw s) = (uw, w1)" "getOrCreate h DIAMOND w1 = (hw, w2)" by fastforce
  have "insertLink r (s\<lparr>gw := w4\<rparr>) = Inr (row, s') \<Longrightarrow> gameSessions s' = gameSessions s" for r w4
    by (auto simp: insertLink_def split: if_splits)
  with assms None g show ?thesis by (auto simp: runSettlement_def Let_def andThen_Inr_iff)
qed (use assms in \<open>simp add: runSettlement_def\<close>)

lemma settleOnce_sessions: "settleOnce x h p s = Inr (u, s') \<Longrightarrow> gameSessions s' = gameSessions s"
  using runSettlement_sessions by (auto simp: settleOnce_def split: sum.splits if_splits)

lemma changeBalance_sessions: "changeBalance p s = Inr (b, s') \<Longrightarrow> gameSessions s' = gameSessions s"
  using changeBalance_cases [of p s b s'] settleOnce_sessions getBalance_sessions by fastforce

lemma launch_sessions:
  assumes "launchGame code u g room s = Inr (c, s')"
  shows "\<exists>x. gameSessions s' = gameSessions s @ [x] \<and> sn_code x = code \<and> (\<forall>y\<in>set (gameSessions s). sn_code y \<noteq> code)"
  using assms getBalance_sessions [of u s "fst (getBalance u s)" "snd (getBalance u s)"]
  by (auto simp: launchGame_def Let_def list_ex_iff split: option.splits if_splits)

lemma spent_step:
  assumes "game_step s s'" "spent code s"
  shows "spent code s'"
  using assms(1)
proof cases
  case (buy u a k row)
  then show ?thesis using assms(2) convertOnce_sessions spent_same
    by (auto simp: buyDiamonds_def andThen_Inr_iff spent_def split: if_splits)
next
  case (redeem u a k row)
  then show ?thesis using assms(2) convertOnce_sessions spent_same
    by (auto simp: redeemDiamonds_def andThen_Inr_iff spent_def Let_def split: if_splits)
next
  case (launch c u g room d)
  obtain x where x: "gameSessions s' = gameSessions s @ [x]" "sn_code x = c" "\<forall>y\<in>set (gameSessions s). sn_code y \<noteq> c"
    using launch_sessions [OF launch] by blast
  then have "code \<noteq> c" using assms(2) by (auto simp: spent_def)
  then show ?thesis using assms(2) x by (auto simp: spent_def)
next
  case (info tok claimed res)
  then have "s' = s \<or> (\<exists>v b. getBalance v s = (b, s'))"
    unfolding getUserInfo_def Let_def by (auto split: sum.splits prod.splits)
  then show ?thesis using assms(2) getBalance_sessions spent_same by metis
next
  case (renew tok' tok claimed r)
  then show ?thesis using spent_setToken assms(2) by (auto simp: updateSsToken_def andThen_Inr_iff)
next
  case (change p b)
  then show ?thesis using changeBalance_sessions spent_same assms(2) by metis
qed (use assms(2) spent_token in \<open>auto simp: spent_def\<close>)

lemma spent_run: "game_step\<^sup>*\<^sup>* s s' \<Longrightarrow> spent code s \<Longrightarrow> spent code s'"
  by (induction rule: rtranclp_induct) (auto intro: spent_step)

lemma spent_refused:
  assumes "spent code s"
  shows "fst (getSsToken tok u code s) = Inl (AppError 401 ''GAME_LAUNCH_CODE_INVALID'' [])"
proof -
  have "filter (claimable code) (gameSessions s) = []" using assms by (auto simp: spent_def claimable_def filter_empty_conv)
  then show ?thesis by (simp add: getSsToken_def Let_def)
qed

lemma token_spends:
  assumes "getSsToken tok u code s = (Inr r, s')"
  shows "spent code s'"
proof -
  have "length (filter (claimable code) (gameSessions s)) = 1" using assms by (auto simp: getSsToken_def Let_def split: if_splits)
  then obtain x where "x \<in> set (filter (claimable code) (gameSessions s))" by (cases "filter (claimable code) (gameSessions s)") auto
  then have "x \<in> set (gameSessions s)" "claimable code x" by simp_all
  then have "sn_code x = code" by (simp add: claimable_def)
  have m: "gameSessions (claimCode code s)
      = map (\<lambda>x. if claimable code x then x\<lparr>sn_codeUsedAt := Some (clock (gw s)), sn_status := ACTIVE\<rparr> else x) (gameSessions s)"
    by (simp add: claimCode_def updateSessions_def)
  have "\<exists>y\<in>set (gameSessions (claimCode code s)). sn_code y = code"
    unfolding m set_map bex_simps using \<open>x \<in> set (gameSessions s)\<close> \<open>sn_code x = code\<close> by (intro bexI [of _ x]) simp_all
  moreover have "\<forall>y\<in>set (gameSessions (claimCode code s)). sn_code y = code \<longrightarrow> sn_codeUsedAt y \<noteq> None"
    unfolding m set_map ball_simps by (simp add: claimable_def)
  ultimately show ?thesis using spent_rest [OF assms] by (simp add: spent_def)
qed

section \<open>Properties\<close>

text \<open>
  C7. Whatever is bought, redeemed, launched and settled, the coins and diamonds of every account change
  by exactly the conversions and rounds that were recorded: a conversion takes from one wallet what it
  gives to the other, and a round moves its amount between the player and the house, so no diamond
  appears or vanishes in a game.
\<close>

theorem balances_follow_rows:
  assumes "game_step\<^sup>*\<^sup>* s s'" "gameInv s" "gameHouse s = Some h"
  shows "gameInv s' \<and> (\<exists>cs ls. conversions s' = conversions s @ cs \<and> roundLinks s' = roundLinks s @ ls
    \<and> (\<forall>a. balanceOf (gw s') a = balanceOf (gw s) a
          + (\<Sum>r\<leftarrow>cs. conversionMove (cv_direction r) (cv_user r) (cv_coinAmount r) a)
          + (\<Sum>l\<leftarrow>ls. settleMove (ln_diffMsg l) (ln_user l) h (ln_diff l) a)))"
proof -
  have k: "gameInv s'" "follows h s s'" using game_run_kept [OF assms(1,3)] assms(2) by (simp_all add: kept_def)
  then obtain cs ls where r: "conversions s' = conversions s @ cs" "roundLinks s' = roundLinks s @ ls" "moved (gw s) (gw s') (dues h cs ls)"
    by (auto simp: follows_def)
  have "Ledger.wf (gw s)" using assms(2) by (simp add: gameInv_def rowsInv_def)
  then show ?thesis using k(1) r moved_bal [OF r(3)] by (auto simp: dues_def)
qed

text \<open>
  C11. Every outcome of a settlement in an active session. An order that is already settled moves nothing
  and answers with the balance of the player. A new one is refused when the paying side (the player for
  a bet, the house otherwise) has no account or not enough diamonds, and nothing changes; otherwise the
  amount moves, the order is recorded, and the answer is the new balance.
\<close>

theorem change_balance_outcome:
  assumes inv: "gameInv s" and x: "requireActiveSession (cb_ssToken p) s = Inr x" "checkSessionUser (userCheck s) (sn_user x) (cb_user p) = Inr ()"
    and h: "gameHouse s = Some h" and d: "cb_diff p \<noteq> 0"
  shows "(findLink (sn_provider x) (cb_order p) s \<noteq> None \<longrightarrow>
      (\<exists>s'. changeBalance p s = Inr (balanceOf (gw s) (sn_user x, DIAMOND), s') \<and> roundLinks s' = roundLinks s
         \<and> (\<forall>a. balanceOf (gw s') a = balanceOf (gw s) a)))
    \<and> (findLink (sn_provider x) (cb_order p) s = None \<longrightarrow>
      (if users (gw s) (payer (cb_msg p) (sn_user x) h) = None then changeBalance p s = Inl noUser
       else if payable (cb_msg p) (sn_user x) h (cb_diff p) (gw s) < \<bar>cb_diff p\<bar>
       then changeBalance p s = Inl (insufficientCoins \<bar>cb_diff p\<bar> (payable (cb_msg p) (sn_user x) h (cb_diff p) (gw s)))
       else \<exists>s' row. changeBalance p s = Inr (balanceOf (gw s') (sn_user x, DIAMOND), s') \<and> gameInv s'
         \<and> roundLinks s' = roundLinks s @ [row] \<and> ln_order row = cb_order p \<and> ln_provider row = sn_provider x
         \<and> (\<forall>a. balanceOf (gw s') a = balanceOf (gw s) a + settleMove (cb_msg p) (sn_user x) h (cb_diff p) a)))"
proof -
  have wf: "Ledger.wf (gw s)" and r: "rowsInv s" using inv by (simp_all add: gameInv_def rowsInv_def)
  have run: "changeBalance p s = (if findLink (sn_provider x) (cb_order p) s \<noteq> None then Inr (getBalance (sn_user x) s)
      else andThen (settleOnce x h p s) (\<lambda>(_, s1). Inr (getBalance (sn_user x) (bustBalanceCache h (bustBalanceCache (sn_user x) s1)))))"
    using x h d by (simp add: changeBalance_def requireGameHouseUserId_def)
  have done': "b = balanceOf (gw s') (sn_user x, DIAMOND) \<and> settled p x h s s' \<and> gameInv s'" if c: "changeBalance p s = Inr (b, s')" for b s'
    using changeBalance_ok [OF inv c] x(1) h by auto
  show ?thesis
  proof (cases "findLink (sn_provider x) (cb_order p) s")
    case (Some l)
    then obtain b s' where c: "changeBalance p s = Inr (b, s')" by (cases "getBalance (sn_user x) s") (simp add: run)
    have m: "moved (gw s) (gw s') still" "roundLinks s' = roundLinks s" using done' [OF c] Some by (simp_all add: settled_def)
    then show ?thesis using c done' [OF c] Some moved_bal [OF m(1) wf] by simp
  next
    case None
    note cs = runSettlement_cases [OF r None d, of h]
    have good: ?thesis if pay: "users (gw s) (payer (cb_msg p) (sn_user x) h) \<noteq> None" "\<bar>cb_diff p\<bar> \<le> payable (cb_msg p) (sn_user x) h (cb_diff p) (gw s)"
    proof -
      obtain b s' where c: "changeBalance p s = Inr (b, s')" using changeBalance_total [OF r x h d None pay] by blast
      obtain row where m: "moved (gw s) (gw s') (settleMove (cb_msg p) (sn_user x) h (cb_diff p))" "roundLinks s' = roundLinks s @ [row]"
        "ln_provider row = sn_provider x" "ln_order row = cb_order p" using done' [OF c] None by (auto simp: settled_def)
      then show ?thesis using c done' [OF c] None pay moved_bal [OF m(1) wf] by auto
    qed
    show ?thesis
    proof (cases "users (gw s) (payer (cb_msg p) (sn_user x) h) = None")
      case True
      then show ?thesis using None cs(1) by (simp add: run settleOnce_def noUser_def)
    next
      case False
      then have ?thesis if short: "payable (cb_msg p) (sn_user x) h (cb_diff p) (gw s) < \<bar>cb_diff p\<bar>"
        using None cs(2) short by (auto simp: run settleOnce_def insufficientCoins_def)
      with good False show ?thesis by (meson not_less)
    qed
  qed
qed

text \<open>
  C15. A round is settled once: after a settlement of an order, whatever happens next, another request
  for the same order of the same provider that gets through moves nothing.
\<close>

theorem round_settled_once:
  assumes inv: "gameInv s" and first: "changeBalance p s = Inr (b, s1)" and x: "requireActiveSession (cb_ssToken p) s = Inr x"
    and run: "game_step\<^sup>*\<^sup>* s1 s2" and again: "changeBalance q s2 = Inr (c, s3)"
    and y: "requireActiveSession (cb_ssToken q) s2 = Inr y" "sn_provider y = sn_provider x" "cb_order q = cb_order p"
  shows "c = balanceOf (gw s2) (sn_user y, DIAMOND) \<and> roundLinks s3 = roundLinks s2 \<and> conversions s3 = conversions s2
    \<and> (\<forall>a. balanceOf (gw s3) a = balanceOf (gw s2) a)"
proof -
  obtain h where h: "gameHouse s = Some h" "settled p x h s s1" "gameInv s1" using changeBalance_ok [OF inv first] x by auto
  have l1: "findLink (sn_provider x) (cb_order p) s1 \<noteq> None"
  proof (cases "findLink (sn_provider x) (cb_order p) s")
    case None
    then obtain row where "roundLinks s1 = roundLinks s @ [row]" "ln_provider row = sn_provider x" "ln_order row = cb_order p"
      using h(2) by (auto simp: settled_def)
    then show ?thesis by (auto simp: findLink_def find_append split: option.splits)
  qed (use h(2) in \<open>auto simp: settled_def findLink_def\<close>)
  have h1: "gameHouse s1 = Some h" using h by (simp add: settled_def)
  have k: "gameInv s2" "follows h s1 s2" using game_run_kept [OF run h1] h(3) by (simp_all add: kept_def)
  obtain ls where "roundLinks s2 = roundLinks s1 @ ls" using k(2) by (auto simp: follows_def)
  then have l2: "findLink (sn_provider y) (cb_order q) s2 \<noteq> None"
    using l1 y(2,3) by (auto simp: findLink_def find_append split: option.splits)
  obtain h' where s: "settled q y h' s2 s3" "c = balanceOf (gw s3) (sn_user y, DIAMOND)" using changeBalance_ok [OF k(1) again] y(1) by auto
  then have m: "moved (gw s2) (gw s3) still" "roundLinks s3 = roundLinks s2" "conversions s3 = conversions s2" using l2 by (simp_all add: settled_def)
  have "Ledger.wf (gw s2)" using k(1) by (simp add: gameInv_def rowsInv_def)
  then show ?thesis using m s(2) moved_bal [OF m(1)] by simp
qed

text \<open>
  C40. A launch code yields a session token at most once: after it did, every later attempt with the
  same code is refused, whoever makes it.
\<close>

theorem launch_code_once:
  assumes "getSsToken tok u code s = (Inr r, s1)" "game_step\<^sup>*\<^sup>* s1 s2"
  shows "fst (getSsToken tok' v code s2) = Inl (AppError 401 ''GAME_LAUNCH_CODE_INVALID'' [])"
  using spent_refused [OF spent_run [OF assms(2) token_spends [OF assms(1)]]] .

section \<open>A sample\<close>

text \<open>Player 7 holds 100 diamonds, 9 is the house; one session is active, one launch code unused.\<close>

definition sampleGames :: games where
  "sampleGames =
     \<lparr> gw = emptyWorld\<lparr>
         users := [7 \<mapsto> sampleUser, 9 \<mapsto> sampleUser],
         wallets := [\<lparr>wallet_id = 2, wallet_user = 7, wallet_currency = DIAMOND, wallet_version = 1, unconfirmedPoints = 0\<rparr>],
         coinLedger := [(newEntry 2 CREDIT C_GAME_ADJUSTMENT 100 100 ''a'')\<lparr>entry_id := 5, createdAt := 10\<rparr>],
         nextId := 20, clock := 30\<rparr>,
       conversions = [],
       gameSessions = [\<lparr> sn_id = 3, sn_user = 7, sn_provider = 1, sn_gameId = 4, sn_code = ''c1'', sn_codeUsedAt = Some 20,
           sn_ssToken = Some ''t1'', sn_expiresAt = Some 1000, sn_room = None, sn_status = ACTIVE \<rparr>,
         \<lparr> sn_id = 6, sn_user = 7, sn_provider = 1, sn_gameId = 4, sn_code = ''c2'', sn_codeUsedAt = None,
           sn_ssToken = None, sn_expiresAt = None, sn_room = None, sn_status = ISSUED \<rparr>],
       roundLinks = [], gameHouse = Some 9, gameProviderId = Some 1, providerActive = True, diamondCache = Map.empty, userCheck = True \<rparr>"

definition sampleBet :: change_params where
  "sampleBet = \<lparr> cb_ssToken = ''t1'', cb_diff = -40, cb_msg = Bet, cb_gameId = 4, cb_room = None, cb_order = ''o1'', cb_user = Some 7 \<rparr>"

lemma sampleGames_parts:
  "gameHouse sampleGames = Some 9" "roundLinks sampleGames = []" "conversions sampleGames = []" "userCheck sampleGames"
  "users (gw sampleGames) 7 = Some sampleUser"
  by (simp_all add: sampleGames_def)

lemma sampleGames_inv: "gameInv sampleGames"
proof -
  have "Ledger.wf (gw sampleGames)"
    by (simp add: Ledger.wf_def sampleGames_def emptyWorld_def walletsInv_def ledgerInv_def newEntry_def coinDelta_def)
  moreover have "cacheOk sampleGames" by (simp add: cacheOk_def sampleGames_def)
  moreover have "used k (gw sampleGames) \<longleftrightarrow> k = ''a''" for k
    by (auto simp: used_def sampleGames_def findByIdempotencyKey_def newEntry_def)
  moreover have "k @ '':out'' \<noteq> ''a''" "k @ '':in'' \<noteq> ''a''" "k @ '':user'' \<noteq> ''a''" "k @ '':house'' \<noteq> ''a''" for k
    by (cases k; simp)+
  ultimately show ?thesis by (simp add: gameInv_def rowsInv_def sampleGames_parts)
qed

lemma sampleGames_session: "\<exists>x. requireActiveSession ''t1'' sampleGames = Inr x \<and> sn_user x = 7 \<and> sn_provider x = 1"
  by (simp add: requireActiveSession_def sampleGames_def emptyWorld_def)

lemma sampleGames_balance: "balanceOf (gw sampleGames) (7, DIAMOND) = 100"
  by (simp add: sampleGames_def emptyWorld_def balanceOf_def findWallet_def walletBalance_def latestCoinBalance_def
      latestBalance_def newEntry_def)

theorem change_balance_outcome_witness:
  "\<exists>s' row. changeBalance sampleBet sampleGames = Inr (60, s') \<and> roundLinks s' = [row] \<and> gameInv s'"
proof -
  obtain x where x: "requireActiveSession ''t1'' sampleGames = Inr x" "sn_user x = 7" "sn_provider x = 1" using sampleGames_session by blast
  have p: "cb_ssToken sampleBet = ''t1''" "cb_diff sampleBet = -40" "cb_msg sampleBet = Bet" "cb_user sampleBet = Some 7"
    by (simp_all add: sampleBet_def)
  have l: "findLink 1 (cb_order sampleBet) sampleGames = None" by (simp add: findLink_def sampleGames_parts)
  have c: "checkSessionUser (userCheck sampleGames) (sn_user x) (cb_user sampleBet) = Inr ()" by (simp add: checkSessionUser_def p x)
  have d: "cb_diff sampleBet \<noteq> 0" by (simp add: p)
  have m: "settleMove Bet 7 9 (- 40) (7, DIAMOND) = -40" by (simp add: settleMove_def moving_def)
  have pay: "payer Bet 7 9 = 7" "payable Bet 7 9 (- 40) (gw sampleGames) = 100"
    by (simp_all add: payer_def payable_def sampleGames_balance)
  note o = change_balance_outcome [OF sampleGames_inv x(1) [folded p(1)] c sampleGames_parts(1) d, unfolded x p l pay sampleGames_parts]
  then obtain s' row where "changeBalance sampleBet sampleGames = Inr (balanceOf (gw s') (7, DIAMOND), s')" "gameInv s'" "roundLinks s' = [row]"
    "\<forall>a. balanceOf (gw s') a = balanceOf (gw sampleGames) a + settleMove Bet 7 9 (- 40) a" by auto
  then show ?thesis using m sampleGames_balance by auto
qed

lemma sampleBet_runs: "\<exists>b s'. changeBalance sampleBet sampleGames = Inr (b, s')"
proof -
  obtain x where x: "requireActiveSession (cb_ssToken sampleBet) sampleGames = Inr x" "sn_user x = 7" "sn_provider x = 1"
    using sampleGames_session by (auto simp: sampleBet_def)
  show ?thesis
    by (rule changeBalance_total [OF _ x(1) _ sampleGames_parts(1)])
       (use sampleGames_inv sampleGames_balance sampleGames_parts in \<open>simp_all add: gameInv_def sampleBet_def checkSessionUser_def x findLink_def payer_def payable_def\<close>)
qed

theorem balances_follow_rows_witness:
  "\<exists>s' cs ls. game_step\<^sup>*\<^sup>* sampleGames s' \<and> roundLinks s' = ls \<and> ls \<noteq> [] \<and> conversions s' = cs
     \<and> balanceOf (gw s') (9, DIAMOND) = balanceOf (gw sampleGames) (9, DIAMOND)
         + (\<Sum>r\<leftarrow>cs. conversionMove (cv_direction r) (cv_user r) (cv_coinAmount r) (9, DIAMOND))
         + (\<Sum>l\<leftarrow>ls. settleMove (ln_diffMsg l) (ln_user l) 9 (ln_diff l) (9, DIAMOND))"
proof -
  obtain b s' where c: "changeBalance sampleBet sampleGames = Inr (b, s')" using sampleBet_runs by blast
  have reach: "game_step\<^sup>*\<^sup>* sampleGames s'" using game_step.change [OF c] by blast
  obtain x h where "settled sampleBet x h sampleGames s'" using changeBalance_ok [OF sampleGames_inv c] by blast
  then have "roundLinks s' \<noteq> []" by (auto simp: settled_def findLink_def sampleGames_parts)
  then show ?thesis
    using reach balances_follow_rows [OF reach sampleGames_inv sampleGames_parts(1)] unfolding sampleGames_parts by auto
qed

text \<open>The order is sent again under the same token.\<close>

theorem round_settled_once_witness:
  "\<exists>b s1 c s3. changeBalance sampleBet sampleGames = Inr (b, s1) \<and> changeBalance sampleBet s1 = Inr (c, s3)
     \<and> roundLinks s3 = roundLinks s1 \<and> balanceOf (gw s3) (7, DIAMOND) = balanceOf (gw s1) (7, DIAMOND)"
proof -
  obtain b s1 where c: "changeBalance sampleBet sampleGames = Inr (b, s1)" using sampleBet_runs by blast
  obtain x h where x: "requireActiveSession (cb_ssToken sampleBet) sampleGames = Inr x" and h: "gameHouse sampleGames = Some h"
    and s: "settled sampleBet x h sampleGames s1" using changeBalance_ok [OF sampleGames_inv c] by blast
  have same: "gameSessions s1 = gameSessions sampleGames" "clock (gw s1) = clock (gw sampleGames)" using s by (simp_all add: settled_def)
  have x': "requireActiveSession (cb_ssToken sampleBet) s1 = Inr x" using x unfolding requireActiveSession_def same .
  have "findLink (sn_provider x) (cb_order sampleBet) s1 \<noteq> None"
    using s by (auto simp: settled_def findLink_def sampleGames_parts)
  moreover have "sn_user x = 7" using x sampleGames_session by (simp add: sampleBet_def)
  ultimately obtain c s3 where c3: "changeBalance sampleBet s1 = Inr (c, s3)"
    using x' s h by (cases "getBalance (sn_user x) s1")
      (auto simp: changeBalance_def requireGameHouseUserId_def checkSessionUser_def settled_def sampleBet_def)
  show ?thesis
    using round_settled_once [OF sampleGames_inv c x rtranclp.rtrancl_refl c3 x'] c c3 by auto
qed

theorem launch_code_once_witness:
  "\<exists>r s1. getSsToken ''t2'' 7 ''c2'' sampleGames = (Inr r, s1)
     \<and> fst (getSsToken ''t3'' 7 ''c2'' s1) = Inl (AppError 401 ''GAME_LAUNCH_CODE_INVALID'' [])"
proof -
  have "\<exists>r s1. getSsToken ''t2'' 7 ''c2'' sampleGames = (Inr r, s1)"
    by (simp add: getSsToken_def claimCode_def updateSessions_def claimable_def setToken_def getBalance_def getOrCreate_def findWallet_def
        safeBalance_def coinComputeBalance_def latestBalance_def newEntry_def sampleGames_def emptyWorld_def Let_def)
  then obtain r s1 where g: "getSsToken ''t2'' 7 ''c2'' sampleGames = (Inr r, s1)" by blast
  show ?thesis using launch_code_once [OF g, of s1 "''t3''" 7] g by blast
qed

end
