(* ===== verification/Withdrawals.thy ===== *)
theory Withdrawals
  imports PointWallet "HOL-Library.Product_Lexorder"
begin

text \<open>
  Withdrawals of host points and their payout by agencies, by the platform or by the company:
  \<open>src/src/services/withdrawal.service.ts\<close> over \<open>withdrawal.repository.ts\<close> and
  \<open>payrollAssignment.repository.ts\<close>, and the jobs of \<open>src/src/jobs/payroll-sla.job.ts\<close>.

  The tables of the service stand beside the shared world (\<open>money\<close>), so that the point operations of
  \<open>PointWallet\<close> run on the world alone. The columns of the table \<open>agencies\<close> that only payroll reads are
  \<open>payrollAgencies\<close>. Delayed jobs are the ids they were enqueued for.

  A service call that commits and then fails keeps what it committed: it answers with an outcome, a
  result or an error together with the state. A transaction is all or nothing. Reads that the source
  sends to a replica see the committed state. Audit log, notifications, message queue and the
  dashboard caches are left out; the reported amounts in local currency too. Redis is taken to be
  reachable after the commit (the calls before it fail as the source does).
\<close>

section \<open>Tables\<close>

datatype WithdrawalStatus =
    PENDING | KYC_CHECK | APPROVED | PROCESSING | PAID | FAILED | REJECTED | PENDING_PLATFORM
  | DISPUTED | WAITING

datatype AssignmentStatus = A_PENDING | A_WAITING | A_COMPLETED | A_REJECTED | A_EXPIRED

record withdrawal_row =
  wd_id :: nat
  wd_wallet :: wid
  wd_user :: uid
  amountPoints :: int
  wd_status :: WithdrawalStatus
  payoutRef :: "string option"
  failReason :: "string option"
  wd_notes :: "string option"
  wd_idempotencyKey :: string
  requestedAt :: int
  processedAt :: "int option"
  paymentMethodId :: "nat option"
  hostPayoutUsd :: "rat option"
  platformFeePoints :: "int option"
  agentRewardPoints :: "int option"
  serviceFeePoints :: "int option"
  methodType :: "string option"
  payoutHandler :: "string option"
  wd_proofS3Key :: "string option"
  wd_proofS3Bucket :: "string option"
  wd_waitingExpiresAt :: "int option"
  assignmentCount :: int
  disputeTicketId :: "string option"
  withdrawalVersion :: int

record assignment_row =
  as_id :: nat
  as_withdrawal :: nat
  as_agency :: uid
  as_assignedAt :: int
  as_expiresAt :: int
  as_status :: AssignmentStatus
  as_proofS3Key :: "string option"
  as_proofS3Bucket :: "string option"
  as_completedAt :: "int option"
  as_rejectedAt :: "int option"
  as_rejectionReason :: "string option"
  as_number :: int
  as_waitingExpiresAt :: "int option"

record payroll_agency =
  payrollEnabled :: bool
  payrollPrivilegeGranted :: bool
  payrollEnabledAt :: "int option"
  lastPayrollAssignedAt :: "int option"

record payroll_config =
  cfg_agentRewardRateBp :: int
  cfg_feeTiers :: "PayrollFeeTierDto list"
  cfg_serviceFeeUsd :: rat
  cfg_minWithdrawalUsd :: rat
  cfg_maxWithdrawalUsd :: rat
  cfg_slaHours :: int
  cfg_waitingHours :: int
  cfg_maxAssignmentAttempts :: int

record payment_method =
  pm_user :: uid
  pm_methodType :: string
  pm_lastUsedAt :: "int option"

datatype CompanyCashReason = EPAY_PAYOUT | PAYROLL_TAKEOVER_PAYOUT

record cash_row =
  cash_reason :: CompanyCashReason
  cash_amountUsd :: rat
  cash_units :: int
  cash_user :: uid
  cash_withdrawal :: nat

record payroll =
  money :: world
  withdrawals :: "withdrawal_row list"
  assignments :: "assignment_row list"
  payrollAgencies :: "(uid \<times> payroll_agency) list"
  configRow :: "payroll_config option"
  configCache :: "payroll_config option"
  faceIndexed :: "uid list"
  paymentMethods :: "nat \<rightharpoonup> payment_method"
  epayEnabled :: bool
  bankEnabled :: bool
  companyAgency :: "uid option"
  agentUsers :: "uid list"
  deletedUsers :: "uid list"
  companyCash :: "cash_row list"
  slaJobs :: "nat list"
  waitingJobs :: "nat list"
  platformJobs :: "nat list"

text \<open>Rows looked up and changed by their id.\<close>

definition fetch :: "('r \<Rightarrow> nat) \<Rightarrow> 'r list \<Rightarrow> nat \<Rightarrow> 'r option" where
  "fetch key rows i = find (\<lambda>r. key r = i) rows"

definition modify :: "('r \<Rightarrow> nat) \<Rightarrow> nat \<Rightarrow> ('r \<Rightarrow> 'r) \<Rightarrow> 'r list \<Rightarrow> 'r list" where
  "modify key i f rows = map (\<lambda>r. if key r = i then f r else r) rows"

definition findWithdrawal :: "nat \<Rightarrow> payroll \<Rightarrow> withdrawal_row option" where
  "findWithdrawal i s = fetch wd_id (withdrawals s) i"

definition updateWithdrawal :: "nat \<Rightarrow> (withdrawal_row \<Rightarrow> withdrawal_row) \<Rightarrow> payroll \<Rightarrow> payroll" where
  "updateWithdrawal i f s = s\<lparr>withdrawals := modify wd_id i f (withdrawals s)\<rparr>"

definition findAssignment :: "nat \<Rightarrow> payroll \<Rightarrow> assignment_row option" where
  "findAssignment i s = fetch as_id (assignments s) i"

definition updateAssignment :: "nat \<Rightarrow> (assignment_row \<Rightarrow> assignment_row) \<Rightarrow> payroll \<Rightarrow> payroll" where
  "updateAssignment i f s = s\<lparr>assignments := modify as_id i f (assignments s)\<rparr>"

text \<open>\<open>findFirst({ where: { withdrawalId, status } })\<close>; \<open>orderBy desc\<close> takes the latest.\<close>

definition assignmentsOf :: "nat \<Rightarrow> (AssignmentStatus \<Rightarrow> bool) \<Rightarrow> payroll \<Rightarrow> assignment_row list" where
  "assignmentsOf i p s = filter (\<lambda>a. as_withdrawal a = i \<and> p (as_status a)) (assignments s)"

definition openAssignmentOf :: "nat \<Rightarrow> payroll \<Rightarrow> assignment_row option" where
  "openAssignmentOf i s =
     (case assignmentsOf i (\<lambda>st. st = A_PENDING \<or> st = A_WAITING) s of [] \<Rightarrow> None | a # _ \<Rightarrow> Some a)"

definition waitingAssignmentOf :: "nat \<Rightarrow> payroll \<Rightarrow> assignment_row option" where
  "waitingAssignmentOf i s = (case assignmentsOf i (\<lambda>st. st = A_WAITING) s of [] \<Rightarrow> None | a # _ \<Rightarrow> Some a)"

definition findWaitingByWithdrawalId :: "nat \<Rightarrow> payroll \<Rightarrow> assignment_row option" where
  "findWaitingByWithdrawalId i s =
     (case assignmentsOf i (\<lambda>st. st = A_WAITING) s of
        [] \<Rightarrow> None
      | a # as \<Rightarrow> Some (foldl (\<lambda>b c. if as_assignedAt b < as_assignedAt c then c else b) a as))"

text \<open>\<open>completedAt desc\<close> puts rows without the time first, as Postgres does.\<close>

definition findCompletedForWithdrawal :: "nat \<Rightarrow> payroll \<Rightarrow> assignment_row option" where
  "findCompletedForWithdrawal i s =
     (case assignmentsOf i (\<lambda>st. st = A_COMPLETED) s of
        [] \<Rightarrow> None
      | a # as \<Rightarrow> Some (foldl (\<lambda>b c.
          (case (as_completedAt b, as_completedAt c) of
             (None, _) \<Rightarrow> b
           | (Some _, None) \<Rightarrow> c
           | (Some x, Some y) \<Rightarrow> if x < y then c else b)) a as))"

section \<open>Transactions and outcomes\<close>

type_synonym 'a outcome = "(error + 'a) \<times> payroll"

definition onMoney :: "(world \<Rightarrow> error + 'a \<times> world) \<Rightarrow> payroll \<Rightarrow> error + 'a \<times> payroll" where
  "onMoney f s = andThen (f (money s)) (\<lambda>(x, w). Inr (x, s\<lparr>money := w\<rparr>))"

definition now :: "payroll \<Rightarrow> int" where
  "now s = clock (money s)"

text \<open>\<open>randomUUID()\<close>\<close>

definition freshId :: "payroll \<Rightarrow> nat \<times> payroll" where
  "freshId s = (nextId (money s), s\<lparr>money := (money s)\<lparr>nextId := Suc (nextId (money s))\<rparr>\<rparr>)"

definition hoursMs :: "int \<Rightarrow> int" where
  "hoursMs h = h * 3600 * 1000"

definition keyFor :: "string \<Rightarrow> nat \<Rightarrow> string" where
  "keyFor pre i = pre @ '':'' @ show_nat i"

definition payOptions :: "string \<Rightarrow> nat \<Rightarrow> uid option \<Rightarrow> string \<Rightarrow> point_options" where
  "payOptions key i cp desc =
     \<lparr> p_idempotencyKey = key, p_refId = Some (show_nat i), p_counterpartyId = cp,
       p_description = Some desc, p_metadata = None, p_applyLivestreamLevel = False \<rparr>"

definition creditPoints ::
  "uid \<Rightarrow> int \<Rightarrow> PointTxType \<Rightarrow> string \<Rightarrow> nat \<Rightarrow> uid option \<Rightarrow> string \<Rightarrow> payroll \<Rightarrow> error + unit \<times> payroll" where
  "creditPoints u amt tt key i cp desc s =
     andThen (onMoney (creditInTransaction u amt tt (payOptions key i cp desc)) s) (\<lambda>(_, s1). Inr ((), s1))"

definition debitPoints ::
  "uid \<Rightarrow> int \<Rightarrow> PointTxType \<Rightarrow> bool \<Rightarrow> bool \<Rightarrow> string \<Rightarrow> nat \<Rightarrow> uid option \<Rightarrow> string \<Rightarrow> payroll
     \<Rightarrow> error + unit \<times> payroll" where
  "debitPoints u amt tt avail frz key i cp desc s =
     andThen (onMoney (pointDebit u amt tt avail frz (payOptions key i cp desc)) s) (\<lambda>(_, s1). Inr ((), s1))"

definition posted :: "string \<Rightarrow> payroll \<Rightarrow> bool" where
  "posted key s \<longleftrightarrow> findByIdempotencyKey (pointLedger (money s)) key \<noteq> None"

definition dropPointCaches :: "uid \<Rightarrow> payroll \<Rightarrow> payroll" where
  "dropPointCaches u s = s\<lparr>money := adjustPointBalanceCache u 0 None (money s)\<rparr>"

definition dropUnconfirmedCache :: "uid \<Rightarrow> payroll \<Rightarrow> payroll" where
  "dropUnconfirmedCache u s = s\<lparr>money := bustUnconfirmedCache u (money s)\<rparr>"

definition releaseUnconfirmed :: "uid \<Rightarrow> int \<Rightarrow> payroll \<Rightarrow> payroll" where
  "releaseUnconfirmed u amt s =
     s\<lparr>money := (money s)\<lparr>wallets := map (\<lambda>wl. if wallet_user wl = u \<and> wallet_currency wl = POINT
          then wl\<lparr>unconfirmedPoints := unconfirmedPoints wl - amt\<rparr> else wl) (wallets (money s))\<rparr>\<rparr>"

section \<open>Amounts\<close>

definition payoutHandlerForMethod :: "string \<Rightarrow> string" where
  "payoutHandlerForMethod m = (if m = ''EPAY'' then ''PLATFORM'' else ''AGENCY'')"

definition isPlatformHandledWithdrawal :: "withdrawal_row \<Rightarrow> bool" where
  "isPlatformHandledWithdrawal w \<longleftrightarrow> payoutHandler w = Some ''PLATFORM'' \<or> methodType w = Some ''EPAY''"

record withdrawal_amounts =
  wa_platformFeeRateBp :: int
  wa_platformFeePoints :: int
  wa_agentRewardPoints :: int
  wa_hostPayoutPoints :: int
  wa_hostPayoutUsd :: rat
  wa_serviceFeeUsd :: rat
  wa_serviceFeePoints :: int

definition calculateWithdrawalAmounts ::
  "int \<Rightarrow> payroll_config \<Rightarrow> string \<Rightarrow> error + withdrawal_amounts" where
  "calculateWithdrawalAmounts gross cfg method =
     (if gross \<le> 0 then Inl (AppError 400 ''INVALID_AMOUNT'' [])
      else if rat_of_int gross / 10000 < cfg_minWithdrawalUsd cfg - 1 / 1000000000 then
        Inl (AppError 400 ''BELOW_MIN_WITHDRAWAL'' [])
      else if rat_of_int gross / 10000 > cfg_maxWithdrawalUsd cfg + 1 / 1000000000 then
        Inl (AppError 400 ''ABOVE_MAX_WITHDRAWAL'' [])
      else if method = ''EPAY'' then
        (let serviceFee = serviceFeeUsdToPoints (cfg_serviceFeeUsd cfg) in
         if serviceFee \<ge> gross then Inl (AppError 400 ''SERVICE_FEE_EXCEEDS_AMOUNT'' [])
         else Inr \<lparr> wa_platformFeeRateBp = 0, wa_platformFeePoints = 0, wa_agentRewardPoints = 0,
                    wa_hostPayoutPoints = gross - serviceFee,
                    wa_hostPayoutUsd = rat_of_int (gross - serviceFee) / 10000,
                    wa_serviceFeeUsd = cfg_serviceFeeUsd cfg, wa_serviceFeePoints = serviceFee \<rparr>)
      else
        andThen (resolvePayrollFeeRates gross (cfg_feeTiers cfg) (Some (cfg_agentRewardRateBp cfg))) (\<lambda>(feeBp, rewardBp).
        let platformFee = bdiv (gross * feeBp) 10000;
            reward = bdiv (platformFee * rewardBp) 10000 in
        Inr \<lparr> wa_platformFeeRateBp = feeBp, wa_platformFeePoints = platformFee, wa_agentRewardPoints = reward,
              wa_hostPayoutPoints = gross - platformFee,
              wa_hostPayoutUsd = rat_of_int (gross - platformFee) / 10000,
              wa_serviceFeeUsd = 0, wa_serviceFeePoints = 0 \<rparr>))"

text \<open>The points the agency gets for paying the host, and its reward.\<close>

definition payoutOf :: "withdrawal_row \<Rightarrow> int" where
  "payoutOf w = withdrawalHostPayoutPoints (amountPoints w) (platformFeePoints w) (serviceFeePoints w)"

definition rewardOf :: "withdrawal_row \<Rightarrow> int" where
  "rewardOf w = (case agentRewardPoints w of None \<Rightarrow> 0 | Some r \<Rightarrow> r)"

definition getPayrollConfig :: "payroll \<Rightarrow> error + payroll_config \<times> payroll" where
  "getPayrollConfig s =
     (if \<not> redisUp (money s) then Inl redisError
      else case configCache s of
        Some c \<Rightarrow> Inr (c, s)
      | None \<Rightarrow>
          (case configRow s of
             None \<Rightarrow> Inl (AppError 500 ''CONFIG_ERROR'' [])
           | Some c \<Rightarrow> Inr (c, s\<lparr>configCache := Some c\<rparr>)))"

section \<open>Assigning a withdrawal to an agency\<close>

definition setStatus :: "nat \<Rightarrow> WithdrawalStatus \<Rightarrow> payroll \<Rightarrow> payroll" where
  "setStatus i st s = updateWithdrawal i (\<lambda>r. r\<lparr>wd_status := st\<rparr>) s"

definition incrementAssignmentCount :: "nat \<Rightarrow> payroll \<Rightarrow> payroll" where
  "incrementAssignmentCount i s = updateWithdrawal i (\<lambda>r. r\<lparr>assignmentCount := assignmentCount r + 1\<rparr>) s"

definition maxAttempts :: "payroll \<Rightarrow> int" where
  "maxAttempts s = (case configRow s of None \<Rightarrow> 5 | Some c \<Rightarrow> cfg_maxAssignmentAttempts c)"

definition slaHoursOf :: "payroll \<Rightarrow> int" where
  "slaHoursOf s = (case configRow s of None \<Rightarrow> 2 | Some c \<Rightarrow> cfg_slaHours c)"

definition countryOf :: "uid \<Rightarrow> payroll \<Rightarrow> string option" where
  "countryOf u s = (case users (money s) u of None \<Rightarrow> None | Some r \<Rightarrow> country r)"

definition countriesMatch :: "string option \<Rightarrow> string option \<Rightarrow> bool" where
  "countriesMatch a b =
     (case (a, b) of
        (Some x, Some y) \<Rightarrow>
          (let l = map toLower (trimBy isSpace x); r = map toLower (trimBy isSpace y) in l \<noteq> [] \<and> r \<noteq> [] \<and> l = r)
      | _ \<Rightarrow> False)"

definition sqlCountryEq :: "string option \<Rightarrow> string \<Rightarrow> bool" where
  "sqlCountryEq a b =
     (case a of
        None \<Rightarrow> False
      | Some x \<Rightarrow> map toLower (trimBy (\<lambda>c. c = CHR 0x20) x) = map toLower (trimBy (\<lambda>c. c = CHR 0x20) b))"

definition payrollOk :: "uid \<Rightarrow> payroll \<Rightarrow> bool" where
  "payrollOk u s \<longleftrightarrow>
     (case map_of (payrollAgencies s) u of
        None \<Rightarrow> False
      | Some g \<Rightarrow> payrollEnabled g \<and> payrollPrivilegeGranted g
          \<and> \<not> agencyPaused (agencies (money s) u) (now s))"

definition touchAgencyPayrollTimestamp :: "uid \<Rightarrow> payroll \<Rightarrow> payroll" where
  "touchAgencyPayrollTimestamp u s =
     s\<lparr>payrollAgencies := map (\<lambda>(v, g). (v, if v = u then g\<lparr>lastPayrollAssignedAt := Some (now s)\<rparr> else g))
          (payrollAgencies s)\<rparr>"

text \<open>
  \<open>ORDER BY open_cnt, payroll_enabled_at NULLS LAST, last_payroll_assigned_at NULLS FIRST, user_id\<close>.
\<close>

definition openCount :: "uid \<Rightarrow> payroll \<Rightarrow> nat" where
  "openCount u s =
     length (filter (\<lambda>a. as_agency a = u \<and> (as_status a = A_PENDING \<or> as_status a = A_WAITING)) (assignments s))"

definition agencyRank :: "payroll \<Rightarrow> uid \<times> payroll_agency \<Rightarrow> nat \<times> (bool \<times> int) \<times> (bool \<times> int) \<times> nat" where
  "agencyRank s = (\<lambda>(u, g).
     (openCount u s,
      (case payrollEnabledAt g of None \<Rightarrow> (True, 0) | Some t \<Rightarrow> (False, t)),
      (case lastPayrollAssignedAt g of None \<Rightarrow> (False, 0) | Some t \<Rightarrow> (True, t)), u))"

definition eligibleAgencies :: "string \<Rightarrow> uid \<Rightarrow> payroll \<Rightarrow> (uid \<times> payroll_agency) list" where
  "eligibleAgencies hostCountry withdrawer s =
     filter (\<lambda>(u, g). payrollOk u s \<and> sqlCountryEq (countryOf u s) hostCountry \<and> u \<noteq> withdrawer) (payrollAgencies s)"

definition getNextEligibleAgency :: "string \<Rightarrow> uid \<Rightarrow> payroll \<Rightarrow> uid option \<times> payroll" where
  "getNextEligibleAgency hostCountry withdrawer s =
     (case sort_key (agencyRank s) (eligibleAgencies hostCountry withdrawer s) of
        [] \<Rightarrow> (None, s)
      | (u, _) # _ \<Rightarrow> (Some u, touchAgencyPayrollTimestamp u s))"

record assign_options =
  overrideAgencyUserId :: "uid option"
  allowBeyondAssignmentCap :: bool
  rejectOnIneligibleOverride :: bool
  ignoreCountryMatch :: bool

definition noAssignOptions :: assign_options where
  "noAssignOptions = \<lparr> overrideAgencyUserId = None, allowBeyondAssignmentCap = False,
     rejectOnIneligibleOverride = False, ignoreCountryMatch = False \<rparr>"

text \<open>The flags that the transaction leaves for the code after it.\<close>

datatype assign_result =
    Unassigned | AlreadyAssigned | SelfAssignBlocked | OverrideNotFound | OverrideIneligible
  | CountryMismatch | Assigned nat

definition overrideAgency ::
  "assign_options \<Rightarrow> uid \<Rightarrow> uid \<Rightarrow> string option \<Rightarrow> payroll \<Rightarrow> assign_result + uid option \<times> payroll" where
  "overrideAgency opts ov withdrawer hostCountry s =
     (if ov = withdrawer then
        (if rejectOnIneligibleOverride opts then Inl SelfAssignBlocked else Inr (None, s))
      else
        (let ag = map_of (payrollAgencies s) ov;
             countryOk = (ignoreCountryMatch opts
               \<or> (case hostCountry of None \<Rightarrow> False | Some h \<Rightarrow> h \<noteq> [] \<and> countriesMatch (countryOf ov s) hostCountry)) in
         if ag \<noteq> None \<and> payrollOk ov s \<and> countryOk then Inr (Some ov, touchAgencyPayrollTimestamp ov s)
         else if rejectOnIneligibleOverride opts then
           Inl (if ag = None then OverrideNotFound
                else if \<not> payrollOk ov s then OverrideIneligible else CountryMismatch)
         else Inr (None, s)))"

definition chooseAgency ::
  "assign_options \<Rightarrow> uid \<Rightarrow> string option \<Rightarrow> payroll \<Rightarrow> assign_result + uid option \<times> payroll" where
  "chooseAgency opts withdrawer hostCountry s =
     (case overrideAgencyUserId opts of
        Some ov \<Rightarrow> overrideAgency opts ov withdrawer hostCountry s
      | None \<Rightarrow>
          (case hostCountry of
             None \<Rightarrow> Inr (None, s)
           | Some h \<Rightarrow> if h = [] then Inr (None, s) else Inr (getNextEligibleAgency h withdrawer s)))"

text \<open>A new assignment: \<open>(withdrawal, agency, expiry, number, status, proof, end of the dispute window)\<close>.\<close>

definition createAssignment ::
  "nat \<Rightarrow> uid \<Rightarrow> int \<Rightarrow> int \<Rightarrow> AssignmentStatus \<Rightarrow> (string \<times> string) option \<Rightarrow> int option \<Rightarrow> payroll \<Rightarrow> nat \<times> payroll" where
  "createAssignment i agency expires number st proof waitingExpires s =
     (let (a, s1) = freshId s in
      (a, s1\<lparr>assignments := assignments s1 @
        [\<lparr> as_id = a, as_withdrawal = i, as_agency = agency, as_assignedAt = now s1, as_expiresAt = expires,
           as_status = st, as_proofS3Key = map_option fst proof, as_proofS3Bucket = map_option snd proof,
           as_completedAt = None, as_rejectedAt = None, as_rejectionReason = None, as_number = number,
           as_waitingExpiresAt = waitingExpires \<rparr>]\<rparr>))"

definition assignTx :: "assign_options \<Rightarrow> nat \<Rightarrow> payroll \<Rightarrow> error + assign_result \<times> payroll" where
  "assignTx opts i s =
     (case findWithdrawal i s of
        None \<Rightarrow> Inr (Unassigned, s)
      | Some w \<Rightarrow>
          if isPlatformHandledWithdrawal w then Inl (AppError 400 ''EPAY_PLATFORM_PAYOUT'' [])
          else if wd_status w \<noteq> PENDING \<and> wd_status w \<noteq> PENDING_PLATFORM then Inr (Unassigned, s)
          else if openAssignmentOf i s \<noteq> None then
            Inr (AlreadyAssigned, if wd_status w \<noteq> PENDING then setStatus i PENDING s else s)
          else if assignmentCount w \<ge> maxAttempts s \<and> overrideAgencyUserId opts = None
              \<and> \<not> allowBeyondAssignmentCap opts then
            Inr (Unassigned, if wd_status w \<noteq> PENDING_PLATFORM then setStatus i PENDING_PLATFORM s else s)
          else
            (case chooseAgency opts (wd_user w) (countryOf (wd_user w) s) s of
               Inl flag \<Rightarrow> Inr (flag, s)
             | Inr (None, s1) \<Rightarrow> Inr (Unassigned, setStatus i PENDING_PLATFORM s1)
             | Inr (Some agency, s1) \<Rightarrow>
                 (let (a, s2) = createAssignment i agency (now s1 + hoursMs (slaHoursOf s1))
                        (assignmentCount w + 1) A_PENDING None None s1
                  in Inr (Assigned a, setStatus i PENDING s2))))"

definition enqueueJob :: "nat \<Rightarrow> nat list \<Rightarrow> nat list" where
  "enqueueJob i js = (if i \<in> set js then js else js @ [i])"

definition removeJob :: "nat \<Rightarrow> nat list \<Rightarrow> nat list" where
  "removeJob i js = filter (\<lambda>j. j \<noteq> i) js"

definition assignToAgency :: "assign_options \<Rightarrow> nat \<Rightarrow> payroll \<Rightarrow> unit outcome" where
  "assignToAgency opts i s =
     afterwards (transact (assignTx opts i) s) (\<lambda>flag s1.
       case flag of
         AlreadyAssigned \<Rightarrow>
           if allowBeyondAssignmentCap opts then (Inl (AppError 409 ''ALREADY_ASSIGNED'' []), s1) else (Inr (), s1)
       | SelfAssignBlocked \<Rightarrow> (Inl (AppError 400 ''PAYROLL_SELF_ASSIGN_FORBIDDEN'' []), s1)
       | OverrideNotFound \<Rightarrow> (Inl (AppError 404 ''AGENCY_NOT_FOUND'' []), s1)
       | OverrideIneligible \<Rightarrow> (Inl (AppError 400 ''PAYROLL_AGENCY_INELIGIBLE'' []), s1)
       | CountryMismatch \<Rightarrow> (Inl (AppError 400 ''COUNTRY_MISMATCH'' []), s1)
       | Unassigned \<Rightarrow> (Inr (), s1)
       | Assigned a \<Rightarrow> (Inr (), s1\<lparr>slaJobs := enqueueJob a (slaJobs s1)\<rparr>))"

text \<open>\<open>payrollAdmin.service.ts\<close>\<close>

definition manuallyAssignWithdrawal :: "nat \<Rightarrow> uid option \<Rightarrow> payroll \<Rightarrow> unit outcome" where
  "manuallyAssignWithdrawal i agency s =
     assignToAgency \<lparr> overrideAgencyUserId = agency, allowBeyondAssignmentCap = True,
       rejectOnIneligibleOverride = (agency \<noteq> None), ignoreCountryMatch = (agency \<noteq> None) \<rparr> i s"

section \<open>Creating a withdrawal\<close>

fun statusName :: "WithdrawalStatus \<Rightarrow> string" where
  "statusName PENDING = ''PENDING''"
| "statusName KYC_CHECK = ''KYC_CHECK''"
| "statusName APPROVED = ''APPROVED''"
| "statusName PROCESSING = ''PROCESSING''"
| "statusName PAID = ''PAID''"
| "statusName FAILED = ''FAILED''"
| "statusName REJECTED = ''REJECTED''"
| "statusName PENDING_PLATFORM = ''PENDING_PLATFORM''"
| "statusName DISPUTED = ''DISPUTED''"
| "statusName WAITING = ''WAITING''"

record create_params =
  cr_grossPoints :: int
  cr_paymentMethodId :: nat
  cr_idempotencyKey :: string
  cr_notes :: "string option"

definition createIdem :: "uid \<Rightarrow> create_params \<Rightarrow> string" where
  "createIdem u p = ''withdrawal-create:'' @ show_nat u @ '':'' @ cr_idempotencyKey p"

definition findByClientKey :: "string \<Rightarrow> payroll \<Rightarrow> withdrawal_row option" where
  "findByClientKey idem s = find (\<lambda>r. wd_idempotencyKey r = idem) (withdrawals s)"

definition createResponse :: "withdrawal_row \<Rightarrow> json" where
  "createResponse r =
     (let big = (\<lambda>v. case v of None \<Rightarrow> JNull | Some x \<Rightarrow> JBig x);
          method = (if methodType r = Some ''BANK'' then ''BANK'' else ''EPAY'') in
      JObj [(''withdrawalId'', JStr (show_nat (wd_id r))), (''status'', JStr (statusName (wd_status r))),
        (''grossPoints'', JBig (amountPoints r)), (''hostPayoutPoints'', JBig (payoutOf r)),
        (''platformFeePoints'', big (platformFeePoints r)), (''agentRewardPoints'', big (agentRewardPoints r)),
        (''serviceFeePoints'', big (serviceFeePoints r)),
        (''methodType'', JStr (case methodType r of None \<Rightarrow> method | Some m \<Rightarrow> m)),
        (''payoutHandler'', JStr (case payoutHandler r of None \<Rightarrow> payoutHandlerForMethod method | Some h \<Rightarrow> h))])"

text \<open>The flag says whether the caller has read the configuration already.\<close>

definition createWithdrawalResponse :: "bool \<Rightarrow> nat \<Rightarrow> string \<Rightarrow> payroll \<Rightarrow> json outcome" where
  "createWithdrawalResponse configRead i idem s =
     (case findWithdrawal i s of
        None \<Rightarrow> (Inl (OtherError ''NotFound''), s)
      | Some r \<Rightarrow>
          (case (if configRead then Inr s else andThen (getPayrollConfig s) (\<lambda>(_, s1). Inr s1)) of
             Inl e \<Rightarrow> (Inl e, s)
           | Inr s1 \<Rightarrow>
               (case resolveIdemKey idem (createResponse r) (money s1) of
                  Inl e \<Rightarrow> (Inl e, s1)
                | Inr (_, w) \<Rightarrow> (Inr (createResponse r), s1\<lparr>money := w\<rparr>))))"

definition assertRailEnabled :: "string \<Rightarrow> payroll \<Rightarrow> error + unit" where
  "assertRailEnabled method s =
     require (if method = ''EPAY'' then epayEnabled s else bankEnabled s) (AppError 403 ''PAYMENT_METHOD_DISABLED'' [])"

definition newWithdrawal ::
  "nat \<Rightarrow> wid \<Rightarrow> uid \<Rightarrow> create_params \<Rightarrow> string \<Rightarrow> withdrawal_amounts \<Rightarrow> string \<Rightarrow> int \<Rightarrow> withdrawal_row" where
  "newWithdrawal i wal u p method am idem t =
     \<lparr> wd_id = i, wd_wallet = wal, wd_user = u, amountPoints = cr_grossPoints p,
       wd_status = (if method = ''EPAY'' then PENDING_PLATFORM else PENDING), payoutRef = None,
       failReason = None, wd_notes = cr_notes p, wd_idempotencyKey = idem, requestedAt = t,
       processedAt = None, paymentMethodId = Some (cr_paymentMethodId p),
       hostPayoutUsd = Some (wa_hostPayoutUsd am), platformFeePoints = Some (wa_platformFeePoints am),
       agentRewardPoints = Some (wa_agentRewardPoints am), serviceFeePoints = Some (wa_serviceFeePoints am),
       methodType = Some method, payoutHandler = Some (payoutHandlerForMethod method),
       wd_proofS3Key = None, wd_proofS3Bucket = None, wd_waitingExpiresAt = None, assignmentCount = 0,
       disputeTicketId = None, withdrawalVersion = 2 \<rparr>"

definition insertWithdrawal :: "withdrawal_row \<Rightarrow> payroll \<Rightarrow> error + unit \<times> payroll" where
  "insertWithdrawal r s =
     (if \<exists>q\<in>set (withdrawals s). wd_id q = wd_id r \<or> wd_idempotencyKey q = wd_idempotencyKey r
      then Inl UniqueViolation else Inr ((), s\<lparr>withdrawals := withdrawals s @ [r]\<rparr>))"

definition touchLastUsed :: "nat \<Rightarrow> uid \<Rightarrow> payroll \<Rightarrow> payroll" where
  "touchLastUsed m u s =
     s\<lparr>paymentMethods := (\<lambda>k. case paymentMethods s k of
         None \<Rightarrow> None
       | Some pm \<Rightarrow> Some (if k = m \<and> pm_user pm = u then pm\<lparr>pm_lastUsedAt := Some (now s)\<rparr> else pm))\<rparr>"

text \<open>The transaction answers with the withdrawal that already carries the key, if there is one.\<close>

definition createTx ::
  "uid \<Rightarrow> create_params \<Rightarrow> string \<Rightarrow> string \<Rightarrow> withdrawal_amounts \<Rightarrow> nat \<Rightarrow> wallet_row \<Rightarrow> payroll
     \<Rightarrow> error + nat option \<times> payroll" where
  "createTx u p idem method am i wal s =
     (let s1 = s\<lparr>money := snd (lockForUpdate (wallet_id wal) (money s))\<rparr> in
      case findByClientKey idem s1 of
        Some r \<Rightarrow> Inr (Some (wd_id r), s1)
      | None \<Rightarrow>
          (let available = latestPointBalance (money s1) (wallet_id wal) - unconfirmedPoints wal in
           andThen (require (\<not> available < cr_grossPoints p)
             (insufficientPoints available (cr_grossPoints p) (unconfirmedPoints wal))) (\<lambda>_.
           andThen (debitPoints u (cr_grossPoints p) P_WITHDRAWAL True True (keyFor ''withdrawal-debit'' i) i None
             ''Withdrawal'' s1) (\<lambda>(_, s2).
           andThen (insertWithdrawal (newWithdrawal i (wallet_id wal) u p method am idem (now s2)) s2) (\<lambda>(_, s3).
           Inr (None, touchLastUsed (cr_paymentMethodId p) u s3))))))"

definition createChecks :: "uid \<Rightarrow> create_params \<Rightarrow> payroll \<Rightarrow> error + string" where
  "createChecks u p s =
     andThen (require (u \<in> set (faceIndexed s)) (AppError 403 ''FACE_NOT_INDEXED'' [])) (\<lambda>_.
     andThen (assertPointsDebitAllowed u (money s)) (\<lambda>_.
     case paymentMethods s (cr_paymentMethodId p) of
       None \<Rightarrow> Inl (AppError 404 ''NOT_FOUND'' [])
     | Some pm \<Rightarrow>
         if pm_user pm \<noteq> u then Inl (AppError 404 ''NOT_FOUND'' [])
         else
           (let method = (if pm_methodType pm = ''BANK'' then ''BANK'' else ''EPAY'') in
            andThen (assertRailEnabled method s) (\<lambda>_. Inr method))))"

definition executeCreateWithdrawal :: "uid \<Rightarrow> create_params \<Rightarrow> string \<Rightarrow> payroll \<Rightarrow> json outcome" where
  "executeCreateWithdrawal u p idem s =
     (case findByClientKey idem s of
        Some r \<Rightarrow> createWithdrawalResponse False (wd_id r) idem s
      | None \<Rightarrow>
          (case createChecks u p s of
             Inl e \<Rightarrow> (Inl e, s)
           | Inr method \<Rightarrow>
               (case getPayrollConfig s of
                  Inl e \<Rightarrow> (Inl e, s)
                | Inr (cfg, s1) \<Rightarrow>
                    (case calculateWithdrawalAmounts (cr_grossPoints p) cfg method of
                       Inl e \<Rightarrow> (Inl e, s1)
                     | Inr am \<Rightarrow>
                         (let (i, s2) = freshId s1;
                              (wal, w3) = getOrCreate u POINT (money s2);
                              s3 = s2\<lparr>money := w3\<rparr> in
                          case createTx u p idem method am i wal s3 of
                            Inl UniqueViolation \<Rightarrow>
                              (case findByClientKey idem s3 of
                                 None \<Rightarrow> (Inl UniqueViolation, s3)
                               | Some r \<Rightarrow> createWithdrawalResponse False (wd_id r) idem s3)
                          | Inl e \<Rightarrow> (Inl e, s3)
                          | Inr (Some j, s4) \<Rightarrow> createWithdrawalResponse False j idem s4
                          | Inr (None, s4) \<Rightarrow>
                              (let s5 = s4\<lparr>money := bustUnconfirmedCache u
                                     (adjustPointBalanceCache u (- cr_grossPoints p) None (money s4))\<rparr> in
                               afterwards (if method = ''BANK'' then assignToAgency noAssignOptions i s5 else (Inr (), s5))
                                 (\<lambda>_ s6. createWithdrawalResponse True i idem s6)))))))"

definition releaseIdem :: "string \<Rightarrow> payroll \<Rightarrow> payroll" where
  "releaseIdem idem s =
     (if redisUp (money s) then s\<lparr>money := (money s)\<lparr>idemKeys := (idemKeys (money s))(idem := None)\<rparr>\<rparr> else s)"

definition createWithdrawal :: "uid \<Rightarrow> create_params \<Rightarrow> payroll \<Rightarrow> json outcome" where
  "createWithdrawal u p s =
     (let idem = createIdem u p in
      case getCachedIdemResponse idem (money s) of
        Inl e \<Rightarrow> (Inl e, s)
      | Inr (Some j) \<Rightarrow> (Inr j, s)
      | Inr None \<Rightarrow>
          (case acquireIdemKey idem (money s) of
             Inl e \<Rightarrow> (Inl e, s)
           | Inr (False, _) \<Rightarrow> (Inl (AppError 409 ''IDEM_CONFLICT'' []), s)
           | Inr (True, w) \<Rightarrow>
               (case executeCreateWithdrawal u p idem (s\<lparr>money := w\<rparr>) of
                  (Inl e, s1) \<Rightarrow> (Inl e, releaseIdem idem s1)
                | (Inr j, s1) \<Rightarrow> (Inr j, s1))))"

end
