(* ===== verification/Payroll.thy ===== *)
theory Payroll
  imports Withdrawals
begin

text \<open>
  The life of a withdrawal after its creation, from \<open>src/src/services/withdrawal.service.ts\<close>: expiry and
  rejection of an assignment, proof of payment, the end of the dispute window, disputes and their
  resolution, reversal; and the jobs of \<open>src/src/jobs/payroll-sla.job.ts\<close>. The ticket that a dispute opens is the
  answer of the support service, an argument here; closing it is left out.
\<close>

section \<open>Expiry and rejection\<close>

text \<open>
  A failed attempt counts, and the withdrawal goes to the platform once the attempts are used up.
  The flag says whether it is to be assigned again. The foreign key makes the row exist.
\<close>

definition countAttempt :: "nat \<Rightarrow> payroll \<Rightarrow> bool \<times> payroll" where
  "countAttempt i s =
     (let s1 = incrementAssignmentCount i s in
      case findWithdrawal i s1 of
        None \<Rightarrow> (False, s1)
      | Some w \<Rightarrow> if assignmentCount w \<ge> maxAttempts s1 then (False, setStatus i PENDING_PLATFORM s1) else (True, s1))"

definition reassign :: "bool \<Rightarrow> nat \<Rightarrow> payroll \<Rightarrow> unit outcome" where
  "reassign again i s = (if again then assignToAgency noAssignOptions i s else (Inr (), s))"

definition processSlaExpiry :: "nat \<Rightarrow> payroll \<Rightarrow> unit outcome" where
  "processSlaExpiry a s =
     (case findAssignment a s of
        None \<Rightarrow> (Inr (), s)
      | Some asg \<Rightarrow>
          if as_status asg \<noteq> A_PENDING \<or> as_expiresAt asg > now s then (Inr (), s)
          else
            (let s1 = updateAssignment a (\<lambda>r. r\<lparr>as_status := A_EXPIRED\<rparr>) s;
                 (again, s2) = countAttempt (as_withdrawal asg) s1;
                 s3 = s2\<lparr>slaJobs := removeJob a (slaJobs s2)\<rparr>
             in reassign again (as_withdrawal asg) s3))"

text \<open>\<open>findFirst({ where: { id, agencyUserId } })\<close>\<close>

definition agentAssignment :: "uid \<Rightarrow> nat \<Rightarrow> payroll \<Rightarrow> assignment_row option" where
  "agentAssignment agent a s =
     (case findAssignment a s of None \<Rightarrow> None | Some asg \<Rightarrow> if as_agency asg = agent then Some asg else None)"

definition agentRejectPayroll :: "uid \<Rightarrow> nat \<Rightarrow> string option \<Rightarrow> payroll \<Rightarrow> unit outcome" where
  "agentRejectPayroll agent a reason s =
     (case agentAssignment agent a s of
        None \<Rightarrow> (Inl (AppError 404 ''NOT_FOUND'' []), s)
      | Some asg \<Rightarrow>
          if as_status asg = A_WAITING then (Inl (AppError 400 ''AGENT_LOCKED_OUT'' []), s)
          else if as_status asg \<noteq> A_PENDING \<or> as_expiresAt asg \<le> now s then
            (Inl (AppError 400 ''INVALID_STATE'' []), s)
          else
            (let s1 = updateAssignment a (\<lambda>r. r\<lparr>as_status := A_REJECTED, as_rejectedAt := Some (now s),
                        as_rejectionReason := reason\<rparr>) s;
                 (again, s2) = countAttempt (as_withdrawal asg) s1;
                 s3 = s2\<lparr>slaJobs := removeJob a (slaJobs s2)\<rparr>
             in reassign again (as_withdrawal asg) s3))"

section \<open>Proof of payment\<close>

text \<open>The checks in front of every proof: the key of the object, then the configuration.\<close>

definition proofChecks :: "string \<Rightarrow> nat \<Rightarrow> string \<Rightarrow> payroll \<Rightarrow> error + int \<times> payroll" where
  "proofChecks dir i proofKey s =
     (if \<not> startsWith (''payroll/proofs/'' @ dir @ show_nat i @ ''/'') proofKey then
        Inl (AppError 400 ''INVALID_PROOF_KEY'' [])
      else andThen (getPayrollConfig s) (\<lambda>(c, s1). Inr (now s1 + hoursMs (cfg_waitingHours c), s1)))"

definition agentCompletePayroll ::
  "uid \<Rightarrow> nat \<Rightarrow> string \<Rightarrow> string \<Rightarrow> payroll \<Rightarrow> (int \<times> int) outcome" where
  "agentCompletePayroll agent a proofKey bucket s =
     (case proofChecks [] a proofKey s of
        Inl e \<Rightarrow> (Inl e, s)
      | Inr (until, s1) \<Rightarrow>
          (case agentAssignment agent a s1 of
             None \<Rightarrow> (Inl (AppError 404 ''NOT_FOUND'' []), s1)
           | Some asg \<Rightarrow>
               if as_status asg = A_WAITING then (Inl (AppError 400 ''AGENT_LOCKED_OUT'' []), s1)
               else if as_status asg \<noteq> A_PENDING then (Inl (AppError 400 ''INVALID_STATE'' []), s1)
               else if as_expiresAt asg \<le> now s1 then (Inl (AppError 400 ''SLA_EXPIRED'' []), s1)
               else
                 (case findWithdrawal (as_withdrawal asg) s1 of
                    None \<Rightarrow> (Inl (OtherError ''NotFound''), s1)
                  | Some w \<Rightarrow>
                      (let s2 = updateAssignment a (\<lambda>r. r\<lparr>as_status := A_WAITING, as_proofS3Key := Some proofKey,
                                  as_proofS3Bucket := Some bucket, as_waitingExpiresAt := Some until\<rparr>) s1;
                           s3 = setStatus (as_withdrawal asg) WAITING s2;
                           s4 = s3\<lparr>slaJobs := removeJob a (slaJobs s3), waitingJobs := enqueueJob a (waitingJobs s3)\<rparr>
                       in (Inr (rewardOf w, payoutOf w), s4)))))"

definition platformProof :: "nat \<Rightarrow> string \<Rightarrow> string \<Rightarrow> int \<Rightarrow> payroll \<Rightarrow> payroll" where
  "platformProof i proofKey bucket until s =
     (let s1 = updateWithdrawal i (\<lambda>r. r\<lparr>wd_status := WAITING, wd_proofS3Key := Some proofKey,
                 wd_proofS3Bucket := Some bucket, wd_waitingExpiresAt := Some until,
                 payoutRef := Some proofKey\<rparr>) s
      in s1\<lparr>platformJobs := enqueueJob i (platformJobs s1)\<rparr>)"

definition adminCompletePlatformPayout :: "nat \<Rightarrow> string \<Rightarrow> string \<Rightarrow> payroll \<Rightarrow> (int \<times> int) outcome" where
  "adminCompletePlatformPayout i proofKey bucket s =
     (case proofChecks ''platform/'' i proofKey s of
        Inl e \<Rightarrow> (Inl e, s)
      | Inr (until, s1) \<Rightarrow>
          (case findWithdrawal i s1 of
             None \<Rightarrow> (Inl (AppError 404 ''NOT_FOUND'' []), s1)
           | Some w \<Rightarrow>
               if \<not> isPlatformHandledWithdrawal w then (Inl (AppError 400 ''EPAY_PLATFORM_PAYOUT'' []), s1)
               else if wd_status w \<noteq> PENDING_PLATFORM then (Inl (AppError 400 ''INVALID_STATE'' []), s1)
               else (Inr (payoutOf w, until), platformProof i proofKey bucket until s1)))"

definition requireCompanyAgencyUserId :: "payroll \<Rightarrow> error + uid" where
  "requireCompanyAgencyUserId s =
     (case companyAgency s of
        None \<Rightarrow> Inl (AppError 400 ''COMPANY_AGENCY_NOT_CONFIGURED'' [])
      | Some u \<Rightarrow>
          if users (money s) u = None \<or> u \<in> set (deletedUsers s) then Inl (AppError 400 ''COMPANY_AGENCY_NOT_FOUND'' [])
          else if u \<notin> set (agentUsers s) then Inl (AppError 400 ''COMPANY_AGENCY_NOT_AGENT'' [])
          else Inr u)"

definition adminCompletePayrollTakeover :: "nat \<Rightarrow> string \<Rightarrow> string \<Rightarrow> payroll \<Rightarrow> (int \<times> int \<times> uid) outcome" where
  "adminCompletePayrollTakeover i proofKey bucket s =
     (if \<not> startsWith (''payroll/proofs/takeover/'' @ show_nat i @ ''/'') proofKey then
        (Inl (AppError 400 ''INVALID_PROOF_KEY'' []), s)
      else case requireCompanyAgencyUserId s of
        Inl e \<Rightarrow> (Inl e, s)
      | Inr company \<Rightarrow>
          (case proofChecks ''takeover/'' i proofKey s of
             Inl e \<Rightarrow> (Inl e, s)
           | Inr (until, s1) \<Rightarrow>
               (case findWithdrawal i s1 of
                  None \<Rightarrow> (Inl (AppError 404 ''NOT_FOUND'' []), s1)
                | Some w \<Rightarrow>
                    if isPlatformHandledWithdrawal w then (Inl (AppError 400 ''EPAY_PLATFORM_PAYOUT'' []), s1)
                    else if wd_status w \<noteq> PENDING_PLATFORM then (Inl (AppError 400 ''INVALID_STATE'' []), s1)
                    else (Inr (payoutOf w, until, company), platformProof i proofKey bucket until s1))))"

text \<open>The assignment that carries the proof: the open one of the same agency, else a new one.\<close>

definition supersede ::
  "nat \<Rightarrow> uid \<Rightarrow> string \<Rightarrow> string \<Rightarrow> string option \<Rightarrow> int \<Rightarrow> withdrawal_row \<Rightarrow> payroll \<Rightarrow> nat \<times> payroll" where
  "supersede i agency proofKey bucket reason until w s =
     (case openAssignmentOf i s of
        None \<Rightarrow> createAssignment i agency until (assignmentCount w + 1) A_WAITING (Some (proofKey, bucket)) (Some until) s
      | Some asg \<Rightarrow>
          if as_agency asg = agency then
            (as_id asg, updateAssignment (as_id asg) (\<lambda>r. r\<lparr>as_status := A_WAITING, as_proofS3Key := Some proofKey,
               as_proofS3Bucket := Some bucket, as_waitingExpiresAt := Some until\<rparr>) s)
          else
            (let s1 = updateAssignment (as_id asg) (\<lambda>r. r\<lparr>as_status := A_REJECTED, as_rejectedAt := Some (now s),
                        as_rejectionReason := Some (''Superseded by admin manual completion for a different agency''
                          @ (case reason of None \<Rightarrow> [] | Some x \<Rightarrow> if x = [] then [] else '': '' @ x))\<rparr>) s;
                 s2 = incrementAssignmentCount i s1
             in createAssignment i agency until (assignmentCount w + 2) A_WAITING (Some (proofKey, bucket)) (Some until) s2))"

definition adminCompletePayrollForAgency ::
  "nat \<Rightarrow> uid \<Rightarrow> string \<Rightarrow> string \<Rightarrow> string option \<Rightarrow> payroll \<Rightarrow> (nat \<times> int \<times> int \<times> int) outcome" where
  "adminCompletePayrollForAgency i agency proofKey bucket reason s =
     (case proofChecks ''admin-manual/'' i proofKey s of
        Inl e \<Rightarrow> (Inl e, s)
      | Inr (until, s1) \<Rightarrow>
          (case findWithdrawal i s1 of
             None \<Rightarrow> (Inl (AppError 404 ''NOT_FOUND'' []), s1)
           | Some w \<Rightarrow>
               if isPlatformHandledWithdrawal w then (Inl (AppError 400 ''EPAY_PLATFORM_PAYOUT'' []), s1)
               else if wd_status w \<noteq> PENDING \<and> wd_status w \<noteq> PENDING_PLATFORM then
                 (Inl (AppError 400 ''INVALID_STATE'' []), s1)
               else if agency = wd_user w then (Inl (AppError 400 ''PAYROLL_SELF_ASSIGN_FORBIDDEN'' []), s1)
               else if \<not> payrollOk agency s1 then (Inl (AppError 400 ''PAYROLL_AGENCY_INELIGIBLE'' []), s1)
               else
                 (let (a, s2) = supersede i agency proofKey bucket reason until w s1;
                      s3 = setStatus i WAITING (touchAgencyPayrollTimestamp agency s2);
                      stale = (case openAssignmentOf i s1 of
                                 Some asg \<Rightarrow> if as_status asg = A_PENDING then removeJob (as_id asg) (slaJobs s3) else slaJobs s3
                               | None \<Rightarrow> slaJobs s3);
                      s4 = s3\<lparr>slaJobs := stale, waitingJobs := enqueueJob a (waitingJobs s3)\<rparr>
                  in (Inr (a, rewardOf w, payoutOf w, until), s4))))"

text \<open>Correcting the proof of a payment; \<open>assignedAt desc\<close> takes the latest assignment of the agency.\<close>

definition latestOfAgency :: "nat \<Rightarrow> uid \<Rightarrow> payroll \<Rightarrow> assignment_row option" where
  "latestOfAgency i agency s =
     (case filter (\<lambda>a. as_withdrawal a = i \<and> as_agency a = agency) (assignments s) of
        [] \<Rightarrow> None
      | a # as \<Rightarrow> Some (foldl (\<lambda>b c. if as_assignedAt b < as_assignedAt c then c else b) a as))"

definition adminUpdatePayrollProof ::
  "nat \<Rightarrow> nat option \<Rightarrow> uid option \<Rightarrow> string \<Rightarrow> string \<Rightarrow> payroll \<Rightarrow> nat option outcome" where
  "adminUpdatePayrollProof i asgId agency proofKey bucket s =
     (if \<not> startsWith (''payroll/proofs/admin-edit/'' @ show_nat i @ ''/'') proofKey then
        (Inl (AppError 400 ''INVALID_PROOF_KEY'' []), s)
      else if findWithdrawal i s = None then (Inl (AppError 404 ''NOT_FOUND'' []), s)
      else
        (let edit = (\<lambda>a. updateAssignment a (\<lambda>r. r\<lparr>as_proofS3Key := Some proofKey, as_proofS3Bucket := Some bucket\<rparr>) s) in
         case asgId of
           Some a \<Rightarrow>
             (case findAssignment a s of
                None \<Rightarrow> (Inl (AppError 404 ''NOT_FOUND'' []), s)
              | Some asg \<Rightarrow>
                  if as_withdrawal asg \<noteq> i then (Inl (AppError 404 ''NOT_FOUND'' []), s) else (Inr (Some a), edit a))
         | None \<Rightarrow>
             (case agency of
                Some u \<Rightarrow>
                  (case latestOfAgency i u s of
                     None \<Rightarrow> (Inl (AppError 404 ''NOT_FOUND'' []), s)
                   | Some asg \<Rightarrow> (Inr (Some (as_id asg)), edit (as_id asg)))
              | None \<Rightarrow>
                  (Inr None, updateWithdrawal i (\<lambda>r. r\<lparr>wd_proofS3Key := Some proofKey, wd_proofS3Bucket := Some bucket\<rparr>) s))))"

section \<open>The end of the dispute window\<close>

definition creditIfPositive ::
  "uid \<Rightarrow> int \<Rightarrow> PointTxType \<Rightarrow> string \<Rightarrow> nat \<Rightarrow> uid option \<Rightarrow> string \<Rightarrow> payroll \<Rightarrow> error + unit \<times> payroll" where
  "creditIfPositive u amt tt key i cp desc s =
     (if amt > 0 then creditPoints u amt tt key i cp desc s else Inr ((), s))"

text \<open>
  Assignment completed, withdrawal paid, the agency credited, and for withdrawals of the old soft
  escrow the host debited. Shared by the automatic end and by a dispute settled for the agent.
\<close>

definition settleAssignment ::
  "assignment_row \<Rightarrow> withdrawal_row \<Rightarrow> string \<Rightarrow> payroll \<Rightarrow> error + unit \<times> payroll" where
  "settleAssignment asg w suffix s =
     (let a = as_id asg; i = wd_id w; agent = as_agency asg; host = wd_user w;
          s1 = updateAssignment a (\<lambda>r. r\<lparr>as_status := A_COMPLETED, as_completedAt := Some (now s)\<rparr>) s;
          s2 = updateWithdrawal i (\<lambda>r. r\<lparr>wd_status := PAID, processedAt := Some (now s),
                 payoutRef := (case as_proofS3Key asg of None \<Rightarrow> payoutRef r | Some k \<Rightarrow> Some k)\<rparr>) s1 in
      andThen (creditIfPositive agent (payoutOf w) P_PAYROLL_HOST_PAYOUT (keyFor ''payroll-host-payout'' a) i (Some host)
        (''Payroll host payout'' @ suffix) s2) (\<lambda>(_, s3).
      andThen (creditIfPositive agent (rewardOf w) P_PAYROLL_PROCESSING_REWARD (keyFor ''payroll-reward'' a) i (Some host)
        (''Payroll processing reward'' @ suffix) s3) (\<lambda>(_, s4).
      if posted (keyFor ''withdrawal-escrow'' i) s4 \<and> \<not> posted (keyFor ''withdrawal-debit'' i) s4 then
        andThen (debitPoints host (amountPoints w) P_WITHDRAWAL_ESCROW_SETTLED False False (keyFor ''withdrawal-settled'' a) i
          (Some agent) (''Withdrawal escrow settled'' @ suffix) s4) (\<lambda>(_, s5).
        Inr ((), releaseUnconfirmed host (amountPoints w) s5))
      else Inr ((), s4))))"

definition windowOpen :: "int option \<Rightarrow> payroll \<Rightarrow> bool" where
  "windowOpen until s \<longleftrightarrow> (case until of None \<Rightarrow> False | Some t \<Rightarrow> t > now s)"

definition autoCompleteWaiting :: "nat \<Rightarrow> payroll \<Rightarrow> unit outcome" where
  "autoCompleteWaiting a s =
     (case findAssignment a s of
        None \<Rightarrow> (Inr (), s)
      | Some asg \<Rightarrow>
          (case findWithdrawal (as_withdrawal asg) s of
             None \<Rightarrow> (Inr (), s)
           | Some w \<Rightarrow>
               afterwards (transact (\<lambda>s.
                 if as_status asg \<noteq> A_WAITING \<or> windowOpen (as_waitingExpiresAt asg) s then Inr ((), s)
                 else settleAssignment asg w [] s) s) (\<lambda>_ s1.
               (Inr (), dropUnconfirmedCache (wd_user w) (dropPointCaches (wd_user w) (dropPointCaches (as_agency asg)
                  (s1\<lparr>waitingJobs := removeJob a (waitingJobs s1)\<rparr>)))))))"

definition processWaitingAutoComplete :: "nat \<Rightarrow> payroll \<Rightarrow> unit outcome" where
  "processWaitingAutoComplete a s =
     (case findAssignment a s of
        None \<Rightarrow> (Inr (), s)
      | Some asg \<Rightarrow>
          if as_status asg \<noteq> A_WAITING \<or> windowOpen (as_waitingExpiresAt asg) s then (Inr (), s)
          else autoCompleteWaiting a s)"

definition markPaid :: "nat \<Rightarrow> payroll \<Rightarrow> payroll" where
  "markPaid i s = updateWithdrawal i (\<lambda>r. r\<lparr>wd_status := PAID, processedAt := Some (now s),
     payoutRef := (case wd_proofS3Key r of None \<Rightarrow> payoutRef r | Some k \<Rightarrow> Some k)\<rparr>) s"

text \<open>One cash entry per withdrawal and reason.\<close>

definition recordCompanyCash :: "CompanyCashReason \<Rightarrow> withdrawal_row \<Rightarrow> payroll \<Rightarrow> payroll" where
  "recordCompanyCash reason w s =
     (if (\<exists>c\<in>set (companyCash s). cash_withdrawal c = wd_id w \<and> cash_reason c = reason) then s
      else case hostPayoutUsd w of
        None \<Rightarrow> s
      | Some usd \<Rightarrow>
          if usd > 0 then
            s\<lparr>companyCash := companyCash s @ [\<lparr> cash_reason = reason, cash_amountUsd = usd, cash_units = payoutOf w,
                cash_user = wd_user w, cash_withdrawal = wd_id w \<rparr>]\<rparr>
          else s)"

definition autoCompletePlatformWaiting :: "nat \<Rightarrow> payroll \<Rightarrow> unit outcome" where
  "autoCompletePlatformWaiting i s =
     (case findWithdrawal i s of
        None \<Rightarrow> (Inr (), s)
      | Some w \<Rightarrow>
          if wd_status w \<noteq> WAITING \<or> \<not> isPlatformHandledWithdrawal w \<or> windowOpen (wd_waitingExpiresAt w) s then (Inr (), s)
          else
            (let s1 = markPaid i s in
             (Inr (), recordCompanyCash EPAY_PAYOUT w (s1\<lparr>platformJobs := removeJob i (platformJobs s1)\<rparr>))))"

definition autoCompleteTakeoverWaiting :: "nat \<Rightarrow> payroll \<Rightarrow> unit outcome" where
  "autoCompleteTakeoverWaiting i s =
     (case findWithdrawal i s of
        None \<Rightarrow> (Inr (), s)
      | Some w \<Rightarrow>
          if wd_status w \<noteq> WAITING \<or> isPlatformHandledWithdrawal w \<or> windowOpen (wd_waitingExpiresAt w) s then (Inr (), s)
          else case requireCompanyAgencyUserId s of
            Inl e \<Rightarrow> (Inl e, s)
          | Inr company \<Rightarrow>
              afterwards (transact (\<lambda>s.
                andThen (creditIfPositive company (payoutOf w) P_PAYROLL_TAKEOVER_INVENTORY (keyFor ''payroll-takeover'' i) i
                  (Some (wd_user w)) ''Payroll takeover inventory'' (markPaid i s)) (\<lambda>(_, s2).
                creditIfPositive company (rewardOf w) P_PAYROLL_PROCESSING_REWARD (keyFor ''payroll-takeover-reward'' i) i
                  (Some (wd_user w)) ''Payroll takeover processing reward'' s2)) s) (\<lambda>_ s3.
              (Inr (), recordCompanyCash PAYROLL_TAKEOVER_PAYOUT w
                 (dropPointCaches company (s3\<lparr>platformJobs := removeJob i (platformJobs s3)\<rparr>)))))"

definition processPlatformWaitingAutoComplete :: "nat \<Rightarrow> payroll \<Rightarrow> unit outcome" where
  "processPlatformWaitingAutoComplete i s =
     (case findWithdrawal i s of
        None \<Rightarrow> (Inr (), s)
      | Some w \<Rightarrow>
          if wd_status w \<noteq> WAITING \<or> windowOpen (wd_waitingExpiresAt w) s then (Inr (), s)
          else if isPlatformHandledWithdrawal w then autoCompletePlatformWaiting i s
          else autoCompleteTakeoverWaiting i s)"

section \<open>Disputes\<close>

text \<open>30 days in milliseconds; \<open>setDate\<close> keeps the time of day, on a host in UTC.\<close>

definition DISPUTE_WINDOW_MS :: int where
  "DISPUTE_WINDOW_MS = 30 * 24 * 60 * 60 * 1000"

definition disputeAllowed :: "withdrawal_row \<Rightarrow> bool \<Rightarrow> payroll \<Rightarrow> error + unit" where
  "disputeAllowed w waiting s =
     (let isWaitingPeriod = ((wd_status w = PENDING \<or> wd_status w = WAITING) \<and> waiting
            \<or> wd_status w = WAITING \<and> isPlatformHandledWithdrawal w) in
      if wd_status w \<noteq> PAID \<and> \<not> isWaitingPeriod then Inl (AppError 400 ''INVALID_STATE'' [])
      else if wd_status w = PAID then
        (case processedAt w of
           None \<Rightarrow> Inl (AppError 400 ''INVALID_STATE'' [])
         | Some t \<Rightarrow> require (\<not> now s > t + DISPUTE_WINDOW_MS) (AppError 400 ''DISPUTE_WINDOW_EXPIRED'' []))
      else Inr ())"

definition disputeWithdrawal :: "uid \<Rightarrow> nat \<Rightarrow> (error + string) \<Rightarrow> payroll \<Rightarrow> string outcome" where
  "disputeWithdrawal host i ticket s =
     (case findWithdrawal i s of
        None \<Rightarrow> (Inl (AppError 404 ''NOT_FOUND'' []), s)
      | Some w \<Rightarrow>
          if wd_user w \<noteq> host then (Inl (AppError 404 ''NOT_FOUND'' []), s)
          else if disputeTicketId w \<noteq> None then (Inl (AppError 409 ''DISPUTE_ALREADY_RAISED'' []), s)
          else
            (let waiting = waitingAssignmentOf i s in
             case disputeAllowed w (waiting \<noteq> None) s of
               Inl e \<Rightarrow> (Inl e, s)
             | Inr _ \<Rightarrow>
                 (case ticket of
                    Inl e \<Rightarrow> (Inl e, s)
                  | Inr t \<Rightarrow>
                      (let s1 = updateWithdrawal i (\<lambda>r. r\<lparr>wd_status := DISPUTED, disputeTicketId := Some t\<rparr>) s;
                           s2 = (case waiting of
                                   None \<Rightarrow> s1
                                 | Some asg \<Rightarrow> s1\<lparr>waitingJobs := removeJob (as_id asg) (waitingJobs s1)\<rparr>);
                           s3 = (if wd_status w = WAITING \<and> isPlatformHandledWithdrawal w
                                 then s2\<lparr>platformJobs := removeJob i (platformJobs s2)\<rparr> else s2)
                       in (Inr t, s3)))))"

definition adminResolvePlatformDisputePaid :: "nat \<Rightarrow> payroll \<Rightarrow> unit outcome" where
  "adminResolvePlatformDisputePaid i s =
     (case findWithdrawal i s of
        None \<Rightarrow> (Inl (AppError 404 ''NOT_FOUND'' []), s)
      | Some w \<Rightarrow>
          if wd_status w \<noteq> DISPUTED \<or> \<not> isPlatformHandledWithdrawal w then (Inl (AppError 400 ''INVALID_STATE'' []), s)
          else
            (let s1 = updateWithdrawal i (\<lambda>r. r\<lparr>disputeTicketId := None, failReason := None\<rparr>) (markPaid i s) in
             (Inr (), s1\<lparr>platformJobs := removeJob i (platformJobs s1)\<rparr>)))"

definition adminResolvePlatformDisputeRefund :: "nat \<Rightarrow> string \<Rightarrow> payroll \<Rightarrow> unit outcome" where
  "adminResolvePlatformDisputeRefund i reason s =
     (case findWithdrawal i s of
        None \<Rightarrow> (Inl (AppError 404 ''NOT_FOUND'' []), s)
      | Some w \<Rightarrow>
          if wd_status w \<noteq> DISPUTED \<or> \<not> isPlatformHandledWithdrawal w then (Inl (AppError 400 ''INVALID_STATE'' []), s)
          else
            afterwards (transact (\<lambda>s.
              andThen (if posted (keyFor ''withdrawal-debit'' i) s
                       then creditPoints (wd_user w) (amountPoints w) P_WITHDRAWAL_REFUND (keyFor ''withdrawal-refund'' i) i None
                              (''Withdrawal dispute refund: '' @ reason) s
                       else Inr ((), s)) (\<lambda>(_, s1).
              Inr ((), updateWithdrawal i (\<lambda>r. r\<lparr>wd_status := FAILED, failReason := Some reason,
                         disputeTicketId := None\<rparr>) s1))) s) (\<lambda>_ s2.
            (Inr (), dropPointCaches (wd_user w) (s2\<lparr>platformJobs := removeJob i (platformJobs s2)\<rparr>))))"

definition adminResolveDisputeFavourAgent :: "nat \<Rightarrow> string \<Rightarrow> payroll \<Rightarrow> unit outcome" where
  "adminResolveDisputeFavourAgent i reason s =
     (case findWithdrawal i s of
        None \<Rightarrow> (Inl (AppError 404 ''NOT_FOUND'' []), s)
      | Some w \<Rightarrow>
          if wd_status w \<noteq> DISPUTED then (Inl (AppError 400 ''INVALID_STATE'' []), s)
          else if isPlatformHandledWithdrawal w then adminResolvePlatformDisputePaid i s
          else case waitingAssignmentOf i s of
            None \<Rightarrow> (Inl (AppError 404 ''NOT_FOUND'' []), s)
          | Some asg \<Rightarrow>
              afterwards (transact (\<lambda>s.
                andThen (settleAssignment asg w ('' (admin: '' @ reason @ '')'') s) (\<lambda>(_, s1).
                Inr ((), updateWithdrawal i (\<lambda>r. r\<lparr>disputeTicketId := None, failReason := None\<rparr>) s1))) s) (\<lambda>_ s2.
              (Inr (), dropUnconfirmedCache (wd_user w) (dropPointCaches (wd_user w) (dropPointCaches (as_agency asg)
                 (s2\<lparr>waitingJobs := removeJob (as_id asg) (waitingJobs s2)\<rparr>))))))"

text \<open>
  The credits of an assignment are taken back when they were made; the debit ignores the
  unconfirmed points and asks for the freeze flag.
\<close>

definition takeBack ::
  "uid \<Rightarrow> int \<Rightarrow> string \<Rightarrow> string \<Rightarrow> nat \<Rightarrow> nat \<Rightarrow> string \<Rightarrow> payroll \<Rightarrow> error + unit \<times> payroll" where
  "takeBack agent amt key revKey a i desc s =
     (if amt > 0 \<and> posted (keyFor key a) s
      then debitPoints agent amt P_ADJUSTMENT False True (keyFor revKey a) i None desc s
      else Inr ((), s))"

definition takeBackCredits ::
  "assignment_row \<Rightarrow> withdrawal_row \<Rightarrow> string \<Rightarrow> payroll \<Rightarrow> error + unit \<times> payroll" where
  "takeBackCredits asg w suffix s =
     andThen (takeBack (as_agency asg) (payoutOf w) ''payroll-host-payout'' ''payroll-host-payout-reversal'' (as_id asg)
       (wd_id w) (''Payroll host payout reversal'' @ suffix) s) (\<lambda>(_, s1).
     takeBack (as_agency asg) (rewardOf w) ''payroll-reward'' ''payroll-reward-reversal'' (as_id asg)
       (wd_id w) (''Payroll reward reversal'' @ suffix) s1)"

definition adminResolveDisputeFavourHost :: "nat \<Rightarrow> string \<Rightarrow> uid option \<Rightarrow> payroll \<Rightarrow> unit outcome" where
  "adminResolveDisputeFavourHost i reason overrideId s =
     (case findWithdrawal i s of
        None \<Rightarrow> (Inl (AppError 404 ''NOT_FOUND'' []), s)
      | Some w \<Rightarrow>
          if wd_status w \<noteq> DISPUTED then (Inl (AppError 400 ''INVALID_STATE'' []), s)
          else if isPlatformHandledWithdrawal w then adminResolvePlatformDisputeRefund i reason s
          else case waitingAssignmentOf i s of
            None \<Rightarrow> (Inl (AppError 404 ''NOT_FOUND'' []), s)
          | Some asg \<Rightarrow>
              afterwards (transact (\<lambda>s.
                andThen (takeBackCredits asg w ('': '' @ reason) s) (\<lambda>(_, s1).
                let s2 = updateAssignment (as_id asg) (\<lambda>r. r\<lparr>as_status := A_REJECTED, as_rejectedAt := Some (now s),
                           as_rejectionReason := Some reason\<rparr>) s1
                in Inr ((), updateWithdrawal i (\<lambda>r. r\<lparr>wd_status := PENDING, disputeTicketId := None,
                              assignmentCount := assignmentCount r + 1\<rparr>) s2))) s) (\<lambda>_ s3.
              assignToAgency \<lparr> overrideAgencyUserId = Some (case overrideId of None \<Rightarrow> as_agency asg | Some u \<Rightarrow> u),
                  allowBeyondAssignmentCap = True, rejectOnIneligibleOverride = False, ignoreCountryMatch = False \<rparr> i
                (dropPointCaches (as_agency asg) (s3\<lparr>waitingJobs := removeJob (as_id asg) (waitingJobs s3)\<rparr>))))"

section \<open>Reversal\<close>

definition REVERSIBLE :: "WithdrawalStatus list" where
  "REVERSIBLE = [PAID, DISPUTED, PENDING, PENDING_PLATFORM, WAITING]"

definition ADMIN_WITHDRAWAL_REVERT_MAX_AGE_MS :: int where
  "ADMIN_WITHDRAWAL_REVERT_MAX_AGE_MS = 4 * 24 * 60 * 60 * 1000"

definition isAdminWithdrawalRevertable :: "WithdrawalStatus \<Rightarrow> int option \<Rightarrow> int \<Rightarrow> bool" where
  "isAdminWithdrawalRevertable st processed t \<longleftrightarrow>
     st \<in> set REVERSIBLE
     \<and> (case processed of None \<Rightarrow> True | Some p \<Rightarrow> t - p \<le> ADMIN_WITHDRAWAL_REVERT_MAX_AGE_MS)"

definition reverseTx ::
  "withdrawal_row \<Rightarrow> string \<Rightarrow> assignment_row option \<Rightarrow> assignment_row option \<Rightarrow> payroll \<Rightarrow> error + unit \<times> payroll" where
  "reverseTx w reason creditAssignment openAsg s =
     (let i = wd_id w; hardDebit = posted (keyFor ''withdrawal-debit'' i) s;
          softEscrow = posted (keyFor ''withdrawal-escrow'' i) s; wasSettled = (wd_status w = PAID) in
      andThen (if hardDebit \<or> wasSettled \<or> withdrawalVersion w \<noteq> 2
               then creditPoints (wd_user w) (amountPoints w) P_WITHDRAWAL_REFUND (keyFor ''withdrawal-refund'' i) i None
                      (''Withdrawal reversal: '' @ reason) s
               else Inr ((), s)) (\<lambda>(_, s1).
      let s2 = (if softEscrow \<and> \<not> wasSettled then releaseUnconfirmed (wd_user w) (amountPoints w) s1 else s1) in
      andThen (case creditAssignment of
                 None \<Rightarrow> Inr ((), s2)
               | Some asg \<Rightarrow> takeBackCredits asg w ('' for withdrawal '' @ show_nat i) s2) (\<lambda>(_, s3).
      let s4 = (case openAsg of
                  None \<Rightarrow> s3
                | Some asg \<Rightarrow> updateAssignment (as_id asg) (\<lambda>r. r\<lparr>as_status := A_EXPIRED,
                    as_rejectionReason := Some (''Withdrawal reversed: '' @ reason)\<rparr>) s3)
      in Inr ((), updateWithdrawal i (\<lambda>r. r\<lparr>wd_status := FAILED, failReason := Some reason\<rparr>) s4))))"

text \<open>The assignment whose credits are taken back: the waiting one, else the completed one.\<close>

definition creditAssignmentOf :: "nat \<Rightarrow> payroll \<Rightarrow> assignment_row option" where
  "creditAssignmentOf i s =
     (case findWaitingByWithdrawalId i s of Some a \<Rightarrow> Some a | None \<Rightarrow> findCompletedForWithdrawal i s)"

definition dropReversedJobs :: "withdrawal_row \<Rightarrow> assignment_row option \<Rightarrow> payroll \<Rightarrow> payroll" where
  "dropReversedJobs w openAsg s =
     (let s1 = (case openAsg of
                  None \<Rightarrow> s
                | Some asg \<Rightarrow> s\<lparr>slaJobs := removeJob (as_id asg) (slaJobs s),
                    waitingJobs := (if as_status asg = A_WAITING then removeJob (as_id asg) (waitingJobs s) else waitingJobs s)\<rparr>)
      in if isPlatformHandledWithdrawal w then s1\<lparr>platformJobs := removeJob (wd_id w) (platformJobs s1)\<rparr> else s1)"

definition adminReverseWithdrawal :: "nat \<Rightarrow> string \<Rightarrow> bool \<Rightarrow> payroll \<Rightarrow> unit outcome" where
  "adminReverseWithdrawal i reason bypassAgeLimit s =
     (case findWithdrawal i s of
        None \<Rightarrow> (Inl (AppError 404 ''NOT_FOUND'' []), s)
      | Some w \<Rightarrow>
          if wd_status w = FAILED then (Inr (), s)
          else if wd_status w \<notin> set REVERSIBLE then (Inl (AppError 400 ''INVALID_STATE'' []), s)
          else if \<not> bypassAgeLimit \<and> \<not> isAdminWithdrawalRevertable (wd_status w) (processedAt w) (now s) then
            (Inl (AppError 400 ''WITHDRAWAL_REVERT_WINDOW_EXPIRED'' []), s)
          else
            (let creditAsg = creditAssignmentOf i s; openAsg = openAssignmentOf i s in
             afterwards (transact (reverseTx w reason creditAsg openAsg) s) (\<lambda>_ s1.
             let s2 = dropUnconfirmedCache (wd_user w) (dropPointCaches (wd_user w) (dropReversedJobs w openAsg s1)) in
             (Inr (), case creditAsg of None \<Rightarrow> s2 | Some asg \<Rightarrow> dropPointCaches (as_agency asg) s2))))"

text \<open>
  The rows in the order of \<open>requestedAt\<close>; the first failure ends the loop. The dash of the reason is
  written as a hyphen.
\<close>

fun cancelLoop :: "nat list \<Rightarrow> nat list \<Rightarrow> payroll \<Rightarrow> nat list outcome" where
  "cancelLoop [] cancelled s = (Inr cancelled, s)"
| "cancelLoop (i # is) cancelled s =
     afterwards (adminReverseWithdrawal i ''Points frozen by admin - withdrawal cancelled and escrow released'' True s)
       (\<lambda>_ s1. cancelLoop is (cancelled @ [i]) s1)"

definition cancelUnsettledWithdrawalsForPointsFreeze :: "uid \<Rightarrow> payroll \<Rightarrow> nat list outcome" where
  "cancelUnsettledWithdrawalsForPointsFreeze u s =
     cancelLoop (map wd_id (sort_key requestedAt (filter (\<lambda>r. wd_user r = u
        \<and> wd_status r \<in> {PENDING, PENDING_PLATFORM, KYC_CHECK, APPROVED, PROCESSING, WAITING}) (withdrawals s)))) [] s"

section \<open>The safety net\<close>

text \<open>
  Overdue work is enqueued again, 200 rows of each kind; adding a job whose id is queued changes
  nothing. Stuck withdrawals come in the order of the table (\<open>updated_at\<close> is not kept); a failed
  assignment is ignored.
\<close>

definition listStuckPendingNoOpenAssignment :: "payroll \<Rightarrow> nat list" where
  "listStuckPendingNoOpenAssignment s =
     map wd_id (filter (\<lambda>r. wd_status r = PENDING \<and> \<not> isPlatformHandledWithdrawal r
       \<and> openAssignmentOf (wd_id r) s = None) (withdrawals s))"

definition runPayrollSlaSafetyNet :: "payroll \<Rightarrow> payroll" where
  "runPayrollSlaSafetyNet s =
     (let overdue = map as_id (sort_key as_expiresAt
            (filter (\<lambda>a. as_status a = A_PENDING \<and> as_expiresAt a < now s) (assignments s)));
          overduePlatform = map wd_id (sort_key (\<lambda>r. the (wd_waitingExpiresAt r)) (filter (\<lambda>r. wd_status r = WAITING
            \<and> (case wd_waitingExpiresAt r of None \<Rightarrow> False | Some t \<Rightarrow> t < now s)
            \<and> (isPlatformHandledWithdrawal r \<or> payoutHandler r = Some ''AGENCY'' \<and> wd_proofS3Key r \<noteq> None)) (withdrawals s)));
          s1 = s\<lparr>slaJobs := foldl (\<lambda>js a. enqueueJob a js) (slaJobs s) (take 200 overdue),
                 platformJobs := foldl (\<lambda>js i. enqueueJob i js) (platformJobs s) (take 200 overduePlatform)\<rparr>
      in foldl (\<lambda>s i. snd (assignToAgency noAssignOptions i s)) s1 (take 200 (listStuckPendingNoOpenAssignment s1)))"

end
