(* ===== verification/PayrollAccounts.thy ===== *)
theory PayrollAccounts
  imports Payroll
begin

text \<open>
  The account of a withdrawal: what its rows in the point ledger add up to. Every row that the
  payroll service posts refers to its withdrawal, so the sum says who has the points. The invariant
  ties that sum to the status of the withdrawal and is kept by every operation.
\<close>

section \<open>Keys and sums\<close>

type_synonym point_rows = "PointTxType ledger_entry list"

definition keyIn :: "string \<Rightarrow> point_rows \<Rightarrow> bool" where
  "keyIn k L \<longleftrightarrow> k \<in> idempotencyKey ` set L"

definition net :: "nat \<Rightarrow> point_rows \<Rightarrow> int" where
  "net i L = sum_list (map pointDelta (filter (\<lambda>e. refId e = Some (show_nat i)) L))"

lemma keyIn_append [simp]: "keyIn k (L @ M) \<longleftrightarrow> keyIn k L \<or> keyIn k M"
  by (auto simp: keyIn_def)

lemma keyIn_Cons [simp]: "keyIn k (e # L) \<longleftrightarrow> k = idempotencyKey e \<or> keyIn k L" "\<not> keyIn k []"
  by (auto simp: keyIn_def)

lemma net_append [simp]: "net i (L @ M) = net i L + net i M"
  by (simp add: net_def)

lemma net_Cons [simp]: "net i (e # L) = (if refId e = Some (show_nat i) then pointDelta e else 0) + net i L" "net i [] = 0"
  by (simp_all add: net_def)

lemma posted_keyIn: "posted k s \<longleftrightarrow> keyIn k (pointLedger (money s))"
  by (auto simp: posted_def keyIn_def findByIdempotencyKey_def find_None_set)

text \<open>The prefixes of the keys that belong to a withdrawal and to an assignment.\<close>

definition withdrawalPrefixes :: "string list" where
  "withdrawalPrefixes = [''withdrawal-debit'', ''withdrawal-escrow'', ''withdrawal-refund'', ''payroll-takeover'',
     ''payroll-takeover-reward'']"

definition assignmentPrefixes :: "string list" where
  "assignmentPrefixes = [''payroll-host-payout'', ''payroll-reward'', ''payroll-host-payout-reversal'',
     ''payroll-reward-reversal'', ''withdrawal-settled'']"

lemma keyFor_inject:
  assumes "CHR '':'' \<notin> set p" "CHR '':'' \<notin> set q"
  shows "keyFor p i = keyFor q j \<longleftrightarrow> p = q \<and> i = j"
proof
  have tw: "takeWhile (\<lambda>c. c \<noteq> CHR '':'') (keyFor r n) = r" if "CHR '':'' \<notin> set r" for r n
    unfolding keyFor_def using that by (subst takeWhile_append2) auto
  assume eq: "keyFor p i = keyFor q j"
  with tw [OF assms(1), of i] tw [OF assms(2), of j] have "p = q" by simp
  with eq show "p = q \<and> i = j" by (simp add: keyFor_def)
qed simp

lemma prefix_no_colon: "p \<in> set (withdrawalPrefixes @ assignmentPrefixes) \<Longrightarrow> CHR '':'' \<notin> set p"
  unfolding withdrawalPrefixes_def assignmentPrefixes_def by auto

lemma keyFor_eq:
  "p \<in> set (withdrawalPrefixes @ assignmentPrefixes) \<Longrightarrow> q \<in> set (withdrawalPrefixes @ assignmentPrefixes)
    \<Longrightarrow> keyFor p i = keyFor q j \<longleftrightarrow> p = q \<and> i = j"
  by (rule keyFor_inject) (rule prefix_no_colon, assumption)+

lemma prefixes_mem [simp]:
  "''withdrawal-debit'' \<in> set withdrawalPrefixes" "''withdrawal-escrow'' \<in> set withdrawalPrefixes"
  "''withdrawal-refund'' \<in> set withdrawalPrefixes" "''payroll-takeover'' \<in> set withdrawalPrefixes"
  "''payroll-takeover-reward'' \<in> set withdrawalPrefixes" "''payroll-host-payout'' \<in> set assignmentPrefixes"
  "''payroll-reward'' \<in> set assignmentPrefixes" "''payroll-host-payout-reversal'' \<in> set assignmentPrefixes"
  "''payroll-reward-reversal'' \<in> set assignmentPrefixes" "''withdrawal-settled'' \<in> set assignmentPrefixes"
  by (simp_all add: withdrawalPrefixes_def assignmentPrefixes_def)

lemma prefixes_disjoint: "p \<in> set withdrawalPrefixes \<Longrightarrow> p \<notin> set assignmentPrefixes"
  by (auto simp: withdrawalPrefixes_def assignmentPrefixes_def)

lemma key_not_commission: "p \<in> set (withdrawalPrefixes @ assignmentPrefixes) \<Longrightarrow> keyFor p i \<noteq> commissionKey j"
  unfolding withdrawalPrefixes_def assignmentPrefixes_def keyFor_def commissionKey_def by auto

section \<open>Posting a row\<close>

text \<open>One row for withdrawal \<open>i\<close> under a key; the tables of the service and the clock stay.\<close>

definition posts :: "nat \<Rightarrow> string \<Rightarrow> int \<Rightarrow> payroll \<Rightarrow> payroll \<Rightarrow> bool" where
  "posts i key d s s' \<longleftrightarrow> (\<exists>e. pointLedger (money s') = pointLedger (money s) @ [e] \<and> idempotencyKey e = key
       \<and> refId e = Some (show_nat i) \<and> pointDelta e = d)
     \<and> s' = s\<lparr>money := money s'\<rparr> \<and> nextId (money s) \<le> nextId (money s') \<and> clock (money s') = clock (money s)"

lemma pointEntry_refId [simp]: "refId (pointEntry i dir tt amt bal opts) = p_refId opts"
  by (simp add: pointEntry_def)

lemma payOptions_fields [simp]:
  "p_idempotencyKey (payOptions key i cp desc) = key" "p_refId (payOptions key i cp desc) = Some (show_nat i)"
  "p_applyLivestreamLevel (payOptions key i cp desc) = False"
  by (simp_all add: payOptions_def)

lemma onHostPointCredit_keeps:
  "pointLedger (onHostPointCredit u amt t day w) = pointLedger w" "nextId (onHostPointCredit u amt t day w) = nextId w"
  "clock (onHostPointCredit u amt t day w) = clock w"
  using onHostPointCredit_frame [of w u amt t day] by (auto simp: rankFrame_def)

lemma counter_keeps [simp]:
  "nextId (snd (lockForUpdate i w)) = nextId w" "clock (snd (lockForUpdate i w)) = clock w"
  "nextId (enqueuePlatformLedgerMessage k j w) = nextId w" "clock (enqueuePlatformLedgerMessage k j w) = clock w"
  by (simp_all add: lockForUpdate_def enqueuePlatformLedgerMessage_def)

lemma getOrCreate_next: "getOrCreate u c w = (wl, w1) \<Longrightarrow> nextId w \<le> nextId w1"
  by (auto simp: getOrCreate_def Let_def split: option.splits)

lemma posts_insert:
  assumes g: "getOrCreate u POINT (money s) = (wl, w1)"
    and ins: "pointInsert d (snd (lockForUpdate j w1)) = Inr (e, w3)"
    and d: "idempotencyKey d = key" "refId d = Some (show_nat i)" "pointDelta d = x"
    and s': "s' = s\<lparr>money := w'\<rparr>" "pointLedger w' = pointLedger w3" "nextId w' = nextId w3" "clock w' = clock w3"
  shows "posts i key x s s'"
proof -
  have "pointLedger w3 = pointLedger (money s) @ [e]" "e = d\<lparr>entry_id := nextId w1, createdAt := clock w1\<rparr>"
    "nextId w3 = Suc (nextId w1)" "clock w3 = clock (money s)"
    using ins by (simp_all add: pointInsert_Inr getOrCreate_keeps [OF g])
  then show ?thesis using d s' getOrCreate_next [OF g] unfolding posts_def by (intro conjI exI [of _ e]) simp_all
qed

lemma creditPoints_posts:
  assumes run: "creditPoints u amt tt key i cp desc s = Inr ((), s')" and fresh: "\<not> posted key s"
    and tt: "tt \<in> {P_WITHDRAWAL_REFUND, P_PAYROLL_HOST_PAYOUT, P_PAYROLL_PROCESSING_REWARD, P_PAYROLL_TAKEOVER_INVENTORY}"
  shows "posts i key amt s s'"
proof -
  have free: "findByIdempotencyKey (pointLedger (money s)) key = None" using fresh by (simp add: posted_def)
  obtain wl w1 where g: "getOrCreate u POINT (money s) = (wl, w1)" by fastforce
  let ?w2 = "snd (lockForUpdate (wallet_id wl) w1)"
  let ?d = "pointEntry (wallet_id wl) CREDIT tt amt (latestPointBalance ?w2 (wallet_id wl) + amt) (payOptions key i cp desc)"
  have com: "commissionStep applyCommission u j amt tt w = Inr (None, w)" for j w
    using tt by (auto simp: commissionStep_def)
  from run obtain e w3 where ins: "pointInsert ?d ?w2 = Inr (e, w3)"
    and s': "s' = s\<lparr>money := enqueuePlatformLedgerMessage ''point'' (entry_id e) (onHostPointCredit u amt tt
        (utcDayFromTimestamp (clock w3)) (enqueuePlatformLedgerMessage ''point'' (entry_id e) (bumpVersion (wallet_id wl) w3)))\<rparr>"
    by (auto simp: creditPoints_def onMoney_def creditInTransaction_def creditWith_def g free com Let_def andThen_Inr_iff
      livestreamStep_def)
  show ?thesis
    by (rule posts_insert [OF g ins _ _ _ s']) (use tt in \<open>auto simp: onHostPointCredit_keeps\<close>)
qed

lemma debitPoints_posts:
  assumes run: "debitPoints u amt tt avail frz key i cp desc s = Inr ((), s')" and fresh: "\<not> posted key s"
    and tt: "tt \<noteq> P_WITHDRAWAL_ESCROW"
  shows "posts i key (- amt) s s'"
proof -
  have free: "findByIdempotencyKey (pointLedger (money s)) key = None" using fresh by (simp add: posted_def)
  obtain wl w1 where g: "getOrCreate u POINT (money s) = (wl, w1)" by fastforce
  let ?w2 = "snd (lockForUpdate (wallet_id wl) w1)"
  let ?d = "pointEntry (wallet_id wl) DEBIT tt amt (latestPointBalance ?w2 (wallet_id wl) - amt) (payOptions key i cp desc)"
  from run obtain e w3 where ins: "pointInsert ?d ?w2 = Inr (e, w3)"
    and s': "s' = s\<lparr>money := enqueuePlatformLedgerMessage ''point'' (entry_id e) (bumpVersion (wallet_id wl) w3)\<rparr>"
    by (auto simp: debitPoints_def onMoney_def pointDebit_def g free Let_def andThen_Inr_iff)
  show ?thesis
    by (rule posts_insert [OF g ins _ _ _ s']) (use tt in auto)
qed

text \<open>Under a key that is in the ledger nothing happens.\<close>

lemma creditPoints_replay: "creditPoints u amt tt key i cp desc s = Inr ((), s') \<Longrightarrow> posted key s \<Longrightarrow> s' = s"
  by (auto simp: creditPoints_def onMoney_def creditInTransaction_def creditWith_def posted_def andThen_Inr_iff)

lemma debitPoints_replay: "debitPoints u amt tt avail frz key i cp desc s = Inr ((), s') \<Longrightarrow> posted key s \<Longrightarrow> s' = s"
  by (auto simp: debitPoints_def onMoney_def pointDebit_def posted_def andThen_Inr_iff)

section \<open>The account and its invariant\<close>

abbreviation asgs :: "nat \<Rightarrow> payroll \<Rightarrow> assignment_row list" where
  "asgs i s \<equiv> filter (\<lambda>a. as_withdrawal a = i) (assignments s)"

abbreviation pointRows :: "payroll \<Rightarrow> point_rows" where
  "pointRows s \<equiv> pointLedger (money s)"

definition creditOf :: "withdrawal_row \<Rightarrow> int" where
  "creditOf r = (if isPlatformHandledWithdrawal r then 0 else max 0 (payoutOf r) + max 0 (rewardOf r))"

definition takenOver :: "withdrawal_row \<Rightarrow> bool" where
  "takenOver r \<longleftrightarrow> \<not> isPlatformHandledWithdrawal r \<and> wd_waitingExpiresAt r \<noteq> None"

text \<open>
  What the rows of a withdrawal add up to: the amount is gone while it is open; once paid, the agency
  or the company has its payout and reward (nobody, for a payout by the platform); after a reversal
  everything is undone, but for the credits of the company, which a reversal does not take back.
\<close>

definition accountDue :: "withdrawal_row \<Rightarrow> int" where
  "accountDue r =
     (if wd_status r = FAILED then (if takenOver r \<and> processedAt r \<noteq> None then creditOf r else 0)
      else if processedAt r \<noteq> None then creditOf r - amountPoints r
      else - amountPoints r)"

definition isOpen :: "assignment_row \<Rightarrow> bool" where
  "isOpen a \<longleftrightarrow> as_status a = A_PENDING \<or> as_status a = A_WAITING"

definition isLive :: "assignment_row \<Rightarrow> bool" where
  "isLive a \<longleftrightarrow> isOpen a \<or> as_status a = A_COMPLETED"

definition asgOk :: "point_rows \<Rightarrow> withdrawal_row \<Rightarrow> assignment_row \<Rightarrow> bool" where
  "asgOk L r a \<longleftrightarrow>
     (keyIn (keyFor ''payroll-host-payout'' (as_id a)) L \<longleftrightarrow> as_status a = A_COMPLETED \<and> 0 < payoutOf r)
   \<and> (keyIn (keyFor ''payroll-reward'' (as_id a)) L \<longleftrightarrow> as_status a = A_COMPLETED \<and> 0 < rewardOf r)
   \<and> (keyIn (keyFor ''payroll-host-payout-reversal'' (as_id a)) L \<longrightarrow> wd_status r = FAILED)
   \<and> (keyIn (keyFor ''payroll-reward-reversal'' (as_id a)) L \<longrightarrow> wd_status r = FAILED)
   \<and> (isLive a \<longrightarrow> \<not> isPlatformHandledWithdrawal r \<and> wd_waitingExpiresAt r = None)
   \<and> (as_status a = A_COMPLETED \<longrightarrow> processedAt r \<noteq> None)
   \<and> (isOpen a \<longrightarrow> processedAt r = None \<and> wd_status r \<in> {PENDING, WAITING, DISPUTED})
   \<and> (as_status a = A_PENDING \<longrightarrow> wd_status r = PENDING)"

definition keysOk :: "point_rows \<Rightarrow> withdrawal_row \<Rightarrow> bool" where
  "keysOk L r \<longleftrightarrow>
     keyIn (keyFor ''withdrawal-debit'' (wd_id r)) L \<and> \<not> keyIn (keyFor ''withdrawal-escrow'' (wd_id r)) L
   \<and> (keyIn (keyFor ''withdrawal-refund'' (wd_id r)) L \<longrightarrow> wd_status r = FAILED)
   \<and> (keyIn (keyFor ''payroll-takeover'' (wd_id r)) L \<longrightarrow> processedAt r \<noteq> None)
   \<and> (keyIn (keyFor ''payroll-takeover-reward'' (wd_id r)) L \<longrightarrow> processedAt r \<noteq> None)"

definition statusOk :: "assignment_row list \<Rightarrow> withdrawal_row \<Rightarrow> bool" where
  "statusOk A r \<longleftrightarrow>
     (processedAt r \<noteq> None \<longrightarrow> wd_status r \<in> {PAID, DISPUTED, FAILED})
   \<and> (wd_status r = PAID \<longrightarrow> processedAt r \<noteq> None)
   \<and> (wd_waitingExpiresAt r \<noteq> None \<longrightarrow> wd_status r \<in> {WAITING, PAID, DISPUTED, FAILED})
   \<and> (processedAt r \<noteq> None \<and> \<not> isPlatformHandledWithdrawal r \<and> wd_waitingExpiresAt r = None
        \<longrightarrow> (\<exists>a\<in>set A. as_status a = A_COMPLETED))"

definition oneLive :: "assignment_row list \<Rightarrow> bool" where
  "oneLive A \<longleftrightarrow> (\<forall>a\<in>set A. \<forall>b\<in>set A. isLive a \<and> isLive b \<longrightarrow> as_id a = as_id b)"

definition rowOk :: "point_rows \<Rightarrow> assignment_row list \<Rightarrow> withdrawal_row \<Rightarrow> bool" where
  "rowOk L A r \<longleftrightarrow> net (wd_id r) L = accountDue r \<and> keysOk L r \<and> statusOk A r \<and> oneLive A \<and> (\<forall>a\<in>set A. asgOk L r a)"

definition payrollInv :: "payroll \<Rightarrow> bool" where
  "payrollInv s \<longleftrightarrow>
     distinct (map wd_id (withdrawals s)) \<and> distinct (map as_id (assignments s))
   \<and> (\<forall>r\<in>set (withdrawals s). wd_id r < nextId (money s))
   \<and> (\<forall>a\<in>set (assignments s). as_id a < nextId (money s) \<and> as_withdrawal a < nextId (money s))
   \<and> (\<forall>n\<ge>nextId (money s). net n (pointRows s) = 0
        \<and> (\<forall>p\<in>set (withdrawalPrefixes @ assignmentPrefixes). \<not> keyIn (keyFor p n) (pointRows s)))
   \<and> (\<forall>j\<in>set (platformJobs s). j < nextId (money s))
   \<and> (\<forall>r\<in>set (withdrawals s). wd_id r \<in> set (platformJobs s) \<longrightarrow> wd_waitingExpiresAt r \<noteq> None)
   \<and> (\<forall>r\<in>set (withdrawals s). rowOk (pointRows s) (asgs (wd_id r) s) r)"

section \<open>Operations on one withdrawal\<close>

text \<open>A row that belongs to withdrawal \<open>i\<close> or to one of its assignments.\<close>

definition ownRow :: "nat \<Rightarrow> nat set \<Rightarrow> PointTxType ledger_entry \<Rightarrow> bool" where
  "ownRow i As e \<longleftrightarrow> refId e = Some (show_nat i)
     \<and> (\<exists>p n. idempotencyKey e = keyFor p n
          \<and> (p \<in> set withdrawalPrefixes \<and> n = i \<or> p \<in> set assignmentPrefixes \<and> n \<in> As))"

definition asgIdsOk :: "payroll \<Rightarrow> bool" where
  "asgIdsOk s \<longleftrightarrow> distinct (map as_id (assignments s)) \<and> (\<forall>a\<in>set (assignments s). as_id a < nextId (money s))"

text \<open>What an operation on withdrawal \<open>i\<close> may do to the state.\<close>

definition edits :: "nat \<Rightarrow> payroll \<Rightarrow> payroll \<Rightarrow> bool" where
  "edits i s s' \<longleftrightarrow>
     map wd_id (withdrawals s') = map wd_id (withdrawals s)
   \<and> (\<forall>r\<in>set (withdrawals s'). wd_id r \<noteq> i \<longrightarrow> r \<in> set (withdrawals s))
   \<and> (\<forall>j. j \<noteq> i \<longrightarrow> asgs j s' = asgs j s)
   \<and> (asgIdsOk s \<longrightarrow> asgIdsOk s')
   \<and> as_id ` set (asgs i s) \<subseteq> as_id ` set (asgs i s')
   \<and> (\<exists>rows. pointRows s' = pointRows s @ rows \<and> (\<forall>e\<in>set rows. ownRow i (as_id ` set (asgs i s')) e))
   \<and> nextId (money s) \<le> nextId (money s')
   \<and> set (platformJobs s') \<subseteq> insert i (set (platformJobs s))"

lemma edits_refl [simp]: "edits i s s"
  unfolding edits_def by (auto intro: exI [of _ "[]"])

lemma ownRow_mono: "ownRow i As e \<Longrightarrow> As \<subseteq> Bs \<Longrightarrow> ownRow i Bs e"
  by (auto simp: ownRow_def)

lemma edits_trans:
  assumes ab: "edits i a b" and bc: "edits i b c"
  shows "edits i a c"
proof -
  have "set (platformJobs c) \<subseteq> insert i (set (platformJobs a))" using ab bc by (auto simp: edits_def)
  moreover have sub: "as_id ` set (asgs i b) \<subseteq> as_id ` set (asgs i c)" using bc by (simp add: edits_def)
  obtain xs ys where "pointRows b = pointRows a @ xs" "\<forall>e\<in>set xs. ownRow i (as_id ` set (asgs i b)) e"
    "pointRows c = pointRows b @ ys" "\<forall>e\<in>set ys. ownRow i (as_id ` set (asgs i c)) e"
    using ab bc unfolding edits_def by (elim conjE exE) rule
  then have "\<exists>rows. pointRows c = pointRows a @ rows \<and> (\<forall>e\<in>set rows. ownRow i (as_id ` set (asgs i c)) e)"
    using ownRow_mono [OF _ sub] by (intro exI [of _ "xs @ ys"]) auto
  moreover have "\<forall>r\<in>set (withdrawals c). wd_id r \<noteq> i \<longrightarrow> r \<in> set (withdrawals a)" using ab bc by (auto simp: edits_def)
  moreover have "nextId (money a) \<le> nextId (money c)" "as_id ` set (asgs i a) \<subseteq> as_id ` set (asgs i c)"
    using ab bc sub unfolding edits_def by (meson order.trans)+
  ultimately show ?thesis
    using ab bc unfolding edits_def by simp
qed

text \<open>Other withdrawals do not see the rows.\<close>

lemma ownRow_net: "ownRow i As e \<Longrightarrow> j \<noteq> i \<Longrightarrow> refId e \<noteq> Some (show_nat j)"
  by (auto simp: ownRow_def)

lemma own_rows_net: "\<forall>e\<in>set rows. ownRow i As e \<Longrightarrow> j \<noteq> i \<Longrightarrow> net j rows = 0"
  by (induction rows) (auto dest: ownRow_net)

lemma own_rows_key:
  assumes "\<forall>e\<in>set rows. ownRow i As e" "keyIn (keyFor p n) rows" "p \<in> set (withdrawalPrefixes @ assignmentPrefixes)"
  shows "if p \<in> set withdrawalPrefixes then n = i else n \<in> As"
proof -
  from assms(2) obtain e where e: "e \<in> set rows" "idempotencyKey e = keyFor p n" by (auto simp: keyIn_def)
  with assms(1) obtain q m where q: "keyFor p n = keyFor q m"
    "q \<in> set withdrawalPrefixes \<and> m = i \<or> q \<in> set assignmentPrefixes \<and> m \<in> As" unfolding ownRow_def by metis
  then have "p = q \<and> n = m" using keyFor_eq [OF assms(3), of q n m] by auto
  with q(2) show ?thesis using prefixes_disjoint by auto
qed

lemma rowOk_other:
  assumes ok: "rowOk L A r" and own: "\<forall>e\<in>set rows. ownRow i As e" and ne: "wd_id r \<noteq> i"
    and dis: "\<forall>a\<in>set A. as_id a \<notin> As"
  shows "rowOk (L @ rows) A r"
proof -
  have w: "\<not> keyIn (keyFor p (wd_id r)) rows" if "p \<in> set withdrawalPrefixes" for p
    using own_rows_key [OF own] that ne by auto
  have a: "\<not> keyIn (keyFor p (as_id a)) rows" if "p \<in> set assignmentPrefixes" "a \<in> set A" for p a
    using own_rows_key [OF own, of p "as_id a"] that dis prefixes_disjoint [of p] by (auto split: if_splits)
  have "asgOk (L @ rows) r b" if "b \<in> set A" for b
    using ok that a [OF _ that] by (simp add: rowOk_def asgOk_def)
  then show ?thesis
    using ok w own_rows_net [OF own ne] by (simp add: rowOk_def keysOk_def)
qed

lemma asgs_ids_disjoint:
  assumes "distinct (map as_id (assignments s))" "j \<noteq> i" "a \<in> set (asgs j s)"
  shows "as_id a \<notin> as_id ` set (asgs i s)"
proof
  assume "as_id a \<in> as_id ` set (asgs i s)"
  then obtain b where "b \<in> set (assignments s)" "as_withdrawal b = i" "as_id b = as_id a" by auto
  with assms show False by (auto simp: distinct_map dest: inj_onD)
qed

lemma edits_keep_inv:
  assumes inv: "payrollInv s" and ed: "edits i s s'" and i: "i < nextId (money s)"
    and row: "\<And>r. r \<in> set (withdrawals s') \<Longrightarrow> wd_id r = i \<Longrightarrow> rowOk (pointRows s') (asgs i s') r
        \<and> (i \<in> set (platformJobs s') \<longrightarrow> wd_waitingExpiresAt r \<noteq> None)"
  shows "payrollInv s'"
proof -
  obtain rows where L: "pointRows s' = pointRows s @ rows" and own: "\<forall>e\<in>set rows. ownRow i (as_id ` set (asgs i s')) e"
    using ed by (auto simp: edits_def)
  have n: "nextId (money s) \<le> nextId (money s')" using ed by (simp add: edits_def)
  have ids: "distinct (map as_id (assignments s'))" "\<forall>a\<in>set (assignments s'). as_id a < nextId (money s')"
    using ed inv by (auto simp: edits_def payrollInv_def asgIdsOk_def)
  have fresh: "net m (pointRows s') = 0 \<and> (\<forall>p\<in>set (withdrawalPrefixes @ assignmentPrefixes). \<not> keyIn (keyFor p m) (pointRows s'))"
    if m: "nextId (money s') \<le> m" for m
  proof -
    have "m \<noteq> i" "m \<notin> as_id ` set (asgs i s')" using i n m ids(2) by auto
    then have "net m rows = 0" "p \<in> set (withdrawalPrefixes @ assignmentPrefixes) \<Longrightarrow> \<not> keyIn (keyFor p m) rows" for p
      using own_rows_net [OF own] own_rows_key [OF own, of p m] by (auto split: if_splits)
    then show ?thesis using inv m n unfolding payrollInv_def L by (auto simp del: set_append)
  qed
  have other: "rowOk (pointRows s') (asgs (wd_id r) s') r" if r: "r \<in> set (withdrawals s')" "wd_id r \<noteq> i" for r
  proof -
    have eq: "asgs (wd_id r) s' = asgs (wd_id r) s" and "r \<in> set (withdrawals s)" using ed r by (auto simp: edits_def)
    then have "rowOk (pointRows s) (asgs (wd_id r) s) r" using inv by (simp add: payrollInv_def)
    then show ?thesis
      unfolding L eq by (rule rowOk_other [OF _ own r(2)]) (metis eq ids(1) asgs_ids_disjoint r(2))
  qed
  have wds: "\<forall>r\<in>set (withdrawals s'). wd_id r < nextId (money s')" "distinct (map wd_id (withdrawals s'))"
  proof -
    have "wd_id ` set (withdrawals s') = wd_id ` set (withdrawals s)" using ed by (metis edits_def list.set_map)
    then show "\<forall>r\<in>set (withdrawals s'). wd_id r < nextId (money s')"
      using inv n unfolding payrollInv_def by (metis (mono_tags, lifting) image_iff order.strict_trans2)
    show "distinct (map wd_id (withdrawals s'))" using ed inv by (simp add: edits_def payrollInv_def)
  qed
  have own_wd: "as_withdrawal a < nextId (money s')" if a: "a \<in> set (assignments s')" for a
  proof (cases "as_withdrawal a = i")
    case False
    then have "asgs (as_withdrawal a) s' = asgs (as_withdrawal a) s" using ed by (simp add: edits_def)
    moreover have "a \<in> set (asgs (as_withdrawal a) s')" using a by simp
    ultimately have "a \<in> set (asgs (as_withdrawal a) s)" by metis
    then show ?thesis using inv n by (fastforce simp: payrollInv_def)
  qed (use i n in simp)
  have jobs: "wd_id r \<in> set (platformJobs s') \<longrightarrow> wd_waitingExpiresAt r \<noteq> None" if "r \<in> set (withdrawals s')" for r
    using that row [OF that] ed inv by (cases "wd_id r = i") (auto simp: edits_def payrollInv_def)
  have queued: "j < nextId (money s')" if "j \<in> set (platformJobs s')" for j
  proof -
    have "j = i \<or> j \<in> set (platformJobs s)" using ed that by (auto simp: edits_def)
    then have "j < nextId (money s)" using i inv by (auto simp: payrollInv_def)
    then show ?thesis using n by simp
  qed
  have rows: "rowOk (pointRows s') (asgs (wd_id r) s') r" if r: "r \<in> set (withdrawals s')" for r
    using other [OF r] row [OF r] by (cases "wd_id r = i") simp_all
  show ?thesis
    unfolding payrollInv_def
    by (intro conjI ballI allI impI) (fact ids wds | rule wds(1) [rule_format] ids(2) [rule_format] own_wd rows queued
      jobs [rule_format] conjunct1 [OF fresh] conjunct2 [OF fresh, rule_format], assumption+)+
qed

text \<open>The rows of a state, seen from one withdrawal.\<close>

lemma modify_set: "x \<in> set (modify key i f xs) \<longleftrightarrow> (\<exists>y\<in>set xs. x = (if key y = i then f y else y))"
  unfolding modify_def set_map image_iff ..

lemma modify_ids: "(\<And>r. key (f r) = key r) \<Longrightarrow> map key (modify key i f xs) = map key xs"
  by (auto simp: modify_def)

lemma modify_other: "(\<And>r. key (f r) = key r) \<Longrightarrow> (\<And>r. P (f r) = P r) \<Longrightarrow> (\<And>r. r \<in> set xs \<Longrightarrow> key r = i \<Longrightarrow> \<not> P r)
    \<Longrightarrow> filter P (modify key i f xs) = filter P xs"
  by (induction xs) (auto simp: modify_def)

lemma modify_filter: "(\<And>r. P (f r) = P r) \<Longrightarrow> filter P (modify key i f xs) = modify key i f (filter P xs)"
  by (induction xs) (auto simp: modify_def)

lemma findWithdrawal_mem: "findWithdrawal i s = Some r \<Longrightarrow> r \<in> set (withdrawals s) \<and> wd_id r = i"
  by (auto simp: findWithdrawal_def fetch_def dest: find_Some_mem)

lemma findAssignment_mem: "findAssignment a s = Some x \<Longrightarrow> x \<in> set (assignments s) \<and> as_id x = a"
  by (auto simp: findAssignment_def fetch_def dest: find_Some_mem)

lemma find_distinct:
  "distinct (map key xs) \<Longrightarrow> find (\<lambda>r. key r = i) xs = Some r \<longleftrightarrow> r \<in> set xs \<and> key r = i"
  by (induction xs) (auto simp: image_iff)

lemma fetch_modify: "(\<And>r. key (f r) = key r) \<Longrightarrow> fetch key (modify key i f xs) i = map_option f (fetch key xs i)"
  unfolding fetch_def modify_def by (induction xs) auto

lemma fetch_modify_other: "(\<And>r. key (f r) = key r) \<Longrightarrow> j \<noteq> i \<Longrightarrow> fetch key (modify key i f xs) j = fetch key xs j"
  unfolding fetch_def modify_def by (induction xs) auto

lemma update_frame [simp]:
  "withdrawals (updateAssignment a g s) = withdrawals s" "assignments (updateWithdrawal i f s) = assignments s"
  "money (updateAssignment a g s) = money s" "money (updateWithdrawal i f s) = money s"
  "platformJobs (updateAssignment a g s) = platformJobs s" "platformJobs (updateWithdrawal i f s) = platformJobs s"
  "configRow (updateAssignment a g s) = configRow s" "configRow (updateWithdrawal i f s) = configRow s"
  "slaJobs (updateAssignment a g s) = slaJobs s" "slaJobs (updateWithdrawal i f s) = slaJobs s"
  "waitingJobs (updateAssignment a g s) = waitingJobs s" "waitingJobs (updateWithdrawal i f s) = waitingJobs s"
  by (simp_all add: updateAssignment_def updateWithdrawal_def)

lemma findWithdrawal_cong: "withdrawals s' = withdrawals s \<Longrightarrow> findWithdrawal i s' = findWithdrawal i s"
  by (simp add: findWithdrawal_def)

lemma findWithdrawal_update:
  "(\<And>r. wd_id (f r) = wd_id r) \<Longrightarrow> findWithdrawal i (updateWithdrawal i f s) = map_option f (findWithdrawal i s)"
  by (simp add: findWithdrawal_def updateWithdrawal_def fetch_modify)

lemma asgs_update:
  "(\<And>r. as_withdrawal (g r) = as_withdrawal r) \<Longrightarrow> asgs i (updateAssignment a g s) = modify as_id a g (asgs i s)"
  by (simp add: updateAssignment_def modify_filter)

lemma keep_inv:
  assumes inv: "payrollInv s" and r: "findWithdrawal i s = Some r" and ed: "edits i s s'"
    and r': "findWithdrawal i s' = Some r'" and ok: "rowOk (pointRows s') (asgs i s') r'"
    and job: "i \<in> set (platformJobs s') \<Longrightarrow> wd_waitingExpiresAt r' \<noteq> None"
  shows "payrollInv s'"
proof (rule edits_keep_inv [OF inv ed])
  show "i < nextId (money s)" using findWithdrawal_mem [OF r] inv by (auto simp: payrollInv_def)
  fix q assume q: "q \<in> set (withdrawals s')" "wd_id q = i"
  have "distinct (map wd_id (withdrawals s'))" using inv ed by (simp add: payrollInv_def edits_def)
  then have "findWithdrawal i s' = Some q" using q find_distinct [of wd_id "withdrawals s'" i q]
    by (simp add: findWithdrawal_def fetch_def)
  with r' ok job show "rowOk (pointRows s') (asgs i s') q \<and> (i \<in> set (platformJobs s') \<longrightarrow> wd_waitingExpiresAt q \<noteq> None)" by simp
qed

lemma edits_frame:
  assumes "withdrawals s' = withdrawals s" "assignments s' = assignments s" "pointRows s' = pointRows s"
    "nextId (money s) \<le> nextId (money s')" "set (platformJobs s') \<subseteq> insert i (set (platformJobs s))"
  shows "edits i s s'"
proof -
  have "asgIdsOk s \<longrightarrow> asgIdsOk s'" using assms(2,4) by (auto simp: asgIdsOk_def)
  with assms show ?thesis unfolding edits_def by auto
qed

lemma edits_updateWithdrawal: "(\<And>r. wd_id (f r) = wd_id r) \<Longrightarrow> edits i s (updateWithdrawal i f s)"
  unfolding edits_def by (auto simp: updateWithdrawal_def modify_ids modify_set asgIdsOk_def)

lemma edits_updateAssignment:
  assumes g: "\<And>r. as_id (g r) = as_id r" "\<And>r. as_withdrawal (g r) = as_withdrawal r"
    and own: "\<And>x. x \<in> set (assignments s) \<Longrightarrow> as_id x = a \<Longrightarrow> as_withdrawal x = i"
  shows "edits i s (updateAssignment a g s)"
proof -
  have ids: "map as_id (assignments (updateAssignment a g s)) = map as_id (assignments s)"
    by (simp add: updateAssignment_def modify_ids g)
  then have "as_id ` set (assignments (updateAssignment a g s)) = as_id ` set (assignments s)" by (metis list.set_map)
  then have "asgIdsOk s \<longrightarrow> asgIdsOk (updateAssignment a g s)"
    unfolding asgIdsOk_def ids by (metis (no_types, lifting) image_iff update_frame(3))
  moreover have "asgs j (updateAssignment a g s) = asgs j s" if "j \<noteq> i" for j
    unfolding updateAssignment_def using that own g by (simp, intro modify_other) auto
  moreover have "map as_id (asgs i (updateAssignment a g s)) = map as_id (asgs i s)"
    unfolding asgs_update [OF g(2)] by (rule modify_ids) (rule g)
  then have "as_id ` set (asgs i (updateAssignment a g s)) = as_id ` set (asgs i s)" by (metis list.set_map)
  ultimately show ?thesis unfolding edits_def by (simp add: subset_insertI)
qed

lemma createAssignment_views:
  assumes "createAssignment i ag ex nr st pr we s = (a, s')"
  shows "a = nextId (money s)" "withdrawals s' = withdrawals s" "pointRows s' = pointRows s" "platformJobs s' = platformJobs s"
    "nextId (money s') = Suc (nextId (money s))" "slaJobs s' = slaJobs s" "waitingJobs s' = waitingJobs s"
    "\<exists>x. assignments s' = assignments s @ [x] \<and> as_id x = nextId (money s) \<and> as_withdrawal x = i \<and> as_status x = st"
  using assms by (auto simp: createAssignment_def freshId_def Let_def)

lemma edits_createAssignment:
  assumes c: "createAssignment i ag ex nr st pr we s = (a, s')"
  shows "edits i s s'"
proof -
  note v = createAssignment_views [OF c]
  obtain x where x: "assignments s' = assignments s @ [x]" "as_id x = nextId (money s)" "as_withdrawal x = i"
    using v(8) by blast
  have "asgIdsOk s \<longrightarrow> asgIdsOk s'" using x v by (auto simp: asgIdsOk_def)
  then show ?thesis unfolding edits_def using x v by (simp add: subset_insertI)
qed

lemma posts_views:
  assumes "posts i key d s s'"
  shows "withdrawals s' = withdrawals s" "assignments s' = assignments s" "platformJobs s' = platformJobs s"
    "slaJobs s' = slaJobs s" "waitingJobs s' = waitingJobs s" "configRow s' = configRow s" "companyCash s' = companyCash s"
    "now s' = now s"
    "net i (pointRows s') = net i (pointRows s) + d" "keyIn k (pointRows s') \<longleftrightarrow> keyIn k (pointRows s) \<or> k = key"
proof -
  have e: "s' = s\<lparr>money := money s'\<rparr>" "clock (money s') = clock (money s)" using assms by (simp_all add: posts_def)
  show "withdrawals s' = withdrawals s" "assignments s' = assignments s" "platformJobs s' = platformJobs s"
    "slaJobs s' = slaJobs s" "waitingJobs s' = waitingJobs s" "configRow s' = configRow s" "companyCash s' = companyCash s"
    "now s' = now s"
    by (subst e, simp add: now_def e(2))+
  show "net i (pointRows s') = net i (pointRows s) + d" "keyIn k (pointRows s') \<longleftrightarrow> keyIn k (pointRows s) \<or> k = key"
    using assms unfolding posts_def by auto
qed

lemma edits_posts:
  assumes p: "posts i key d s s'"
    and key: "\<exists>p n. key = keyFor p n \<and> (p \<in> set withdrawalPrefixes \<and> n = i \<or> p \<in> set assignmentPrefixes \<and> n \<in> as_id ` set (asgs i s))"
  shows "edits i s s'"
proof -
  note v = posts_views [OF p]
  obtain e where e: "pointRows s' = pointRows s @ [e]" "idempotencyKey e = key" "refId e = Some (show_nat i)"
    and n: "nextId (money s) \<le> nextId (money s')" using p by (auto simp: posts_def)
  have "ownRow i (as_id ` set (asgs i s')) e" using key e v by (simp add: ownRow_def)
  moreover have "asgIdsOk s \<longrightarrow> asgIdsOk s'" using v n by (auto simp: asgIdsOk_def)
  ultimately show ?thesis unfolding edits_def using v e n by auto
qed

end
