(* ===== verification/PayrollAssign.thy ===== *)
theory PayrollAssign
  imports PayrollAccounts
begin

text \<open>
  How the account of one withdrawal changes, and that assigning a withdrawal to an agency keeps the
  invariant of all accounts.
\<close>

section \<open>Changes of one row\<close>

text \<open>What was agreed at the creation stays.\<close>

lemma terms_update [simp]:
  "payoutOf (r\<lparr>wd_status := x0\<rparr>) = payoutOf r" "rewardOf (r\<lparr>wd_status := x0\<rparr>) = rewardOf r"
  "isPlatformHandledWithdrawal (r\<lparr>wd_status := x0\<rparr>) = isPlatformHandledWithdrawal r" "creditOf (r\<lparr>wd_status := x0\<rparr>) = creditOf r"
  "payoutOf (r\<lparr>payoutRef := x1\<rparr>) = payoutOf r" "rewardOf (r\<lparr>payoutRef := x1\<rparr>) = rewardOf r"
  "isPlatformHandledWithdrawal (r\<lparr>payoutRef := x1\<rparr>) = isPlatformHandledWithdrawal r" "creditOf (r\<lparr>payoutRef := x1\<rparr>) = creditOf r"
  "payoutOf (r\<lparr>failReason := x2\<rparr>) = payoutOf r" "rewardOf (r\<lparr>failReason := x2\<rparr>) = rewardOf r"
  "isPlatformHandledWithdrawal (r\<lparr>failReason := x2\<rparr>) = isPlatformHandledWithdrawal r" "creditOf (r\<lparr>failReason := x2\<rparr>) = creditOf r"
  "payoutOf (r\<lparr>processedAt := x3\<rparr>) = payoutOf r" "rewardOf (r\<lparr>processedAt := x3\<rparr>) = rewardOf r"
  "isPlatformHandledWithdrawal (r\<lparr>processedAt := x3\<rparr>) = isPlatformHandledWithdrawal r" "creditOf (r\<lparr>processedAt := x3\<rparr>) = creditOf r"
  "payoutOf (r\<lparr>wd_proofS3Key := x4\<rparr>) = payoutOf r" "rewardOf (r\<lparr>wd_proofS3Key := x4\<rparr>) = rewardOf r"
  "isPlatformHandledWithdrawal (r\<lparr>wd_proofS3Key := x4\<rparr>) = isPlatformHandledWithdrawal r" "creditOf (r\<lparr>wd_proofS3Key := x4\<rparr>) = creditOf r"
  "payoutOf (r\<lparr>wd_proofS3Bucket := x5\<rparr>) = payoutOf r" "rewardOf (r\<lparr>wd_proofS3Bucket := x5\<rparr>) = rewardOf r"
  "isPlatformHandledWithdrawal (r\<lparr>wd_proofS3Bucket := x5\<rparr>) = isPlatformHandledWithdrawal r" "creditOf (r\<lparr>wd_proofS3Bucket := x5\<rparr>) = creditOf r"
  "payoutOf (r\<lparr>wd_waitingExpiresAt := x6\<rparr>) = payoutOf r" "rewardOf (r\<lparr>wd_waitingExpiresAt := x6\<rparr>) = rewardOf r"
  "isPlatformHandledWithdrawal (r\<lparr>wd_waitingExpiresAt := x6\<rparr>) = isPlatformHandledWithdrawal r" "creditOf (r\<lparr>wd_waitingExpiresAt := x6\<rparr>) = creditOf r"
  "payoutOf (r\<lparr>assignmentCount := x7\<rparr>) = payoutOf r" "rewardOf (r\<lparr>assignmentCount := x7\<rparr>) = rewardOf r"
  "isPlatformHandledWithdrawal (r\<lparr>assignmentCount := x7\<rparr>) = isPlatformHandledWithdrawal r" "creditOf (r\<lparr>assignmentCount := x7\<rparr>) = creditOf r"
  "payoutOf (r\<lparr>disputeTicketId := x8\<rparr>) = payoutOf r" "rewardOf (r\<lparr>disputeTicketId := x8\<rparr>) = rewardOf r"
  "isPlatformHandledWithdrawal (r\<lparr>disputeTicketId := x8\<rparr>) = isPlatformHandledWithdrawal r" "creditOf (r\<lparr>disputeTicketId := x8\<rparr>) = creditOf r"
  by (simp_all add: payoutOf_def rewardOf_def isPlatformHandledWithdrawal_def creditOf_def)

lemma keysOk_change:
  assumes "keysOk L r" "wd_id r' = wd_id r" "wd_status r = FAILED \<Longrightarrow> wd_status r' = FAILED"
    "processedAt r \<noteq> None \<Longrightarrow> processedAt r' \<noteq> None"
  shows "keysOk L r'"
  using assms unfolding keysOk_def by metis

lemma asgOk_dead:
  assumes "asgOk L r z" "as_id y = as_id z" "as_status z \<noteq> A_COMPLETED" "\<not> isLive y"
    "wd_status r = FAILED \<Longrightarrow> wd_status r' = FAILED"
  shows "asgOk L r' y"
  using assms unfolding asgOk_def isLive_def isOpen_def by metis

lemma asgOk_live:
  assumes "asgOk L r z" "as_id y = as_id z" "as_status y = as_status z" "payoutOf r' = payoutOf r" "rewardOf r' = rewardOf r"
    "wd_status r = FAILED \<Longrightarrow> wd_status r' = FAILED" "isPlatformHandledWithdrawal r' = isPlatformHandledWithdrawal r"
    "wd_waitingExpiresAt r' = wd_waitingExpiresAt r" "processedAt r' = processedAt r"
    "isOpen z \<Longrightarrow> wd_status r' \<in> {PENDING, WAITING, DISPUTED}" "as_status z = A_PENDING \<Longrightarrow> wd_status r' = PENDING"
  shows "asgOk L r' y"
  using assms unfolding asgOk_def isLive_def isOpen_def by metis

lemma rowOkD:
  assumes "rowOk L A r"
  shows "net (wd_id r) L = accountDue r" "keysOk L r" "statusOk A r" "oneLive A" "\<And>a. a \<in> set A \<Longrightarrow> asgOk L r a"
  using assms by (simp_all add: rowOk_def)

lemma rowOkI:
  assumes "net (wd_id r) L = accountDue r" "keysOk L r" "statusOk A r" "oneLive A" "\<And>a. a \<in> set A \<Longrightarrow> asgOk L r a"
  shows "rowOk L A r"
  using assms by (simp add: rowOk_def)

lemma asgOkD:
  assumes "asgOk L r a"
  shows "keyIn (keyFor ''payroll-host-payout'' (as_id a)) L \<longleftrightarrow> as_status a = A_COMPLETED \<and> 0 < payoutOf r"
    "keyIn (keyFor ''payroll-reward'' (as_id a)) L \<longleftrightarrow> as_status a = A_COMPLETED \<and> 0 < rewardOf r"
    "wd_status r \<noteq> FAILED \<Longrightarrow> \<not> keyIn (keyFor ''payroll-host-payout-reversal'' (as_id a)) L"
    "wd_status r \<noteq> FAILED \<Longrightarrow> \<not> keyIn (keyFor ''payroll-reward-reversal'' (as_id a)) L"
    "isLive a \<Longrightarrow> \<not> isPlatformHandledWithdrawal r" "isLive a \<Longrightarrow> wd_waitingExpiresAt r = None"
    "as_status a = A_COMPLETED \<Longrightarrow> processedAt r \<noteq> None"
    "isOpen a \<Longrightarrow> processedAt r = None" "isOpen a \<Longrightarrow> wd_status r = PENDING \<or> wd_status r = WAITING \<or> wd_status r = DISPUTED"
    "as_status a = A_PENDING \<Longrightarrow> wd_status r = PENDING"
  using assms unfolding asgOk_def by simp_all

lemma statusOkD:
  assumes "statusOk A r"
  shows "processedAt r \<noteq> None \<Longrightarrow> wd_status r = PAID \<or> wd_status r = DISPUTED \<or> wd_status r = FAILED"
    "wd_status r = PAID \<Longrightarrow> processedAt r \<noteq> None"
    "wd_waitingExpiresAt r \<noteq> None \<Longrightarrow> wd_status r = WAITING \<or> wd_status r = PAID \<or> wd_status r = DISPUTED \<or> wd_status r = FAILED"
    "processedAt r \<noteq> None \<Longrightarrow> \<not> isPlatformHandledWithdrawal r \<Longrightarrow> wd_waitingExpiresAt r = None \<Longrightarrow> \<exists>a\<in>set A. as_status a = A_COMPLETED"
  using assms unfolding statusOk_def by simp_all

lemma statusOk_unpaid:
  "processedAt r = None \<Longrightarrow> wd_status r \<noteq> PAID \<Longrightarrow> wd_waitingExpiresAt r = None \<Longrightarrow> statusOk A r"
  by (simp add: statusOk_def)

lemma others_dead:
  "oneLive A \<Longrightarrow> x \<in> set A \<Longrightarrow> isLive x \<Longrightarrow> y \<in> set A \<Longrightarrow> as_id y \<noteq> as_id x \<Longrightarrow> \<not> isLive y"
  unfolding oneLive_def by blast

lemma isOpen_live: "isOpen a \<Longrightarrow> isLive a" "as_status a = A_COMPLETED \<Longrightarrow> isLive a"
  by (simp_all add: isLive_def)

lemma same_asg: "distinct (map as_id A) \<Longrightarrow> x \<in> set A \<Longrightarrow> y \<in> set A \<Longrightarrow> as_id y = as_id x \<Longrightarrow> y = x"
  by (auto simp: distinct_map dest: inj_onD)

lemma rowOk_pending:
  assumes ok: "rowOk L A r" and st: "wd_status r \<in> {PENDING, PENDING_PLATFORM}"
  shows "processedAt r = None" "wd_waitingExpiresAt r = None" "\<And>a. a \<in> set A \<Longrightarrow> as_status a \<noteq> A_COMPLETED"
    "net (wd_id r) L = - amountPoints r" "wd_status r \<noteq> FAILED"
proof -
  show p: "processedAt r = None" using statusOkD(1) [OF rowOkD(3) [OF ok]] st by (cases "processedAt r") auto
  show "wd_waitingExpiresAt r = None" using statusOkD(3) [OF rowOkD(3) [OF ok]] st by (cases "wd_waitingExpiresAt r") auto
  show "as_status a \<noteq> A_COMPLETED" if "a \<in> set A" for a using asgOkD(7) [OF rowOkD(5) [OF ok that]] p by blast
  show f: "wd_status r \<noteq> FAILED" using st by auto
  show "net (wd_id r) L = - amountPoints r" using rowOkD(1) [OF ok] p f by (simp add: accountDue_def)
qed

lemma rowOk_unassigned:
  assumes ok: "rowOk L A r" and st: "wd_status r \<in> {PENDING, PENDING_PLATFORM}" and free: "\<forall>a\<in>set A. \<not> isOpen a"
    and st': "st \<in> {PENDING, PENDING_PLATFORM}"
  shows "rowOk L A (r\<lparr>wd_status := st\<rparr>)"
proof (rule rowOkI)
  note p = rowOk_pending [OF ok st]
  show "net (wd_id (r\<lparr>wd_status := st\<rparr>)) L = accountDue (r\<lparr>wd_status := st\<rparr>)" using p(1,4) st' by (auto simp: accountDue_def)
  show "keysOk L (r\<lparr>wd_status := st\<rparr>)" by (rule keysOk_change [OF rowOkD(2) [OF ok]]) (use p in simp_all)
  show "statusOk A (r\<lparr>wd_status := st\<rparr>)" by (rule statusOk_unpaid) (use p st' in auto)
  show "oneLive A" by (rule rowOkD(4) [OF ok])
  show "asgOk L (r\<lparr>wd_status := st\<rparr>) a" if "a \<in> set A" for a
    by (rule asgOk_dead [OF rowOkD(5) [OF ok that]]) (use p(3) [OF that] p(5) free that in \<open>simp_all add: isLive_def\<close>)
qed

lemma rowOk_assigned:
  assumes ok: "rowOk L A r" and st: "wd_status r \<in> {PENDING, PENDING_PLATFORM}" and free: "\<forall>a\<in>set A. \<not> isOpen a"
    and pl: "\<not> isPlatformHandledWithdrawal r"
    and x: "as_status x \<in> {A_PENDING, A_WAITING}" "as_status x = A_PENDING \<Longrightarrow> st' = PENDING" "st' \<in> {PENDING, WAITING}"
    and fresh: "\<And>p. p \<in> set assignmentPrefixes \<Longrightarrow> \<not> keyIn (keyFor p (as_id x)) L"
  shows "rowOk L (A @ [x]) (r\<lparr>wd_status := st'\<rparr>)"
proof (rule rowOkI)
  note p = rowOk_pending [OF ok st]
  have dead: "\<not> isLive a" if "a \<in> set A" for a using p(3) [OF that] free that by (simp add: isLive_def)
  have old: "asgOk L (r\<lparr>wd_status := st'\<rparr>) a" if "a \<in> set A" for a
    by (rule asgOk_dead [OF rowOkD(5) [OF ok that]]) (use p(3) [OF that] p(5) dead [OF that] in simp_all)
  have new: "asgOk L (r\<lparr>wd_status := st'\<rparr>) x"
    using p(1,2) pl x fresh [of "''payroll-host-payout''"] fresh [of "''payroll-reward''"]
      fresh [of "''payroll-host-payout-reversal''"] fresh [of "''payroll-reward-reversal''"] by (auto simp: asgOk_def)
  show "asgOk L (r\<lparr>wd_status := st'\<rparr>) a" if "a \<in> set (A @ [x])" for a using that old new by auto
  show "net (wd_id (r\<lparr>wd_status := st'\<rparr>)) L = accountDue (r\<lparr>wd_status := st'\<rparr>)" using p(1,4) x by (auto simp: accountDue_def)
  show "keysOk L (r\<lparr>wd_status := st'\<rparr>)" by (rule keysOk_change [OF rowOkD(2) [OF ok]]) (use p in simp_all)
  show "statusOk (A @ [x]) (r\<lparr>wd_status := st'\<rparr>)" by (rule statusOk_unpaid) (use p x in auto)
  show "oneLive (A @ [x])" using dead by (auto simp: oneLive_def)
qed

text \<open>Giving up an open assignment.\<close>

lemma released_dead:
  assumes one: "oneLive A" and x: "x \<in> set A" "isLive x" and g: "\<And>z. as_status (g z) \<in> {A_EXPIRED, A_REJECTED}"
    and y: "y \<in> set (modify as_id (as_id x) g A)"
  shows "\<not> isLive y"
proof -
  obtain z where z: "z \<in> set A" "y = (if as_id z = as_id x then g z else z)" using y by (auto simp: modify_set)
  show ?thesis using z g [of z] others_dead [OF one x z(1)] by (auto simp: isLive_def isOpen_def)
qed

lemma rowOk_released:
  assumes ok: "rowOk L A r" and x: "x \<in> set A" "isOpen x"
    and g: "\<And>z. as_id (g z) = as_id z" "\<And>z. as_status (g z) \<in> {A_EXPIRED, A_REJECTED}"
    and r': "wd_id r' = wd_id r" "amountPoints r' = amountPoints r" "processedAt r' = processedAt r"
      "wd_waitingExpiresAt r' = wd_waitingExpiresAt r" "wd_status r' \<in> {PENDING, PENDING_PLATFORM}"
  shows "rowOk L (modify as_id (as_id x) g A) r'"
proof (rule rowOkI)
  note ax = asgOkD [OF rowOkD(5) [OF ok x(1)]]
  have p: "processedAt r = None" "wd_waitingExpiresAt r = None" "wd_status r \<noteq> FAILED"
    using ax(6) ax(8,9) [OF x(2)] isOpen_live(1) [OF x(2)] by auto
  note dead = released_dead [OF rowOkD(4) [OF ok] x(1) isOpen_live(1) [OF x(2)], of g, OF g(2)]
  have nc: "as_status z \<noteq> A_COMPLETED" if "z \<in> set A" for z using asgOkD(7) [OF rowOkD(5) [OF ok that]] p by blast
  show "asgOk L r' y" if y: "y \<in> set (modify as_id (as_id x) g A)" for y
  proof -
    obtain z where z: "z \<in> set A" "as_id y = as_id z" using y g(1) by (auto simp: modify_set split: if_splits)
    show ?thesis by (rule asgOk_dead [OF rowOkD(5) [OF ok z(1)] z(2) nc [OF z(1)] dead [OF y]]) (use p in simp)
  qed
  show "oneLive (modify as_id (as_id x) g A)" using dead by (auto simp: oneLive_def)
  show "keysOk L r'" by (rule keysOk_change [OF rowOkD(2) [OF ok] r'(1)]) (use p in simp_all)
  show "statusOk (modify as_id (as_id x) g A) r'" by (rule statusOk_unpaid) (use p r' in auto)
  show "net (wd_id r') L = accountDue r'" using rowOkD(1) [OF ok] p r' by (auto simp: accountDue_def)
qed

section \<open>Assigning\<close>

lemma inv_row:
  assumes inv: "payrollInv s" and r: "findWithdrawal i s = Some r"
  shows "rowOk (pointRows s) (asgs i s) r" "wd_id r = i" "i < nextId (money s)"
    "i \<in> set (platformJobs s) \<Longrightarrow> wd_waitingExpiresAt r \<noteq> None"
  using inv findWithdrawal_mem [OF r] by (auto simp: payrollInv_def)

lemma inv_fresh:
  "payrollInv s \<Longrightarrow> nextId (money s) \<le> n \<Longrightarrow> p \<in> set assignmentPrefixes \<or> p \<in> set withdrawalPrefixes
     \<Longrightarrow> \<not> keyIn (keyFor p n) (pointRows s)"
  by (auto simp: payrollInv_def)

lemma inv_ids: "payrollInv s \<Longrightarrow> distinct (map as_id (asgs i s))"
  unfolding payrollInv_def by (metis distinct_map_filter)

lemma inv_asg:
  "payrollInv s \<Longrightarrow> x \<in> set (assignments s) \<Longrightarrow> y \<in> set (assignments s) \<Longrightarrow> as_id y = as_id x \<Longrightarrow> y = x"
  unfolding payrollInv_def using same_asg by blast

lemma inv_frame:
  assumes inv: "payrollInv s"
    and f: "withdrawals s' = withdrawals s" "assignments s' = assignments s" "pointRows s' = pointRows s"
      "nextId (money s) \<le> nextId (money s')" "set (platformJobs s') \<subseteq> set (platformJobs s)"
  shows "payrollInv s'"
proof -
  have n: "m < nextId (money s) \<Longrightarrow> m < nextId (money s')" "nextId (money s') \<le> m \<Longrightarrow> nextId (money s) \<le> m" for m
    using f(4) by simp_all
  show ?thesis
    using inv n f(5) unfolding payrollInv_def f(1-3) by (elim conjE, intro conjI) (assumption | blast)+
qed

lemma inv_update:
  assumes inv: "payrollInv s" and r: "findWithdrawal i s = Some r" and f: "\<And>r. wd_id (f r) = wd_id r"
    and ok: "rowOk (pointRows s) (asgs i s) (f r)" and w: "wd_waitingExpiresAt r \<noteq> None \<Longrightarrow> wd_waitingExpiresAt (f r) \<noteq> None"
  shows "payrollInv (updateWithdrawal i f s)"
  by (rule keep_inv [OF inv r edits_updateWithdrawal]) (use f ok r w inv_row(4) [OF inv r] in \<open>simp_all add: findWithdrawal_update\<close>)

lemma openAssignmentOf_None: "openAssignmentOf i s = None \<Longrightarrow> \<forall>a\<in>set (asgs i s). \<not> isOpen a"
  by (auto simp: openAssignmentOf_def assignmentsOf_def isOpen_def filter_empty_conv split: list.splits)

lemma hd_filter: "(case filter P xs of [] \<Rightarrow> None | a # as \<Rightarrow> Some a) = Some x \<Longrightarrow> x \<in> set xs \<and> P x"
proof (cases "filter P xs")
  case (Cons a as)
  then have "set (a # as) = {y \<in> set xs. P y}" by (metis set_filter)
  moreover assume "(case filter P xs of [] \<Rightarrow> None | a # as \<Rightarrow> Some a) = Some x"
  ultimately show ?thesis using Cons by auto
qed simp

lemma openAssignmentOf_Some: "openAssignmentOf i s = Some a \<Longrightarrow> a \<in> set (asgs i s) \<and> isOpen a"
  unfolding openAssignmentOf_def assignmentsOf_def isOpen_def by (drule hd_filter) simp

lemma waitingAssignmentOf_Some: "waitingAssignmentOf i s = Some a \<Longrightarrow> a \<in> set (asgs i s) \<and> as_status a = A_WAITING"
  unfolding waitingAssignmentOf_def assignmentsOf_def by (drule hd_filter) simp

lemma chooseAgency_frame: "chooseAgency opts u c s = Inr (x, s1) \<Longrightarrow> \<exists>pa. s1 = s\<lparr>payrollAgencies := pa\<rparr>"
proof -
  have touch: "\<exists>pa. touchAgencyPayrollTimestamp v s = s\<lparr>payrollAgencies := pa\<rparr>" for v
    unfolding touchAgencyPayrollTimestamp_def by blast
  have same: "\<exists>pa. s = s\<lparr>payrollAgencies := pa\<rparr>" by (rule exI [of _ "payrollAgencies s"]) simp
  assume "chooseAgency opts u c s = Inr (x, s1)"
  then show ?thesis
    using touch same by (auto simp: chooseAgency_def overrideAgency_def getNextEligibleAgency_def Let_def
      split: option.splits if_splits list.splits prod.splits)
qed

lemma create_inv:
  assumes inv: "payrollInv s" and r: "findWithdrawal i s = Some r" and st: "wd_status r \<in> {PENDING, PENDING_PLATFORM}"
    and free: "\<forall>a\<in>set (asgs i s). \<not> isOpen a" and pl: "\<not> isPlatformHandledWithdrawal r"
    and c: "createAssignment i ag ex nr ast pr we s = (a, s2)"
    and ast: "ast = A_PENDING \<and> st' = PENDING \<or> ast = A_WAITING \<and> st' = WAITING"
  shows "payrollInv (setStatus i st' s2)" (is "payrollInv ?s")
proof -
  note v = createAssignment_views [OF c]
  obtain x where x: "assignments s2 = assignments s @ [x]" "as_id x = nextId (money s)" "as_withdrawal x = i" "as_status x = ast"
    using v(8) by blast
  have f2: "findWithdrawal i s2 = Some r" using r v(2) by (simp add: findWithdrawal_def)
  have "rowOk (pointRows s) (asgs i s @ [x]) (r\<lparr>wd_status := st'\<rparr>)"
    by (rule rowOk_assigned [OF inv_row(1) [OF inv r] st free pl]) (use ast x inv_fresh [OF inv] in auto)
  then have ok: "rowOk (pointRows ?s) (asgs i ?s) (r\<lparr>wd_status := st'\<rparr>)" using x v(3) by (simp add: setStatus_def)
  show ?thesis
  proof (rule keep_inv [OF inv r _ _ ok])
    show "edits i s ?s" unfolding setStatus_def
      by (rule edits_trans [OF edits_createAssignment [OF c] edits_updateWithdrawal]) simp
    show "findWithdrawal i ?s = Some (r\<lparr>wd_status := st'\<rparr>)" using f2 by (simp add: setStatus_def findWithdrawal_update)
    show "i \<in> set (platformJobs ?s) \<Longrightarrow> wd_waitingExpiresAt (r\<lparr>wd_status := st'\<rparr>) \<noteq> None"
      using inv_row(4) [OF inv r] v(4) by (simp add: setStatus_def)
  qed
qed

lemma assignTx_inv:
  assumes inv: "payrollInv s" and run: "assignTx opts i s = Inr (flag, s')"
  shows "payrollInv s'"
proof (cases "findWithdrawal i s")
  case None
  with run inv show ?thesis by (simp add: assignTx_def)
next
  case (Some r)
  note row = inv_row [OF inv Some]
  show ?thesis
  proof (cases "wd_status r \<in> {PENDING, PENDING_PLATFORM} \<and> openAssignmentOf i s = None")
    case False
    have "wd_status r = PENDING" if "wd_status r \<in> {PENDING, PENDING_PLATFORM}" "openAssignmentOf i s \<noteq> None"
      using that openAssignmentOf_Some [of i s] asgOkD(9) [OF rowOkD(5) [OF row(1)]] by fastforce
    with False have "s' = s" using run Some by (auto simp: assignTx_def split: if_splits)
    then show ?thesis using inv by simp
  next
    case True
    note free = openAssignmentOf_None [OF conjunct2 [OF True]]
    have plat: "payrollInv (setStatus i PENDING_PLATFORM s)"
      unfolding setStatus_def by (rule inv_update [OF inv Some])
        (use rowOk_unassigned [OF row(1) conjunct1 [OF True] free] in simp_all)
    from run Some True consider "s' = s" | "s' = setStatus i PENDING_PLATFORM s"
      | s1 where "s' = setStatus i PENDING_PLATFORM s1" "chooseAgency opts (wd_user r) (countryOf (wd_user r) s) s = Inr (None, s1)"
      | ag s1 a s2 where "\<not> isPlatformHandledWithdrawal r" "chooseAgency opts (wd_user r) (countryOf (wd_user r) s) s = Inr (Some ag, s1)"
        "createAssignment i ag (now s1 + hoursMs (slaHoursOf s1)) (assignmentCount r + 1) A_PENDING None None s1 = (a, s2)"
        "s' = setStatus i PENDING s2"
      by (auto simp: assignTx_def Let_def split: if_splits sum.splits option.splits prod.splits)
    then show ?thesis
    proof cases
      case 3
      then obtain pa where "s1 = s\<lparr>payrollAgencies := pa\<rparr>" using chooseAgency_frame by blast
      then have "payrollInv s'" using 3 by (intro inv_frame [OF plat]) (simp_all add: setStatus_def updateWithdrawal_def)
      then show ?thesis .
    next
      case 4
      obtain pa where s1: "s1 = s\<lparr>payrollAgencies := pa\<rparr>" using chooseAgency_frame [OF 4(2)] by blast
      have inv1: "payrollInv s1" by (rule inv_frame [OF inv]) (simp_all add: s1)
      have f1: "findWithdrawal i s1 = Some r" using Some s1 by (simp add: findWithdrawal_def)
      show ?thesis unfolding 4(4)
        by (rule create_inv [OF inv1 f1 _ _ 4(1) 4(3)]) (use True free s1 in simp_all)
    qed (use inv plat in simp_all)
  qed
qed

lemma assignToAgency_inv: "payrollInv s \<Longrightarrow> payrollInv (snd (assignToAgency opts i s))"
proof (cases "assignTx opts i s")
  case (Inr r)
  assume inv: "payrollInv s"
  obtain flag s' where r: "r = (flag, s')" by fastforce
  have s': "payrollInv s'" by (rule assignTx_inv [OF inv]) (use Inr r in simp)
  then have "payrollInv (s'\<lparr>slaJobs := js\<rparr>)" for js by (rule inv_frame) simp_all
  with s' show ?thesis
    by (simp add: assignToAgency_def transact_def afterwards_def Inr r split: assign_result.split)
qed (simp add: assignToAgency_def transact_def afterwards_def)




end
