(* ===== verification/PayrollRows.thy ===== *)
theory PayrollRows
  imports PayrollAssign
begin

text \<open>
  The changes of one account that the other operations make: proof of payment, settlement, takeover,
  dispute and reversal, and the rows they add to the ledger.
\<close>

section \<open>More changes of one row\<close>

lemma keep_inv_all:
  assumes inv: "payrollInv s" and ed: "edits i s s'" and i: "i < nextId (money s)"
    and row: "\<And>r. findWithdrawal i s' = Some r \<Longrightarrow> rowOk (pointRows s') (asgs i s') r"
      "\<And>r. findWithdrawal i s' = Some r \<Longrightarrow> i \<in> set (platformJobs s') \<Longrightarrow> wd_waitingExpiresAt r \<noteq> None"
  shows "payrollInv s'"
proof (rule edits_keep_inv [OF inv ed i])
  fix q assume q: "q \<in> set (withdrawals s')" "wd_id q = i"
  have "distinct (map wd_id (withdrawals s'))" using inv ed by (simp add: payrollInv_def edits_def)
  then have "findWithdrawal i s' = Some q" using q find_distinct [of wd_id "withdrawals s'" i q]
    by (simp add: findWithdrawal_def fetch_def)
  with row show "rowOk (pointRows s') (asgs i s') q \<and> (i \<in> set (platformJobs s') \<longrightarrow> wd_waitingExpiresAt q \<noteq> None)" by simp
qed

lemma updateWithdrawal_comp:
  "(\<And>r. wd_id (f r) = wd_id r) \<Longrightarrow> updateWithdrawal i g (updateWithdrawal i f s) = updateWithdrawal i (\<lambda>r. g (f r)) s"
  by (simp add: updateWithdrawal_def modify_def)

text \<open>Proof of payment by an agency.\<close>

lemma rowOk_proof:
  assumes ok: "rowOk L A r" and x: "x \<in> set A" "isOpen x" and ids: "distinct (map as_id A)" and st: "wd_status r \<noteq> DISPUTED"
    and g: "\<And>z. as_id (g z) = as_id z" "\<And>z. as_status (g z) = A_WAITING"
  shows "rowOk L (modify as_id (as_id x) g A) (r\<lparr>wd_status := WAITING\<rparr>)"
proof (rule rowOkI)
  note ax = asgOkD [OF rowOkD(5) [OF ok x(1)]]
  have p: "processedAt r = None" "wd_waitingExpiresAt r = None" "wd_status r \<noteq> FAILED" "\<not> isPlatformHandledWithdrawal r"
    using ax(5,6) ax(8,9) [OF x(2)] isOpen_live(1) [OF x(2)] by auto
  have nc: "as_status z \<noteq> A_COMPLETED" if "z \<in> set A" for z using asgOkD(7) [OF rowOkD(5) [OF ok that]] p by blast
  have dead: "\<not> isLive z" if "z \<in> set A" "as_id z \<noteq> as_id x" for z
    using others_dead [OF rowOkD(4) [OF ok] x(1) isOpen_live(1) [OF x(2)] that] .
  have "as_id y = as_id x" if "y \<in> set (modify as_id (as_id x) g A)" "isLive y" for y
    using that dead g(1) by (auto simp: modify_set split: if_splits)
  then show "oneLive (modify as_id (as_id x) g A)" unfolding oneLive_def by (intro ballI impI) simp
  show "asgOk L (r\<lparr>wd_status := WAITING\<rparr>) y" if "y \<in> set (modify as_id (as_id x) g A)" for y
  proof -
    obtain z where z: "z \<in> set A" "y = (if as_id z = as_id x then g z else z)" using \<open>y \<in> _\<close> by (auto simp: modify_set)
    show ?thesis
    proof (cases "as_id z = as_id x")
      case True
      then have "z = x" using same_asg [OF ids x(1) z(1)] by simp
      then show ?thesis using z ax(1-4) nc [OF x(1)] p g by (simp add: asgOk_def)
    next
      case False
      then show ?thesis using z p(3) by (intro asgOk_dead [OF rowOkD(5) [OF ok z(1)] _ nc [OF z(1)]]) (simp_all add: dead)
    qed
  qed
  show "keysOk L (r\<lparr>wd_status := WAITING\<rparr>)" by (rule keysOk_change [OF rowOkD(2) [OF ok]]) (use p in simp_all)
  show "statusOk (modify as_id (as_id x) g A) (r\<lparr>wd_status := WAITING\<rparr>)" by (rule statusOk_unpaid) (use p in simp_all)
  show "net (wd_id (r\<lparr>wd_status := WAITING\<rparr>)) L = accountDue (r\<lparr>wd_status := WAITING\<rparr>)"
    using rowOkD(1) [OF ok] p by (simp add: accountDue_def)
qed

text \<open>Changes of what the account does not depend on.\<close>

definition tag :: "assignment_row \<Rightarrow> nat \<times> AssignmentStatus" where
  "tag a = (as_id a, as_status a)"

lemma tag_live: "tag a = tag b \<Longrightarrow> isLive a = isLive b \<and> as_id a = as_id b \<and> as_status a = as_status b"
  by (simp add: tag_def isLive_def isOpen_def)

lemma rowOk_same:
  assumes ok: "rowOk L A r" and A: "tag ` set A' = tag ` set A"
    and r': "wd_id r' = wd_id r" "amountPoints r' = amountPoints r" "wd_status r' = wd_status r" "processedAt r' = processedAt r"
      "wd_waitingExpiresAt r' = wd_waitingExpiresAt r" "payoutOf r' = payoutOf r" "rewardOf r' = rewardOf r"
      "isPlatformHandledWithdrawal r' = isPlatformHandledWithdrawal r"
  shows "rowOk L A' r'"
proof (rule rowOkI)
  have old: "\<exists>z\<in>set A. tag z = tag y" if "y \<in> set A'" for y using that A by (metis imageE imageI)
  have forth: "\<exists>y\<in>set A'. tag y = tag z" if "z \<in> set A" for z using that A by (metis imageE imageI)
  show "net (wd_id r') L = accountDue r'" using rowOkD(1) [OF ok] r' by (simp add: accountDue_def takenOver_def creditOf_def)
  show "keysOk L r'" by (rule keysOk_change [OF rowOkD(2) [OF ok]]) (use r' in simp_all)
  show "oneLive A'" using rowOkD(4) [OF ok] old unfolding oneLive_def by (metis tag_live)
  show "statusOk A' r'" using rowOkD(3) [OF ok] forth r' unfolding statusOk_def by (metis tag_live)
  show "asgOk L r' y" if y: "y \<in> set A'" for y
  proof -
    obtain z where z: "z \<in> set A" "tag z = tag y" using old [OF y] by blast
    note az = rowOkD(5) [OF ok z(1)]
    show ?thesis
      by (rule asgOk_live [OF az]) (use z(2) tag_live [OF z(2)] r' asgOkD(9,10) [OF az] in auto)
  qed
qed

text \<open>Proof of payment by the platform or the company, and the end of the window for them.\<close>

lemma rowOk_platformProof:
  assumes ok: "rowOk L A r" and st: "wd_status r = PENDING_PLATFORM"
    and r': "wd_id r' = wd_id r" "amountPoints r' = amountPoints r" "wd_status r' = WAITING" "processedAt r' = processedAt r"
  shows "rowOk L A r'"
proof (rule rowOkI)
  have st': "wd_status r \<in> {PENDING, PENDING_PLATFORM}" using st by simp
  note p = rowOk_pending [OF ok st']
  have dead: "\<not> isLive a" if "a \<in> set A" for a
    using p(3) [OF that] asgOkD(9) [OF rowOkD(5) [OF ok that]] st by (auto simp: isLive_def)
  show "oneLive A" by (rule rowOkD(4) [OF ok])
  show "asgOk L r' a" if "a \<in> set A" for a
    by (rule asgOk_dead [OF rowOkD(5) [OF ok that] refl p(3) [OF that] dead [OF that]]) (use p in simp)
  show "keysOk L r'" by (rule keysOk_change [OF rowOkD(2) [OF ok]]) (use p r' in simp_all)
  show "statusOk A r'" using p r' by (simp add: statusOk_def)
  show "net (wd_id r') L = accountDue r'" using p r' by (simp add: accountDue_def)
qed

lemma rowOk_platformPaid:
  assumes ok: "rowOk L A r" and pl: "isPlatformHandledWithdrawal r" and st: "wd_status r \<noteq> FAILED"
    and r': "wd_id r' = wd_id r" "amountPoints r' = amountPoints r" "wd_status r' = PAID" "processedAt r' \<noteq> None"
      "isPlatformHandledWithdrawal r'"
  shows "rowOk L A r'"
proof (rule rowOkI)
  have dead: "\<not> isLive a" if "a \<in> set A" for a using asgOkD(5) [OF rowOkD(5) [OF ok that]] pl by blast
  show "oneLive A" by (rule rowOkD(4) [OF ok])
  show "asgOk L r' a" if "a \<in> set A" for a
    by (rule asgOk_dead [OF rowOkD(5) [OF ok that] refl _ dead [OF that]]) (use st dead [OF that] in \<open>simp_all add: isLive_def\<close>)
  show "keysOk L r'" by (rule keysOk_change [OF rowOkD(2) [OF ok] r'(1)]) (use st r' in simp_all)
  show "statusOk A r'" using r' by (simp add: statusOk_def)
  show "net (wd_id r') L = accountDue r'"
    using rowOkD(1) [OF ok] pl st r' by (simp add: accountDue_def creditOf_def split: if_splits)
qed

text \<open>Raising a dispute.\<close>

lemma rowOk_disputed:
  assumes ok: "rowOk L A r" and st: "wd_status r \<in> {PENDING, WAITING, PAID}" and no: "\<And>a. a \<in> set A \<Longrightarrow> as_status a \<noteq> A_PENDING"
  shows "rowOk L A (r\<lparr>wd_status := DISPUTED, disputeTicketId := t\<rparr>)" (is "rowOk L A ?r")
proof (rule rowOkI)
  show "net (wd_id ?r) L = accountDue ?r" using rowOkD(1) [OF ok] st by (auto simp: accountDue_def)
  show "keysOk L ?r" by (rule keysOk_change [OF rowOkD(2) [OF ok]]) (use st in auto)
  show "statusOk A ?r" using rowOkD(3) [OF ok] unfolding statusOk_def by simp
  show "oneLive A" by (rule rowOkD(4) [OF ok])
  show "asgOk L ?r a" if "a \<in> set A" for a
    by (rule asgOk_live [OF rowOkD(5) [OF ok that]]) (use st no [OF that] in auto)
qed

section \<open>Rows that an operation adds\<close>

definition ownKey :: "nat \<Rightarrow> payroll \<Rightarrow> string \<Rightarrow> bool" where
  "ownKey i s key \<longleftrightarrow> (\<exists>p n. key = keyFor p n
     \<and> (p \<in> set withdrawalPrefixes \<and> n = i \<or> p \<in> set assignmentPrefixes \<and> n \<in> as_id ` set (asgs i s)))"

lemma ownKey_withdrawal: "p \<in> set withdrawalPrefixes \<Longrightarrow> ownKey i s (keyFor p i)"
  unfolding ownKey_def by blast

lemma ownKey_assignment: "p \<in> set assignmentPrefixes \<Longrightarrow> x \<in> set (asgs i s) \<Longrightarrow> ownKey i s (keyFor p (as_id x))"
  unfolding ownKey_def by blast

text \<open>Rows of withdrawal \<open>i\<close> under the keys \<open>K\<close>, with the sum \<open>d\<close>, and nothing else.\<close>

definition grows :: "nat \<Rightarrow> string set \<Rightarrow> int \<Rightarrow> payroll \<Rightarrow> payroll \<Rightarrow> bool" where
  "grows i K d s s' \<longleftrightarrow> edits i s s' \<and> s' = s\<lparr>money := money s'\<rparr> \<and> clock (money s') = clock (money s)
     \<and> net i (pointRows s') = net i (pointRows s) + d
     \<and> (\<forall>k. keyIn k (pointRows s') \<longleftrightarrow> keyIn k (pointRows s) \<or> k \<in> K)"

lemma grows_refl: "grows i {} 0 s s"
  by (simp add: grows_def)

lemma grows_trans:
  assumes a: "grows i K d s s1" and b: "grows i K' d' s1 s2"
  shows "grows i (K \<union> K') (d + d') s s2"
proof -
  have "edits i s s2" using a b edits_trans unfolding grows_def by blast
  moreover have "s2 = s\<lparr>money := money s2\<rparr>" using a b unfolding grows_def by (metis payroll.update_convs(1) payroll.surjective)
  ultimately show ?thesis using a b unfolding grows_def by auto
qed

lemma grows_views:
  assumes "grows i K d s s'"
  shows "withdrawals s' = withdrawals s" "assignments s' = assignments s" "platformJobs s' = platformJobs s"
    "slaJobs s' = slaJobs s" "waitingJobs s' = waitingJobs s" "companyCash s' = companyCash s" "now s' = now s"
    "edits i s s'" "net i (pointRows s') = net i (pointRows s) + d" "keyIn k (pointRows s') \<longleftrightarrow> keyIn k (pointRows s) \<or> k \<in> K"
proof -
  have e: "s' = s\<lparr>money := money s'\<rparr>" "clock (money s') = clock (money s)" using assms by (simp_all add: grows_def)
  show "withdrawals s' = withdrawals s" "assignments s' = assignments s" "platformJobs s' = platformJobs s"
    "slaJobs s' = slaJobs s" "waitingJobs s' = waitingJobs s" "companyCash s' = companyCash s" "now s' = now s"
    by (subst e, simp add: now_def e(2))+
  show "edits i s s'" "net i (pointRows s') = net i (pointRows s) + d" "keyIn k (pointRows s') \<longleftrightarrow> keyIn k (pointRows s) \<or> k \<in> K"
    using assms unfolding grows_def by auto
qed

lemma grows_posts: "posts i key d s s' \<Longrightarrow> ownKey i s key \<Longrightarrow> grows i {key} d s s'"
  unfolding grows_def using edits_posts [of i key d s s'] posts_views(9,10) [of i key d s s']
  by (auto simp: posts_def ownKey_def)

abbreviation payrollCredit :: "PointTxType \<Rightarrow> bool" where
  "payrollCredit tt \<equiv>
     tt \<in> {P_WITHDRAWAL_REFUND, P_PAYROLL_HOST_PAYOUT, P_PAYROLL_PROCESSING_REWARD, P_PAYROLL_TAKEOVER_INVENTORY}"

lemma creditPoints_grows:
  assumes "creditPoints u amt tt key i cp desc s = Inr (y, s')" "\<not> posted key s" "payrollCredit tt" "ownKey i s key"
  shows "grows i {key} amt s s'"
  by (rule grows_posts [OF creditPoints_posts [OF _ assms(2,3)] assms(4)]) (use assms(1) in simp)

lemma creditIfPositive_grows:
  assumes run: "creditIfPositive u amt tt key i cp desc s = Inr (y, s')" and fresh: "\<not> posted key s"
    and tt: "payrollCredit tt" and own: "ownKey i s key"
  shows "grows i (if 0 < amt then {key} else {}) (max 0 amt) s s'"
proof (cases "0 < amt")
  case True
  then show ?thesis using creditPoints_grows [OF _ fresh tt own, of u amt cp desc y s'] run by (simp add: creditIfPositive_def)
next
  case False
  then show ?thesis using run by (simp add: creditIfPositive_def grows_refl)
qed

lemma takeBack_grows:
  assumes run: "takeBack agent amt key revKey a i desc s = Inr (y, s')" and fresh: "\<not> posted (keyFor revKey a) s"
    and own: "ownKey i s (keyFor revKey a)"
  shows "grows i (if 0 < amt \<and> posted (keyFor key a) s then {keyFor revKey a} else {})
     (- (if 0 < amt \<and> posted (keyFor key a) s then amt else 0)) s s'"
proof (cases "0 < amt \<and> posted (keyFor key a) s")
  case True
  then have "debitPoints agent amt P_ADJUSTMENT False True (keyFor revKey a) i None desc s = Inr ((), s')"
    using run by (simp add: takeBack_def)
  then show ?thesis using grows_posts [OF debitPoints_posts own, OF _ fresh] True by simp
next
  case False
  then show ?thesis using run unfolding takeBack_def if_not_P [OF False] by (simp add: grows_refl)
qed

lemma asgOk_ledger:
  assumes "asgOk L r a" "\<And>p. p \<in> set assignmentPrefixes \<Longrightarrow> keyIn (keyFor p (as_id a)) L' \<longleftrightarrow> keyIn (keyFor p (as_id a)) L"
  shows "asgOk L' r a"
  using assms by (simp add: asgOk_def)

lemma keysOk_ledger:
  assumes "keysOk L r" "\<And>p. p \<in> set withdrawalPrefixes \<Longrightarrow> keyIn (keyFor p (wd_id r)) L' \<longleftrightarrow> keyIn (keyFor p (wd_id r)) L"
  shows "keysOk L' r"
  using assms by (simp add: keysOk_def)

abbreviation keyIf :: "int \<Rightarrow> string \<Rightarrow> string set" where
  "keyIf amt k \<equiv> (if 0 < amt then {k} else {})"

lemma prefixes_not_mem [simp]:
  "''payroll-host-payout'' \<notin> set withdrawalPrefixes" "''payroll-reward'' \<notin> set withdrawalPrefixes"
  "''payroll-takeover'' \<notin> set assignmentPrefixes" "''payroll-takeover-reward'' \<notin> set assignmentPrefixes"
  by (simp_all add: withdrawalPrefixes_def assignmentPrefixes_def)

lemma keyIf_fresh:
  assumes "p \<in> set (withdrawalPrefixes @ assignmentPrefixes)" "q \<in> set (withdrawalPrefixes @ assignmentPrefixes)" "\<not> (p = q \<and> n = m)"
  shows "keyFor p n \<notin> keyIf a (keyFor q m)"
  using keyFor_eq [OF assms(1,2), of n m] assms(3) by simp

lemma rowOk_settled:
  assumes ok: "rowOk L A r" and x: "x \<in> set A" "as_status x = A_WAITING" and ids: "distinct (map as_id A)"
    and g: "\<And>z. as_id (g z) = as_id z" "\<And>z. as_status (g z) = A_COMPLETED"
    and net: "net (wd_id r) L' = net (wd_id r) L + (max 0 (payoutOf r) + max 0 (rewardOf r))"
    and keys: "\<And>k. keyIn k L' \<longleftrightarrow> keyIn k L \<or> k \<in> keyIf (payoutOf r) (keyFor ''payroll-host-payout'' (as_id x))
        \<union> keyIf (rewardOf r) (keyFor ''payroll-reward'' (as_id x))"
    and r': "wd_id r' = wd_id r" "amountPoints r' = amountPoints r" "wd_status r' = PAID" "processedAt r' \<noteq> None"
      "wd_waitingExpiresAt r' = wd_waitingExpiresAt r" "payoutOf r' = payoutOf r" "rewardOf r' = rewardOf r"
      "isPlatformHandledWithdrawal r' = isPlatformHandledWithdrawal r"
  shows "rowOk L' (modify as_id (as_id x) g A) r'"
proof (rule rowOkI)
  have op: "isOpen x" using x by (simp add: isOpen_def)
  note ax = asgOkD [OF rowOkD(5) [OF ok x(1)]]
  have p: "processedAt r = None" "wd_waitingExpiresAt r = None" "wd_status r \<noteq> FAILED" "\<not> isPlatformHandledWithdrawal r"
    using ax(5,6) ax(8,9) [OF op] isOpen_live(1) [OF op] by auto
  have nc: "as_status z \<noteq> A_COMPLETED" if "z \<in> set A" for z using asgOkD(7) [OF rowOkD(5) [OF ok that]] p by blast
  have dead: "\<not> isLive z" if "z \<in> set A" "as_id z \<noteq> as_id x" for z
    using others_dead [OF rowOkD(4) [OF ok] x(1) isOpen_live(1) [OF op] that] .
  have "as_id y = as_id x" if "y \<in> set (modify as_id (as_id x) g A)" "isLive y" for y
    using that dead g(1) by (auto simp: modify_set split: if_splits)
  then show "oneLive (modify as_id (as_id x) g A)" unfolding oneLive_def by (intro ballI impI) simp
  have other: "keyIn (keyFor q n) L' \<longleftrightarrow> keyIn (keyFor q n) L"
    if "q \<in> set withdrawalPrefixes \<or> q \<in> set assignmentPrefixes \<and> n \<noteq> as_id x" for q n
  proof -
    have h: "\<not> (q = ''payroll-host-payout'' \<and> n = as_id x)" "\<not> (q = ''payroll-reward'' \<and> n = as_id x)" using that by auto
    have "keyFor q n \<notin> keyIf (payoutOf r) (keyFor ''payroll-host-payout'' (as_id x))" "keyFor q n \<notin> keyIf (rewardOf r) (keyFor ''payroll-reward'' (as_id x))"
      by (rule keyIf_fresh; use that h in auto)+
    then show ?thesis by (simp only: keys Un_iff simp_thms)
  qed
  show "asgOk L' r' y" if "y \<in> set (modify as_id (as_id x) g A)" for y
  proof -
    obtain z where z: "z \<in> set A" "y = (if as_id z = as_id x then g z else z)" using \<open>y \<in> _\<close> by (auto simp: modify_set)
    show ?thesis
    proof (cases "as_id z = as_id x")
      case True
      then have "z = x" using same_asg [OF ids x(1) z(1)] by simp
      then have y: "as_id y = as_id x" "as_status y = A_COMPLETED" "\<not> isOpen y" using z g by (simp_all add: isOpen_def)
      have "keyIn (keyFor ''payroll-host-payout'' (as_id x)) L' \<longleftrightarrow> 0 < payoutOf r" "keyIn (keyFor ''payroll-reward'' (as_id x)) L' \<longleftrightarrow> 0 < rewardOf r"
        "\<not> keyIn (keyFor ''payroll-host-payout-reversal'' (as_id x)) L'" "\<not> keyIn (keyFor ''payroll-reward-reversal'' (as_id x)) L'"
        using ax(1-4) x(2) p(3) by (simp_all add: keys keyFor_inject)
      then show ?thesis using y p(2,4) r' by (simp add: asgOk_def)
    next
      case False
      then have az: "asgOk L' r z" using other by (intro asgOk_ledger [OF rowOkD(5) [OF ok z(1)]]) simp
      show ?thesis by (rule asgOk_dead [OF az _ nc [OF z(1)]]) (use False z p(3) dead in simp_all)
    qed
  qed
  have "keysOk L' r" using other by (intro keysOk_ledger [OF rowOkD(2) [OF ok]]) simp
  then show "keysOk L' r'" by (rule keysOk_change) (use p r' in simp_all)
  have "g x \<in> set (modify as_id (as_id x) g A)" using x by (auto simp: modify_set)
  then have "\<exists>a\<in>set (modify as_id (as_id x) g A). as_status a = A_COMPLETED" using g(2) by blast
  then show "statusOk (modify as_id (as_id x) g A) r'" using r'(3-5) p(2) by (simp add: statusOk_def)
  show "net (wd_id r') L' = accountDue r'"
    using rowOkD(1) [OF ok] net p r' by (simp add: accountDue_def creditOf_def)
qed

lemma rowOk_takeover:
  assumes ok: "rowOk L A r" and st: "wd_status r = WAITING" "wd_waitingExpiresAt r \<noteq> None" "\<not> isPlatformHandledWithdrawal r"
    and net: "net (wd_id r) L' = net (wd_id r) L + (max 0 (payoutOf r) + max 0 (rewardOf r))"
    and keys: "\<And>k. keyIn k L' \<longleftrightarrow> keyIn k L \<or> k \<in> keyIf (payoutOf r) (keyFor ''payroll-takeover'' (wd_id r))
        \<union> keyIf (rewardOf r) (keyFor ''payroll-takeover-reward'' (wd_id r))"
    and r': "wd_id r' = wd_id r" "amountPoints r' = amountPoints r" "wd_status r' = PAID" "processedAt r' \<noteq> None"
      "wd_waitingExpiresAt r' = wd_waitingExpiresAt r" "payoutOf r' = payoutOf r" "rewardOf r' = rewardOf r"
      "isPlatformHandledWithdrawal r' = isPlatformHandledWithdrawal r"
  shows "rowOk L' A r'"
proof (rule rowOkI)
  have p: "processedAt r = None" using statusOkD(1) [OF rowOkD(3) [OF ok]] st(1) by (cases "processedAt r") auto
  have dead: "\<not> isLive a" if "a \<in> set A" for a using asgOkD(6) [OF rowOkD(5) [OF ok that]] st by blast
  show "oneLive A" by (rule rowOkD(4) [OF ok])
  have same: "keyIn (keyFor q n) L' \<longleftrightarrow> keyIn (keyFor q n) L" if "q \<in> set assignmentPrefixes" for q n
  proof -
    have h: "q \<noteq> ''payroll-takeover''" "q \<noteq> ''payroll-takeover-reward''" using that by auto
    have "keyFor q n \<notin> keyIf (payoutOf r) (keyFor ''payroll-takeover'' (wd_id r))" "keyFor q n \<notin> keyIf (rewardOf r) (keyFor ''payroll-takeover-reward'' (wd_id r))"
      by (rule keyIf_fresh; use that h in auto)+
    then show ?thesis by (simp only: keys Un_iff simp_thms)
  qed
  show "asgOk L' r' a" if "a \<in> set A" for a
    by (rule asgOk_dead [OF asgOk_ledger [OF rowOkD(5) [OF ok that] same] refl _ dead [OF that]])
      (use st dead [OF that] in \<open>simp_all add: isLive_def\<close>)
  show "keysOk L' r'"
    using rowOkD(2) [OF ok] r' st unfolding keysOk_def by (simp add: keys keyFor_inject)
  show "statusOk A r'" using r' st by (auto simp: statusOk_def)
  show "net (wd_id r') L' = accountDue r'"
    using rowOkD(1) [OF ok] net p st r' by (simp add: accountDue_def creditOf_def)
qed

text \<open>The credits that a reversal takes back.\<close>

definition takenBack :: "withdrawal_row \<Rightarrow> int" where
  "takenBack r = (if processedAt r \<noteq> None \<and> wd_waitingExpiresAt r = None then creditOf r else 0)"

lemma rowOk_failed:
  assumes ok: "rowOk L A r" and st: "wd_status r \<noteq> FAILED"
    and net: "net (wd_id r) L' = net (wd_id r) L + (amountPoints r - takenBack r)"
    and keys: "\<And>k. keyIn k L' \<longleftrightarrow> keyIn k L \<or> k \<in> K"
      "\<And>p n. keyFor p n \<in> K \<Longrightarrow> p \<in> set (withdrawalPrefixes @ assignmentPrefixes)
         \<Longrightarrow> p \<in> {''withdrawal-refund'', ''payroll-host-payout-reversal'', ''payroll-reward-reversal''}"
    and A: "\<And>y. y \<in> set A' \<Longrightarrow> \<exists>z\<in>set A. as_id y = as_id z \<and> \<not> isOpen y \<and> (as_status y = as_status z \<or> isOpen z \<and> \<not> isLive y)"
      "\<And>z. z \<in> set A \<Longrightarrow> as_status z = A_COMPLETED \<Longrightarrow> \<exists>y\<in>set A'. as_status y = A_COMPLETED"
    and r': "wd_id r' = wd_id r" "amountPoints r' = amountPoints r" "wd_status r' = FAILED" "processedAt r' = processedAt r"
      "wd_waitingExpiresAt r' = wd_waitingExpiresAt r" "payoutOf r' = payoutOf r" "rewardOf r' = rewardOf r"
      "isPlatformHandledWithdrawal r' = isPlatformHandledWithdrawal r"
  shows "rowOk L' A' r'"
proof (rule rowOkI)
  have same: "keyIn (keyFor p n) L' \<longleftrightarrow> keyIn (keyFor p n) L"
    if "p \<in> set (withdrawalPrefixes @ assignmentPrefixes)"
      "p \<notin> {''withdrawal-refund'', ''payroll-host-payout-reversal'', ''payroll-reward-reversal''}" for p n
    using keys(1) [of "keyFor p n"] keys(2) [of p n] that by blast
  have live: "isLive y \<Longrightarrow> isLive z" if "as_status y = as_status z \<or> isOpen z \<and> \<not> isLive y" for y z :: assignment_row
    using that by (auto simp: isLive_def isOpen_def)
  show "oneLive A'" using rowOkD(4) [OF ok] A(1) live unfolding oneLive_def by metis
  show "asgOk L' r' y" if y: "y \<in> set A'" for y
  proof -
    obtain z where z: "z \<in> set A" "as_id y = as_id z" "\<not> isOpen y" "as_status y = as_status z \<or> isOpen z \<and> \<not> isLive y"
      using A(1) [OF y] by blast
    note az = asgOkD [OF rowOkD(5) [OF ok z(1)]]
    have c: "as_status y = A_COMPLETED \<longleftrightarrow> as_status z = A_COMPLETED" using z(4) by (auto simp: isLive_def isOpen_def)
    have "as_status y \<noteq> A_PENDING" using z(3) by (simp add: isOpen_def)
    then show ?thesis
      using z(2,3) az(1,2) az(5-7) [unfolded isLive_def] c r' same [of "''payroll-host-payout''" "as_id z"] same [of "''payroll-reward''" "as_id z"]
      unfolding asgOk_def isLive_def by simp
  qed
  show "keysOk L' r'"
    using rowOkD(2) [OF ok] r' st same [of _ "wd_id r"] unfolding keysOk_def by simp
  show "statusOk A' r'" using rowOkD(3) [OF ok] A(2) r' unfolding statusOk_def by (simp) blast
  show "net (wd_id r') L' = accountDue r'"
  proof (cases "processedAt r")
    case None
    then show ?thesis using rowOkD(1) [OF ok] net st r' by (simp add: accountDue_def takenBack_def)
  next
    case (Some t)
    then have "net (wd_id r) L = creditOf r - amountPoints r" using rowOkD(1) [OF ok] st by (simp add: accountDue_def)
    moreover have "creditOf r' = creditOf r" "takenOver r' = takenOver r" using r' by (simp_all add: creditOf_def takenOver_def)
    moreover have "\<not> takenOver r \<Longrightarrow> creditOf r = 0 \<or> wd_waitingExpiresAt r = None" by (auto simp: takenOver_def creditOf_def)
    ultimately show ?thesis using Some net r' by (auto simp: accountDue_def takenBack_def takenOver_def)
  qed
qed

end
