(* ===== verification/PayrollSettle.thy ===== *)
theory PayrollSettle
  imports PayrollRows
begin

text \<open>
  Every operation of the payroll service keeps the invariant of the accounts, so it holds after any
  sequence of operations; what it says of each withdrawal are the properties at the end.
\<close>

section \<open>Expiry, rejection and proof\<close>

lemma findWithdrawal_updateAssignment [simp]: "findWithdrawal i (updateAssignment a g s) = findWithdrawal i s"
  by (simp add: findWithdrawal_def)

lemma asgs_mem: "findAssignment a s = Some x \<Longrightarrow> x \<in> set (asgs (as_withdrawal x) s) \<and> as_id x = a"
  using findAssignment_mem [of a s x] by simp

lemma edits_one_assignment:
  assumes inv: "payrollInv s" and x: "x \<in> set (assignments s)" "as_withdrawal x = i"
    and g: "\<And>z. as_id (g z) = as_id z" "\<And>z. as_withdrawal (g z) = as_withdrawal z"
  shows "edits i s (updateAssignment (as_id x) g s)"
  by (rule edits_updateAssignment) (use g x inv_asg [OF inv x(1)] in auto)

text \<open>An open assignment given up, and the withdrawal left without one.\<close>

lemma release_inv:
  assumes inv: "payrollInv s" and x: "x \<in> set (assignments s)" "isOpen x" "as_withdrawal x = i"
    and g: "\<And>z. as_id (g z) = as_id z" "\<And>z. as_withdrawal (g z) = as_withdrawal z" "\<And>z. as_status (g z) \<in> {A_EXPIRED, A_REJECTED}"
    and f: "\<And>r. wd_id (f r) = wd_id r" "\<And>r. amountPoints (f r) = amountPoints r" "\<And>r. processedAt (f r) = processedAt r"
      "\<And>r. wd_waitingExpiresAt (f r) = wd_waitingExpiresAt r"
      "\<And>r. findWithdrawal i s = Some r \<Longrightarrow> wd_status (f r) \<in> {PENDING, PENDING_PLATFORM}"
  shows "payrollInv (updateWithdrawal i f (updateAssignment (as_id x) g s))" (is "payrollInv ?s")
proof (rule keep_inv_all [OF inv])
  show "edits i s ?s"
    by (rule edits_trans [OF edits_one_assignment [OF inv x(1,3) g(1,2)] edits_updateWithdrawal [OF f(1)]])
  show "i < nextId (money s)" using inv x by (auto simp: payrollInv_def)
  have fw: "findWithdrawal i ?s = map_option f (findWithdrawal i s)"
    by (simp add: findWithdrawal_update f)
  fix r' assume "findWithdrawal i ?s = Some r'"
  then obtain r where r: "findWithdrawal i s = Some r" "r' = f r" using fw by auto
  have "rowOk (pointRows s) (modify as_id (as_id x) g (asgs i s)) (f r)"
    by (rule rowOk_released [OF inv_row(1) [OF inv r(1)]]) (use x g f r in simp_all)
  then show "rowOk (pointRows ?s) (asgs i ?s) r'" using r by (simp add: asgs_update g)
  show "i \<in> set (platformJobs ?s) \<Longrightarrow> wd_waitingExpiresAt r' \<noteq> None" using inv_row(4) [OF inv r(1)] r f by simp
qed

lemma countAttempt_eq:
  "\<exists>again f. countAttempt i s = (again, updateWithdrawal i f s) \<and> (\<forall>r. wd_id (f r) = wd_id r) \<and> (\<forall>r. amountPoints (f r) = amountPoints r)
     \<and> (\<forall>r. processedAt (f r) = processedAt r) \<and> (\<forall>r. wd_waitingExpiresAt (f r) = wd_waitingExpiresAt r)
     \<and> (\<forall>r. wd_status (f r) = wd_status r \<or> wd_status (f r) = PENDING_PLATFORM)"
proof -
  let ?f = "\<lambda>r. r\<lparr>assignmentCount := assignmentCount r + 1\<rparr>"
  have "countAttempt i s = (False, updateWithdrawal i ?f s) \<or> countAttempt i s = (True, updateWithdrawal i ?f s)
      \<or> countAttempt i s = (False, updateWithdrawal i (\<lambda>r. (?f r)\<lparr>wd_status := PENDING_PLATFORM\<rparr>) s)"
    by (auto simp: countAttempt_def Let_def incrementAssignmentCount_def setStatus_def updateWithdrawal_comp split: option.splits)
  then show ?thesis by (elim disjE; intro exI conjI) (assumption | simp)+
qed

lemma attempt_over_inv:
  assumes inv: "payrollInv s" and x: "x \<in> set (assignments s)" "as_status x = A_PENDING" "as_withdrawal x = i"
    and g: "\<And>z. as_id (g z) = as_id z" "\<And>z. as_withdrawal (g z) = as_withdrawal z" "\<And>z. as_status (g z) \<in> {A_EXPIRED, A_REJECTED}"
    and c: "countAttempt i (updateAssignment (as_id x) g s) = (again, s2)"
  shows "payrollInv (snd (reassign again i (s2\<lparr>slaJobs := js\<rparr>)))"
proof -
  obtain f where s2: "s2 = updateWithdrawal i f (updateAssignment (as_id x) g s)"
    and f: "\<forall>r. wd_id (f r) = wd_id r" "\<forall>r. amountPoints (f r) = amountPoints r" "\<forall>r. processedAt (f r) = processedAt r"
      "\<forall>r. wd_waitingExpiresAt (f r) = wd_waitingExpiresAt r" "\<forall>r. wd_status (f r) = wd_status r \<or> wd_status (f r) = PENDING_PLATFORM"
    using countAttempt_eq [of i "updateAssignment (as_id x) g s"] c by (metis prod.inject)
  have xs: "x \<in> set (asgs i s)" "isOpen x" using x by (simp_all add: isOpen_def)
  have st: "wd_status (f r) \<in> {PENDING, PENDING_PLATFORM}" if r: "findWithdrawal i s = Some r" for r
    using asgOkD(10) [OF rowOkD(5) [OF inv_row(1) [OF inv r] xs(1)] x(2)] f(5) by (metis insertCI)
  have "payrollInv s2" unfolding s2 by (rule release_inv [OF inv x(1) xs(2) x(3)]) (use g f st in auto)
  then have "payrollInv (s2\<lparr>slaJobs := js\<rparr>)" by (rule inv_frame) simp_all
  then show ?thesis by (simp add: reassign_def assignToAgency_inv)
qed

lemma processSlaExpiry_inv:
  assumes inv: "payrollInv s" shows "payrollInv (snd (processSlaExpiry a s))"
proof (cases "findAssignment a s")
  case (Some x)
  note m = findAssignment_mem [OF Some]
  obtain again s2 where c: "countAttempt (as_withdrawal x) (updateAssignment a (\<lambda>r. r\<lparr>as_status := A_EXPIRED\<rparr>) s) = (again, s2)"
    by fastforce
  show ?thesis
  proof (cases "as_status x \<noteq> A_PENDING \<or> now s < as_expiresAt x")
    case False
    then have "payrollInv (snd (reassign again (as_withdrawal x) (s2\<lparr>slaJobs := removeJob a (slaJobs s2)\<rparr>)))"
      using m c by (intro attempt_over_inv [OF inv, of x _ "\<lambda>r. r\<lparr>as_status := A_EXPIRED\<rparr>"]) auto
    then show ?thesis using False Some c by (simp add: processSlaExpiry_def)
  qed (use inv Some in \<open>simp add: processSlaExpiry_def\<close>)
qed (use inv in \<open>simp add: processSlaExpiry_def\<close>)

lemma agentAssignment_Some: "agentAssignment u a s = Some x \<Longrightarrow> findAssignment a s = Some x \<and> as_agency x = u"
  by (auto simp: agentAssignment_def split: option.splits if_splits)

lemma agentRejectPayroll_inv:
  assumes inv: "payrollInv s" shows "payrollInv (snd (agentRejectPayroll u a reason s))"
proof (cases "agentAssignment u a s")
  case (Some x)
  note m = findAssignment_mem [OF conjunct1 [OF agentAssignment_Some [OF Some]]]
  let ?g = "\<lambda>r. r\<lparr>as_status := A_REJECTED, as_rejectedAt := Some (now s), as_rejectionReason := reason\<rparr>"
  obtain again s2 where c: "countAttempt (as_withdrawal x) (updateAssignment a ?g s) = (again, s2)" by fastforce
  show ?thesis
  proof (cases "as_status x \<noteq> A_PENDING \<or> as_expiresAt x \<le> now s")
    case False
    then have "payrollInv (snd (reassign again (as_withdrawal x) (s2\<lparr>slaJobs := removeJob a (slaJobs s2)\<rparr>)))"
      using m c by (intro attempt_over_inv [OF inv, of x _ ?g]) auto
    then show ?thesis using False Some c by (simp add: agentRejectPayroll_def)
  qed (use inv Some in \<open>simp add: agentRejectPayroll_def\<close>)
qed (use inv in \<open>simp add: agentRejectPayroll_def\<close>)

text \<open>Reading the configuration changes a cache only.\<close>

lemma proofChecks_frame: "proofChecks dir i key s = Inr (t, s1) \<Longrightarrow> \<exists>c. s1 = s\<lparr>configCache := c\<rparr>"
proof -
  assume "proofChecks dir i key s = Inr (t, s1)"
  then obtain c where "getPayrollConfig s = Inr (c, s1)" by (auto simp: proofChecks_def andThen_Inr_iff split: if_splits)
  moreover have "\<exists>c. s = s\<lparr>configCache := c\<rparr>" by (rule exI [of _ "configCache s"]) simp
  ultimately show ?thesis by (auto simp: getPayrollConfig_def split: if_splits option.splits)
qed

lemma proofChecks_inv: "proofChecks dir i key s = Inr (t, s1) \<Longrightarrow> payrollInv s \<Longrightarrow> payrollInv s1"
  by (drule proofChecks_frame) (auto intro: inv_frame)

lemma proof_inv:
  assumes inv: "payrollInv s" and x: "x \<in> set (assignments s)" "isOpen x" "as_withdrawal x = i" and r: "findWithdrawal i s = Some r"
    and st: "wd_status r \<noteq> DISPUTED"
    and g: "\<And>z. as_id (g z) = as_id z" "\<And>z. as_withdrawal (g z) = as_withdrawal z" "\<And>z. as_status (g z) = A_WAITING"
  shows "payrollInv (setStatus i WAITING (updateAssignment (as_id x) g s))" (is "payrollInv ?s")
proof (rule keep_inv [OF inv r])
  show "edits i s ?s" unfolding setStatus_def
    by (rule edits_trans [OF edits_one_assignment [OF inv x(1,3) g(1,2)] edits_updateWithdrawal]) simp
  show "findWithdrawal i ?s = Some (r\<lparr>wd_status := WAITING\<rparr>)"
    using r by (simp add: setStatus_def findWithdrawal_update)
  have "rowOk (pointRows s) (modify as_id (as_id x) g (asgs i s)) (r\<lparr>wd_status := WAITING\<rparr>)"
    by (rule rowOk_proof [OF inv_row(1) [OF inv r]]) (use x g st inv_ids [OF inv] in simp_all)
  then show "rowOk (pointRows ?s) (asgs i ?s) (r\<lparr>wd_status := WAITING\<rparr>)" by (simp add: setStatus_def asgs_update g)
  show "i \<in> set (platformJobs ?s) \<Longrightarrow> wd_waitingExpiresAt (r\<lparr>wd_status := WAITING\<rparr>) \<noteq> None"
    using inv_row(4) [OF inv r] by (simp add: setStatus_def)
qed

lemma agentCompletePayroll_inv:
  assumes inv: "payrollInv s" shows "payrollInv (snd (agentCompletePayroll u a key bucket s))"
proof (cases "proofChecks [] a key s")
  case (Inr y)
  obtain t s1 where y: "y = (t, s1)" by fastforce
  have inv1: "payrollInv s1" using proofChecks_inv [OF Inr [unfolded y] inv] .
  show ?thesis
  proof (cases "agentAssignment u a s1")
    case (Some x)
    note m = findAssignment_mem [OF conjunct1 [OF agentAssignment_Some [OF Some]]]
    let ?g = "\<lambda>r. r\<lparr>as_status := A_WAITING, as_proofS3Key := Some key, as_proofS3Bucket := Some bucket, as_waitingExpiresAt := Some t\<rparr>"
    show ?thesis
    proof (cases "as_status x = A_PENDING \<and> now s1 < as_expiresAt x")
      case True
      show ?thesis
      proof (cases "findWithdrawal (as_withdrawal x) s1")
        case (Some r)
        have "wd_status r = PENDING"
          using asgOkD(10) [OF rowOkD(5) [OF inv_row(1) [OF inv1 Some], of x]] m True by simp
        then have "payrollInv (setStatus (as_withdrawal x) WAITING (updateAssignment (as_id x) ?g s1))"
          using m True by (intro proof_inv [OF inv1 _ _ refl Some]) (simp_all add: isOpen_def)
        then have "payrollInv ((setStatus (as_withdrawal x) WAITING (updateAssignment (as_id x) ?g s1))\<lparr>slaJobs := j, waitingJobs := k\<rparr>)" for j k
          by (rule inv_frame) simp_all
        then show ?thesis using Inr y \<open>agentAssignment u a s1 = Some x\<close> True Some m by (simp add: agentCompletePayroll_def Let_def)
      qed (use Inr y Some inv1 True in \<open>simp add: agentCompletePayroll_def\<close>)
    qed (use Inr y Some inv1 in \<open>auto simp: agentCompletePayroll_def\<close>)
  qed (use Inr y inv1 in \<open>simp add: agentCompletePayroll_def\<close>)
qed (use inv in \<open>simp add: agentCompletePayroll_def\<close>)

lemma platformProof_inv:
  assumes inv: "payrollInv s" and r: "findWithdrawal i s = Some r" and st: "wd_status r = PENDING_PLATFORM"
  shows "payrollInv (platformProof i key bucket t s)" (is "payrollInv ?s")
proof -
  let ?r = "r\<lparr>wd_status := WAITING, wd_proofS3Key := Some key, wd_proofS3Bucket := Some bucket, wd_waitingExpiresAt := Some t, payoutRef := Some key\<rparr>"
  have ok: "rowOk (pointRows s) (asgs i s) ?r" by (rule rowOk_platformProof [OF inv_row(1) [OF inv r] st]) simp_all
  show ?thesis
  proof (rule keep_inv [OF inv r])
    show "edits i s ?s" unfolding platformProof_def Let_def
      by (rule edits_trans [OF edits_updateWithdrawal edits_frame]) (auto simp: enqueueJob_def)
    show "findWithdrawal i ?s = Some ?r"
      using r by (simp add: platformProof_def Let_def findWithdrawal_update findWithdrawal_cong [of "platformJobs_update _ _" ])
    show "rowOk (pointRows ?s) (asgs i ?s) ?r" using ok by (simp add: platformProof_def Let_def)
  qed simp
qed

lemma adminCompletePlatformPayout_inv: "payrollInv s \<Longrightarrow> payrollInv (snd (adminCompletePlatformPayout i key bucket s))"
  by (auto simp: adminCompletePlatformPayout_def intro: platformProof_inv proofChecks_inv
    split: sum.split option.split prod.split)

lemma adminCompletePayrollTakeover_inv: "payrollInv s \<Longrightarrow> payrollInv (snd (adminCompletePayrollTakeover i key bucket s))"
  by (auto simp: adminCompletePayrollTakeover_def intro: platformProof_inv proofChecks_inv
    split: sum.split option.split prod.split)

lemma inv_frame_eq: "payrollInv s \<Longrightarrow> withdrawals s' = withdrawals s \<Longrightarrow> assignments s' = assignments s \<Longrightarrow> money s' = money s
    \<Longrightarrow> set (platformJobs s') \<subseteq> set (platformJobs s) \<Longrightarrow> payrollInv s'"
  by (erule inv_frame) simp_all

lemma supersede_inv:
  assumes inv: "payrollInv s" and r: "findWithdrawal i s = Some r" and st: "wd_status r \<in> {PENDING, PENDING_PLATFORM}"
    and pl: "\<not> isPlatformHandledWithdrawal r" and run: "supersede i ag key bucket reason t r s = (a, s2)"
  shows "payrollInv (setStatus i WAITING s2)"
proof (cases "openAssignmentOf i s")
  case None
  show ?thesis
    by (rule create_inv [OF inv r st openAssignmentOf_None [OF None] pl]) (use run None in \<open>auto simp: supersede_def\<close>)
next
  case (Some x)
  note x = openAssignmentOf_Some [OF Some]
  have ps: "wd_status r = PENDING" using asgOkD(9) [OF rowOkD(5) [OF inv_row(1) [OF inv r], of x]] x st by auto
  show ?thesis
  proof (cases "as_agency x = ag")
    case True
    then have "s2 = updateAssignment (as_id x) (\<lambda>z. z\<lparr>as_status := A_WAITING, as_proofS3Key := Some key,
        as_proofS3Bucket := Some bucket, as_waitingExpiresAt := Some t\<rparr>) s" using run Some by (auto simp: supersede_def)
    then show ?thesis using x ps by (simp only:) (rule proof_inv [OF inv _ _ _ r]; simp)
  next
    case False
    let ?g = "\<lambda>z. z\<lparr>as_status := A_REJECTED, as_rejectedAt := Some (now s), as_rejectionReason :=
        Some (''Superseded by admin manual completion for a different agency''
          @ (case reason of None \<Rightarrow> [] | Some y \<Rightarrow> if y = [] then [] else '': '' @ y))\<rparr>"
    let ?f = "\<lambda>q. q\<lparr>assignmentCount := assignmentCount q + 1\<rparr>"
    let ?s = "updateWithdrawal i ?f (updateAssignment (as_id x) ?g s)"
    have inv': "payrollInv ?s" by (rule release_inv [OF inv]) (use x r ps in auto)
    have r': "findWithdrawal i ?s = Some (?f r)"
      using r by (simp add: findWithdrawal_update)
    have "\<not> isLive y" if "y \<in> set (modify as_id (as_id x) ?g (asgs i s))" for y
      by (rule released_dead [OF rowOkD(4) [OF inv_row(1) [OF inv r]] _ _ _ that]) (use x in \<open>auto simp: isLive_def\<close>)
    then have free: "\<forall>y\<in>set (asgs i ?s). \<not> isOpen y" by (simp add: asgs_update isLive_def del: set_filter)
    show ?thesis
      by (rule create_inv [OF inv' r' _ free, of ag t "assignmentCount r + 2" A_WAITING "Some (key, bucket)" "Some t" a s2])
        (use run Some False st pl in \<open>simp_all add: supersede_def incrementAssignmentCount_def Let_def\<close>)
  qed
qed

lemma adminCompletePayrollForAgency_inv:
  assumes inv: "payrollInv s" shows "payrollInv (snd (adminCompletePayrollForAgency i ag key bucket reason s))"
proof (cases "proofChecks ''admin-manual/'' i key s")
  case (Inr y)
  obtain t s1 where y: "y = (t, s1)" by fastforce
  have inv1: "payrollInv s1" using proofChecks_inv [OF Inr [unfolded y] inv] .
  show ?thesis
  proof (cases "findWithdrawal i s1")
    case (Some r)
    obtain a s2 where sup: "supersede i ag key bucket reason t r s1 = (a, s2)" by fastforce
    show ?thesis
    proof (cases "isPlatformHandledWithdrawal r \<or> wd_status r \<notin> {PENDING, PENDING_PLATFORM} \<or> ag = wd_user r \<or> \<not> payrollOk ag s1")
      case True
      then show ?thesis using Inr y Some inv1 by (auto simp: adminCompletePayrollForAgency_def)
    next
      case False
      then have "payrollInv (setStatus i WAITING s2)" by (intro supersede_inv [OF inv1 Some _ _ sup]) simp_all
      then have "payrollInv ((setStatus i WAITING (touchAgencyPayrollTimestamp ag s2))\<lparr>slaJobs := j, waitingJobs := k\<rparr>)" for j k
        by (rule inv_frame) (simp_all add: setStatus_def updateWithdrawal_def touchAgencyPayrollTimestamp_def)
      then show ?thesis using Inr y Some False sup inv1 by (auto simp: adminCompletePayrollForAgency_def Let_def)
    qed
  qed (use Inr y inv1 in \<open>simp add: adminCompletePayrollForAgency_def\<close>)
qed (use inv in \<open>simp add: adminCompletePayrollForAgency_def\<close>)

text \<open>Edits that the account does not depend on.\<close>

lemma edit_assignment_inv:
  assumes inv: "payrollInv s" and x: "x \<in> set (assignments s)"
    and g: "\<And>z. as_id (g z) = as_id z" "\<And>z. as_withdrawal (g z) = as_withdrawal z" "\<And>z. as_status (g z) = as_status z"
  shows "payrollInv (updateAssignment (as_id x) g s)" (is "payrollInv ?s")
proof (rule keep_inv_all [OF inv edits_one_assignment [OF inv x refl g(1,2)]])
  show "as_withdrawal x < nextId (money s)" using inv x by (auto simp: payrollInv_def)
  fix r assume "findWithdrawal (as_withdrawal x) ?s = Some r"
  then have r: "findWithdrawal (as_withdrawal x) s = Some r" by (simp add: findWithdrawal_def)
  have "tag z = tag (g z)" for z using g by (simp add: tag_def)
  then have "map tag (modify as_id (as_id x) g A) = map tag A" for A by (simp add: modify_def)
  then have "tag ` set (modify as_id (as_id x) g A) = tag ` set A" for A by (metis list.set_map)
  then have "rowOk (pointRows s) (modify as_id (as_id x) g (asgs (as_withdrawal x) s)) r"
    by (intro rowOk_same [OF inv_row(1) [OF inv r] _ refl refl refl refl refl refl refl refl])
  then show "rowOk (pointRows ?s) (asgs (as_withdrawal x) ?s) r" by (simp add: asgs_update g)
  show "as_withdrawal x \<in> set (platformJobs ?s) \<Longrightarrow> wd_waitingExpiresAt r \<noteq> None" using inv_row(4) [OF inv r] by simp
qed

lemma edit_withdrawal_inv:
  assumes inv: "payrollInv s" and f: "\<And>r. wd_id (f r) = wd_id r" "\<And>r. amountPoints (f r) = amountPoints r"
    "\<And>r. wd_status (f r) = wd_status r" "\<And>r. processedAt (f r) = processedAt r" "\<And>r. wd_waitingExpiresAt (f r) = wd_waitingExpiresAt r"
    "\<And>r. payoutOf (f r) = payoutOf r" "\<And>r. rewardOf (f r) = rewardOf r"
    "\<And>r. isPlatformHandledWithdrawal (f r) = isPlatformHandledWithdrawal r"
  shows "payrollInv (updateWithdrawal i f s)"
proof (cases "findWithdrawal i s")
  case None
  then have "modify wd_id i f (withdrawals s) = withdrawals s"
    by (simp add: findWithdrawal_def fetch_def find_None_set modify_def map_idI)
  then show ?thesis using inv by (simp add: updateWithdrawal_def)
next
  case (Some r)
  show ?thesis
    by (rule inv_update [OF inv Some f(1)]) (use f in \<open>auto intro!: rowOk_same [OF inv_row(1) [OF inv Some]]\<close>)
qed

lemma foldl_mem: "(\<And>b c. f b c = b \<or> f b c = c) \<Longrightarrow> foldl f a as \<in> set (a # as)"
proof (induction as arbitrary: a)
  case (Cons c as)
  then show ?case by (metis foldl_Cons insert_iff list.simps(15))
qed simp

lemma latestOfAgency_Some: "latestOfAgency i u s = Some x \<Longrightarrow> x \<in> set (assignments s)"
proof (cases "filter (\<lambda>a. as_withdrawal a = i \<and> as_agency a = u) (assignments s)")
  case (Cons a as)
  assume "latestOfAgency i u s = Some x"
  then have "x \<in> set (a # as)" using Cons foldl_mem [of "\<lambda>b c. if as_assignedAt b < as_assignedAt c then c else b" a as]
    by (simp add: latestOfAgency_def)
  then show ?thesis unfolding Cons [symmetric] by simp
qed (simp add: latestOfAgency_def)

lemma adminUpdatePayrollProof_inv: "payrollInv s \<Longrightarrow> payrollInv (snd (adminUpdatePayrollProof i ai ag key bucket s))"
proof -
  assume inv: "payrollInv s"
  let ?g = "\<lambda>r. r\<lparr>as_proofS3Key := Some key, as_proofS3Bucket := Some bucket\<rparr>"
  have "payrollInv (updateAssignment (as_id x) ?g s)" if "x \<in> set (assignments s)" for x
    by (rule edit_assignment_inv [OF inv that]) simp_all
  moreover have "payrollInv (updateWithdrawal i (\<lambda>r. r\<lparr>wd_proofS3Key := Some key, wd_proofS3Bucket := Some bucket\<rparr>) s)"
    by (rule edit_withdrawal_inv [OF inv]) simp_all
  ultimately show ?thesis
    using inv findAssignment_mem [of "the ai" s] latestOfAgency_Some [of i _ s]
    by (auto simp: adminUpdatePayrollProof_def Let_def split: option.split)
qed

section \<open>Settlement\<close>

lemma settle_inv:
  assumes inv: "payrollInv s" and x: "x \<in> set (assignments s)" "as_status x = A_WAITING" "as_withdrawal x = i"
    and r: "findWithdrawal i s = Some r" and run: "settleAssignment x r suffix s = Inr (y, s')"
  shows "payrollInv s'"
proof -
  let ?g = "\<lambda>z. z\<lparr>as_status := A_COMPLETED, as_completedAt := Some (now s)\<rparr>"
  let ?f = "\<lambda>q. q\<lparr>wd_status := PAID, processedAt := Some (now s),
    payoutRef := (case as_proofS3Key x of None \<Rightarrow> payoutRef q | Some k \<Rightarrow> Some k)\<rparr>"
  let ?s = "updateWithdrawal i ?f (updateAssignment (as_id x) ?g s)"
  let ?pay = "keyFor ''payroll-host-payout'' (as_id x)" let ?rew = "keyFor ''payroll-reward'' (as_id x)"
  note row = inv_row [OF inv r]
  have xs: "x \<in> set (asgs i s)" using x by simp
  note ax = asgOkD [OF rowOkD(5) [OF row(1) xs]]
  have ed: "edits i s ?s" by (rule edits_trans [OF edits_one_assignment [OF inv x(1,3)] edits_updateWithdrawal]) simp_all
  have gx: "?g x \<in> set (asgs i ?s)" using xs by (simp add: asgs_update modify_set del: set_filter) (rule bexI [of _ x], simp_all)
  obtain s3 s4 where c3: "creditIfPositive (as_agency x) (payoutOf r) P_PAYROLL_HOST_PAYOUT ?pay i (Some (wd_user r))
        (''Payroll host payout'' @ suffix) ?s = Inr ((), s3)"
    and c4: "creditIfPositive (as_agency x) (rewardOf r) P_PAYROLL_PROCESSING_REWARD ?rew i (Some (wd_user r))
        (''Payroll processing reward'' @ suffix) s3 = Inr ((), s4)"
    and last: "\<not> (posted (keyFor ''withdrawal-escrow'' i) s4 \<and> \<not> posted (keyFor ''withdrawal-debit'' i) s4) \<Longrightarrow> s' = s4"
    using run row(2) unfolding settleAssignment_def Let_def by (auto simp: andThen_Inr_iff split: if_splits)
  have g3: "grows i (keyIf (payoutOf r) ?pay) (max 0 (payoutOf r)) ?s s3"
    by (rule creditIfPositive_grows [OF c3]) (use ax(1) x(2) ownKey_assignment [OF _ gx, of "''payroll-host-payout''"] in \<open>simp_all add: posted_keyIn\<close>)
  note v3 = grows_views [OF g3]
  have "\<not> posted ?rew s3" using ax(2) x(2) by (simp add: posted_keyIn v3(10) keyFor_inject)
  moreover have "ownKey i s3 ?rew" using ownKey_assignment [of "''payroll-reward''" "?g x" i s3] gx v3(2) by simp
  ultimately have g4: "grows i (keyIf (rewardOf r) ?rew) (max 0 (rewardOf r)) s3 s4"
    by (intro creditIfPositive_grows [OF c4]) simp_all
  note g = grows_trans [OF g3 g4] note v = grows_views [OF g]
  have "posted (keyFor ''withdrawal-debit'' i) s4"
    using rowOkD(2) [OF row(1)] row(2) by (simp add: posted_keyIn v(10) keysOk_def)
  then have s': "s' = s4" using last by simp
  have "rowOk (pointRows s4) (modify as_id (as_id x) ?g (asgs i s)) (?f r)"
  proof (rule rowOk_settled [OF row(1) xs x(2) inv_ids [OF inv]])
    show "net (wd_id r) (pointRows s4) = net (wd_id r) (pointRows s) + (max 0 (payoutOf r) + max 0 (rewardOf r))"
      using v(9) row(2) by simp
    show "keyIn k (pointRows s4) \<longleftrightarrow> keyIn k (pointRows s) \<or> k \<in> keyIf (payoutOf r) ?pay \<union> keyIf (rewardOf r) ?rew" for k
      using v(10) [of k] by simp
  qed (simp_all)
  then have ok: "rowOk (pointRows s') (asgs i s') (?f r)" using v(2) s' by (simp add: asgs_update)
  show ?thesis
  proof (rule keep_inv [OF inv r _ _ ok])
    show "edits i s s'" unfolding s' by (rule edits_trans [OF ed v(8)])
    show "findWithdrawal i s' = Some (?f r)" unfolding s' using r v(1) by (simp add: findWithdrawal_cong [OF v(1)] findWithdrawal_update)
    show "i \<in> set (platformJobs s') \<Longrightarrow> wd_waitingExpiresAt (?f r) \<noteq> None" using row(4) v(3) s' by simp
  qed
qed

text \<open>What follows the commit: caches and jobs.\<close>

lemma caches_frame:
  "withdrawals (dropPointCaches u s) = withdrawals s" "assignments (dropPointCaches u s) = assignments s"
  "pointRows (dropPointCaches u s) = pointRows s" "nextId (money (dropPointCaches u s)) = nextId (money s)"
  "platformJobs (dropPointCaches u s) = platformJobs s" "withdrawals (dropUnconfirmedCache u s) = withdrawals s"
  "assignments (dropUnconfirmedCache u s) = assignments s" "pointRows (dropUnconfirmedCache u s) = pointRows s"
  "nextId (money (dropUnconfirmedCache u s)) = nextId (money s)" "platformJobs (dropUnconfirmedCache u s) = platformJobs s"
  by (simp_all add: dropPointCaches_def dropUnconfirmedCache_def adjustPointBalanceCache_def bustUnconfirmedCache_def Let_def
    split: option.split)

lemma cleanup_inv:
  assumes inv: "payrollInv s"
  shows "payrollInv (dropPointCaches u s)" "payrollInv (dropUnconfirmedCache u s)" "payrollInv (s\<lparr>waitingJobs := js\<rparr>)"
    "payrollInv (s\<lparr>slaJobs := js\<rparr>)" "payrollInv (s\<lparr>platformJobs := removeJob i (platformJobs s)\<rparr>)"
    "payrollInv (recordCompanyCash reason w s)"
  by (rule inv_frame [OF inv]; auto simp: caches_frame removeJob_def recordCompanyCash_def split: option.split)+

lemma autoCompleteWaiting_inv:
  assumes inv: "payrollInv s" shows "payrollInv (snd (autoCompleteWaiting a s))"
proof (cases "findAssignment a s")
  case (Some x)
  note m = findAssignment_mem [OF Some]
  show ?thesis
  proof (cases "findWithdrawal (as_withdrawal x) s")
    case (Some r)
    let ?tx = "\<lambda>s. if as_status x \<noteq> A_WAITING \<or> windowOpen (as_waitingExpiresAt x) s then Inr ((), s) else settleAssignment x r [] s"
    have "payrollInv s1" if "?tx s = Inr (y, s1)" for y s1
      using that inv settle_inv [OF inv _ _ refl Some, of "[]" y s1] m by (auto split: if_splits)
    then show ?thesis
      using inv Some \<open>findAssignment a s = Some x\<close>
      by (auto simp: autoCompleteWaiting_def transact_def afterwards_def cleanup_inv split: sum.split)
  qed (use Some inv in \<open>simp add: autoCompleteWaiting_def\<close>)
qed (use inv in \<open>simp add: autoCompleteWaiting_def\<close>)

lemma processWaitingAutoComplete_inv: "payrollInv s \<Longrightarrow> payrollInv (snd (processWaitingAutoComplete a s))"
  by (simp add: processWaitingAutoComplete_def autoCompleteWaiting_inv split: option.split)

lemma platform_paid_inv:
  assumes inv: "payrollInv s" and r: "findWithdrawal i s = Some r" and pl: "isPlatformHandledWithdrawal r" and st: "wd_status r \<noteq> FAILED"
  shows "payrollInv (markPaid i s)"
  unfolding markPaid_def by (rule inv_update [OF inv r]) (use pl st in \<open>auto intro!: rowOk_platformPaid [OF inv_row(1) [OF inv r]]\<close>)

lemma autoCompletePlatformWaiting_inv:
  assumes inv: "payrollInv s" shows "payrollInv (snd (autoCompletePlatformWaiting i s))"
proof (cases "findWithdrawal i s")
  case (Some r)
  then show ?thesis
    using inv platform_paid_inv [OF inv Some]
    by (auto simp: autoCompletePlatformWaiting_def Let_def cleanup_inv)
qed (use inv in \<open>simp add: autoCompletePlatformWaiting_def\<close>)

lemma autoCompleteTakeoverWaiting_inv:
  assumes inv: "payrollInv s" and job: "i \<in> set (platformJobs s)"
  shows "payrollInv (snd (autoCompleteTakeoverWaiting i s))"
proof (cases "findWithdrawal i s")
  case (Some r)
  note row = inv_row [OF inv Some]
  have we: "wd_waitingExpiresAt r \<noteq> None" using row(4) [OF job] .
  let ?f = "\<lambda>q. q\<lparr>wd_status := PAID, processedAt := Some (now s),
    payoutRef := (case wd_proofS3Key q of None \<Rightarrow> payoutRef q | Some k \<Rightarrow> Some k)\<rparr>"
  have mp: "markPaid i s = updateWithdrawal i ?f s" by (simp add: markPaid_def)
  let ?take = "keyFor ''payroll-takeover'' i" let ?rew = "keyFor ''payroll-takeover-reward'' i"
  have tx: "payrollInv s4"
    if st: "wd_status r = WAITING" "\<not> isPlatformHandledWithdrawal r"
      and c3: "creditIfPositive u (payoutOf r) P_PAYROLL_TAKEOVER_INVENTORY ?take i (Some (wd_user r)) d (markPaid i s) = Inr (y, s3)"
      and c4: "creditIfPositive u (rewardOf r) P_PAYROLL_PROCESSING_REWARD ?rew i (Some (wd_user r)) d' s3 = Inr (y', s4)"
    for u d d' y y' s3 s4
  proof -
    have "processedAt r = None" using statusOkD(1) [OF rowOkD(3) [OF row(1)]] st(1) by (cases "processedAt r") auto
    then have free: "\<not> keyIn ?take (pointRows s)" "\<not> keyIn ?rew (pointRows s)" using rowOkD(2) [OF row(1)] row(2) by (auto simp: keysOk_def)
    have g3: "grows i (keyIf (payoutOf r) ?take) (max 0 (payoutOf r)) (markPaid i s) s3"
      by (rule creditIfPositive_grows [OF c3]) (use free ownKey_withdrawal in \<open>simp_all add: posted_keyIn mp\<close>)
    have g4: "grows i (keyIf (rewardOf r) ?rew) (max 0 (rewardOf r)) s3 s4"
      by (rule creditIfPositive_grows [OF c4])
        (use free ownKey_withdrawal in \<open>simp_all add: posted_keyIn grows_views(10) [OF g3] mp keyFor_inject\<close>)
    note v = grows_views [OF grows_trans [OF g3 g4]]
    have ok: "rowOk (pointRows s4) (asgs i s4) (?f r)"
    proof (rule rowOk_takeover [of "pointRows s" _ r])
      show "rowOk (pointRows s) (asgs i s4) r" using row(1) v(2) by (simp add: mp)
      show "net (wd_id r) (pointRows s4) = net (wd_id r) (pointRows s) + (max 0 (payoutOf r) + max 0 (rewardOf r))"
        using v(9) row(2) by (simp add: mp)
      show "keyIn k (pointRows s4) \<longleftrightarrow> keyIn k (pointRows s) \<or> k \<in> keyIf (payoutOf r) (keyFor ''payroll-takeover'' (wd_id r))
          \<union> keyIf (rewardOf r) (keyFor ''payroll-takeover-reward'' (wd_id r))" for k
        using v(10) [of k] row(2) by (simp add: mp)
    qed (use st we in simp_all)
    show ?thesis
    proof (rule keep_inv [OF inv Some _ _ ok])
      show "edits i s s4" by (rule edits_trans [OF _ v(8)]) (simp add: mp edits_updateWithdrawal)
      show "findWithdrawal i s4 = Some (?f r)" using Some by (simp add: findWithdrawal_cong [OF v(1)] mp findWithdrawal_update)
    qed (use we in simp)
  qed
  show ?thesis
  proof (cases "wd_status r \<noteq> WAITING \<or> isPlatformHandledWithdrawal r \<or> windowOpen (wd_waitingExpiresAt r) s")
    case False
    then show ?thesis
      using Some inv tx
      by (auto simp: autoCompleteTakeoverWaiting_def transact_def afterwards_def andThen_Inr_iff cleanup_inv split: sum.split)
  qed (use Some inv in \<open>simp add: autoCompleteTakeoverWaiting_def\<close>)
qed (use inv in \<open>simp add: autoCompleteTakeoverWaiting_def\<close>)

lemma processPlatformWaitingAutoComplete_inv:
  "payrollInv s \<Longrightarrow> i \<in> set (platformJobs s) \<Longrightarrow> payrollInv (snd (processPlatformWaitingAutoComplete i s))"
  by (simp add: processPlatformWaitingAutoComplete_def autoCompletePlatformWaiting_inv autoCompleteTakeoverWaiting_inv split: option.split)

section \<open>Disputes\<close>

lemma waitingAssignmentOf_None: "waitingAssignmentOf i s = None \<Longrightarrow> a \<in> set (asgs i s) \<Longrightarrow> as_status a \<noteq> A_WAITING"
  by (auto simp: waitingAssignmentOf_def assignmentsOf_def filter_empty_conv split: list.splits)

lemma disputeWithdrawal_inv:
  assumes inv: "payrollInv s" shows "payrollInv (snd (disputeWithdrawal u i ticket s))"
proof (cases "findWithdrawal i s")
  case (Some r)
  note row = inv_row [OF inv Some]
  show ?thesis
  proof (cases "\<exists>t. ticket = Inr t \<and> wd_user r = u \<and> disputeTicketId r = None \<and> disputeAllowed r (waitingAssignmentOf i s \<noteq> None) s = Inr ()")
    case True
    then obtain t where t: "ticket = Inr t" "wd_user r = u" "disputeTicketId r = None"
      and al: "disputeAllowed r (waitingAssignmentOf i s \<noteq> None) s = Inr ()" by blast
    have st: "wd_status r \<in> {PENDING, WAITING, PAID}" "wd_status r = PENDING \<Longrightarrow> waitingAssignmentOf i s \<noteq> None"
      using al by (auto simp: disputeAllowed_def Let_def split: if_splits)
    have no: "as_status a \<noteq> A_PENDING" if a: "a \<in> set (asgs i s)" for a
    proof
      assume p: "as_status a = A_PENDING"
      then have "wd_status r = PENDING" using asgOkD(10) [OF rowOkD(5) [OF row(1) a]] by simp
      then obtain b where b: "b \<in> set (asgs i s)" "as_status b = A_WAITING" using st(2) waitingAssignmentOf_Some by blast
      have "as_id b = as_id a" using rowOkD(4) [OF row(1)] a b p unfolding oneLive_def isLive_def isOpen_def by blast
      then show False using same_asg [OF inv_ids [OF inv] a b(1)] b p by simp
    qed
    have "payrollInv (updateWithdrawal i (\<lambda>r. r\<lparr>wd_status := DISPUTED, disputeTicketId := Some t\<rparr>) s)"
      by (rule inv_update [OF inv Some]) (use rowOk_disputed [OF row(1) st(1) no] in simp_all)
    then show ?thesis
      using Some t al by (simp add: disputeWithdrawal_def Let_def cleanup_inv split: option.split)
  next
    case False
    then show ?thesis using Some inv by (auto simp: disputeWithdrawal_def Let_def split: sum.split)
  qed
qed (use inv in \<open>simp add: disputeWithdrawal_def\<close>)

lemma adminResolvePlatformDisputePaid_inv:
  assumes inv: "payrollInv s" shows "payrollInv (snd (adminResolvePlatformDisputePaid i s))"
proof (cases "findWithdrawal i s")
  case (Some r)
  show ?thesis
  proof (cases "wd_status r = DISPUTED \<and> isPlatformHandledWithdrawal r")
    case True
    then have "payrollInv (markPaid i s)" using platform_paid_inv [OF inv Some] by simp
    then have "payrollInv (updateWithdrawal i (\<lambda>r. r\<lparr>disputeTicketId := None, failReason := None\<rparr>) (markPaid i s))"
      by (rule edit_withdrawal_inv) simp_all
    from cleanup_inv(5) [OF this, of i] show ?thesis using Some True by (simp add: adminResolvePlatformDisputePaid_def Let_def)
  qed (use Some inv in \<open>auto simp: adminResolvePlatformDisputePaid_def\<close>)
qed (use inv in \<open>simp add: adminResolvePlatformDisputePaid_def\<close>)

lemma adminResolveDisputeFavourAgent_inv:
  assumes inv: "payrollInv s" shows "payrollInv (snd (adminResolveDisputeFavourAgent i reason s))"
proof (cases "findWithdrawal i s")
  case (Some r)
  show ?thesis
  proof (cases "wd_status r = DISPUTED \<and> \<not> isPlatformHandledWithdrawal r")
    case True
    show ?thesis
    proof (cases "waitingAssignmentOf i s")
      case (Some x)
      note x = waitingAssignmentOf_Some [OF Some]
      have "payrollInv s1" if "settleAssignment x r suffix s = Inr (y, s1)" for suffix y s1
        by (rule settle_inv [OF inv _ _ _ \<open>findWithdrawal i s = Some r\<close> that]) (use x in simp_all)
      then have "payrollInv (updateWithdrawal i (\<lambda>r. r\<lparr>disputeTicketId := None, failReason := None\<rparr>) s1)"
        if "settleAssignment x r suffix s = Inr (y, s1)" for suffix y s1
        using that by (intro edit_withdrawal_inv) simp_all
      then show ?thesis
        using inv Some True \<open>findWithdrawal i s = Some r\<close>
        by (auto simp: adminResolveDisputeFavourAgent_def transact_def afterwards_def andThen_def cleanup_inv split: sum.split)
    qed (use Some inv True in \<open>simp add: adminResolveDisputeFavourAgent_def\<close>)
  qed (use Some inv in \<open>auto simp: adminResolveDisputeFavourAgent_def adminResolvePlatformDisputePaid_inv\<close>)
qed (use inv in \<open>simp add: adminResolveDisputeFavourAgent_def\<close>)

section \<open>Refunds and reversal\<close>

lemma andThen_pair: "andThen c (\<lambda>(x, s). f x s) = Inr y \<longleftrightarrow> (\<exists>x s. c = Inr (x, s) \<and> f x s = Inr y)"
  by (cases c) auto

definition backOf :: "bool \<Rightarrow> int \<Rightarrow> int" where
  "backOf p amt = (if 0 < amt \<and> p then amt else 0)"

lemma takeBackCredits_grows:
  assumes run: "takeBackCredits x r suffix s = Inr (y, s')" and x: "x \<in> set (asgs i s)" and i: "wd_id r = i"
    and free: "\<not> keyIn (keyFor ''payroll-host-payout-reversal'' (as_id x)) (pointRows s)"
      "\<not> keyIn (keyFor ''payroll-reward-reversal'' (as_id x)) (pointRows s)"
  shows "\<exists>K \<subseteq> {keyFor ''payroll-host-payout-reversal'' (as_id x), keyFor ''payroll-reward-reversal'' (as_id x)}.
    grows i K (- backOf (keyIn (keyFor ''payroll-host-payout'' (as_id x)) (pointRows s)) (payoutOf r)
      + - backOf (keyIn (keyFor ''payroll-reward'' (as_id x)) (pointRows s)) (rewardOf r)) s s'"
proof -
  obtain u1 s1 where t1: "takeBack (as_agency x) (payoutOf r) ''payroll-host-payout'' ''payroll-host-payout-reversal'' (as_id x) i
        (''Payroll host payout reversal'' @ suffix) s = Inr (u1, s1)"
    and t2: "takeBack (as_agency x) (rewardOf r) ''payroll-reward'' ''payroll-reward-reversal'' (as_id x) i
        (''Payroll reward reversal'' @ suffix) s1 = Inr (y, s')"
    using run i by (auto simp: takeBackCredits_def andThen_Inr_iff)
  let ?K1 = "if 0 < payoutOf r \<and> posted (keyFor ''payroll-host-payout'' (as_id x)) s then {keyFor ''payroll-host-payout-reversal'' (as_id x)} else {}"
  have g1: "grows i ?K1 (- backOf (posted (keyFor ''payroll-host-payout'' (as_id x)) s) (payoutOf r)) s s1"
    unfolding backOf_def by (rule takeBack_grows [OF t1]) (use free ownKey_assignment [OF _ x] in \<open>simp_all add: posted_keyIn\<close>)
  note v1 = grows_views [OF g1]
  have p1: "posted (keyFor ''payroll-reward'' (as_id x)) s1 \<longleftrightarrow> posted (keyFor ''payroll-reward'' (as_id x)) s"
    unfolding posted_keyIn v1(10) by (simp add: keyFor_inject)
  have "\<not> posted (keyFor ''payroll-reward-reversal'' (as_id x)) s1" 
    unfolding posted_keyIn v1(10) using free(2) by (simp add: keyFor_inject)
  moreover have "ownKey i s1 (keyFor ''payroll-reward-reversal'' (as_id x))" by (rule ownKey_assignment) (use x v1(2) in simp_all)
  ultimately have g2: "grows i (if 0 < rewardOf r \<and> posted (keyFor ''payroll-reward'' (as_id x)) s1 then {keyFor ''payroll-reward-reversal'' (as_id x)} else {})
      (- backOf (posted (keyFor ''payroll-reward'' (as_id x)) s) (rewardOf r)) s1 s'" (is "grows i ?K2 _ _ _")
    unfolding backOf_def p1 [symmetric] by (rule takeBack_grows [OF t2])
  have "?K1 \<union> ?K2 \<subseteq> {keyFor ''payroll-host-payout-reversal'' (as_id x), keyFor ''payroll-reward-reversal'' (as_id x)}" by auto
  then show ?thesis using grows_trans [OF g1 g2]
    unfolding posted_keyIn [symmetric] by (intro exI [of _ "?K1 \<union> ?K2"] conjI)
qed

lemma pickFirst_mem:
  assumes "(case filter P xs of [] \<Rightarrow> None | a # as \<Rightarrow> Some (foldl f a as)) = Some x" "\<And>b c. f b c = b \<or> f b c = c"
  shows "x \<in> set xs \<and> P x"
proof (cases "filter P xs")
  case (Cons a as)
  then have "x \<in> set (a # as)" using assms(1) foldl_mem [of f a as, OF assms(2)] by simp
  then have "x \<in> set (filter P xs)" unfolding Cons .
  then show ?thesis by simp
qed (use assms in simp)

lemma findWaiting_Some: "findWaitingByWithdrawalId i s = Some x \<Longrightarrow> x \<in> set (asgs i s) \<and> as_status x = A_WAITING"
  unfolding findWaitingByWithdrawalId_def assignmentsOf_def by (drule pickFirst_mem) auto

lemma findCompleted_Some: "findCompletedForWithdrawal i s = Some x \<Longrightarrow> x \<in> set (asgs i s) \<and> as_status x = A_COMPLETED"
  unfolding findCompletedForWithdrawal_def assignmentsOf_def by (drule pickFirst_mem) (auto split: option.splits)

lemma findCompleted_None: "findCompletedForWithdrawal i s = None \<Longrightarrow> a \<in> set (asgs i s) \<Longrightarrow> as_status a \<noteq> A_COMPLETED"
  by (auto simp: findCompletedForWithdrawal_def assignmentsOf_def filter_empty_conv split: list.splits)

lemma creditAssignment_cases:
  assumes inv: "payrollInv s" and r: "findWithdrawal i s = Some r" and c: "creditAssignmentOf i s = ca"
  obtains "ca = None" "takenBack r = 0"
  | x where "ca = Some x" "x \<in> set (asgs i s)" "takenBack r = backOf (keyIn (keyFor ''payroll-host-payout'' (as_id x)) (pointRows s)) (payoutOf r)
      + backOf (keyIn (keyFor ''payroll-reward'' (as_id x)) (pointRows s)) (rewardOf r)"
proof (cases ca)
  case None
  note row = inv_row [OF inv r]
  have "findCompletedForWithdrawal i s = None" using c None by (simp add: creditAssignmentOf_def split: option.splits)
  then have "takenBack r = 0"
    using statusOkD(4) [OF rowOkD(3) [OF row(1)]] findCompleted_None by (auto simp: takenBack_def creditOf_def)
  with None that(1) show thesis by simp
next
  case (Some x)
  note row = inv_row [OF inv r]
  have x: "x \<in> set (asgs i s) \<and> (as_status x = A_WAITING \<or> as_status x = A_COMPLETED)"
    using c Some findWaiting_Some [of i s x] findCompleted_Some [of i s x] by (auto simp: creditAssignmentOf_def split: option.splits)
  note ax = asgOkD [OF rowOkD(5) [OF row(1) conjunct1 [OF x]]]
  have "takenBack r = backOf (keyIn (keyFor ''payroll-host-payout'' (as_id x)) (pointRows s)) (payoutOf r)
      + backOf (keyIn (keyFor ''payroll-reward'' (as_id x)) (pointRows s)) (rewardOf r)"
  proof (cases "as_status x = A_COMPLETED")
    case True
    then have "isLive x" by (simp add: isLive_def)
    then show ?thesis using True ax(1,2,7) ax(5,6) by (simp add: takenBack_def creditOf_def backOf_def)
  next
    case False
    then have "isOpen x" using x by (simp add: isOpen_def)
    then show ?thesis using False ax(1,2,8) by (simp add: takenBack_def backOf_def)
  qed
  with Some x that(2) show thesis by blast
qed

text \<open>The state of a failed withdrawal.\<close>

lemma failed_inv:
  assumes inv: "payrollInv s" and r: "findWithdrawal i s = Some r" and st: "wd_status r \<noteq> FAILED"
    and g: "grows i K (amountPoints r - takenBack r) s s3"
    and K: "\<And>p n. keyFor p n \<in> K \<Longrightarrow> p \<in> set (withdrawalPrefixes @ assignmentPrefixes)
         \<Longrightarrow> p \<in> {''withdrawal-refund'', ''payroll-host-payout-reversal'', ''payroll-reward-reversal''}"
    and s4: "openAssignmentOf i s = None \<and> s4 = s3
      \<or> (\<exists>z h. openAssignmentOf i s = Some z \<and> s4 = updateAssignment (as_id z) h s3 \<and> (\<forall>a. as_id (h a) = as_id a)
           \<and> (\<forall>a. as_withdrawal (h a) = as_withdrawal a) \<and> (\<forall>a. as_status (h a) = A_EXPIRED))"
    and f: "\<And>q. wd_id (f q) = wd_id q" "\<And>q. amountPoints (f q) = amountPoints q" "\<And>q. wd_status (f q) = FAILED" "\<And>q. processedAt (f q) = processedAt q"
      "\<And>q. wd_waitingExpiresAt (f q) = wd_waitingExpiresAt q" "\<And>q. payoutOf (f q) = payoutOf q" "\<And>q. rewardOf (f q) = rewardOf q"
      "\<And>q. isPlatformHandledWithdrawal (f q) = isPlatformHandledWithdrawal q"
  shows "payrollInv (updateWithdrawal i f s4)" (is "payrollInv ?s")
proof -
  note row = inv_row [OF inv r] note v = grows_views [OF g]
  have ed: "edits i s s4" and w4: "withdrawals s4 = withdrawals s" "pointRows s4 = pointRows s3" "platformJobs s4 = platformJobs s"
    and A: "\<And>y. y \<in> set (asgs i s4) \<Longrightarrow> \<exists>z\<in>set (asgs i s). as_id y = as_id z \<and> \<not> isOpen y \<and> (as_status y = as_status z \<or> isOpen z \<and> \<not> isLive y)"
      "\<And>z. z \<in> set (asgs i s) \<Longrightarrow> as_status z = A_COMPLETED \<Longrightarrow> \<exists>y\<in>set (asgs i s4). as_status y = A_COMPLETED"
  proof -
    have "edits i s s4 \<and> withdrawals s4 = withdrawals s \<and> pointRows s4 = pointRows s3 \<and> platformJobs s4 = platformJobs s
      \<and> (\<forall>y\<in>set (asgs i s4). \<exists>z\<in>set (asgs i s). as_id y = as_id z \<and> \<not> isOpen y \<and> (as_status y = as_status z \<or> isOpen z \<and> \<not> isLive y))
      \<and> (\<forall>z\<in>set (asgs i s). as_status z = A_COMPLETED \<longrightarrow> (\<exists>y\<in>set (asgs i s4). as_status y = A_COMPLETED))"
    proof (cases "openAssignmentOf i s")
      case None
      then show ?thesis using v openAssignmentOf_None [OF None] s4 by (simp del: set_filter) blast
    next
      case (Some z)
      then obtain h where 2: "openAssignmentOf i s = Some z" "s4 = updateAssignment (as_id z) h s3" "\<forall>a. as_id (h a) = as_id a"
          "\<forall>a. as_withdrawal (h a) = as_withdrawal a" "\<forall>a. as_status (h a) = A_EXPIRED" using s4 by auto
      note z = openAssignmentOf_Some [OF 2(1)]
      have lz: "isLive z" using z by (simp add: isLive_def)
      have e: "asgs i s4 = modify as_id (as_id z) h (asgs i s)" using 2 v(2) by (simp add: asgs_update)
      have "edits i s3 s4" unfolding 2(2)
        by (rule edits_updateAssignment) (use 2 z v(2) inv_asg [OF inv, of z] in auto)
      moreover have "\<exists>w\<in>set (asgs i s). as_id y = as_id w \<and> \<not> isOpen y \<and> (as_status y = as_status w \<or> isOpen w \<and> \<not> isLive y)"
        if y: "y \<in> set (asgs i s4)" for y
      proof -
        obtain w where w: "w \<in> set (asgs i s)" "y = (if as_id w = as_id z then h w else w)" using y unfolding e modify_set by blast
        show ?thesis
        proof (cases "as_id w = as_id z")
          case True
          then have "w = z" using same_asg [OF inv_ids [OF inv] _ w(1)] z by blast
          then show ?thesis using w z 2(3,5) True by (intro bexI [of _ w]) (simp_all add: isLive_def isOpen_def)
        next
          case False
          then have "\<not> isLive w" using others_dead [OF rowOkD(4) [OF row(1)] _ lz w(1)] z by blast
          then show ?thesis using w False by (intro bexI [of _ w]) (simp_all add: isLive_def)
        qed
      qed
      moreover have False if w: "w \<in> set (asgs i s)" "as_status w = A_COMPLETED" for w
      proof -
        have "as_id w = as_id z" using rowOkD(4) [OF row(1)] w z lz unfolding oneLive_def isLive_def by blast
        then have "w = z" using same_asg [OF inv_ids [OF inv] _ w(1)] z by blast
        then show False using w z by (simp add: isOpen_def)
      qed
      ultimately show ?thesis using 2(2) v edits_trans [OF v(8)] by (simp del: set_filter) blast
    qed
    then show "edits i s s4" "withdrawals s4 = withdrawals s" "pointRows s4 = pointRows s3" "platformJobs s4 = platformJobs s"
      "\<And>y. y \<in> set (asgs i s4) \<Longrightarrow> \<exists>z\<in>set (asgs i s). as_id y = as_id z \<and> \<not> isOpen y \<and> (as_status y = as_status z \<or> isOpen z \<and> \<not> isLive y)"
      "\<And>z. z \<in> set (asgs i s) \<Longrightarrow> as_status z = A_COMPLETED \<Longrightarrow> \<exists>y\<in>set (asgs i s4). as_status y = A_COMPLETED" by blast+
  qed
  have "rowOk (pointRows s3) (asgs i s4) (f r)"
  proof (rule rowOk_failed [OF row(1) st _ _ K A])
    show "net (wd_id r) (pointRows s3) = net (wd_id r) (pointRows s) + (amountPoints r - takenBack r)" using v(9) row(2) by simp
  qed (use f v(10) in simp_all)
  then have ok: "rowOk (pointRows ?s) (asgs i ?s) (f r)" using w4 by simp
  show ?thesis
  proof (rule keep_inv [OF inv r edits_trans [OF ed edits_updateWithdrawal [OF f(1)]] _ ok])
    show "findWithdrawal i ?s = Some (f r)" using r by (simp add: findWithdrawal_update f findWithdrawal_cong [OF w4(1)])
    show "i \<in> set (platformJobs ?s) \<Longrightarrow> wd_waitingExpiresAt (f r) \<noteq> None" using row(4) w4(3) f(5) by simp
  qed
qed

lemma refund_keys:
  assumes "keyFor p n \<in> insert (keyFor ''withdrawal-refund'' i) K" "p \<in> set (withdrawalPrefixes @ assignmentPrefixes)"
    "K \<subseteq> {keyFor ''payroll-host-payout-reversal'' a, keyFor ''payroll-reward-reversal'' a}"
  shows "p \<in> {''withdrawal-refund'', ''payroll-host-payout-reversal'', ''payroll-reward-reversal''}"
proof -
  have "keyFor p n = keyFor ''withdrawal-refund'' i \<or> keyFor p n = keyFor ''payroll-host-payout-reversal'' a
      \<or> keyFor p n = keyFor ''payroll-reward-reversal'' a" using assms(1,3) by blast
  then show ?thesis using prefix_no_colon [OF assms(2)] by (auto simp: keyFor_inject)
qed

lemma refund_grows:
  assumes inv: "payrollInv s" and r: "findWithdrawal i s = Some r" and st: "wd_status r \<noteq> FAILED"
    and run: "creditPoints u amt P_WITHDRAWAL_REFUND (keyFor ''withdrawal-refund'' i) i cp desc s = Inr (y, s1)"
  shows "grows i {keyFor ''withdrawal-refund'' i} amt s s1"
proof (rule creditPoints_grows [OF run])
  show "\<not> posted (keyFor ''withdrawal-refund'' i) s"
    using rowOkD(2) [OF inv_row(1) [OF inv r]] inv_row(2) [OF inv r] st by (auto simp: posted_keyIn keysOk_def)
qed (simp_all add: ownKey_withdrawal)

lemma debit_posted: "payrollInv s \<Longrightarrow> findWithdrawal i s = Some r \<Longrightarrow> posted (keyFor ''withdrawal-debit'' i) s \<and> \<not> posted (keyFor ''withdrawal-escrow'' i) s"
  using rowOkD(2) [OF inv_row(1)] inv_row(2) by (auto simp: posted_keyIn keysOk_def)

lemma adminResolvePlatformDisputeRefund_inv:
  assumes inv: "payrollInv s" shows "payrollInv (snd (adminResolvePlatformDisputeRefund i reason s))"
proof (cases "findWithdrawal i s")
  case (Some r)
  note row = inv_row [OF inv Some]
  show ?thesis
  proof (cases "wd_status r = DISPUTED \<and> isPlatformHandledWithdrawal r")
    case True
    let ?f = "\<lambda>r. r\<lparr>wd_status := FAILED, failReason := Some reason, disputeTicketId := None\<rparr>"
    have "openAssignmentOf i s = None"
    proof (rule ccontr)
      assume "openAssignmentOf i s \<noteq> None"
      then obtain a where "a \<in> set (asgs i s)" "isOpen a" using openAssignmentOf_Some by blast
      then show False using asgOkD(5) [OF rowOkD(5) [OF row(1)]] True isOpen_live(1) by blast
    qed
    moreover have "takenBack r = 0" using True by (simp add: takenBack_def creditOf_def)
    ultimately have "payrollInv (updateWithdrawal i ?f s1)"
      if c: "creditPoints (wd_user r) (amountPoints r) P_WITHDRAWAL_REFUND (keyFor ''withdrawal-refund'' i) i None desc s = Inr (y, s1)" for y s1 desc
      using refund_grows [OF inv Some _ c] True refund_keys [of _ _ i "{}"]
      by (intro failed_inv [OF inv Some, of "{keyFor ''withdrawal-refund'' i}" s1]) auto
    from cleanup_inv(1) [OF cleanup_inv(5) [OF this]] show ?thesis
      using Some True inv debit_posted [OF inv Some]
      by (auto simp: adminResolvePlatformDisputeRefund_def transact_def afterwards_def andThen_def cleanup_inv split: sum.split)
  qed (use Some inv in \<open>auto simp: adminResolvePlatformDisputeRefund_def\<close>)
qed (use inv in \<open>simp add: adminResolvePlatformDisputeRefund_def\<close>)

lemma takeBack_step:
  assumes inv: "payrollInv s" and r: "findWithdrawal i s = Some r" and st: "wd_status r \<noteq> FAILED" and g1: "grows i {keyFor ''withdrawal-refund'' i} d s s1"
    and run: "(case ca of None \<Rightarrow> Inr ((), s1) | Some x \<Rightarrow> takeBackCredits x r suffix s1) = Inr (y, s3)" and ca: "creditAssignmentOf i s = ca"
  shows "\<exists>K a. K \<subseteq> {keyFor ''payroll-host-payout-reversal'' a, keyFor ''payroll-reward-reversal'' a}
    \<and> grows i (insert (keyFor ''withdrawal-refund'' i) K) (d - takenBack r) s s3"
  using inv r ca
proof (cases rule: creditAssignment_cases)
  case 1
  then show ?thesis using run g1 by (intro exI [of _ "{}"]) simp
next
  case (2 x)
  note row = inv_row [OF inv r] note ax = asgOkD [OF rowOkD(5) [OF row(1) 2(2)]] note v = grows_views [OF g1]
  have same: "keyIn (keyFor p (as_id x)) (pointRows s1) \<longleftrightarrow> keyIn (keyFor p (as_id x)) (pointRows s)" if "p \<in> set assignmentPrefixes" for p
    using that keyFor_eq [of p "''withdrawal-refund''" "as_id x" i] prefixes_disjoint [of "''withdrawal-refund''"] by (auto simp: v(10))
  have "takeBackCredits x r suffix s1 = Inr (y, s3)" using run 2(1) by simp
  from takeBackCredits_grows [OF this _ row(2)] obtain K
    where K: "K \<subseteq> {keyFor ''payroll-host-payout-reversal'' (as_id x), keyFor ''payroll-reward-reversal'' (as_id x)}"
      and g2: "grows i K (- takenBack r) s1 s3"
    using 2(2) v(2) ax(3,4) [OF st] same unfolding 2(3) minus_add_distrib by auto
  show ?thesis using grows_trans [OF g1 g2] K by (intro exI conjI [OF K]) (simp add: insert_is_Un [symmetric])
qed

lemma reverseTx_inv:
  assumes inv: "payrollInv s" and r: "findWithdrawal i s = Some r" and st: "wd_status r \<noteq> FAILED"
    and run: "reverseTx r reason (creditAssignmentOf i s) (openAssignmentOf i s) s = Inr (y, s')"
  shows "payrollInv s'"
proof -
  note row = inv_row [OF inv r] note d = debit_posted [OF inv r]
  let ?f = "\<lambda>r. r\<lparr>wd_status := FAILED, failReason := Some reason\<rparr>"
  let ?h = "\<lambda>z. z\<lparr>as_status := A_EXPIRED, as_rejectionReason := Some (''Withdrawal reversed: '' @ reason)\<rparr>"
  obtain u1 s1 u3 s3 where c1: "creditPoints (wd_user r) (amountPoints r) P_WITHDRAWAL_REFUND (keyFor ''withdrawal-refund'' i) i None
        (''Withdrawal reversal: '' @ reason) s = Inr (u1, s1)"
    and c3: "(case creditAssignmentOf i s of None \<Rightarrow> Inr ((), s1) | Some x \<Rightarrow> takeBackCredits x r ('' for withdrawal '' @ show_nat i) s1) = Inr (u3, s3)"
    and s': "s' = updateWithdrawal i ?f (case openAssignmentOf i s of None \<Rightarrow> s3 | Some z \<Rightarrow> updateAssignment (as_id z) ?h s3)"
  proof -
    have "andThen (creditPoints (wd_user r) (amountPoints r) P_WITHDRAWAL_REFUND (keyFor ''withdrawal-refund'' i) i None
        (''Withdrawal reversal: '' @ reason) s) (\<lambda>(_, s1).
        andThen (case creditAssignmentOf i s of None \<Rightarrow> Inr ((), s1) | Some x \<Rightarrow> takeBackCredits x r ('' for withdrawal '' @ show_nat i) s1)
        (\<lambda>(_, s3). Inr ((), updateWithdrawal i ?f (case openAssignmentOf i s of None \<Rightarrow> s3 | Some z \<Rightarrow> updateAssignment (as_id z) ?h s3))))
        = Inr (y, s')"
      using run by (simp only: reverseTx_def Let_def row(2) conjunct1 [OF d] conjunct2 [OF d] simp_thms if_True if_False)
    then show thesis unfolding andThen_pair sum.inject prod.inject by (elim exE conjE) (rule that; (assumption | erule sym))
  qed
  obtain K a where K: "K \<subseteq> {keyFor ''payroll-host-payout-reversal'' a, keyFor ''payroll-reward-reversal'' a}"
    and g: "grows i (insert (keyFor ''withdrawal-refund'' i) K) (amountPoints r - takenBack r) s s3"
    using takeBack_step [OF inv r st refund_grows [OF inv r st c1] c3 refl] by blast
  show ?thesis unfolding s'
  proof (rule failed_inv [OF inv r st g refund_keys [OF _ _ K]])
    show "openAssignmentOf i s = None \<and> (case openAssignmentOf i s of None \<Rightarrow> s3 | Some z \<Rightarrow> updateAssignment (as_id z) ?h s3) = s3
      \<or> (\<exists>z h. openAssignmentOf i s = Some z \<and> (case openAssignmentOf i s of None \<Rightarrow> s3 | Some z \<Rightarrow> updateAssignment (as_id z) ?h s3)
           = updateAssignment (as_id z) h s3 \<and> (\<forall>a. as_id (h a) = as_id a)
           \<and> (\<forall>a. as_withdrawal (h a) = as_withdrawal a) \<and> (\<forall>a. as_status (h a) = A_EXPIRED))"
      by (cases "openAssignmentOf i s") (simp, rule disjI2, intro exI [of _ "the (openAssignmentOf i s)"] exI [of _ ?h], simp)
  qed simp_all
qed

lemma dropReversedJobs_inv: "payrollInv s \<Longrightarrow> payrollInv (dropReversedJobs w oa s)"
  by (erule inv_frame) (auto simp: dropReversedJobs_def Let_def removeJob_def split: option.split)

lemma adminReverseWithdrawal_inv:
  assumes inv: "payrollInv s" shows "payrollInv (snd (adminReverseWithdrawal i reason bypass s))"
proof (cases "findWithdrawal i s")
  case (Some r)
  show ?thesis
  proof (cases "wd_status r = FAILED \<or> wd_status r \<notin> set REVERSIBLE \<or> \<not> bypass \<and> \<not> isAdminWithdrawalRevertable (wd_status r) (processedAt r) (now s)")
    case False
    then have "payrollInv s1" if "reverseTx r reason (creditAssignmentOf i s) (openAssignmentOf i s) s = Inr (y, s1)" for y s1
      using reverseTx_inv [OF inv Some _ that] by simp
    then show ?thesis using False Some inv
      by (auto simp: adminReverseWithdrawal_def Let_def transact_def afterwards_def cleanup_inv dropReversedJobs_inv split: sum.split option.split)
  qed (use Some inv in \<open>auto simp: adminReverseWithdrawal_def\<close>)
qed (use inv in \<open>simp add: adminReverseWithdrawal_def\<close>)

lemma cancelLoop_inv: "payrollInv s \<Longrightarrow> payrollInv (snd (cancelLoop is done s))"
proof (induction "is" "done" s rule: cancelLoop.induct)
  case (2 i "is" "done" s)
  obtain e s1 where a: "adminReverseWithdrawal i ''Points frozen by admin - withdrawal cancelled and escrow released'' True s = (e, s1)" by fastforce
  have "payrollInv s1" using adminReverseWithdrawal_inv [OF 2(2)] a by (metis snd_conv)
  then show ?case using 2(1) a by (cases e) (simp_all add: afterwards_def)
qed simp

lemma cancelUnsettled_inv: "payrollInv s \<Longrightarrow> payrollInv (snd (cancelUnsettledWithdrawalsForPointsFreeze u s))"
  by (simp add: cancelUnsettledWithdrawalsForPointsFreeze_def cancelLoop_inv)

end
