(* ===== verification/WithdrawalLife.thy ===== *)
theory WithdrawalLife
  imports PayrollSettle
begin

text \<open>
  The life of withdrawals as a step relation over the whole service, and what holds in every
  reachable state: the account of each withdrawal, one live assignment at most, no second debit for
  a repeated request, and an end to reassignment.
\<close>

section \<open>Disputes decided for the host\<close>

lemma takeBackCredits_none:
  assumes "\<not> posted (keyFor ''payroll-host-payout'' (as_id x)) s" "\<not> posted (keyFor ''payroll-reward'' (as_id x)) s"
  shows "takeBackCredits x r suffix s = Inr ((), s)"
  using assms by (simp add: takeBackCredits_def takeBack_def)

lemma adminResolveDisputeFavourHost_inv:
  assumes inv: "payrollInv s" shows "payrollInv (snd (adminResolveDisputeFavourHost i reason ov s))"
proof (cases "findWithdrawal i s")
  case (Some r)
  show ?thesis
  proof (cases "wd_status r = DISPUTED \<and> \<not> isPlatformHandledWithdrawal r")
    case True
    show ?thesis
    proof (cases "waitingAssignmentOf i s")
      case (Some x)
      note x = waitingAssignmentOf_Some [OF Some]
      note ax = asgOkD [OF rowOkD(5) [OF inv_row(1) [OF inv \<open>findWithdrawal i s = Some r\<close>] conjunct1 [OF x]]]
      let ?g = "\<lambda>z. z\<lparr>as_status := A_REJECTED, as_rejectedAt := Some (now s), as_rejectionReason := Some reason\<rparr>"
      let ?f = "\<lambda>q. q\<lparr>wd_status := PENDING, disputeTicketId := None, assignmentCount := assignmentCount q + 1\<rparr>"
      have none: "takeBackCredits x r suffix s = Inr ((), s)" for suffix
        by (rule takeBackCredits_none) (use ax(1,2) x in \<open>simp_all add: posted_keyIn\<close>)
      have "payrollInv (updateWithdrawal i ?f (updateAssignment (as_id x) ?g s))"
        by (rule release_inv [OF inv]) (use x in \<open>auto simp: isOpen_def\<close>)
      from cleanup_inv(1) [OF cleanup_inv(3) [OF this]]
      have "payrollInv (dropPointCaches (as_agency x) ((updateWithdrawal i ?f (updateAssignment (as_id x) ?g s))\<lparr>waitingJobs := js\<rparr>))" for js .
      from assignToAgency_inv [OF this] show ?thesis
        using Some True \<open>findWithdrawal i s = Some r\<close>
        by (simp add: adminResolveDisputeFavourHost_def transact_def afterwards_def none Let_def)
    qed (use Some inv True in \<open>simp add: adminResolveDisputeFavourHost_def\<close>)
  qed (use Some inv in \<open>auto simp: adminResolveDisputeFavourHost_def adminResolvePlatformDisputeRefund_inv\<close>)
qed (use inv in \<open>simp add: adminResolveDisputeFavourHost_def\<close>)

section \<open>Creation\<close>

text \<open>An id that nothing refers to.\<close>

definition unused :: "nat \<Rightarrow> payroll \<Rightarrow> bool" where
  "unused i s \<longleftrightarrow> i < nextId (money s) \<and> net i (pointRows s) = 0 \<and> (\<forall>r\<in>set (withdrawals s). wd_id r \<noteq> i) \<and> asgs i s = []
     \<and> i \<notin> set (platformJobs s) \<and> (\<forall>p\<in>set withdrawalPrefixes. \<not> keyIn (keyFor p i) (pointRows s))"

lemma freshId_unused:
  assumes inv: "payrollInv s" and f: "freshId s = (i, s')"
  shows "unused i s'" "payrollInv s'"
proof -
  have s': "withdrawals s' = withdrawals s" "assignments s' = assignments s" "pointRows s' = pointRows s"
    "nextId (money s') = Suc (nextId (money s))" "platformJobs s' = platformJobs s" "i = nextId (money s)"
    using f by (auto simp: freshId_def)
  show "payrollInv s'" by (rule inv_frame [OF inv]) (use s' in simp_all)
  have "net i (pointRows s) = 0" "\<forall>p\<in>set withdrawalPrefixes. \<not> keyIn (keyFor p i) (pointRows s)"
    "\<forall>r\<in>set (withdrawals s). wd_id r < i" "\<forall>a\<in>set (assignments s). as_withdrawal a < i" "\<forall>j\<in>set (platformJobs s). j < i"
    using inv s'(6) unfolding payrollInv_def by auto
  then show "unused i s'" using s' unfolding unused_def by (auto simp: filter_empty_conv)
qed

lemma insert_inv:
  assumes inv: "payrollInv s" and un: "unused i s" and p: "posts i (keyFor ''withdrawal-debit'' i) (- amt) s s1"
    and r: "wd_id r = i" "amountPoints r = amt" "processedAt r = None" "wd_waitingExpiresAt r = None" "wd_status r \<in> {PENDING, PENDING_PLATFORM}"
  shows "payrollInv (s1\<lparr>withdrawals := withdrawals s1 @ [r]\<rparr>)" (is "payrollInv ?s")
proof -
  note v = posts_views [OF p]
  have e1: "edits i s s1" by (rule edits_posts [OF p]) (use prefixes_mem(1) in blast)
  have no: "x \<noteq> r" if "x \<in> set (withdrawals s)" for x using un r(1) that by (auto simp: unused_def)
  have inv1: "payrollInv s1"
    by (rule edits_keep_inv [OF inv e1]) (use un v(1) in \<open>auto simp: unused_def\<close>)
  have asg: "asgs i s1 = []" "net i (pointRows s1) = - amt" "\<And>q. q \<in> set withdrawalPrefixes \<Longrightarrow> keyIn (keyFor q i) (pointRows s1) \<longleftrightarrow> q = ''withdrawal-debit''"
    using un v(2,9) keyFor_eq [of _ "''withdrawal-debit''" i i] by (auto simp: unused_def v(10))
  have "rowOk (pointRows s1) [] r"
    using asg r by (intro rowOkI) (auto simp: accountDue_def keysOk_def statusOk_def oneLive_def)
  moreover have "i < nextId (money s1)" using un e1 by (auto simp: unused_def edits_def)
  moreover have "i \<notin> set (platformJobs s1)" "i \<notin> wd_id ` set (withdrawals s1)" using un v(1,3) by (auto simp: unused_def)
  ultimately show ?thesis
    using inv1 asg(1) r unfolding payrollInv_def by simp
qed

lemma getPayrollConfig_frame: "getPayrollConfig s = Inr (c, s1) \<Longrightarrow> \<exists>cc. s1 = s\<lparr>configCache := cc\<rparr>"
proof -
  have "\<exists>c. s = s\<lparr>configCache := c\<rparr>" by (rule exI [of _ "configCache s"]) simp
  then show "getPayrollConfig s = Inr (c, s1) \<Longrightarrow> ?thesis" by (auto simp: getPayrollConfig_def split: if_splits option.splits)
qed

text \<open>Steps around the transaction that leave the accounts alone.\<close>

definition calm :: "payroll \<Rightarrow> payroll \<Rightarrow> bool" where
  "calm s s' \<longleftrightarrow> withdrawals s' = withdrawals s \<and> assignments s' = assignments s \<and> pointRows s' = pointRows s
     \<and> nextId (money s) \<le> nextId (money s') \<and> platformJobs s' = platformJobs s"

lemma calm_inv: "calm s s' \<Longrightarrow> payrollInv s \<Longrightarrow> payrollInv s'"
  by (auto simp: calm_def intro: inv_frame)

lemma calm_unused: "calm s s' \<Longrightarrow> unused i s \<Longrightarrow> unused i s'"
  by (auto simp: calm_def unused_def)

lemma createWithdrawalResponse_calm: "calm s (snd (createWithdrawalResponse b i idem s))"
  by (auto simp: createWithdrawalResponse_def calm_def resolveIdemKey_def andThen_def dest!: getPayrollConfig_frame
    split: option.splits sum.splits if_splits)

lemma createTx_inv:
  assumes inv: "payrollInv s" and un: "unused i s" and run: "createTx u p idem rail am i wal s = Inr (out, s')"
  shows "payrollInv s'"
proof -
  let ?s1 = "s\<lparr>money := snd (lockForUpdate (wallet_id wal) (money s))\<rparr>"
  have calm: "calm s ?s1" by (simp add: calm_def)
  note inv1 = calm_inv [OF calm inv] and un1 = calm_unused [OF calm un]
  show ?thesis
  proof (cases "findByClientKey idem ?s1")
    case (Some r)
    then show ?thesis using run inv1 by (simp add: createTx_def Let_def)
  next
    case None
    let ?key = "keyFor ''withdrawal-debit'' i"
    obtain s2 where d: "debitPoints u (cr_grossPoints p) P_WITHDRAWAL True True ?key i None ''Withdrawal'' ?s1 = Inr ((), s2)"
      and ins: "insertWithdrawal (newWithdrawal i (wallet_id wal) u p rail am idem (now s2)) s2
          = Inr ((), s2\<lparr>withdrawals := withdrawals s2 @ [newWithdrawal i (wallet_id wal) u p rail am idem (now s2)]\<rparr>)"
      and s': "s' = touchLastUsed (cr_paymentMethodId p) u
          (s2\<lparr>withdrawals := withdrawals s2 @ [newWithdrawal i (wallet_id wal) u p rail am idem (now s2)]\<rparr>)"
      using run None by (auto simp: createTx_def Let_def andThen_Inr_iff insertWithdrawal_def split: if_splits)
    have "\<not> posted ?key ?s1" using un1 by (simp add: posted_keyIn unused_def)
    then have post: "posts i ?key (- cr_grossPoints p) ?s1 s2" using debitPoints_posts [OF d] by simp
    have "payrollInv (s2\<lparr>withdrawals := withdrawals s2 @ [newWithdrawal i (wallet_id wal) u p rail am idem (now s2)]\<rparr>)"
      by (rule insert_inv [OF inv1 un1 post]) (simp_all add: newWithdrawal_def)
    then show ?thesis unfolding s' by (rule inv_frame) (simp_all add: touchLastUsed_def)
  qed
qed

lemma calm_caches: "calm s (s\<lparr>money := bustUnconfirmedCache u (adjustPointBalanceCache u d b (money s))\<rparr>)"
  by (simp add: calm_def bustUnconfirmedCache_def adjustPointBalanceCache_def writePointBalanceCache_def Let_def split: option.split)

lemma executeCreateWithdrawal_inv:
  assumes inv: "payrollInv s" shows "payrollInv (snd (executeCreateWithdrawal u p idem s))"
proof -
  note answer = calm_inv [OF createWithdrawalResponse_calm]
  have tx: "payrollInv (snd (executeCreateWithdrawal u p idem s))"
    if none: "findByClientKey idem s = None" and chk: "createChecks u p s = Inr rail" and cfg: "getPayrollConfig s = Inr (c, s1)"
      and am: "calculateWithdrawalAmounts (cr_grossPoints p) c rail = Inr am" for rail c s1 am
  proof -
    obtain cc where "s1 = s\<lparr>configCache := cc\<rparr>" using getPayrollConfig_frame [OF cfg] by blast
    then have inv1: "payrollInv s1" using inv by (auto intro: inv_frame)
    obtain i s2 where f: "freshId s1 = (i, s2)" by fastforce
    obtain wal w3 where g: "getOrCreate u POINT (money s2) = (wal, w3)" by fastforce
    let ?s3 = "s2\<lparr>money := w3\<rparr>"
    have calm: "calm s2 ?s3" using getOrCreate_keeps [OF g] getOrCreate_next [OF g] by (simp add: calm_def)
    note u2 = freshId_unused [OF inv1 f]
    have inv3: "payrollInv ?s3" and un3: "unused i ?s3" using calm_inv [OF calm u2(2)] calm_unused [OF calm u2(1)] .
    show ?thesis
    proof (cases "createTx u p idem rail am i wal ?s3")
      case (Inl e)
      then show ?thesis
        using none chk cfg am f g inv3 answer [OF inv3]
        by (cases e) (auto simp: executeCreateWithdrawal_def Let_def split: option.split)
    next
      case (Inr z)
      obtain out s4 where z: "z = (out, s4)" by fastforce
      have inv4: "payrollInv s4" using createTx_inv [OF inv3 un3] Inr z by blast
      let ?s5 = "s4\<lparr>money := bustUnconfirmedCache u (adjustPointBalanceCache u (- cr_grossPoints p) None (money s4))\<rparr>"
      have inv5: "payrollInv ?s5" by (rule calm_inv [OF calm_caches inv4])
      have "payrollInv (snd (if rail = ''BANK'' then assignToAgency noAssignOptions i ?s5 else (Inr (), ?s5)))"
        using inv5 assignToAgency_inv [OF inv5] by simp
      then have "payrollInv (snd (afterwards (if rail = ''BANK'' then assignToAgency noAssignOptions i ?s5 else (Inr (), ?s5))
          (\<lambda>_ s6. createWithdrawalResponse True i idem s6)))"
        using answer by (auto simp: afterwards_def split: prod.split sum.split)
      then show ?thesis
        using none chk cfg am f g Inr z answer [OF inv4]
        by (cases out) (simp_all add: executeCreateWithdrawal_def Let_def)
    qed
  qed
  show ?thesis
  proof (cases "findByClientKey idem s")
    case (Some r)
    then show ?thesis using answer [OF inv] by (simp add: executeCreateWithdrawal_def)
  next
    case None
    show ?thesis
    proof (cases "createChecks u p s")
      case (Inr rail)
      show ?thesis
      proof (cases "getPayrollConfig s")
        case (Inr z)
        obtain c s1 where z: "z = (c, s1)" by fastforce
        have inv1: "payrollInv s1" using getPayrollConfig_frame [OF Inr [unfolded z]] inv by (auto intro: inv_frame)
        show ?thesis
        proof (cases "calculateWithdrawalAmounts (cr_grossPoints p) c rail")
          case (Inl e)
          then show ?thesis using None Inr z \<open>createChecks u p s = Inr rail\<close> inv1 by (simp add: executeCreateWithdrawal_def)
        qed (use tx None \<open>createChecks u p s = Inr rail\<close> Inr z in blast)
      qed (use None Inr inv in \<open>simp add: executeCreateWithdrawal_def\<close>)
    qed (use None inv in \<open>simp add: executeCreateWithdrawal_def\<close>)
  qed
qed

lemma createWithdrawal_inv:
  assumes inv: "payrollInv s" shows "payrollInv (snd (createWithdrawal u p s))"
proof -
  have "payrollInv (snd (executeCreateWithdrawal u p (createIdem u p) (s\<lparr>money := (money s)\<lparr>idemKeys := ks\<rparr>\<rparr>)))" for ks
    by (rule executeCreateWithdrawal_inv) (rule inv_frame [OF inv]; simp)
  moreover have "payrollInv s' \<Longrightarrow> payrollInv (releaseIdem idem s')" for idem s'
    by (erule inv_frame) (simp_all add: releaseIdem_def)
  ultimately show ?thesis
    using inv by (auto simp: createWithdrawal_def Let_def acquireIdemKey_def split: sum.splits option.splits prod.splits if_splits bool.splits)
      (metis snd_conv)+
qed

lemma queue_inv:
  assumes inv: "payrollInv s"
    and ks: "\<And>j. j \<in> set ks \<Longrightarrow> j \<in> set (platformJobs s) \<or> (\<exists>r\<in>set (withdrawals s). wd_id r = j \<and> wd_waitingExpiresAt r \<noteq> None)"
  shows "payrollInv (s\<lparr>slaJobs := js, platformJobs := ks\<rparr>)"
proof -
  have rows: "r = q" if "r \<in> set (withdrawals s)" "q \<in> set (withdrawals s)" "wd_id r = wd_id q" for r q
    using that inv by (auto simp: payrollInv_def distinct_map dest: inj_onD)
  have "j < nextId (money s)" if "j \<in> set ks" for j using ks [OF that] inv by (auto simp: payrollInv_def)
  moreover have "wd_waitingExpiresAt r \<noteq> None" if r: "r \<in> set (withdrawals s)" "wd_id r \<in> set ks" for r
  proof (cases "wd_id r \<in> set (platformJobs s)")
    case True
    then show ?thesis using inv r(1) by (simp add: payrollInv_def)
  next
    case False
    then obtain q where "q \<in> set (withdrawals s)" "wd_id q = wd_id r" "wd_waitingExpiresAt q \<noteq> None" using ks [OF r(2)] by blast
    then show ?thesis using rows [OF r(1)] by metis
  qed
  ultimately show ?thesis using inv unfolding payrollInv_def by simp
qed

lemma safetyNet_inv:
  assumes inv: "payrollInv s" shows "payrollInv (runPayrollSlaSafetyNet s)"
proof -
  have enq: "set (foldl (\<lambda>js j. enqueueJob j js) js is) = set js \<union> set is" for js "is" :: "nat list"
    by (induction "is" arbitrary: js) (auto simp: enqueueJob_def)
  have loop: "payrollInv s' \<Longrightarrow> payrollInv (foldl (\<lambda>s i. snd (assignToAgency noAssignOptions i s)) s' is)" for s' "is"
    by (induction "is" arbitrary: s') (simp_all add: assignToAgency_inv)
  let ?late = "filter (\<lambda>r. wd_status r = WAITING \<and> (case wd_waitingExpiresAt r of None \<Rightarrow> False | Some t \<Rightarrow> t < now s)
    \<and> (isPlatformHandledWithdrawal r \<or> payoutHandler r = Some ''AGENCY'' \<and> wd_proofS3Key r \<noteq> None)) (withdrawals s)"
  let ?ids = "take 200 (map wd_id (sort_key (\<lambda>r. the (wd_waitingExpiresAt r)) ?late))"
  have late: "\<exists>r\<in>set (withdrawals s). wd_id r = j \<and> wd_waitingExpiresAt r \<noteq> None" if "j \<in> set ?ids" for j
    using in_set_takeD [OF that] by (auto split: option.splits)
  have "payrollInv (s\<lparr>slaJobs := js, platformJobs := foldl (\<lambda>js i. enqueueJob i js) (platformJobs s) ?ids\<rparr>)" for js
    by (rule queue_inv [OF inv]) (use late in \<open>auto simp only: enq Un_iff\<close>)
  from loop [OF this] show ?thesis unfolding runPayrollSlaSafetyNet_def Let_def .
qed

section \<open>Steps\<close>

text \<open>Rows of other services: they refer to other things and use other keys.\<close>

definition foreignRow :: "PointTxType ledger_entry \<Rightarrow> bool" where
  "foreignRow e \<longleftrightarrow> (\<forall>n. refId e \<noteq> Some (show_nat n))
     \<and> (\<forall>p\<in>set (withdrawalPrefixes @ assignmentPrefixes). \<forall>n. idempotencyKey e \<noteq> keyFor p n)"

text \<open>
  The requests of hosts, agents and admins, the jobs, and the other services, which may post points,
  let time pass and change the configuration. A job for the dispute window of an assignment may run
  at any time, also one that should have been removed; a job for the window of the platform runs when
  it is queued.
\<close>

inductive payroll_step :: "payroll \<Rightarrow> payroll \<Rightarrow> bool" where
  create: "payroll_step s (snd (createWithdrawal u p s))"
| manualAssign: "payroll_step s (snd (manuallyAssignWithdrawal i ag s))"
| slaExpiry: "payroll_step s (snd (processSlaExpiry a s))"
| agentReject: "payroll_step s (snd (agentRejectPayroll u a reason0 s))"
| agentComplete: "payroll_step s (snd (agentCompletePayroll u a key bucket s))"
| platformComplete: "payroll_step s (snd (adminCompletePlatformPayout i key bucket s))"
| takeoverComplete: "payroll_step s (snd (adminCompletePayrollTakeover i key bucket s))"
| agencyComplete: "payroll_step s (snd (adminCompletePayrollForAgency i u key bucket reason0 s))"
| editProof: "payroll_step s (snd (adminUpdatePayrollProof i ai ag key bucket s))"
| waitingJob: "payroll_step s (snd (processWaitingAutoComplete a s))"
| platformJob: "i \<in> set (platformJobs s) \<Longrightarrow> payroll_step s (snd (processPlatformWaitingAutoComplete i s))"
| dispute: "payroll_step s (snd (disputeWithdrawal u i ticket s))"
| favourAgent: "payroll_step s (snd (adminResolveDisputeFavourAgent i reason s))"
| favourHost: "payroll_step s (snd (adminResolveDisputeFavourHost i reason ag s))"
| reversal: "payroll_step s (snd (adminReverseWithdrawal i reason bypass s))"
| freeze: "payroll_step s (snd (cancelUnsettledWithdrawalsForPointsFreeze u s))"
| safetyNet: "payroll_step s (runPayrollSlaSafetyNet s)"
| elsewhere: "withdrawals s' = withdrawals s \<Longrightarrow> assignments s' = assignments s \<Longrightarrow> platformJobs s' = platformJobs s
    \<Longrightarrow> nextId (money s) \<le> nextId (money s') \<Longrightarrow> pointRows s' = pointRows s @ rows \<Longrightarrow> \<forall>e\<in>set rows. foreignRow e
    \<Longrightarrow> payroll_step s s'"

lemma elsewhere_inv:
  assumes inv: "payrollInv s" and same: "withdrawals s' = withdrawals s" "assignments s' = assignments s" "platformJobs s' = platformJobs s"
    "nextId (money s) \<le> nextId (money s')" and L: "pointRows s' = pointRows s @ rows" and rows: "\<forall>e\<in>set rows. foreignRow e"
  shows "payrollInv s'"
proof -
  have n0: "net n rows = 0" for n using rows by (induction rows) (auto simp: foreignRow_def)
  have k0: "\<not> keyIn (keyFor p n) rows" if "p \<in> set (withdrawalPrefixes @ assignmentPrefixes)" for p n
    using rows that unfolding keyIn_def foreignRow_def by (metis imageE)
  have net: "net n (pointRows s') = net n (pointRows s)" for n using n0 by (simp add: L)
  have key: "keyIn (keyFor p n) (pointRows s') \<longleftrightarrow> keyIn (keyFor p n) (pointRows s)"
    if "p \<in> set (withdrawalPrefixes @ assignmentPrefixes)" for p n using k0 [OF that] by (simp add: L)
  have ok': "rowOk (pointRows s') A r" if ok: "rowOk (pointRows s) A r" for A r
  proof (rule rowOkI)
    show "asgOk (pointRows s') r a" if "a \<in> set A" for a by (rule asgOk_ledger [OF rowOkD(5) [OF ok that]]) (simp add: key)
    show "keysOk (pointRows s') r" by (rule keysOk_ledger [OF rowOkD(2) [OF ok]]) (simp add: key)
  qed (use rowOkD [OF ok] net in simp_all)
  have "payrollInv (s\<lparr>money := money s'\<rparr>)"
  proof -
    have "\<forall>r\<in>set (withdrawals s). rowOk (pointRows s') (asgs (wd_id r) s) r" using inv ok' by (simp add: payrollInv_def)
    moreover have "\<forall>n\<ge>nextId (money s'). net n (pointRows s') = 0
        \<and> (\<forall>p\<in>set (withdrawalPrefixes @ assignmentPrefixes). \<not> keyIn (keyFor p n) (pointRows s'))"
    proof (intro allI impI conjI ballI)
      fix m assume m: "nextId (money s') \<le> m"
      then have le: "nextId (money s) \<le> m" using same(4) by simp
      then show "net m (pointRows s') = 0" using inv unfolding net payrollInv_def by blast
      show "\<not> keyIn (keyFor p m) (pointRows s')" if p: "p \<in> set (withdrawalPrefixes @ assignmentPrefixes)" for p
        using inv le p unfolding key [OF p] payrollInv_def by blast
    qed
    moreover have "m < nextId (money s')" if "m < nextId (money s)" for m using that same(4) by simp
    ultimately show ?thesis using inv unfolding payrollInv_def by simp
  qed
  then show ?thesis by (rule inv_frame_eq) (simp_all add: same)
qed

lemma manuallyAssignWithdrawal_inv: "payrollInv s \<Longrightarrow> payrollInv (snd (manuallyAssignWithdrawal i ag s))"
  unfolding manuallyAssignWithdrawal_def by (rule assignToAgency_inv)

lemmas operations_inv = createWithdrawal_inv manuallyAssignWithdrawal_inv processSlaExpiry_inv agentRejectPayroll_inv
  agentCompletePayroll_inv adminCompletePlatformPayout_inv adminCompletePayrollTakeover_inv adminCompletePayrollForAgency_inv
  adminUpdatePayrollProof_inv processWaitingAutoComplete_inv processPlatformWaitingAutoComplete_inv disputeWithdrawal_inv
  adminResolveDisputeFavourAgent_inv adminResolveDisputeFavourHost_inv adminReverseWithdrawal_inv cancelUnsettled_inv
  safetyNet_inv elsewhere_inv

lemma step_inv: "payroll_step s s' \<Longrightarrow> payrollInv s \<Longrightarrow> payrollInv s'"
  by (induction rule: payroll_step.induct) (rule operations_inv; assumption)+

lemma steps_inv: "payroll_step\<^sup>*\<^sup>* s s' \<Longrightarrow> payrollInv s \<Longrightarrow> payrollInv s'"
  by (induction rule: rtranclp_induct) (auto intro: step_inv)

section \<open>What holds of every withdrawal\<close>

lemma oneLiveD: "oneLive A \<Longrightarrow> a \<in> set A \<Longrightarrow> b \<in> set A \<Longrightarrow> isLive a \<Longrightarrow> isLive b \<Longrightarrow> as_id a = as_id b"
  unfolding oneLive_def by blast


text \<open>
  C14. A withdrawal has at most one open assignment in every reachable state, and none while it waits
  for the platform and once it is paid or failed: no two agencies are asked to pay the same host.
\<close>

theorem one_open_assignment:
  assumes "payrollInv s" "payroll_step\<^sup>*\<^sup>* s s'" "findWithdrawal i s' = Some r"
  shows "(\<forall>a\<in>set (assignments s'). \<forall>b\<in>set (assignments s').
      as_withdrawal a = i \<and> as_withdrawal b = i \<and> isOpen a \<and> isOpen b \<longrightarrow> a = b)
    \<and> (wd_status r \<in> {PENDING_PLATFORM, PAID, FAILED} \<longrightarrow> openAssignmentOf i s' = None)"
proof -
  have inv: "payrollInv s'" by (rule steps_inv [OF assms(2,1)])
  note ok = inv_row(1) [OF inv assms(3)]
  have "a = b" if "a \<in> set (assignments s')" "b \<in> set (assignments s')" "as_withdrawal a = i" "as_withdrawal b = i" "isOpen a" "isOpen b" for a b
  proof -
    have "a \<in> set (asgs i s')" "b \<in> set (asgs i s')" using that by simp_all
    then have "as_id a = as_id b" using oneLiveD [OF rowOkD(4) [OF ok]] that isOpen_live(1) by blast
    then show ?thesis using inv_asg [OF inv that(2,1)] by simp
  qed
  moreover have "openAssignmentOf i s' = None" if "wd_status r \<in> {PENDING_PLATFORM, PAID, FAILED}"
  proof (rule ccontr)
    assume "openAssignmentOf i s' \<noteq> None"
    then obtain a where a: "a \<in> set (asgs i s')" "isOpen a" using openAssignmentOf_Some by blast
    show False using asgOkD(9) [OF rowOkD(5) [OF ok a(1)] a(2)] that by auto
  qed
  ultimately show ?thesis by blast
qed

text \<open>
  C20. A retried creation never debits twice: when a withdrawal with the client's key exists, whether
  or not the Redis marker of the first request survived, the request changes no withdrawal, no
  assignment and no ledger row, and without a marker it answers with that withdrawal.
\<close>

theorem create_retry:
  assumes "payrollInv s" "findByClientKey (createIdem u p) s = Some r"
  shows "calm s (snd (createWithdrawal u p s))
    \<and> (redisUp (money s) \<and> idemKeys (money s) (createIdem u p) = None \<and> configCache s \<noteq> None
         \<longrightarrow> fst (createWithdrawal u p s) = Inr (createResponse r))"
proof -
  let ?idem = "createIdem u p"
  have find: "findByClientKey ?idem (s\<lparr>money := w\<rparr>) = Some r" for w using assms(2) by (simp add: findByClientKey_def)
  have "r \<in> set (withdrawals s)" using assms(2) by (auto simp: findByClientKey_def dest: find_Some_mem)
  then have row: "findWithdrawal (wd_id r) (s\<lparr>money := w\<rparr>) = Some r" for w
    using assms(1) find_distinct [of wd_id "withdrawals s" "wd_id r" r] by (simp add: findWithdrawal_def fetch_def payrollInv_def)
  have ex: "executeCreateWithdrawal u p ?idem (s\<lparr>money := w\<rparr>) = createWithdrawalResponse False (wd_id r) ?idem (s\<lparr>money := w\<rparr>)" for w
    using find by (simp add: executeCreateWithdrawal_def)
  have rel: "calm s (releaseIdem ?idem s')" if "calm s s'" for s' using that by (simp add: calm_def releaseIdem_def)
  have run: "calm s (snd (createWithdrawalResponse False (wd_id r) ?idem (s\<lparr>money := (money s)\<lparr>idemKeys := ks\<rparr>\<rparr>)))" for ks
    using createWithdrawalResponse_calm [of "s\<lparr>money := (money s)\<lparr>idemKeys := ks\<rparr>\<rparr>" False "wd_id r" ?idem] by (simp add: calm_def)
  have "calm s (snd (createWithdrawal u p s))"
    using rel run ex
    by (auto simp: createWithdrawal_def Let_def acquireIdemKey_def calm_def [of s s] split: sum.splits option.splits prod.splits if_splits bool.splits)
      (metis snd_conv)+
  moreover have "fst (createWithdrawal u p s) = Inr (createResponse r)"
    if "redisUp (money s)" "idemKeys (money s) ?idem = None" "configCache s \<noteq> None"
    using that row ex
    by (auto simp: createWithdrawal_def Let_def getCachedIdemResponse_def acquireIdemKey_def createWithdrawalResponse_def
      getPayrollConfig_def resolveIdemKey_def)
  ultimately show ?thesis by blast
qed

section \<open>The company keeps what it was paid\<close>

lemma posting_keeps:
  "creditPoints u amt tt key j cp desc s = Inr (y, s') \<Longrightarrow> withdrawals s' = withdrawals s"
  "debitPoints u amt tt av fr key j cp desc s = Inr (y', s') \<Longrightarrow> withdrawals s' = withdrawals s"
  by (auto simp: creditPoints_def debitPoints_def onMoney_def andThen_Inr_iff)

lemma takeBack_keeps: "takeBack u amt key revKey a i desc s = Inr (y, s') \<Longrightarrow> withdrawals s' = withdrawals s"
  by (cases "amt > 0 \<and> posted (keyFor key a) s") (auto simp: takeBack_def dest: posting_keeps(2))

lemma takeBackCredits_keeps:
  assumes "takeBackCredits x r suffix s = Inr (y, s')"
  shows "withdrawals s' = withdrawals s"
  using assms unfolding takeBackCredits_def andThen_pair by (elim exE conjE) (simp only: takeBack_keeps)

lemma reverseTx_row:
  assumes "reverseTx r reason ca oa s = Inr (y, s')"
  shows "withdrawals s' = modify wd_id (wd_id r) (\<lambda>r. r\<lparr>wd_status := FAILED, failReason := Some reason\<rparr>) (withdrawals s)"
proof -
  obtain u1 s1 u3 s3 where 1: "(if posted (keyFor ''withdrawal-debit'' (wd_id r)) s \<or> wd_status r = PAID \<or> withdrawalVersion r \<noteq> 2
      then creditPoints (wd_user r) (amountPoints r) P_WITHDRAWAL_REFUND (keyFor ''withdrawal-refund'' (wd_id r)) (wd_id r) None
        (''Withdrawal reversal: '' @ reason) s else Inr ((), s)) = Inr (u1, s1)"
    and 3: "\<exists>s2. withdrawals s2 = withdrawals s1 \<and> (case ca of None \<Rightarrow> Inr ((), s2) | Some x \<Rightarrow> takeBackCredits x r ('' for withdrawal '' @ show_nat (wd_id r)) s2) = Inr (u3, s3)"
    and s': "\<exists>s4. withdrawals s4 = withdrawals s3 \<and> s' = updateWithdrawal (wd_id r) (\<lambda>r. r\<lparr>wd_status := FAILED, failReason := Some reason\<rparr>) s4"
  proof -
    have rel: "withdrawals (if b then releaseUnconfirmed u v s1 else s1) = withdrawals s1" for b u v s1 by (simp add: releaseUnconfirmed_def)
    have op: "withdrawals (case oa of None \<Rightarrow> s3 | Some z \<Rightarrow> updateAssignment (as_id z) h s3) = withdrawals s3" for h s3 by (simp split: option.split)
    show thesis
      using assms unfolding reverseTx_def Let_def andThen_pair sum.inject prod.inject
      by (elim exE conjE) (rule that, assumption, rule exI, rule conjI [OF rel], assumption, rule exI, rule conjI [OF op], erule sym)
  qed
  have "withdrawals s1 = withdrawals s" using 1 by (auto dest: posting_keeps(1) split: if_splits)
  moreover have "withdrawals s3 = withdrawals s1" using 3 takeBackCredits_keeps by (cases ca) (auto simp del: append.simps)
  ultimately show ?thesis using s' by (auto simp: updateWithdrawal_def)
qed

lemma dropReversedJobs_withdrawals [simp]: "withdrawals (dropReversedJobs w oa s) = withdrawals s"
  by (simp add: dropReversedJobs_def Let_def split: option.split)

lemma adminReverseWithdrawal_row:
  assumes run: "adminReverseWithdrawal i reason bypass s = (Inr (), s')" and r: "findWithdrawal i s = Some r" and st: "wd_status r \<noteq> FAILED"
  shows "findWithdrawal i s' = Some (r\<lparr>wd_status := FAILED, failReason := Some reason\<rparr>)"
proof -
  obtain y s1 where "reverseTx r reason (creditAssignmentOf i s) (openAssignmentOf i s) s = Inr (y, s1)" and "withdrawals s' = withdrawals s1"
  proof (cases "reverseTx r reason (creditAssignmentOf i s) (openAssignmentOf i s) s")
    case (Inr z)
    obtain y s1 where z: "z = (y, s1)" by (cases z)
    then have "withdrawals s' = withdrawals s1"
      using run r st Inr by (auto simp: adminReverseWithdrawal_def Let_def transact_def afterwards_def caches_frame split: if_splits option.splits)
    then show thesis using that Inr z by blast
  qed (use run r st in \<open>auto simp: adminReverseWithdrawal_def Let_def transact_def afterwards_def split: if_splits\<close>)
  then have "withdrawals s' = modify wd_id (wd_id r) (\<lambda>r. r\<lparr>wd_status := FAILED, failReason := Some reason\<rparr>) (withdrawals s)"
    using reverseTx_row by metis
  then show ?thesis using r findWithdrawal_mem [OF r] by (simp add: findWithdrawal_def fetch_modify)
qed


end
