(* ===== verification/WithdrawalRuns.thy ===== *)
theory WithdrawalRuns
  imports WithdrawalLife
begin

text \<open>
  How long a withdrawal can be passed on from agency to agency, how the amount of a withdrawal is
  split, and runs of the service on a small database.
\<close>

section \<open>Passing a withdrawal on\<close>

text \<open>The failed attempts of a withdrawal so far and the settings of the service.\<close>

definition attemptsView :: "nat \<Rightarrow> payroll \<Rightarrow> int option \<times> payroll_config option" where
  "attemptsView i s = (map_option assignmentCount (findWithdrawal i s), configRow s)"

lemma attemptsView_setStatus [simp]: "attemptsView i (setStatus j st s) = attemptsView i s"
proof -
  have "map_option assignmentCount (fetch wd_id (modify wd_id j (\<lambda>r. r\<lparr>wd_status := st\<rparr>) xs) i)
      = map_option assignmentCount (fetch wd_id xs i)" for xs
    unfolding fetch_def modify_def by (induction xs) auto
  then show ?thesis by (simp add: attemptsView_def setStatus_def updateWithdrawal_def findWithdrawal_def)
qed

lemma attemptsView_frame:
  "withdrawals s' = withdrawals s \<Longrightarrow> configRow s' = configRow s \<Longrightarrow> attemptsView i s' = attemptsView i s"
  by (simp add: attemptsView_def findWithdrawal_def)

lemma assignTx_attempts: "assignTx opts j s = Inr (flag, s') \<Longrightarrow> attemptsView i s' = attemptsView i s"
proof -
  have choose: "attemptsView i s1 = attemptsView i s" if "chooseAgency opts u c s = Inr (x, s1)" for u c x s1
    using chooseAgency_frame [OF that] by (auto intro: attemptsView_frame)
  have create: "attemptsView i (snd (createAssignment j ag t n st pr wt s1)) = attemptsView i s1" for ag t n st pr wt s1
    by (rule attemptsView_frame) (simp_all add: createAssignment_def freshId_def)
  show "assignTx opts j s = Inr (flag, s') \<Longrightarrow> ?thesis"
    using create by (auto simp: assignTx_def Let_def split: option.splits if_splits sum.splits prod.splits dest!: choose) (metis snd_conv)+
qed

lemma assignToAgency_attempts: "attemptsView i (snd (assignToAgency opts j s)) = attemptsView i s"
proof (cases "assignTx opts j s")
  case (Inr z)
  obtain flag s' where z: "z = (flag, s')" by fastforce
  have "attemptsView i (s'\<lparr>slaJobs := js\<rparr>) = attemptsView i s" for js
    using assignTx_attempts [OF Inr [unfolded z]] attemptsView_frame [of "s'\<lparr>slaJobs := js\<rparr>" s' i] by simp
  then show ?thesis
    using assignTx_attempts [OF Inr [unfolded z]]
    by (simp add: assignToAgency_def transact_def afterwards_def Inr z split: assign_result.split)
qed (simp add: assignToAgency_def transact_def afterwards_def)

definition isPending :: "nat \<Rightarrow> payroll \<Rightarrow> bool" where
  "isPending i s \<longleftrightarrow> (\<exists>a\<in>set (assignments s). as_withdrawal a = i \<and> as_status a = A_PENDING)"

text \<open>How often a withdrawal can still be passed on.\<close>

definition attemptsLeft :: "nat \<Rightarrow> payroll \<Rightarrow> nat" where
  "attemptsLeft i s =
     (case findWithdrawal i s of
        None \<Rightarrow> 0
      | Some r \<Rightarrow> if isPending i s then nat (max 1 (maxAttempts s - assignmentCount r)) else 0)"

lemma attemptsLeft_view:
  assumes "attemptsView i s = (Some c, cfg)"
  shows "attemptsLeft i s = (if isPending i s then nat (max 1 ((case cfg of None \<Rightarrow> 5 | Some k \<Rightarrow> cfg_maxAssignmentAttempts k) - c)) else 0)"
  using assms by (auto simp: attemptsView_def attemptsLeft_def maxAttempts_def)

text \<open>The only open assignment is closed.\<close>

lemma closed_not_pending:
  assumes inv: "payrollInv s" and a: "findAssignment a s = Some x" "as_status x = A_PENDING"
    and g: "\<And>z. as_id (g z) = as_id z" "\<And>z. as_withdrawal (g z) = as_withdrawal z" "\<And>z. as_status (g z) \<noteq> A_PENDING"
    and r: "findWithdrawal (as_withdrawal x) s = Some r"
  shows "\<not> isPending (as_withdrawal x) (updateAssignment a g s)"
proof
  have x: "x \<in> set (assignments s)" "as_id x = a" using a(1) by (auto simp: findAssignment_def fetch_def dest: find_Some_mem)
  assume "isPending (as_withdrawal x) (updateAssignment a g s)"
  then obtain y where y: "y \<in> set (assignments s)" "as_id y \<noteq> a" "as_withdrawal y = as_withdrawal x" "as_status y = A_PENDING"
    using g by (auto simp: isPending_def updateAssignment_def modify_def split: if_splits)
  have "as_id y = as_id x"
    by (rule oneLiveD [OF rowOkD(4) [OF inv_row(1) [OF inv r]]]) (use x y a(2) in \<open>auto simp: isLive_def isOpen_def\<close>)
  then show False using x(2) y(2) by simp
qed

lemma passed_on_decreases:
  assumes inv: "payrollInv s" and a: "findAssignment a s = Some x" "as_status x = A_PENDING"
    and r: "findWithdrawal (as_withdrawal x) s = Some r"
    and g: "\<And>z. as_id (g z) = as_id z" "\<And>z. as_withdrawal (g z) = as_withdrawal z" "\<And>z. as_status (g z) \<noteq> A_PENDING"
    and c: "countAttempt (as_withdrawal x) (updateAssignment a g s) = (again, s2)"
  shows "\<exists>c. attemptsView (as_withdrawal x) (snd (reassign again (as_withdrawal x) (s2\<lparr>slaJobs := js\<rparr>))) = (Some c, configRow s)"
    and "attemptsLeft (as_withdrawal x) (snd (reassign again (as_withdrawal x) (s2\<lparr>slaJobs := js\<rparr>))) < attemptsLeft (as_withdrawal x) s"
proof -
  let ?i = "as_withdrawal x" and ?s3 = "s2\<lparr>slaJobs := js\<rparr>"
  have "x \<in> set (assignments s)" using a(1) by (auto simp: findAssignment_def fetch_def dest: find_Some_mem)
  then have pend: "isPending ?i s" using a(2) by (auto simp: isPending_def)
  have bump: "findWithdrawal ?i (incrementAssignmentCount ?i (updateAssignment a g s)) = Some (r\<lparr>assignmentCount := assignmentCount r + 1\<rparr>)"
    using r by (simp add: incrementAssignmentCount_def findWithdrawal_def updateWithdrawal_def updateAssignment_def fetch_modify)
  have cfg: "configRow (incrementAssignmentCount ?i (updateAssignment a g s)) = configRow s"
    by (simp add: incrementAssignmentCount_def updateWithdrawal_def updateAssignment_def)
  have again: "again \<longleftrightarrow> assignmentCount r + 1 < maxAttempts s" and asg: "assignments s2 = assignments (updateAssignment a g s)"
    and v2: "attemptsView ?i s2 = (Some (assignmentCount r + 1), configRow s)"
    using c bump cfg attemptsView_setStatus [of ?i ?i PENDING_PLATFORM "incrementAssignmentCount ?i (updateAssignment a g s)"]
    by (auto simp: countAttempt_def Let_def maxAttempts_def attemptsView_def setStatus_def incrementAssignmentCount_def split: if_splits)
  have none: "\<not> isPending ?i ?s3"
    using closed_not_pending [OF inv a g r] asg by (simp add: isPending_def)
  have v3: "attemptsView ?i ?s3 = (Some (assignmentCount r + 1), configRow s)" using v2 attemptsView_frame [of ?s3 s2] by simp
  have old: "attemptsLeft ?i s = nat (max 1 (maxAttempts s - assignmentCount r))" using r pend by (simp add: attemptsLeft_def)
  have v: "attemptsView ?i (snd (reassign again ?i ?s3)) = (Some (assignmentCount r + 1), configRow s)"
    using assignToAgency_attempts [of ?i noAssignOptions ?i ?s3] v3 by (simp add: reassign_def)
  then show "\<exists>c. attemptsView ?i (snd (reassign again ?i ?s3)) = (Some c, configRow s)" by blast
  show "attemptsLeft ?i (snd (reassign again ?i ?s3)) < attemptsLeft ?i s"
  proof (cases again)
    case True
    then show ?thesis using attemptsLeft_view [OF v] again old by (simp add: maxAttempts_def)
  next
    case False
    then show ?thesis using attemptsLeft_view [OF v3] none old by (simp add: reassign_def)
  qed
qed

text \<open>
  A run in which \<open>n\<close> assignments of withdrawal \<open>i\<close> end without payment, by the expiry job or by the agency;
  in between other services work and time passes.
\<close>

inductive passed_on :: "nat \<Rightarrow> nat \<Rightarrow> payroll \<Rightarrow> payroll \<Rightarrow> bool" where
  start: "passed_on i 0 s s"
| expires: "passed_on i n s t \<Longrightarrow> findAssignment a t = Some x \<Longrightarrow> as_withdrawal x = i \<Longrightarrow> as_status x = A_PENDING
    \<Longrightarrow> as_expiresAt x \<le> now t \<Longrightarrow> passed_on i (Suc n) s (snd (processSlaExpiry a t))"
| rejects: "passed_on i n s t \<Longrightarrow> agentAssignment u a t = Some x \<Longrightarrow> as_withdrawal x = i \<Longrightarrow> as_status x = A_PENDING
    \<Longrightarrow> now t < as_expiresAt x \<Longrightarrow> passed_on i (Suc n) s (snd (agentRejectPayroll u a reason t))"
| idles: "passed_on i n s t \<Longrightarrow> withdrawals t' = withdrawals t \<Longrightarrow> assignments t' = assignments t \<Longrightarrow> platformJobs t' = platformJobs t
    \<Longrightarrow> configRow t' = configRow t \<Longrightarrow> nextId (money t) \<le> nextId (money t') \<Longrightarrow> pointRows t' = pointRows t @ rows
    \<Longrightarrow> list_all foreignRow rows \<Longrightarrow> passed_on i n s t'"

lemma passed_on_step:
  assumes inv: "payrollInv t" and r: "findWithdrawal i t \<noteq> None" and x: "findAssignment a t = Some x" "as_withdrawal x = i" "as_status x = A_PENDING"
    and op: "t' = snd (processSlaExpiry a t) \<and> as_expiresAt x \<le> now t
      \<or> t' = snd (agentRejectPayroll u a reason t) \<and> as_agency x = u \<and> now t < as_expiresAt x"
  shows "payrollInv t'" "findWithdrawal i t' \<noteq> None" "attemptsLeft i t' < attemptsLeft i t"
proof -
  show "payrollInv t'" using op processSlaExpiry_inv [OF inv] agentRejectPayroll_inv [OF inv] by blast
  obtain q where q: "findWithdrawal (as_withdrawal x) t = Some q" using r x(2) by auto
  obtain g again s2 js where g: "\<And>z. as_id (g z) = as_id z" "\<And>z. as_withdrawal (g z) = as_withdrawal z" "\<And>z. as_status (g z) \<noteq> A_PENDING"
    and c: "countAttempt (as_withdrawal x) (updateAssignment a g t) = (again, s2)"
    and t': "t' = snd (reassign again (as_withdrawal x) (s2\<lparr>slaJobs := js\<rparr>))"
  proof (cases "t' = snd (processSlaExpiry a t) \<and> as_expiresAt x \<le> now t")
    case True
    let ?g = "\<lambda>r. r\<lparr>as_status := A_EXPIRED\<rparr>"
    obtain again s2 where c: "countAttempt (as_withdrawal x) (updateAssignment a ?g t) = (again, s2)" by fastforce
    show thesis by (rule that [OF _ _ _ c]) (use True x c in \<open>auto simp: processSlaExpiry_def Let_def\<close>)
  next
    case False
    let ?g = "\<lambda>r. r\<lparr>as_status := A_REJECTED, as_rejectedAt := Some (now t), as_rejectionReason := reason\<rparr>"
    obtain again s2 where c: "countAttempt (as_withdrawal x) (updateAssignment a ?g t) = (again, s2)" by fastforce
    have "t' = snd (agentRejectPayroll u a reason t)" "as_agency x = u" "now t < as_expiresAt x" using op False by auto
    then show thesis by (intro that [OF _ _ _ c]) (use x c in \<open>auto simp: agentRejectPayroll_def agentAssignment_def Let_def\<close>)
  qed
  note d = passed_on_decreases [OF inv x(1,3) q g c]
  show "findWithdrawal i t' \<noteq> None" using d(1) [of js] t' x(2) by (auto simp: attemptsView_def)
  show "attemptsLeft i t' < attemptsLeft i t" using d(2) t' x(2) by simp
qed

lemma passed_on_bound:
  assumes "passed_on i n s s'" "payrollInv s" "findWithdrawal i s \<noteq> None"
  shows "payrollInv s' \<and> findWithdrawal i s' \<noteq> None \<and> n + attemptsLeft i s' \<le> attemptsLeft i s"
  using assms
proof (induction rule: passed_on.induct)
  case (expires i n s t a x)
  then show ?case using passed_on_step [OF _ _ expires.hyps(2-4), of "snd (processSlaExpiry a t)"] by fastforce
next
  case (rejects i n s t u a x reason)
  then have x: "findAssignment a t = Some x" "as_agency x = u" by (auto simp: agentAssignment_def split: option.splits if_splits)
  show ?case using rejects passed_on_step [OF _ _ x(1) rejects.hyps(3,4), of "snd (agentRejectPayroll u a reason t)" u reason] x(2) by fastforce
next
  case (idles i n s t t' rows)
  have "payrollInv t'" by (rule elsewhere_inv [of t _ rows]) (use idles in \<open>auto simp: list_all_iff\<close>)
  moreover have "isPending i t' = isPending i t" "maxAttempts t' = maxAttempts t" and w: "findWithdrawal i t' = findWithdrawal i t"
    using idles.hyps by (simp_all add: findWithdrawal_def isPending_def maxAttempts_def)
  moreover from this have "attemptsLeft i t' = attemptsLeft i t" by (simp add: attemptsLeft_def split: option.split)
  ultimately show ?case using idles by simp
qed simp


section \<open>How the amount is split\<close>

text \<open>A table of fee rates between nothing and everything.\<close>

definition ratesOk :: "payroll_config \<Rightarrow> bool" where
  "ratesOk cfg \<longleftrightarrow> 0 \<le> cfg_agentRewardRateBp cfg \<and> cfg_agentRewardRateBp cfg \<le> 10000 \<and> 0 \<le> cfg_serviceFeeUsd cfg
     \<and> list_all (\<lambda>t. 0 \<le> dtoPlatformFeeRateBp t \<and> dtoPlatformFeeRateBp t \<le> 10000
          \<and> 0 \<le> dtoAgentRewardRateBp t \<and> dtoAgentRewardRateBp t \<le> 10000) (cfg_feeTiers cfg)"

lemma parsed_rates:
  "parsePayrollFeeTiers ts = Inr rs \<Longrightarrow> list_all (\<lambda>t. P (dtoPlatformFeeRateBp t) (dtoAgentRewardRateBp t)) ts
    \<Longrightarrow> list_all (\<lambda>r. P (platformFeeRateBp r) (agentRewardRateBp r)) rs"
proof (induction ts arbitrary: rs)
  case (Cons t ts)
  then show ?case by (fastforce simp: andThen_Inr_iff parsePayrollFeeTier_def)
qed simp

lemma matched_tier: "tiers \<noteq> [] \<Longrightarrow> matchPayrollFeeTier gross tiers \<in> set tiers"
proof -
  assume ne: "tiers \<noteq> []"
  then have "sort_key minPoints tiers \<noteq> []" by (metis length_0_conv length_sort)
  then have "last (sort_key minPoints tiers) \<in> set tiers" using last_in_set [of "sort_key minPoints tiers"] by simp
  moreover have "t \<in> set tiers" if "find (tierMatches gross) (sort_key minPoints tiers) = Some t" for t
    using find_Some_mem [OF that] by simp
  ultimately show ?thesis using ne by (simp add: matchPayrollFeeTier_def Let_def split: option.split) (metis length_0_conv length_sort)
qed

lemma resolved_rates:
  assumes ok: "ratesOk cfg" and run: "resolvePayrollFeeRates gross (cfg_feeTiers cfg) (Some (cfg_agentRewardRateBp cfg)) = Inr (fee, reward)"
  shows "0 \<le> fee \<and> fee \<le> 10000 \<and> 0 \<le> reward \<and> reward \<le> 10000"
proof -
  obtain rs where rs: "parsePayrollFeeTiers (cfg_feeTiers cfg) = Inr rs" using run by (auto simp: resolvePayrollFeeRates_def andThen_Inr_iff)
  have bounds: "list_all (\<lambda>r. 0 \<le> platformFeeRateBp r \<and> platformFeeRateBp r \<le> 10000 \<and> 0 \<le> agentRewardRateBp r \<and> agentRewardRateBp r \<le> 10000) rs"
    by (rule parsed_rates [OF rs]) (use ok in \<open>simp add: ratesOk_def\<close>)
  show ?thesis
  proof (cases "rs = []")
    case True
    then show ?thesis using run rs ok by (auto simp: resolvePayrollFeeRates_def ratesOk_def default_rate)
  next
    case False
    then show ?thesis using run rs bounds matched_tier [OF False, of gross] by (auto simp: resolvePayrollFeeRates_def Let_def list_all_iff)
  qed
qed

lemma rate_share:
  fixes g r :: int
  assumes "0 \<le> g" "0 \<le> r" "r \<le> 10000"
  shows "0 \<le> bdiv (g * r) 10000 \<and> bdiv (g * r) 10000 \<le> g"
  using assms div_bp_le [OF assms] by (simp add: bdiv_nonneg pos_imp_zdiv_nonneg_iff)

text \<open>
  The gross amount of a new withdrawal is split exactly into what the host is paid, the fee of the
  platform and the service fee, none of them negative; the reward of the agency is part of the platform
  fee. So paying the agency back its payout and reward never credits more than the host was debited.
\<close>

theorem withdrawal_split:
  assumes "ratesOk cfg" "calculateWithdrawalAmounts (cr_grossPoints p) cfg method = Inr am"
    and "r = newWithdrawal i wal u p method am idem t"
  shows "amountPoints r = payoutOf r + wa_platformFeePoints am + wa_serviceFeePoints am
    \<and> 0 \<le> payoutOf r \<and> 0 \<le> wa_platformFeePoints am \<and> 0 \<le> wa_serviceFeePoints am
    \<and> 0 \<le> rewardOf r \<and> rewardOf r \<le> wa_platformFeePoints am \<and> creditOf r \<le> amountPoints r
    \<and> payoutOf r = wa_hostPayoutPoints am \<and> wa_hostPayoutUsd am = pointsToUsdNumber (payoutOf r)"
proof -
  let ?g = "cr_grossPoints p"
  have g: "0 < ?g" using assms(2) by (auto simp: calculateWithdrawalAmounts_def split: if_splits)
  note f = assms(3) newWithdrawal_def payoutOf_def rewardOf_def withdrawalHostPayoutPoints_def creditOf_def
    isPlatformHandledWithdrawal_def payoutHandlerForMethod_def pointsToUsdNumber_def POINTS_PER_USD_def
  show ?thesis
  proof (cases "method = ''EPAY''")
    case True
    have "0 \<le> serviceFeeUsdToPoints (cfg_serviceFeeUsd cfg)"
      by (simp add: serviceFeeUsdToPoints_def usdToPoints_def POINTS_PER_USD_def)
    then show ?thesis using assms(2) True g by (auto simp: calculateWithdrawalAmounts_def f Let_def split: if_splits)
  next
    case False
    obtain fee reward where run: "resolvePayrollFeeRates ?g (cfg_feeTiers cfg) (Some (cfg_agentRewardRateBp cfg)) = Inr (fee, reward)"
      and am: "wa_platformFeePoints am = bdiv (?g * fee) 10000" "wa_agentRewardPoints am = bdiv (bdiv (?g * fee) 10000 * reward) 10000"
        "wa_hostPayoutPoints am = ?g - bdiv (?g * fee) 10000" "wa_serviceFeePoints am = 0"
        "wa_hostPayoutUsd am = rat_of_int (?g - bdiv (?g * fee) 10000) / 10000"
      using assms(2) False by (auto simp: calculateWithdrawalAmounts_def Let_def andThen_Inr_iff split: if_splits)
    note rates = resolved_rates [OF assms(1) run]
    have p: "0 \<le> bdiv (?g * fee) 10000 \<and> bdiv (?g * fee) 10000 \<le> ?g" by (rule rate_share) (use g rates in auto)
    have w: "0 \<le> bdiv (bdiv (?g * fee) 10000 * reward) 10000 \<and> bdiv (bdiv (?g * fee) 10000 * reward) 10000 \<le> bdiv (?g * fee) 10000"
      by (rule rate_share) (use p rates in auto)
    show ?thesis using p w False by (simp add: f am)
  qed
qed

section \<open>Payment at the end of the window\<close>

lemma creditPoints_runs:
  assumes "0 < amt" "\<not> posted key s" "tt \<notin> {P_LIVESTREAM_GIFT, P_GIFT_RECEIVE, P_VIDEO_CALL, P_SUBSCRIPTION, P_GUARDIAN_PURCHASE}"
  shows "\<exists>s'. creditPoints u amt tt key i cp desc s = Inr ((), s')"
proof -
  obtain wl w1 where g: "getOrCreate u POINT (money s) = (wl, w1)" by fastforce
  let ?w2 = "snd (lockForUpdate (wallet_id wl) w1)"
  let ?d = "pointEntry (wallet_id wl) CREDIT tt amt (latestPointBalance ?w2 (wallet_id wl) + amt) (payOptions key i cp desc)"
  have free: "findByIdempotencyKey (pointLedger (money s)) key = None" using assms(2) by (simp add: posted_def)
  then have "\<exists>e w3. pointInsert ?d ?w2 = Inr (e, w3)"
    using assms(1) getOrCreate_keeps [OF g] by (simp add: pointInsert_def insertRow_def assertPositiveAmount_def require_def Let_def pointEntry_def)
  then show ?thesis
    using assms(1,3) free by (auto simp: creditPoints_def onMoney_def creditInTransaction_def creditWith_def g Let_def commissionStep_def
      livestreamStep_def assertPositiveAmount_def require_def)
qed

lemma creditIfPositive_runs:
  assumes "\<not> posted key s" "payrollCredit tt"
  shows "\<exists>s'. creditIfPositive u amt tt key i cp desc s = Inr ((), s')"
  using creditPoints_runs [of amt key s tt] assms by (auto simp: creditIfPositive_def)

lemma creditIfPositive_keeps: "creditIfPositive u amt tt key i cp desc s = Inr (y, s') \<Longrightarrow> withdrawals s' = withdrawals s"
  by (cases "0 < amt") (auto simp: creditIfPositive_def dest: posting_keeps(1))

lemma creditIfPositive_keys:
  assumes "creditIfPositive u amt tt key i cp desc s = Inr ((), s')" "\<not> posted key s" "payrollCredit tt"
  shows "keyIn k (pointRows s') \<longleftrightarrow> keyIn k (pointRows s) \<or> k = key \<and> 0 < amt"
proof (cases "0 < amt")
  case True
  then have "posts i key amt s s'" using assms creditPoints_posts by (simp add: creditIfPositive_def)
  from posts_views(10) [OF this, of k] show ?thesis using True by simp
qed (use assms(1) in \<open>simp add: creditIfPositive_def\<close>)

lemma settle_pays:
  assumes inv: "payrollInv s" and x: "x \<in> set (assignments s)" "as_status x = A_WAITING" "as_withdrawal x = i"
    and r: "findWithdrawal i s = Some r"
  shows "\<exists>s'. settleAssignment x r suffix s = Inr ((), s') \<and> payrollInv s'
    \<and> findWithdrawal i s' = Some (r\<lparr>wd_status := PAID, processedAt := Some (now s),
          payoutRef := (case as_proofS3Key x of None \<Rightarrow> payoutRef r | Some k \<Rightarrow> Some k)\<rparr>)"
proof -
  let ?g = "\<lambda>z. z\<lparr>as_status := A_COMPLETED, as_completedAt := Some (now s)\<rparr>"
  let ?f = "\<lambda>q. q\<lparr>wd_status := PAID, processedAt := Some (now s),
    payoutRef := (case as_proofS3Key x of None \<Rightarrow> payoutRef q | Some k \<Rightarrow> Some k)\<rparr>"
  let ?s = "updateWithdrawal i ?f (updateAssignment (as_id x) ?g s)"
  let ?pay = "keyFor ''payroll-host-payout'' (as_id x)" let ?rew = "keyFor ''payroll-reward'' (as_id x)"
  note row = inv_row [OF inv r]
  have ax: "\<not> posted ?pay ?s" "\<not> posted ?rew ?s" "posted (keyFor ''withdrawal-debit'' i) ?s"
    using asgOkD(1,2) [OF rowOkD(5) [OF row(1)], of x] rowOkD(2) [OF row(1)] x row(2) by (simp_all add: posted_keyIn keysOk_def)
  obtain s3 where c3: "creditIfPositive (as_agency x) (payoutOf r) P_PAYROLL_HOST_PAYOUT ?pay i (Some (wd_user r))
      (''Payroll host payout'' @ suffix) ?s = Inr ((), s3)"
    using creditIfPositive_runs [OF ax(1)] by blast
  have k3: "keyIn k (pointRows s3) \<longleftrightarrow> keyIn k (pointRows ?s) \<or> k = ?pay \<and> 0 < payoutOf r" for k
    by (rule creditIfPositive_keys [OF c3 ax(1)]) simp
  have free: "\<not> posted ?rew s3" using ax(2) k3 by (simp add: posted_keyIn keyFor_inject)
  then obtain s4 where c4: "creditIfPositive (as_agency x) (rewardOf r) P_PAYROLL_PROCESSING_REWARD ?rew i (Some (wd_user r))
      (''Payroll processing reward'' @ suffix) s3 = Inr ((), s4)"
    using creditIfPositive_runs by blast
  have "posted (keyFor ''withdrawal-debit'' i) s4"
    using creditIfPositive_keys [OF c4 free, of "keyFor ''withdrawal-debit'' i"] ax(3) k3 by (simp add: posted_keyIn)
  then have run: "settleAssignment x r suffix s = Inr ((), s4)"
    using c3 c4 row(2) unfolding settleAssignment_def Let_def by simp
  moreover have "findWithdrawal i s4 = Some (?f r)"
    using r creditIfPositive_keeps [OF c3] creditIfPositive_keeps [OF c4] findWithdrawal_cong [of s4 ?s i] by (simp add: findWithdrawal_update)
  ultimately show ?thesis using settle_inv [OF inv x r run] by blast
qed


section \<open>A small database\<close>

definition runConfig :: payroll_config where
  "runConfig = \<lparr> cfg_agentRewardRateBp = 2000, cfg_feeTiers = [], cfg_serviceFeeUsd = 1, cfg_minWithdrawalUsd = 10,
     cfg_maxWithdrawalUsd = 1000, cfg_slaHours = 2, cfg_waitingHours = 24, cfg_maxAssignmentAttempts = 1 \<rparr>"

definition runParams :: create_params where
  "runParams = \<lparr> cr_grossPoints = 500000, cr_paymentMethodId = 3, cr_idempotencyKey = ''a'', cr_notes = None \<rparr>"

definition runAmounts :: withdrawal_amounts where
  "runAmounts = \<lparr> wa_platformFeeRateBp = 300, wa_platformFeePoints = 15000, wa_agentRewardPoints = 3000,
     wa_hostPayoutPoints = 485000, wa_hostPayoutUsd = 485000 / 10000, wa_serviceFeeUsd = 0, wa_serviceFeePoints = 0 \<rparr>"

definition runRow :: withdrawal_row where
  "runRow = newWithdrawal 1 4 7 runParams ''BANK'' runAmounts (createIdem 7 runParams) 0"

definition runAssignment :: assignment_row where
  "runAssignment = \<lparr> as_id = 2, as_withdrawal = 1, as_agency = 9, as_assignedAt = 0, as_expiresAt = 7200000,
     as_status = A_PENDING, as_proofS3Key = None, as_proofS3Bucket = None, as_completedAt = None,
     as_rejectedAt = None, as_rejectionReason = None, as_number = 1, as_waitingExpiresAt = None \<rparr>"

definition runEntry :: "wid \<Rightarrow> LedgerDirection \<Rightarrow> PointTxType \<Rightarrow> int \<Rightarrow> int \<Rightarrow> string \<Rightarrow> PointTxType ledger_entry" where
  "runEntry wal dir tt amt bal key = (newEntry wal dir tt amt bal (keyFor key 1))\<lparr>refId := Some (show_nat 1)\<rparr>"

definition runState :: "withdrawal_row \<Rightarrow> assignment_row list \<Rightarrow> PointTxType ledger_entry list \<Rightarrow> payroll" where
  "runState r as rows = \<lparr> money = emptyWorld\<lparr>users := [5 \<mapsto> sampleUser, 7 \<mapsto> sampleUser, 9 \<mapsto> sampleUser],
       wallets := [\<lparr> wallet_id = 4, wallet_user = 7, wallet_currency = POINT, wallet_version = 0, unconfirmedPoints = 0 \<rparr>],
       pointLedger := runEntry 4 DEBIT P_WITHDRAWAL 500000 100000 ''withdrawal-debit'' # rows, nextId := 10\<rparr>,
     withdrawals = [r], assignments = as, payrollAgencies = [], configRow = Some runConfig, configCache = Some runConfig,
     faceIndexed = [7], paymentMethods = Map.empty, epayEnabled = True, bankEnabled = True, companyAgency = Some 5,
     agentUsers = [5, 9], deletedUsers = [], companyCash = [], slaJobs = [], waitingJobs = [], platformJobs = [] \<rparr>"

text \<open>Open with agency 9; and paid by the company after a takeover.\<close>

definition runOpen :: payroll where
  "runOpen = runState runRow [runAssignment] []"

definition runPaidRow :: withdrawal_row where
  "runPaidRow = runRow\<lparr>wd_status := PAID, processedAt := Some 0, wd_waitingExpiresAt := Some 0\<rparr>"

definition runPaid :: payroll where
  "runPaid = runState runPaidRow []
     [runEntry 6 CREDIT P_PAYROLL_TAKEOVER_INVENTORY 485000 485000 ''payroll-takeover'',
      runEntry 6 CREDIT P_PAYROLL_PROCESSING_REWARD 3000 488000 ''payroll-takeover-reward'']"

lemma run_fields [simp]:
  "wd_id runRow = 1" "amountPoints runRow = 500000" "wd_status runRow = PENDING" "processedAt runRow = None"
  "wd_waitingExpiresAt runRow = None" "payoutOf runRow = 485000" "rewardOf runRow = 3000" "\<not> isPlatformHandledWithdrawal runRow"
  "wd_user runRow = 7" "assignmentCount runRow = 0" "wd_idempotencyKey runRow = createIdem 7 runParams"
  by (simp_all add: runRow_def newWithdrawal_def runParams_def runAmounts_def payoutOf_def rewardOf_def
    withdrawalHostPayoutPoints_def isPlatformHandledWithdrawal_def payoutHandlerForMethod_def)

lemma run_entry [simp]:
  "idempotencyKey (runEntry wal dir tt amt bal key) = keyFor key 1" "refId (runEntry wal dir tt amt bal key) = Some (show_nat 1)"
  "pointDelta (runEntry wal dir tt amt bal key) = (if tt = P_WITHDRAWAL_ESCROW then 0 else case dir of CREDIT \<Rightarrow> amt | DEBIT \<Rightarrow> - amt)"
  by (cases dir; simp add: runEntry_def newEntry_def pointDelta_def)+

lemma run_state [simp]:
  "withdrawals (runState r as rows) = [r]" "assignments (runState r as rows) = as" "nextId (money (runState r as rows)) = 10"
  "platformJobs (runState r as rows) = []" "clock (money (runState r as rows)) = 0" "configRow (runState r as rows) = Some runConfig"
  "pointRows (runState r as rows) = runEntry 4 DEBIT P_WITHDRAWAL 500000 100000 ''withdrawal-debit'' # rows"
  "slaJobs (runState r as rows) = []"
  by (simp_all add: runState_def emptyWorld_def)

lemma run_inv:
  assumes rows: "\<And>e. e \<in> set rows \<Longrightarrow> \<exists>p\<in>set withdrawalPrefixes. idempotencyKey e = keyFor p 1 \<and> refId e = Some (show_nat 1)"
    and ids: "distinct (map as_id as)" "\<And>a. a \<in> set as \<Longrightarrow> as_id a < 10 \<and> as_withdrawal a = 1" "wd_id r = 1"
    and ok: "rowOk (pointRows (runState r as rows)) as r"
  shows "payrollInv (runState r as rows)"
proof -
  let ?L = "pointRows (runState r as rows)"
  have L: "\<exists>p\<in>set withdrawalPrefixes. idempotencyKey e = keyFor p 1 \<and> refId e = Some (show_nat 1)" if "e \<in> set ?L" for e
    using that rows by (auto simp: bexI [of _ "''withdrawal-debit''"])
  have n0: "net n M = 0" if "n \<noteq> 1" "\<And>e. e \<in> set M \<Longrightarrow> refId e = Some (show_nat 1)" for n M
    using that by (induction M) auto
  have "net n ?L = 0 \<and> (\<forall>p\<in>set (withdrawalPrefixes @ assignmentPrefixes). \<not> keyIn (keyFor p n) ?L)" if "10 \<le> n" for n
  proof (intro conjI ballI notI)
    show "net n ?L = 0" using n0 [of n ?L] L that by fastforce
    fix p assume p: "p \<in> set (withdrawalPrefixes @ assignmentPrefixes)" and "keyIn (keyFor p n) ?L"
    then obtain q where "q \<in> set withdrawalPrefixes" "keyFor p n = keyFor q 1" using L unfolding keyIn_def by force
    then show False using keyFor_eq [OF p, of q n 1] that by simp
  qed
  moreover have "filter (\<lambda>a. as_withdrawal a = 1) as = as" using ids(2) by (simp add: filter_id_conv)
  ultimately show ?thesis using ids ok by (auto simp: payrollInv_def)
qed

lemma runOpen_inv: "payrollInv runOpen"
  unfolding runOpen_def
proof (rule run_inv)
  have "asgOk (pointRows runOpen) runRow runAssignment"
    by (simp add: asgOk_def runAssignment_def runOpen_def keyFor_eq)
  moreover have "keysOk (pointRows runOpen) runRow" by (simp add: keysOk_def runOpen_def keyFor_eq)
  ultimately show "rowOk (pointRows (runState runRow [runAssignment] [])) [runAssignment] runRow"
    by (simp add: rowOk_def accountDue_def statusOk_def oneLive_def runOpen_def)
qed (simp_all add: runAssignment_def)

lemma runPaid_inv: "payrollInv runPaid"
  unfolding runPaid_def
proof (rule run_inv)
  have "keysOk (pointRows runPaid) runPaidRow" by (simp add: keysOk_def runPaid_def runPaidRow_def keyFor_eq)
  then show "rowOk (pointRows (runState runPaidRow []
     [runEntry 6 CREDIT P_PAYROLL_TAKEOVER_INVENTORY 485000 485000 ''payroll-takeover'',
      runEntry 6 CREDIT P_PAYROLL_PROCESSING_REWARD 3000 488000 ''payroll-takeover-reward''])) [] runPaidRow"
    by (simp add: rowOk_def accountDue_def statusOk_def oneLive_def runPaid_def runPaidRow_def creditOf_def)
qed (auto simp: runPaidRow_def)

lemma run_reject:
  "findWithdrawal 1 (snd (agentRejectPayroll 9 2 None runOpen)) = Some (runRow\<lparr>assignmentCount := 1, wd_status := PENDING_PLATFORM\<rparr>)"
  "payroll_step runOpen (snd (agentRejectPayroll 9 2 None runOpen))"
  "passed_on 1 1 runOpen (snd (agentRejectPayroll 9 2 None runOpen))"
proof -
  have x: "findAssignment 2 runOpen = Some runAssignment" "agentAssignment 9 2 runOpen = Some runAssignment" "as_withdrawal runAssignment = 1"
    "as_status runAssignment = A_PENDING" "now runOpen < as_expiresAt runAssignment" "as_agency runAssignment = 9"
    by (simp_all add: runOpen_def findAssignment_def agentAssignment_def fetch_def runAssignment_def now_def)
  have c: "countAttempt 1 (updateAssignment 2 g runOpen)
      = (False, setStatus 1 PENDING_PLATFORM (incrementAssignmentCount 1 (updateAssignment 2 g runOpen)))" for g
  proof -
    have "findWithdrawal 1 (incrementAssignmentCount 1 (updateAssignment 2 g runOpen)) = Some (runRow\<lparr>assignmentCount := 1\<rparr>)"
      by (simp add: incrementAssignmentCount_def findWithdrawal_def updateWithdrawal_def updateAssignment_def modify_def fetch_def runOpen_def)
    moreover have "maxAttempts (incrementAssignmentCount 1 (updateAssignment 2 g runOpen)) = 1"
      by (simp add: incrementAssignmentCount_def updateWithdrawal_def updateAssignment_def maxAttempts_def runConfig_def runOpen_def)
    ultimately show ?thesis by (simp add: countAttempt_def Let_def)
  qed
  have "snd (agentRejectPayroll 9 2 None runOpen) = (setStatus 1 PENDING_PLATFORM (incrementAssignmentCount 1 (updateAssignment 2
      (\<lambda>r. r\<lparr>as_status := A_REJECTED, as_rejectedAt := Some (now runOpen), as_rejectionReason := None\<rparr>) runOpen)))\<lparr>slaJobs := []\<rparr>"
    using x c by (simp add: agentRejectPayroll_def reassign_def Let_def)
      (simp add: setStatus_def incrementAssignmentCount_def updateWithdrawal_def updateAssignment_def runOpen_def removeJob_def)
  then show "findWithdrawal 1 (snd (agentRejectPayroll 9 2 None runOpen)) = Some (runRow\<lparr>assignmentCount := 1, wd_status := PENDING_PLATFORM\<rparr>)"
    by (simp add: setStatus_def incrementAssignmentCount_def findWithdrawal_def updateWithdrawal_def updateAssignment_def modify_def fetch_def runOpen_def)
  show "payroll_step runOpen (snd (agentRejectPayroll 9 2 None runOpen))" by (rule payroll_step.agentReject)
  show "passed_on 1 1 runOpen (snd (agentRejectPayroll 9 2 None runOpen))"
    using passed_on.rejects [OF passed_on.start x(2,3,4,5), of None] by simp
qed


theorem one_open_assignment_witness: "openAssignmentOf 1 (snd (agentRejectPayroll 9 2 None runOpen)) = None"
  using one_open_assignment [OF runOpen_inv r_into_rtranclp [of payroll_step, OF run_reject(2)] run_reject(1)] by simp

theorem create_retry_witness:
  "calm runOpen (snd (createWithdrawal 7 runParams runOpen)) \<and> fst (createWithdrawal 7 runParams runOpen) = Inr (createResponse runRow)"
proof -
  have f: "findByClientKey (createIdem 7 runParams) runOpen = Some runRow" by (simp add: findByClientKey_def runOpen_def)
  have "redisUp (money runOpen)" "idemKeys (money runOpen) k = None" "configCache runOpen \<noteq> None" for k
    by (simp_all add: runOpen_def runState_def emptyWorld_def)
  then show ?thesis using create_retry [OF runOpen_inv f] by blast
qed


theorem withdrawal_split_witness:
  "amountPoints runRow = payoutOf runRow + 15000 \<and> creditOf runRow \<le> amountPoints runRow \<and> payoutOf runRow = 485000"
proof -
  have "ratesOk runConfig" by (simp add: ratesOk_def runConfig_def)
  moreover have "calculateWithdrawalAmounts (cr_grossPoints runParams) runConfig ''BANK'' = Inr runAmounts"
    by (simp add: calculateWithdrawalAmounts_def runParams_def runConfig_def runAmounts_def resolvePayrollFeeRates_def default_rate bdiv_def Let_def)
  ultimately show ?thesis using withdrawal_split [OF _ _ runRow_def] by (simp add: runAmounts_def)
qed


definition runWaiting :: payroll where
  "runWaiting = runState (runRow\<lparr>wd_status := DISPUTED\<rparr>) [runAssignment\<lparr>as_status := A_WAITING, as_waitingExpiresAt := Some 0\<rparr>] []"

lemma runWaiting_inv: "payrollInv runWaiting"
  unfolding runWaiting_def
proof (rule run_inv)
  let ?r = "runRow\<lparr>wd_status := DISPUTED\<rparr>" and ?a = "runAssignment\<lparr>as_status := A_WAITING, as_waitingExpiresAt := Some 0\<rparr>"
  have "asgOk (pointRows runWaiting) ?r ?a" by (simp add: asgOk_def runAssignment_def runWaiting_def keyFor_eq)
  moreover have "keysOk (pointRows runWaiting) ?r" by (simp add: keysOk_def runWaiting_def keyFor_eq)
  ultimately show "rowOk (pointRows (runState ?r [?a] [])) [?a] ?r"
    by (simp add: rowOk_def accountDue_def statusOk_def oneLive_def runWaiting_def)
qed (simp_all add: runAssignment_def)


end
