(* ===== verification/WalletLocks.thy ===== *)
theory WalletLocks
  imports Ledger
begin

text \<open>
  Concurrent transactions and the order of wallet locks (\<open>src/src/utils/wallet-lock-order.ts\<close>). A
  transaction takes its row locks one by one and keeps them until it commits; a lock that another
  transaction holds has to be waited for. The contract of a lock plan is that it is strictly
  ascending; under it no set of transactions can block each other. \<open>lockWalletsInOrder\<close> keeps the
  contract for any list of wallets.
\<close>

section \<open>Transactions that wait for locks\<close>

record 'l transaction =
  held :: "'l list"
  waiting :: "'l list"

definition starting :: "'l list \<Rightarrow> 'l transaction" where
  "starting ls = \<lparr> held = [], waiting = ls \<rparr>"

definition completed :: "'l transaction \<Rightarrow> bool" where
  "completed t \<longleftrightarrow> held t = [] \<and> waiting t = []"

text \<open>A free lock is granted; a transaction that has all its locks commits and frees them.\<close>

inductive lock_step :: "'l transaction list \<Rightarrow> 'l transaction list \<Rightarrow> bool" where
  acquire: "i < length ts \<Longrightarrow> waiting (ts ! i) = l # ls \<Longrightarrow> \<forall>t\<in>set ts. l \<notin> set (held t)
    \<Longrightarrow> lock_step ts (ts[i := \<lparr> held = held (ts ! i) @ [l], waiting = ls \<rparr>])"
| commit: "i < length ts \<Longrightarrow> waiting (ts ! i) = [] \<Longrightarrow> held (ts ! i) \<noteq> []
    \<Longrightarrow> lock_step ts (ts[i := \<lparr> held = [], waiting = [] \<rparr>])"

inductive_cases lock_stepE: "lock_step ts ts'"

text \<open>The locks still to be taken and the commits still to be made.\<close>

definition effort :: "'l transaction \<Rightarrow> nat" where
  "effort t = 2 * length (waiting t) + length (held t)"

lemma sum_list_update_less:
  fixes xs :: "nat list"
  shows "i < length xs \<Longrightarrow> x < xs ! i \<Longrightarrow> sum_list (xs[i := x]) < sum_list xs"
  by (induction xs arbitrary: i) (auto split: nat.splits)

lemma effort_decreases:
  assumes "lock_step ts ts'"
  shows "sum_list (map effort ts') < sum_list (map effort ts)"
proof -
  have upd: "sum_list (map effort (ts[i := t])) < sum_list (map effort ts)" if "i < length ts" "effort t < effort (ts ! i)" for i t
    using sum_list_update_less [of i "map effort ts" "effort t"] that by (simp add: map_update)
  from assms show ?thesis
    by (cases rule: lock_step.cases) (auto intro!: upd simp: effort_def)
qed

section \<open>The contract\<close>

text \<open>What is held comes before what is waited for, and no lock is held twice.\<close>

definition lockInv :: "'l :: linorder transaction list \<Rightarrow> bool" where
  "lockInv ts \<longleftrightarrow> (\<forall>t\<in>set ts. sorted_wrt (<) (held t @ waiting t))
     \<and> (\<forall>i<length ts. \<forall>j<length ts. i \<noteq> j \<longrightarrow> set (held (ts ! i)) \<inter> set (held (ts ! j)) = {})"

locale ordered_locks =
  fixes plan :: "'op \<Rightarrow> 'l :: linorder list"
  assumes ascending: "sorted_wrt (<) (plan op)"
begin

lemma lockInv_start: "lockInv (map (\<lambda>op. starting (plan op)) ops)"
  using ascending by (auto simp: lockInv_def starting_def)

lemma lockInv_step:
  assumes "lock_step ts ts'" "lockInv ts"
  shows "lockInv ts'"
  using assms
proof (cases rule: lock_step.cases)
  case (acquire i l ls)
  let ?t = "\<lparr> held = held (ts ! i) @ [l], waiting = ls \<rparr>"
  have "sorted_wrt (<) (held t @ waiting t)" if "t \<in> set (ts[i := ?t])" for t
  proof -
    have "t = ?t \<or> t \<in> set ts" using that set_update_subset_insert [of ts i ?t] by blast
    moreover have "sorted_wrt (<) (held (ts ! i) @ waiting (ts ! i))" using assms(2) acquire(2) by (simp add: lockInv_def)
    ultimately show ?thesis using assms(2) acquire(3) by (auto simp: lockInv_def)
  qed
  moreover have "set (held (ts[i := ?t] ! j)) \<inter> set (held (ts[i := ?t] ! k)) = {}"
    if "j < length ts" "k < length ts" "j \<noteq> k" for j k
    using that assms(2) acquire(2,4) by (auto simp: lockInv_def nth_list_update)
  ultimately show ?thesis using acquire(1) by (simp add: lockInv_def)
next
  case (commit i)
  then show ?thesis
    using assms(2) set_update_subset_insert [of ts i "\<lparr> held = [], waiting = [] \<rparr>"]
    by (auto simp: lockInv_def nth_list_update)
qed

lemma lockInv_reach: "lock_step\<^sup>*\<^sup>* (map (\<lambda>op. starting (plan op)) ops) ts \<Longrightarrow> lockInv ts"
  by (induction rule: rtranclp_induct) (auto intro: lockInv_start lockInv_step)

text \<open>The transaction that waits for the greatest lock can go on, or the one that holds it can commit.\<close>

lemma progress:
  assumes inv: "lockInv ts" and t: "t \<in> set ts" "\<not> completed t"
  shows "\<exists>ts'. lock_step ts ts'"
proof (cases "\<exists>u\<in>set ts. waiting u = [] \<and> held u \<noteq> []")
  case True
  then obtain u where u: "u \<in> set ts" "waiting u = []" "held u \<noteq> []" by blast
  then obtain i where i: "i < length ts" "ts ! i = u" by (auto simp: in_set_conv_nth)
  show ?thesis using lock_step.commit [of i ts] i u by blast
next
  case False
  let ?heads = "hd ` waiting ` {u \<in> set ts. waiting u \<noteq> []}"
  have "waiting t \<noteq> []" using t False by (auto simp: completed_def)
  then have "finite ?heads" "?heads \<noteq> {}" using t(1) by auto
  then have "Max ?heads \<in> ?heads" by (rule Max_in)
  then obtain u where u: "u \<in> set ts" "waiting u \<noteq> []" and top: "hd (waiting u) = Max ?heads" by auto
  have max: "hd (waiting v) \<le> hd (waiting u)" if "v \<in> set ts" "waiting v \<noteq> []" for v
    using that \<open>finite ?heads\<close> by (simp add: top)
  have "hd (waiting u) \<notin> set (held v)" if v: "v \<in> set ts" for v
  proof
    assume h: "hd (waiting u) \<in> set (held v)"
    then have w: "waiting v \<noteq> []" using False v by force
    have "sorted_wrt (<) (held v @ waiting v)" using inv v by (simp add: lockInv_def)
    then have "hd (waiting u) < hd (waiting v)" using h w by (auto simp: sorted_wrt_append)
    then show False using max [OF v w] by simp
  qed
  moreover obtain i where "i < length ts" "ts ! i = u" using u(1) by (auto simp: in_set_conv_nth)
  ultimately show ?thesis using u(2) lock_step.acquire [of i ts "hd (waiting u)" "tl (waiting u)"] by auto
qed

lemma all_complete:
  assumes "lockInv ts"
  shows "\<exists>ts'. lock_step\<^sup>*\<^sup>* ts ts' \<and> list_all completed ts'"
  using assms
proof (induction "sum_list (map effort ts)" arbitrary: ts rule: less_induct)
  case less
  show ?case
  proof (cases "list_all completed ts")
    case False
    then obtain ts1 where s: "lock_step ts ts1" using progress [OF less.prems] by (auto simp: list_all_iff)
    obtain ts' where "lock_step\<^sup>*\<^sup>* ts1 ts'" "list_all completed ts'"
      using less.hyps [OF effort_decreases [OF s] lockInv_step [OF s less.prems]] by blast
    then show ?thesis using s converse_rtranclp_into_rtranclp by metis
  qed blast
qed

end

section \<open>The plan of the wallet services\<close>

definition lockPlan :: "wid list \<Rightarrow> wid list" where
  "lockPlan ws = sort (dedupe [] ws)"

interpretation wallet_locks: ordered_locks lockPlan
  by unfold_locales (simp add: lockPlan_def distinct_dedupe strict_sorted_iff)

text \<open>
  C31. Transactions that lock their wallets with \<open>lockWalletsInOrder\<close> never deadlock, however their lock
  requests interleave and whatever wallets they name, in any order and with repetitions: every state
  they reach can be continued until all have committed, no wallet is ever locked by two of them, and
  no run goes on for ever.
\<close>

theorem wallet_locks_never_deadlock:
  assumes "lock_step\<^sup>*\<^sup>* (map (\<lambda>ws. starting (lockPlan ws)) ops) ts"
  shows "(\<exists>ts'. lock_step\<^sup>*\<^sup>* ts ts' \<and> list_all completed ts')
    \<and> (\<forall>i<length ts. \<forall>j<length ts. i \<noteq> j \<longrightarrow> set (held (ts ! i)) \<inter> set (held (ts ! j)) = {})
    \<and> wfP (\<lambda>t' t. lock_step (t :: wid transaction list) t')
    \<and> locks (lockWalletsInOrder ws w) = locks w @ map WalletLock (lockPlan ws)"
proof -
  note inv = wallet_locks.lockInv_reach [OF assms]
  have "wfP (\<lambda>t' t. lock_step (t :: wid transaction list) t')"
    by (rule wfp_if_convertible_to_nat [where f = "\<lambda>ts. sum_list (map effort ts)"]) (rule effort_decreases)
  then show ?thesis
    using wallet_locks.all_complete [OF inv] inv
    by (simp add: lockInv_def lockWalletsInOrder_eq lockPlan_def)
qed

text \<open>Two transfers in opposite directions: in plan order the second one waits; in request order they block each other.\<close>

theorem wallet_locks_never_deadlock_witness:
  "\<exists>ts'. lock_step\<^sup>*\<^sup>* [\<lparr> held = [3], waiting = [5] \<rparr>, starting (lockPlan [5, 3, 5])] ts' \<and> list_all completed ts'"
proof -
  have plan: "lockPlan [3, 5] = [3, 5]" by (simp add: lockPlan_def)
  have "lock_step (map (\<lambda>ws. starting (lockPlan ws)) [[3, 5], [5, 3, 5]])
      ((map (\<lambda>ws. starting (lockPlan ws)) [[3, 5], [5, 3, 5]])[0 := \<lparr> held = [] @ [3], waiting = [5] \<rparr>])"
    using lock_step.acquire [of 0 "map (\<lambda>ws. starting (lockPlan ws)) [[3, 5], [5, 3, 5]]" 3 "[5]"]
    by (simp add: plan starting_def)
  from wallet_locks_never_deadlock [OF r_into_rtranclp [of lock_step, OF this]] show ?thesis by simp
qed

lemma request_order_deadlocks:
  "\<exists>ts. lock_step\<^sup>*\<^sup>* [starting [3, 5], starting [5, 3 :: wid]] ts \<and> \<not> list_all completed ts \<and> (\<forall>ts'. \<not> lock_step ts ts')"
proof -
  let ?a = "\<lparr> held = [3], waiting = [5 :: wid] \<rparr>" and ?b = "\<lparr> held = [5], waiting = [3 :: wid] \<rparr>"
  have 1: "lock_step [starting [3, 5], starting [5, 3]] [?a, starting [5, 3]]"
    using lock_step.acquire [of 0 "[starting [3, 5], starting [5, 3 :: wid]]" 3 "[5]"] by (simp add: starting_def)
  have 2: "lock_step [?a, starting [5, 3]] [?a, ?b]"
    using lock_step.acquire [of 1 "[?a, starting [5, 3]]" 5 "[3]"] by (simp add: starting_def)
  have stuck: "\<not> lock_step [?a, ?b] ts'" for ts'
    by (auto elim!: lock_stepE simp: less_Suc_eq nth_Cons')
  have "lock_step\<^sup>*\<^sup>* [starting [3, 5], starting [5, 3]] [?a, ?b]" using 1 2 by (meson rtranclp.rtrancl_into_rtrancl rtranclp.rtrancl_refl)
  moreover have "\<not> list_all completed [?a, ?b]" by (simp add: completed_def)
  ultimately show ?thesis using stuck by blast
qed

end
