(* ===== verification/Calendar.thy ===== *)
theory Calendar
  imports World
begin

text \<open>
  UTC years and months (\<open>src/src/utils/datetime.ts\<close>). A \<open>Date\<close> is its time in milliseconds since the epoch;
  \<open>getUTCFullYear\<close>, \<open>getUTCMonth\<close> and \<open>Date.UTC\<close> are the proleptic Gregorian calendar of the language,
  written out here: the days before a year, the days before a month, and the search for the last of
  them that is not after a day.
\<close>

section \<open>The calendar of the language\<close>

definition leapYear :: "int \<Rightarrow> bool" where
  "leapYear y \<longleftrightarrow> y mod 4 = 0 \<and> (y mod 100 \<noteq> 0 \<or> y mod 400 = 0)"

text \<open>Days from the first of January of year 0 to that of year \<open>y\<close>.\<close>

definition daysBefore :: "int \<Rightarrow> int" where
  "daysBefore y = 365 * y + (y + 3) div 4 - (y + 99) div 100 + (y + 399) div 400"

text \<open>Days from the first of January to the first of month \<open>m\<close> (1 to 13).\<close>

definition monthOffset :: "int \<Rightarrow> int \<Rightarrow> int" where
  "monthOffset y m =
     (if m \<le> 1 then 0 else if m = 2 then 31
      else (if leapYear y then 1 else 0) +
        (if m = 3 then 59 else if m = 4 then 90 else if m = 5 then 120 else if m = 6 then 151
         else if m = 7 then 181 else if m = 8 then 212 else if m = 9 then 243 else if m = 10 then 273
         else if m = 11 then 304 else if m = 12 then 334 else 365))"

fun lastYear :: "nat \<Rightarrow> int \<Rightarrow> int" where
  "lastYear 0 d = 0"
| "lastYear (Suc n) d = (if daysBefore (int (Suc n)) \<le> d then int (Suc n) else lastYear n d)"

fun lastMonth :: "nat \<Rightarrow> int \<Rightarrow> int \<Rightarrow> int" where
  "lastMonth 0 y d = 1"
| "lastMonth (Suc n) y d = (if monthOffset y (int (Suc n)) \<le> d then int (Suc n) else lastMonth n y d)"

definition MS_PER_DAY :: int where
  "MS_PER_DAY = 86400000"

text \<open>Day 719528 after the start of year 0 is the epoch; the calendar repeats after 146097 days.\<close>

definition civilDay :: "int \<Rightarrow> int" where
  "civilDay t = t div MS_PER_DAY + 719528"

definition getUTCFullYear :: "int \<Rightarrow> int" where
  "getUTCFullYear t = 400 * (civilDay t div 146097) + lastYear 399 (civilDay t mod 146097)"

definition getUTCMonth :: "int \<Rightarrow> int" where
  "getUTCMonth t = lastMonth 12 (getUTCFullYear t) (civilDay t - daysBefore (getUTCFullYear t)) - 1"

text \<open>\<open>Date.UTC(y, m, 1)\<close> for a month index from 0 to 12; index 12 is January of the next year.\<close>

definition DateUTC :: "int \<Rightarrow> int \<Rightarrow> int" where
  "DateUTC y m = (daysBefore y + monthOffset y (m + 1) - 719528) * MS_PER_DAY"

section \<open>The helpers\<close>

definition utcYearMonth :: "int \<Rightarrow> int \<times> int" where
  "utcYearMonth t = (getUTCFullYear t, getUTCMonth t + 1)"

definition utcMonthBoundsExclusive :: "int \<Rightarrow> int \<Rightarrow> int \<times> int" where
  "utcMonthBoundsExclusive year month = (DateUTC year (month - 1), DateUTC year month)"

definition utcPreviousYearMonth :: "int \<Rightarrow> int \<times> int" where
  "utcPreviousYearMonth t =
     (let y = getUTCFullYear t; m = getUTCMonth t + 1 in if m = 1 then (y - 1, 12) else (y, m - 1))"

section \<open>The calendar is right\<close>

lemma ceil_next:
  fixes y k c :: int
  assumes "k = c + 1" "0 \<le> c"
  shows "(y + k) div k = (y + c) div k + (if y mod k = 0 then 1 else 0)"
proof -
  have "(y + c) div k = y div k + (y mod k + c) div k"
  proof -
    have "y + c = k * (y div k) + (y mod k + c)" by simp
    then show ?thesis using div_mult_self4 [of k "y div k" "y mod k + c"] assms by simp
  qed
  moreover have "(y mod k + c) div k = (if y mod k = 0 then 0 else 1)"
  proof (cases "y mod k = 0")
    case False
    then have "1 \<le> y mod k" "y mod k < k" using assms pos_mod_bound [of k y] pos_mod_sign [of k y] by linarith+
    then show ?thesis
      using assms False div_pos_geq [of k "y mod k + c"] div_pos_pos_trivial [of "y mod k - 1" k] by simp
  qed (use assms in simp)
  ultimately show ?thesis using assms by simp
qed

lemma daysBefore_next: "daysBefore (y + 1) = daysBefore y + (if leapYear y then 366 else 365)"
proof -
  define q c f where "q = (y + 3) div 4" and "c = (y + 99) div 100" and "f = (y + 399) div 400"
  have d: "y mod 100 = 0" if "y mod 400 = 0" using that dvd_trans [of 100 400 y] by (simp add: dvd_eq_mod_eq_0)
  have e: "y mod 4 = 0" if "y mod 100 = 0" using that dvd_trans [of 4 100 y] by (simp add: dvd_eq_mod_eq_0)
  have n: "(y + 4) div 4 = q + (if y mod 4 = 0 then 1 else 0)" "(y + 100) div 100 = c + (if y mod 100 = 0 then 1 else 0)"
    "(y + 400) div 400 = f + (if y mod 400 = 0 then 1 else 0)"
    unfolding q_def c_def f_def by (rule ceil_next; simp)+
  have "daysBefore (y + 1) = 365 * (y + 1) + (y + 4) div 4 - (y + 100) div 100 + (y + 400) div 400"
    unfolding daysBefore_def by (simp only: add.assoc) simp
  also have "\<dots> = 365 * y + q - c + f + (if leapYear y then 366 else 365)"
    unfolding n leapYear_def using d e by (cases "y mod 4 = 0"; cases "y mod 100 = 0"; cases "y mod 400 = 0") simp_all
  also have "365 * y + q - c + f = daysBefore y" by (simp only: daysBefore_def q_def c_def f_def)
  finally show ?thesis .
qed

lemma daysBefore_mono: "x \<le> y \<Longrightarrow> daysBefore x + 365 * (y - x) \<le> daysBefore y"
proof (induction "nat (y - x)" arbitrary: y)
  case (Suc n)
  then have "n = nat (y - 1 - x)" "x \<le> y - 1" by linarith+
  then have "daysBefore x + 365 * (y - 1 - x) \<le> daysBefore (y - 1)" by (rule Suc.hyps(1))
  then show ?case using daysBefore_next [of "y - 1"] by (simp split: if_splits)
qed simp

lemma daysBefore_era: "daysBefore (400 * k + y) = 146097 * k + daysBefore y"
  using div_mult_self4 [of 4 "100 * k" "y + 3"] div_mult_self4 [of 100 "4 * k" "y + 99"] div_mult_self4 [of 400 k "y + 399"]
  by (simp add: daysBefore_def algebra_simps)

lemma lastYear_bounds:
  assumes "0 \<le> d" "d < daysBefore (int n + 1)"
  shows "daysBefore (lastYear n d) \<le> d \<and> d < daysBefore (lastYear n d + 1)"
  using assms
proof (induction n)
  case 0
  then show ?case by (simp add: daysBefore_def)
next
  case (Suc n)
  then show ?case by (auto simp: add.commute)
qed

lemma year_bounds:
  "daysBefore (getUTCFullYear t) \<le> civilDay t \<and> civilDay t < daysBefore (getUTCFullYear t + 1)"
proof -
  let ?k = "civilDay t div 146097" and ?r = "civilDay t mod 146097"
  have "daysBefore (int 399 + 1) = 146097" by (simp add: daysBefore_def)
  then have "daysBefore (lastYear 399 ?r) \<le> ?r \<and> ?r < daysBefore (lastYear 399 ?r + 1)"
    by (intro lastYear_bounds) auto
  moreover have "civilDay t = 146097 * ?k + ?r" by simp
  ultimately show ?thesis
    using daysBefore_era [of ?k "lastYear 399 ?r"] daysBefore_era [of ?k "lastYear 399 ?r + 1"]
    unfolding getUTCFullYear_def add.assoc by linarith
qed

lemma lastMonth_bounds:
  assumes "0 \<le> d" "d < monthOffset y (int n + 1)" "n \<le> 12" "0 < n"
  shows "monthOffset y (lastMonth n y d) \<le> d \<and> d < monthOffset y (lastMonth n y d + 1)
    \<and> 1 \<le> lastMonth n y d \<and> lastMonth n y d \<le> int n"
  using assms
proof (induction n)
  case (Suc n)
  show ?case
  proof (cases "n = 0")
    case True
    then show ?thesis using Suc.prems by (simp add: monthOffset_def)
  next
    case False
    then show ?thesis using Suc by (auto simp: algebra_simps)
  qed
qed simp

lemma month_bounds:
  "monthOffset (getUTCFullYear t) (getUTCMonth t + 1) \<le> civilDay t - daysBefore (getUTCFullYear t)
   \<and> civilDay t - daysBefore (getUTCFullYear t) < monthOffset (getUTCFullYear t) (getUTCMonth t + 2)
   \<and> 0 \<le> getUTCMonth t \<and> getUTCMonth t \<le> 11"
proof -
  let ?y = "getUTCFullYear t" and ?d = "civilDay t - daysBefore (getUTCFullYear t)"
  have "monthOffset ?y (int 12 + 1) = (if leapYear ?y then 366 else 365)" by (simp add: monthOffset_def)
  then have "?d < monthOffset ?y (int 12 + 1)" "0 \<le> ?d" using year_bounds [of t] daysBefore_next [of ?y] by auto
  then have "monthOffset ?y (lastMonth 12 ?y ?d) \<le> ?d \<and> ?d < monthOffset ?y (lastMonth 12 ?y ?d + 1)
      \<and> 1 \<le> lastMonth 12 ?y ?d \<and> lastMonth 12 ?y ?d \<le> int 12"
    by (intro lastMonth_bounds) auto
  then show ?thesis by (simp add: getUTCMonth_def add.commute)
qed

lemma month_range: "0 \<le> getUTCMonth t" "getUTCMonth t \<le> 11"
  using month_bounds by auto

lemma monthOffset_next: "1 \<le> m \<Longrightarrow> m \<le> 12 \<Longrightarrow> monthOffset y m < monthOffset y (m + 1)"
proof -
  assume "1 \<le> m" "m \<le> 12"
  then have "m = 1 \<or> m = 2 \<or> m = 3 \<or> m = 4 \<or> m = 5 \<or> m = 6 \<or> m = 7 \<or> m = 8 \<or> m = 9 \<or> m = 10 \<or> m = 11 \<or> m = 12" by presburger
  then show ?thesis by (auto simp: monthOffset_def)
qed

lemma monthOffset_mono: "m \<le> n \<Longrightarrow> 1 \<le> m \<Longrightarrow> n \<le> 13 \<Longrightarrow> monthOffset y m \<le> monthOffset y n"
proof (induction "nat (n - m)" arbitrary: n)
  case (Suc k)
  then have "k = nat (n - 1 - m)" "m \<le> n - 1" by linarith+
  then have "monthOffset y m \<le> monthOffset y (n - 1)" using Suc by simp
  then show ?case using monthOffset_next [of "n - 1" y] Suc.prems \<open>m \<le> n - 1\<close> by simp
qed simp

text \<open>The position of a day is unique.\<close>

lemma year_unique:
  assumes "daysBefore y \<le> d" "d < daysBefore (y + 1)" "daysBefore z \<le> d" "d < daysBefore (z + 1)"
  shows "y = z"
proof -
  have False if "a < b" "d < daysBefore (a + 1)" "daysBefore b \<le> d" for a b
    using daysBefore_mono [of "a + 1" b] that by auto
  then show ?thesis using assms by (metis linorder_neqE)
qed

lemma month_unique:
  assumes "monthOffset y m \<le> d" "d < monthOffset y (m + 1)" "monthOffset y n \<le> d" "d < monthOffset y (n + 1)"
    and "1 \<le> m" "m \<le> 12" "1 \<le> n" "n \<le> 12"
  shows "m = n"
proof -
  have False if "a < b" "d < monthOffset y (a + 1)" "monthOffset y b \<le> d" "1 \<le> a" "b \<le> 12" for a b
    using monthOffset_mono [of "a + 1" b y] that by auto
  then show ?thesis using assms by (metis linorder_neqE)
qed

lemma month_bounds_iff:
  "utcYearMonth t = (y, m) \<longleftrightarrow> 1 \<le> m \<and> m \<le> 12 \<and> fst (utcMonthBoundsExclusive y m) \<le> t \<and> t < snd (utcMonthBoundsExclusive y m)"
proof -
  have ms: "x * MS_PER_DAY \<le> t \<longleftrightarrow> x \<le> t div MS_PER_DAY" "t < x * MS_PER_DAY \<longleftrightarrow> t div MS_PER_DAY < x" for x
    using int_div_less_iff [of MS_PER_DAY t x] by (auto simp: MS_PER_DAY_def)
  have iff: "fst (utcMonthBoundsExclusive y m) \<le> t \<and> t < snd (utcMonthBoundsExclusive y m)
      \<longleftrightarrow> monthOffset y m \<le> civilDay t - daysBefore y \<and> civilDay t - daysBefore y < monthOffset y (m + 1)"
    unfolding utcMonthBoundsExclusive_def DateUTC_def fst_conv snd_conv ms by (auto simp: civilDay_def)
  show ?thesis
  proof
    assume "utcYearMonth t = (y, m)"
    then show "1 \<le> m \<and> m \<le> 12 \<and> fst (utcMonthBoundsExclusive y m) \<le> t \<and> t < snd (utcMonthBoundsExclusive y m)"
      using month_bounds [of t] unfolding iff by (auto simp: utcYearMonth_def add.commute)
  next
    assume a: "1 \<le> m \<and> m \<le> 12 \<and> fst (utcMonthBoundsExclusive y m) \<le> t \<and> t < snd (utcMonthBoundsExclusive y m)"
    let ?d = "civilDay t - daysBefore y"
    have o: "monthOffset y m \<le> ?d" "?d < monthOffset y (m + 1)" using a iff by auto
    have "0 \<le> monthOffset y m" "monthOffset y (m + 1) \<le> monthOffset y 13" "monthOffset y 13 = (if leapYear y then 366 else 365)"
      using a monthOffset_mono [of 1 m y] monthOffset_mono [of "m + 1" 13 y] by (simp_all add: monthOffset_def)
    then have "daysBefore y \<le> civilDay t" "civilDay t < daysBefore (y + 1)" using o daysBefore_next [of y] by auto
    then have y: "getUTCFullYear t = y" using year_unique year_bounds [of t] by blast
    have "getUTCMonth t + 1 = m"
      by (rule month_unique [of y _ ?d]) (use month_bounds [of t] y o a in \<open>auto simp: add.commute\<close>)
    then show "utcYearMonth t = (y, m)" using y by (simp add: utcYearMonth_def)
  qed
qed

text \<open>
  Every instant lies in the month that \<open>utcYearMonth\<close> names, between the bounds that
  \<open>utcMonthBoundsExclusive\<close> gives for it, and every instant between the bounds of a month is given
  that month: the helpers are inverse to each other, also across years and leap days. Months are
  numbers from 1 to 12.
\<close>

theorem utc_month_bounds:
  "utcYearMonth t = (y, m) \<longleftrightarrow> 1 \<le> m \<and> m \<le> 12 \<and> fst (utcMonthBoundsExclusive y m) \<le> t \<and> t < snd (utcMonthBoundsExclusive y m)"
  by (rule month_bounds_iff)

end
