(* ===== verification/RichTier.thy ===== *)
theory RichTier
  imports Calendar Ranking "HOL-Library.Product_Lexorder" "HOL-Library.Multiset"
begin

text \<open>
  The rich tiers: \<open>src/src/services/rich-tier.service.ts\<close>, \<open>src/src/repositories/richTier.repository.ts\<close> and the
  rollover job \<open>src/src/jobs/rich-tier-rollover.job.ts\<close>. Recharges of a month add up per user; the badge
  follows the progress of the month, which is the carryover of the last month plus the recharges; at
  the end of a month every user lands some tiers lower with a carryover.

  Cached values are kept as the values that the source writes and parses again; the expiry times of the
  cache and the columns \<open>lastRechargeAt\<close> and \<open>updatedAt\<close> are left out. Whether the user is a VIP is an
  argument, the answer of the VIP service.
\<close>

section \<open>The ladder\<close>

definition RICH_TIER_THRESHOLDS :: "int list" where
  "RICH_TIER_THRESHOLDS = [3000000, 5000000, 10000000, 20000000, 30000000, 50000000, 100000000, 200000000,
     500000000, 1000000000]"

definition RICH_TIER_DISPLAY_NAMES :: "string list" where
  "RICH_TIER_DISPLAY_NAMES = [''RICH I'', ''RICH II'', ''RICH III'', ''RICH IV'', ''RICH V'', ''RICH VI'', ''RICH VII'',
     ''RICH VIII'', ''RICH IX'', ''RICH X'']"

definition defaultRichTierLadder :: "RichTierLadderRow list" where
  "defaultRichTierLadder =
     map (\<lambda>(i, c, n). \<lparr> rung_tier = int i + 1, minRechargeCoins = c, displayName = n \<rparr>)
       (List.enumerate 0 (zip RICH_TIER_THRESHOLDS RICH_TIER_DISPLAY_NAMES))"

text \<open>The sort is by tier, then by threshold; it is stable.\<close>

definition sortedLadder :: "RichTierLadderRow list \<Rightarrow> RichTierLadderRow list" where
  "sortedLadder rungs = sort_key (\<lambda>r. (rung_tier r, minRechargeCoins r)) rungs"

definition thresholdForTier :: "int \<Rightarrow> RichTierLadderRow list \<Rightarrow> int" where
  "thresholdForTier tier rungs =
     (case find (\<lambda>r. rung_tier r = tier) rungs of None \<Rightarrow> 0 | Some r \<Rightarrow> minRechargeCoins r)"

fun tierLoop :: "int \<Rightarrow> int \<Rightarrow> RichTierLadderRow list \<Rightarrow> int" where
  "tierLoop coins tier [] = tier"
| "tierLoop coins tier (row # rows) =
     (if minRechargeCoins row \<le> coins then tierLoop coins (rung_tier row) rows else tier)"

definition computeTier :: "int \<Rightarrow> RichTierLadderRow list \<Rightarrow> int" where
  "computeTier coins rungs = tierLoop coins 0 (sortedLadder rungs)"

definition retentionLandingTier :: "int \<Rightarrow> int" where
  "retentionLandingTier t =
     (if t \<le> 2 then 0 else if t \<le> 6 then t - 2 else if t \<le> 9 then t - 3 else if t = 10 then 7 else 0)"

definition applyRetentionRule :: "int \<Rightarrow> RichTierLadderRow list \<Rightarrow> int" where
  "applyRetentionRule newTier rungs =
     (let landing = retentionLandingTier newTier in
      if landing \<le> 0 then 0
      else
        (let floor = thresholdForTier landing rungs; next = thresholdForTier (landing + 1) rungs in
         if next \<le> floor then floor else floor + bdiv (next - floor) 2))"

definition nextYearMonth :: "int \<Rightarrow> int \<Rightarrow> int \<times> int" where
  "nextYearMonth year month = (if month = 12 then (year + 1, 1) else (year, month + 1))"

text \<open>The cached ladder is sorted again; an empty one is a miss. The table is read in the order of the tiers.\<close>

definition loadLadder :: "world \<Rightarrow> RichTierLadderRow list \<times> world" where
  "loadLadder w =
     (case (if redisUp w then richConfigCache w else None) of
        Some (r # rs) \<Rightarrow> (sortedLadder (r # rs), w)
      | _ \<Rightarrow>
          (let rows = sort_key rung_tier (richTierConfigs w);
               rungs = (if rows \<noteq> [] then sortedLadder rows else defaultRichTierLadder) in
           (rungs, if redisUp w then w\<lparr>richConfigCache := Some rungs\<rparr> else w)))"

section \<open>Recharges\<close>

definition upsertMonthlyAggregate :: "uid \<Rightarrow> int \<Rightarrow> int \<Rightarrow> int \<Rightarrow> world \<Rightarrow> world" where
  "upsertMonthlyAggregate u year month delta w =
     (let (coins, n) = (case monthlyRecharge w (u, year, month) of None \<Rightarrow> (0, 0) | Some r \<Rightarrow> r) in
      w\<lparr>monthlyRecharge := (monthlyRecharge w)((u, year, month) \<mapsto> (coins + delta, n + 1))\<rparr>)"

definition monthTotalOf :: "uid \<Rightarrow> int \<Rightarrow> int \<Rightarrow> world \<Rightarrow> int" where
  "monthTotalOf u year month w = (case monthlyRecharge w (u, year, month) of None \<Rightarrow> 0 | Some (coins, _) \<Rightarrow> coins)"

definition carryoverOf :: "uid \<Rightarrow> world \<Rightarrow> int" where
  "carryoverOf u w = (case userRichTier w u of None \<Rightarrow> 0 | Some r \<Rightarrow> carryoverCoins r)"

definition badgeOf :: "uid \<Rightarrow> world \<Rightarrow> int" where
  "badgeOf u w = (case userRichTier w u of None \<Rightarrow> 0 | Some r \<Rightarrow> currentTier r)"

definition raiseBadge :: "uid \<Rightarrow> int \<Rightarrow> int \<Rightarrow> int \<Rightarrow> int \<Rightarrow> world \<Rightarrow> world" where
  "raiseBadge u liveTier carryover year month w =
     w\<lparr>userRichTier := (userRichTier w)(u \<mapsto>
        (case userRichTier w u of
           None \<Rightarrow> \<lparr> currentTier = liveTier, evaluatedFromYear = year, evaluatedFromMonth = month,
                      evaluatedRechargeCoins = 0, carryoverCoins = carryover, lastRolledOverAt = None \<rparr>
         | Some r \<Rightarrow> r\<lparr>currentTier := liveTier\<rparr>))\<rparr>"

definition applyRecharge :: "uid \<Rightarrow> int \<Rightarrow> world \<Rightarrow> (int \<times> int) \<times> world" where
  "applyRecharge u amt w =
     (let (year, month) = utcYearMonth (clock w);
          w1 = upsertMonthlyAggregate u year month amt w;
          w2 = onRecharge u amt (utcDayFromTimestamp (clock w1)) w1;
          monthTotal = monthTotalOf u year month w2;
          (rungs, w3) = loadLadder w2;
          carryover = carryoverOf u w3;
          liveTier = computeTier (carryover + monthTotal) rungs in
      ((year, month), if liveTier > badgeOf u w3 then raiseBadge u liveTier carryover year month w3 else w3))"

definition refreshCacheAfterRecharge :: "uid \<Rightarrow> int \<Rightarrow> int \<Rightarrow> world \<Rightarrow> world" where
  "refreshCacheAfterRecharge u year month w =
     (if redisUp w then w\<lparr>richStateCache := (richStateCache w)(u := None),
        richProgressCache := (richProgressCache w)((u, year, month) := None)\<rparr> else w)"

section \<open>Reading a tier\<close>

definition getMonthRechargeCoinsCached :: "uid \<Rightarrow> int \<Rightarrow> int \<Rightarrow> world \<Rightarrow> int \<times> world" where
  "getMonthRechargeCoinsCached u year month w =
     (case (if redisUp w then richProgressCache w (u, year, month) else None) of
        Some v \<Rightarrow> (v, w)
      | None \<Rightarrow>
          (let coins = monthTotalOf u year month w in
           (coins, if redisUp w then w\<lparr>richProgressCache := (richProgressCache w)((u, year, month) \<mapsto> coins)\<rparr> else w)))"

definition buildSnapshotCore ::
  "int \<Rightarrow> RichTierLadderRow list \<Rightarrow> int \<Rightarrow> int \<Rightarrow> int \<Rightarrow> int \<Rightarrow> int \<Rightarrow> RichStateCached" where
  "buildSnapshotCore badgeTier rungs year month recharge carryover progress =
     (let displayMap = map_of (rev (map (\<lambda>r. (rung_tier r, RichTierLadderRow.displayName r)) rungs));
          progressTier = computeTier progress rungs;
          maxTier = foldl (\<lambda>m r. max m (rung_tier r)) 0 rungs;
          nextTh = (if progressTier < maxTier then Some (thresholdForTier (progressTier + 1) rungs) else None) in
      \<lparr> state_tier = badgeTier, state_displayName = (if badgeTier > 0 then displayMap badgeTier else None),
        state_evaluatedFromYear = year, state_evaluatedFromMonth = month,
        currentMonthRechargeCoins = recharge, currentMonthCarryoverCoins = carryover,
        currentMonthProgressCoins = progress, nextTierThreshold = nextTh,
        nextTierLackingCoins = map_option (\<lambda>n. if n > progress then n - progress else 0) nextTh \<rparr>)"

text \<open>The cached state and whether the badge is shown.\<close>

definition getCurrentTierForUser :: "uid \<Rightarrow> bool \<Rightarrow> world \<Rightarrow> (RichStateCached \<times> bool) \<times> world" where
  "getCurrentTierForUser u isVip w =
     (case (if redisUp w then richStateCache w u else None) of
        Some st \<Rightarrow> ((st, isVip \<and> state_tier st > 0), w)
      | None \<Rightarrow>
          (let (rungs, w1) = loadLadder w;
               (year, month) = utcYearMonth (clock w1);
               (monthTotal, w2) = getMonthRechargeCoinsCached u year month w1;
               (fromYear, fromMonth) = (case userRichTier w2 u of None \<Rightarrow> (0, 0) | Some r \<Rightarrow> (evaluatedFromYear r, evaluatedFromMonth r));
               core = buildSnapshotCore (badgeOf u w2) rungs fromYear fromMonth monthTotal (carryoverOf u w2)
                        (carryoverOf u w2 + monthTotal) in
           ((core, isVip \<and> badgeOf u w2 > 0), if redisUp w2 then w2\<lparr>richStateCache := (richStateCache w2)(u \<mapsto> core)\<rparr> else w2)))"

section \<open>The end of a month\<close>

definition rolloverTx :: "uid \<Rightarrow> int \<Rightarrow> int \<Rightarrow> RichTierLadderRow list \<Rightarrow> world \<Rightarrow> world" where
  "rolloverTx u prevYear prevMonth rungs w =
     (if richTierHistory w (u, prevYear, prevMonth) \<noteq> None then w
      else
        (let pure = monthTotalOf u prevYear prevMonth w;
             progressTotal = carryoverOf u w + pure;
             effectiveTier = computeTier progressTotal rungs;
             newCarryover = applyRetentionRule effectiveTier rungs;
             (openYear, openMonth) = nextYearMonth prevYear prevMonth;
             openMonthTier = computeTier (newCarryover + monthTotalOf u openYear openMonth w) rungs in
         w\<lparr>userRichTier := (userRichTier w)(u \<mapsto>
              \<lparr> currentTier = openMonthTier, evaluatedFromYear = prevYear, evaluatedFromMonth = prevMonth,
                evaluatedRechargeCoins = progressTotal, carryoverCoins = newCarryover, lastRolledOverAt = Some (clock w) \<rparr>),
           richTierHistory := (richTierHistory w)((u, prevYear, prevMonth) \<mapsto>
              \<lparr> hist_tier = effectiveTier, totalProgressCoins = progressTotal, carryoverApplied = newCarryover,
                pureRechargeCoins = pure \<rparr>)\<rparr>))"

definition processMonthlyRolloverForUser :: "uid \<Rightarrow> int \<Rightarrow> int \<Rightarrow> world \<Rightarrow> world" where
  "processMonthlyRolloverForUser u prevYear prevMonth w =
     (let (rungs, w1) = loadLadder w in
      refreshCacheAfterRecharge u prevYear prevMonth (rolloverTx u prevYear prevMonth rungs w1))"

text \<open>
  The job walks over the users in pages: the query answers with the first \<open>limit\<close> users after the cursor
  in the order of their ids. The empty cursor is \<open>None\<close>.
\<close>

definition listUsersForRollover :: "uid list \<Rightarrow> uid option \<Rightarrow> nat \<Rightarrow> uid list" where
  "listUsersForRollover us cursor limit =
     take limit (sort (remdups (case cursor of None \<Rightarrow> us | Some c \<Rightarrow> filter (\<lambda>u. c < u) us)))"

definition RICH_TIER_BATCH_SIZE :: nat where
  "RICH_TIER_BATCH_SIZE = 1000"

lemma page_progress:
  assumes "listUsersForRollover us cursor limit = ids" "ids \<noteq> []"
  shows "last ids \<in> set us" "\<forall>c. cursor = Some c \<longrightarrow> c < last ids"
proof -
  have "last ids \<in> set (sort (remdups (case cursor of None \<Rightarrow> us | Some c \<Rightarrow> filter (\<lambda>u. c < u) us)))"
    using last_in_set [OF assms(2)] unfolding assms(1) [symmetric] listUsersForRollover_def by (rule in_set_takeD)
  then show "last ids \<in> set us" "\<forall>c. cursor = Some c \<longrightarrow> c < last ids" by (auto split: option.splits)
qed

text \<open>The batches that the master job enqueues.\<close>

function rolloverBatches :: "uid list \<Rightarrow> nat \<Rightarrow> uid option \<Rightarrow> uid list list" where
  "rolloverBatches us limit cursor =
     (let ids = listUsersForRollover us cursor limit in
      if ids = [] then []
      else if length ids < limit then [ids]
      else ids # rolloverBatches us limit (Some (last ids)))"
  by pat_completeness auto
termination
proof (relation "measure (\<lambda>(us, limit, cursor). card {u \<in> set us. \<forall>c. cursor = Some c \<longrightarrow> c < u})")
  fix us limit cursor and ids :: "uid list"
  assume ids: "ids = listUsersForRollover us cursor limit" "\<not> ids = []"
  note p = page_progress [OF ids(1) [symmetric] ids(2)]
  have "{u \<in> set us. last ids < u} \<subset> {u \<in> set us. \<forall>c. cursor = Some c \<longrightarrow> c < u}"
    using p by (cases cursor) auto
  then show "((us, limit, Some (last ids)), us, limit, cursor) \<in> measure (\<lambda>(us, limit, cursor). card {u \<in> set us. \<forall>c. cursor = Some c \<longrightarrow> c < u})"
    by (simp add: psubset_card_mono)
qed simp

declare rolloverBatches.simps [simp del]

definition handleBatch :: "int \<Rightarrow> int \<Rightarrow> uid list \<Rightarrow> world \<Rightarrow> world" where
  "handleBatch year month us w = foldl (\<lambda>w u. processMonthlyRolloverForUser u year month w) w us"

section \<open>Ladders\<close>

text \<open>A ladder as the admin route accepts it: the tiers 1 to 10 with positive, strictly increasing thresholds.\<close>

definition badRung :: "RichTierLadderRow list \<Rightarrow> nat \<Rightarrow> bool" where
  "badRung rows i \<longleftrightarrow> rung_tier (rows ! i) \<noteq> int i + 1 \<or> minRechargeCoins (rows ! i) \<le> 0
     \<or> RichTierLadderRow.displayName (rows ! i) = []
     \<or> i > 0 \<and> minRechargeCoins (rows ! i) \<le> minRechargeCoins (rows ! (i - 1))"

definition replaceTierConfig :: "RichTierLadderRow list \<Rightarrow> world \<Rightarrow> error + RichTierLadderRow list \<times> world" where
  "replaceTierConfig tiers w =
     (let bad = AppError 400 ''VALIDATION_ERROR'' [];
          parsed = map (\<lambda>t. t\<lparr>RichTierLadderRow.displayName := trimBy isSpace (RichTierLadderRow.displayName t)\<rparr>) tiers;
          rows = sort_key rung_tier parsed in
      if length tiers \<noteq> 10 then Inl bad
      else if list_ex (badRung rows) [0..<10] then Inl bad
      else Inr (rows, w\<lparr>richTierConfigs := rows,
             richConfigCache := (if redisUp w then Some rows else richConfigCache w)\<rparr>))"

definition validLadder :: "RichTierLadderRow list \<Rightarrow> bool" where
  "validLadder rungs \<longleftrightarrow> map rung_tier rungs = [1, 2, 3, 4, 5, 6, 7, 8, 9, 10]
     \<and> sorted_wrt (<) (0 # map minRechargeCoins rungs)"

lemma validLadder_nth:
  assumes "validLadder rungs"
  shows "length rungs = 10" "i < 10 \<Longrightarrow> rung_tier (rungs ! i) = int i + 1" "i < j \<Longrightarrow> j < 10 \<Longrightarrow> minRechargeCoins (rungs ! i) < minRechargeCoins (rungs ! j)"
    "i < 10 \<Longrightarrow> 0 < minRechargeCoins (rungs ! i)"
proof -
  have m: "map rung_tier rungs = [1, 2, 3, 4, 5, 6, 7, 8, 9, 10]" using assms by (simp add: validLadder_def)
  show l: "length rungs = 10" using arg_cong [OF m, of length] by simp
  have u: "[1, 2, 3, 4, 5, 6, 7, 8, 9, 10 :: int] = map (\<lambda>i. int i + 1) [0..<10]" by (simp add: upt_rec)
  show "rung_tier (rungs ! i) = int i + 1" if "i < 10"
    using arg_cong [OF m [unfolded u], of "\<lambda>xs. xs ! i"] that l by simp
  show "minRechargeCoins (rungs ! i) < minRechargeCoins (rungs ! j)" if "i < j" "j < 10"
    using assms that l sorted_wrt_nth_less [of "(<)" "map minRechargeCoins rungs" i j] by (simp add: validLadder_def)
  show "0 < minRechargeCoins (rungs ! i)" if "i < 10"
    using assms that l by (simp add: validLadder_def)
qed

lemma validLadder_sorted: "validLadder rungs \<Longrightarrow> sortedLadder rungs = rungs"
proof -
  assume v: "validLadder rungs"
  have "sorted (map (\<lambda>r. (rung_tier r, minRechargeCoins r)) rungs)"
    unfolding sorted_iff_nth_mono_less using validLadder_nth [OF v] by auto
  then show ?thesis unfolding sortedLadder_def by (rule sort_key_id_if_sorted)
qed

lemma replaceTierConfig_valid:
  assumes "replaceTierConfig tiers w = Inr (rows, w')"
  shows "validLadder rows"
proof -
  have len: "length rows = 10" and "\<not> list_ex (badRung rows) [0..<10]"
    using assms by (auto simp: replaceTierConfig_def Let_def split: if_splits)
  then have "\<not> badRung rows i" if "i < 10" for i using that by (simp add: list_ex_iff)
  then have ok: "rung_tier (rows ! i) = int i + 1 \<and> 0 < minRechargeCoins (rows ! i)
      \<and> (0 < i \<longrightarrow> minRechargeCoins (rows ! (i - 1)) < minRechargeCoins (rows ! i))" if "i < 10" for i
    using that by (auto simp: badRung_def not_le)
  have "map rung_tier rows = map (\<lambda>i. int i + 1) [0..<10]"
    by (rule nth_equalityI) (use len ok in simp_all)
  moreover have "map (\<lambda>i. int i + 1) [0..<10] = [1, 2, 3, 4, 5, 6, 7, 8, 9, 10]" by (simp add: upt_rec)
  moreover have "sorted_wrt (<) (map minRechargeCoins rows)"
    unfolding sorted_wrt_iff_nth_Suc_transp [OF transp_on_less]
  proof (intro allI impI)
    fix i assume "Suc i < length (map minRechargeCoins rows)"
    then show "map minRechargeCoins rows ! i < map minRechargeCoins rows ! Suc i" using ok [of "Suc i"] len by simp
  qed
  moreover have "\<forall>c\<in>set (map minRechargeCoins rows). 0 < c" using len ok by (auto simp: in_set_conv_nth)
  ultimately show ?thesis by (simp add: validLadder_def)
qed

lemma default_ladder_valid: "validLadder defaultRichTierLadder"
  by (simp add: validLadder_def defaultRichTierLadder_def RICH_TIER_THRESHOLDS_def RICH_TIER_DISPLAY_NAMES_def)

lemma tierLoop_takeWhile:
  "tierLoop c t rows = (let p = takeWhile (\<lambda>r. minRechargeCoins r \<le> c) rows in if p = [] then t else rung_tier (last p))"
  by (induction rows arbitrary: t) (auto simp: Let_def)

lemma threshold_nth:
  assumes v: "validLadder rungs" and k: "1 \<le> k" "k \<le> 10"
  shows "thresholdForTier k rungs = minRechargeCoins (rungs ! (nat k - 1))"
proof -
  have "find (\<lambda>r. rung_tier r = k) rungs = Some (rungs ! (nat k - 1))"
    unfolding find_Some_iff using k validLadder_nth(1,2) [OF v] by (intro exI [of _ "nat k - 1"]) auto
  then show ?thesis by (simp add: thresholdForTier_def)
qed

text \<open>The tier is the highest one whose threshold is reached.\<close>

lemma computeTier_bounds:
  assumes v: "validLadder rungs"
  shows "0 \<le> computeTier c rungs" "computeTier c rungs \<le> 10"
    "0 < computeTier c rungs \<Longrightarrow> thresholdForTier (computeTier c rungs) rungs \<le> c"
    "computeTier c rungs < 10 \<Longrightarrow> c < thresholdForTier (computeTier c rungs + 1) rungs"
proof -
  let ?p = "takeWhile (\<lambda>r. minRechargeCoins r \<le> c) rungs" let ?n = "length ?p"
  have n: "?n \<le> 10" using length_takeWhile_le [of _ rungs] validLadder_nth(1) [OF v] by metis
  have p: "?p = take ?n rungs" by (rule takeWhile_eq_take)
  have last: "last ?p = rungs ! (?n - 1)" if "?p \<noteq> []"
    using that p by (metis last_conv_nth length_greater_0_conv nth_take diff_less zero_less_one)
  have t: "computeTier c rungs = int ?n"
  proof (cases "?p = []")
    case True
    then show ?thesis by (simp add: computeTier_def validLadder_sorted [OF v] tierLoop_takeWhile)
  next
    case False
    then have "0 < ?n" by simp
    then show ?thesis
      using False n last validLadder_nth(2) [OF v, of "?n - 1"]
      by (simp add: computeTier_def validLadder_sorted [OF v] tierLoop_takeWhile Let_def of_nat_diff Suc_leI)
  qed
  then show "0 \<le> computeTier c rungs" "computeTier c rungs \<le> 10" using n by auto
  show "thresholdForTier (computeTier c rungs) rungs \<le> c" if "0 < computeTier c rungs"
  proof -
    have "last ?p \<in> set ?p" using that t by (intro last_in_set) auto
    then have "minRechargeCoins (last ?p) \<le> c" using set_takeWhileD by fastforce
    moreover have "1 \<le> int ?n" "?p \<noteq> []" using that t by (auto simp: Suc_le_eq)
    ultimately show ?thesis using t n last threshold_nth [OF v, of "int ?n"] by simp
  qed
  show "c < thresholdForTier (computeTier c rungs + 1) rungs" if "computeTier c rungs < 10"
  proof -
    have "\<not> minRechargeCoins (rungs ! ?n) \<le> c"
      by (rule nth_length_takeWhile) (use that t validLadder_nth(1) [OF v] in simp)
    then show ?thesis using that t threshold_nth [OF v, of "int ?n + 1"] by (simp add: nat_add_distrib)
  qed
qed

lemma threshold_mono:
  "validLadder rungs \<Longrightarrow> 1 \<le> i \<Longrightarrow> i < j \<Longrightarrow> j \<le> 10 \<Longrightarrow> thresholdForTier i rungs < thresholdForTier j rungs"
  using validLadder_nth(3) [of rungs "nat i - 1" "nat j - 1"] by (simp add: threshold_nth)

lemma computeTier_eqI:
  assumes v: "validLadder rungs" and t: "0 \<le> t" "t \<le> 10" "0 < t \<Longrightarrow> thresholdForTier t rungs \<le> c"
    "t < 10 \<Longrightarrow> c < thresholdForTier (t + 1) rungs"
  shows "computeTier c rungs = t"
proof -
  note b = computeTier_bounds [OF v, of c]
  have False if "x < y" "0 \<le> x" "y \<le> 10" "c < thresholdForTier (x + 1) rungs" "thresholdForTier y rungs \<le> c" for x y
    using threshold_mono [OF v, of "x + 1" y] that by (cases "x + 1 = y") auto
  from this [of t "computeTier c rungs"] this [of "computeTier c rungs" t] show ?thesis
    using b t by (cases "computeTier c rungs" t rule: linorder_cases) auto
qed

lemma computeTier_mono: "validLadder rungs \<Longrightarrow> c \<le> d \<Longrightarrow> computeTier c rungs \<le> computeTier d rungs"
proof (rule ccontr)
  assume v: "validLadder rungs" and le: "c \<le> d" and lt: "\<not> computeTier c rungs \<le> computeTier d rungs"
  note b = computeTier_bounds [OF v]
  have "d < thresholdForTier (computeTier d rungs + 1) rungs" using b(2) [of c] lt by (intro b(4)) simp
  moreover have "thresholdForTier (computeTier c rungs) rungs \<le> c" using b(1) [of d] lt by (intro b(3)) simp
  moreover have "thresholdForTier (computeTier d rungs + 1) rungs \<le> thresholdForTier (computeTier c rungs) rungs"
    using threshold_mono [OF v, of "computeTier d rungs + 1" "computeTier c rungs"] lt b(1) [of d] b(2) [of c]
    by (cases "computeTier d rungs + 1 = computeTier c rungs") auto
  ultimately show False using le by simp
qed

text \<open>The carryover puts the user on the landing tier.\<close>

lemma retention_lands:
  assumes v: "validLadder rungs" and t: "0 \<le> t" "t \<le> 10"
  shows "computeTier (applyRetentionRule t rungs) rungs = retentionLandingTier t"
proof -
  let ?l = "retentionLandingTier t"
  have l: "0 \<le> ?l" "?l \<le> 7" using t by (auto simp: retentionLandingTier_def)
  show ?thesis
  proof (cases "?l = 0")
    case True
    have "0 < thresholdForTier 1 rungs" using validLadder_nth(4) [OF v, of 0] threshold_nth [OF v, of 1] by simp
    then show ?thesis using True by (intro computeTier_eqI [OF v]) (simp_all add: applyRetentionRule_def)
  next
    case False
    then have "thresholdForTier ?l rungs < thresholdForTier (?l + 1) rungs" using l by (intro threshold_mono [OF v]) auto
    then have "thresholdForTier ?l rungs \<le> applyRetentionRule t rungs \<and> applyRetentionRule t rungs < thresholdForTier (?l + 1) rungs"
      using False l by (simp add: applyRetentionRule_def Let_def bdiv_nonneg)
    then show ?thesis using l by (intro computeTier_eqI [OF v]) auto
  qed
qed

section \<open>The ladder in force\<close>

abbreviation ladderOf :: "world \<Rightarrow> RichTierLadderRow list" where
  "ladderOf w \<equiv> fst (loadLadder w)"

lemma sortedLadder_idem [simp]: "sortedLadder (sortedLadder rungs) = sortedLadder rungs"
  unfolding sortedLadder_def by (rule sort_key_id_if_sorted) simp

lemma sortedLadder_Nil [simp]: "sortedLadder rungs = [] \<longleftrightarrow> rungs = []"
  by (metis sortedLadder_def length_0_conv length_sort)

lemma sortedLadder_default [simp]: "sortedLadder defaultRichTierLadder = defaultRichTierLadder"
  by (simp add: validLadder_sorted default_ladder_valid)

lemma default_ladder_nonempty [simp]: "defaultRichTierLadder \<noteq> []"
  using validLadder_nth(1) [OF default_ladder_valid] by auto

text \<open>Loading the ladder changes nothing but its cache, and the next load answers the same.\<close>

lemma loadLadder_again:
  assumes "richConfigCache w' = richConfigCache (snd (loadLadder w))" "redisUp w' = redisUp w" "richTierConfigs w' = richTierConfigs w"
  shows "ladderOf w' = ladderOf w"
proof -
  have hit: "ladderOf v = sortedLadder rungs" if "redisUp v" "richConfigCache v = Some rungs" "rungs \<noteq> []" for v rungs
    using that by (cases rungs) (simp_all add: loadLadder_def)
  show ?thesis
  proof (cases "redisUp w \<and> richConfigCache w \<in> {None, Some []}")
    case True
    then have "loadLadder w = (ladderOf w, w\<lparr>richConfigCache := Some (ladderOf w)\<rparr>)" "sortedLadder (ladderOf w) = ladderOf w" "ladderOf w \<noteq> []"
      by (auto simp: loadLadder_def Let_def split: if_splits)
    moreover have "richConfigCache w' = Some (ladderOf w)"
      using assms(1) unfolding arg_cong [OF calculation(1), of snd] by simp
    ultimately show ?thesis using hit [of w' "ladderOf w"] assms(2) True by metis
  next
    case False
    then show ?thesis using assms by (auto simp: loadLadder_def Let_def split: option.splits list.splits)
  qed
qed

lemma loadLadder_frame [simp]:
  "monthlyRecharge (snd (loadLadder w)) = monthlyRecharge w" "userRichTier (snd (loadLadder w)) = userRichTier w"
  "richTierHistory (snd (loadLadder w)) = richTierHistory w" "richTierConfigs (snd (loadLadder w)) = richTierConfigs w"
  "clock (snd (loadLadder w)) = clock w" "redisUp (snd (loadLadder w)) = redisUp w"
  by (auto simp: loadLadder_def Let_def split: option.splits list.splits)

text \<open>
  C33. Whatever ladder the admin route accepts has the tiers 1 to 10 with strictly increasing positive
  thresholds, and it is the ladder that every later operation loads, with the cache reachable or not.
\<close>

theorem replaced_ladder_in_force:
  assumes "replaceTierConfig tiers w = Inr (rows, w')"
  shows "validLadder rows \<and> fst (loadLadder w') = rows \<and> mset (map minRechargeCoins rows) = mset (map minRechargeCoins tiers)"
proof -
  have v: "validLadder rows" by (rule replaceTierConfig_valid [OF assms])
  have w': "w' = w\<lparr>richTierConfigs := rows, richConfigCache := (if redisUp w then Some rows else richConfigCache w)\<rparr>"
    and rows: "rows = sort_key rung_tier (map (\<lambda>t. t\<lparr>RichTierLadderRow.displayName := trimBy isSpace (RichTierLadderRow.displayName t)\<rparr>) tiers)"
    using assms by (auto simp: replaceTierConfig_def Let_def split: if_splits)
  have ne: "rows \<noteq> []" using validLadder_nth(1) [OF v] by auto
  have "sort_key rung_tier rows = rows" unfolding rows by (rule sort_key_id_if_sorted) simp
  then have "fst (loadLadder w') = rows"
    using ne validLadder_sorted [OF v] unfolding w' by (cases rows) (auto simp: loadLadder_def Let_def)
  moreover have "mset (map minRechargeCoins rows) = mset (map minRechargeCoins tiers)"
    unfolding rows by (simp add: image_mset.compositionality comp_def)
  ultimately show ?thesis using v by blast
qed

section \<open>Recharges and the badge\<close>

lemma recharge_score_frame [simp]:
  "userRichTier (onRecharge u a d w) = userRichTier w" "monthlyRecharge (onRecharge u a d w) = monthlyRecharge w"
  "richConfigCache (onRecharge u a d w) = richConfigCache w" "richTierConfigs (onRecharge u a d w) = richTierConfigs w"
  "redisUp (onRecharge u a d w) = redisUp w" "clock (onRecharge u a d w) = clock w"
  using onRecharge_frame [of w u a d] by (auto simp: rankFrame_def simp del: onRecharge_frame)

lemma upsertMonthlyAggregate_frame [simp]:
  "userRichTier (upsertMonthlyAggregate u y m a w) = userRichTier w" "clock (upsertMonthlyAggregate u y m a w) = clock w"
  "richConfigCache (upsertMonthlyAggregate u y m a w) = richConfigCache w"
  "richTierConfigs (upsertMonthlyAggregate u y m a w) = richTierConfigs w" "redisUp (upsertMonthlyAggregate u y m a w) = redisUp w"
  by (simp_all add: upsertMonthlyAggregate_def split: prod.splits)

lemma monthTotal_upsert [simp]:
  "monthTotalOf v y' m' (upsertMonthlyAggregate u y m a w) =
     monthTotalOf v y' m' w + (if (v, y', m') = (u, y, m) then a else 0)"
  by (auto simp: upsertMonthlyAggregate_def monthTotalOf_def split: prod.splits option.splits)

lemma raiseBadge_row:
  "badgeOf v (raiseBadge u t c y m w) = (if v = u then t else badgeOf v w)"
  "c = carryoverOf u w \<Longrightarrow> carryoverOf v (raiseBadge u t c y m w) = carryoverOf v w"
  by (auto simp: raiseBadge_def badgeOf_def carryoverOf_def split: option.splits)

lemma raiseBadge_frame [simp]:
  "monthlyRecharge (raiseBadge u t c y m w) = monthlyRecharge w" "clock (raiseBadge u t c y m w) = clock w"
  "richConfigCache (raiseBadge u t c y m w) = richConfigCache w" "redisUp (raiseBadge u t c y m w) = redisUp w"
  "richTierConfigs (raiseBadge u t c y m w) = richTierConfigs w"
  by (simp_all add: raiseBadge_def)

text \<open>Reads of the tables that agree.\<close>

lemma rich_reads:
  "monthlyRecharge w' = monthlyRecharge w \<Longrightarrow> monthTotalOf u y m w' = monthTotalOf u y m w"
  "userRichTier w' v = userRichTier w v \<Longrightarrow> carryoverOf v w' = carryoverOf v w \<and> badgeOf v w' = badgeOf v w"
  by (simp_all add: monthTotalOf_def carryoverOf_def badgeOf_def)

lemma applyRecharge_effect:
  assumes ym: "utcYearMonth (clock w) = (y, m)" and w': "w' = snd (applyRecharge u amt w)"
  shows "monthTotalOf v y' m' w' = monthTotalOf v y' m' w + (if (v, y', m') = (u, y, m) then amt else 0)"
    "carryoverOf v w' = carryoverOf v w" "clock w' = clock w" "ladderOf w' = ladderOf w"
    "badgeOf v w' = (if v = u then max (badgeOf u w) (computeTier (carryoverOf u w + monthTotalOf u y m w + amt) (ladderOf w)) else badgeOf v w)"
proof -
  define w2 where "w2 = onRecharge u amt (utcDayFromTimestamp (clock w)) (upsertMonthlyAggregate u y m amt w)"
  define w3 where "w3 = snd (loadLadder w2)"
  have lad: "ladderOf w2 = ladderOf w" "richConfigCache w3 = richConfigCache (snd (loadLadder w))"
    by (auto simp: w3_def w2_def loadLadder_def Let_def split: option.splits list.splits)
  have total: "monthTotalOf a b c w2 = monthTotalOf a b c w + (if (a, b, c) = (u, y, m) then amt else 0)" for a b c
    unfolding w2_def using monthTotal_upsert by (simp add: rich_reads(1) [OF recharge_score_frame(2)])
  have rows: "userRichTier w3 = userRichTier w" "monthlyRecharge w3 = monthlyRecharge w2" "clock w3 = clock w" "redisUp w3 = redisUp w"
    "richTierConfigs w3 = richTierConfigs w"
    by (simp_all add: w3_def w2_def)
  note same = rich_reads(2) [OF fun_cong [OF rows(1)]]
  define t where "t = computeTier (carryoverOf u w + (monthTotalOf u y m w + amt)) (ladderOf w)"
  have eq: "w' = (if t > badgeOf u w then raiseBadge u t (carryoverOf u w) y m w3 else w3)"
    using ym lad(1) total [of u y m] same [of u]
    by (simp add: w' applyRecharge_def Let_def split_def t_def flip: w2_def w3_def)
  show "monthTotalOf v y' m' w' = monthTotalOf v y' m' w + (if (v, y', m') = (u, y, m) then amt else 0)"
    unfolding total [symmetric] by (simp add: eq rich_reads(1) [OF raiseBadge_frame(1)] rich_reads(1) [OF rows(2)])
  show "carryoverOf v w' = carryoverOf v w" using same by (simp add: eq raiseBadge_row)
  show "clock w' = clock w" using rows by (simp add: eq)
  show "ladderOf w' = ladderOf w" by (rule loadLadder_again) (use rows lad in \<open>simp_all add: eq\<close>)
  show "badgeOf v w' = (if v = u then max (badgeOf u w) (computeTier (carryoverOf u w + monthTotalOf u y m w + amt) (ladderOf w)) else badgeOf v w)"
    using same by (simp add: eq raiseBadge_row max_def t_def add.assoc)
qed

text \<open>
  The recharges of one month add up: after any sequence of them the month's total has grown by their
  sum, the carryover is untouched, and the badge is the one before or the tier of the progress, whichever is
  higher. It depends on the sum only, and no recharge lowers it or touches another user's.
\<close>

theorem recharges_add_up:
  assumes "validLadder (fst (loadLadder w))" "utcYearMonth (clock w) = (y, m)" "amts \<noteq> []" "\<forall>a\<in>set amts. 0 \<le> a"
    and "w' = foldl (\<lambda>w a. snd (applyRecharge u a w)) w amts"
  shows "monthTotalOf u y m w' = monthTotalOf u y m w + sum_list amts \<and> carryoverOf u w' = carryoverOf u w
    \<and> badgeOf u w' = max (badgeOf u w) (computeTier (carryoverOf u w + monthTotalOf u y m w + sum_list amts) (fst (loadLadder w)))
    \<and> (\<forall>v. v \<noteq> u \<longrightarrow> badgeOf v w' = badgeOf v w)"
  using assms
proof (induction amts arbitrary: w)
  case (Cons a amts)
  define w1 where "w1 = snd (applyRecharge u a w)"
  note e = applyRecharge_effect [OF Cons.prems(2) w1_def]
  show ?case
  proof (cases "amts = []")
    case True
    then show ?thesis using Cons.prems(5) by (simp add: e add.assoc flip: w1_def)
  next
    case False
    have "computeTier (carryoverOf u w + monthTotalOf u y m w + a) (ladderOf w)
        \<le> computeTier (carryoverOf u w + (monthTotalOf u y m w + a) + sum_list amts) (ladderOf w)"
      using Cons.prems by (intro computeTier_mono) (auto intro: sum_list_nonneg)
    moreover have "w' = foldl (\<lambda>w a. snd (applyRecharge u a w)) w1 amts" using Cons.prems(5) by (simp add: w1_def)
    ultimately show ?thesis
      using Cons.IH [OF _ _ False, of w1] Cons.prems(1,2,4) by (simp add: e add.assoc max_def)
  qed
qed simp

section \<open>The rollover\<close>

text \<open>What the rollover of a user reads, and the row it writes.\<close>

definition rolledRow :: "uid \<Rightarrow> int \<Rightarrow> int \<Rightarrow> world \<Rightarrow> rich_tier_row" where
  "rolledRow u y m w =
     (let progress = carryoverOf u w + monthTotalOf u y m w; c = applyRetentionRule (computeTier progress (ladderOf w)) (ladderOf w);
          (oy, om) = nextYearMonth y m in
      \<lparr> currentTier = computeTier (c + monthTotalOf u oy om w) (ladderOf w), evaluatedFromYear = y, evaluatedFromMonth = m,
        evaluatedRechargeCoins = progress, carryoverCoins = c, lastRolledOverAt = Some (clock w) \<rparr>)"

lemma process_effect:
  assumes "w' = processMonthlyRolloverForUser u y m w"
  shows "userRichTier w' = (if richTierHistory w (u, y, m) = None then (userRichTier w)(u \<mapsto> rolledRow u y m w) else userRichTier w)"
    "richTierHistory w' (v, y, m) = None \<longleftrightarrow> v \<noteq> u \<and> richTierHistory w (v, y, m) = None"
    "monthlyRecharge w' = monthlyRecharge w" "ladderOf w' = ladderOf w" "clock w' = clock w"
proof -
  define w1 where "w1 = snd (loadLadder w)"
  have r: "carryoverOf a w1 = carryoverOf a w" "monthTotalOf a b c w1 = monthTotalOf a b c w" for a b c
    by (simp_all add: w1_def carryoverOf_def monthTotalOf_def)
  have eq: "w' = refreshCacheAfterRecharge u y m (rolloverTx u y m (ladderOf w) w1)"
    by (simp add: assms processMonthlyRolloverForUser_def split_def Let_def w1_def)
  have tx: "userRichTier (refreshCacheAfterRecharge u y m x) = userRichTier x" "richTierHistory (refreshCacheAfterRecharge u y m x) = richTierHistory x"
    "monthlyRecharge (refreshCacheAfterRecharge u y m x) = monthlyRecharge x" "clock (refreshCacheAfterRecharge u y m x) = clock x"
    "richConfigCache (refreshCacheAfterRecharge u y m x) = richConfigCache x" "redisUp (refreshCacheAfterRecharge u y m x) = redisUp x"
    "richTierConfigs (refreshCacheAfterRecharge u y m x) = richTierConfigs x" for x
    by (simp_all add: refreshCacheAfterRecharge_def)
  show "userRichTier w' = (if richTierHistory w (u, y, m) = None then (userRichTier w)(u \<mapsto> rolledRow u y m w) else userRichTier w)"
    by (cases "richTierHistory w (u, y, m)")
      (simp_all add: eq tx rolloverTx_def rolledRow_def Let_def split_def r, simp_all add: w1_def)
  show "richTierHistory w' (v, y, m) = None \<longleftrightarrow> v \<noteq> u \<and> richTierHistory w (v, y, m) = None"
    by (auto simp: eq tx rolloverTx_def Let_def split_def w1_def)
  show "monthlyRecharge w' = monthlyRecharge w" "clock w' = clock w"
    by (simp_all add: eq tx rolloverTx_def Let_def split_def w1_def)
  show "ladderOf w' = ladderOf w"
    by (rule loadLadder_again) (simp_all add: eq tx rolloverTx_def Let_def split_def w1_def)
qed

lemma rolledRow_cong:
  "userRichTier w' u = userRichTier w u \<Longrightarrow> monthlyRecharge w' = monthlyRecharge w \<Longrightarrow> ladderOf w' = ladderOf w
    \<Longrightarrow> clock w' = clock w \<Longrightarrow> rolledRow u y m w' = rolledRow u y m w"
  by (simp add: rolledRow_def carryoverOf_def monthTotalOf_def)

lemma handleBatch_rows:
  "distinct us \<Longrightarrow>
    userRichTier (handleBatch y m us w) v =
      (if v \<in> set us \<and> richTierHistory w (v, y, m) = None then Some (rolledRow v y m w) else userRichTier w v)
    \<and> (richTierHistory (handleBatch y m us w) (v, y, m) = None \<longleftrightarrow> v \<notin> set us \<and> richTierHistory w (v, y, m) = None)"
proof (induction us arbitrary: w)
  case (Cons u us)
  note e = process_effect [OF refl, of u y m w]
  have "rolledRow v y m (processMonthlyRolloverForUser u y m w) = rolledRow v y m w" if "v \<noteq> u"
    by (rule rolledRow_cong) (use that e in simp_all)
  moreover have "handleBatch y m (u # us) w = handleBatch y m us (processMonthlyRolloverForUser u y m w)"
    by (simp add: handleBatch_def)
  moreover note Cons.IH [of "processMonthlyRolloverForUser u y m w"]
  ultimately show ?case using Cons.prems e(1) e(2) [of v] by (cases "v = u") (simp_all split: if_splits)
qed (simp add: handleBatch_def)

text \<open>
  The end of a month for one user, on a valid ladder: the row records the closed month's progress; the
  carryover puts the user on the landing tier of the retention rule, which the badge is when nothing was
  recharged in the new month yet and never falls below; and rolling the month over again changes neither
  the row nor the history.
\<close>

theorem rollover_lands:
  assumes v: "validLadder (fst (loadLadder w))" and new: "richTierHistory w (u, y, m) = None" and ym: "nextYearMonth y m = (oy, om)"
    and opened: "0 \<le> monthTotalOf u oy om w" and w': "w' = processMonthlyRolloverForUser u y m w"
    and t: "t = computeTier (carryoverOf u w + monthTotalOf u y m w) (fst (loadLadder w))"
  shows "carryoverOf u w' = applyRetentionRule t (fst (loadLadder w))
    \<and> computeTier (carryoverOf u w') (fst (loadLadder w)) = retentionLandingTier t
    \<and> retentionLandingTier t \<le> badgeOf u w' \<and> (monthTotalOf u oy om w = 0 \<longrightarrow> badgeOf u w' = retentionLandingTier t)
    \<and> richTierHistory w' (u, y, m) \<noteq> None
    \<and> userRichTier (processMonthlyRolloverForUser u y m w') = userRichTier w'"
proof -
  note e = process_effect [OF w']
  have row: "userRichTier w' u = Some (rolledRow u y m w)" using e(1) new by simp
  have c: "carryoverOf u w' = applyRetentionRule t (ladderOf w)"
    by (simp add: carryoverOf_def row rolledRow_def Let_def ym t)
  have b: "badgeOf u w' = computeTier (applyRetentionRule t (ladderOf w) + monthTotalOf u oy om w) (ladderOf w)"
    by (simp add: badgeOf_def row rolledRow_def Let_def ym t)
  have lands: "computeTier (applyRetentionRule t (ladderOf w)) (ladderOf w) = retentionLandingTier t"
    unfolding t by (intro retention_lands [OF v] computeTier_bounds [OF v])
  have "retentionLandingTier t \<le> badgeOf u w'"
    unfolding b lands [symmetric] using opened by (intro computeTier_mono [OF v]) simp
  moreover have "userRichTier (processMonthlyRolloverForUser u y m w') = userRichTier w'"
    using process_effect(1) [OF refl, of u y m w'] e(2) [of u] by simp
  ultimately show ?thesis using c b lands e(2) [of u] by simp
qed

section \<open>The pages of the rollover job\<close>

lemma sorted_le_last: "sorted xs \<Longrightarrow> x \<in> set xs \<Longrightarrow> x \<le> last xs"
  by (induction xs) auto

lemma sorted_take_rest:
  fixes xs :: "uid list"
  assumes "sorted xs" "distinct xs" "take n xs \<noteq> []"
  shows "filter (\<lambda>x. last (take n xs) < x) xs = drop n xs"
proof -
  let ?l = "last (take n xs)"
  have split: "xs = take n xs @ drop n xs" by simp
  have "\<forall>x\<in>set (take n xs). \<not> ?l < x" using sorted_le_last [OF sorted_wrt_take [OF assms(1)]] by (simp add: not_less)
  then have before: "filter ((<) ?l) (take n xs) = []" by (simp add: filter_empty_conv)
  have l: "?l \<in> set (take n xs)" by (rule last_in_set [OF assms(3)])
  have "?l < x" if x: "x \<in> set (drop n xs)" for x
  proof -
    have "?l \<le> x" using assms(1) l x split by (metis sorted_append)
    moreover have "?l \<noteq> x" using assms(2) l x split by (metis distinct_append disjoint_iff)
    ultimately show ?thesis by simp
  qed
  then have "filter ((<) ?l) (drop n xs) = drop n xs" by (simp add: filter_id_conv)
  then show ?thesis using before by (metis append_Nil filter_append split)
qed

text \<open>The users after the cursor, in order.\<close>

definition usersAfter :: "uid list \<Rightarrow> uid option \<Rightarrow> uid list" where
  "usersAfter us cursor = filter (\<lambda>u. \<forall>c. cursor = Some c \<longrightarrow> c < u) (sort (remdups us))"

lemma page_is_take: "listUsersForRollover us cursor limit = take limit (usersAfter us cursor)"
  by (cases cursor) (simp_all add: listUsersForRollover_def usersAfter_def filter_sort remdups_filter)

lemma next_page:
  assumes "take limit (usersAfter us cursor) \<noteq> []"
  shows "usersAfter us (Some (last (take limit (usersAfter us cursor)))) = drop limit (usersAfter us cursor)"
proof -
  let ?l = "last (take limit (usersAfter us cursor))"
  have "?l \<in> set (usersAfter us cursor)" using last_in_set [OF assms] by (rule in_set_takeD)
  then have "\<forall>c. cursor = Some c \<longrightarrow> c < ?l" by (simp add: usersAfter_def)
  then have "usersAfter us (Some ?l) = filter ((<) ?l) (usersAfter us cursor)"
    by (auto simp: usersAfter_def intro: filter_cong)
  also have "\<dots> = drop limit (usersAfter us cursor)"
    by (rule sorted_take_rest) (use assms in \<open>simp_all add: usersAfter_def sorted_wrt_filter\<close>)
  finally show ?thesis .
qed

lemma rolloverBatches_pages:
  "0 < limit \<Longrightarrow> concat (rolloverBatches us limit cursor) = usersAfter us cursor
     \<and> (\<forall>b\<in>set (rolloverBatches us limit cursor). b \<noteq> [] \<and> length b \<le> limit)"
proof (induction us limit cursor rule: rolloverBatches.induct)
  case (1 us limit cursor)
  let ?xs = "usersAfter us cursor"
  note unf = rolloverBatches.simps [of us limit cursor, unfolded page_is_take Let_def]
  consider "?xs = []" | "?xs \<noteq> []" "length ?xs < limit" | "?xs \<noteq> []" "limit \<le> length ?xs" by fastforce
  then show ?case
  proof cases
    case 3
    then have ne: "take limit ?xs \<noteq> []" using 1(2) by simp
    have eq: "rolloverBatches us limit cursor = take limit ?xs # rolloverBatches us limit (Some (last (take limit ?xs)))"
      using 3 ne by (subst unf) simp
    show ?thesis
      unfolding eq using 1(1) [OF page_is_take [symmetric] ne _ 1(2)] 3(2) ne next_page [OF ne] by (simp add: not_less)
  next
    case 2
    then have "rolloverBatches us limit cursor = [?xs]" by (subst unf) simp
    then show ?thesis using 2 by simp
  next
    case 1
    then have "rolloverBatches us limit cursor = []" by (subst unf) simp
    then show ?thesis using 1 by simp
  qed
qed

lemma batches_as_one: "foldl (\<lambda>w b. handleBatch y m b w) w bs = handleBatch y m (concat bs) w"
  by (induction bs arbitrary: w) (simp_all add: handleBatch_def)

text \<open>
  C32. The rollover job: its pages hold every user once, no page is empty or longer than the limit, and running
  the batches in turn gives every user the row that the rollover of that user alone gives, whatever the
  other users' rollovers do; a user whose month is closed already and the users outside the run keep theirs.
\<close>

theorem rollover_job:
  assumes "0 < limit" and w': "w' = foldl (\<lambda>w b. handleBatch y m b w) w (rolloverBatches us limit None)"
  shows "concat (rolloverBatches us limit None) = sort (remdups us)
    \<and> list_all (\<lambda>b. b \<noteq> [] \<and> length b \<le> limit) (rolloverBatches us limit None)
    \<and> userRichTier w' v = (if v \<in> set us then userRichTier (processMonthlyRolloverForUser v y m w) v else userRichTier w v)
    \<and> (v \<in> set us \<longrightarrow> richTierHistory w' (v, y, m) \<noteq> None)"
proof -
  note pages = rolloverBatches_pages [OF assms(1), of us None]
  have all: "concat (rolloverBatches us limit None) = sort (remdups us)" using pages by (simp add: usersAfter_def)
  have eq: "w' = handleBatch y m (sort (remdups us)) w" unfolding w' batches_as_one all ..
  have "userRichTier w' v = (if v \<in> set us then userRichTier (processMonthlyRolloverForUser v y m w) v else userRichTier w v)
    \<and> (v \<in> set us \<longrightarrow> richTierHistory w' (v, y, m) \<noteq> None)"
    unfolding eq using handleBatch_rows [of "sort (remdups us)" y m w v] process_effect(1) [OF refl, of v y m w] by simp
  then show ?thesis using pages all by (simp add: list_all_iff)
qed

section \<open>A sample\<close>

text \<open>User 3 has a carryover of four million coins and has recharged eight million in January 1970.\<close>

definition sampleRichWorld :: world where
  "sampleRichWorld = emptyWorld\<lparr>
     userRichTier := [3 \<mapsto> \<lparr> currentTier = 1, evaluatedFromYear = 1969, evaluatedFromMonth = 12,
       evaluatedRechargeCoins = 10000000, carryoverCoins = 4000000, lastRolledOverAt = None \<rparr>],
     monthlyRecharge := [(3, 1970, 1) \<mapsto> (8000000, 2)]\<rparr>"

lemma sample_ladder: "fst (loadLadder sampleRichWorld) = defaultRichTierLadder"
  by (simp add: loadLadder_def sampleRichWorld_def emptyWorld_def Let_def)

lemma sample_rich_rows:
  "carryoverOf 3 sampleRichWorld = 4000000" "monthTotalOf 3 1970 1 sampleRichWorld = 8000000" "monthTotalOf 3 1970 2 sampleRichWorld = 0"
  "badgeOf 3 sampleRichWorld = 1" "richTierHistory sampleRichWorld = Map.empty" "utcYearMonth (clock sampleRichWorld) = (1970, 1)"
  by (simp_all add: sampleRichWorld_def emptyWorld_def carryoverOf_def monthTotalOf_def badgeOf_def) code_simp

lemma sample_tiers:
  "computeTier 12000000 defaultRichTierLadder = 3" "computeTier 20000000 defaultRichTierLadder = 4"
  "applyRetentionRule 3 defaultRichTierLadder = 4000000" "retentionLandingTier 3 = 1"
  by code_simp+

lemma sample_replacement:
  "map (\<lambda>t. t\<lparr>RichTierLadderRow.displayName := trimBy isSpace (RichTierLadderRow.displayName t)\<rparr>) defaultRichTierLadder = defaultRichTierLadder"
  "sort_key rung_tier defaultRichTierLadder = defaultRichTierLadder" "\<not> list_ex (badRung defaultRichTierLadder) [0..<10]"
  by code_simp+

theorem replaced_ladder_in_force_witness:
  "validLadder defaultRichTierLadder
    \<and> fst (loadLadder (sampleRichWorld\<lparr>richTierConfigs := defaultRichTierLadder, richConfigCache := Some defaultRichTierLadder\<rparr>))
       = defaultRichTierLadder"
proof -
  have "replaceTierConfig defaultRichTierLadder sampleRichWorld =
      Inr (defaultRichTierLadder, sampleRichWorld\<lparr>richTierConfigs := defaultRichTierLadder, richConfigCache := Some defaultRichTierLadder\<rparr>)"
    by (simp add: replaceTierConfig_def sample_replacement validLadder_nth(1) [OF default_ladder_valid] Let_def)
      (simp add: sampleRichWorld_def emptyWorld_def)
  from replaced_ladder_in_force [OF this] show ?thesis by blast
qed

theorem recharges_add_up_witness:
  "let w' = foldl (\<lambda>w a. snd (applyRecharge 3 a w)) sampleRichWorld [5000000, 3000000] in
     monthTotalOf 3 1970 1 w' = 16000000 \<and> badgeOf 3 w' = 4"
  using recharges_add_up [OF _ sample_rich_rows(6), of "[5000000, 3000000]" _ 3]
  by (simp add: sample_ladder sample_rich_rows sample_tiers default_ladder_valid Let_def)

theorem rollover_lands_witness:
  "let w' = processMonthlyRolloverForUser 3 1970 1 sampleRichWorld in
     carryoverOf 3 w' = 4000000 \<and> badgeOf 3 w' = 1 \<and> userRichTier (processMonthlyRolloverForUser 3 1970 1 w') = userRichTier w'"
proof -
  have "nextYearMonth 1970 1 = (1970, 2)" by (simp add: nextYearMonth_def)
  from rollover_lands [OF _ _ this _ refl refl, of sampleRichWorld 3] show ?thesis
    by (simp add: sample_ladder sample_rich_rows sample_tiers default_ladder_valid Let_def)
qed

theorem rollover_job_witness:
  "concat (rolloverBatches [5, 3, 7] 2 None) = [3, 5, 7]
    \<and> userRichTier (foldl (\<lambda>w b. handleBatch 1970 1 b w) sampleRichWorld (rolloverBatches [5, 3, 7] 2 None)) 3
       = userRichTier (processMonthlyRolloverForUser 3 1970 1 sampleRichWorld) 3"
  using rollover_job [of 2 _ 1970 1 sampleRichWorld "[5, 3, 7]" 3] by simp

end
