(* ===== verification/CoinTrading.thy ===== *)
theory CoinTrading
  imports CoinMoves RichTier
begin

text \<open>
  Trading coins: \<open>src/src/services/coinTrading.service.ts\<close> with the admin reversal records of
  \<open>src/src/services/adminTransactionReversal.service.ts\<close> and the pause gate of
  \<open>src/src/services/agency.service.ts\<close>. Agents buy trading coins, exchange points for them and pass them on
  to users; an admin can take a transfer back.

  Amounts in USD are numbers in the source; here they are rationals, so that the rounding of doubles is left
  out. A call answers with the state after what it has committed, also when it fails. Reads of the replica
  see the committed state. The payment provider is an argument of the functions that call it. Audit rows, the
  list of recent users and the profile caches carry no money and are left out.
\<close>

section \<open>State\<close>

record transfer_row =
  tr_id :: nat
  tr_sender :: uid
  tr_recipient :: uid
  tr_debited :: int
  tr_credited :: int
  tr_walletType :: string
  tr_senderEntry :: nat
  tr_recipientEntry :: nat
  tr_key :: string
  tr_reversedAt :: "int option"
  tr_reversedBy :: "uid option"
  tr_reason :: "string option"

record reversal_row =
  rv_kind :: string
  rv_source :: nat
  rv_currency :: WalletCurrencyType
  rv_sender :: uid
  rv_receiver :: uid
  rv_original :: int
  rv_recovered :: int
  rv_shortfall :: int
  rv_forced :: bool
  rv_reason :: string
  rv_admin :: uid
  rv_debitEntry :: "nat option"
  rv_creditEntry :: "nat option"

record trading_order =
  ord_id :: nat
  ord_agent :: uid
  ord_package :: "string option"
  ord_amountUsd :: rat
  ord_coins :: int
  ord_rate :: int
  ord_key :: string
  ord_status :: string
  ord_epayRef :: "string option"
  ord_entry :: "nat option"

text \<open>A rate tier: from, below (if bounded), coins per USD. The tables hold the active rows in their order.\<close>

type_synonym rate_tier = "rat \<times> rat option \<times> int"

record trading =
  core :: world
  isAgent :: "uid \<Rightarrow> bool"
  publicIds :: "int \<rightharpoonup> uid"
  transfers :: "transfer_row list"
  reversals :: "reversal_row list"
  tradingOrders :: "trading_order list"
  topupPackages :: "string \<rightharpoonup> int \<times> int \<times> int"
  topupRates :: "rate_tier list"
  agentExchangeRates :: "rate_tier list"
  personalExchangeRates :: "rate_tier list"
  personalRatesCache :: "rate_tier list option"
  tradingCache :: "uid \<rightharpoonup> int"

type_synonym 'a trade = "(error + 'a) \<times> trading"

datatype TargetWallet = PERSONAL | TRADING

datatype RevertMode = FULL | FORCE

definition onCore :: "(world \<Rightarrow> error + 'a \<times> world) \<Rightarrow> trading \<Rightarrow> error + 'a \<times> trading" where
  "onCore f s = andThen (f (core s)) (\<lambda>(x, w). Inr (x, s\<lparr>core := w\<rparr>))"

section \<open>The pause gate\<close>

definition setAllWalletsUnfrozen :: "uid \<Rightarrow> world \<Rightarrow> error + unit \<times> world" where
  "setAllWalletsUnfrozen u w =
     (case users w u of
        None \<Rightarrow> Inl (AppError 404 ''USER_NOT_FOUND'' [])
      | Some r \<Rightarrow> Inr ((), w\<lparr>users := (users w)(u \<mapsto> r\<lparr>personalCoinsFrozen := False, tradingCoinsFrozen := False,
          pointsFrozen := False\<rparr>)\<rparr>))"

text \<open>The pause row is cleared before the wallets are unfrozen, in a transaction of its own.\<close>

definition unpauseAgency :: "uid \<Rightarrow> trading \<Rightarrow> unit trade" where
  "unpauseAgency u s =
     (let w = core s;
          w1 = w\<lparr>agencies := (agencies w)(u := map_option (\<lambda>a. a\<lparr>agency_pausedAt := None, agency_pausedUntil := None\<rparr>) (agencies w u))\<rparr>
      in transact (onCore (setAllWalletsUnfrozen u)) (s\<lparr>core := w1\<rparr>))"

definition clearExpiredPauseIfNeeded :: "uid \<Rightarrow> trading \<Rightarrow> bool trade" where
  "clearExpiredPauseIfNeeded u s =
     (case agencies (core s) u of
        None \<Rightarrow> (Inr False, s)
      | Some a \<Rightarrow>
          if agency_pausedAt a = None then (Inr False, s)
          else (case agency_pausedUntil a of
             Some t \<Rightarrow> if t \<le> clock (core s) then afterwards (unpauseAgency u s) (\<lambda>_ s1. (Inr False, s1)) else (Inr True, s)
           | None \<Rightarrow> (Inr True, s)))"

definition enforcePauseGate :: "uid \<Rightarrow> trading \<Rightarrow> unit trade" where
  "enforcePauseGate u s =
     afterwards (clearExpiredPauseIfNeeded u s) (\<lambda>stillPaused s1.
       if stillPaused then (Inl (AppError 403 ''AGENCY_PAUSED'' []), s1) else (Inr (), s1))"

section \<open>Rates\<close>

definition PERSONAL_COIN_EXCHANGE_RATES :: "rate_tier list" where
  "PERSONAL_COIN_EXCHANGE_RATES = [(0, Some 50, 9000), (50, Some 1000, 9400), (1000, None, 9700)]"

definition inTier :: "rat \<Rightarrow> rate_tier \<Rightarrow> bool" where
  "inTier usd = (\<lambda>(lo, hi, _). lo \<le> usd \<and> (case hi of None \<Rightarrow> True | Some h \<Rightarrow> usd < h))"

definition lookupExchangeCoinsPerUsd :: "rate_tier list \<Rightarrow> rat \<Rightarrow> error + int" where
  "lookupExchangeCoinsPerUsd rates usd =
     (case find (inTier usd) rates of None \<Rightarrow> Inl (AppError 400 ''RATE_NOT_FOUND'' []) | Some (_, _, r) \<Rightarrow> Inr r)"

definition getPersonalExchangeRatesCached :: "trading \<Rightarrow> rate_tier list \<times> trading" where
  "getPersonalExchangeRatesCached s =
     (case (if redisUp (core s) then personalRatesCache s else None) of
        Some rates \<Rightarrow> (rates, s)
      | None \<Rightarrow>
          if personalExchangeRates s \<noteq> [] then
            (personalExchangeRates s,
             if redisUp (core s) then s\<lparr>personalRatesCache := Some (personalExchangeRates s)\<rparr> else s)
          else (PERSONAL_COIN_EXCHANGE_RATES, s))"

definition lookupTopupRate :: "rat \<Rightarrow> trading \<Rightarrow> error + int \<times> int" where
  "lookupTopupRate amountUsd s =
     (case find (inTier amountUsd) (topupRates s) of
        None \<Rightarrow> Inl (AppError 400 ''RATE_NOT_FOUND'' [])
      | Some (_, _, r) \<Rightarrow> Inr (r, \<lfloor>amountUsd * of_int r\<rfloor>))"

definition coinsForPoints :: "int \<Rightarrow> int \<Rightarrow> int" where
  "coinsForPoints points coinsPerUsd = \<lfloor>of_int (points * coinsPerUsd) / (10000 :: rat)\<rfloor>"

section \<open>Client keys\<close>

text \<open>
  The body that \<open>initiateTopup\<close> and \<open>exchangePointsForTradingCoins\<close> share: with a client key the stored
  response is replayed, a key in progress is refused, and the key is given back when the work fails with
  anything but a duplicate.
\<close>

definition dropIdemKey :: "string \<Rightarrow> trading \<Rightarrow> trading" where
  "dropIdemKey key s =
     (if redisUp (core s) then s\<lparr>core := (core s)\<lparr>idemKeys := (idemKeys (core s))(key := None)\<rparr>\<rparr> else s)"

definition rememberResponse :: "string \<Rightarrow> json \<Rightarrow> trading \<Rightarrow> trading" where
  "rememberResponse key r s = (case onCore (resolveIdemKey key r) s of Inl _ \<Rightarrow> s | Inr (_, s1) \<Rightarrow> s1)"

definition withClientKey :: "string option \<Rightarrow> (trading \<Rightarrow> json trade) \<Rightarrow> trading \<Rightarrow> json trade" where
  "withClientKey idem work s =
     (case idem of
        None \<Rightarrow> work s
      | Some key \<Rightarrow>
          (case getCachedIdemResponse key (core s) of
             Inl e \<Rightarrow> (Inl e, s)
           | Inr (Some r) \<Rightarrow> (Inr r, s)
           | Inr None \<Rightarrow>
               afterwards (transact (onCore (acquireIdemKey key)) s) (\<lambda>acquired s1.
               if \<not> acquired then (Inl (AppError 409 ''IDEM_CONFLICT'' []), s1)
               else (case work s1 of
                  (Inr r, s2) \<Rightarrow> (Inr r, rememberResponse key r s2)
                | (Inl e, s2) \<Rightarrow>
                    if e = UniqueViolation then (Inl (AppError 409 ''IDEM_CONFLICT'' []), s2)
                    else (Inl e, dropIdemKey key s2)))))"

section \<open>Top-ups\<close>

text \<open>\<open>toFixed(2)\<close> of an amount.\<close>

definition toCents :: "rat \<Rightarrow> rat" where
  "toCents usd = of_int \<lfloor>usd * 100 + 1 / 2\<rfloor> / 100"

record topup_input =
  ti_packageId :: "string option"
  ti_amountUsd :: "rat option"
  ti_key :: "string option"

text \<open>The price: (package, amount in USD, coins, rate).\<close>

definition topupQuote :: "topup_input \<Rightarrow> trading \<Rightarrow> error + string option \<times> rat \<times> int \<times> int" where
  "topupQuote inp s =
     (case ti_packageId inp of
        Some p \<Rightarrow>
          (case topupPackages s p of
             None \<Rightarrow> Inl (AppError 404 ''PACKAGE_NOT_FOUND'' [])
           | Some (priceCents, coins, rate) \<Rightarrow> Inr (Some p, of_int priceCents / 100, coins, rate))
      | None \<Rightarrow>
          (case ti_amountUsd inp of
             None \<Rightarrow> Inl (AppError 400 ''TOPUP_INPUT_REQUIRED'' [])
           | Some usd \<Rightarrow> andThen (lookupTopupRate usd s) (\<lambda>(rate, coins). Inr (None, usd, coins, rate))))"

definition createOrderRow :: "trading_order \<Rightarrow> trading \<Rightarrow> error + unit \<times> trading" where
  "createOrderRow row s =
     (if ord_key row \<in> set (map ord_key (tradingOrders s)) then Inl UniqueViolation
      else Inr ((), s\<lparr>tradingOrders := tradingOrders s @ [row], core := (core s)\<lparr>nextId := Suc (nextId (core s))\<rparr>\<rparr>))"

definition updateOrder :: "nat \<Rightarrow> (trading_order \<Rightarrow> trading_order) \<Rightarrow> trading \<Rightarrow> trading" where
  "updateOrder i f s = s\<lparr>tradingOrders := map (\<lambda>r. if ord_id r = i then f r else r) (tradingOrders s)\<rparr>"

definition setEpayRef :: "nat \<Rightarrow> string \<Rightarrow> trading \<Rightarrow> error + unit \<times> trading" where
  "setEpayRef i ref s =
     (if list_ex (\<lambda>r. ord_id r \<noteq> i \<and> ord_epayRef r = Some ref) (tradingOrders s) then Inl UniqueViolation
      else Inr ((), updateOrder i (\<lambda>r. r\<lparr>ord_epayRef := Some ref\<rparr>) s))"

text \<open>
  \<open>createOrder\<close> is the call to the payment provider: an order id and an amount give a payment URL and the
  provider's reference, or an error. The order row is committed before the call.
\<close>

definition executeInitiateTopupInternal ::
  "(nat \<Rightarrow> rat \<Rightarrow> error + string \<times> string) \<Rightarrow> uid \<Rightarrow> topup_input \<Rightarrow> trading \<Rightarrow> json trade" where
  "executeInitiateTopupInternal createOrder agent inp s =
     (case topupQuote inp s of
        Inl e \<Rightarrow> (Inl e, s)
      | Inr (pkg, usd, coins, rate) \<Rightarrow>
          (let i = nextId (core s);
               key = ''trading-topup:'' @ show_nat agent @ '':'' @ (case ti_key inp of None \<Rightarrow> show_int (clock (core s)) | Some k \<Rightarrow> k);
               row = \<lparr> ord_id = i, ord_agent = agent, ord_package = pkg, ord_amountUsd = toCents usd, ord_coins = coins,
                  ord_rate = rate, ord_key = key, ord_status = ''PENDING'', ord_epayRef = None, ord_entry = None \<rparr> in
           afterwards (transact (createOrderRow row) s) (\<lambda>_ s1.
           case createOrder i usd of
             Inl e \<Rightarrow> (Inl e, s1)
           | Inr (url, ref) \<Rightarrow>
               afterwards (transact (setEpayRef i ref) s1) (\<lambda>_ s2.
               (Inr (JObj [(''paymentUrl'', JStr url), (''orderId'', JStr (show_nat i)),
                  (''tradingCoinsAwarded'', JBig coins), (''packageId'', case pkg of None \<Rightarrow> JNull | Some p \<Rightarrow> JStr p)]), s2)))))"

definition requireAgent :: "uid \<Rightarrow> trading \<Rightarrow> error + unit" where
  "requireAgent u s = require (users (core s) u \<noteq> None \<and> isAgent s u) (AppError 403 ''AGENT_ONLY'' [])"

definition initiateTopup ::
  "(nat \<Rightarrow> rat \<Rightarrow> error + string \<times> string) \<Rightarrow> uid \<Rightarrow> topup_input \<Rightarrow> trading \<Rightarrow> json trade" where
  "initiateTopup createOrder agent inp s =
     afterwards (requireAgent agent s, s) (\<lambda>_ s.
     afterwards (enforcePauseGate agent s) (\<lambda>_ s1.
     withClientKey (map_option (\<lambda>k. ''ct-topup:'' @ show_nat agent @ '':'' @ k) (ti_key inp))
       (executeInitiateTopupInternal createOrder agent inp) s1))"

definition adjustTradingBalanceCache :: "uid \<Rightarrow> trading \<Rightarrow> trading" where
  "adjustTradingBalanceCache u s = (if redisUp (core s) then s\<lparr>tradingCache := (tradingCache s)(u := None)\<rparr> else s)"

text \<open>The wallet is created outside the transaction and stays when the transaction fails.\<close>

definition confirmTopup :: "nat \<Rightarrow> uid \<Rightarrow> string \<Rightarrow> rat \<Rightarrow> trading \<Rightarrow> unit trade" where
  "confirmTopup i agent gatewayRef amountUsd s =
     (case find (\<lambda>r. ord_id r = i) (tradingOrders s) of
        None \<Rightarrow> (Inr (), adjustTradingBalanceCache agent s)
      | Some fresh \<Rightarrow>
          if ord_status fresh \<noteq> ''PENDING'' then (Inr (), adjustTradingBalanceCache agent s)
          else if ord_amountUsd fresh \<noteq> amountUsd then (Inl (AppError 400 ''TOPUP_AMOUNT_MISMATCH'' []), s)
          else
            (let (wl, w1) = getOrCreate (ord_agent fresh) TRADING_COIN (core s);
                 w2 = snd (lockForUpdate (wallet_id wl) w1);
                 balance = latestCoinBalance w2 (wallet_id wl) in
             case coinInsert ((newEntry (wallet_id wl) CREDIT C_TRADING_TOPUP (ord_coins fresh) (balance + ord_coins fresh)
                   (''trading-topup:'' @ show_nat i))\<lparr>refId := Some gatewayRef, description := Some ''Trading coin top-up''\<rparr>) w2 of
               Inl e \<Rightarrow> (Inl e, s\<lparr>core := w1\<rparr>)
             | Inr (e, w3) \<Rightarrow>
                 (Inr (), adjustTradingBalanceCache agent
                    (updateOrder i (\<lambda>r. r\<lparr>ord_status := ''COMPLETED'', ord_entry := Some (entry_id e)\<rparr>) (s\<lparr>core := w3\<rparr>)))))"

section \<open>Exchanging points\<close>

definition exchangePointOptions :: "bool \<Rightarrow> string \<Rightarrow> point_options" where
  "exchangePointOptions agent ref =
     \<lparr> p_idempotencyKey = ''exchange-pts:'' @ ref, p_refId = Some ref, p_counterpartyId = None,
       p_description = Some (if agent then ''Points exchanged for trading coins'' else ''Points exchanged for coins''),
       p_metadata = Some (JObj [(''exchangeRefId'', JStr ref)]), p_applyLivestreamLevel = False \<rparr>"

definition exchangeCoinOptions :: "bool \<Rightarrow> string \<Rightarrow> coin_options" where
  "exchangeCoinOptions agent ref =
     \<lparr> o_idempotencyKey = (if agent then ''exchange-ct:'' else ''exchange-coin:'') @ ref,
       o_description = Some (if agent then ''Trading coins from points exchange'' else ''Coins from points exchange''),
       o_metadata = None, o_counterpartyId = None, o_currencyType = Some (if agent then TRADING_COIN else COIN),
       o_applyWealth = False, o_freezeCheck = True \<rparr>"

definition exchangeTx :: "uid \<Rightarrow> bool \<Rightarrow> int \<Rightarrow> int \<Rightarrow> string \<Rightarrow> bool \<Rightarrow> world \<Rightarrow> error + unit \<times> world" where
  "exchangeTx u agent points coins ref keyed w =
     (if keyed \<and> findByIdempotencyKey (pointLedger w) (''exchange-pts:'' @ ref) \<noteq> None
      then Inl (AppError 409 ''IDEM_CONFLICT'' [])
      else
        (let (pw, w1) = getOrCreate u POINT w; (tw, w2) = getOrCreate u (if agent then TRADING_COIN else COIN) w1;
             w3 = lockWalletsInOrder [wallet_id pw, wallet_id tw] w2 in
         andThen (pointDebit u points P_TRANSFER_OUT True True (exchangePointOptions agent ref) w3) (\<lambda>(_, w4).
         andThen (credit u coins (if agent then C_TRADING_EXCHANGE_FROM_POINTS else C_POINT_EXCHANGE_TO_COINS)
            (exchangeCoinOptions agent ref) w4) (\<lambda>(_, w5). Inr ((), w5)))))"

definition exchangeRefId :: "uid \<Rightarrow> string option \<Rightarrow> world \<Rightarrow> string \<times> world" where
  "exchangeRefId u key w =
     (case key of
        Some k \<Rightarrow> (''idem-'' @ take 8 (show_nat u) @ ''-'' @ k, w)
      | None \<Rightarrow> (show_nat (nextId w), w\<lparr>nextId := Suc (nextId w)\<rparr>))"

definition adjustCoinCacheOf :: "uid \<Rightarrow> WalletCurrencyType \<Rightarrow> trading \<Rightarrow> trading" where
  "adjustCoinCacheOf u c s =
     (if c = COIN then s\<lparr>core := adjustCoinBalanceCache u 0 None (core s)\<rparr> else adjustTradingBalanceCache u s)"

text \<open>The checks of an exchange up to its rate, then the transaction and the caches.\<close>

definition exchangeChecks :: "uid \<Rightarrow> int \<Rightarrow> trading \<Rightarrow> int trade" where
  "exchangeChecks u points s =
     afterwards (assertPositiveAmountMultiple points POINTS_EXCHANGE_STEP ''MIN_POINTS_EXCHANGE'', s) (\<lambda>_ s.
     afterwards (require (users (core s) u \<noteq> None) (AppError 404 ''USER_NOT_FOUND'' []), s) (\<lambda>_ s.
     afterwards (if isAgent s u then enforcePauseGate u s else (Inr (), s)) (\<lambda>_ s1.
     let (rates, s2) = (if isAgent s1 u then (agentExchangeRates s1, s1) else getPersonalExchangeRatesCached s1) in
     (lookupExchangeCoinsPerUsd rates (of_int points / 10000), s2))))"

definition runExchange :: "uid \<Rightarrow> int \<Rightarrow> string option \<Rightarrow> int \<Rightarrow> trading \<Rightarrow> json trade" where
  "runExchange u points key rate s =
     (let agent = isAgent s u; coins = coinsForPoints points rate; (ref, w) = exchangeRefId u key (core s) in
      afterwards (transact (onCore (exchangeTx u agent points coins ref (key \<noteq> None))) (s\<lparr>core := w\<rparr>)) (\<lambda>_ s3.
      let s4 = s3\<lparr>core := adjustPointBalanceCache u 0 None (core s3)\<rparr>;
          s5 = adjustCoinCacheOf u (if agent then TRADING_COIN else COIN) s4 in
      (Inr (JObj [(''coinsAwarded'', JBig coins), (''walletType'', JStr (if agent then ''TRADING_COIN'' else ''COIN'')),
        (''exchangeRate'', JNum rate)]), s5)))"

definition executeExchangeInternal :: "uid \<Rightarrow> int \<Rightarrow> string option \<Rightarrow> trading \<Rightarrow> json trade" where
  "executeExchangeInternal u points key s = afterwards (exchangeChecks u points s) (runExchange u points key)"

definition exchangePointsForTradingCoins :: "uid \<Rightarrow> int \<Rightarrow> string option \<Rightarrow> trading \<Rightarrow> json trade" where
  "exchangePointsForTradingCoins u points key s =
     withClientKey (map_option (\<lambda>k. ''ct-exchange:'' @ show_nat u @ '':'' @ k) key) (executeExchangeInternal u points key) s"

section \<open>Transfers\<close>

definition resolveRecipientWalletType :: "bool \<Rightarrow> TargetWallet option \<Rightarrow> WalletCurrencyType" where
  "resolveRecipientWalletType agent target =
     (if \<not> agent then COIN else if target = Some PERSONAL then COIN else TRADING_COIN)"

definition walletTypeFromTransferRecord :: "string \<Rightarrow> WalletCurrencyType" where
  "walletTypeFromTransferRecord t = (if t = ''TRADING'' then TRADING_COIN else COIN)"

definition invalidateTradingTransferCaches :: "uid \<Rightarrow> uid \<Rightarrow> WalletCurrencyType \<Rightarrow> trading \<Rightarrow> trading" where
  "invalidateTradingTransferCaches sender recipient c s =
     adjustCoinCacheOf recipient c (adjustTradingBalanceCache sender s)"

definition transferKey :: "uid \<Rightarrow> string \<Rightarrow> string" where
  "transferKey sender key = ''trading-transfer:'' @ show_nat sender @ '':'' @ key"

definition tradeOptions :: "string \<Rightarrow> string \<Rightarrow> uid option \<Rightarrow> WalletCurrencyType \<Rightarrow> bool \<Rightarrow> bool \<Rightarrow> coin_options" where
  "tradeOptions key descr other c wealth frz =
     \<lparr> o_idempotencyKey = key, o_description = Some descr, o_metadata = None, o_counterpartyId = other,
       o_currencyType = Some c, o_applyWealth = wealth, o_freezeCheck = frz \<rparr>"

definition newTransfer :: "uid \<Rightarrow> uid \<Rightarrow> WalletCurrencyType \<Rightarrow> int \<Rightarrow> string \<Rightarrow> nat \<Rightarrow> nat \<Rightarrow> nat \<Rightarrow> transfer_row" where
  "newTransfer sender recipient c coins key senderEntry recipientEntry i =
     \<lparr> tr_id = i, tr_sender = sender, tr_recipient = recipient, tr_debited = coins, tr_credited = coins,
       tr_walletType = (if c = COIN then ''PERSONAL'' else ''TRADING''), tr_senderEntry = senderEntry,
       tr_recipientEntry = recipientEntry, tr_key = transferKey sender key, tr_reversedAt = None,
       tr_reversedBy = None, tr_reason = None \<rparr>"

text \<open>Coins that reach a personal wallet count as a recharge.\<close>

definition rechargeIfPersonal :: "WalletCurrencyType \<Rightarrow> uid \<Rightarrow> int \<Rightarrow> world \<Rightarrow> (int \<times> int) option \<times> world" where
  "rechargeIfPersonal c u coins w = (if c = COIN then (let (ym, w1) = applyRecharge u coins w in (Some ym, w1)) else (None, w))"

definition transferTx ::
  "uid \<Rightarrow> uid \<Rightarrow> WalletCurrencyType \<Rightarrow> int \<Rightarrow> string \<Rightarrow> trading \<Rightarrow> error + (transfer_row \<times> (int \<times> int) option) \<times> trading" where
  "transferTx sender recipient c coins key s =
     (case find (\<lambda>t. tr_key t = transferKey sender key) (transfers s) of
        Some t \<Rightarrow> Inr ((t, None), s)
      | None \<Rightarrow>
          (let (sw, w1) = getOrCreate sender TRADING_COIN (core s); (rw, w2) = getOrCreate recipient c w1;
               w3 = lockWalletsInOrder [wallet_id sw, wallet_id rw] w2 in
           andThen (debit sender coins C_TRADING_TRANSFER_OUT
              (tradeOptions (transferKey sender key @ '':out'') ''Trading coin transfer out'' (Some recipient) TRADING_COIN True True) w3) (\<lambda>(d, w4).
           andThen (credit recipient coins C_TRADING_TRANSFER_IN
              (tradeOptions (transferKey sender key @ '':in'') ''Trading coin transfer in'' (Some sender) c False True) w4) (\<lambda>(r, w5).
           let (recharge, w6) = rechargeIfPersonal c recipient coins w5;
               row = newTransfer sender recipient c coins key (ledgerEntryId d) (ledgerEntryId r) (nextId w6) in
           Inr ((row, recharge), s\<lparr>core := w6\<lparr>nextId := Suc (nextId w6)\<rparr>, transfers := transfers s @ [row]\<rparr>)))))"

text \<open>What follows the transaction of a transfer.\<close>

definition afterTransfer :: "uid \<Rightarrow> uid \<Rightarrow> WalletCurrencyType \<Rightarrow> (int \<times> int) option \<Rightarrow> trading \<Rightarrow> trading" where
  "afterTransfer a r c recharge s =
     (let s3 = invalidateTradingTransferCaches a r c s in
      case recharge of
        Some (y, m) \<Rightarrow> if c = COIN then s3\<lparr>core := refreshCacheAfterRecharge r y m (core s3)\<rparr> else s3
      | None \<Rightarrow> s3)"

text \<open>A duplicate that lost the race runs the transaction once more.\<close>

definition rerunDuplicate :: "(trading \<Rightarrow> 'a trade) \<Rightarrow> trading \<Rightarrow> 'a trade" where
  "rerunDuplicate run s = (case run s of (Inl e, s1) \<Rightarrow> if e = UniqueViolation then run s1 else (Inl e, s1) | (Inr x, s1) \<Rightarrow> (Inr x, s1))"

definition transferTradingCoins :: "uid \<Rightarrow> int \<Rightarrow> int \<Rightarrow> TargetWallet option \<Rightarrow> string \<Rightarrow> trading \<Rightarrow> transfer_row trade" where
  "transferTradingCoins sender recipientPublicId coins target key s =
     afterwards (assertPositiveAmountMultiple coins TRADING_COIN_TRANSFER_STEP ''MIN_TRANSFER'', s) (\<lambda>_ s.
     afterwards (requireAgent sender s, s) (\<lambda>_ s.
     afterwards (enforcePauseGate sender s) (\<lambda>_ s1.
     case publicIds s1 recipientPublicId of
       None \<Rightarrow> (Inl (AppError 404 ''RECIPIENT_NOT_FOUND'' []), s1)
     | Some recipient \<Rightarrow>
         if recipient = sender \<and> target \<noteq> Some PERSONAL then (Inl (AppError 400 ''SELF_TRANSFER'' []), s1)
         else
           (let c = resolveRecipientWalletType (isAgent s1 recipient) target in
            afterwards (rerunDuplicate (transact (transferTx sender recipient c coins key)) s1)
              (\<lambda>(t, recharge) s2. (Inr t, afterTransfer sender recipient c recharge s2))))))"

section \<open>Reversals\<close>

definition computeRecovery :: "int \<Rightarrow> int \<Rightarrow> RevertMode \<Rightarrow> int \<times> int \<times> bool" where
  "computeRecovery original available mode =
     (let available = (if available > 0 then available else 0);
          sufficient = available \<ge> original in
      if mode = FULL \<or> sufficient then (original, 0, sufficient)
      else (available, original - available, sufficient))"

definition readAvailableBalance :: "world \<Rightarrow> uid \<Rightarrow> WalletCurrencyType \<Rightarrow> int" where
  "readAvailableBalance w u c =
     (case findWallet w u c of
        None \<Rightarrow> 0
      | Some wl \<Rightarrow>
          if c = POINT then
            (let available = latestPointBalance w (wallet_id wl) - unconfirmedPoints wl in if available > 0 then available else 0)
          else (let balance = latestCoinBalance w (wallet_id wl) in if balance > 0 then balance else 0))"

definition insertReversalRecord :: "reversal_row \<Rightarrow> trading \<Rightarrow> error + unit \<times> trading" where
  "insertReversalRecord row s =
     (if list_ex (\<lambda>r. rv_kind r = rv_kind row \<and> rv_source r = rv_source row) (reversals s)
      then Inl (AppError 409 ''ALREADY_REVERTED'' [])
      else Inr ((), s\<lparr>reversals := reversals s @ [row]\<rparr>))"

definition reversalKey :: "nat \<Rightarrow> string \<Rightarrow> string" where
  "reversalKey i suffix = ''trading-reversal:'' @ show_nat i @ suffix"

definition markReversed :: "nat \<Rightarrow> uid \<Rightarrow> string \<Rightarrow> trading \<Rightarrow> trading" where
  "markReversed i admin reason s =
     s\<lparr>transfers := map (\<lambda>x. if tr_id x = i then x\<lparr>tr_reversedAt := Some (clock (core s)), tr_reversedBy := Some admin,
          tr_reason := Some reason\<rparr> else x) (transfers s)\<rparr>"

definition reverseTransferTx ::
  "uid \<Rightarrow> transfer_row \<Rightarrow> string \<Rightarrow> RevertMode \<Rightarrow> trading \<Rightarrow> error + (int \<times> int \<times> bool) \<times> trading" where
  "reverseTransferTx admin t reason mode s =
     (let c = walletTypeFromTransferRecord (tr_walletType t);
          (rw, w1) = getOrCreate (tr_recipient t) c (core s); (sw, w2) = getOrCreate (tr_sender t) TRADING_COIN w1;
          w3 = lockWalletsInOrder [wallet_id rw, wallet_id sw] w2;
          (recovered, shortfall, _) = computeRecovery (tr_credited t) (readAvailableBalance w3 (tr_recipient t) c) mode;
          forced = shortfall > 0 in
      andThen (require (recovered > 0) (AppError 409 ''NOTHING_TO_RECOVER'' [])) (\<lambda>_.
      andThen (debit (tr_recipient t) recovered C_TRADING_TRANSFER_REVERSAL
         (tradeOptions (reversalKey (tr_id t) '':recipient'')
            (if forced then ''Admin fraud reversal debit (partial)'' else ''Admin fraud reversal debit'') None c False False) w3) (\<lambda>(d, w4).
      andThen (credit (tr_sender t) recovered C_TRADING_TRANSFER_REVERSAL
         (tradeOptions (reversalKey (tr_id t) '':sender'')
            (if forced then ''Admin fraud reversal credit (partial)'' else ''Admin fraud reversal credit'') None TRADING_COIN False True) w4) (\<lambda>(r, w5).
      andThen (insertReversalRecord
         \<lparr> rv_kind = ''COIN_TRADING_TRANSFER'', rv_source = tr_id t, rv_currency = c, rv_sender = tr_sender t,
           rv_receiver = tr_recipient t, rv_original = tr_credited t, rv_recovered = recovered, rv_shortfall = shortfall,
           rv_forced = forced, rv_reason = reason, rv_admin = admin, rv_debitEntry = Some (ledgerEntryId d),
           rv_creditEntry = Some (ledgerEntryId r) \<rparr> (markReversed (tr_id t) admin reason (s\<lparr>core := w5\<rparr>))) (\<lambda>(_, s2).
      Inr ((recovered, shortfall, forced), s2))))))"

definition reversalError :: "WalletCurrencyType \<Rightarrow> error \<Rightarrow> error" where
  "reversalError c e =
     (case e of
        AppError status code details \<Rightarrow>
          if code = ''INSUFFICIENT_COINS'' then
            AppError 402 (if c = TRADING_COIN then ''INSUFFICIENT_TRADING_COINS'' else ''INSUFFICIENT_COINS'') details
          else e
      | _ \<Rightarrow> e)"

definition reverseTransfer :: "uid \<Rightarrow> nat \<Rightarrow> string \<Rightarrow> RevertMode \<Rightarrow> trading \<Rightarrow> (int \<times> int \<times> bool) trade" where
  "reverseTransfer admin i reason mode s =
     (case find (\<lambda>t. tr_id t = i) (transfers s) of
        None \<Rightarrow> (Inl (AppError 404 ''TRANSFER_NOT_FOUND'' []), s)
      | Some t \<Rightarrow>
          if tr_reversedAt t \<noteq> None then (Inl (AppError 409 ''TRANSFER_ALREADY_REVERSED'' []), s)
          else
            (let c = walletTypeFromTransferRecord (tr_walletType t) in
             case transact (reverseTransferTx admin t reason mode) s of
               (Inl e, s1) \<Rightarrow> (Inl (reversalError c e), s1)
             | (Inr out, s1) \<Rightarrow> (Inr out, invalidateTradingTransferCaches (tr_sender t) (tr_recipient t) c s1)))"

definition getTradingBalance :: "uid \<Rightarrow> trading \<Rightarrow> int trade" where
  "getTradingBalance u s =
     (if \<not> redisUp (core s) then (Inl redisError, s)
      else case tradingCache s u of
        Some b \<Rightarrow> (Inr b, s)
      | None \<Rightarrow>
          (let (wl, w) = getOrCreate u TRADING_COIN (core s); b = coinComputeBalance (wallet_id wl) w in
           (Inr b, s\<lparr>core := w, tradingCache := (tradingCache s)(u \<mapsto> b)\<rparr>)))"

section \<open>A gate that is open\<close>

lemma gate_open: "(\<And>a. agencies (core s) u = Some a \<Longrightarrow> agency_pausedAt a = None) \<Longrightarrow> enforcePauseGate u s = (Inr (), s)"
  by (cases "agencies (core s) u") (simp_all add: enforcePauseGate_def clearExpiredPauseIfNeeded_def)

section \<open>A sample\<close>

text \<open>Agent 7 holds 5000 trading coins and 30000 points; user 8, public id 500, has 600 coins.\<close>

definition sampleTrading :: trading where
  "sampleTrading =
     \<lparr> core = emptyWorld\<lparr>
         users := [7 \<mapsto> sampleUser, 8 \<mapsto> sampleUser],
         wallets := [\<lparr>wallet_id = 2, wallet_user = 7, wallet_currency = TRADING_COIN, wallet_version = 1, unconfirmedPoints = 0\<rparr>,
                     \<lparr>wallet_id = 3, wallet_user = 7, wallet_currency = POINT, wallet_version = 1, unconfirmedPoints = 0\<rparr>,
                     \<lparr>wallet_id = 4, wallet_user = 8, wallet_currency = COIN, wallet_version = 1, unconfirmedPoints = 0\<rparr>],
         coinLedger := [(newEntry 2 CREDIT C_TRADING_TOPUP 5000 5000 ''a'')\<lparr>entry_id := 5, createdAt := 10\<rparr>,
                        (newEntry 4 CREDIT C_TOPUP 600 600 ''b'')\<lparr>entry_id := 6, createdAt := 20\<rparr>],
         pointLedger := [(newEntry 3 CREDIT P_GIFT_RECEIVE 30000 30000 ''c'')\<lparr>entry_id := 7, createdAt := 10\<rparr>],
         nextId := 20, clock := 30\<rparr>,
       isAgent = (\<lambda>u. u = 7), publicIds = [500 \<mapsto> 8],
       transfers = [\<lparr> tr_id = 9, tr_sender = 7, tr_recipient = 8, tr_debited = 1000, tr_credited = 1000, tr_walletType = ''PERSONAL'',
         tr_senderEntry = 11, tr_recipientEntry = 12, tr_key = ''old'', tr_reversedAt = None, tr_reversedBy = None, tr_reason = None \<rparr>],
       reversals = [],
       tradingOrders = [\<lparr> ord_id = 15, ord_agent = 7, ord_package = None, ord_amountUsd = 10, ord_coins = 90000, ord_rate = 9000,
         ord_key = ''o'', ord_status = ''PENDING'', ord_epayRef = Some ''e'', ord_entry = None \<rparr>],
       topupPackages = Map.empty, topupRates = [], agentExchangeRates = [(0, None, 9500)], personalExchangeRates = [],
       personalRatesCache = None, tradingCache = Map.empty \<rparr>"

lemma sampleTrading_wf: "Ledger.wf (core sampleTrading)"
  by (simp add: Ledger.wf_def sampleTrading_def emptyWorld_def walletsInv_def ledgerInv_def newEntry_def coinDelta_def pointDelta_def)

lemma sampleTrading_balances:
  "balanceOf (core sampleTrading) (7, TRADING_COIN) = 5000" "balanceOf (core sampleTrading) (7, POINT) = 30000"
  "balanceOf (core sampleTrading) (8, COIN) = 600"
  by (simp_all add: sampleTrading_def emptyWorld_def balanceOf_def findWallet_def walletBalance_def latestCoinBalance_def latestPointBalance_def
      latestBalance_def newEntry_def)

lemma sampleTrading_keys:
  "k \<notin> {''a'', ''b''} \<Longrightarrow> findByIdempotencyKey (coinLedger (core sampleTrading)) k = None"
  "k \<noteq> ''c'' \<Longrightarrow> findByIdempotencyKey (pointLedger (core sampleTrading)) k = None"
  by (auto simp: sampleTrading_def emptyWorld_def findByIdempotencyKey_def newEntry_def)

end
