(* ===== verification/TradingTransfers.thy ===== *)
theory TradingTransfers
  imports CoinTrading
begin

text \<open>
  Transfers of trading coins and their reversals, on the model in \<open>CoinTrading\<close>: what a transfer moves, that a
  repeated request moves nothing, and every outcome of an admin reversal.
\<close>

section \<open>Recharges move no money\<close>

definition richFrame :: "world \<Rightarrow> world \<Rightarrow> bool" where
  "richFrame w w' \<longleftrightarrow> postFrame w w' \<and> wallets w' = wallets w \<and> coinLedger w' = coinLedger w \<and> pointLedger w' = pointLedger w
     \<and> nextId w' = nextId w \<and> idemKeys w' = idemKeys w"

lemma richFrame_refl [simp]: "richFrame w w"
  by (simp add: richFrame_def)

lemma richFrame_trans: "richFrame a b \<Longrightarrow> richFrame b c \<Longrightarrow> richFrame a c"
  using postFrame_trans by (auto simp: richFrame_def)

lemma richFrame_steps:
  "richFrame w (upsertMonthlyAggregate u y m a w)" "richFrame w (onRecharge u a d w)" "richFrame w (snd (loadLadder w))"
  "richFrame w (raiseBadge u t c y m w)" "richFrame w (refreshCacheAfterRecharge u y m w)"
proof -
  show "richFrame w (onRecharge u a d w)"
    using onRecharge_frame [of w u a d] by (auto simp: rankFrame_def richFrame_def postFrame_def simp del: onRecharge_frame)
qed (auto simp: richFrame_def postFrame_def upsertMonthlyAggregate_def loadLadder_def raiseBadge_def refreshCacheAfterRecharge_def
       Let_def split: option.splits list.splits prod.splits)

lemma applyRecharge_richFrame: "richFrame w (snd (applyRecharge u a w))"
proof -
  obtain y m where ym: "utcYearMonth (clock w) = (y, m)" by fastforce
  define w2 where "w2 = onRecharge u a (utcDayFromTimestamp (clock w)) (upsertMonthlyAggregate u y m a w)"
  have f: "richFrame w (snd (loadLadder w2))"
    unfolding w2_def using richFrame_steps(1-3) richFrame_trans by metis
  have "snd (applyRecharge u a w) = snd (loadLadder w2) \<or> (\<exists>t c. snd (applyRecharge u a w) = raiseBadge u t c y m (snd (loadLadder w2)))"
    unfolding applyRecharge_def Let_def split_def ym fst_conv snd_conv upsertMonthlyAggregate_frame(2) w2_def [symmetric]
    by (simp split: if_split) blast
  then show ?thesis using f richFrame_trans [OF f richFrame_steps(4)] by auto
qed

lemma richFrame_moved: "richFrame w w' \<Longrightarrow> moved w w' still"
  by (rule moved_frame) (simp_all add: richFrame_def postFrame_def)

section \<open>Transfers: what a successful one does\<close>

lemma tradeOptions_simps [simp]:
  "o_idempotencyKey (tradeOptions k d x c b f) = k" "currencyOf (tradeOptions k d x c b f) = c" "o_freezeCheck (tradeOptions k d x c b f) = f"
  by (simp_all add: tradeOptions_def)

lemma legs_differ: "k @ '':out'' \<noteq> k @ '':in''" "reversalKey i '':recipient'' \<noteq> reversalKey i '':sender''"
  by (simp_all add: reversalKey_def)

lemma transferTx_new:
  assumes run: "transferTx a r c coins key s = Inr ((t, recharge), s')"
    and new: "find (\<lambda>t. tr_key t = transferKey a key) (transfers s) = None"
    and fresh: "findByIdempotencyKey (coinLedger (core s)) (transferKey a key @ '':out'') = None"
      "findByIdempotencyKey (coinLedger (core s)) (transferKey a key @ '':in'') = None"
    and c: "c \<noteq> POINT"
  shows "moved (core s) (core s') (\<lambda>x. moving (a, TRADING_COIN) (- coins) x + moving (r, c) coins x)"
    "transfers s' = transfers s @ [t]" "tr_key t = transferKey a key" "tr_credited t = coins" "tr_sender t = a" "tr_recipient t = r"
    "tr_reversedAt t = None" "walletTypeFromTransferRecord (tr_walletType t) = (if c = COIN then COIN else TRADING_COIN)"
    "postFrame (core s) (core s')" "idemKeys (core s') = idemKeys (core s)"
    "s' = s\<lparr>core := core s', transfers := transfers s'\<rparr>"
proof -
  obtain sw w1 rw w2 where g: "getOrCreate a TRADING_COIN (core s) = (sw, w1)" "getOrCreate r c w1 = (rw, w2)" by fastforce
  define w3 where "w3 = lockWalletsInOrder [wallet_id sw, wallet_id rw] w2"
  note open3 = open_two [OF g, of "[wallet_id sw, wallet_id rw]", folded w3_def]
  let ?o = "tradeOptions (transferKey a key @ '':out'') ''Trading coin transfer out'' (Some r) TRADING_COIN True True"
  let ?i = "tradeOptions (transferKey a key @ '':in'') ''Trading coin transfer in'' (Some a) c False True"
  from run new obtain d w4 e w5 where legs: "debit a coins C_TRADING_TRANSFER_OUT ?o w3 = Inr (d, w4)"
      "credit r coins C_TRADING_TRANSFER_IN ?i w4 = Inr (e, w5)"
    and t: "t = newTransfer a r c coins key (ledgerEntryId d) (ledgerEntryId e) (nextId (snd (rechargeIfPersonal c r coins w5)))"
    and s'_eq: "s' = s\<lparr>core := (snd (rechargeIfPersonal c r coins w5))\<lparr>nextId := Suc (nextId (snd (rechargeIfPersonal c r coins w5)))\<rparr>,
        transfers := transfers s @ [t]\<rparr>"
    by (auto simp: transferTx_def g andThen_Inr_iff Let_def split_def simp flip: w3_def)
  note two = coins.two_legs [OF legs, simplified open3(3) tradeOptions_simps, OF fresh legs_differ(1) _ c, simplified]
  define w6 where "w6 = snd (rechargeIfPersonal c r coins w5)"
  have f6: "richFrame w5 w6" by (simp add: w6_def rechargeIfPersonal_def applyRecharge_richFrame Let_def split_def)
  have s': "core s' = w6\<lparr>nextId := Suc (nextId w6)\<rparr>" "transfers s' = transfers s @ [t]" "tr_key t = transferKey a key"
    "tr_credited t = coins" "tr_sender t = a" "tr_recipient t = r" "tr_reversedAt t = None" "s' = s\<lparr>core := core s', transfers := transfers s'\<rparr>"
    "tr_walletType t = (if c = COIN then ''PERSONAL'' else ''TRADING'')"
    unfolding w6_def by (simp_all add: s'_eq t newTransfer_def)
  have last: "moved w6 (core s') still" by (rule moved_frame) (simp_all add: s'(1))
  show "moved (core s) (core s') (\<lambda>x. moving (a, TRADING_COIN) (- coins) x + moving (r, c) coins x)"
    using moved_still [OF moved_still [OF still_moved [OF open3(1) two(2)] richFrame_moved [OF f6]] last] .
  have fr: "coinFrame (core s) w5" using coinFrame_trans [OF open3(2) two(3)] .
  show "postFrame (core s) (core s')" "idemKeys (core s') = idemKeys (core s)"
    using fr f6 s'(1) by (auto simp: coinFrame_def richFrame_def postFrame_def)
  show "transfers s' = transfers s @ [t]" "tr_key t = transferKey a key" "tr_credited t = coins" "tr_sender t = a" "tr_recipient t = r"
    "tr_reversedAt t = None" "s' = s\<lparr>core := core s', transfers := transfers s'\<rparr>"
    by (fact s')+
  show "walletTypeFromTransferRecord (tr_walletType t) = (if c = COIN then COIN else TRADING_COIN)"
    using s'(9) by (simp add: walletTypeFromTransferRecord_def)
qed

lemma transferTx_total:
  assumes "Ledger.wf (core s)" "find (\<lambda>t. tr_key t = transferKey a key) (transfers s) = None"
    and fresh: "findByIdempotencyKey (coinLedger (core s)) (transferKey a key @ '':out'') = None"
      "findByIdempotencyKey (coinLedger (core s)) (transferKey a key @ '':in'') = None"
    and "0 < coins" "coins \<le> balanceOf (core s) (a, TRADING_COIN)" "assertCoinDebitAllowed a TRADING_COIN (core s) = Inr ()"
  shows "\<exists>t recharge s'. transferTx a r c coins key s = Inr ((t, recharge), s')"
proof -
  obtain sw w1 rw w2 where g: "getOrCreate a TRADING_COIN (core s) = (sw, w1)" "getOrCreate r c w1 = (rw, w2)" by fastforce
  define w3 where "w3 = lockWalletsInOrder [wallet_id sw, wallet_id rw] w2"
  note o3 = open_two [OF g, of "[wallet_id sw, wallet_id rw]", folded w3_def]
  have "Ledger.wf w3" "coins \<le> balanceOf w3 (a, TRADING_COIN)" "assertCoinDebitAllowed a TRADING_COIN w3 = Inr ()"
    using assms moved_wf [OF o3(1)] moved_bal [OF o3(1)] assertCoinDebitAllowed_users [OF coinFrame_keeps(1) [OF o3(2)]] by simp_all
  then have "\<exists>d w4 e w5. debit a coins C_TRADING_TRANSFER_OUT
        (tradeOptions (transferKey a key @ '':out'') ''Trading coin transfer out'' (Some r) TRADING_COIN True True) w3 = Inr (d, w4)
      \<and> credit r coins C_TRADING_TRANSFER_IN (tradeOptions (transferKey a key @ '':in'') ''Trading coin transfer in'' (Some a) c False True) w4 = Inr (e, w5)"
    using assms(5) fresh legs_differ(1) by (intro coins.two_legs_total) (simp_all add: o3(3))
  then show ?thesis using assms(2) by (auto simp: transferTx_def g Let_def split_def simp flip: w3_def)
qed

section \<open>Passing the gate\<close>

lemma gate_passed:
  assumes "enforcePauseGate u s = (Inr x, s1)"
  shows "\<exists>ag us. s1 = s\<lparr>core := (core s)\<lparr>agencies := ag, users := us\<rparr>\<rparr> \<and> (\<forall>v. us v = None \<longleftrightarrow> users (core s) v = None)
    \<and> (\<forall>a. ag u = Some a \<longrightarrow> agency_pausedAt a = None)"
proof -
  consider "\<forall>a. agencies (core s) u = Some a \<longrightarrow> agency_pausedAt a = None"
    | a where "agencies (core s) u = Some a" "agency_pausedAt a \<noteq> None" by blast
  then show ?thesis
  proof cases
    case 1
    then have "s1 = s" using assms by (cases "agencies (core s) u") (auto simp: enforcePauseGate_def clearExpiredPauseIfNeeded_def)
    then show ?thesis using 1 by (intro exI [of _ "agencies (core s)"] exI [of _ "users (core s)"]) simp
  next
    case 2
    then have "s1 = snd (unpauseAgency u s)" "\<exists>y. fst (unpauseAgency u s) = Inr y"
      using assms by (cases "agency_pausedUntil a"; cases "unpauseAgency u s";
          auto simp: enforcePauseGate_def clearExpiredPauseIfNeeded_def afterwards_def split: if_splits sum.splits)+
    then show ?thesis
      using 2 by (cases "users (core s) u")
        (auto simp: unpauseAgency_def transact_def onCore_def setAllWalletsUnfrozen_def Let_def intro!: exI split: if_splits)
  qed
qed

lemma gate_moves_nothing:
  "moved w (w\<lparr>agencies := ag, users := us\<rparr>) still"
  by (rule moved_frame) simp_all

section \<open>Caches\<close>

lemma cache_steps_money:
  "moved (core s) (core (invalidateTradingTransferCaches a r c s)) still"
  "postFrame (core s) ((core (invalidateTradingTransferCaches a r c s))\<lparr>coinCache := coinCache (core s)\<rparr>)"
  by (auto simp: invalidateTradingTransferCaches_def adjustCoinCacheOf_def adjustTradingBalanceCache_def adjustCoinBalanceCache_def
      postFrame_def intro!: moved_frame)

lemma cache_steps_rest [simp]:
  "transfers (invalidateTradingTransferCaches a r c s) = transfers s" "publicIds (invalidateTradingTransferCaches a r c s) = publicIds s"
  "isAgent (invalidateTradingTransferCaches a r c s) = isAgent s" "reversals (invalidateTradingTransferCaches a r c s) = reversals s"
  "coinLedger (core (invalidateTradingTransferCaches a r c s)) = coinLedger (core s)"
  "agencies (core (invalidateTradingTransferCaches a r c s)) = agencies (core s)"
  "users (core (invalidateTradingTransferCaches a r c s)) = users (core s)"
  by (simp_all add: invalidateTradingTransferCaches_def adjustCoinCacheOf_def adjustTradingBalanceCache_def adjustCoinBalanceCache_def)

lemma afterTransfer_keeps:
  "moved (core s) (core (afterTransfer a r c recharge s)) still"
  "transfers (afterTransfer a r c recharge s) = transfers s" "publicIds (afterTransfer a r c recharge s) = publicIds s"
  "isAgent (afterTransfer a r c recharge s) = isAgent s"
  "agencies (core (afterTransfer a r c recharge s)) = agencies (core s)" "users (core (afterTransfer a r c recharge s)) = users (core s)"
  "coinLedger (core (afterTransfer a r c recharge s)) = coinLedger (core s)"
proof -
  have "richFrame w (refreshCacheAfterRecharge r y m w)" for y m w by (rule richFrame_steps)
  note f = this richFrame_moved [OF this]
  show "moved (core s) (core (afterTransfer a r c recharge s)) still"
    using cache_steps_money(1) [of s a r c] moved_still [OF cache_steps_money(1) f(2)]
    by (auto simp: afterTransfer_def Let_def split: option.splits)
  show "agencies (core (afterTransfer a r c recharge s)) = agencies (core s)" "users (core (afterTransfer a r c recharge s)) = users (core s)"
    "coinLedger (core (afterTransfer a r c recharge s)) = coinLedger (core s)"
    using f(1) by (auto simp: afterTransfer_def Let_def richFrame_def postFrame_def split: option.splits)
qed (auto simp: afterTransfer_def Let_def split: option.splits)

text \<open>A transfer that passes all its checks is its transaction followed by the cache updates.\<close>

definition transferAllowed :: "uid \<Rightarrow> int \<Rightarrow> int \<Rightarrow> TargetWallet option \<Rightarrow> trading \<Rightarrow> uid \<Rightarrow> bool" where
  "transferAllowed a pid coins target s r \<longleftrightarrow>
     100 \<le> coins \<and> 100 dvd coins \<and> users (core s) a \<noteq> None \<and> isAgent s a \<and> publicIds s pid = Some r
     \<and> (r = a \<longrightarrow> target = Some PERSONAL)"

lemma transfer_checks:
  "assertPositiveAmountMultiple coins TRADING_COIN_TRANSFER_STEP ''MIN_TRANSFER'' = Inr x \<longleftrightarrow> 100 \<le> coins \<and> 100 dvd coins"
  "requireAgent a s = Inr y \<longleftrightarrow> users (core s) a \<noteq> None \<and> isAgent s a"
  using assertPositiveAmountMultiple_iff [of 100 coins] by (simp_all add: TRADING_COIN_TRANSFER_STEP_def requireAgent_def require_def)

lemma transfer_success:
  assumes "transferTradingCoins a pid coins target key s = (Inr t, s')"
  obtains r s1 s2 recharge where "transferAllowed a pid coins target s r" "enforcePauseGate a s = (Inr (), s1)"
    "transferTx a r (resolveRecipientWalletType (isAgent s1 r) target) coins key s1 = Inr ((t, recharge), s2)"
    "s' = afterTransfer a r (resolveRecipientWalletType (isAgent s1 r) target) recharge s2"
proof -
  obtain s1 where gate: "enforcePauseGate a s = (Inr (), s1)"
    and ok: "100 \<le> coins" "100 dvd coins" "users (core s) a \<noteq> None" "isAgent s a"
    using assms transfer_checks
    by (auto simp: transferTradingCoins_def afterwards_def split: prod.splits sum.splits)
  obtain us ag where s1: "s1 = s\<lparr>core := (core s)\<lparr>agencies := ag, users := us\<rparr>\<rparr>" using gate_passed [OF gate] by blast
  have checks: "assertPositiveAmountMultiple coins TRADING_COIN_TRANSFER_STEP ''MIN_TRANSFER'' = Inr ()" "requireAgent a s = Inr ()"
    using ok transfer_checks by blast+
  then obtain r where r: "publicIds s pid = Some r" "r = a \<longrightarrow> target = Some PERSONAL"
    using assms s1 gate by (auto simp: transferTradingCoins_def split: option.splits if_splits)
  define c where "c = resolveRecipientWalletType (isAgent s1 r) target"
  have pid: "publicIds s1 pid = Some r" using r(1) s1 by simp
  have "(Inr t, s') = afterwards (rerunDuplicate (transact (transferTx a r c coins key)) s1)
      (\<lambda>(t, recharge) s2. (Inr t, afterTransfer a r c recharge s2))"
    using assms r(2) unfolding transferTradingCoins_def checks gate afterwards_simps pid
    by (auto simp: c_def Let_def split: if_splits)
  then obtain recharge s2 where "transferTx a r c coins key s1 = Inr ((t, recharge), s2)" "s' = afterTransfer a r c recharge s2"
    by (cases "transferTx a r c coins key s1") (auto simp: rerunDuplicate_def transact_def split: if_splits)
  with that [OF _ gate] ok r show thesis by (auto simp: c_def transferAllowed_def)
qed

lemma transfer_runs:
  assumes "transferAllowed a pid coins target s r" "\<And>ag. agencies (core s) a = Some ag \<Longrightarrow> agency_pausedAt ag = None"
    and "c = resolveRecipientWalletType (isAgent s r) target" "transferTx a r c coins key s = Inr ((t, recharge), s2)"
  shows "transferTradingCoins a pid coins target key s = (Inr t, afterTransfer a r c recharge s2)"
proof -
  have checks: "assertPositiveAmountMultiple coins TRADING_COIN_TRANSFER_STEP ''MIN_TRANSFER'' = Inr ()" "requireAgent a s = Inr ()"
    using assms(1) transfer_checks unfolding transferAllowed_def by blast+
  show ?thesis
    using assms(1,3,4) gate_open [of s a, OF assms(2)] unfolding transferTradingCoins_def checks afterwards_simps
    by (auto simp: transferAllowed_def transact_def rerunDuplicate_def Let_def)
qed

text \<open>
  C16. A transfer of trading coins that succeeds moves a positive multiple of 100 coins from the trading wallet of
  the agent to the wallet of the recipient that the target names, coin for coin, and changes no other account.
  The same request again answers with the same transfer and moves nothing.
\<close>

theorem transfer_once:
  assumes wf: "Ledger.wf (core s)" and run: "transferTradingCoins a pid coins target key s = (Inr t, s1)"
    and new: "transferKey a key \<notin> set (map tr_key (transfers s))"
    and fresh: "findByIdempotencyKey (coinLedger (core s)) (transferKey a key @ '':out'') = None"
      "findByIdempotencyKey (coinLedger (core s)) (transferKey a key @ '':in'') = None"
  shows "\<exists>r s2. publicIds s pid = Some r \<and> 0 < coins \<and> coins mod 100 = 0 \<and> Ledger.wf (core s1)
    \<and> (let c = resolveRecipientWalletType (isAgent s r) target in
        \<forall>x. balanceOf (core s1) x = balanceOf (core s) x + moving (a, TRADING_COIN) (- coins) x + moving (r, c) coins x)
    \<and> transferTradingCoins a pid coins target key s1 = (Inr t, s2) \<and> transfers s2 = transfers s1
    \<and> (\<forall>x. balanceOf (core s2) x = balanceOf (core s1) x)"
proof -
  obtain r g m recharge where ok: "transferAllowed a pid coins target s r" and gate: "enforcePauseGate a s = (Inr (), g)"
    and tx: "transferTx a r (resolveRecipientWalletType (isAgent g r) target) coins key g = Inr ((t, recharge), m)"
    and s1: "s1 = afterTransfer a r (resolveRecipientWalletType (isAgent g r) target) recharge m"
    using transfer_success [OF run] .
  obtain us ag where g: "g = s\<lparr>core := (core s)\<lparr>agencies := ag, users := us\<rparr>\<rparr>" "\<And>v. us v = None \<longleftrightarrow> users (core s) v = None"
    "\<And>x. ag a = Some x \<Longrightarrow> agency_pausedAt x = None" using gate_passed [OF gate] by blast
  define c where "c = resolveRecipientWalletType (isAgent s r) target"
  have c: "c = resolveRecipientWalletType (isAgent g r) target" "c \<noteq> POINT" by (simp_all add: c_def g(1) resolveRecipientWalletType_def)
  have none: "find (\<lambda>t. tr_key t = transferKey a key) (transfers g) = None" using new by (force simp: find_None_iff g(1))
  have keys: "findByIdempotencyKey (coinLedger (core g)) (transferKey a key @ '':out'') = None"
    "findByIdempotencyKey (coinLedger (core g)) (transferKey a key @ '':in'') = None" using fresh by (simp_all add: g(1))
  note e = transferTx_new [OF tx [folded c(1)] none keys c(2)]
  have "moved (core s) (core g) still" by (simp add: g(1) gate_moves_nothing)
  then have mv: "moved (core s) (core s1) (\<lambda>x. moving (a, TRADING_COIN) (- coins) x + moving (r, c) coins x)"
    using still_moved [OF _ e(1)] afterTransfer_keeps(1) unfolding s1 by (blast intro: moved_still)
  have m: "publicIds m = publicIds s" "isAgent m = isAgent s" "users (core m) = us" "agencies (core m) = ag"
    using arg_cong [OF e(11), of publicIds] arg_cong [OF e(11), of isAgent] e(9) g(1) by (simp_all add: postFrame_def)
  have again: "transferAllowed a pid coins target s1 r" "c = resolveRecipientWalletType (isAgent s1 r) target"
    "\<And>x. agencies (core s1) a = Some x \<Longrightarrow> agency_pausedAt x = None"
    using ok g(2,3) m by (auto simp: s1 transferAllowed_def afterTransfer_keeps c_def)
  have "find (\<lambda>t. tr_key t = transferKey a key) (transfers s1) = Some t"
    using none e(2,3) by (simp add: s1 afterTransfer_keeps find_append)
  then have "transferTx a r c coins key s1 = Inr ((t, None), s1)" by (simp add: transferTx_def)
  note rerun = transfer_runs [OF again(1,3,2) this]
  have "\<forall>x. balanceOf (core (afterTransfer a r c None s1)) x = balanceOf (core s1) x"
    using moved_bal [OF afterTransfer_keeps(1) moved_wf [OF mv wf]] by simp
  then show ?thesis
    using ok rerun moved_wf [OF mv wf] moved_bal [OF mv wf]
    by (intro exI [of _ r] exI [of _ "afterTransfer a r c None s1"])
      (auto simp: transferAllowed_def afterTransfer_keeps Let_def c_def add.assoc)
qed

theorem transfer_once_witness:
  "\<exists>t s1. transferTradingCoins 7 500 1000 None ''k'' sampleTrading = (Inr t, s1)
    \<and> balanceOf (core s1) (7, TRADING_COIN) = 4000 \<and> balanceOf (core s1) (8, COIN) = 1600"
proof -
  let ?s = "sampleTrading"
  have keys: "findByIdempotencyKey (coinLedger (core ?s)) (transferKey 7 ''k'' @ '':out'') = None"
    "findByIdempotencyKey (coinLedger (core ?s)) (transferKey 7 ''k'' @ '':in'') = None"
    by (rule sampleTrading_keys, simp add: transferKey_def)+
  have new: "transferKey 7 ''k'' \<notin> set (map tr_key (transfers ?s))" by (simp add: sampleTrading_def transferKey_def)
  have user: "users (core ?s) 7 = Some sampleUser" "isAgent ?s 7" "\<not> isAgent ?s 8" "publicIds ?s 500 = Some 8" "agencies (core ?s) = Map.empty"
    by (simp_all add: sampleTrading_def emptyWorld_def)
  then have ok: "transferAllowed 7 500 1000 None ?s 8" by (simp add: transferAllowed_def)
  have "assertCoinDebitAllowed 7 TRADING_COIN (core ?s) = Inr ()"
    using user(1) by (simp add: assertCoinDebitAllowed_def getUserWalletFreezeFlags_def throwIfCoinFrozen_def sampleUser_def)
  then obtain t rc s2 where "transferTx 7 8 COIN 1000 ''k'' ?s = Inr ((t, rc), s2)"
    using transferTx_total [OF sampleTrading_wf _ keys, of 1000 8 COIN] new sampleTrading_balances by (force simp: find_None_iff)
  then have run: "transferTradingCoins 7 500 1000 None ''k'' ?s = (Inr t, afterTransfer 7 8 COIN rc s2)"
    using user by (intro transfer_runs [OF ok]) (simp_all add: resolveRecipientWalletType_def)
  from transfer_once [OF sampleTrading_wf this new keys] run user(3,4) show ?thesis
    by (auto simp: Let_def moving_def sampleTrading_balances resolveRecipientWalletType_def)
qed

section \<open>Reversals: every outcome\<close>

lemma available_is_balance: "Ledger.wf w \<Longrightarrow> c \<noteq> POINT \<Longrightarrow> readAvailableBalance w u c = balanceOf w (u, c)"
  using balanceOf_nonneg [of w "(u, c)"]
  by (auto simp: readAvailableBalance_def balanceOf_def walletBalance_def Let_def findWallet_Some split: option.splits)

text \<open>What a reversal takes taken.\<close>

definition recoverable :: "transfer_row \<Rightarrow> RevertMode \<Rightarrow> trading \<Rightarrow> int" where
  "recoverable t mode s =
     (case mode of
        FULL \<Rightarrow> tr_credited t
      | FORCE \<Rightarrow> min (tr_credited t) (balanceOf (core s) (tr_recipient t, walletTypeFromTransferRecord (tr_walletType t))))"

lemma walletTypeFromTransferRecord_coin: "walletTypeFromTransferRecord x \<noteq> POINT"
  by (simp add: walletTypeFromTransferRecord_def)

lemma marked_found:
  assumes "find (\<lambda>t. tr_id t = i) ts = Some t"
  shows "\<exists>x. find (\<lambda>t. tr_id t = i) (map (\<lambda>x. if tr_id x = i then x\<lparr>tr_reversedAt := Some n, tr_reversedBy := b, tr_reason := y\<rparr> else x) ts) = Some x
    \<and> tr_reversedAt x \<noteq> None"
  using assms by (induction ts) auto

text \<open>
  C17. The outcome of an admin reversal of a transfer that is not reversed yet, on every branch. A full reversal
  takes the whole amount and fails when the recipient cannot cover it; a forced one takes what is left, up to the
  amount, and fails when nothing is left. A failed reversal changes nothing. A successful one moves exactly the
  recovered coins from the recipient back to the agent, reports the rest as the shortfall, and no later reversal
  of the same transfer succeeds.
\<close>

theorem reversal_outcome:
  assumes wf: "Ledger.wf (core s)" and t: "find (\<lambda>t. tr_id t = i) (transfers s) = Some t" "tr_reversedAt t = None" "0 < tr_credited t"
    and fresh: "findByIdempotencyKey (coinLedger (core s)) (reversalKey i '':recipient'') = None"
      "findByIdempotencyKey (coinLedger (core s)) (reversalKey i '':sender'') = None"
    and none: "\<not> list_ex (\<lambda>r. rv_kind r = ''COIN_TRADING_TRANSFER'' \<and> rv_source r = i) (reversals s)"
  shows "let c = walletTypeFromTransferRecord (tr_walletType t); avail = balanceOf (core s) (tr_recipient t, c);
             taken = recoverable t mode s in
    if taken = 0 then reverseTransfer admin i reason mode s = (Inl (AppError 409 ''NOTHING_TO_RECOVER'' []), s)
    else if avail < taken then reverseTransfer admin i reason mode s = (Inl (reversalError c (insufficientCoins taken avail)), s)
    else \<exists>s'. reverseTransfer admin i reason mode s = (Inr (taken, tr_credited t - taken, taken < tr_credited t), s')
      \<and> Ledger.wf (core s')
      \<and> (\<forall>x. balanceOf (core s') x = balanceOf (core s) x + moving (tr_recipient t, c) (- taken) x + moving (tr_sender t, TRADING_COIN) taken x)
      \<and> (\<forall>admin' reason' mode'. reverseTransfer admin' i reason' mode' s' = (Inl (AppError 409 ''TRANSFER_ALREADY_REVERSED'' []), s'))"
proof -
  define c where "c = walletTypeFromTransferRecord (tr_walletType t)"
  define r where "r = tr_recipient t" define a where "a = tr_sender t"
  define avail where "avail = balanceOf (core s) (r, c)"
  define taken where "taken = recoverable t mode s"
  have c: "c \<noteq> POINT" by (simp add: c_def walletTypeFromTransferRecord_coin)
  have i: "tr_id t = i" using find_Some_mem [OF t(1)] by simp
  obtain rw w1 sw w2 where g: "getOrCreate r c (core s) = (rw, w1)" "getOrCreate a TRADING_COIN w1 = (sw, w2)" by fastforce
  define w3 where "w3 = lockWalletsInOrder [wallet_id rw, wallet_id sw] w2"
  note o3 = open_two [OF g, of "[wallet_id rw, wallet_id sw]", folded w3_def]
  have wf3: "Ledger.wf w3" and bal3: "balanceOf w3 x = balanceOf (core s) x" for x
    using moved_wf [OF o3(1) wf] moved_bal [OF o3(1) wf] by simp_all
  have av: "readAvailableBalance w3 r c = avail" "0 \<le> avail"
    using available_is_balance [OF wf3 c, of r] bal3 balanceOf_nonneg [OF wf] by (simp_all add: avail_def)
  have tk: "taken = (case mode of FULL \<Rightarrow> tr_credited t | FORCE \<Rightarrow> min (tr_credited t) avail)"
    unfolding taken_def recoverable_def avail_def r_def c_def ..
  have rec: "computeRecovery (tr_credited t) (readAvailableBalance w3 r c) mode = (taken, tr_credited t - taken, avail \<ge> tr_credited t)"
    using av(2) t(3) by (cases mode) (auto simp: computeRecovery_def av(1) tk Let_def)
  have taken_range: "0 \<le> taken" "taken \<le> tr_credited t" using av(2) t(3) by (cases mode; simp add: tk)+
  let ?d = "tradeOptions (reversalKey i '':recipient'')
      (if tr_credited t - taken > 0 then ''Admin fraud reversal debit (partial)'' else ''Admin fraud reversal debit'') None c False False"
  let ?c = "tradeOptions (reversalKey i '':sender'')
      (if tr_credited t - taken > 0 then ''Admin fraud reversal credit (partial)'' else ''Admin fraud reversal credit'') None TRADING_COIN False True"
  have tx: "reverseTransferTx admin t reason mode s =
      andThen (require (taken > 0) (AppError 409 ''NOTHING_TO_RECOVER'' [])) (\<lambda>_.
      andThen (debit r taken C_TRADING_TRANSFER_REVERSAL ?d w3) (\<lambda>(d, w4).
      andThen (credit a taken C_TRADING_TRANSFER_REVERSAL ?c w4) (\<lambda>(k, w5).
      andThen (insertReversalRecord
         \<lparr> rv_kind = ''COIN_TRADING_TRANSFER'', rv_source = i, rv_currency = c, rv_sender = a,
           rv_receiver = r, rv_original = tr_credited t, rv_recovered = taken, rv_shortfall = tr_credited t - taken,
           rv_forced = tr_credited t - taken > 0, rv_reason = reason, rv_admin = admin, rv_debitEntry = Some (ledgerEntryId d),
           rv_creditEntry = Some (ledgerEntryId k) \<rparr> (markReversed i admin reason (s\<lparr>core := w5\<rparr>))) (\<lambda>(_, s2).
      Inr ((taken, tr_credited t - taken, tr_credited t - taken > 0), s2)))))"
    unfolding reverseTransferTx_def Let_def c_def [symmetric] r_def [symmetric] a_def [symmetric] g split_conv w3_def [symmetric] rec i ..
  have rev: "reverseTransfer admin i reason mode s = (case transact (reverseTransferTx admin t reason mode) s of
               (Inl e, s1) \<Rightarrow> (Inl (reversalError c e), s1)
             | (Inr out, s1) \<Rightarrow> (Inr out, invalidateTradingTransferCaches a r c s1))"
    unfolding reverseTransfer_def c_def a_def r_def Let_def t(1) using t(2) by simp
  have keys: "findByIdempotencyKey (coinLedger w3) (reversalKey i '':recipient'') = None"
    "findByIdempotencyKey (coinLedger w3) (reversalKey i '':sender'') = None" using fresh o3(3) by simp_all
  consider "taken = 0" | "0 < taken" "avail < taken" | "0 < taken" "taken \<le> avail" using taken_range(1) by linarith
  then show ?thesis
  proof cases
    case 1
    then have "reverseTransferTx admin t reason mode s = Inl (AppError 409 ''NOTHING_TO_RECOVER'' [])" by (simp add: tx)
    then show ?thesis using 1 by (simp add: rev transact_def reversalError_def taken_def [symmetric])
  next
    case 2
    then have "debit r taken C_TRADING_TRANSFER_REVERSAL ?d w3 = Inl (insufficientCoins taken avail)"
      using debit_short [OF wf3 _ c, of ?d taken r] keys bal3 by (simp add: avail_def)
    then have "reverseTransferTx admin t reason mode s = Inl (insufficientCoins taken avail)" using 2 by (simp add: tx)
    then show ?thesis using 2 unfolding Let_def c_def [symmetric] taken_def [symmetric] r_def [symmetric] avail_def [symmetric]
      by (simp add: rev transact_def)
  next
    case 3
    obtain d w4 k w5 where legs: "debit r taken C_TRADING_TRANSFER_REVERSAL ?d w3 = Inr (d, w4)"
        "credit a taken C_TRADING_TRANSFER_REVERSAL ?c w4 = Inr (k, w5)"
      using coins.two_legs_total [OF wf3, of ?d taken r taken ?c C_TRADING_TRANSFER_REVERSAL a C_TRADING_TRANSFER_REVERSAL]
        c keys legs_differ(2) bal3 3 unfolding avail_def by (simp only: tradeOptions_simps simp_thms) auto
    define m where "m = markReversed i admin reason (s\<lparr>core := w5\<rparr>)"
    obtain s2 where ins: "insertReversalRecord
         \<lparr> rv_kind = ''COIN_TRADING_TRANSFER'', rv_source = i, rv_currency = c, rv_sender = a,
           rv_receiver = r, rv_original = tr_credited t, rv_recovered = taken, rv_shortfall = tr_credited t - taken,
           rv_forced = tr_credited t - taken > 0, rv_reason = reason, rv_admin = admin, rv_debitEntry = Some (ledgerEntryId d),
           rv_creditEntry = Some (ledgerEntryId k) \<rparr> m = Inr ((), s2)" and s2: "core s2 = w5" "transfers s2 = transfers m"
      using none by (simp add: insertReversalRecord_def m_def markReversed_def)
    let ?s' = "invalidateTradingTransferCaches a r c s2"
    have run: "reverseTransfer admin i reason mode s = (Inr (taken, tr_credited t - taken, taken < tr_credited t), ?s')"
      using 3 legs ins by (simp add: rev tx transact_def flip: m_def)
    have "moved w3 w5 (\<lambda>x. moving (r, c) (- taken) x + moving (a, TRADING_COIN) taken x)"
      using coins.two_legs(2) [OF legs] keys legs_differ(2) c by simp
    then have mv: "moved (core s) (core ?s') (\<lambda>x. moving (r, c) (- taken) x + moving (a, TRADING_COIN) taken x)"
      using still_moved [OF o3(1)] cache_steps_money(1) [of s2 a r c] unfolding s2 by (blast intro: moved_still)
    have "\<exists>x. find (\<lambda>t. tr_id t = i) (transfers ?s') = Some x \<and> tr_reversedAt x \<noteq> None"
      using marked_found [OF t(1)] by (simp add: s2 m_def markReversed_def)
    then have "\<forall>admin' reason' mode'. reverseTransfer admin' i reason' mode' ?s' = (Inl (AppError 409 ''TRANSFER_ALREADY_REVERSED'' []), ?s')"
      by (auto simp: reverseTransfer_def)
    then show ?thesis
      using 3 run moved_wf [OF mv wf] moved_bal [OF mv wf]
      unfolding Let_def c_def [symmetric] taken_def [symmetric] r_def [symmetric] a_def [symmetric] avail_def [symmetric]
      by (auto simp: add.assoc)
  qed
qed

theorem reversal_outcome_witness:
  "\<exists>s'. reverseTransfer 1 9 ''fraud'' FORCE sampleTrading = (Inr (600, 400, True), s')
    \<and> balanceOf (core s') (8, COIN) = 0 \<and> balanceOf (core s') (7, TRADING_COIN) = 5600"
proof -
  obtain t where t: "find (\<lambda>t. tr_id t = 9) (transfers sampleTrading) = Some t" "tr_reversedAt t = None" "tr_credited t = 1000"
      "tr_sender t = 7" "tr_recipient t = 8" "walletTypeFromTransferRecord (tr_walletType t) = COIN"
    by (simp add: sampleTrading_def walletTypeFromTransferRecord_def)
  have keys: "findByIdempotencyKey (coinLedger (core sampleTrading)) (reversalKey 9 '':recipient'') = None"
    "findByIdempotencyKey (coinLedger (core sampleTrading)) (reversalKey 9 '':sender'') = None"
    by (rule sampleTrading_keys, simp add: reversalKey_def)+
  have "\<not> list_ex (\<lambda>r. rv_kind r = ''COIN_TRADING_TRANSFER'' \<and> rv_source r = 9) (reversals sampleTrading)"
    by (simp add: sampleTrading_def)
  from reversal_outcome [OF sampleTrading_wf t(1,2) _ keys this, of FORCE 1 "''fraud''"] t(3-6)
  show ?thesis by (auto simp: recoverable_def sampleTrading_balances moving_def Let_def)
qed

end
