(* ===== verification/TradingExchange.thy ===== *)
theory TradingExchange
  imports CoinTrading
begin

text \<open>
  Exchanges of points for coins and top-ups of trading coins, on the model in \<open>CoinTrading\<close>.
\<close>

section \<open>Exchanges\<close>

text \<open>What checks leave alone: the money, the keys and the rows of this component.\<close>

definition checkFrame :: "trading \<Rightarrow> trading \<Rightarrow> bool" where
  "checkFrame s s' \<longleftrightarrow> wallets (core s') = wallets (core s) \<and> coinLedger (core s') = coinLedger (core s)
     \<and> pointLedger (core s') = pointLedger (core s) \<and> nextId (core s') = nextId (core s) \<and> clock (core s') = clock (core s)
     \<and> idemKeys (core s') = idemKeys (core s) \<and> redisUp (core s') = redisUp (core s) \<and> isAgent s' = isAgent s"

lemma checkFrame_refl [simp]: "checkFrame s s"
  by (simp add: checkFrame_def)

lemma checkFrame_trans: "checkFrame a b \<Longrightarrow> checkFrame b c \<Longrightarrow> checkFrame a c"
  by (simp add: checkFrame_def)

lemma checkFrame_moved: "checkFrame s s' \<Longrightarrow> moved (core s) (core s') still"
  by (rule moved_frame) (simp_all add: checkFrame_def)

lemma checkFrame_afterwards:
  assumes "checkFrame s (snd r)" "\<And>x. fst r = Inr x \<Longrightarrow> checkFrame (snd r) (snd (f x (snd r)))"
  shows "checkFrame s (snd (afterwards r f))"
  using assms checkFrame_trans by (cases r; cases "fst r") (auto simp: afterwards_def)

lemma gate_checkFrame: "checkFrame s (snd (enforcePauseGate u s))"
proof -
  have "checkFrame s (snd (unpauseAgency u s))"
    by (auto simp: unpauseAgency_def transact_def onCore_def setAllWalletsUnfrozen_def checkFrame_def Let_def split: option.splits)
  then have "checkFrame s (snd (clearExpiredPauseIfNeeded u s))"
    by (auto simp: clearExpiredPauseIfNeeded_def intro!: checkFrame_afterwards split: option.splits)
  then show ?thesis unfolding enforcePauseGate_def by (intro checkFrame_afterwards) simp_all
qed

lemma exchangeChecks_frame: "checkFrame s (snd (exchangeChecks u points s))"
proof -
  have "checkFrame x (snd (getPersonalExchangeRatesCached x))" for x
    by (simp add: getPersonalExchangeRatesCached_def checkFrame_def split: option.splits)
  then show ?thesis
    unfolding exchangeChecks_def Let_def
    by (intro checkFrame_afterwards) (auto simp: gate_checkFrame split_def)
qed

lemma exchangeChecks_amount: "fst (exchangeChecks u points s) = Inr rate \<Longrightarrow> 10000 \<le> points \<and> 10000 dvd points"
  using assertPositiveAmountMultiple_iff [of 10000 points "''MIN_POINTS_EXCHANGE''"]
  by (auto simp: exchangeChecks_def afterwards_def POINTS_EXCHANGE_STEP_def split: sum.splits)

text \<open>The transaction of an exchange.\<close>

lemma pointDebit_keeps:
  assumes "pointDebit u amt tt chk frz opts w = Inr (x, w')"
  shows "coinLedger w' = coinLedger w" "idemKeys w' = idemKeys w"
proof -
  obtain wl w1 where g: "getOrCreate u POINT w = (wl, w1)" by fastforce
  have k: "coinLedger w1 = coinLedger w" "idemKeys w1 = idemKeys w"
    using coinFrame_getOrCreate [OF g] getOrCreate_keeps [OF g] by (simp_all add: coinFrame_def)
  show "coinLedger w' = coinLedger w" "idemKeys w' = idemKeys w"
    using assms k by (auto simp: pointDebit_def g andThen_Inr_iff pointInsert_Inr enqueuePlatformLedgerMessage_def bumpVersion_def
        lockForUpdate_def Let_def split: option.splits)
qed

lemma exchangeTx_moves:
  assumes run: "exchangeTx u agent points coins ref keyed w = Inr ((), w')" and wf: "Ledger.wf w"
    and fresh: "findByIdempotencyKey (pointLedger w) (''exchange-pts:'' @ ref) = None"
      "findByIdempotencyKey (coinLedger w) ((if agent then ''exchange-ct:'' else ''exchange-coin:'') @ ref) = None"
  shows "moved w w' (\<lambda>x. moving (u, POINT) (- points) x + moving (u, if agent then TRADING_COIN else COIN) coins x)"
    "findByIdempotencyKey (pointLedger w') (''exchange-pts:'' @ ref) \<noteq> None" "postFrame w w'" "idemKeys w' = idemKeys w"
proof -
  let ?c = "if agent then TRADING_COIN else COIN"
  obtain pw w1 tw w2 where g: "getOrCreate u POINT w = (pw, w1)" "getOrCreate u ?c w1 = (tw, w2)" by fastforce
  define w3 where "w3 = lockWalletsInOrder [wallet_id pw, wallet_id tw] w2"
  note o3 = open_two [OF g, of "[wallet_id pw, wallet_id tw]", folded w3_def]
  let ?po = "exchangePointOptions agent ref" let ?co = "exchangeCoinOptions agent ref"
  have po: "p_idempotencyKey ?po = ''exchange-pts:'' @ ref" by (simp add: exchangePointOptions_def)
  have co: "o_idempotencyKey ?co = (if agent then ''exchange-ct:'' else ''exchange-coin:'') @ ref" "currencyOf ?co = ?c"
    by (simp_all add: exchangeCoinOptions_def)
  from run fresh(1) obtain i b w4 r w5 where pd: "pointDebit u points P_TRANSFER_OUT True True ?po w3 = Inr ((i, b), w4)"
    and cr: "credit u coins (if agent then C_TRADING_EXCHANGE_FROM_POINTS else C_POINT_EXCHANGE_TO_COINS) ?co w4 = Inr (r, w5)"
    and w': "w' = w5"
    unfolding exchangeTx_def g Let_def split_conv w3_def [symmetric] by (auto simp: andThen_Inr_iff)
  have wf3: "Ledger.wf w3" by (rule moved_wf [OF o3(1) wf])
  have pl: "pointLedger w3 = pointLedger w" using coinFrame_keeps(5) [OF o3(2)] .
  have tt: "P_TRANSFER_OUT \<noteq> P_WITHDRAWAL_ESCROW" by simp
  have pk: "findByIdempotencyKey (pointLedger w3) (p_idempotencyKey ?po) = None" unfolding po pl by (fact fresh(1))
  note p = pointDebit_posts [OF pd tt pk wf3]
  note k = pointDebit_keeps [OF pd]
  have "findByIdempotencyKey (coinLedger w4) (o_idempotencyKey ?co) = None" using fresh(2) unfolding co(1) k(1) o3(3) .
  note c = credit_posts(2) [OF cr this co(2)] credit_coinFrame [OF cr]
  show "moved w w' (\<lambda>x. moving (u, POINT) (- points) x + moving (u, ?c) coins x)"
    unfolding w' using moved_trans [OF still_moved [OF o3(1) p(1)] c(1)] by (cases agent) simp_all
  obtain e where e: "pointLedger w4 = pointLedger w3 @ [e]" "idempotencyKey e = p_idempotencyKey ?po" using p(7) by blast
  have "findByIdempotencyKey (pointLedger w4) (idempotencyKey e) = Some e"
    unfolding e(1) by (rule findByIdempotencyKey_append) (use pk e(2) in simp)
  then show "findByIdempotencyKey (pointLedger w') (''exchange-pts:'' @ ref) \<noteq> None"
    unfolding w' coinFrame_keeps(5) [OF c(2)] e(2) po by (rule ssubst) (rule option.distinct(2))
  show "postFrame w w'"
    unfolding w' using o3(2) p(6) c(2) unfolding coinFrame_def by (meson postFrame_trans)
  show "idemKeys w' = idemKeys w"
    unfolding w' using o3(2) c(2) k(2) unfolding coinFrame_def by metis
qed

text \<open>With a client key, a repeated exchange that the stored response does not answer is refused by the ledger.\<close>

definition moneyFrame :: "trading \<Rightarrow> trading \<Rightarrow> bool" where
  "moneyFrame s s' \<longleftrightarrow> wallets (core s') = wallets (core s) \<and> coinLedger (core s') = coinLedger (core s)
     \<and> pointLedger (core s') = pointLedger (core s) \<and> nextId (core s') = nextId (core s) \<and> clock (core s') = clock (core s)
     \<and> redisUp (core s') = redisUp (core s) \<and> isAgent s' = isAgent s"

lemma moneyFrame_intros:
  "moneyFrame s s" "checkFrame s t \<Longrightarrow> moneyFrame s t" "moneyFrame s (dropIdemKey key s)" "moneyFrame s (rememberResponse key r s)"
  "onCore (acquireIdemKey key) s = Inr (ok, s') \<Longrightarrow> moneyFrame s s'" "moneyFrame a b \<Longrightarrow> moneyFrame b c \<Longrightarrow> moneyFrame a c"
  by (auto simp: moneyFrame_def checkFrame_def dropIdemKey_def rememberResponse_def onCore_def resolveIdemKey_def acquireIdemKey_def
      andThen_Inr_iff split: if_splits option.splits sum.splits)

lemma moneyFrame_moved: "moneyFrame s s' \<Longrightarrow> moved (core s) (core s') still"
  by (rule moved_frame) (simp_all add: moneyFrame_def)

lemma withClientKey_moneyFrame:
  assumes "\<And>t. moneyFrame s t \<Longrightarrow> moneyFrame t (snd (work t))"
  shows "moneyFrame s (snd (withClientKey idem work s))"
proof (cases idem)
  case None
  then show ?thesis using assms moneyFrame_intros(1) by (simp add: withClientKey_def)
next
  case (Some key)
  have "moneyFrame s (snd (case work s1 of (Inr r, s2) \<Rightarrow> (Inr r, rememberResponse key r s2)
      | (Inl e, s2) \<Rightarrow> if e = UniqueViolation then (Inl (AppError 409 ''IDEM_CONFLICT'' []), s2) else (Inl e, dropIdemKey key s2)))"
    if f: "moneyFrame s s1" for s1
    using moneyFrame_intros(6) [OF f assms [OF f]] moneyFrame_intros(3,4,6)
    by (cases "work s1"; cases "fst (work s1)") auto
  then show ?thesis
    using moneyFrame_intros(1) moneyFrame_intros(5) [of key s]
    by (auto simp: withClientKey_def Some transact_def afterwards_def split: sum.splits option.splits)
qed

abbreviation exchangeRef :: "uid \<Rightarrow> string \<Rightarrow> string" where
  "exchangeRef u k \<equiv> ''idem-'' @ take 8 (show_nat u) @ ''-'' @ k"

lemma exchange_refused:
  assumes "findByIdempotencyKey (pointLedger (core s)) (''exchange-pts:'' @ exchangeRef u k) \<noteq> None"
  shows "moneyFrame s (snd (executeExchangeInternal u points (Some k) s))"
proof -
  define t where "t = snd (exchangeChecks u points s)"
  have f: "checkFrame s t" using exchangeChecks_frame by (simp add: t_def)
  then have "exchangeTx u a p c (exchangeRef u k) True (core t) = Inl (AppError 409 ''IDEM_CONFLICT'' [])" for a p c
    using assms by (simp add: exchangeTx_def checkFrame_def)
  then have "snd (runExchange u points (Some k) rate t) = t" for rate
    by (simp add: runExchange_def exchangeRefId_def transact_def onCore_def afterwards_def Let_def)
  then show ?thesis
    using moneyFrame_intros(2) [OF f] unfolding executeExchangeInternal_def t_def
    by (cases "exchangeChecks u points s"; cases "fst (exchangeChecks u points s)") (auto simp: afterwards_def)
qed

lemma coinsForPoints_exact: "10000 dvd points \<Longrightarrow> coinsForPoints points rate = points div 10000 * rate"
  unfolding coinsForPoints_def using floor_divide_of_int_eq [of "points * rate" 10000] by (auto simp: ac_simps)

lemma exchange_caches:
  assumes "s5 = adjustCoinCacheOf u c (s\<lparr>core := adjustPointBalanceCache u 0 None (core s)\<rparr>)"
  shows "moneyFrame s s5" "idemKeys (core s5) = idemKeys (core s)"
  by (simp_all add: assms adjustCoinCacheOf_def adjustPointBalanceCache_def adjustCoinBalanceCache_def adjustTradingBalanceCache_def
      moneyFrame_def)

lemma exchange_success:
  assumes run: "executeExchangeInternal u points (Some k) s = (Inr j, s')" and wf: "Ledger.wf (core s)"
    and fresh: "findByIdempotencyKey (pointLedger (core s)) (''exchange-pts:'' @ exchangeRef u k) = None"
      "findByIdempotencyKey (coinLedger (core s)) ((if isAgent s u then ''exchange-ct:'' else ''exchange-coin:'') @ exchangeRef u k) = None"
  shows "\<exists>rate. 10000 \<le> points \<and> 10000 dvd points
    \<and> moved (core s) (core s') (\<lambda>x. moving (u, POINT) (- points) x
        + moving (u, if isAgent s u then TRADING_COIN else COIN) (points div 10000 * rate) x)"
    "findByIdempotencyKey (pointLedger (core s')) (''exchange-pts:'' @ exchangeRef u k) \<noteq> None"
    "redisUp (core s') = redisUp (core s)" "idemKeys (core s') = idemKeys (core s)"
proof -
  define t where "t = snd (exchangeChecks u points s)"
  have f: "checkFrame s t" using exchangeChecks_frame by (simp add: t_def)
  obtain rate where checks: "exchangeChecks u points s = (Inr rate, t)" and r: "runExchange u points (Some k) rate t = (Inr j, s')"
    using run unfolding executeExchangeInternal_def t_def
    by (cases "exchangeChecks u points s"; cases "fst (exchangeChecks u points s)") (auto simp: afterwards_def)
  have amount: "10000 \<le> points" "10000 dvd points" using exchangeChecks_amount [of u points s rate] checks by simp_all
  have ag: "isAgent t = isAgent s" and same: "pointLedger (core t) = pointLedger (core s)" "coinLedger (core t) = coinLedger (core s)"
    using f by (simp_all add: checkFrame_def)
  let ?c = "points div 10000 * rate" and ?a = "isAgent s u" and ?ref = "exchangeRef u k"
  obtain w' where tx: "exchangeTx u ?a points ?c ?ref True (core t) = Inr ((), w')"
    using r coinsForPoints_exact [OF amount(2)]
    by (cases "exchangeTx u ?a points ?c ?ref True (core t)")
      (auto simp: runExchange_def exchangeRefId_def transact_def onCore_def Let_def ag)
  then have s': "s' = adjustCoinCacheOf u (if ?a then TRADING_COIN else COIN)
      ((t\<lparr>core := w'\<rparr>)\<lparr>core := adjustPointBalanceCache u 0 None (core (t\<lparr>core := w'\<rparr>))\<rparr>)"
    using r coinsForPoints_exact [OF amount(2)]
    by (simp add: runExchange_def exchangeRefId_def transact_def onCore_def Let_def ag)
  note c = exchange_caches [OF s']
  have mt: "moved (core s) (core t) still" by (rule checkFrame_moved [OF f])
  note x = exchangeTx_moves [OF tx moved_wf [OF mt wf], unfolded same, OF fresh]
  have "moved (core t) (core s') (\<lambda>x. moving (u, POINT) (- points) x + moving (u, if ?a then TRADING_COIN else COIN) ?c x)"
    using moved_still [OF x(1), of "core s'"] moneyFrame_moved [OF c(1)] by simp
  then show "\<exists>rate. 10000 \<le> points \<and> 10000 dvd points
    \<and> moved (core s) (core s') (\<lambda>x. moving (u, POINT) (- points) x
        + moving (u, if ?a then TRADING_COIN else COIN) (points div 10000 * rate) x)"
    using amount still_moved [OF mt] by blast
  show "findByIdempotencyKey (pointLedger (core s')) (''exchange-pts:'' @ exchangeRef u k) \<noteq> None"
    using x(2) c(1) unfolding moneyFrame_def by simp
  show "redisUp (core s') = redisUp (core s)" "idemKeys (core s') = idemKeys (core s)"
    using x(3,4) c f by (simp_all add: moneyFrame_def checkFrame_def postFrame_def)
qed

text \<open>
  C34. An exchange under a client key that succeeds takes a positive multiple of 10000 points from the user and
  credits, at the rate that applied, as many coins per 10000 points to the trading wallet of an agent or the
  personal wallet of anyone else; no other account changes. The same request again replays the response and
  changes nothing, and after the stored response is gone, no exchange under the key moves anything.
\<close>

theorem exchange_once:
  assumes wf: "Ledger.wf (core s)" and run: "exchangePointsForTradingCoins u points (Some k) s = (Inr j, s1)"
    and new: "idemKeys (core s) (''ct-exchange:'' @ show_nat u @ '':'' @ k) = None"
    and fresh: "findByIdempotencyKey (pointLedger (core s)) (''exchange-pts:'' @ exchangeRef u k) = None"
      "findByIdempotencyKey (coinLedger (core s)) ((if isAgent s u then ''exchange-ct:'' else ''exchange-coin:'') @ exchangeRef u k) = None"
  shows "0 < points \<and> points mod 10000 = 0 \<and> Ledger.wf (core s1)
    \<and> (\<exists>rate. \<forall>x. balanceOf (core s1) x = balanceOf (core s) x + moving (u, POINT) (- points) x
          + moving (u, if isAgent s u then TRADING_COIN else COIN) (points div 10000 * rate) x)
    \<and> exchangePointsForTradingCoins u points (Some k) s1 = (Inr j, s1)
    \<and> (\<forall>p keys x. balanceOf (core (snd (exchangePointsForTradingCoins u p (Some k) (s1\<lparr>core := (core s1)\<lparr>idemKeys := keys\<rparr>\<rparr>)))) x
          = balanceOf (core s1) x)"
proof -
  define key where "key = ''ct-exchange:'' @ show_nat u @ '':'' @ k"
  have unf: "exchangePointsForTradingCoins u p (Some k) x = withClientKey (Some key) (executeExchangeInternal u p (Some k)) x" for p x
    by (simp add: exchangePointsForTradingCoins_def key_def)
  have new': "idemKeys (core s) key = None" using new by (simp add: key_def)
  have up: "redisUp (core s)"
    using run by (rule_tac ccontr) (simp add: unf withClientKey_def getCachedIdemResponse_def)
  define t where "t = s\<lparr>core := (core s)\<lparr>idemKeys := (idemKeys (core s))(key \<mapsto> Processing)\<rparr>\<rparr>"
  have tf: "moneyFrame s t" "isAgent t = isAgent s" by (simp_all add: t_def moneyFrame_def)
  have mt: "moved (core s) (core t) still" by (rule moneyFrame_moved [OF tf(1)])
  obtain m where work: "executeExchangeInternal u points (Some k) t = (Inr j, m)" and s1: "s1 = rememberResponse key j m"
    using run new' up
    by (cases "executeExchangeInternal u points (Some k) t"; cases "fst (executeExchangeInternal u points (Some k) t)")
      (auto simp: unf withClientKey_def getCachedIdemResponse_def transact_def onCore_def acquireIdemKey_def t_def [symmetric]
        split: if_splits)
  have fresh': "findByIdempotencyKey (pointLedger (core t)) (''exchange-pts:'' @ exchangeRef u k) = None"
    "findByIdempotencyKey (coinLedger (core t)) ((if isAgent t u then ''exchange-ct:'' else ''exchange-coin:'') @ exchangeRef u k) = None"
    using fresh tf by (simp_all add: moneyFrame_def)
  note x = exchange_success [OF work moved_wf [OF mt wf] fresh', unfolded tf(2)]
  have last: "moneyFrame m s1" unfolding s1 by (rule moneyFrame_intros)
  have stored: "idemKeys (core s1) key = Some (Resolved j)" "redisUp (core s1)"
    using x(3) up tf(1) by (simp_all add: s1 rememberResponse_def onCore_def resolveIdemKey_def moneyFrame_def)
  obtain rate where amt: "10000 \<le> points" "10000 dvd points"
    and mv: "moved (core t) (core m) (\<lambda>x. moving (u, POINT) (- points) x + moving (u, if isAgent s u then TRADING_COIN else COIN) (points div 10000 * rate) x)"
    using x(1) by blast
  have mv1: "moved (core s) (core s1) (\<lambda>x. moving (u, POINT) (- points) x + moving (u, if isAgent s u then TRADING_COIN else COIN) (points div 10000 * rate) x)"
    using moved_still [OF still_moved [OF mt mv] moneyFrame_moved [OF last]] .
  have replay: "exchangePointsForTradingCoins u points (Some k) s1 = (Inr j, s1)"
    using stored by (simp add: unf withClientKey_def getCachedIdemResponse_def)
  have quiet: "moneyFrame s1 (snd (exchangePointsForTradingCoins u p (Some k) (s1\<lparr>core := (core s1)\<lparr>idemKeys := keys\<rparr>\<rparr>)))" for p keys
  proof -
    let ?z = "s1\<lparr>core := (core s1)\<lparr>idemKeys := keys\<rparr>\<rparr>"
    have "pointLedger (core m) = pointLedger (core ?z)" using last by (simp add: moneyFrame_def)
    then have "moneyFrame ?z (snd (exchangePointsForTradingCoins u p (Some k) ?z))"
      unfolding unf using x(2) by (intro withClientKey_moneyFrame exchange_refused) (simp add: moneyFrame_def)
    then show ?thesis by (simp add: moneyFrame_def)
  qed
  show ?thesis
    using amt replay moved_wf [OF mv1 wf] moved_bal [OF mv1 wf] moved_bal [OF moneyFrame_moved [OF quiet] moved_wf [OF mv1 wf]]
    by (auto simp: add.assoc intro!: exI [of _ rate])
qed

lemma pointDebit_total:
  assumes wf: "Ledger.wf w" and amt: "0 < amt" "amt \<le> availableOf w u"
    and fresh: "findByIdempotencyKey (pointLedger w) (p_idempotencyKey opts) = None" and frz: "assertPointsDebitAllowed u w = Inr ()"
  shows "\<exists>x w'. pointDebit u amt tt True True opts w = Inr (x, w')"
proof -
  obtain wl w1 where g: "getOrCreate u POINT w = (wl, w1)" by fastforce
  let ?w2 = "snd (lockForUpdate (wallet_id wl) w1)"
  have fr: "assertPointsDebitAllowed u ?w2 = Inr ()"
    using frz assertPointsDebitAllowed_users [of ?w2 w u] by (simp add: getOrCreate_keeps [OF g])
  have "findByIdempotencyKey (pointLedger ?w2) (p_idempotencyKey opts) = None" using fresh by (simp add: getOrCreate_keeps [OF g])
  then have "\<exists>e w3. pointInsert (pointEntry (wallet_id wl) DEBIT tt amt (balanceOf w (u, POINT) - amt) opts) ?w2 = Inr (e, w3)"
    using amt(1) by (simp add: pointInsert_Inr pointEntry_def)
  then show ?thesis
    using amt fresh fr
    by (auto simp: pointDebit_def g Let_def locked_point_balance [OF wf g] getOrCreate_unconfirmed [OF g] availableOf_def)
qed

lemma exchangeTx_total:
  assumes wf: "Ledger.wf w" and amt: "0 < points" "points \<le> availableOf w u" "0 < coins" "assertPointsDebitAllowed u w = Inr ()"
    and fresh: "findByIdempotencyKey (pointLedger w) (''exchange-pts:'' @ ref) = None"
      "findByIdempotencyKey (coinLedger w) ((if agent then ''exchange-ct:'' else ''exchange-coin:'') @ ref) = None"
  shows "\<exists>w'. exchangeTx u agent points coins ref keyed w = Inr ((), w')"
proof -
  let ?c = "if agent then TRADING_COIN else COIN"
  obtain pw w1 tw w2 where g: "getOrCreate u POINT w = (pw, w1)" "getOrCreate u ?c w1 = (tw, w2)" by fastforce
  define w3 where "w3 = lockWalletsInOrder [wallet_id pw, wallet_id tw] w2"
  note o3 = open_two [OF g, of "[wallet_id pw, wallet_id tw]", folded w3_def]
  have "unconfirmedOf y v = unconfirmedOf x v" if "getOrCreate b d x = (wl, y)" for b d x wl y v
    using that by (auto simp: getOrCreate_def unconfirmedOf_def findWallet_def find_append Let_def split: option.splits if_splits)
  then have "unconfirmedOf w2 u = unconfirmedOf w u" using g by metis
  then have av: "availableOf w3 u = availableOf w u"
    using moved_bal [OF o3(1) wf] by (simp add: availableOf_def w3_def lockWalletsInOrder_eq unconfirmedOf_def findWallet_def)
  have "assertPointsDebitAllowed u w3 = Inr ()" using amt(4) assertPointsDebitAllowed_users [OF coinFrame_keeps(1) [OF o3(2)]] by simp
  moreover have "findByIdempotencyKey (pointLedger w3) (p_idempotencyKey (exchangePointOptions agent ref)) = None"
    using fresh(1) coinFrame_keeps(5) [OF o3(2)] by (simp add: exchangePointOptions_def)
  ultimately obtain x w4 where pd: "pointDebit u points P_TRANSFER_OUT True True (exchangePointOptions agent ref) w3 = Inr (x, w4)"
    using pointDebit_total [OF moved_wf [OF o3(1) wf]] amt av by metis
  have "findByIdempotencyKey (coinLedger w4) (o_idempotencyKey (exchangeCoinOptions agent ref)) = None"
    using fresh(2) pointDebit_keeps(1) [OF pd] o3(3) by (simp add: exchangeCoinOptions_def)
  then obtain y w5 where "credit u coins (if agent then C_TRADING_EXCHANGE_FROM_POINTS else C_POINT_EXCHANGE_TO_COINS) (exchangeCoinOptions agent ref) w4 = Inr (y, w5)"
    using credit_total [OF amt(3)] by metis
  then show ?thesis using pd fresh(1) unfolding exchangeTx_def g Let_def split_conv w3_def [symmetric] by simp
qed

theorem exchange_once_witness:
  "\<exists>j s1. exchangePointsForTradingCoins 7 20000 (Some ''k'') sampleTrading = (Inr j, s1)
    \<and> balanceOf (core s1) (7, POINT) = 10000 \<and> balanceOf (core (snd (exchangePointsForTradingCoins 7 20000 (Some ''k'') s1))) (7, POINT) = 10000"
proof -
  let ?s = "sampleTrading" and ?key = "''ct-exchange:'' @ show_nat 7 @ '':'' @ ''k''"
  define t where "t = ?s\<lparr>core := (core ?s)\<lparr>idemKeys := (idemKeys (core ?s))(?key \<mapsto> Processing)\<rparr>\<rparr>"
  have user: "users (core ?s) 7 = Some sampleUser" "isAgent ?s 7" "agencies (core ?s) = Map.empty" "idemKeys (core ?s) = Map.empty" "redisUp (core ?s)"
    by (simp_all add: sampleTrading_def emptyWorld_def)
  have keys: "findByIdempotencyKey (pointLedger (core ?s)) (''exchange-pts:'' @ exchangeRef 7 ''k'') = None"
    "findByIdempotencyKey (coinLedger (core ?s)) ((if isAgent ?s 7 then ''exchange-ct:'' else ''exchange-coin:'') @ exchangeRef 7 ''k'') = None"
    by (rule sampleTrading_keys, simp)+
  have t: "isAgent t = isAgent ?s" "users (core t) = users (core ?s)" "agencies (core t) = Map.empty" "pointLedger (core t) = pointLedger (core ?s)"
    "coinLedger (core t) = coinLedger (core ?s)" "agentExchangeRates t = [(0, None, 9500)]" "moneyFrame ?s t"
    using user(3) by (simp_all add: t_def moneyFrame_def) (simp add: sampleTrading_def)
  have "exchangeChecks 7 20000 t = (Inr 9500, t)"
    using user t gate_open [of t 7]
    by (simp add: exchangeChecks_def assertPositiveAmountMultiple_def POINTS_EXCHANGE_STEP_def bdiv_nonneg lookupExchangeCoinsPerUsd_def inTier_def)
  moreover obtain w' where "exchangeTx 7 True 20000 19000 (exchangeRef 7 ''k'') True (core t) = Inr ((), w')"
  proof -
    have wft: "Ledger.wf (core t)" by (rule moved_wf [OF moneyFrame_moved [OF t(7)] sampleTrading_wf])
    have "availableOf (core t) 7 = 30000"
      using moved_bal [OF moneyFrame_moved [OF t(7)] sampleTrading_wf] sampleTrading_balances(2)
      by (simp add: availableOf_def t_def unconfirmedOf_def) (simp add: sampleTrading_def emptyWorld_def findWallet_def)
    moreover have "assertPointsDebitAllowed 7 (core t) = Inr ()"
      using user(1) t(2) by (simp add: assertPointsDebitAllowed_def getUserWalletFreezeFlags_def sampleUser_def)
    ultimately show thesis
      using exchangeTx_total [OF wft, of 20000 7 19000 "exchangeRef 7 ''k''" True True] keys user(2) t(4,5) that by auto
  qed
  ultimately have "\<exists>j s1. executeExchangeInternal 7 20000 (Some ''k'') t = (Inr j, s1)"
    using t user coinsForPoints_exact [of 20000 9500]
    by (simp add: executeExchangeInternal_def runExchange_def exchangeRefId_def transact_def onCore_def Let_def)
  then obtain j m where work: "executeExchangeInternal 7 20000 (Some ''k'') t = (Inr j, m)" by blast
  have "exchangePointsForTradingCoins 7 20000 (Some ''k'') ?s = (Inr j, rememberResponse ?key j m)"
    using user(4,5) work unfolding exchangePointsForTradingCoins_def
    by (simp add: withClientKey_def getCachedIdemResponse_def transact_def onCore_def acquireIdemKey_def t_def)
  note run = this
  from exchange_once [OF sampleTrading_wf run _ keys] user(4) run show ?thesis
    by (auto simp: sampleTrading_balances moving_def)
qed

section \<open>Top-ups\<close>

lemma completed_found:
  assumes "find (\<lambda>r. ord_id r = i) rows = Some ord"
  shows "find (\<lambda>r. ord_id r = i) (map (\<lambda>r. if ord_id r = i then r\<lparr>ord_status := st, ord_entry := e\<rparr> else r) rows)
    = Some (ord\<lparr>ord_status := st, ord_entry := e\<rparr>)"
  using assms by (induction rows) (auto split: if_splits)

lemma trading_cache_money: "moved (core s) (core (adjustTradingBalanceCache u s)) still"
  by (rule moved_frame) (simp_all add: adjustTradingBalanceCache_def)

text \<open>
  The confirmation of a pending top-up order: a payment of another amount is refused and changes nothing; the
  payment of the order's amount credits the order's coins to the trading wallet of the agent who ordered them,
  changes no other account, and every further confirmation of the order succeeds without moving anything.
\<close>

theorem topup_paid_once:
  assumes wf: "Ledger.wf (core s)" and ord: "find (\<lambda>r. ord_id r = i) (tradingOrders s) = Some ord" "ord_status ord = ''PENDING''" "0 < ord_coins ord"
    and fresh: "findByIdempotencyKey (coinLedger (core s)) (''trading-topup:'' @ show_nat i) = None"
  shows "if usd \<noteq> ord_amountUsd ord then confirmTopup i agent ref usd s = (Inl (AppError 400 ''TOPUP_AMOUNT_MISMATCH'' []), s)
    else \<exists>s'. confirmTopup i agent ref usd s = (Inr (), s') \<and> Ledger.wf (core s')
      \<and> (\<forall>x. balanceOf (core s') x = balanceOf (core s) x + moving (ord_agent ord, TRADING_COIN) (ord_coins ord) x)
      \<and> (\<forall>agent' ref' usd' x. fst (confirmTopup i agent' ref' usd' s') = Inr ()
           \<and> balanceOf (core (snd (confirmTopup i agent' ref' usd' s'))) x = balanceOf (core s') x)"
proof (cases "usd = ord_amountUsd ord")
  case True
  obtain wl w1 where g: "getOrCreate (ord_agent ord) TRADING_COIN (core s) = (wl, w1)" by fastforce
  define w2 where "w2 = snd (lockForUpdate (wallet_id wl) w1)"
  let ?b = "latestCoinBalance w2 (wallet_id wl)"
  let ?d = "(newEntry (wallet_id wl) CREDIT C_TRADING_TOPUP (ord_coins ord) (?b + ord_coins ord) (''trading-topup:'' @ show_nat i))
     \<lparr>refId := Some ref, description := Some ''Trading coin top-up''\<rparr>"
  have "findByIdempotencyKey (coinLedger w2) (idempotencyKey ?d) = None" using fresh getOrCreate_keeps(1) [OF g] by (simp add: w2_def)
  then obtain e w3 where ins: "coinInsert ?d w2 = Inr (e, w3)" using coinInsert_total [of ?d w2] ord(3) by auto
  define m where "m = updateOrder i (\<lambda>r. r\<lparr>ord_status := ''COMPLETED'', ord_entry := Some (entry_id e)\<rparr>) (s\<lparr>core := w3\<rparr>)"
  define s' where "s' = adjustTradingBalanceCache agent m"
  have run: "confirmTopup i agent ref usd s = (Inr (), s')"
    unfolding confirmTopup_def ord(1) option.case ord(2) True g Let_def split_conv w2_def [symmetric] ins s'_def m_def by simp
  have "coinDelta ?d = ord_coins ord" by (simp add: coinDelta_def newEntry_def)
  then have "moved (core s) w3 (moving (ord_agent ord, TRADING_COIN) (ord_coins ord))"
    using coin_post_moved [OF g _ levelFrame_refl, of ?d "wallet_id wl" e w3] ins ord(3) by (simp add: w2_def [symmetric])
  moreover have "core m = w3" by (simp add: m_def updateOrder_def)
  ultimately have mv: "moved (core s) (core s') (moving (ord_agent ord, TRADING_COIN) (ord_coins ord))"
    unfolding s'_def using trading_cache_money [of m agent] by (auto intro: moved_still)
  have "find (\<lambda>r. ord_id r = i) (tradingOrders s') = Some (ord\<lparr>ord_status := ''COMPLETED'', ord_entry := Some (entry_id e)\<rparr>)"
    using completed_found [OF ord(1)] by (simp add: s'_def m_def updateOrder_def adjustTradingBalanceCache_def)
  then have "confirmTopup i agent' ref' usd' s' = (Inr (), adjustTradingBalanceCache agent' s')" for agent' ref' usd'
    by (simp add: confirmTopup_def)
  then show ?thesis
    using True run moved_wf [OF mv wf] moved_bal [OF mv wf] moved_bal [OF trading_cache_money moved_wf [OF mv wf]] by auto
qed (use ord in \<open>simp add: confirmTopup_def\<close>)

theorem topup_paid_once_witness:
  "confirmTopup 15 7 ''g'' 11 sampleTrading = (Inl (AppError 400 ''TOPUP_AMOUNT_MISMATCH'' []), sampleTrading)
    \<and> balanceOf (core (snd (confirmTopup 15 7 ''g'' 10 sampleTrading))) (7, TRADING_COIN) = 95000"
proof -
  obtain ord where ord: "find (\<lambda>r. ord_id r = 15) (tradingOrders sampleTrading) = Some ord" "ord_status ord = ''PENDING''"
      "ord_coins ord = 90000" "ord_amountUsd ord = 10" "ord_agent ord = 7"
    by (simp add: sampleTrading_def)
  have key: "findByIdempotencyKey (coinLedger (core sampleTrading)) (''trading-topup:'' @ show_nat 15) = None"
    by (rule sampleTrading_keys) simp
  from topup_paid_once [OF sampleTrading_wf ord(1,2) _ key, of 10 7 "''g''"] topup_paid_once [OF sampleTrading_wf ord(1,2) _ key, of 11 7 "''g''"] ord(3-5)
  show ?thesis by (auto simp: sampleTrading_balances moving_def)
qed

end
