(* ===== verification/Periods.thy ===== *)
theory Periods
  imports Calendar
begin

text \<open>
  Windows of time (\<open>src/src/utils/datetime.ts\<close>): the days, weeks and months that reports and the commission
  tiers are computed over. Instants are milliseconds since the epoch, and a day of UTC has 86400000 of
  them, so that \<open>setUTCDate\<close> with an offset of days is an addition. The current time is an argument. Dates
  that arrive as text are arguments after their parsing by the language, \<open>None\<close> where it gives \<open>NaN\<close>.
\<close>

section \<open>Days and weeks\<close>

definition addUtcDays :: "int \<Rightarrow> int \<Rightarrow> int" where
  "addUtcDays from days = from + days * MS_PER_DAY"

definition utcStartOfDay :: "int \<Rightarrow> int" where
  "utcStartOfDay t = t div MS_PER_DAY * MS_PER_DAY"

definition endOfUTCDay :: "int \<Rightarrow> int" where
  "endOfUTCDay t = t div MS_PER_DAY * MS_PER_DAY + (MS_PER_DAY - 1)"

text \<open>The epoch was a Thursday; Sunday is 0.\<close>

definition getUTCDay :: "int \<Rightarrow> int" where
  "getUTCDay t = (t div MS_PER_DAY + 4) mod 7"

definition utcStartOfWeek :: "int \<Rightarrow> int" where
  "utcStartOfWeek t = (let day = utcStartOfDay t in addUtcDays day (- getUTCDay day))"

section \<open>Windows of the agency commission\<close>

record window_cfg =
  cfg_days :: int
  cfg_hours :: int
  cfg_minutes :: int

definition agencyCommissionWindowTotalMinutes :: "window_cfg \<Rightarrow> int" where
  "agencyCommissionWindowTotalMinutes cfg =
     max 1 (max 0 (cfg_days cfg) * 24 * 60 + max 0 (cfg_hours cfg) * 60 + max 0 (cfg_minutes cfg))"

definition resolveAgencyCommissionRollingWindowBounds :: "window_cfg \<Rightarrow> int \<Rightarrow> int \<times> int \<times> int" where
  "resolveAgencyCommissionRollingWindowBounds cfg now =
     (let totalMinutes = agencyCommissionWindowTotalMinutes cfg;
          wholeDays = totalMinutes mod (24 * 60) = 0;
          anchor = if wholeDays then utcStartOfDay now else now in
      (anchor - totalMinutes * 60000, now, totalMinutes))"

definition resolveAgencyCommissionRollingWindowDays :: "window_cfg \<Rightarrow> int \<Rightarrow> int \<times> int" where
  "resolveAgencyCommissionRollingWindowDays cfg now =
     (let (from, toExclusive, _) = resolveAgencyCommissionRollingWindowBounds cfg now;
          lastInstant = max from (toExclusive - 1) in
      (utcStartOfDay from, utcStartOfDay lastInstant))"

definition agencyCommissionRollingWindowDays :: "int \<Rightarrow> int \<times> int" where
  "agencyCommissionRollingWindowDays now =
     resolveAgencyCommissionRollingWindowDays \<lparr> cfg_days = 30, cfg_hours = 0, cfg_minutes = 0 \<rparr> now"

definition utcRollingPeriodDays :: "int \<Rightarrow> int \<Rightarrow> int \<times> int" where
  "utcRollingPeriodDays periodDays now =
     (let today = utcStartOfDay now; inclusiveDays = max 1 periodDays in
      (addUtcDays today (- (inclusiveDays - 1)), today))"

text \<open>The two dates of a custom range after parsing, when both are given.\<close>

definition resolveCommissionPeriod :: "int option \<Rightarrow> (int option \<times> int option) option \<Rightarrow> int \<Rightarrow> error + int \<times> int" where
  "resolveCommissionPeriod periodDays custom now =
     (case custom of
        Some (Some start, Some end) \<Rightarrow>
          if end < start then Inl (AppError 400 ''INVALID_DATE_RANGE'' [])
          else if end - start > 365 * 24 * 60 * 60 * 1000 then Inl (AppError 400 ''DATE_RANGE_TOO_LARGE'' [])
          else Inr (start, end)
      | Some _ \<Rightarrow> Inl (AppError 400 ''INVALID_DATE_RANGE'' [])
      | None \<Rightarrow> Inr (utcRollingPeriodDays (case periodDays of None \<Rightarrow> 30 | Some n \<Rightarrow> n) now))"

definition commissionPeriodToLedgerBounds :: "int \<Rightarrow> int \<Rightarrow> int \<times> int" where
  "commissionPeriodToLedgerBounds start end = (start, addUtcDays end 1)"

section \<open>Windows of the dashboard and of the point summary\<close>

datatype DashboardPeriod = TODAY | YESTERDAY | THIS_WEEK | THIS_MONTH | LAST_30_DAYS

datatype PointSummaryPeriod = PS_LAST_30_DAYS | PS_LAST_7_DAYS | PS_THIS_MONTH | PS_LAST_MONTH | PS_THIS_WEEK | PS_LAST_WEEK

definition daysFromMonday :: "int \<Rightarrow> int" where
  "daysFromMonday now = (if getUTCDay now = 0 then 6 else getUTCDay now - 1)"

definition firstOfMonth :: "int \<Rightarrow> int" where
  "firstOfMonth now = DateUTC (getUTCFullYear now) (getUTCMonth now)"

text \<open>
  A custom range: each date as given, with \<open>None\<close> when it is missing. The inner \<open>None\<close> is a text that is not
  a date. An explicit range wins over a period.
\<close>

definition resolveDashboardPeriod ::
  "DashboardPeriod option \<Rightarrow> int option option \<Rightarrow> int option option \<Rightarrow> int \<Rightarrow> error + int \<times> int" where
  "resolveDashboardPeriod period from to now =
     (let bad = AppError 400 ''INVALID_DATE_RANGE'' [] in
      case (from, to) of
        (None, None) \<Rightarrow>
          Inr (case (case period of None \<Rightarrow> LAST_30_DAYS | Some p \<Rightarrow> p) of
             TODAY \<Rightarrow> (utcStartOfDay now, endOfUTCDay now)
           | YESTERDAY \<Rightarrow> (let yesterday = addUtcDays now (- 1) in (utcStartOfDay yesterday, endOfUTCDay yesterday))
           | THIS_WEEK \<Rightarrow> (utcStartOfDay (addUtcDays now (- daysFromMonday now)), endOfUTCDay now)
           | THIS_MONTH \<Rightarrow> (firstOfMonth now, endOfUTCDay now)
           | LAST_30_DAYS \<Rightarrow> (utcStartOfDay (addUtcDays now (- 29)), endOfUTCDay now))
      | (Some (Some f), Some (Some t)) \<Rightarrow>
          (let start = utcStartOfDay f; end = endOfUTCDay t in
           if start > end then Inl bad
           else if end - start > 365 * MS_PER_DAY then Inl (AppError 400 ''DATE_RANGE_TOO_LARGE'' [])
           else Inr (start, end))
      | _ \<Rightarrow> Inl bad)"

definition resolvePointSummaryPeriod :: "PointSummaryPeriod \<Rightarrow> int \<Rightarrow> int \<times> int" where
  "resolvePointSummaryPeriod period now =
     (case period of
        PS_LAST_7_DAYS \<Rightarrow> (utcStartOfDay (addUtcDays now (- 6)), endOfUTCDay now)
      | PS_THIS_WEEK \<Rightarrow> (utcStartOfDay (addUtcDays now (- daysFromMonday now)), endOfUTCDay now)
      | PS_LAST_WEEK \<Rightarrow>
          (let thisMonday = addUtcDays now (- daysFromMonday now) in
           (utcStartOfDay (addUtcDays thisMonday (- 7)), endOfUTCDay (addUtcDays thisMonday (- 1))))
      | PS_THIS_MONTH \<Rightarrow> (firstOfMonth now, endOfUTCDay now)
      | PS_LAST_MONTH \<Rightarrow>
          (let (y, m) = utcPreviousYearMonth now; (start, endExclusive) = utcMonthBoundsExclusive y m in
           (start, endOfUTCDay (addUtcDays endExclusive (- 1))))
      | PS_LAST_30_DAYS \<Rightarrow> (utcStartOfDay (addUtcDays now (- 29)), endOfUTCDay now))"

section \<open>Which instants the windows hold\<close>

lemma day_shift:
  "utcStartOfDay (addUtcDays t k) = (t div MS_PER_DAY + k) * MS_PER_DAY"
  "endOfUTCDay (addUtcDays t k) = (t div MS_PER_DAY + k) * MS_PER_DAY + (MS_PER_DAY - 1)"
  "addUtcDays t k div MS_PER_DAY = t div MS_PER_DAY + k"
proof -
  have "(t + k * MS_PER_DAY) div MS_PER_DAY = t div MS_PER_DAY + k" by (simp add: MS_PER_DAY_def)
  then show div: "addUtcDays t k div MS_PER_DAY = t div MS_PER_DAY + k" unfolding addUtcDays_def .
  then show "utcStartOfDay (addUtcDays t k) = (t div MS_PER_DAY + k) * MS_PER_DAY"
    "endOfUTCDay (addUtcDays t k) = (t div MS_PER_DAY + k) * MS_PER_DAY + (MS_PER_DAY - 1)"
    unfolding utcStartOfDay_def endOfUTCDay_def by simp_all
qed

text \<open>An instant lies between the start of one day and the end of another if its day does.\<close>

lemma between_days: "a * MS_PER_DAY \<le> t \<and> t \<le> b * MS_PER_DAY + (MS_PER_DAY - 1) \<longleftrightarrow> a \<le> t div MS_PER_DAY \<and> t div MS_PER_DAY \<le> b"
proof -
  have "t = MS_PER_DAY * (t div MS_PER_DAY) + t mod MS_PER_DAY" "0 \<le> t mod MS_PER_DAY" "t mod MS_PER_DAY < MS_PER_DAY"
    by (simp_all add: MS_PER_DAY_def)
  then show ?thesis by (auto simp: MS_PER_DAY_def)
qed

lemma month_window:
  assumes "utcMonthBoundsExclusive y m = (s, e)" "1 \<le> m" "m \<le> 12"
  shows "s \<le> t \<and> t \<le> endOfUTCDay (addUtcDays e (- 1)) \<longleftrightarrow> utcYearMonth t = (y, m)"
proof -
  have "\<exists>k. e = k * MS_PER_DAY" using assms(1) by (auto simp: utcMonthBoundsExclusive_def DateUTC_def)
  then have "endOfUTCDay (addUtcDays e (- 1)) = e - 1"
    by (auto simp: endOfUTCDay_def addUtcDays_def MS_PER_DAY_def algebra_simps)
  then show ?thesis using assms by (auto simp: month_bounds_iff)
qed

text \<open>Weeks counted from Monday; the Monday of an instant's week.\<close>

lemma monday: "t div MS_PER_DAY - daysFromMonday t = 7 * ((t div MS_PER_DAY + 3) div 7) - 3"
proof -
  have "(d + 4) mod 7 = (if (d + 3) mod 7 = 6 then 0 else (d + 3) mod 7 + 1)" for d :: int by presburger
  then have "daysFromMonday t = (t div MS_PER_DAY + 3) mod 7" unfolding daysFromMonday_def getUTCDay_def
    using pos_mod_sign [of 7 "t div MS_PER_DAY + 3"] by auto
  then show ?thesis using mult_div_mod_eq [of 7 "t div MS_PER_DAY + 3"] by linarith
qed

lemma this_month_window:
  "firstOfMonth now \<le> t \<and> t \<le> endOfUTCDay now \<longleftrightarrow> t div MS_PER_DAY \<le> now div MS_PER_DAY \<and> utcYearMonth t = utcYearMonth now"
proof -
  obtain y m where ym: "utcYearMonth now = (y, m)" by fastforce
  obtain s e where se: "utcMonthBoundsExclusive y m = (s, e)" by fastforce
  obtain a b where days: "s = a * MS_PER_DAY" "e = b * MS_PER_DAY"
    using se by (auto simp: utcMonthBoundsExclusive_def DateUTC_def)
  have now: "1 \<le> m" "m \<le> 12" "s \<le> now" "now < e" using ym se by (auto simp: month_bounds_iff)
  have "firstOfMonth now = s" using ym se by (auto simp: firstOfMonth_def utcYearMonth_def utcMonthBoundsExclusive_def)
  moreover have "now div MS_PER_DAY < b" using now(4) unfolding days by (simp add: MS_PER_DAY_def)
  moreover have "t < e \<longleftrightarrow> t \<le> (b - 1) * MS_PER_DAY + (MS_PER_DAY - 1)" unfolding days by (auto simp: MS_PER_DAY_def)
  ultimately have "firstOfMonth now \<le> t \<and> t \<le> endOfUTCDay now \<longleftrightarrow> a \<le> t div MS_PER_DAY \<and> t div MS_PER_DAY \<le> now div MS_PER_DAY"
    "s \<le> t \<and> t < e \<longleftrightarrow> a \<le> t div MS_PER_DAY \<and> t div MS_PER_DAY < b" "now div MS_PER_DAY < b"
    unfolding endOfUTCDay_def days using between_days [of a t "now div MS_PER_DAY"] between_days [of a t "b - 1"] by auto
  then show ?thesis using now(1,2) unfolding ym month_bounds_iff se by auto
qed

text \<open>
  The window of a commission tier that is configured in whole days starts at midnight and stays where it
  is for a day, so that a tier only falls at midnight; it is never empty.
\<close>

lemma whole_day_window:
  assumes "cfg_hours cfg = 0" "cfg_minutes cfg = 0" "0 < cfg_days cfg"
  shows "resolveAgencyCommissionRollingWindowBounds cfg now =
      ((now div MS_PER_DAY - cfg_days cfg) * MS_PER_DAY, now, cfg_days cfg * 1440)"
  using assms
  by (simp add: resolveAgencyCommissionRollingWindowBounds_def agencyCommissionWindowTotalMinutes_def utcStartOfDay_def
      MS_PER_DAY_def Let_def algebra_simps)

lemma window_never_empty: "fst (resolveAgencyCommissionRollingWindowBounds cfg now) < now"
proof -
  have "utcStartOfDay now \<le> now" by (simp add: utcStartOfDay_def MS_PER_DAY_def)
  moreover have "1 \<le> agencyCommissionWindowTotalMinutes cfg" by (simp add: agencyCommissionWindowTotalMinutes_def)
  ultimately show ?thesis by (simp add: resolveAgencyCommissionRollingWindowBounds_def Let_def)
qed

text \<open>
  The windows of the point summary hold exactly the instants they are named after, in UTC: the last seven
  and thirty days count today; the week starts on its Monday and last week is the seven days before it;
  the last month is the calendar month before the current one, across the turn of the year.
\<close>

theorem point_summary_windows:
  fixes now t :: int
  defines "today \<equiv> now div MS_PER_DAY" and "day \<equiv> t div MS_PER_DAY"
  defines "holds \<equiv> \<lambda>p. fst (resolvePointSummaryPeriod p now) \<le> t \<and> t \<le> snd (resolvePointSummaryPeriod p now)"
  shows "(holds PS_LAST_7_DAYS \<longleftrightarrow> day \<in> {today - 6..today})
    \<and> (holds PS_LAST_30_DAYS \<longleftrightarrow> day \<in> {today - 29..today})
    \<and> (holds PS_THIS_WEEK \<longleftrightarrow> day \<le> today \<and> (day + 3) div 7 = (today + 3) div 7)
    \<and> (holds PS_LAST_WEEK \<longleftrightarrow> (day + 3) div 7 + 1 = (today + 3) div 7)
    \<and> (holds PS_THIS_MONTH \<longleftrightarrow> day \<le> today \<and> utcYearMonth t = utcYearMonth now)
    \<and> (holds PS_LAST_MONTH \<longleftrightarrow> utcYearMonth t = utcPreviousYearMonth now)"
proof -
  note windows = resolvePointSummaryPeriod_def Let_def day_shift endOfUTCDay_def [of now] between_days
  have "holds PS_LAST_7_DAYS \<longleftrightarrow> day \<in> {today - 6..today}" "holds PS_LAST_30_DAYS \<longleftrightarrow> day \<in> {today - 29..today}"
    unfolding holds_def today_def day_def by (simp_all add: windows)
  moreover have "holds PS_THIS_WEEK \<longleftrightarrow> 7 * ((today + 3) div 7) - 3 \<le> day \<and> day \<le> today"
    using monday [of now] unfolding holds_def today_def day_def by (simp add: windows)
  moreover have "holds PS_LAST_WEEK \<longleftrightarrow> 7 * ((today + 3) div 7) - 10 \<le> day \<and> day \<le> 7 * ((today + 3) div 7) - 4"
    using monday [of now] unfolding holds_def today_def day_def by (simp add: windows)
  moreover have "7 * ((d + 3) div 7) - 3 \<le> e \<and> e \<le> d \<longleftrightarrow> e \<le> d \<and> (e + 3) div 7 = (d + 3) div 7"
    "7 * ((d + 3) div 7) - 10 \<le> e \<and> e \<le> 7 * ((d + 3) div 7) - 4 \<longleftrightarrow> (e + 3) div 7 + 1 = (d + 3) div 7" for d e :: int
    by presburger+
  moreover have "holds PS_THIS_MONTH \<longleftrightarrow> day \<le> today \<and> utcYearMonth t = utcYearMonth now"
    unfolding holds_def today_def day_def by (simp add: resolvePointSummaryPeriod_def this_month_window)
  moreover have "holds PS_LAST_MONTH \<longleftrightarrow> utcYearMonth t = utcPreviousYearMonth now"
  proof -
    obtain y m where ym: "utcPreviousYearMonth now = (y, m)" by fastforce
    then have "1 \<le> m" "m \<le> 12" using month_range [of now] by (auto simp: utcPreviousYearMonth_def Let_def split: if_splits)
    then show ?thesis
      using month_window [of y m _ _ t] unfolding holds_def ym
      by (simp add: resolvePointSummaryPeriod_def ym split: prod.splits)
  qed
  ultimately show ?thesis by blast
qed

end
